(* ===== verification/XC_Prelude.thy ===== *)
theory XC_Prelude
  imports
    Main
    "HOL-Library.Word"
    "HOL-Library.List_Lexorder"
    "HOL-Library.Char_ord"
    "HOL-Library.Multiset"
begin

text \<open>
  Shared vocabulary of the development: machine words and byte strings, little-endian
  and big-endian encodings (\<^verbatim>\<open>src/src/crypto/common.h\<close>), ordered association lists for
  \<^verbatim>\<open>std::map\<close> (iteration is in ascending key order, which the lottery draw depends on),
  and the list facts the components use. The named collections below carry the
  component proofs.
\<close>

unbundle bit_operations_syntax

named_theorems map_laws \<open>what the operations of an ordered map promise\<close>
named_theorems byte_laws \<open>lengths and round trips of byte encodings\<close>

type_synonym u8 = "8 word"
type_synonym u16 = "16 word"
type_synonym u32 = "32 word"
type_synonym u64 = "64 word"
type_synonym bytes = "u8 list"

text \<open>
  Opaque blobs (\<^verbatim>\<open>base_blob<160>\<close>, \<^verbatim>\<open>base_blob<256>\<close>) are their bytes in memory order.
  The library order on byte lists compares the first differing byte, as \<^verbatim>\<open>memcmp\<close> does.
\<close>

type_synonym uint160 = bytes
type_synonym uint256 = bytes

section \<open>Blobs\<close>

definition blob_IsNull :: "bytes \<Rightarrow> bool" where
  "blob_IsNull b = list_all (\<lambda>x. x = 0) b"

definition uint160_null :: uint160 where
  "uint160_null = replicate 20 0"

definition uint256_null :: uint256 where
  "uint256_null = replicate 32 0"

lemma blob_IsNull_null [simp]: "blob_IsNull uint160_null"
  by (simp add: blob_IsNull_def uint160_null_def list_all_iff)

section \<open>Fixed-width encodings\<close>

text \<open>
  \<open>le_bytes n x\<close> is the loop \<^verbatim>\<open>for i < n: out[i] = (x >> (8*i)) & 0xff\<close>;
  \<open>le_word\<close> reads such a run back.
\<close>

definition le_bytes :: "nat \<Rightarrow> 'a::len word \<Rightarrow> bytes" where
  "le_bytes n x = map (\<lambda>i. ucast (drop_bit (8 * i) x)) [0..<n]"

fun le_word :: "bytes \<Rightarrow> 'a::len word" where
  "le_word [] = 0"
| "le_word (b # bs) = ucast b OR push_bit 8 (le_word bs)"

definition be_bytes :: "nat \<Rightarrow> 'a::len word \<Rightarrow> bytes" where
  "be_bytes n x = rev (le_bytes n x)"

definition be_word :: "bytes \<Rightarrow> 'a::len word" where
  "be_word bs = le_word (rev bs)"

definition ReadLE16 :: "bytes \<Rightarrow> u16" where "ReadLE16 bs = le_word (take 2 bs)"
definition ReadLE32 :: "bytes \<Rightarrow> u32" where "ReadLE32 bs = le_word (take 4 bs)"
definition ReadLE64 :: "bytes \<Rightarrow> u64" where "ReadLE64 bs = le_word (take 8 bs)"
definition ReadBE32 :: "bytes \<Rightarrow> u32" where "ReadBE32 bs = be_word (take 4 bs)"
definition WriteLE16 :: "u16 \<Rightarrow> bytes" where "WriteLE16 x = le_bytes 2 x"
definition WriteLE32 :: "u32 \<Rightarrow> bytes" where "WriteLE32 x = le_bytes 4 x"
definition WriteLE64 :: "u64 \<Rightarrow> bytes" where "WriteLE64 x = le_bytes 8 x"
definition WriteBE32 :: "u32 \<Rightarrow> bytes" where "WriteBE32 x = be_bytes 4 x"
definition WriteBE64 :: "u64 \<Rightarrow> bytes" where "WriteBE64 x = be_bytes 8 x"

lemma length_le_bytes [simp, byte_laws]: "length (le_bytes n x) = n"
  by (simp add: le_bytes_def)

lemma length_be_bytes [simp, byte_laws]: "length (be_bytes n x) = n"
  by (simp add: be_bytes_def)

lemma length_Write [simp, byte_laws]:
  "length (WriteLE16 a) = 2" "length (WriteLE32 b) = 4" "length (WriteLE64 c) = 8"
  "length (WriteBE32 b) = 4" "length (WriteBE64 c) = 8"
  by (simp_all add: WriteLE16_def WriteLE32_def WriteLE64_def WriteBE32_def WriteBE64_def)

lemma bit_le_word:
  "bit (le_word bs :: 'a::len word) n \<longleftrightarrow>
     n < LENGTH('a) \<and> n div 8 < length bs \<and> bit (bs ! (n div 8)) (n mod 8)"
proof (induction bs arbitrary: n)
  case Nil
  then show ?case by simp
next
  case (Cons b bs)
  show ?case
  proof (cases "n < 8")
    case True
    then show ?thesis
      by (auto simp: bit_simps)
  next
    case False
    then obtain m where m: "n = m + 8" by (metis add.commute le_Suc_ex not_less)
    have "\<not> bit (ucast b :: 'a word) n"
      using False by (auto simp: bit_simps dest: bit_imp_le_length)
    moreover have "n div 8 = Suc (m div 8)" "n mod 8 = m mod 8"
      using m by simp_all
    ultimately show ?thesis
      using Cons.IH [of m] m by (auto simp: bit_simps)
  qed
qed

lemma le_word_le_bytes:
  fixes x :: "'a::len word"
  assumes "LENGTH('a) \<le> 8 * n"
  shows "le_word (le_bytes n x) = x"
proof (rule bit_word_eqI)
  fix k assume k: "k < LENGTH('a)"
  with assms have "k div 8 < n" by linarith
  with k show "bit (le_word (le_bytes n x) :: 'a word) k = bit x k"
    by (simp add: bit_le_word le_bytes_def bit_simps)
qed

lemma ReadWrite [simp, byte_laws]:
  "ReadLE16 (WriteLE16 a @ bs) = a" "ReadLE32 (WriteLE32 b @ bs) = b"
  "ReadLE64 (WriteLE64 c @ bs) = c" "ReadBE32 (WriteBE32 b @ bs) = b"
  by (simp_all add: ReadLE16_def ReadLE32_def ReadLE64_def ReadBE32_def be_word_def
      WriteLE16_def WriteLE32_def WriteLE64_def WriteBE32_def be_bytes_def le_word_le_bytes)

section \<open>Characters and bytes\<close>

definition byte_of_char :: "char \<Rightarrow> u8" where
  "byte_of_char c = of_nat (of_char c)"

definition char_of_byte :: "u8 \<Rightarrow> char" where
  "char_of_byte b = char_of (unat b)"

definition bytes_of :: "string \<Rightarrow> bytes" where
  "bytes_of s = map byte_of_char s"

definition string_of :: "bytes \<Rightarrow> string" where
  "string_of bs = map char_of_byte bs"

lemma char_of_byte_of_char [simp]: "char_of_byte (byte_of_char c) = c"
  by (simp add: char_of_byte_def byte_of_char_def unat_of_nat)

lemma byte_of_char_of_byte [simp]: "byte_of_char (char_of_byte b) = b"
proof -
  have "unat b < 256" using unsigned_less [of b, where 'a = nat] by simp
  then show ?thesis by (simp add: char_of_byte_def byte_of_char_def)
qed

lemma string_of_bytes_of [simp, byte_laws]: "string_of (bytes_of s) = s"
  by (simp add: string_of_def bytes_of_def o_def)

lemma bytes_of_string_of [simp, byte_laws]: "bytes_of (string_of b) = b"
  by (simp add: string_of_def bytes_of_def o_def)

lemma length_bytes_of [simp, byte_laws]: "length (bytes_of s) = length s"
  by (simp add: bytes_of_def)

lemma length_string_of [simp, byte_laws]: "length (string_of s) = length s"
  by (simp add: string_of_def)

lemma bytes_of_Nil_iff [simp]: "bytes_of s = [] \<longleftrightarrow> s = []"
  by (simp add: bytes_of_def)

lemma inj_bytes_of: "inj bytes_of"
  by (metis injI string_of_bytes_of)

end
