(* ===== verification/XC_Map.thy ===== *)
theory XC_Map
  imports XC_Prelude
begin

text \<open>
  \<^verbatim>\<open>std::map\<close> as an association list kept in strictly ascending key order, so that
  a range-for over the map is a traversal of the list. The contract the components rely
  on is the locale \<open>std_map\<close>; its lemmas (erasing a list of keys, replacing a value,
  bounds on the size) are proved once and used through the interpretation \<open>om\<close>.
\<close>

type_synonym ('k, 'v) omap = "('k \<times> 'v) list"

definition map_ok :: "('k::linorder, 'v) omap \<Rightarrow> bool" where
  "map_ok m = sorted_wrt (<) (map fst m)"

primrec map_put :: "'k::linorder \<Rightarrow> 'v \<Rightarrow> ('k, 'v) omap \<Rightarrow> ('k, 'v) omap" where
  "map_put k v [] = [(k, v)]"
| "map_put k v (p # m) =
     (if fst p < k then p # map_put k v m
      else if k < fst p then (k, v) # p # m
      else (k, v) # m)"

definition map_del :: "'k \<Rightarrow> ('k, 'v) omap \<Rightarrow> ('k, 'v) omap" where
  "map_del k m = filter (\<lambda>p. fst p \<noteq> k) m"

definition map_keys :: "('k, 'v) omap \<Rightarrow> 'k list" where
  "map_keys m = map fst m"

section \<open>The contract\<close>

locale std_map =
  fixes empty :: "'m"
    and get :: "'m \<Rightarrow> 'k \<Rightarrow> 'v option"
    and put :: "'k \<Rightarrow> 'v \<Rightarrow> 'm \<Rightarrow> 'm"
    and del :: "'k \<Rightarrow> 'm \<Rightarrow> 'm"
    and entries :: "'m \<Rightarrow> ('k \<times> 'v) list"
    and ok :: "'m \<Rightarrow> bool"
  assumes get_empty: "get empty k = None"
    and ok_empty: "ok empty"
    and get_put: "ok m \<Longrightarrow> get (put k v m) k' = (if k' = k then Some v else get m k')"
    and ok_put: "ok m \<Longrightarrow> ok (put k v m)"
    and get_del: "ok m \<Longrightarrow> get (del k m) k' = (if k' = k then None else get m k')"
    and ok_del: "ok m \<Longrightarrow> ok (del k m)"
    and get_entries: "ok m \<Longrightarrow> get m k = Some v \<longleftrightarrow> (k, v) \<in> set (entries m)"
    and size_put: "ok m \<Longrightarrow> length (entries (put k v m)) =
        (if get m k = None then Suc (length (entries m)) else length (entries m))"
    and size_del: "ok m \<Longrightarrow> length (entries (del k m)) =
        (if get m k = None then length (entries m) else length (entries m) - 1)"
begin

lemma ok_del_all: "ok m \<Longrightarrow> ok (fold del ks m)"
  by (induction ks arbitrary: m) (simp_all add: ok_del)

lemma get_del_all: "ok m \<Longrightarrow> get (fold del ks m) k = (if k \<in> set ks then None else get m k)"
  by (induction ks arbitrary: m) (simp_all add: ok_del get_del)

lemma size_del_le: "ok m \<Longrightarrow> length (entries (del k m)) \<le> length (entries m)"
  by (simp add: size_del)

lemma size_del_all_le: "ok m \<Longrightarrow> length (entries (fold del ks m)) \<le> length (entries m)"
proof (induction ks arbitrary: m)
  case (Cons k ks)
  then show ?case
    using size_del_le [of m k] ok_del [of m k] by fastforce
qed simp

lemma size_put_le: "ok m \<Longrightarrow> length (entries (put k v m)) \<le> Suc (length (entries m))"
  by (simp add: size_put)

lemma size_del_present:
  assumes "ok m" "get m k = Some v"
  shows "Suc (length (entries (del k m))) = length (entries m)"
proof -
  have "entries m \<noteq> []"
    using get_entries [OF assms(1)] assms(2) by fastforce
  with assms show ?thesis by (simp add: size_del)
qed

lemma get_put_del: "ok m \<Longrightarrow> get (put k v (del k' m)) j =
    (if j = k then Some v else if j = k' then None else get m j)"
  by (simp add: get_put get_del ok_del)

end

section \<open>The list model meets it\<close>

lemma map_ok_Nil [simp]: "map_ok []"
  by (simp add: map_ok_def)

lemma map_ok_Cons: "map_ok (p # m) \<longleftrightarrow> (\<forall>q \<in> set m. fst p < fst q) \<and> map_ok m"
  by (auto simp: map_ok_def)

lemma fst_set_map_put: "fst ` set (map_put k v m) = insert k (fst ` set m)"
  by (induction m) (auto simp: not_less order.order_iff_strict)

lemma map_ok_put: "map_ok m \<Longrightarrow> map_ok (map_put k v m)"
proof (induction m)
  case (Cons p m)
  have "\<forall>q \<in> set (map_put k v m). fst p < fst q" if "fst p < k"
  proof
    fix q assume "q \<in> set (map_put k v m)"
    then have "fst q \<in> insert k (fst ` set m)"
      using fst_set_map_put by (metis image_eqI)
    with that Cons.prems show "fst p < fst q"
      by (auto simp: map_ok_Cons)
  qed
  with Cons show ?case
    by (auto simp: map_ok_Cons not_less_iff_gr_or_eq intro: less_trans)
qed (simp add: map_ok_def)

lemma map_of_put: "map_of (map_put k v m) k' = (if k' = k then Some v else map_of m k')"
  by (induction m) (auto simp: not_less_iff_gr_or_eq)

lemma map_ok_del: "map_ok m \<Longrightarrow> map_ok (map_del k m)"
  by (induction m) (auto simp: map_ok_Cons map_del_def)

lemma map_of_del: "map_of (map_del k m) k' = (if k' = k then None else map_of m k')"
  by (induction m) (auto simp: map_del_def)

lemma map_ok_distinct: "map_ok m \<Longrightarrow> distinct (map fst m)"
  by (auto simp: map_ok_def strict_sorted_iff)

lemma map_of_in_set: "map_ok m \<Longrightarrow> map_of m k = Some v \<longleftrightarrow> (k, v) \<in> set m"
  by (simp add: map_of_eq_Some_iff map_ok_distinct)

lemma length_map_put:
  "map_ok m \<Longrightarrow> length (map_put k v m) = (if map_of m k = None then Suc (length m) else length m)"
proof (induction m)
  case (Cons p m)
  have "map_of m k = None" if "k < fst p"
    using that Cons.prems by (force simp: map_ok_Cons map_of_eq_None_iff)
  with Cons show ?case
    by (cases p) (auto simp: map_ok_Cons not_less_iff_gr_or_eq)
qed simp

lemma map_del_absent: "map_of m k = None \<Longrightarrow> map_del k m = m"
  by (force simp: map_del_def map_of_eq_None_iff filter_id_conv)

lemma length_map_del:
  "map_ok m \<Longrightarrow> length (map_del k m) = (if map_of m k = None then length m else length m - 1)"
proof (induction m)
  case (Cons p m)
  show ?case
  proof (cases "fst p = k")
    case True
    with Cons.prems have "map_of m k = None"
      by (force simp: map_ok_Cons map_of_eq_None_iff)
    then have "map_del k m = m" by (rule map_del_absent)
    with True show ?thesis by (cases p) (simp add: map_del_def)
  next
    case False
    then have "map_of (p # m) k = map_of m k"
      by (cases p) simp
    moreover have "m \<noteq> []" if "map_of m k \<noteq> None"
      using that by auto
    ultimately show ?thesis
      using Cons False by (cases m) (auto simp: map_ok_Cons map_del_def)
  qed
qed (simp add: map_del_def)

interpretation om: std_map "[]" map_of map_put map_del "\<lambda>m. m" map_ok
  by unfold_locales
    (simp_all add: map_of_put map_ok_put map_of_del map_ok_del map_of_in_set
      length_map_put length_map_del)

lemmas om_laws [map_laws] =
  om.get_empty om.ok_empty om.get_put om.ok_put om.get_del om.ok_del
  om.ok_del_all om.get_del_all

lemma map_keys_sorted: "map_ok m \<Longrightarrow> sorted_wrt (<) (map_keys m)"
  by (simp add: map_ok_def map_keys_def)

lemma set_map_keys: "set (map_keys m) = dom (map_of m)"
  by (simp add: map_keys_def dom_map_of_conv_image_fst)

text \<open>A range-for that collects the keys of the entries satisfying a test.\<close>

lemma sorted_filter_keys:
  "map_ok m \<Longrightarrow> sorted_wrt (<) (map fst (filter P m))"
  by (induction m) (auto simp: map_ok_Cons)

end
