(* ===== verification/XC_Handle.thy ===== *)
theory XC_Handle
  imports XC_Prelude
begin

text \<open>
  X handles in \<^verbatim>\<open>src/src/lottery.cpp\<close>: trimming, normalisation and the
  \<^verbatim>\<open>handle[:userid]\<close> form of the command line and of the invite-list file.
\<close>

abbreviation "MAX_X_HANDLE \<equiv> (32 :: nat)"

definition isspace :: "char \<Rightarrow> bool" where
  "isspace c \<longleftrightarrow> c = CHR '' '' \<or> (9 \<le> (of_char c :: nat) \<and> (of_char c :: nat) \<le> 13)"

definition TrimCopy :: "string \<Rightarrow> string" where
  "TrimCopy inp = rev (dropWhile isspace (rev (dropWhile isspace inp)))"

datatype handle_error = handle_empty | handle_too_long | handle_bad_char

definition fold_case :: "char \<Rightarrow> char" where
  "fold_case c = (if CHR ''A'' \<le> c \<and> c \<le> CHR ''Z'' then char_of ((of_char c :: nat) - 65 + 97) else c)"

definition handle_char :: "char \<Rightarrow> bool" where
  "handle_char c \<longleftrightarrow> CHR ''a'' \<le> c \<and> c \<le> CHR ''z'' \<or> CHR ''0'' \<le> c \<and> c \<le> CHR ''9'' \<or> c = CHR ''_''"

text \<open>The loop over the characters; \<open>None\<close> is its early return.\<close>

fun handle_chars :: "string \<Rightarrow> string option" where
  "handle_chars [] = Some []"
| "handle_chars (c # cs) =
     (if \<not> handle_char (fold_case c) then None
      else case handle_chars cs of None \<Rightarrow> None | Some out \<Rightarrow> Some (fold_case c # out))"

definition NormalizeXHandle :: "string \<Rightarrow> handle_error + string" where
  "NormalizeXHandle inp =
     (let s = TrimCopy inp;
          s = (if s \<noteq> [] \<and> hd s = CHR ''@'' then tl s else s);
          s = TrimCopy s
      in if s = [] then Inl handle_empty
         else if MAX_X_HANDLE < length s then Inl handle_too_long
         else case handle_chars s of None \<Rightarrow> Inl handle_bad_char | Some out \<Rightarrow> Inr out)"

record XAccount =
  handle :: string
  userId :: u64

definition XAccount_init :: XAccount where
  "XAccount_init = \<lparr>handle = [], userId = 0\<rparr>"

section \<open>Account specifications\<close>

definition digit :: "char \<Rightarrow> bool" where
  "digit c \<longleftrightarrow> CHR ''0'' \<le> c \<and> c \<le> CHR ''9''"

definition digit_value :: "char \<Rightarrow> nat" where
  "digit_value c = of_char c - 48"

definition decimal_value :: "string \<Rightarrow> nat" where
  "decimal_value s = foldl (\<lambda>n c. 10 * n + digit_value c) 0 s"

text \<open>\<^verbatim>\<open>std::stoull\<close> on a string of digits: out of range is an exception.\<close>

definition stoull :: "string \<Rightarrow> u64 option" where
  "stoull s = (if decimal_value s < 2 ^ 64 then Some (of_nat (decimal_value s)) else None)"

datatype spec_error = spec_empty | spec_handle handle_error | spec_userid_digits | spec_userid_range

definition ParseXAccountSpec :: "string \<Rightarrow> spec_error + XAccount" where
  "ParseXAccountSpec inp =
     (let s = TrimCopy inp
      in if s = [] then Inl spec_empty
         else let sep = (\<lambda>c. c \<noteq> CHR '':'' \<and> c \<noteq> CHR '','');
                  handlePart = takeWhile sep s;
                  idPart = TrimCopy (tl (dropWhile sep s))
              in case NormalizeXHandle handlePart of
                   Inl e \<Rightarrow> Inl (spec_handle e)
                 | Inr norm \<Rightarrow>
                     if idPart = [] then Inr \<lparr>handle = norm, userId = 0\<rparr>
                     else if \<not> list_all digit idPart then Inl spec_userid_digits
                     else (case stoull idPart of None \<Rightarrow> Inl spec_userid_range
                           | Some uid \<Rightarrow> Inr \<lparr>handle = norm, userId = uid\<rparr>))"

section \<open>What normalisation yields\<close>

definition valid_handle :: "string \<Rightarrow> bool" where
  "valid_handle h \<longleftrightarrow> h \<noteq> [] \<and> length h \<le> MAX_X_HANDLE \<and> list_all handle_char h"

lemma fold_case_handle_char: "handle_char c \<Longrightarrow> fold_case c = c"
  by (auto simp: handle_char_def fold_case_def less_eq_char_def)

lemma handle_char_not_space: "handle_char c \<Longrightarrow> \<not> isspace c"
  by (auto simp: handle_char_def isspace_def less_eq_char_def)

lemma handle_char_not_at: "handle_char c \<Longrightarrow> c \<noteq> CHR ''@''"
  by (auto simp: handle_char_def less_eq_char_def)

lemma handle_chars_map:
  "handle_chars s =
     (if list_all handle_char (map fold_case s) then Some (map fold_case s) else None)"
  by (induction s) simp_all

lemma handle_chars_Some:
  "handle_chars s = Some h \<longleftrightarrow> map fold_case s = h \<and> list_all handle_char h"
  by (auto simp: handle_chars_map)

lemma TrimCopy_no_space:
  assumes "\<forall>c \<in> set s. \<not> isspace c"
  shows "TrimCopy s = s"
proof -
  have "dropWhile isspace xs = xs" if "\<forall>c \<in> set xs. \<not> isspace c" for xs using that by (cases xs) auto
  from this [of s] this [of "rev s"] assms show ?thesis by (simp add: TrimCopy_def)
qed

lemma TrimCopy_handle: "list_all handle_char h \<Longrightarrow> TrimCopy h = h"
  by (rule TrimCopy_no_space) (auto simp: list_all_iff dest: handle_char_not_space)

lemma NormalizeXHandle_valid:
  assumes "NormalizeXHandle s = Inr h"
  shows "valid_handle h"
  using assms by (auto simp: NormalizeXHandle_def Let_def valid_handle_def handle_chars_Some
      split: if_splits option.splits)

lemma NormalizeXHandle_fixed:
  assumes "valid_handle h"
  shows "NormalizeXHandle h = Inr h"
proof -
  have ne: "h \<noteq> []" and all: "list_all handle_char h" using assms by (simp_all add: valid_handle_def)
  have "hd h \<noteq> CHR ''@''" using ne all by (metis list.set_sel(1) list_all_iff handle_char_not_at)
  moreover have "map fold_case h = h"
    using all by (intro map_idI fold_case_handle_char) (simp add: list_all_iff)
  then have "handle_chars h = Some h" using all by (simp add: handle_chars_Some)
  ultimately show ?thesis
    using assms by (simp add: NormalizeXHandle_def Let_def TrimCopy_handle all valid_handle_def)
qed

lemma NormalizeXHandle_idem: "NormalizeXHandle s = Inr h \<Longrightarrow> NormalizeXHandle h = Inr h"
  by (rule NormalizeXHandle_fixed) (rule NormalizeXHandle_valid)

lemma NormalizeXHandle_at:
  assumes "valid_handle h"
  shows "NormalizeXHandle (CHR ''@'' # h) = Inr h"
proof -
  have all: "list_all handle_char h" using assms by (simp add: valid_handle_def)
  have "\<not> isspace (CHR ''@'')" by (simp add: isspace_def)
  then have "TrimCopy (CHR ''@'' # h) = CHR ''@'' # h"
    using all by (intro TrimCopy_no_space) (auto simp: list_all_iff dest: handle_char_not_space)
  moreover have "handle_chars h = Some h"
    using all by (auto simp: handle_chars_Some list_all_iff fold_case_handle_char intro!: map_idI)
  ultimately show ?thesis
    using TrimCopy_handle [OF all] assms by (simp add: NormalizeXHandle_def valid_handle_def)
qed

section \<open>Properties\<close>

text \<open>
  Handles have one normal form: what \<^verbatim>\<open>NormalizeXHandle\<close> returns is a well-formed handle (1 to
  32 lower-case letters, digits and underscores), normalising it again changes nothing, and so
  does normalising it with a leading \<open>@\<close>.
\<close>

theorem handle_normal_form:
  assumes "NormalizeXHandle s = Inr h"
  shows "valid_handle h \<and> NormalizeXHandle h = Inr h \<and> NormalizeXHandle (CHR ''@'' # h) = Inr h"
  using NormalizeXHandle_valid [OF assms] NormalizeXHandle_fixed NormalizeXHandle_at by blast

theorem handle_normal_form_witness: "valid_handle ''alice_1'' \<and> NormalizeXHandle ''@alice_1'' = Inr ''alice_1''"
proof -
  have "NormalizeXHandle '' @Alice_1 '' = Inr ''alice_1''" by code_simp
  from handle_normal_form [OF this] show ?thesis by simp
qed

end
