(* ===== verification/XC_Script.thy ===== *)
theory XC_Script
  imports XC_Prelude
begin

text \<open>
  \<^verbatim>\<open>src/src/script/script.h\<close> and \<^verbatim>\<open>script.cpp\<close>: script numbers, the push operators, the
  instruction reader \<^verbatim>\<open>GetOp2\<close> and the predicates built on it. A script is its bytes; an
  iterator into it is the suffix it points at. Script lengths are below $2^{32}$ (a block
  bounds them), where the \<^verbatim>\<open>unsigned int\<close> casts of the source change nothing.
\<close>

type_synonym CScript = bytes
type_synonym opcodetype = u8

section \<open>Opcodes\<close>

abbreviation "OP_0 \<equiv> (0x00 :: opcodetype)"
abbreviation "OP_PUSHDATA1 \<equiv> (0x4c :: opcodetype)"
abbreviation "OP_PUSHDATA2 \<equiv> (0x4d :: opcodetype)"
abbreviation "OP_PUSHDATA4 \<equiv> (0x4e :: opcodetype)"
abbreviation "OP_1NEGATE \<equiv> (0x4f :: opcodetype)"
abbreviation "OP_RESERVED \<equiv> (0x50 :: opcodetype)"
abbreviation "OP_1 \<equiv> (0x51 :: opcodetype)"
abbreviation "OP_16 \<equiv> (0x60 :: opcodetype)"
abbreviation "OP_RETURN \<equiv> (0x6a :: opcodetype)"
abbreviation "OP_DUP \<equiv> (0x76 :: opcodetype)"
abbreviation "OP_EQUAL \<equiv> (0x87 :: opcodetype)"
abbreviation "OP_EQUALVERIFY \<equiv> (0x88 :: opcodetype)"
abbreviation "OP_HASH160 \<equiv> (0xa9 :: opcodetype)"
abbreviation "OP_CHECKSIG \<equiv> (0xac :: opcodetype)"
abbreviation "OP_CHECKSIGVERIFY \<equiv> (0xad :: opcodetype)"
abbreviation "OP_CHECKMULTISIG \<equiv> (0xae :: opcodetype)"
abbreviation "OP_CHECKMULTISIGVERIFY \<equiv> (0xaf :: opcodetype)"
abbreviation "OP_NOP10 \<equiv> (0xb9 :: opcodetype)"
abbreviation "OP_RVN_ASSET \<equiv> (0xc0 :: opcodetype)"
abbreviation "OP_INVALIDOPCODE \<equiv> (0xff :: opcodetype)"
abbreviation "MAX_OPCODE \<equiv> OP_NOP10"
abbreviation "MAX_SCRIPT_ELEMENT_SIZE \<equiv> (520 :: nat)"
abbreviation "MAX_PUBKEYS_PER_MULTISIG \<equiv> (20 :: nat)"
abbreviation "MAX_SCRIPT_SIZE \<equiv> (10000 :: nat)"

section \<open>Script numbers\<close>

text \<open>\<^verbatim>\<open>while (absvalue) { result.push_back(absvalue & 0xff); absvalue >>= 8; }\<close>\<close>

function absvalue_bytes :: "u64 \<Rightarrow> bytes" where
  "absvalue_bytes a = (if a = 0 then [] else ucast (a AND 0xff) # absvalue_bytes (drop_bit 8 a))"
  by pat_completeness auto
termination
proof (relation "measure unat")
  fix a :: u64
  assume "a \<noteq> 0"
  then have "0 < unat a"
    by (simp add: unat_gt_0)
  moreover have "unat (drop_bit 8 a) = unat a div 256"
    by (simp add: drop_bit_eq_div unat_div_distrib)
  ultimately show "(drop_bit 8 a, a) \<in> measure unat"
    by simp
qed simp

declare absvalue_bytes.simps [simp del]

definition serialize :: "int \<Rightarrow> bytes" where
  "serialize value =
     (if value = 0 then []
      else let neg = value < 0;
               absvalue = (of_int (if neg then - value else value) :: u64);
               result = absvalue_bytes absvalue
           in if last result AND 0x80 \<noteq> 0 then result @ [if neg then 0x80 else 0]
              else if neg then butlast result @ [last result OR 0x80]
              else result)"

definition set_vch :: "bytes \<Rightarrow> int" where
  "set_vch vch =
     (if vch = [] then 0
      else let result = (le_word vch :: u64)
           in if last vch AND 0x80 \<noteq> 0
              then - sint (result AND NOT (push_bit (8 * (length vch - 1)) 0x80))
              else sint result)"

datatype scriptnum_error = script_number_overflow | non_minimally_encoded

definition CScriptNum :: "bytes \<Rightarrow> bool \<Rightarrow> nat \<Rightarrow> scriptnum_error + int" where
  "CScriptNum vch fRequireMinimal nMaxNumSize =
     (if nMaxNumSize < length vch then Inl script_number_overflow
      else if fRequireMinimal \<and> 0 < length vch \<and> last vch AND 0x7f = 0 \<and>
              (length vch \<le> 1 \<or> vch ! (length vch - 2) AND 0x80 = 0)
      then Inl non_minimally_encoded
      else Inr (set_vch vch))"

definition getint :: "int \<Rightarrow> int" where
  "getint m_value = (if 2147483647 < m_value then 2147483647
     else if m_value < - 2147483648 then - 2147483648 else m_value)"

section \<open>Pushing\<close>

definition push_opcode :: "CScript \<Rightarrow> opcodetype \<Rightarrow> CScript" where
  "push_opcode s opcode = s @ [opcode]"

definition push_header :: "nat \<Rightarrow> bytes" where
  "push_header n =
     (if n < unat OP_PUSHDATA1 then [of_nat n]
      else if n \<le> 0xff then [OP_PUSHDATA1, of_nat n]
      else if n \<le> 0xffff then OP_PUSHDATA2 # WriteLE16 (of_nat n)
      else OP_PUSHDATA4 # WriteLE32 (of_nat n))"

definition push_data :: "CScript \<Rightarrow> bytes \<Rightarrow> CScript" where
  "push_data s b = s @ push_header (length b) @ b"

definition push_int64 :: "CScript \<Rightarrow> int \<Rightarrow> CScript" where
  "push_int64 s n =
     (if n = -1 \<or> 1 \<le> n \<and> n \<le> 16 then s @ [of_int (n + (uint OP_1 - 1))]
      else if n = 0 then s @ [OP_0]
      else push_data s (serialize n))"

section \<open>Reading an instruction\<close>

text \<open>
  \<^verbatim>\<open>false\<close> is \<open>None\<close>; otherwise the opcode, the bytes put into \<^verbatim>\<open>*pvchRet\<close> and the iterator
  after the instruction.
\<close>

definition GetOp2_size :: "opcodetype \<Rightarrow> bytes \<Rightarrow> (nat \<times> bytes) option" where
  "GetOp2_size opcode pc =
     (if opcode < OP_PUSHDATA1 then Some (unat opcode, pc)
      else if opcode = OP_PUSHDATA1 then
        (if length pc < 1 then None else Some (unat (hd pc), drop 1 pc))
      else if opcode = OP_PUSHDATA2 then
        (if length pc < 2 then None else Some (unat (ReadLE16 pc), drop 2 pc))
      else (if length pc < 4 then None else Some (unat (ReadLE32 pc), drop 4 pc)))"

definition GetOp2 :: "bytes \<Rightarrow> (opcodetype \<times> bytes \<times> bytes) option" where
  "GetOp2 pc =
     (case pc of [] \<Rightarrow> None
      | opcode # pc \<Rightarrow>
          if opcode \<le> OP_PUSHDATA4 then
            (case GetOp2_size opcode pc of None \<Rightarrow> None
             | Some (nSize, pc) \<Rightarrow>
                 if length pc < nSize then None
                 else Some (opcode, take nSize pc, drop nSize pc))
          else if opcode = OP_RVN_ASSET then Some (opcode, pc, [])
          else Some (opcode, [], pc))"

lemma GetOp2_shorter [dest]: "GetOp2 pc = Some (opcode, vch, pc') \<Longrightarrow> length pc' < length pc"
  by (auto simp: GetOp2_def GetOp2_size_def split: list.splits if_splits option.splits)

section \<open>Walks over a script\<close>

definition DecodeOP_N :: "opcodetype \<Rightarrow> nat" where
  "DecodeOP_N opcode = (if opcode = OP_0 then 0 else unat opcode - (unat OP_1 - 1))"

function GetSigOpCount_loop :: "bool \<Rightarrow> bytes \<Rightarrow> opcodetype \<Rightarrow> nat \<Rightarrow> nat" where
  "GetSigOpCount_loop fAccurate pc lastOpcode n =
     (case GetOp2 pc of None \<Rightarrow> n
      | Some (opcode, vch, pc') \<Rightarrow>
          GetSigOpCount_loop fAccurate pc' opcode
            (if opcode = OP_CHECKSIG \<or> opcode = OP_CHECKSIGVERIFY then n + 1
             else if opcode = OP_CHECKMULTISIG \<or> opcode = OP_CHECKMULTISIGVERIFY then
               (if fAccurate \<and> OP_1 \<le> lastOpcode \<and> lastOpcode \<le> OP_16
                then n + DecodeOP_N lastOpcode
                else n + MAX_PUBKEYS_PER_MULTISIG)
             else n))"
  by pat_completeness auto
termination
  by (relation "measure (\<lambda>(a, pc, l, n). length pc)") auto

definition GetSigOpCount :: "bool \<Rightarrow> CScript \<Rightarrow> nat" where
  "GetSigOpCount fAccurate s = GetSigOpCount_loop fAccurate s OP_INVALIDOPCODE 0"

definition IsPayToPublicKeyHash :: "CScript \<Rightarrow> bool" where
  "IsPayToPublicKeyHash s \<longleftrightarrow>
     length s = 25 \<and> s ! 0 = OP_DUP \<and> s ! 1 = OP_HASH160 \<and> s ! 2 = 0x14 \<and>
     s ! 23 = OP_EQUALVERIFY \<and> s ! 24 = OP_CHECKSIG"

definition IsPayToScriptHash :: "CScript \<Rightarrow> bool" where
  "IsPayToScriptHash s \<longleftrightarrow>
     length s = 23 \<and> s ! 0 = OP_HASH160 \<and> s ! 1 = 0x14 \<and> s ! 22 = OP_EQUAL"

text \<open>The last item a \<^verbatim>\<open>scriptSig\<close> pushes, or nothing when it is not push-only.\<close>

function last_push :: "bytes \<Rightarrow> bytes \<Rightarrow> bytes option" where
  "last_push pc vData =
     (if pc = [] then Some vData
      else case GetOp2 pc of None \<Rightarrow> None
           | Some (opcode, vch, pc') \<Rightarrow> if OP_16 < opcode then None else last_push pc' vch)"
  by pat_completeness auto
termination
  by (relation "measure (\<lambda>(pc, v). length pc)") auto

definition GetSigOpCount_p2sh :: "CScript \<Rightarrow> CScript \<Rightarrow> nat" where
  "GetSigOpCount_p2sh s scriptSig =
     (if \<not> IsPayToScriptHash s then GetSigOpCount True s
      else case last_push scriptSig [] of None \<Rightarrow> 0 | Some vData \<Rightarrow> GetSigOpCount True vData)"

function IsPushOnly :: "bytes \<Rightarrow> bool" where
  "IsPushOnly pc =
     (if pc = [] then True
      else case GetOp2 pc of None \<Rightarrow> False
           | Some (opcode, vch, pc') \<Rightarrow> if OP_16 < opcode then False else IsPushOnly pc')"
  by pat_completeness auto
termination
  by (relation "measure length") auto

function HasValidOps :: "bytes \<Rightarrow> bool" where
  "HasValidOps it =
     (if it = [] then True
      else case GetOp2 it of None \<Rightarrow> False
           | Some (opcode, item, it') \<Rightarrow>
               if MAX_OPCODE < opcode \<or> MAX_SCRIPT_ELEMENT_SIZE < length item then False
               else HasValidOps it')"
  by pat_completeness auto
termination
  by (relation "measure length") auto

declare GetSigOpCount_loop.simps [simp del] last_push.simps [simp del]
  IsPushOnly.simps [simp del] HasValidOps.simps [simp del]

section \<open>Templates\<close>

text \<open>
  \<^verbatim>\<open>IsAssetScript(nType, fIsOwner, nStartingIndex)\<close>; the callers start from
  \<^verbatim>\<open>fIsOwner = false\<close>, which the transfer and reissue branches leave alone.
\<close>

datatype asset_tx = TX_NEW_ASSET | TX_REISSUE_ASSET | TX_TRANSFER_ASSET

definition asset_index :: "CScript \<Rightarrow> nat option" where
  "asset_index s =
     (if s ! 27 = 0x72 then
        (if s ! 28 = 0x76 \<and> s ! 29 = 0x6e then Some 30 else None)
      else (if s ! 28 = 0x72 \<and> s ! 29 = 0x76 \<and> s ! 30 = 0x6e then Some 31 else None))"

definition IsAssetScript :: "CScript \<Rightarrow> (asset_tx \<times> bool \<times> nat) option" where
  "IsAssetScript s =
     (if 31 < length s \<and> s ! 25 = OP_RVN_ASSET then
        (case asset_index s of None \<Rightarrow> None
         | Some index \<Rightarrow>
             if s ! index = 0x74 then Some (TX_TRANSFER_ASSET, False, index + 1)
             else if s ! index = 0x71 \<and> 39 < length s then Some (TX_NEW_ASSET, False, index + 1)
             else if s ! index = 0x6f then Some (TX_NEW_ASSET, True, index + 1)
             else if s ! index = 0x72 then Some (TX_REISSUE_ASSET, False, index + 1)
             else None)
      else None)"

definition IsNewAsset :: "CScript \<Rightarrow> bool" where
  "IsNewAsset s = (case IsAssetScript s of None \<Rightarrow> False | Some (t, own, i) \<Rightarrow> \<not> own \<and> t = TX_NEW_ASSET)"

definition IsOwnerAsset :: "CScript \<Rightarrow> bool" where
  "IsOwnerAsset s = (case IsAssetScript s of None \<Rightarrow> False | Some (t, own, i) \<Rightarrow> own \<and> t = TX_NEW_ASSET)"

definition IsReissueAsset :: "CScript \<Rightarrow> bool" where
  "IsReissueAsset s = (case IsAssetScript s of None \<Rightarrow> False | Some (t, own, i) \<Rightarrow> t = TX_REISSUE_ASSET)"

definition IsTransferAsset :: "CScript \<Rightarrow> bool" where
  "IsTransferAsset s = (case IsAssetScript s of None \<Rightarrow> False | Some (t, own, i) \<Rightarrow> t = TX_TRANSFER_ASSET)"

definition IsNullAssetTxDataScript :: "CScript \<Rightarrow> bool" where
  "IsNullAssetTxDataScript s \<longleftrightarrow> 23 < length s \<and> s ! 0 = OP_RVN_ASSET \<and> s ! 1 = 0x14"

definition IsNullGlobalRestrictionAssetTxDataScript :: "CScript \<Rightarrow> bool" where
  "IsNullGlobalRestrictionAssetTxDataScript s \<longleftrightarrow>
     6 < length s \<and> s ! 0 = OP_RVN_ASSET \<and> s ! 1 = OP_RESERVED \<and> s ! 2 = OP_RESERVED"

definition IsNullAssetVerifierTxDataScript :: "CScript \<Rightarrow> bool" where
  "IsNullAssetVerifierTxDataScript s \<longleftrightarrow>
     3 < length s \<and> s ! 0 = OP_RVN_ASSET \<and> s ! 1 = OP_RESERVED \<and> s ! 2 \<noteq> OP_RESERVED"

definition IsNullAsset :: "CScript \<Rightarrow> bool" where
  "IsNullAsset s \<longleftrightarrow> IsNullAssetTxDataScript s \<or> IsNullGlobalRestrictionAssetTxDataScript s \<or>
     IsNullAssetVerifierTxDataScript s"

definition IsPayToWitnessScriptHash :: "CScript \<Rightarrow> bool" where
  "IsPayToWitnessScriptHash s \<longleftrightarrow> length s = 34 \<and> s ! 0 = OP_0 \<and> s ! 1 = 0x20"

definition IsWitnessProgram :: "CScript \<Rightarrow> (nat \<times> bytes) option" where
  "IsWitnessProgram s =
     (if length s < 4 \<or> 42 < length s then None
      else if s ! 0 \<noteq> OP_0 \<and> (s ! 0 < OP_1 \<or> OP_16 < s ! 0) then None
      else if unat (s ! 1) + 2 = length s then Some (DecodeOP_N (s ! 0), drop 2 s)
      else None)"

definition IsPayToPublicKey :: "CScript \<Rightarrow> bool" where
  "IsPayToPublicKey s \<longleftrightarrow>
     (if length s = 35 then (s ! 1 = 0x02 \<or> s ! 1 = 0x03) \<and> s ! 34 = OP_CHECKSIG
      else if length s = 67 then s ! 1 = 0x04 \<and> s ! 66 = OP_CHECKSIG
      else False)"

section \<open>A pushed item is read back\<close>

lemma GetOp2_push_data:
  assumes "length b < 2 ^ 32"
  shows "\<exists>opcode \<le> OP_PUSHDATA4. GetOp2 (push_header (length b) @ b @ rest) = Some (opcode, b, rest)"
proof -
  consider "length b < 0x4c" | "0x4c \<le> length b" "length b \<le> 0xff"
    | "0xff < length b" "length b \<le> 0xffff" | "0xffff < length b"
    by linarith
  then show ?thesis
  proof cases
    case 1
    then have "unat (of_nat (length b) :: u8) = length b"
      by (simp add: unat_of_nat)
    moreover from this 1 have "of_nat (length b) < (0x4c :: u8)" "of_nat (length b) \<le> (0x4e :: u8)"
      by (simp_all add: word_less_nat_alt word_le_nat_alt)
    ultimately show ?thesis
      using 1 by (auto simp: push_header_def GetOp2_def GetOp2_size_def)
  next
    case 2
    then have "unat (of_nat (length b) :: u8) = length b"
      by (simp add: unat_of_nat)
    with 2 show ?thesis
      by (auto simp: push_header_def GetOp2_def GetOp2_size_def)
  next
    case 3
    then have "unat (of_nat (length b) :: u16) = length b"
      by (simp add: unat_of_nat)
    with 3 show ?thesis
      by (auto simp: push_header_def GetOp2_def GetOp2_size_def)
  next
    case 4
    with assms have "unat (of_nat (length b) :: u32) = length b"
      by (simp add: unat_of_nat)
    with 4 show ?thesis
      by (auto simp: push_header_def GetOp2_def GetOp2_size_def)
  qed
qed

section \<open>Script numbers round trip\<close>

lemma bit_le_word_u64:
  "length bs \<le> 8 \<Longrightarrow> bit (le_word bs :: u64) n \<longleftrightarrow> n < 8 * length bs \<and> bit (bs ! (n div 8)) (n mod 8)"
  by (auto simp: bit_le_word)

lemma byte_mask: "(0xff :: u64) = mask 8"
  by (simp add: mask_eq_exp_minus_1)

lemma high_bit: "(t :: u8) AND 0x80 = 0 \<longleftrightarrow> \<not> bit t 7"
  using and_exp_eq_0_iff_not_bit [of t 7] by simp

lemma low_bits: "bit ((t :: u8) AND 0x7f) n \<longleftrightarrow> bit t n \<and> n < 7"
proof -
  have "(0x7f :: u8) = mask 7" by (simp add: mask_eq_exp_minus_1)
  then show ?thesis
    by (simp only: bit_and_iff bit_mask_iff possible_bit_word) (auto dest: bit_imp_le_length)
qed

lemma low_byte:
  assumes "(t :: u8) AND 0x80 = 0"
  shows "t AND 0x7f = t" "(t OR 0x80) AND 0x7f = t" "(t OR 0x80) AND 0x80 \<noteq> 0"
proof -
  have "(0x80 :: u8) = push_bit 7 1" by simp
  then have m: "bit (0x80 :: u8) n \<longleftrightarrow> n = 7" for n
    by (simp only: bit_push_bit_iff bit_1_iff possible_bit_word) auto
  have b: "bit t n \<Longrightarrow> n < 7" for n
    using assms bit_imp_le_length [of t n] by (cases "n = 7") (auto simp: high_bit)
  show "t AND 0x7f = t" "(t OR 0x80) AND 0x7f = t"
    by (rule bit_word_eqI; use b in \<open>auto simp only: low_bits bit_or_iff m\<close>)+
  show "(t OR 0x80) AND 0x80 \<noteq> 0"
    by (simp only: high_bit bit_or_iff m) simp
qed

lemma high_byte:
  assumes "(t :: u8) AND 0x80 \<noteq> 0"
  shows "(t AND 0x7f) OR 0x80 = t" "(t AND 0x7f) AND 0x80 = 0"
proof -
  have "(0x80 :: u8) = push_bit 7 1" by simp
  then have m: "bit (0x80 :: u8) n \<longleftrightarrow> n = 7" for n
    by (simp only: bit_push_bit_iff bit_1_iff possible_bit_word) auto
  have b: "bit t n \<Longrightarrow> n < 8" for n
    using bit_imp_le_length [of t n] by simp
  have "n < 8 \<Longrightarrow> bit ((t AND 0x7f) OR 0x80) n = bit t n" for n
    using assms by (cases "n = 7") (simp_all only: low_bits bit_or_iff m high_bit, auto)
  then show "(t AND 0x7f) OR 0x80 = t"
    by (intro bit_word_eqI) simp
  show "(t AND 0x7f) AND 0x80 = 0"
    by (simp only: high_bit low_bits) simp
qed

lemma sint_nonneg:
  fixes w :: u64
  assumes "\<not> bit w 63"
  shows "sint w = uint w"
proof -
  have "take_bit 63 (uint w) = uint w"
  proof (rule bit_eqI)
    fix n
    show "bit (take_bit 63 (uint w)) n = bit (uint w) n"
      using assms by (cases "n = 63") (auto simp: bit_take_bit_iff bit_uint_iff)
  qed
  with assms show ?thesis
    by (simp add: sint_uint signed_take_bit_eq_if_positive bit_uint_iff)
qed

lemma absvalue_step:
  assumes "a \<noteq> 0"
  shows "absvalue_bytes a = ucast a # absvalue_bytes (drop_bit 8 a)"
proof -
  have "(ucast (a AND 0xff) :: u8) = ucast a"
  proof (rule bit_word_eqI)
    fix n assume "n < LENGTH(8)"
    then show "bit (ucast (a AND 0xff) :: u8) n = bit (ucast a :: u8) n"
      by (simp only: byte_mask bit_ucast_iff bit_and_iff bit_mask_iff possible_bit_word) auto
  qed
  with assms show ?thesis by (subst absvalue_bytes.simps) simp
qed

lemma absvalue_bytes_0 [simp]: "absvalue_bytes 0 = []"
  by (simp add: absvalue_bytes.simps)

lemma split_low_byte: "ucast (ucast a :: u8) OR push_bit 8 (drop_bit 8 a) = (a :: u64)"
  by (rule bit_word_eqI) (auto simp: bit_simps, metis le_add_diff_inverse not_less)

lemma le_word_absvalue: "le_word (absvalue_bytes a) = a"
proof (induction a rule: absvalue_bytes.induct)
  case (1 a)
  then show ?case
    by (cases "a = 0") (simp_all add: absvalue_step split_low_byte)
qed

lemma absvalue_last: "a \<noteq> 0 \<Longrightarrow> absvalue_bytes a \<noteq> [] \<and> last (absvalue_bytes a) \<noteq> 0"
proof (induction a rule: absvalue_bytes.induct)
  case (1 a)
  show ?case
  proof (cases "drop_bit 8 a = 0")
    case True
    then have "ucast (ucast a :: u8) = a"
      using split_low_byte [of a] by simp
    with "1.prems" have "(ucast a :: u8) \<noteq> 0" by (metis unsigned_0)
    with True "1.prems" show ?thesis by (simp add: absvalue_step)
  next
    case False
    with 1 show ?thesis by (simp add: absvalue_step)
  qed
qed

lemma absvalue_length:
  "unat a < 256 ^ k \<Longrightarrow> length (absvalue_bytes a) \<le> k"
proof (induction k arbitrary: a)
  case (Suc k)
  have "unat (drop_bit 8 a) < 256 ^ k"
    using Suc.prems by (simp add: drop_bit_eq_div unat_div_distrib less_mult_imp_div_less mult.commute)
  with Suc.IH show ?case by (cases "a = 0") (simp_all add: absvalue_step)
qed (simp add: unat_eq_zero)

lemma absvalue_length_8: "length (absvalue_bytes a) \<le> 8"
  by (rule absvalue_length) (use unsigned_less [of a, where 'a = nat] in simp)

lemma absvalue_canonical:
  "length bs \<le> 8 \<Longrightarrow> bs = [] \<or> last bs \<noteq> 0 \<Longrightarrow> absvalue_bytes (le_word bs) = bs"
proof (induction bs)
  case (Cons b bs)
  let ?w = "le_word bs :: u64"
  have hi: "drop_bit 8 (ucast b OR push_bit 8 ?w) = ?w"
    using Cons.prems by (intro bit_word_eqI) (auto simp: bit_simps bit_le_word dest: bit_imp_le_length)
  have lo: "ucast (ucast b OR push_bit 8 ?w) = b"
    by (intro bit_word_eqI) (auto simp: bit_simps)
  have IH: "absvalue_bytes ?w = bs"
    using Cons.IH Cons.prems by (cases "bs = []") simp_all
  have "ucast b OR push_bit 8 ?w \<noteq> 0"
  proof
    assume z: "ucast b OR push_bit 8 ?w = 0"
    with hi have "?w = 0" by (metis drop_bit_of_0)
    with IH have "bs = []" by simp
    moreover have "b = 0" using z lo by (metis unsigned_0)
    ultimately show False using Cons.prems by simp
  qed
  from absvalue_step [OF this] show ?case
    by (simp only: le_word.simps hi lo IH)
qed simp

lemma le_word_snoc:
  "length bs < 8 \<Longrightarrow> (le_word (bs @ [t]) :: u64) = le_word bs OR push_bit (8 * length bs) (ucast t)"
  by (induction bs) (simp_all add: push_bit_or or.assoc add.commute)

text \<open>What \<^verbatim>\<open>set_vch\<close> reads: the magnitude without the sign bit of the last byte, and the sign.\<close>

lemma set_vch_snoc:
  assumes "length bs < 8"
  shows "set_vch (bs @ [t]) =
    (if t AND 0x80 \<noteq> 0 then -1 else 1) * uint (le_word (bs @ [t AND 0x7f]) :: u64)"
proof -
  let ?k = "8 * length bs"
  have top: "\<not> bit (le_word (bs @ [t AND 0x7f]) :: u64) 63"
    using assms by (auto simp: bit_le_word_u64 nth_append low_bits)
  have sign: "bit (push_bit ?k (0x80 :: u64)) n \<longleftrightarrow> n = ?k + 7 \<and> n < 64" for n
  proof -
    have "push_bit ?k (0x80 :: u64) = push_bit (?k + 7) 1"
      using push_bit_push_bit [of ?k 7 "1 :: u64"] by simp
    then show ?thesis
      by (simp only: bit_push_bit_iff bit_1_iff possible_bit_word) auto
  qed
  have nth: "bit ((bs @ [x]) ! (n div 8)) (n mod 8) =
      (if n < ?k then bit (bs ! (n div 8)) (n mod 8) else bit x (n - ?k))"
    if "n < ?k + 8" for n and x :: u8
  proof (cases "n < ?k")
    case True
    then have "n div 8 < length bs" by linarith
    with True show ?thesis by (simp add: nth_append)
  next
    case False
    with that have "n div 8 = length bs" by linarith
    moreover from this have "n mod 8 = n - ?k" by (metis minus_mult_div_eq_mod)
    ultimately show ?thesis using False by (simp only: nth_append_length if_False)
  qed
  have strip: "(le_word (bs @ [t]) :: u64) AND NOT (push_bit ?k 0x80) = le_word (bs @ [t AND 0x7f])"
  proof (rule bit_word_eqI)
    fix n :: nat assume n: "n < LENGTH(64)"
    have l: "length (bs @ [x]) \<le> 8" for x using assms by simp
    show "bit ((le_word (bs @ [t]) :: u64) AND NOT (push_bit ?k 0x80)) n =
        bit (le_word (bs @ [t AND 0x7f]) :: u64) n"
    proof (cases "n < ?k + 8")
      case True
      then show ?thesis
        using n by (simp only: bit_and_iff [of "le_word (bs @ [t])"] bit_not_iff possible_bit_word sign bit_le_word_u64 [OF l] nth low_bits)
          auto
    next
      case False
      then show ?thesis
        by (simp only: bit_and_iff bit_le_word_u64 [OF l]) simp
    qed
  qed
  show ?thesis
    using strip low_byte(1) [of t] sint_nonneg [OF top]
    by (cases "t AND 0x80 = 0") (simp_all add: set_vch_def Let_def)
qed

lemma serialize_alt:
  "n \<noteq> 0 \<Longrightarrow> absvalue_bytes (of_int \<bar>n\<bar>) = result \<Longrightarrow>
   serialize n =
     (if last result AND 0x80 \<noteq> 0 then result @ [if n < 0 then 0x80 else 0]
      else if n < 0 then butlast result @ [last result OR 0x80]
      else result)"
  unfolding serialize_def Let_def abs_if by (simp only: if_False refl)

lemma serialize_cases:
  assumes "n \<noteq> 0" "\<bar>n\<bar> < 2 ^ 63"
  obtains bs t where "serialize n = bs @ [t]" "length bs < 8" "t AND 0x80 \<noteq> 0 \<longleftrightarrow> n < 0"
    "uint (le_word (bs @ [t AND 0x7f]) :: u64) = \<bar>n\<bar>"
    "t AND 0x7f \<noteq> 0 \<or> bs \<noteq> [] \<and> last bs AND 0x80 \<noteq> 0"
proof -
  define a where "a = (of_int \<bar>n\<bar> :: u64)"
  have ua: "uint a = \<bar>n\<bar>"
    using assms by (simp add: a_def take_bit_int_eq_self unsigned_of_int)
  then have a0: "a \<noteq> 0" using assms by auto
  let ?r = "absvalue_bytes a"
  obtain bs t where r: "?r = bs @ [t]" and t0: "t \<noteq> 0"
    using absvalue_last [OF a0] by (metis append_butlast_last_id)
  have ser: "serialize n = (if t AND 0x80 \<noteq> 0 then ?r @ [if n < 0 then 0x80 else 0]
      else if n < 0 then bs @ [t OR 0x80] else ?r)"
    using serialize_alt [OF assms(1) r [unfolded a_def]] r by simp
  have len: "length bs < 8" using absvalue_length_8 [of a] r by simp
  show thesis
  proof (cases "t AND 0x80 = 0")
    case True
    note low = low_byte [OF True]
    show thesis
      using that [of bs "if n < 0 then t OR 0x80 else t"] ser True low len t0 ua r le_word_absvalue [of a]
      by (simp split: if_splits)
  next
    case False
    have "length ?r < 8"
    proof (rule ccontr)
      assume "\<not> length ?r < 8"
      then have "length bs = 7" using len r by simp
      then have "bit (le_word ?r :: u64) 63" using False r by (simp add: bit_le_word_u64 high_bit nth_append)
      then have "bit (uint a) 63" by (simp add: le_word_absvalue bit_uint_iff)
      then show False using assms(2) ua
        by (simp add: bit_iff_odd)
    qed
    then show thesis
      using that [of ?r "if n < 0 then 0x80 else 0"] ser False ua r le_word_snoc [of ?r 0] le_word_absvalue [of a]
      by (simp split: if_splits)
  qed
qed

lemma serialize_set_vch:
  assumes "\<bar>n\<bar> < 2 ^ 63"
  shows "set_vch (serialize n) = n \<and> length (serialize n) \<le> 8"
proof (cases "n = 0")
  case True
  then show ?thesis by (simp add: serialize_def set_vch_def)
next
  case False
  show ?thesis
  proof (rule serialize_cases [OF False assms])
    fix bs t
    assume h: "serialize n = bs @ [t]" "length bs < 8" "t AND 0x80 \<noteq> 0 \<longleftrightarrow> n < 0"
      "uint (le_word (bs @ [t AND 0x7f]) :: u64) = \<bar>n\<bar>"
    show ?thesis
      using set_vch_snoc [OF h(2), of t] h by (simp add: h(1) abs_if)
  qed
qed

lemma serialize_minimal:
  assumes "\<bar>n\<bar> < 2 ^ 63"
  shows "CScriptNum (serialize n) True 8 = Inr n"
proof (cases "n = 0")
  case True
  then show ?thesis by (simp add: serialize_def set_vch_def CScriptNum_def)
next
  case False
  obtain bs t where ser: "serialize n = bs @ [t]"
    and min: "t AND 0x7f \<noteq> 0 \<or> bs \<noteq> [] \<and> last bs AND 0x80 \<noteq> 0"
    by (rule serialize_cases [OF False assms])
  have "bs \<noteq> [] \<Longrightarrow> (bs @ [t]) ! (length bs - 1) = last bs"
    by (simp add: nth_append last_conv_nth)
  with min serialize_set_vch [OF assms] show ?thesis
    by (auto simp: CScriptNum_def ser)
qed

lemma set_vch_serialize:
  assumes "CScriptNum vch True m = Inr n" "m \<le> 8"
  shows "serialize n = vch"
proof (cases "vch = []")
  case True
  with assms show ?thesis by (simp add: CScriptNum_def set_vch_def serialize_def)
next
  case False
  then obtain bs t where v: "vch = bs @ [t]" by (metis append_butlast_last_id)
  let ?a = "le_word (bs @ [t AND 0x7f]) :: u64"
  have nth: "bs \<noteq> [] \<Longrightarrow> (bs @ [t]) ! (length bs - 1) = last bs"
    by (simp add: nth_append last_conv_nth)
  have len: "length bs < 8" and n: "n = (if t AND 0x80 \<noteq> 0 then -1 else 1) * uint ?a"
    and min: "t AND 0x7f \<noteq> 0 \<or> bs \<noteq> [] \<and> last bs AND 0x80 \<noteq> 0"
    using assms nth set_vch_snoc [of bs t] by (auto simp: CScriptNum_def v split: if_splits)
  have a: "absvalue_bytes ?a = (if t AND 0x7f \<noteq> 0 then bs @ [t AND 0x7f] else bs)"
  proof (cases "t AND 0x7f = 0")
    case True
    with min have "last bs \<noteq> 0" by auto
    with True len show ?thesis using absvalue_canonical [of bs] by (simp add: le_word_snoc)
  next
    case False
    with len show ?thesis using absvalue_canonical [of "bs @ [t AND 0x7f]"] by simp
  qed
  have a0: "?a \<noteq> 0" using a min by (metis absvalue_bytes_0 append_is_Nil_conv not_Cons_self2)
  then have "0 < uint ?a" by (simp add: word_neq_0_conv word_less_def)
  then have "n \<noteq> 0" "n < 0 \<longleftrightarrow> t AND 0x80 \<noteq> 0" "of_int \<bar>n\<bar> = ?a"
    using n by auto
  then have "serialize n = (let result = absvalue_bytes ?a
      in if last result AND 0x80 \<noteq> 0 then result @ [if t AND 0x80 \<noteq> 0 then 0x80 else 0]
         else if t AND 0x80 \<noteq> 0 then butlast result @ [last result OR 0x80] else result)"
    using serialize_alt [of n "absvalue_bytes ?a"] by (simp add: Let_def)
  with a min high_byte [of t] low_byte [of t] show ?thesis
    by (auto simp: v split: if_splits)
qed

text \<open>
  Script numbers: for every size limit up to eight bytes, the minimal encoding the reader
  accepts for \<open>n\<close> is exactly \<^verbatim>\<open>CScriptNum::serialize(n)\<close>, whenever that fits the limit.
\<close>

theorem script_number_encoding_unique:
  assumes "\<bar>n\<bar> < 2 ^ 63" "length (serialize n) \<le> m" "m \<le> 8"
  shows "CScriptNum vch True m = Inr n \<longleftrightarrow> vch = serialize n"
proof
  assume "CScriptNum vch True m = Inr n"
  then show "vch = serialize n" using set_vch_serialize assms(3) by blast
next
  assume "vch = serialize n"
  with serialize_minimal [OF assms(1)] assms(2) show "CScriptNum vch True m = Inr n"
    by (auto simp: CScriptNum_def split: if_splits)
qed

theorem script_number_encoding_unique_witness:
  "CScriptNum [0xff, 0x80] True 4 = Inr (-255) \<longleftrightarrow> [0xff, 0x80] = serialize (-255)"
  by (rule script_number_encoding_unique) (simp_all, code_simp)

end
