(* ===== verification/XC_Allowlist.thy ===== *)
theory XC_Allowlist
  imports XC_Map XC_Handle XC_Script
begin

text \<open>
  The operator invite list of \<^verbatim>\<open>src/src/lottery.cpp\<close> (class \<^verbatim>\<open>Allowlist\<close>): the maps by handle,
  by numeric user id and of payout pins. Mutations return the new list and whether the file
  has to be written; the text of the file itself is not modelled.
\<close>

record Allowlist =
  handles :: "(string, u64) omap"
  byUserId :: "(u64, string) omap"
  pins :: "(string, CScript) omap"
  persistPath :: string

definition Allowlist_init :: Allowlist where
  "Allowlist_init = \<lparr>handles = [], byUserId = [], pins = [], persistPath = []\<rparr>"

definition SetPersistPath :: "string \<Rightarrow> Allowlist \<Rightarrow> Allowlist" where
  "SetPersistPath path al = al\<lparr>persistPath := path\<rparr>"

text \<open>The locked part of \<^verbatim>\<open>Allowlist::Add\<close>.\<close>

definition Add_entry :: "string \<Rightarrow> u64 \<Rightarrow> CScript \<Rightarrow> Allowlist \<Rightarrow> Allowlist" where
  "Add_entry norm uid pinnedScript al =
     al\<lparr>handles := map_put norm uid (handles al),
        byUserId := (if uid \<noteq> 0 then map_put uid norm (byUserId al) else byUserId al),
        pins := (if pinnedScript \<noteq> [] then map_put norm pinnedScript (pins al) else pins al)\<rparr>"

datatype allow_error = allow_handle handle_error | not_on_list | cannot_write

text \<open>
  \<^verbatim>\<open>Add\<close> and \<^verbatim>\<open>Remove\<close>: \<open>write_ok\<close> is whether \<^verbatim>\<open>Persist\<close> could write the file. A failing write
  is reported, but the entry stays changed in memory.
\<close>

definition Allowlist_Add ::
  "bool \<Rightarrow> string \<Rightarrow> u64 \<Rightarrow> bool \<Rightarrow> CScript \<Rightarrow> Allowlist \<Rightarrow> allow_error option \<times> Allowlist" where
  "Allowlist_Add write_ok hnd uid persist pinnedScript al =
     (case NormalizeXHandle hnd of Inl e \<Rightarrow> (Some (allow_handle e), al)
      | Inr norm \<Rightarrow>
          let al = Add_entry norm uid pinnedScript al
          in if persist \<and> persistPath al \<noteq> [] \<and> \<not> write_ok then (Some cannot_write, al)
             else (None, al))"

definition Remove_entry :: "string \<Rightarrow> u64 \<Rightarrow> Allowlist \<Rightarrow> Allowlist" where
  "Remove_entry norm uid al =
     al\<lparr>byUserId := (if uid \<noteq> 0 then map_del uid (byUserId al) else byUserId al),
        handles := map_del norm (handles al), pins := map_del norm (pins al)\<rparr>"

definition Allowlist_Remove ::
  "bool \<Rightarrow> string \<Rightarrow> bool \<Rightarrow> Allowlist \<Rightarrow> allow_error option \<times> Allowlist" where
  "Allowlist_Remove write_ok hnd persist al =
     (case NormalizeXHandle hnd of Inl e \<Rightarrow> (Some (allow_handle e), al)
      | Inr norm \<Rightarrow>
          (case map_of (handles al) norm of None \<Rightarrow> (Some not_on_list, al)
           | Some uid \<Rightarrow>
               let al = Remove_entry norm uid al
               in if persist \<and> persistPath al \<noteq> [] \<and> \<not> write_ok then (Some cannot_write, al)
                  else (None, al)))"

definition Allowlist_Contains :: "string \<Rightarrow> u64 \<Rightarrow> Allowlist \<Rightarrow> bool" where
  "Allowlist_Contains hnd uid al =
     (case NormalizeXHandle hnd of Inl e \<Rightarrow> False
      | Inr norm \<Rightarrow>
          (case map_of (handles al) norm of None \<Rightarrow> False
           | Some listed \<Rightarrow> \<not> (listed \<noteq> 0 \<and> uid \<noteq> 0 \<and> listed \<noteq> uid)))"

definition Allowlist_Allows :: "string \<Rightarrow> u64 \<Rightarrow> Allowlist \<Rightarrow> bool" where
  "Allowlist_Allows hnd uid al = True"

definition PinnedScript :: "string \<Rightarrow> Allowlist \<Rightarrow> CScript" where
  "PinnedScript hnd al =
     (case NormalizeXHandle hnd of Inl e \<Rightarrow> []
      | Inr norm \<Rightarrow> (case map_of (pins al) norm of None \<Rightarrow> [] | Some s \<Rightarrow> s))"

definition Allowlist_Reset :: "Allowlist \<Rightarrow> Allowlist" where
  "Allowlist_Reset al = al\<lparr>handles := [], byUserId := [], pins := []\<rparr>"

record VerifiedXAccount =
  v_handle :: string
  v_userId :: u64
  v_pinnedScript :: CScript

definition Allowlist_List :: "Allowlist \<Rightarrow> VerifiedXAccount list" where
  "Allowlist_List al =
     map (\<lambda>(h, uid). \<lparr>v_handle = h, v_userId = uid,
            v_pinnedScript = (case map_of (pins al) h of None \<Rightarrow> [] | Some s \<Rightarrow> s)\<rparr>) (handles al)"

definition Allowlist_Size :: "Allowlist \<Rightarrow> nat" where
  "Allowlist_Size al = length (handles al)"

section \<open>Invariant\<close>

text \<open>
  Keys are ordered and normalised, pins belong to listed handles and are not empty. The index
  by user id is not part of it: re-adding a handle under another id leaves the old key.
\<close>

definition allow_ok :: "Allowlist \<Rightarrow> bool" where
  "allow_ok al \<longleftrightarrow>
     map_ok (handles al) \<and> map_ok (byUserId al) \<and> map_ok (pins al) \<and>
     (\<forall>h. map_of (handles al) h \<noteq> None \<longrightarrow> valid_handle h) \<and>
     (\<forall>h s. map_of (pins al) h = Some s \<longrightarrow> s \<noteq> [] \<and> map_of (handles al) h \<noteq> None)"

lemma allow_ok_init: "allow_ok Allowlist_init"
  by (simp add: allow_ok_def Allowlist_init_def map_ok_def)

lemma allow_ok_Add_entry:
  assumes "allow_ok al" "valid_handle norm"
  shows "allow_ok (Add_entry norm uid pin al)"
  using assms unfolding allow_ok_def Add_entry_def
  by (auto simp: map_laws map_of_put split: if_splits)

lemma allow_ok_Remove_entry: "allow_ok al \<Longrightarrow> allow_ok (Remove_entry norm uid al)"
  unfolding allow_ok_def Remove_entry_def
  by (auto simp: map_laws map_of_del split: if_splits)

lemma allow_ok_Add: "allow_ok al \<Longrightarrow> allow_ok (snd (Allowlist_Add w hnd uid p pin al))"
  by (auto simp: Allowlist_Add_def Let_def dest: NormalizeXHandle_valid
      intro!: allow_ok_Add_entry split: sum.splits)

lemma allow_ok_Remove: "allow_ok al \<Longrightarrow> allow_ok (snd (Allowlist_Remove w hnd p al))"
  by (auto simp: Allowlist_Remove_def Let_def intro!: allow_ok_Remove_entry
      split: sum.splits option.splits)

end
