(* ===== verification/XC_Hasher.thy ===== *)
theory XC_Hasher
  imports XC_Prelude
begin

text \<open>
  What the block hashers of \<^verbatim>\<open>src/src/crypto\<close> share: an object with chaining
  words, a 64-byte buffer and a byte count, fed by any number of \<^verbatim>\<open>Write\<close> calls.
  The locale \<open>stream_hash\<close> is the contract a \<^verbatim>\<open>Write\<close> has to meet: after it the
  object represents the old message followed by the new bytes. From that law alone follow
  that the split of a message into writes does not matter, that the uninitialised buffer
  does not matter, and what the padding of \<^verbatim>\<open>Finalize\<close> leaves in the chaining words.
\<close>

record hasher =
  hs :: "u32 list"
  hbuf :: bytes
  hbytes :: u64

definition memcpy_at :: "nat \<Rightarrow> bytes \<Rightarrow> bytes \<Rightarrow> bytes" where
  "memcpy_at off src dst = take off dst @ src @ drop (off + length src) dst"

lemma length_memcpy_at: "off + length src \<le> length dst \<Longrightarrow> length (memcpy_at off src dst) = length dst"
  by (simp add: memcpy_at_def)

section \<open>Messages as blocks\<close>

fun blocks64 :: "nat \<Rightarrow> bytes \<Rightarrow> bytes list" where
  "blocks64 0 m = []"
| "blocks64 (Suc n) m = take 64 m # blocks64 n (drop 64 m)"

definition chain :: "(u32 list \<Rightarrow> bytes \<Rightarrow> u32 list) \<Rightarrow> u32 list \<Rightarrow> bytes \<Rightarrow> u32 list" where
  "chain cf iv m = foldl cf iv (blocks64 (length m div 64) m)"

definition tail64 :: "bytes \<Rightarrow> bytes" where
  "tail64 m = drop (64 * (length m div 64)) m"

lemma blocks64_append: "64 * n \<le> length m \<Longrightarrow> blocks64 n (m @ m') = blocks64 n m"
  by (induction n arbitrary: m) simp_all

lemma blocks64_add: "blocks64 (a + b) m = blocks64 a m @ blocks64 b (drop (64 * a) m)"
  by (induction a arbitrary: m) (simp_all add: add.commute)

lemma length_tail64: "length (tail64 m) = length m mod 64"
  by (simp add: tail64_def minus_mult_div_eq_mod)

lemma tail64_append_take: "take (64 * (length m div 64)) m @ tail64 m = m"
  by (simp add: tail64_def)

lemma length_div_tail: "length (m @ d) div 64 = length m div 64 + length (tail64 m @ d) div 64"
proof -
  have "length (m @ d) = 64 * (length m div 64) + length (tail64 m @ d)"
    by (simp add: length_tail64)
  then show ?thesis
    by (simp only: div_mult_self4 zero_neq_numeral not_False_eq_True)
qed

lemma chain_tail:
  "chain cf iv (m @ d) = chain cf (chain cf iv m) (tail64 m @ d)"
proof -
  let ?q = "length m div 64"
  have "drop (64 * ?q) (m @ d) = tail64 m @ d"
    by (simp add: tail64_def)
  then show ?thesis
    by (simp only: chain_def length_div_tail [of m d] blocks64_add foldl_append)
      (simp add: blocks64_append)
qed

lemma tail64_tail: "tail64 (m @ d) = tail64 (tail64 m @ d)"
proof -
  let ?q = "length m div 64"
  have drop_q: "drop (64 * ?q) (m @ d) = tail64 m @ d"
    by (simp add: tail64_def)
  have "tail64 (m @ d) = drop (64 * (length (tail64 m @ d) div 64)) (drop (64 * ?q) (m @ d))"
    by (simp only: tail64_def [of "m @ d"] length_div_tail [of m d] drop_drop distrib_left add.commute)
  then show ?thesis
    by (simp only: drop_q tail64_def [of "tail64 m @ d"])
qed

lemma chain_short: "length m < 64 \<Longrightarrow> chain cf iv m = iv"
  by (simp add: chain_def)

lemma tail64_short: "length m < 64 \<Longrightarrow> tail64 m = m"
  by (simp add: tail64_def)

lemma chain_block: "length b = 64 \<Longrightarrow> chain cf iv (b @ d) = chain cf (cf iv b) d"
  by (simp add: chain_def div_add_self1)

lemma tail64_block: "length b = 64 \<Longrightarrow> tail64 (b @ d) = tail64 d"
  by (simp add: tail64_def div_add_self1)

text \<open>Two compression functions that agree on blocks chain a message alike.\<close>

lemma chain_cong:
  assumes "P iv"
    and "\<And>s b. P s \<Longrightarrow> length b = 64 \<Longrightarrow> cf s b = cf' s b \<and> P (cf s b)"
  shows "chain cf iv m = chain cf' iv m \<and> P (chain cf iv m)"
proof -
  have "foldl cf s (blocks64 n d) = foldl cf' s (blocks64 n d) \<and> P (foldl cf s (blocks64 n d))"
    if "P s" "64 * n \<le> length d" for s n d
    using that
  proof (induction n arbitrary: s d)
    case (Suc n)
    then have "length (take 64 d) = 64" by simp
    with Suc.prems assms(2) have "cf s (take 64 d) = cf' s (take 64 d)" "P (cf s (take 64 d))"
      by blast+
    with Suc.IH [of "cf s (take 64 d)" "drop 64 d"] Suc.prems show ?case by force
  qed simp
  from this [OF assms(1), of "length m div 64" m] show ?thesis
    unfolding chain_def by (metis times_div_less_eq_dividend)
qed

section \<open>The contract of Write\<close>

definition stream_repr ::
  "(u32 list \<Rightarrow> bytes \<Rightarrow> u32 list) \<Rightarrow> u32 list \<Rightarrow> hasher \<Rightarrow> bytes \<Rightarrow> bool" where
  "stream_repr cf iv h m \<longleftrightarrow>
     hs h = chain cf iv m \<and> length (hbuf h) = 64 \<and>
     take (length m mod 64) (hbuf h) = tail64 m \<and> hbytes h = of_nat (length m)"

text \<open>Bytes \<^verbatim>\<open>pad[0 .. 1 + ((119 - n % 64) % 64))\<close> for a message of \<open>n\<close> bytes.\<close>

definition pad64 :: "nat \<Rightarrow> bytes" where
  "pad64 n = 0x80 # replicate ((119 - n mod 64) mod 64) 0"

lemma pad64_length: "(n + length (pad64 n) + 8) mod 64 = 0"
proof -
  define r where "r = n mod 64"
  have r: "r < 64" by (simp add: r_def)
  have "(r + (9 + (119 - r) mod 64)) mod 64 = 0"
  proof (cases "r \<le> 55")
    case True
    then have "(119 - r) mod 64 = 55 - r"
      using r by (simp add: mod_if)
    with True show ?thesis by simp
  next
    case False
    then have "(119 - r) mod 64 = 119 - r"
      using r by (simp add: mod_if)
    with r show ?thesis by simp
  qed
  then have "(n + (9 + (119 - r) mod 64)) mod 64 = 0"
    by (simp only: r_def mod_add_left_eq)
  then show ?thesis
    by (simp add: pad64_def r_def add.commute add.left_commute)
qed

lemma pad64_bytes: "pad64 (unat (of_nat n :: u64)) = pad64 n"
  by (simp add: pad64_def unat_of_nat mod_mod_cancel)

section \<open>The three moves of a Write\<close>

lemma unat_bytes_mod: "unat ((of_nat n :: u64) mod 64) = n mod 64"
  by (simp add: unat_mod_distrib unat_of_nat mod_mod_cancel)

lemma repr_bufsize: "stream_repr cf iv h m \<Longrightarrow> unat (hbytes h mod 64) = length m mod 64"
  by (simp add: stream_repr_def unat_bytes_mod)

text \<open>Filling the buffer to 64 bytes and compressing it.\<close>

lemma repr_fill:
  assumes h: "stream_repr cf iv h m" and d: "length m mod 64 + length d = 64"
  shows "stream_repr cf iv
    (h\<lparr>hs := cf (hs h) (memcpy_at (length m mod 64) d (hbuf h)),
       hbuf := memcpy_at (length m mod 64) d (hbuf h),
       hbytes := hbytes h + of_nat (length d)\<rparr>) (m @ d)"
proof -
  let ?b = "tail64 m @ d"
  have lb: "length ?b = 64" using d by (simp add: length_tail64)
  have "memcpy_at (length m mod 64) d (hbuf h) = ?b"
    using h d by (simp add: memcpy_at_def stream_repr_def)
  moreover have "chain cf iv (m @ d) = cf (chain cf iv m) ?b"
    using chain_block [OF lb, of cf "chain cf iv m" "[]"]
    by (simp add: chain_tail [of cf iv m d] chain_short)
  moreover have "length (m @ d) mod 64 = 0"
    using d by (metis length_append mod_add_left_eq mod_self)
  moreover have "tail64 (m @ d) = []"
    using calculation(3) length_tail64 [of "m @ d"] by simp
  ultimately show ?thesis
    using h lb by (simp add: stream_repr_def)
qed

text \<open>Compressing whole blocks straight from the input.\<close>

lemma repr_blocks:
  assumes h: "stream_repr cf iv h m" and m: "length m mod 64 = 0" and d: "length d = 64 * n"
  shows "stream_repr cf iv
    (h\<lparr>hs := foldl cf (hs h) (blocks64 n d), hbytes := hbytes h + of_nat (64 * n)\<rparr>) (m @ d)"
proof -
  have "tail64 m = []" using m length_tail64 [of m] by simp
  then have "chain cf iv (m @ d) = foldl cf (chain cf iv m) (blocks64 n d)"
    using d by (simp add: chain_tail [of cf iv m d]) (simp add: chain_def)
  moreover have "length (m @ d) mod 64 = 0"
    using m d by (simp add: mod_add_left_eq [symmetric])
  moreover have "tail64 (m @ d) = []"
    using calculation(2) length_tail64 [of "m @ d"] by simp
  ultimately show ?thesis
    using h d by (simp add: stream_repr_def)
qed

text \<open>Keeping what does not fill a block.\<close>

lemma repr_rest:
  assumes h: "stream_repr cf iv h m" and d: "length m mod 64 + length d < 64"
  shows "stream_repr cf iv
    (h\<lparr>hbuf := memcpy_at (length m mod 64) d (hbuf h),
       hbytes := hbytes h + of_nat (length d)\<rparr>) (m @ d)"
proof -
  let ?b = "tail64 m @ d"
  have lb: "length ?b < 64" using d by (simp add: length_tail64)
  have "chain cf iv (m @ d) = chain cf iv m"
    using lb by (simp add: chain_tail [of cf iv m d] chain_short)
  moreover have "tail64 (m @ d) = ?b"
    using lb by (simp add: tail64_tail [of m d] tail64_short)
  moreover have "length (m @ d) mod 64 = length m mod 64 + length d"
    using d by (metis length_append mod_add_left_eq mod_less)
  ultimately show ?thesis
    using h d by (simp add: stream_repr_def memcpy_at_def length_tail64)
qed

section \<open>Rolling message schedules\<close>

text \<open>Sixteen variables that hold the last sixteen words of a schedule \<open>F\<close>, overwritten in turn.\<close>

definition sched_ok :: "(nat \<Rightarrow> 'w) \<Rightarrow> nat \<Rightarrow> 'w list \<Rightarrow> bool" where
  "sched_ok F t w \<longleftrightarrow> length w = 16 \<and> (\<forall>i < t. t \<le> i + 16 \<longrightarrow> w ! (i mod 16) = F i)"

lemma sched_slot:
  assumes "sched_ok F t w" and u: "t = u + 16" and "k < 16"
  shows "w ! ((t + k) mod 16) = F (u + k)"
proof -
  have "(t + k) mod 16 = (u + k) mod 16"
    by (simp add: u add.assoc add.commute [of 16])
      (simp add: add.assoc [symmetric])
  then show ?thesis
    using assms by (simp add: sched_ok_def)
qed

lemma sched_ok_step:
  assumes "sched_ok F t w"
  shows "sched_ok F (Suc t) (w[t mod 16 := F t])"
proof -
  have "w[t mod 16 := F t] ! (i mod 16) = F i" if i: "i < Suc t" "Suc t \<le> i + 16" for i
  proof (cases "i = t")
    case True
    then show ?thesis using assms by (simp add: sched_ok_def)
  next
    case False
    with i have lt: "i < t" "t < i + 16" by auto
    then have "i mod 16 \<noteq> t mod 16"
      by (metis add_diff_inverse_nat less_diff_conv2 mod_eq_dvd_iff_nat nat_dvd_not_less
          not_less_iff_gr_or_eq zero_less_diff order.asym less_imp_le add.commute)
    with lt assms show ?thesis by (simp add: sched_ok_def)
  qed
  then show ?thesis using assms by (simp add: sched_ok_def)
qed

section \<open>Write of CRIPEMD160 and CSHA1\<close>

text \<open>The two classes have the same \<^verbatim>\<open>Write\<close>, up to the transformation they call.\<close>

text \<open>\<^verbatim>\<open>while (end >= data + 64)\<close> of \<^verbatim>\<open>Write\<close>.\<close>

function full_chunks :: "(u32 list \<Rightarrow> bytes \<Rightarrow> u32 list) \<Rightarrow> hasher \<Rightarrow> bytes \<Rightarrow> hasher \<times> bytes" where
  "full_chunks cf h data =
     (if 64 \<le> length data then
        full_chunks cf (h\<lparr>hs := cf (hs h) (take 64 data), hbytes := hbytes h + 64\<rparr>)
          (drop 64 data)
      else (h, data))"
  by pat_completeness auto
termination
  by (relation "measure (\<lambda>(cf, h, data). length data)") auto

declare full_chunks.simps [simp del]

definition buffered_write :: "(u32 list \<Rightarrow> bytes \<Rightarrow> u32 list) \<Rightarrow> hasher \<Rightarrow> bytes \<Rightarrow> hasher" where
  "buffered_write cf h data =
    (let bufsize = unat (hbytes h mod 64);
         (h, data, bufsize) =
           (if bufsize \<noteq> 0 \<and> 64 \<le> bufsize + length data then
              let buf = memcpy_at bufsize (take (64 - bufsize) data) (hbuf h)
              in (h\<lparr>hs := cf (hs h) buf, hbuf := buf,
                    hbytes := hbytes h + of_nat (64 - bufsize)\<rparr>,
                  drop (64 - bufsize) data, 0)
            else (h, data, bufsize));
         (h, data) = full_chunks cf h data
     in if data \<noteq> [] then
          h\<lparr>hbuf := memcpy_at bufsize data (hbuf h),
            hbytes := hbytes h + of_nat (length data)\<rparr>
        else h)"

lemma full_chunks_blocks:
  "full_chunks cf h data =
     (let n = length data div 64
      in (h\<lparr>hs := foldl cf (hs h) (blocks64 n data), hbytes := hbytes h + of_nat (64 * n)\<rparr>,
          drop (64 * n) data))"
proof (induction cf h data rule: full_chunks.induct)
  case (1 cf h data)
  show ?case
  proof (cases "64 \<le> length data")
    case True
    then have "length data div 64 = Suc (length (drop 64 data) div 64)"
      by (simp add: div_if)
    with True "1.IH" show ?thesis
      by (simp add: full_chunks.simps [of cf h data] Let_def add.commute)
  next
    case False
    then show ?thesis
      by (simp add: full_chunks.simps [of cf h data])
  qed
qed

text \<open>The second half of \<^verbatim>\<open>Write\<close>, once the buffer is empty or the input fits it.\<close>

lemma full_chunks_repr:
  assumes h: "stream_repr cf iv h m"
    and fits: "length m mod 64 = 0 \<or> length m mod 64 + length d < 64"
  shows "stream_repr cf iv
    (let (h', d') = full_chunks cf h d
     in if d' \<noteq> [] then
          h'\<lparr>hbuf := memcpy_at (length m mod 64) d' (hbuf h'),
            hbytes := hbytes h' + of_nat (length d')\<rparr>
        else h') (m @ d)"
proof (cases "64 \<le> length d")
  case True
  then have m0: "length m mod 64 = 0" using fits by auto
  let ?n = "length d div 64"
  let ?t = "take (64 * ?n) d" and ?e = "drop (64 * ?n) d"
  let ?h = "h\<lparr>hs := foldl cf (hs h) (blocks64 ?n d), hbytes := hbytes h + of_nat (64 * ?n)\<rparr>"
  have same: "blocks64 ?n d = blocks64 ?n ?t"
    using blocks64_append [of ?n ?t ?e] by simp
  have r: "stream_repr cf iv ?h (m @ ?t)"
    unfolding same by (rule repr_blocks [OF h m0]) simp
  have l0: "length (m @ ?t) mod 64 = 0"
    using m0 by (simp add: mod_add_left_eq [symmetric] del: mod_add_left_eq)
  have "length (m @ ?t) mod 64 + length ?e < 64"
    using l0 by (simp add: minus_mult_div_eq_mod)
  from repr_rest [OF r this]
  have "stream_repr cf iv
     (?h\<lparr>hbuf := memcpy_at (length m mod 64) ?e (hbuf ?h),
        hbytes := hbytes ?h + of_nat (length ?e)\<rparr>) (m @ d)"
    unfolding l0 m0 append_assoc append_take_drop_id .
  moreover have "stream_repr cf iv ?h (m @ d)" if "?e = []"
    using r append_take_drop_id [of "64 * ?n" d] unfolding that append_Nil2 by metis
  ultimately show ?thesis
    unfolding full_chunks_blocks Let_def prod.case by (simp only: split: if_split) blast
next
  case False
  then have "length m mod 64 + length d < 64" using fits by auto
  from repr_rest [OF h this] h False show ?thesis
    by (auto simp: Let_def full_chunks.simps)
qed

lemma buffered_write_repr:
  assumes h: "stream_repr cf iv h m"
  shows "stream_repr cf iv (buffered_write cf h d) (m @ d)"
proof (cases "length m mod 64 \<noteq> 0 \<and> 64 \<le> length m mod 64 + length d")
  case True
  let ?r = "length m mod 64"
  let ?d1 = "take (64 - ?r) d"
  have r64: "?r < 64" by simp
  have d1: "length ?d1 = 64 - ?r" using True by (auto simp: min_def)
  let ?b = "memcpy_at ?r ?d1 (hbuf h)"
  let ?h = "h\<lparr>hs := cf (hs h) ?b, hbuf := ?b, hbytes := hbytes h + of_nat (64 - ?r)\<rparr>"
  have sum: "?r + length ?d1 = 64" using d1 r64 by simp
  have r: "stream_repr cf iv ?h (m @ ?d1)"
    using repr_fill [OF h sum] by (simp only: d1)
  have l0: "length (m @ ?d1) mod 64 = 0"
    using sum by (metis length_append mod_add_left_eq mod_self)
  from full_chunks_repr [OF r disjI1 [OF l0], of "drop (64 - ?r) d"] show ?thesis
    unfolding buffered_write_def repr_bufsize [OF h] Let_def if_P [OF True] prod.case
      l0 append_assoc append_take_drop_id .
next
  case False
  then have "length m mod 64 = 0 \<or> length m mod 64 + length d < 64" by auto
  from full_chunks_repr [OF h this] show ?thesis
    unfolding buffered_write_def repr_bufsize [OF h] Let_def if_not_P [OF False] prod.case .
qed

section \<open>The interface\<close>

locale stream_hash =
  fixes cf :: "u32 list \<Rightarrow> bytes \<Rightarrow> u32 list"
    and iv :: "u32 list"
    and wr :: "hasher \<Rightarrow> bytes \<Rightarrow> hasher"
  assumes write_repr: "stream_repr cf iv h m \<Longrightarrow> stream_repr cf iv (wr h d) (m @ d)"
begin

lemma writes_repr:
  "stream_repr cf iv h m \<Longrightarrow>
   stream_repr cf iv (foldl wr h ds) (m @ concat ds)"
proof (induction ds arbitrary: h m)
  case (Cons d ds)
  from write_repr [OF Cons.prems] have "stream_repr cf iv (wr h d) (m @ d)" .
  from Cons.IH [OF this] show ?case by simp
qed simp

lemma fresh_repr:
  "length buf = 64 \<Longrightarrow> stream_repr cf iv \<lparr>hs = iv, hbuf = buf, hbytes = 0\<rparr> []"
  by (simp add: stream_repr_def chain_def tail64_def)

lemma writes_from_fresh:
  assumes "length buf = 64"
  shows "stream_repr cf iv (foldl wr \<lparr>hs = iv, hbuf = buf, hbytes = 0\<rparr> ds) (concat ds)"
  using writes_repr [OF fresh_repr [OF assms], of ds] by simp

lemma chain_words:
  "stream_repr cf iv h m \<Longrightarrow> hs h = chain cf iv m"
  by (simp add: stream_repr_def)

lemma final_words:
  assumes "stream_repr cf iv h m"
  shows "hs (wr (wr h (pad64 (unat (hbytes h)))) sz) = chain cf iv (m @ pad64 (length m) @ sz)"
proof -
  have "pad64 (unat (hbytes h)) = pad64 (length m)"
    using assms by (simp add: stream_repr_def pad64_bytes)
  with write_repr [OF write_repr [OF assms, of "pad64 (length m)"], of sz] show ?thesis
    by (simp add: stream_repr_def)
qed

lemma split_irrelevant:
  assumes "length buf = 64" "length buf' = 64" "concat ds = concat ds'"
  shows "hs (foldl wr \<lparr>hs = iv, hbuf = buf, hbytes = 0\<rparr> ds) =
         hs (foldl wr \<lparr>hs = iv, hbuf = buf', hbytes = 0\<rparr> ds')"
  using writes_from_fresh [OF assms(1), of ds] writes_from_fresh [OF assms(2), of ds'] assms(3)
  by (simp add: stream_repr_def)

end

end
