(* ===== verification/XC_SHA256.thy ===== *)
theory XC_SHA256
  imports XC_Hasher
begin

text \<open>
  \<^verbatim>\<open>src/src/crypto/sha256.cpp\<close>: the portable \<^verbatim>\<open>sha256::Transform\<close> and the class
  \<^verbatim>\<open>CSHA256\<close>. The unrolled rounds of the source rename the eight registers from call to
  call and keep the message schedule in sixteen words that are overwritten in place; the
  model keeps exactly that (register index and schedule slot as functions of the call's
  number). \<open>fips_compress\<close> is the definition of the standard (a 64-word schedule, shifting
  registers, rotations), and \<open>Transform_block_fips\<close> shows that the two agree.
\<close>

section \<open>Rounds\<close>

definition Ch :: "u32 \<Rightarrow> u32 \<Rightarrow> u32 \<Rightarrow> u32" where
  "Ch x y z = z XOR (x AND (y XOR z))"

definition Maj :: "u32 \<Rightarrow> u32 \<Rightarrow> u32 \<Rightarrow> u32" where
  "Maj x y z = (x AND y) OR (z AND (x OR y))"

definition Sigma0 :: "u32 \<Rightarrow> u32" where
  "Sigma0 x = (drop_bit 2 x OR push_bit 30 x) XOR (drop_bit 13 x OR push_bit 19 x)
     XOR (drop_bit 22 x OR push_bit 10 x)"

definition Sigma1 :: "u32 \<Rightarrow> u32" where
  "Sigma1 x = (drop_bit 6 x OR push_bit 26 x) XOR (drop_bit 11 x OR push_bit 21 x)
     XOR (drop_bit 25 x OR push_bit 7 x)"

definition sigma0 :: "u32 \<Rightarrow> u32" where
  "sigma0 x = (drop_bit 7 x OR push_bit 25 x) XOR (drop_bit 18 x OR push_bit 14 x)
     XOR drop_bit 3 x"

definition sigma1 :: "u32 \<Rightarrow> u32" where
  "sigma1 x = (drop_bit 17 x OR push_bit 15 x) XOR (drop_bit 19 x OR push_bit 13 x)
     XOR drop_bit 10 x"

text \<open>
  Round number \<open>t\<close> is called with the registers rotated \<open>t\<close> places
  (\<^verbatim>\<open>Round(a, ..., h)\<close>, \<^verbatim>\<open>Round(h, a, ..., g)\<close>, ...): its parameter number \<open>j\<close> is
  register \<open>(j + 8 - t mod 8) mod 8\<close>. It writes its parameters \<^verbatim>\<open>d\<close> and \<^verbatim>\<open>h\<close>.
\<close>

definition reg :: "nat \<Rightarrow> nat \<Rightarrow> nat" where
  "reg t j = (j + (8 - t mod 8)) mod 8"

definition sha256_Round :: "nat \<Rightarrow> u32 \<Rightarrow> u32 \<Rightarrow> u32 list \<Rightarrow> u32 list" where
  "sha256_Round t k w r =
     (let a = r ! reg t 0; b = r ! reg t 1; c = r ! reg t 2; d = r ! reg t 3;
          e = r ! reg t 4; f = r ! reg t 5; g = r ! reg t 6; h = r ! reg t 7;
          t1 = h + Sigma1 e + Ch e f g + k + w;
          t2 = Sigma0 a + Maj a b c
      in r[reg t 3 := d + t1, reg t 7 := t1 + t2])"

text \<open>The constants of the 64 calls, one row for each turn of the eight registers.\<close>

definition sha256_K :: "u32 list" where
  "sha256_K = concat [
    [0x428a2f98, 0x71374491, 0xb5c0fbcf, 0xe9b5dba5, 0x3956c25b, 0x59f111f1, 0x923f82a4, 0xab1c5ed5],
    [0xd807aa98, 0x12835b01, 0x243185be, 0x550c7dc3, 0x72be5d74, 0x80deb1fe, 0x9bdc06a7, 0xc19bf174],
    [0xe49b69c1, 0xefbe4786, 0x0fc19dc6, 0x240ca1cc, 0x2de92c6f, 0x4a7484aa, 0x5cb0a9dc, 0x76f988da],
    [0x983e5152, 0xa831c66d, 0xb00327c8, 0xbf597fc7, 0xc6e00bf3, 0xd5a79147, 0x06ca6351, 0x14292967],
    [0x27b70a85, 0x2e1b2138, 0x4d2c6dfc, 0x53380d13, 0x650a7354, 0x766a0abb, 0x81c2c92e, 0x92722c85],
    [0xa2bfe8a1, 0xa81a664b, 0xc24b8b70, 0xc76c51a3, 0xd192e819, 0xd6990624, 0xf40e3585, 0x106aa070],
    [0x19a4c116, 0x1e376c08, 0x2748774c, 0x34b0bcb5, 0x391c0cb3, 0x4ed8aa4a, 0x5b9cca4f, 0x682e6ff3],
    [0x748f82ee, 0x78a5636f, 0x84c87814, 0x8cc70208, 0x90befffa, 0xa4506ceb, 0xbef9a3f7, 0xc67178f2]]"

definition sha256_Initialize :: "u32 list" where
  "sha256_Initialize =
   [0x6a09e667, 0xbb67ae85, 0x3c6ef372, 0xa54ff53a, 0x510e527f, 0x9b05688c, 0x1f83d9ab, 0x5be0cd19]"

text \<open>The word a round consumes: read from the chunk, or \<^verbatim>\<open>w[t] += sigma1(...) + ...\<close> in place.\<close>

definition sha256_word :: "bytes \<Rightarrow> nat \<Rightarrow> u32 list \<Rightarrow> u32" where
  "sha256_word chunk t w =
     (if t < 16 then ReadBE32 (drop (4 * t) chunk)
      else w ! (t mod 16) + (sigma1 (w ! ((t + 14) mod 16)) + w ! ((t + 9) mod 16)
             + sigma0 (w ! ((t + 1) mod 16))))"

definition sha256_step :: "bytes \<Rightarrow> u32 list \<times> u32 list \<Rightarrow> nat \<Rightarrow> u32 list \<times> u32 list" where
  "sha256_step chunk st t =
     (let (r, w) = st; wt = sha256_word chunk t w
      in (sha256_Round t (sha256_K ! t) wt r, w[t mod 16 := wt]))"

definition sha256_block :: "u32 list \<Rightarrow> bytes \<Rightarrow> u32 list" where
  "sha256_block s chunk =
     (let (r, w) = foldl (sha256_step chunk) (s, replicate 16 0) [0..<64]
      in map2 (+) s r)"

fun sha256_Transform :: "u32 list \<Rightarrow> bytes \<Rightarrow> nat \<Rightarrow> u32 list" where
  "sha256_Transform s chunk 0 = s"
| "sha256_Transform s chunk (Suc n) = sha256_Transform (sha256_block s (take 64 chunk)) (drop 64 chunk) n"

section \<open>CSHA256\<close>

text \<open>\<open>buf\<close> stands for the uninitialised buffer of a new object.\<close>

definition CSHA256 :: "bytes \<Rightarrow> hasher" where
  "CSHA256 buf = \<lparr>hs = sha256_Initialize, hbuf = buf, hbytes = 0\<rparr>"

definition CSHA256_Write :: "hasher \<Rightarrow> bytes \<Rightarrow> hasher" where
  "CSHA256_Write h data =
    (let bufsize = unat (hbytes h mod 64);
         (h, data, bufsize) =
           (if bufsize \<noteq> 0 \<and> 64 \<le> bufsize + length data then
              let buf = memcpy_at bufsize (take (64 - bufsize) data) (hbuf h)
              in (h\<lparr>hs := sha256_Transform (hs h) buf 1, hbuf := buf,
                    hbytes := hbytes h + of_nat (64 - bufsize)\<rparr>,
                  drop (64 - bufsize) data, 0)
            else (h, data, bufsize));
         (h, data) =
           (if 64 \<le> length data then
              let blocks = length data div 64
              in (h\<lparr>hs := sha256_Transform (hs h) data blocks,
                    hbytes := hbytes h + of_nat (64 * blocks)\<rparr>,
                  drop (64 * blocks) data)
            else (h, data))
     in if data \<noteq> [] then
          h\<lparr>hbuf := memcpy_at bufsize data (hbuf h),
            hbytes := hbytes h + of_nat (length data)\<rparr>
        else h)"

definition CSHA256_Finalize :: "hasher \<Rightarrow> bytes" where
  "CSHA256_Finalize h =
    (let sizedesc = WriteBE64 (push_bit 3 (hbytes h));
         h = CSHA256_Write h (pad64 (unat (hbytes h)));
         h = CSHA256_Write h sizedesc
     in concat (map WriteBE32 (hs h)))"

definition CSHA256_Reset :: "hasher \<Rightarrow> hasher" where
  "CSHA256_Reset h = h\<lparr>hbytes := 0, hs := sha256_Initialize\<rparr>"

text \<open>The chained calls \<^verbatim>\<open>CSHA256().Write(p1).Write(p2)....Finalize(out)\<close>.\<close>

definition sha256_parts :: "bytes list \<Rightarrow> uint256" where
  "sha256_parts ps = CSHA256_Finalize (foldl CSHA256_Write (CSHA256 (replicate 64 0)) ps)"

section \<open>Write meets the stream contract\<close>

lemma Transform_blocks: "sha256_Transform s d n = foldl sha256_block s (blocks64 n d)"
  by (induction n arbitrary: s d) simp_all

lemma Transform_one: "length b = 64 \<Longrightarrow> sha256_Transform s b 1 = sha256_block s b"
  by simp

text \<open>The second half of \<^verbatim>\<open>Write\<close>, once the buffer is empty or the input fits it.\<close>

lemma Write_blocks_repr:
  assumes h: "stream_repr sha256_block iv h m"
    and fits: "length m mod 64 = 0 \<or> length m mod 64 + length d < 64"
  shows "stream_repr sha256_block iv
    (let (h', d') = (if 64 \<le> length d then
              let blocks = length d div 64
              in (h\<lparr>hs := sha256_Transform (hs h) d blocks,
                    hbytes := hbytes h + of_nat (64 * blocks)\<rparr>,
                  drop (64 * blocks) d)
            else (h, d))
     in if d' \<noteq> [] then
          h'\<lparr>hbuf := memcpy_at (length m mod 64) d' (hbuf h'),
            hbytes := hbytes h' + of_nat (length d')\<rparr>
        else h') (m @ d)"
proof (cases "64 \<le> length d")
  case True
  then have m0: "length m mod 64 = 0" using fits by auto
  let ?n = "length d div 64"
  let ?t = "take (64 * ?n) d" and ?e = "drop (64 * ?n) d"
  let ?h = "h\<lparr>hs := sha256_Transform (hs h) d ?n, hbytes := hbytes h + of_nat (64 * ?n)\<rparr>"
  have same: "sha256_Transform (hs h) d ?n = foldl sha256_block (hs h) (blocks64 ?n ?t)"
    using blocks64_append [of ?n ?t ?e] by (simp add: Transform_blocks)
  have r: "stream_repr sha256_block iv ?h (m @ ?t)"
    unfolding same by (rule repr_blocks [OF h m0]) simp
  have l0: "length (m @ ?t) mod 64 = 0"
    using m0 by (simp add: mod_add_left_eq [symmetric] del: mod_add_left_eq)
  have "length (m @ ?t) mod 64 + length ?e < 64"
    using l0 by (simp add: minus_mult_div_eq_mod)
  from repr_rest [OF r this]
  have "stream_repr sha256_block iv
     (?h\<lparr>hbuf := memcpy_at (length m mod 64) ?e (hbuf ?h),
        hbytes := hbytes ?h + of_nat (length ?e)\<rparr>) (m @ d)"
    unfolding l0 m0 append_assoc append_take_drop_id .
  moreover have "stream_repr sha256_block iv ?h (m @ d)" if "?e = []"
    using r append_take_drop_id [of "64 * ?n" d] unfolding that append_Nil2 by metis
  ultimately show ?thesis
    unfolding Let_def if_P [OF True] prod.case by (simp only: split: if_split) blast
next
  case False
  then have "length m mod 64 + length d < 64" using fits by auto
  from repr_rest [OF h this] h False show ?thesis
    by (auto simp: Let_def)
qed

lemma CSHA256_Write_repr:
  assumes h: "stream_repr sha256_block iv h m"
  shows "stream_repr sha256_block iv (CSHA256_Write h d) (m @ d)"
proof (cases "length m mod 64 \<noteq> 0 \<and> 64 \<le> length m mod 64 + length d")
  case True
  let ?r = "length m mod 64"
  let ?d1 = "take (64 - ?r) d"
  have r64: "?r < 64" by simp
  have d1: "length ?d1 = 64 - ?r" using True by (auto simp: min_def)
  let ?b = "memcpy_at ?r ?d1 (hbuf h)"
  let ?h = "h\<lparr>hs := sha256_block (hs h) ?b, hbuf := ?b, hbytes := hbytes h + of_nat (64 - ?r)\<rparr>"
  have sum: "?r + length ?d1 = 64" using d1 r64 by simp
  have r: "stream_repr sha256_block iv ?h (m @ ?d1)"
    using repr_fill [OF h sum] by (simp only: d1)
  have lb: "length ?b = 64"
    using h sum by (simp add: length_memcpy_at stream_repr_def)
  have l0: "length (m @ ?d1) mod 64 = 0"
    using sum by (metis length_append mod_add_left_eq mod_self)
  from Write_blocks_repr [OF r disjI1 [OF l0], of "drop (64 - ?r) d"] show ?thesis
    unfolding CSHA256_Write_def repr_bufsize [OF h] Let_def if_P [OF True] prod.case
      Transform_one [OF lb] l0 append_assoc append_take_drop_id .
next
  case False
  then have "length m mod 64 = 0 \<or> length m mod 64 + length d < 64" by auto
  from Write_blocks_repr [OF h this] show ?thesis
    unfolding CSHA256_Write_def repr_bufsize [OF h] Let_def if_not_P [OF False] prod.case .
qed

interpretation sha256: stream_hash sha256_block sha256_Initialize CSHA256_Write
  by unfold_locales (rule CSHA256_Write_repr)

section \<open>The standard's compression function\<close>

definition fips_Ch :: "u32 \<Rightarrow> u32 \<Rightarrow> u32 \<Rightarrow> u32" where
  "fips_Ch x y z = (x AND y) XOR (NOT x AND z)"

definition fips_Maj :: "u32 \<Rightarrow> u32 \<Rightarrow> u32 \<Rightarrow> u32" where
  "fips_Maj x y z = (x AND y) XOR (x AND z) XOR (y AND z)"

fun fips_W :: "bytes \<Rightarrow> nat \<Rightarrow> u32" where
  "fips_W c t =
     (if t < 16 then be_word (take 4 (drop (4 * t) c))
      else (let x = fips_W c (t - 2); y = fips_W c (t - 15)
            in (word_rotr 17 x XOR word_rotr 19 x XOR drop_bit 10 x) + fips_W c (t - 7)
               + (word_rotr 7 y XOR word_rotr 18 y XOR drop_bit 3 y) + fips_W c (t - 16)))"

declare fips_W.simps [simp del]

fun fips_round :: "u32 \<Rightarrow> u32 list \<Rightarrow> u32 list" where
  "fips_round kw [a, b, c, d, e, f, g, h] =
     (let t1 = h + (word_rotr 6 e XOR word_rotr 11 e XOR word_rotr 25 e) + fips_Ch e f g + kw;
          t2 = (word_rotr 2 a XOR word_rotr 13 a XOR word_rotr 22 a) + fips_Maj a b c
      in [t1 + t2, a, b, c, d + t1, e, f, g])"
| "fips_round kw r = r"

definition fips_compress :: "u32 list \<Rightarrow> bytes \<Rightarrow> u32 list" where
  "fips_compress s c =
     map2 (+) s (foldl (\<lambda>r t. fips_round (sha256_K ! t + fips_W c t) r) s [0..<64])"

section \<open>The unrolled rounds compute it\<close>

lemma rotr_shifts:
  fixes x :: u32
  assumes "0 < n" "n < 32"
  shows "drop_bit n x OR push_bit (32 - n) x = word_rotr n x"
proof (rule bit_word_eqI)
  fix k :: nat
  assume k: "k < LENGTH(32)"
  show "bit (drop_bit n x OR push_bit (32 - n) x) k = bit (word_rotr n x) k"
  proof (cases "k + n < 32")
    case True
    then have "\<not> 32 - n \<le> k" by linarith
    with True assms k show ?thesis by (simp add: bit_simps add.commute)
  next
    case False
    then have "\<not> bit x (n + k)" "(k + n) mod 32 = k + n - 32" "32 - n \<le> k"
      using assms k by (auto simp: mod_if dest: bit_imp_le_length)
    with False assms k show ?thesis by (simp add: bit_simps)
  qed
qed

lemmas rotr_instances =
  rotr_shifts [of 2, simplified] rotr_shifts [of 13, simplified] rotr_shifts [of 22, simplified]
  rotr_shifts [of 6, simplified] rotr_shifts [of 11, simplified] rotr_shifts [of 25, simplified]
  rotr_shifts [of 7, simplified] rotr_shifts [of 18, simplified] rotr_shifts [of 17, simplified]
  rotr_shifts [of 19, simplified]

lemma Ch_fips: "Ch x y z = fips_Ch x y z"
  by (rule bit_word_eqI) (auto simp: Ch_def fips_Ch_def bit_simps)

lemma Maj_fips: "Maj x y z = fips_Maj x y z"
  by (rule bit_word_eqI) (auto simp: Maj_def fips_Maj_def bit_simps)

lemmas sigma_fips =
  Sigma0_def Sigma1_def sigma0_def sigma1_def rotr_instances Ch_fips Maj_fips

lemma list8:
  assumes "length r = 8"
  obtains a b c d e f g h where "r = [a, b, c, d, e, f, g, h]"
  using assms by (auto simp: numeral_eq_Suc length_Suc_conv)

lemma Round_fips:
  assumes "length r = 8"
  shows "map (\<lambda>j. sha256_Round t k w r ! reg (Suc t) j) [0..<8] =
         fips_round (k + w) (map (\<lambda>j. r ! reg t j) [0..<8])"
proof -
  have "t mod 8 < 8" by simp
  then consider "t mod 8 = 0" | "t mod 8 = 1" | "t mod 8 = 2" | "t mod 8 = 3"
    | "t mod 8 = 4" | "t mod 8 = 5" | "t mod 8 = 6" | "t mod 8 = 7"
    by linarith
  then show ?thesis
    by cases (rule list8 [OF assms]; simp add: sha256_Round_def reg_def mod_Suc upt_rec
        sigma_fips Let_def add.assoc)+
qed

lemma length_Round [simp]: "length (sha256_Round t k w r) = length r"
  by (simp add: sha256_Round_def Let_def)

lemma word_fips:
  assumes "sched_ok (fips_W c) t w"
  shows "sha256_word c t w = fips_W c t"
proof (cases "t < 16")
  case True
  then show ?thesis
    by (simp add: sha256_word_def fips_W.simps [of c t] ReadBE32_def)
next
  case False
  then obtain u where u: "t = u + 16"
    by (metis add.commute le_Suc_ex not_less)
  note slot = sched_slot [OF assms u]
  from slot [of 0] slot [of 14] slot [of 9] slot [of 1]
  have slots: "w ! (t mod 16) = fips_W c u" "w ! ((t + 14) mod 16) = fips_W c (u + 14)"
    "w ! ((t + 9) mod 16) = fips_W c (u + 9)" "w ! ((t + 1) mod 16) = fips_W c (u + 1)"
    by simp_all
  have "fips_W c t = sigma1 (fips_W c (u + 14)) + fips_W c (u + 9) + sigma0 (fips_W c (u + 1))
      + fips_W c u"
    by (simp add: fips_W.simps [of c "16 + u"] u sigma_fips Let_def add.commute [of u])
  with False show ?thesis
    using slots by (simp add: sha256_word_def ac_simps)
qed

lemma steps_fips:
  assumes "length s = 8"
  shows "case foldl (sha256_step c) (s, replicate 16 0) [0..<t] of (r, w) \<Rightarrow>
    length r = 8 \<and> sched_ok (fips_W c) t w \<and>
    map (\<lambda>j. r ! reg t j) [0..<8] =
      foldl (\<lambda>r t. fips_round (sha256_K ! t + fips_W c t) r) s [0..<t]"
proof (induction t)
  case 0
  have "map (\<lambda>j. s ! reg 0 j) [0..<8] = s"
    using assms by (intro nth_equalityI) (simp_all add: reg_def)
  with assms show ?case by (simp add: sched_ok_def)
next
  case (Suc t)
  obtain r w where st: "foldl (sha256_step c) (s, replicate 16 0) [0..<t] = (r, w)"
    by fastforce
  with Suc.IH have IH: "length r = 8" "sched_ok (fips_W c) t w"
    "map (\<lambda>j. r ! reg t j) [0..<8] =
       foldl (\<lambda>r t. fips_round (sha256_K ! t + fips_W c t) r) s [0..<t]"
    by simp_all
  have "foldl (sha256_step c) (s, replicate 16 0) [0..<Suc t] = sha256_step c (r, w) t"
    using st by simp
  also have "\<dots> = (sha256_Round t (sha256_K ! t) (fips_W c t) r, w[t mod 16 := fips_W c t])"
    by (simp add: sha256_step_def word_fips [OF IH(2)] Let_def)
  finally show ?case
    using sched_ok_step [OF IH(2)] Round_fips [OF IH(1), of t "sha256_K ! t" "fips_W c t"] IH
    by (simp del: upt.simps(2) add: upt_Suc_append)
qed

lemma Transform_block_fips:
  assumes "length s = 8"
  shows "sha256_block s c = fips_compress s c"
proof -
  obtain r w where st: "foldl (sha256_step c) (s, replicate 16 0) [0..<64] = (r, w)"
    by fastforce
  with steps_fips [OF assms, of c 64] have r: "length r = 8"
    and eq: "map (\<lambda>j. r ! reg 64 j) [0..<8] =
      foldl (\<lambda>r t. fips_round (sha256_K ! t + fips_W c t) r) s [0..<64]"
    by simp_all
  have "map (\<lambda>j. r ! reg 64 j) [0..<8] = r"
    using r by (intro nth_equalityI) (simp_all add: reg_def)
  with eq st show ?thesis
    by (simp add: sha256_block_def fips_compress_def del: upt_Suc)
qed


section \<open>What CSHA256 computes\<close>

definition fips_sha256 :: "bytes \<Rightarrow> bytes" where
  "fips_sha256 m =
     concat (map WriteBE32 (chain fips_compress sha256_Initialize
       (m @ pad64 (length m) @ WriteBE64 (of_nat (8 * length m)))))"

lemma length_fips_round: "length (fips_round kw r) = length r"
  by (induction kw r rule: fips_round.induct) (simp_all add: Let_def)

lemma length_fips_compress: "length (fips_compress s c) = length s"
proof -
  have "length (foldl (\<lambda>r t. fips_round (f t) r) r ts) = length r" for f r and ts :: "nat list"
    by (induction ts arbitrary: r) (simp_all add: length_fips_round)
  then show ?thesis by (simp add: fips_compress_def)
qed

lemma sha256_chain:
  "chain sha256_block sha256_Initialize m = chain fips_compress sha256_Initialize m \<and>
   length (chain sha256_block sha256_Initialize m) = 8"
proof (rule chain_cong [where P = "\<lambda>s. length s = 8"])
  show "length sha256_Initialize = 8" by (simp add: sha256_Initialize_def)
next
  fix s :: "u32 list" and b :: bytes
  assume "length s = 8"
  then show "sha256_block s b = fips_compress s b \<and> length (sha256_block s b) = 8"
    by (simp add: Transform_block_fips length_fips_compress)
qed

lemma Finalize_fips:
  assumes "stream_repr sha256_block sha256_Initialize h m"
  shows "CSHA256_Finalize h = fips_sha256 m"
proof -
  have "push_bit 3 (hbytes h) = of_nat (8 * length m)"
    using assms by (simp add: stream_repr_def push_bit_eq_mult)
  with sha256.final_words [OF assms] sha256_chain show ?thesis
    by (simp add: CSHA256_Finalize_def fips_sha256_def Let_def)
qed

lemma length_fips_sha256 [simp, byte_laws]: "length (fips_sha256 m) = 32"
proof -
  have "length (concat (map WriteBE32 ws)) = 4 * length ws" for ws
    by (induction ws) simp_all
  moreover have "length (chain fips_compress sha256_Initialize x) = 8" for x
    using sha256_chain [of x] by metis
  ultimately show ?thesis
    by (simp add: fips_sha256_def)
qed

lemma sha256_parts_fips: "sha256_parts ps = fips_sha256 (concat ps)"
  unfolding sha256_parts_def CSHA256_def
  by (rule Finalize_fips) (rule sha256.writes_from_fresh, simp)

lemma length_sha256_parts [simp, byte_laws]: "length (sha256_parts ps) = 32"
  by (simp add: sha256_parts_fips)

text \<open>
  C31. SHA-256: however a message is cut into \<^verbatim>\<open>Write\<close> calls, what \<^verbatim>\<open>Finalize\<close> leaves is the
  standard's digest of the concatenation. The unrolled rounds with renamed registers, the
  16-word rolling schedule, the buffering and the padding are all on the left-hand side.
\<close>

theorem CSHA256_is_fips_sha256: "sha256_parts ps = fips_sha256 (concat ps)"
  by (rule sha256_parts_fips)

end
