(* ===== verification/XC_RIPEMD160.thy ===== *)
theory XC_RIPEMD160
  imports XC_SHA256
begin

text \<open>
  \<^verbatim>\<open>src/src/crypto/ripemd160.cpp\<close>: the two lines of eighty rounds, with the register
  renaming of the unrolled calls, and the class \<^verbatim>\<open>CRIPEMD160\<close>. The hashers built from
  them in \<^verbatim>\<open>src/src/hash.h\<close> (\<^verbatim>\<open>CHash256\<close>, \<^verbatim>\<open>CHash160\<close>) follow.
  \<open>std_compress\<close> is the definition of the standard, with shifting registers.
\<close>

section \<open>Rounds\<close>

definition rmd_f :: "nat \<Rightarrow> u32 \<Rightarrow> u32 \<Rightarrow> u32 \<Rightarrow> u32" where
  "rmd_f n x y z =
     (if n = 1 then x XOR y XOR z
      else if n = 2 then (x AND y) OR (NOT x AND z)
      else if n = 3 then (x OR NOT y) XOR z
      else if n = 4 then (x AND z) OR (y AND NOT z)
      else x XOR (y OR NOT z))"

definition rmd_rol :: "u32 \<Rightarrow> nat \<Rightarrow> u32" where
  "rmd_rol x i = push_bit i x OR drop_bit (32 - i) x"

definition reg5 :: "nat \<Rightarrow> nat \<Rightarrow> nat" where
  "reg5 t j = (j + (5 - t mod 5)) mod 5"

text \<open>\<^verbatim>\<open>Round(a, b, c, d, e, f, x, k, r)\<close> in call number \<open>t\<close> of its line; it writes \<^verbatim>\<open>a\<close> and \<^verbatim>\<open>c\<close>.\<close>

definition rmd_Round :: "nat \<Rightarrow> nat \<Rightarrow> u32 \<Rightarrow> u32 \<Rightarrow> nat \<Rightarrow> u32 list \<Rightarrow> u32 list" where
  "rmd_Round t n x k s r =
     (let a = r ! reg5 t 0; b = r ! reg5 t 1; c = r ! reg5 t 2; d = r ! reg5 t 3; e = r ! reg5 t 4
      in r[reg5 t 0 := rmd_rol (a + rmd_f n b c d + x + k) s + e, reg5 t 2 := rmd_rol c 10])"

definition rmd_r1 :: "nat list" where
  "rmd_r1 = [
    0, 1, 2, 3, 4, 5, 6, 7, 8, 9, 10, 11, 12, 13, 14, 15,
    7, 4, 13, 1, 10, 6, 15, 3, 12, 0, 9, 5, 2, 14, 11, 8,
    3, 10, 14, 4, 9, 15, 8, 1, 2, 7, 0, 6, 13, 11, 5, 12,
    1, 9, 11, 10, 0, 8, 12, 4, 13, 3, 7, 15, 14, 5, 6, 2,
    4, 0, 5, 9, 7, 12, 2, 10, 14, 1, 3, 8, 11, 6, 15, 13]"

definition rmd_s1 :: "nat list" where
  "rmd_s1 = [
    11, 14, 15, 12, 5, 8, 7, 9, 11, 13, 14, 15, 6, 7, 9, 8,
    7, 6, 8, 13, 11, 9, 7, 15, 7, 12, 15, 9, 11, 7, 13, 12,
    11, 13, 6, 7, 14, 9, 13, 15, 14, 8, 13, 6, 5, 12, 7, 5,
    11, 12, 14, 15, 14, 15, 9, 8, 9, 14, 5, 6, 8, 6, 5, 12,
    9, 15, 5, 11, 6, 8, 13, 12, 5, 12, 13, 14, 11, 8, 5, 6]"

definition rmd_r2 :: "nat list" where
  "rmd_r2 = [
    5, 14, 7, 0, 9, 2, 11, 4, 13, 6, 15, 8, 1, 10, 3, 12,
    6, 11, 3, 7, 0, 13, 5, 10, 14, 15, 8, 12, 4, 9, 1, 2,
    15, 5, 1, 3, 7, 14, 6, 9, 11, 8, 12, 2, 10, 0, 4, 13,
    8, 6, 4, 1, 3, 11, 15, 0, 5, 12, 2, 13, 9, 7, 10, 14,
    12, 15, 10, 4, 1, 5, 8, 7, 6, 2, 13, 14, 0, 3, 9, 11]"

definition rmd_s2 :: "nat list" where
  "rmd_s2 = [
    8, 9, 9, 11, 13, 15, 15, 5, 7, 7, 8, 11, 14, 14, 12, 6,
    9, 13, 15, 7, 12, 8, 9, 11, 7, 7, 12, 7, 6, 15, 13, 11,
    9, 7, 15, 11, 8, 6, 6, 14, 12, 13, 5, 14, 13, 13, 7, 5,
    15, 5, 8, 11, 14, 14, 6, 14, 6, 9, 12, 9, 12, 5, 15, 8,
    8, 5, 12, 9, 12, 5, 14, 6, 8, 13, 6, 5, 15, 13, 11, 11]"

definition rmd_K1 :: "u32 list" where
  "rmd_K1 = [0, 0x5A827999, 0x6ED9EBA1, 0x8F1BBCDC, 0xA953FD4E]"

definition rmd_K2 :: "u32 list" where
  "rmd_K2 = [0x50A28BE6, 0x5C4DD124, 0x6D703EF3, 0x7A6D76E9, 0]"

definition rmd_Initialize :: "u32 list" where
  "rmd_Initialize = [0x67452301, 0xEFCDAB89, 0x98BADCFE, 0x10325476, 0xC3D2E1F0]"

definition rmd_step :: "u32 list \<Rightarrow> u32 list \<times> u32 list \<Rightarrow> nat \<Rightarrow> u32 list \<times> u32 list" where
  "rmd_step w st t =
     (let (p, q) = st
      in (rmd_Round t (t div 16 + 1) (w ! (rmd_r1 ! t)) (rmd_K1 ! (t div 16)) (rmd_s1 ! t) p,
          rmd_Round t (5 - t div 16) (w ! (rmd_r2 ! t)) (rmd_K2 ! (t div 16)) (rmd_s2 ! t) q))"

definition rmd_words :: "bytes \<Rightarrow> u32 list" where
  "rmd_words chunk = map (\<lambda>i. ReadLE32 (drop (4 * i) chunk)) [0..<16]"

definition rmd_mix :: "u32 list \<Rightarrow> u32 list \<Rightarrow> u32 list \<Rightarrow> u32 list" where
  "rmd_mix s p q =
     [s ! 1 + p ! 2 + q ! 3, s ! 2 + p ! 3 + q ! 4, s ! 3 + p ! 4 + q ! 0,
      s ! 4 + p ! 0 + q ! 1, s ! 0 + p ! 1 + q ! 2]"

definition rmd_Transform :: "u32 list \<Rightarrow> bytes \<Rightarrow> u32 list" where
  "rmd_Transform s chunk =
     (let (p, q) = foldl (rmd_step (rmd_words chunk)) (s, s) [0..<80] in rmd_mix s p q)"

section \<open>CRIPEMD160\<close>

definition CRIPEMD160 :: "bytes \<Rightarrow> hasher" where
  "CRIPEMD160 buf = \<lparr>hs = rmd_Initialize, hbuf = buf, hbytes = 0\<rparr>"

definition CRIPEMD160_Write :: "hasher \<Rightarrow> bytes \<Rightarrow> hasher" where
  "CRIPEMD160_Write = buffered_write rmd_Transform"

definition CRIPEMD160_Finalize :: "hasher \<Rightarrow> bytes" where
  "CRIPEMD160_Finalize h =
    (let sizedesc = WriteLE64 (push_bit 3 (hbytes h));
         h = CRIPEMD160_Write h (pad64 (unat (hbytes h)));
         h = CRIPEMD160_Write h sizedesc
     in concat (map WriteLE32 (hs h)))"

definition CRIPEMD160_Reset :: "hasher \<Rightarrow> hasher" where
  "CRIPEMD160_Reset h = h\<lparr>hbytes := 0, hs := rmd_Initialize\<rparr>"

section \<open>CHash256 and CHash160\<close>

text \<open>\<^verbatim>\<open>CHash256::Finalize\<close> and \<^verbatim>\<open>CHash160::Finalize\<close> on the wrapped \<^verbatim>\<open>CSHA256\<close> object; \<^verbatim>\<open>Write\<close> and \<^verbatim>\<open>Reset\<close> are that object's own.\<close>

definition CHash256_Finalize :: "hasher \<Rightarrow> uint256" where
  "CHash256_Finalize sha =
     (let buf = CSHA256_Finalize sha
      in CSHA256_Finalize (CSHA256_Write (CSHA256_Reset sha) buf))"

definition CHash160_Finalize :: "hasher \<Rightarrow> uint160" where
  "CHash160_Finalize sha =
     (let buf = CSHA256_Finalize sha
      in CRIPEMD160_Finalize (CRIPEMD160_Write (CRIPEMD160 (replicate 64 0)) buf))"

definition hash256_parts :: "bytes list \<Rightarrow> uint256" where
  "hash256_parts ps = CHash256_Finalize (foldl CSHA256_Write (CSHA256 (replicate 64 0)) ps)"

definition Hash160 :: "bytes \<Rightarrow> uint160" where
  "Hash160 b = CHash160_Finalize (CSHA256_Write (CSHA256 (replicate 64 0)) b)"

section \<open>Write meets the stream contract\<close>

interpretation rmd160: stream_hash rmd_Transform rmd_Initialize CRIPEMD160_Write
  by unfold_locales (simp add: CRIPEMD160_Write_def buffered_write_repr)

section \<open>The standard's compression function\<close>

text \<open>One round on shifting registers, and the two lines of eighty of them.\<close>

fun std_round :: "nat \<Rightarrow> u32 \<Rightarrow> u32 \<Rightarrow> nat \<Rightarrow> u32 list \<Rightarrow> u32 list" where
  "std_round n x k s [a, b, c, d, e] =
     [e, word_rotl s (a + rmd_f n b c d + x + k) + e, b, word_rotl 10 c, d]"
| "std_round n x k s r = r"

definition std_line1 :: "bytes \<Rightarrow> u32 list \<Rightarrow> nat \<Rightarrow> u32 list" where
  "std_line1 c r t = std_round (t div 16 + 1) (le_word (take 4 (drop (4 * (rmd_r1 ! t)) c)))
     (rmd_K1 ! (t div 16)) (rmd_s1 ! t) r"

definition std_line2 :: "bytes \<Rightarrow> u32 list \<Rightarrow> nat \<Rightarrow> u32 list" where
  "std_line2 c r t = std_round (5 - t div 16) (le_word (take 4 (drop (4 * (rmd_r2 ! t)) c)))
     (rmd_K2 ! (t div 16)) (rmd_s2 ! t) r"

definition std_compress :: "u32 list \<Rightarrow> bytes \<Rightarrow> u32 list" where
  "std_compress s c =
     rmd_mix s (foldl (std_line1 c) s [0..<80]) (foldl (std_line2 c) s [0..<80])"

section \<open>The unrolled rounds compute it\<close>

lemma rol_rotl:
  assumes "0 < n" "n < 32"
  shows "rmd_rol x n = word_rotl n x"
proof -
  have "rmd_rol x n = drop_bit (32 - n) x OR push_bit (32 - (32 - n)) x"
    using assms by (simp add: rmd_rol_def or.commute)
  also have "\<dots> = word_rotr (32 - n) x"
    by (rule rotr_shifts) (use assms in auto)
  also have "\<dots> = word_rotl n x"
    using assms by (intro bit_word_eqI) (simp add: bit_simps)
  finally show ?thesis .
qed

lemma list5:
  assumes "length r = 5"
  obtains a b c d e where "r = [a, b, c, d, e]"
  using assms by (auto simp: numeral_eq_Suc length_Suc_conv)

lemma rmd_Round_std:
  assumes "length r = 5" "0 < s" "s < 32"
  shows "map (\<lambda>j. rmd_Round t n x k s r ! reg5 (Suc t) j) [0..<5] =
         std_round n x k s (map (\<lambda>j. r ! reg5 t j) [0..<5])"
proof -
  have "t mod 5 < 5" by simp
  then consider "t mod 5 = 0" | "t mod 5 = 1" | "t mod 5 = 2" | "t mod 5 = 3" | "t mod 5 = 4"
    by linarith
  then show ?thesis
    by cases (rule list5 [OF assms(1)]; simp add: rmd_Round_def reg5_def mod_Suc upt_rec
        rol_rotl assms Let_def)+
qed

lemma length_rmd_Round [simp]: "length (rmd_Round t n x k s r) = length r"
  by (simp add: rmd_Round_def Let_def)

lemma rmd_shifts: "t < 80 \<Longrightarrow> 0 < rmd_s1 ! t \<and> rmd_s1 ! t < 32 \<and> 0 < rmd_s2 ! t \<and> rmd_s2 ! t < 32"
proof -
  have "\<forall>s \<in> set (rmd_s1 @ rmd_s2). 0 < s \<and> s < 32" "length rmd_s1 = 80" "length rmd_s2 = 80"
    by (simp_all add: rmd_s1_def rmd_s2_def)
  then show "t < 80 \<Longrightarrow> 0 < rmd_s1 ! t \<and> rmd_s1 ! t < 32 \<and> 0 < rmd_s2 ! t \<and> rmd_s2 ! t < 32"
    by (metis Un_iff nth_mem set_append)
qed

lemma rmd_word_index: "t < 80 \<Longrightarrow> rmd_r1 ! t < 16 \<and> rmd_r2 ! t < 16"
proof -
  have "\<forall>s \<in> set (rmd_r1 @ rmd_r2). s < 16" "length rmd_r1 = 80" "length rmd_r2 = 80"
    by (simp_all add: rmd_r1_def rmd_r2_def)
  then show "t < 80 \<Longrightarrow> rmd_r1 ! t < 16 \<and> rmd_r2 ! t < 16"
    by (metis Un_iff nth_mem set_append)
qed

lemma rmd_words_nth: "i < 16 \<Longrightarrow> rmd_words c ! i = le_word (take 4 (drop (4 * i) c))"
  by (simp add: rmd_words_def ReadLE32_def)

lemma rmd_steps_std:
  assumes "length s = 5" "t \<le> 80"
  shows "case foldl (rmd_step (rmd_words c)) (s, s) [0..<t] of (p, q) \<Rightarrow>
    length p = 5 \<and> length q = 5 \<and>
    map (\<lambda>j. p ! reg5 t j) [0..<5] = foldl (std_line1 c) s [0..<t] \<and>
    map (\<lambda>j. q ! reg5 t j) [0..<5] = foldl (std_line2 c) s [0..<t]"
  using assms(2)
proof (induction t)
  case 0
  have "map (\<lambda>j. s ! reg5 0 j) [0..<5] = s"
    using assms by (intro nth_equalityI) (simp_all add: reg5_def)
  with assms show ?case by simp
next
  case (Suc t)
  obtain p q where st: "foldl (rmd_step (rmd_words c)) (s, s) [0..<t] = (p, q)"
    by fastforce
  with Suc have IH: "length p = 5" "length q = 5"
    "map (\<lambda>j. p ! reg5 t j) [0..<5] = foldl (std_line1 c) s [0..<t]"
    "map (\<lambda>j. q ! reg5 t j) [0..<5] = foldl (std_line2 c) s [0..<t]"
    by simp_all
  have t: "t < 80" using Suc.prems by simp
  note r = rmd_shifts [OF t] and w = rmd_word_index [OF t]
  have "foldl (rmd_step (rmd_words c)) (s, s) [0..<Suc t] = rmd_step (rmd_words c) (p, q) t"
    using st by simp
  also have "\<dots> =
    (rmd_Round t (t div 16 + 1) (le_word (take 4 (drop (4 * (rmd_r1 ! t)) c))) (rmd_K1 ! (t div 16)) (rmd_s1 ! t) p,
     rmd_Round t (5 - t div 16) (le_word (take 4 (drop (4 * (rmd_r2 ! t)) c))) (rmd_K2 ! (t div 16)) (rmd_s2 ! t) q)"
    using w by (simp add: rmd_step_def rmd_words_nth)
  finally show ?case
    using rmd_Round_std [OF IH(1), of "rmd_s1 ! t" t] rmd_Round_std [OF IH(2), of "rmd_s2 ! t" t] IH r
    by (simp del: upt.simps(2) add: upt_Suc_append std_line1_def [of c _ t] std_line2_def [of c _ t])
qed

lemma rmd_Transform_std:
  assumes "length s = 5"
  shows "rmd_Transform s c = std_compress s c"
proof -
  obtain p q where st: "foldl (rmd_step (rmd_words c)) (s, s) [0..<80] = (p, q)"
    by fastforce
  with rmd_steps_std [OF assms, of 80 c] have r: "length p = 5" "length q = 5"
    and eq: "map (\<lambda>j. p ! reg5 80 j) [0..<5] = foldl (std_line1 c) s [0..<80]"
      "map (\<lambda>j. q ! reg5 80 j) [0..<5] = foldl (std_line2 c) s [0..<80]"
    by simp_all
  have "map (\<lambda>j. p ! reg5 80 j) [0..<5] = p" "map (\<lambda>j. q ! reg5 80 j) [0..<5] = q"
    using r by (intro nth_equalityI; simp add: reg5_def)+
  with eq st show ?thesis
    by (simp add: rmd_Transform_def std_compress_def del: upt_Suc)
qed

lemma length_rmd_mix [simp]: "length (rmd_mix s p q) = 5"
  by (simp add: rmd_mix_def)

section \<open>What CRIPEMD160 and the two composed hashers compute\<close>

definition std_ripemd160 :: "bytes \<Rightarrow> bytes" where
  "std_ripemd160 m =
     concat (map WriteLE32 (chain std_compress rmd_Initialize
       (m @ pad64 (length m) @ WriteLE64 (of_nat (8 * length m)))))"

lemma rmd_chain:
  "chain rmd_Transform rmd_Initialize m = chain std_compress rmd_Initialize m \<and>
   length (chain rmd_Transform rmd_Initialize m) = 5"
  by (rule chain_cong [where P = "\<lambda>s. length s = 5"])
    (auto simp: rmd_Initialize_def rmd_Transform_std, simp add: std_compress_def)

lemma rmd_Finalize_std:
  assumes "stream_repr rmd_Transform rmd_Initialize h m"
  shows "CRIPEMD160_Finalize h = std_ripemd160 m"
proof -
  have "push_bit 3 (hbytes h) = of_nat (8 * length m)"
    using assms by (simp add: stream_repr_def push_bit_eq_mult mult.commute)
  then show ?thesis
    unfolding CRIPEMD160_Finalize_def Let_def rmd160.final_words [OF assms] rmd_chain [THEN conjunct1]
      std_ripemd160_def by simp
qed

lemma length_std_ripemd160 [simp]: "length (std_ripemd160 m) = 20"
proof -
  have "length (chain std_compress rmd_Initialize x) = 5" for x
    using rmd_chain [of x] by metis
  moreover have "length (concat (map WriteLE32 ws)) = 4 * length ws" for ws
    by (induction ws) simp_all
  ultimately show ?thesis
    by (simp add: std_ripemd160_def)
qed

lemma rmd160_fresh:
  "CRIPEMD160_Finalize (CRIPEMD160_Write (CRIPEMD160 (replicate 64 0)) b) = std_ripemd160 b"
  using rmd_Finalize_std [OF rmd160.writes_from_fresh [of "replicate 64 0" "[b]"]]
  by (simp add: CRIPEMD160_def)

lemma Hash160_std: "Hash160 b = std_ripemd160 (fips_sha256 b)"
  using sha256_parts_fips [of "[b]"] rmd160_fresh
  by (simp add: Hash160_def CHash160_Finalize_def sha256_parts_def Let_def)

lemma length_Hash160 [simp]: "length (Hash160 b) = 20"
  by (simp add: Hash160_std)

lemma hash256_parts_fips: "hash256_parts ps = fips_sha256 (fips_sha256 (concat ps))"
proof -
  let ?h = "foldl CSHA256_Write (CSHA256 (replicate 64 0)) ps"
  have r: "stream_repr sha256_block sha256_Initialize ?h (concat ps)"
    unfolding CSHA256_def by (rule sha256.writes_from_fresh) simp
  have "stream_repr sha256_block sha256_Initialize (CSHA256_Reset ?h) []"
    using sha256.fresh_repr [of "hbuf ?h"] r
    by (simp add: CSHA256_Reset_def stream_repr_def)
  from sha256.write_repr [OF this] have
    "stream_repr sha256_block sha256_Initialize (CSHA256_Write (CSHA256_Reset ?h) b) b" for b
    by simp
  from Finalize_fips [OF r] Finalize_fips [OF this] show ?thesis
    by (simp add: hash256_parts_def CHash256_Finalize_def Let_def)
qed

end
