(* ===== verification/XC_Vectors.thy ===== *)
theory XC_Vectors
  imports XC_RIPEMD160
begin

text \<open>
  Evaluated digests: the payout ids of the one-byte scripts \<^verbatim>\<open>OP_1\<close> and \<^verbatim>\<open>OP_2\<close>, and of the
  pay-to-pubkey-hash script of one compressed public key. They are test vectors of the hash model
  and the concrete ids of the examples in the other theories.
\<close>

definition id_one :: uint160 where
  "id_one = [218, 23, 69, 233, 181, 73, 189, 11, 250, 26, 86, 153, 113, 199, 126, 186, 48, 205, 90, 75]"

definition id_two :: uint160 where
  "id_two = [105, 215, 239, 143, 66, 162, 94, 135, 145, 187, 55, 213, 251, 72, 69, 111, 16, 42, 60, 185]"

lemma Hash160_one: "Hash160 [0x51] = id_one"
  unfolding id_one_def by code_simp

lemma Hash160_two: "Hash160 [0x52] = id_two"
  unfolding id_two_def by code_simp

lemma ids_differ: "id_one \<noteq> id_two" "id_two < id_one" "\<not> blob_IsNull id_one" "\<not> blob_IsNull id_two"
  by (simp_all add: id_one_def id_two_def blob_IsNull_def)

definition pub_seven :: bytes where
  "pub_seven = 2 # replicate 32 7"

definition key_seven :: uint160 where
  "key_seven = [183, 40, 226, 0, 223, 77, 241, 130, 165, 103, 226, 128, 40, 48, 169, 244, 207, 178, 28, 202]"

definition id_seven :: uint160 where
  "id_seven = [31, 169, 102, 164, 97, 53, 147, 155, 161, 219, 122, 139, 67, 93, 181, 6, 233, 58, 191, 188]"

lemma Hash160_pub_seven: "Hash160 pub_seven = key_seven"
  unfolding key_seven_def by code_simp

lemma Hash160_script_seven: "Hash160 ([0x76, 0xa9, 0x14] @ key_seven @ [0x88, 0xac]) = id_seven"
  unfolding id_seven_def by code_simp

lemma id_seven_facts: "\<not> blob_IsNull id_seven" "length key_seven = 20"
  by (simp_all add: id_seven_def key_seven_def blob_IsNull_def)

text \<open>The hash of the dummy outpoint of the handle \<^verbatim>\<open>alice\<close>.\<close>

definition dummy_alice :: uint256 where
  "dummy_alice = [240, 219, 77, 101, 200, 48, 117, 28, 109, 88, 220, 85, 128, 197, 99, 17, 254, 15, 218, 7, 58, 46, 1, 194, 126, 205, 166, 190, 3, 126, 218, 246]"

lemma hash256_alice: "hash256_parts [bytes_of ''xcoin-xid-vin-v1'', bytes_of ''alice''] = dummy_alice"
proof -
  have b: "bytes_of ''xcoin-xid-vin-v1'' = [120, 99, 111, 105, 110, 45, 120, 105, 100, 45, 118, 105, 110, 45, 118, 49]" "bytes_of ''alice'' = [97, 108, 105, 99, 101]"
    by (simp_all add: bytes_of_def byte_of_char_def)
  show ?thesis unfolding b dummy_alice_def by code_simp
qed

lemma dummy_alice_facts: "\<not> blob_IsNull dummy_alice" "length dummy_alice = 32"
  by (simp_all add: dummy_alice_def blob_IsNull_def)

end
