(* ===== verification/XC_Slot.thy ===== *)
theory XC_Slot
  imports XC_Prelude
begin

text \<open>
  Slots, the block-time lock and the subsidy schedule: \<^verbatim>\<open>src/src/lottery.cpp\<close>,
  \<^verbatim>\<open>GetBlockSubsidy\<close> of \<^verbatim>\<open>src/src/validation.cpp\<close>, \<^verbatim>\<open>src/src/amount.h\<close> and
  \<^verbatim>\<open>CBlockIndex::GetMedianTimePast\<close> of \<^verbatim>\<open>src/src/chain.h\<close>. Times, heights and amounts are
  integers; the divisions of the source have non-negative dividends where they are reached,
  so they are \<open>div\<close>.
\<close>

type_synonym CAmount = int

abbreviation "COIN \<equiv> (100000000 :: CAmount)"
abbreviation "MAX_MONEY \<equiv> 21000000000 * COIN"
abbreviation "SLOT_SECONDS \<equiv> (60 :: int)"
abbreviation "MAX_FUTURE_SLOTS \<equiv> (1 :: int)"
abbreviation "HEARTBEAT_TTL_SECONDS \<equiv> (180 :: int)"
abbreviation "SETTLE_SECONDS \<equiv> (5 :: int)"

definition MoneyRange :: "CAmount \<Rightarrow> bool" where
  "MoneyRange nValue \<longleftrightarrow> 0 \<le> nValue \<and> nValue \<le> MAX_MONEY"

section \<open>Slots\<close>

definition SlotFromTime :: "int \<Rightarrow> int" where
  "SlotFromTime unixTime = (if unixTime < 0 then 0 else unixTime div SLOT_SECONDS)"

definition SlotFromHeight :: "int \<Rightarrow> int \<Rightarrow> int" where
  "SlotFromHeight nHeight genesisTime =
     (if nHeight \<le> 0 then SlotFromTime genesisTime else SlotFromTime genesisTime + nHeight)"

definition SlotStartTime :: "int \<Rightarrow> int \<Rightarrow> int" where
  "SlotStartTime nHeight genesisTime = SlotFromHeight nHeight genesisTime * SLOT_SECONDS"

datatype time_error = bad_lottery_slot_time | time_too_new

definition CheckBlockTime :: "int \<Rightarrow> int \<Rightarrow> int \<Rightarrow> int \<Rightarrow> bool \<Rightarrow> time_error option" where
  "CheckBlockTime nHeight nTime genesisTime nowLocal fMineBlocksOnDemand =
     (if fMineBlocksOnDemand then None
      else if nHeight \<le> 0 then None
      else let slot = SlotFromHeight nHeight genesisTime;
               slotStart = slot * SLOT_SECONDS;
               slotEnd = slotStart + SLOT_SECONDS
           in if nTime < slotStart \<or> slotEnd \<le> nTime then Some bad_lottery_slot_time
              else if SlotFromTime nowLocal + MAX_FUTURE_SLOTS < slot then Some time_too_new
              else None)"

definition ClampTimeToSlot :: "int \<Rightarrow> int \<Rightarrow> int \<Rightarrow> int \<Rightarrow> int" where
  "ClampTimeToSlot nHeight genesisTime now mtp =
     (let slotStart = SlotStartTime nHeight genesisTime;
          slotEnd = slotStart + SLOT_SECONDS;
          t = now;
          t = (if t < slotStart then slotStart else t);
          t = (if slotEnd \<le> t then slotEnd - 1 else t)
      in if t \<le> mtp then mtp + 1 else t)"

definition WinnerCount :: "int \<Rightarrow> int \<Rightarrow> int" where
  "WinnerCount nHeight nSubsidyHalvingInterval =
     (let nHeight = (if nHeight < 0 then 0 else nHeight)
      in if nSubsidyHalvingInterval \<le> 0 then 1
         else let halvings = nHeight div nSubsidyHalvingInterval
              in (if 1023 < halvings then 1023 else halvings) + 1)"

definition GetBlockSubsidy :: "int \<Rightarrow> int \<Rightarrow> CAmount" where
  "GetBlockSubsidy nHeight nSubsidyHalvingInterval =
     (if nHeight < 1 then 0
      else if nSubsidyHalvingInterval \<le> 0 then 0
      else let halvings = nHeight div nSubsidyHalvingInterval
           in if 64 \<le> halvings then 0 else drop_bit (nat halvings) (5000 * COIN))"

section \<open>Median time past\<close>

text \<open>The times of the blocks of a chain, tip first.\<close>

definition GetMedianTimePast :: "int list \<Rightarrow> int" where
  "GetMedianTimePast btimes = (let pm = sort (take 11 btimes) in pm ! (length pm div 2))"

lemma GetMedianTimePast_in: "btimes \<noteq> [] \<Longrightarrow> GetMedianTimePast btimes \<in> set btimes"
proof -
  assume ne: "btimes \<noteq> []"
  let ?pm = "sort (take 11 btimes)"
  have "0 < length ?pm" using ne by simp
  then have "length ?pm div 2 < length ?pm" by linarith
  then have "?pm ! (length ?pm div 2) \<in> set ?pm" by (rule nth_mem)
  then show ?thesis by (auto simp: GetMedianTimePast_def Let_def dest: in_set_takeD)
qed

section \<open>The lock keeps heights and minutes in step\<close>

lemma SlotFromTime_mono: "a \<le> b \<Longrightarrow> SlotFromTime a \<le> SlotFromTime b"
  by (simp add: SlotFromTime_def zdiv_mono1 pos_imp_zdiv_nonneg_iff)

lemma SlotFromTime_start: "0 \<le> s \<Longrightarrow> SlotFromTime (s * SLOT_SECONDS) = s"
  by (simp add: SlotFromTime_def)

lemma SlotStartTime_Suc:
  "0 \<le> h \<Longrightarrow> SlotStartTime (h + 1) g = SlotStartTime h g + SLOT_SECONDS"
  by (cases "h = 0") (simp_all add: SlotStartTime_def SlotFromHeight_def algebra_simps)

lemma CheckBlockTime_None_iff:
  "CheckBlockTime h t g now False = None \<longleftrightarrow>
     h \<le> 0 \<or> (SlotStartTime h g \<le> t \<and> t < SlotStartTime h g + SLOT_SECONDS \<and>
       SlotFromHeight h g \<le> SlotFromTime now + MAX_FUTURE_SLOTS)"
  by (auto simp: CheckBlockTime_def SlotStartTime_def Let_def)

text \<open>
  \<open>locked g btimes\<close>: a chain (tip first, genesis last) whose blocks all sit in the minute of
  their height, as \<^verbatim>\<open>CheckBlockTime\<close> enforces off regtest.
\<close>

fun locked :: "int \<Rightarrow> int list \<Rightarrow> bool" where
  "locked g [] = False"
| "locked g [t] = (t = g)"
| "locked g (t # ts) =
     (SlotStartTime (int (length ts)) g \<le> t \<and> t < SlotStartTime (int (length ts)) g + SLOT_SECONDS
      \<and> locked g ts)"

lemma locked_bound:
  assumes "locked g btimes" "0 \<le> g" "x \<in> set btimes"
  shows "x < SlotStartTime (int (length btimes)) g"
  using assms
proof (induction g btimes arbitrary: x rule: locked.induct)
  case (2 g t)
  then show ?case
    by (simp add: SlotStartTime_def SlotFromHeight_def SlotFromTime_def)
next
  case (3 g t u ts)
  have next_start: "SlotStartTime (int (length (t # u # ts))) g =
      SlotStartTime (int (length (u # ts))) g + SLOT_SECONDS"
    using SlotStartTime_Suc [of "int (length (u # ts))" g] by (simp add: add.commute)
  show ?case
  proof (cases "x = t")
    case True
    with 3(2) next_start show ?thesis by simp
  next
    case False
    with 3 next_start show ?thesis by fastforce
  qed
qed simp

lemma locked_mtp:
  assumes "locked g btimes" "0 \<le> g"
  shows "GetMedianTimePast btimes < SlotStartTime (int (length btimes)) g"
proof -
  have "btimes \<noteq> []" using assms(1) by auto
  then show ?thesis using locked_bound [OF assms] GetMedianTimePast_in by blast
qed

lemma ClampTimeToSlot_in_slot:
  assumes "mtp < SlotStartTime h g"
  shows "SlotStartTime h g \<le> ClampTimeToSlot h g now mtp \<and>
         ClampTimeToSlot h g now mtp < SlotStartTime h g + SLOT_SECONDS \<and>
         mtp < ClampTimeToSlot h g now mtp"
  using assms by (simp add: ClampTimeToSlot_def Let_def)

section \<open>The money supply\<close>

lemma GetBlockSubsidy_nonneg: "0 \<le> GetBlockSubsidy h i"
  by (simp add: GetBlockSubsidy_def Let_def drop_bit_int_def pos_imp_zdiv_nonneg_iff)

lemma GetBlockSubsidy_le: "GetBlockSubsidy h i \<le> 5000 * COIN"
  using zdiv_mono2 [of "5000 * COIN" 1 "2 ^ nat (h div i)"]
  by (simp add: GetBlockSubsidy_def Let_def drop_bit_int_def)

lemma sum_by_interval:
  fixes f :: "nat \<Rightarrow> int"
  assumes "0 < i"
  shows "(\<Sum>h < n * i. f (h div i)) = int i * (\<Sum>k < n. f k)"
proof -
  have "(\<Sum>h = m * i..<m * i + i. f (h div i)) = int i * f m" for m
  proof -
    have "h div i = m" if "h \<in> {m * i..<m * i + i}" for h
      using that assms by (auto intro!: div_nat_eqI simp: algebra_simps)
    then have "(\<Sum>h = m * i..<m * i + i. f (h div i)) = (\<Sum>h = m * i..<m * i + i. f m)"
      by (intro sum.cong) auto
    then show ?thesis by simp
  qed
  then show ?thesis
    by (simp add: sum.nat_group [symmetric] sum_distrib_left)
qed

definition era_subsidy :: "nat \<Rightarrow> int" where
  "era_subsidy k = (if 64 \<le> k then 0 else drop_bit k (5000 * COIN))"

lemma GetBlockSubsidy_era:
  "0 < h \<Longrightarrow> 0 < i \<Longrightarrow> GetBlockSubsidy (int h) (int i) = era_subsidy (h div i)"
  by (simp add: GetBlockSubsidy_def era_subsidy_def Let_def zdiv_int [symmetric] del: of_nat_div)

lemma era_subsidy_39: "39 \<le> k \<Longrightarrow> era_subsidy k = 0"
proof -
  assume "39 \<le> k"
  then have "(2::int) ^ 39 \<le> 2 ^ k" by (intro power_increasing) simp_all
  then have "5000 * COIN < 2 ^ k" by simp
  then show ?thesis by (simp add: era_subsidy_def drop_bit_int_def)
qed

lemma era_subsidy_sum: "(\<Sum>k < 39. era_subsidy k) = 999999999987"
  by (simp add: era_subsidy_def drop_bit_int_def eval_nat_numeral lessThan_Suc)

lemma subsidy_total_at_end:
  assumes "39 * 2100000 \<le> N"
  shows "(\<Sum>h = 1..<N. GetBlockSubsidy (int h) 2100000) = 2099999499972700000"
proof -
  let ?f = "\<lambda>h. era_subsidy (h div 2100000)"
  have era: "GetBlockSubsidy (int h) 2100000 = ?f h" if "h \<in> {1..<N}" for h
    using GetBlockSubsidy_era [of h 2100000] that by simp
  have "(\<Sum>h = 1..<N. GetBlockSubsidy (int h) 2100000) = (\<Sum>h = 1..<N. ?f h)"
    using era by (rule sum.cong [OF refl])
  also have "\<dots> = (\<Sum>h = 1..<39 * 2100000. ?f h) + (\<Sum>h = 39 * 2100000..<N. ?f h)"
    using assms by (intro sum.atLeastLessThan_concat [symmetric]) simp_all
  also have "(\<Sum>h = 39 * 2100000..<N. ?f h) = 0"
  proof (rule sum.neutral, rule ballI)
    fix h assume "h \<in> {39 * 2100000..<N}"
    then have "39 * 2100000 \<le> h" by simp
    then have "39 \<le> h div 2100000" by linarith
    then show "?f h = 0" by (rule era_subsidy_39)
  qed
  also have "(\<Sum>h = 1..<39 * 2100000. ?f h) = (\<Sum>h < 39 * 2100000. ?f h) - ?f 0"
    by (simp only: lessThan_atLeast0 sum.atLeast_Suc_lessThan [of 0 "39 * 2100000" ?f] One_nat_def)
  also have "(\<Sum>h < 39 * 2100000. ?f h) = 2100000 * 999999999987"
    using sum_by_interval [of 2100000 era_subsidy 39] by (simp only: era_subsidy_sum)
  also have "?f 0 = 500000000000" by (simp add: era_subsidy_def)
  finally show ?thesis by simp
qed

section \<open>Properties\<close>

text \<open>
  C30. The supply: on the main network's schedule the subsidies of any number of blocks sum to at
  most 20,999,994,999.727 coins, the figure \<^verbatim>\<open>amount.h\<close> documents and below \<^verbatim>\<open>MAX_MONEY\<close>,
  and the sum over the first 39 eras reaches it exactly.
\<close>

theorem money_supply:
  "(\<Sum>h = 1..<N. GetBlockSubsidy (int h) 2100000) \<le> 2099999499972700000 \<and>
   (\<Sum>h = 1..<39 * 2100000. GetBlockSubsidy (int h) 2100000) = 2099999499972700000 \<and>
   MoneyRange 2099999499972700000"
proof -
  let ?M = "max N (39 * 2100000)"
  have "(\<Sum>h = 1..<N. GetBlockSubsidy (int h) 2100000) \<le> (\<Sum>h = 1..<?M. GetBlockSubsidy (int h) 2100000)"
    by (intro sum_mono2) (auto simp: GetBlockSubsidy_nonneg)
  moreover have "(\<Sum>h = 1..<?M. GetBlockSubsidy (int h) 2100000) = 2099999499972700000"
    by (rule subsidy_total_at_end) simp
  ultimately show ?thesis
    using subsidy_total_at_end [of "39 * 2100000"] by (simp add: MoneyRange_def)
qed

text \<open>
  The producer's clock: on a chain whose blocks all respect the minute lock, the clamped
  timestamp passes \<^verbatim>\<open>CheckBlockTime\<close> whenever the slot is not too far in the future, lies
  above the median time past, and extends the locked chain. The last line of
  \<^verbatim>\<open>ClampTimeToSlot\<close>, which could leave the slot, never fires there.
\<close>

theorem clamped_time_accepted:
  assumes "locked g ts" "0 \<le> g"
    and "SlotFromHeight (int (length ts)) g \<le> SlotFromTime now + MAX_FUTURE_SLOTS"
  shows "let t = ClampTimeToSlot (int (length ts)) g now (GetMedianTimePast ts)
    in CheckBlockTime (int (length ts)) t g now False = None \<and> GetMedianTimePast ts < t \<and> locked g (t # ts)"
proof -
  note clamp = ClampTimeToSlot_in_slot [OF locked_mtp [OF assms(1,2)], of now]
  moreover have "locked g (t # ts)"
    if "SlotStartTime (int (length ts)) g \<le> t" "t < SlotStartTime (int (length ts)) g + SLOT_SECONDS" for t
    using assms(1) that by (cases ts) auto
  ultimately show ?thesis
    using assms(3) by (simp add: Let_def CheckBlockTime_None_iff)
qed

theorem clamped_time_accepted_witness:
  "CheckBlockTime 2 (ClampTimeToSlot 2 1000 1300 (GetMedianTimePast [1079, 1000])) 1000 1300 False = None"
proof -
  have "locked 1000 [1079, 1000]"
    by (simp add: SlotStartTime_def SlotFromHeight_def SlotFromTime_def)
  from clamped_time_accepted [OF this, of 1300] show ?thesis
    by (simp add: SlotFromHeight_def SlotFromTime_def Let_def)
qed

text \<open>
  C29. No minting by advancing heights: a block accepted off regtest at height \<open>h > 0\<close> has its
  minute determined by its height, two accepted blocks of different heights never share a
  minute, and \<open>h\<close> exceeds the minutes elapsed since genesis on the local clock by at most one.
\<close>

theorem one_height_per_minute:
  assumes "CheckBlockTime h t g now False = None" "0 < h" "0 \<le> g"
  shows "SlotFromTime t = SlotFromTime g + h \<and> h \<le> SlotFromTime now - SlotFromTime g + MAX_FUTURE_SLOTS"
proof -
  let ?s = "SlotFromTime g + h"
  have s: "SlotFromHeight h g = ?s" "0 \<le> ?s"
    using assms(2,3) by (simp_all add: SlotFromHeight_def SlotFromTime_def pos_imp_zdiv_nonneg_iff)
  have "?s * 60 \<le> t" "t < ?s * 60 + 60" "?s \<le> SlotFromTime now + 1"
    using assms(1,2) s(1) by (auto simp: CheckBlockTime_None_iff SlotStartTime_def)
  moreover from this have "t div 60 = ?s"
    by (intro int_div_pos_eq [of _ _ _ "t - ?s * 60"]) simp_all
  moreover from calculation have "0 \<le> t" using s(2) by linarith
  ultimately show ?thesis by (simp add: SlotFromTime_def)
qed

theorem one_height_per_minute_witness:
  "SlotFromTime 1085 = SlotFromTime 1000 + 2 \<and> 2 \<le> SlotFromTime 1090 - SlotFromTime 1000 + MAX_FUTURE_SLOTS"
  by (rule one_height_per_minute)
    (simp_all add: CheckBlockTime_def SlotFromHeight_def SlotFromTime_def Let_def)

end
