(* ===== verification/XC_Registry.thy ===== *)
theory XC_Registry
  imports XC_Allowlist XC_Vectors XC_Slot
begin

text \<open>
  The active-node registry of \<^verbatim>\<open>src/src/lottery.cpp\<close> (class \<^verbatim>\<open>Registry\<close>): the nodes by payout id,
  the index by X handle and the local identity. Every public method is one critical section
  of the class lock, so an operation is one state transformer and a run of the program is a
  sequence of them (\<open>reg_step\<close>, \<open>reg_reach\<close>).
\<close>

abbreviation "MAX_ACTIVE_NODES \<equiv> (4096 :: nat)"
abbreviation "MAX_HEARTBEAT_SCRIPT \<equiv> (520 :: nat)"

record ActiveNode =
  n_id :: uint160
  script :: CScript
  lastSeen :: int
  joined :: int
  x_account :: XAccount

record Registry =
  nodes :: "(uint160, ActiveNode) omap"
  byHandle :: "(string, uint160) omap"
  localScript :: CScript
  localId :: uint160
  localX :: XAccount

definition Registry_init :: Registry where
  "Registry_init = \<lparr>nodes = [], byHandle = [], localScript = [], localId = uint160_null,
     localX = XAccount_init\<rparr>"

definition IdFromScript :: "CScript \<Rightarrow> uint160" where
  "IdFromScript s = Hash160 s"

definition SetLocalScript :: "CScript \<Rightarrow> Registry \<Rightarrow> Registry" where
  "SetLocalScript s rg =
     (if s = [] then rg
      else let i = IdFromScript s;
               rg = (if localId rg \<noteq> i \<and> \<not> blob_IsNull (localId rg)
                     then rg\<lparr>nodes := map_del (localId rg) (nodes rg)\<rparr> else rg)
           in rg\<lparr>localScript := s, localId := i\<rparr>)"

definition SetLocalXAccount :: "XAccount \<Rightarrow> Registry \<Rightarrow> Registry" where
  "SetLocalXAccount account rg = rg\<lparr>localX := account\<rparr>"

definition live :: "int \<Rightarrow> ActiveNode \<Rightarrow> bool" where
  "live now n \<longleftrightarrow> now - lastSeen n \<le> HEARTBEAT_TTL_SECONDS"

definition oldest_node :: "(uint160, ActiveNode) omap \<Rightarrow> uint160 \<times> ActiveNode" where
  "oldest_node m =
     foldl (\<lambda>oldest it. if lastSeen (snd it) < lastSeen (snd oldest) then it else oldest) (hd m) m"

text \<open>The eviction at the end of \<^verbatim>\<open>Heartbeat\<close>.\<close>

definition evict :: "Registry \<Rightarrow> Registry" where
  "evict rg =
     (if MAX_ACTIVE_NODES < length (nodes rg) then
        let (oid, old) = oldest_node (nodes rg)
        in if oid \<noteq> localId rg
           then rg\<lparr>byHandle := map_del (handle (x_account old)) (byHandle rg), nodes := map_del oid (nodes rg)\<rparr>
           else rg
      else rg)"

text \<open>The locked part of \<^verbatim>\<open>Heartbeat\<close>; \<open>i\<close> is the id and \<open>norm\<close> the normalised handle.\<close>

definition release_handle :: "uint160 \<Rightarrow> int \<Rightarrow> string \<Rightarrow> Registry \<Rightarrow> Registry option" where
  "release_handle i now norm rg =
     (case map_of (byHandle rg) norm of
        None \<Rightarrow> Some rg
      | Some other \<Rightarrow>
          if other = i then Some rg
          else (case map_of (nodes rg) other of
                  None \<Rightarrow> Some (rg\<lparr>byHandle := map_del norm (byHandle rg)\<rparr>)
                | Some existing \<Rightarrow>
                    if live now existing then None
                    else Some (rg\<lparr>nodes := map_del other (nodes rg), byHandle := map_del norm (byHandle rg)\<rparr>)))"

definition insert_node :: "CScript \<Rightarrow> uint160 \<Rightarrow> int \<Rightarrow> int \<Rightarrow> string \<Rightarrow> u64 \<Rightarrow> Registry \<Rightarrow> Registry" where
  "insert_node s i now join norm xUserId rg =
     evict (rg\<lparr>nodes := map_put i \<lparr>n_id = i, script = s, lastSeen = now, joined = join,
                   x_account = \<lparr>handle = norm, userId = xUserId\<rparr>\<rparr> (nodes rg),
               byHandle := map_put norm i (byHandle rg)\<rparr>)"

definition bind_node ::
  "CScript \<Rightarrow> uint160 \<Rightarrow> int \<Rightarrow> string \<Rightarrow> u64 \<Rightarrow> Registry \<Rightarrow> bool \<times> Registry" where
  "bind_node s i now norm xUserId rg =
     (case map_of (nodes rg) i of
        None \<Rightarrow> (True, insert_node s i now now norm xUserId rg)
      | Some n \<Rightarrow>
          if handle (x_account n) \<noteq> norm then
            if live now n then (False, rg)
            else (True, insert_node s i now now norm xUserId
                    (rg\<lparr>byHandle := map_del (handle (x_account n)) (byHandle rg)\<rparr>))
          else (True, insert_node s i now (joined n) norm xUserId rg))"

definition Heartbeat ::
  "bool \<Rightarrow> Allowlist \<Rightarrow> CScript \<Rightarrow> int \<Rightarrow> string \<Rightarrow> u64 \<Rightarrow> bool \<Rightarrow> Registry \<Rightarrow> bool \<times> Registry" where
  "Heartbeat bakedSeed al s now xHandle xUserId xVerified rg =
     (if bakedSeed \<and> IdFromScript s = localId rg \<and> \<not> blob_IsNull (localId rg) then (False, rg)
      else if \<not> xVerified then (False, rg)
      else if s = [] \<or> MAX_HEARTBEAT_SCRIPT < length s then (False, rg)
      else let i = IdFromScript s
           in if blob_IsNull i then (False, rg)
              else case NormalizeXHandle xHandle of Inl e \<Rightarrow> (False, rg)
                   | Inr norm \<Rightarrow>
                       let pin = PinnedScript norm al
                       in if pin \<noteq> [] \<and> pin \<noteq> s then (False, rg)
                          else (case release_handle i now norm rg of None \<Rightarrow> (False, rg)
                                | Some rg \<Rightarrow> bind_node s i now norm xUserId rg))"

definition Registry_Reset :: "Registry \<Rightarrow> Registry" where
  "Registry_Reset rg = rg\<lparr>nodes := [], byHandle := []\<rparr>"

definition ActiveIds :: "int \<Rightarrow> Registry \<Rightarrow> uint160 list" where
  "ActiveIds now rg = map fst (filter (\<lambda>kv. live now (snd kv)) (nodes rg))"

definition frozen :: "int \<Rightarrow> ActiveNode \<Rightarrow> bool" where
  "frozen slotStart n \<longleftrightarrow>
     \<not> slotStart \<le> joined n \<and>
     \<not> (lastSeen n < slotStart \<and> HEARTBEAT_TTL_SECONDS < slotStart - lastSeen n)"

definition ActiveIdsForSlot :: "int \<Rightarrow> int \<Rightarrow> Registry \<Rightarrow> uint160 list" where
  "ActiveIdsForSlot now slot rg =
     (let slotStart = slot * SLOT_SECONDS;
          ids = map fst (filter (\<lambda>kv. frozen slotStart (snd kv)) (nodes rg))
      in if ids = [] then ActiveIds now rg else ids)"

definition ActiveNodes :: "int \<Rightarrow> Registry \<Rightarrow> ActiveNode list" where
  "ActiveNodes now rg = map snd (filter (\<lambda>kv. live now (snd kv)) (nodes rg))"

definition ScriptFor :: "uint160 \<Rightarrow> Registry \<Rightarrow> CScript" where
  "ScriptFor i rg = (case map_of (nodes rg) i of None \<Rightarrow> [] | Some n \<Rightarrow> script n)"

definition Registry_Count :: "int \<Rightarrow> Registry \<Rightarrow> nat" where
  "Registry_Count now rg = length (ActiveIds now rg)"

section \<open>Invariant\<close>

text \<open>
  Every node is filed under the hash of its own payable script, and the handle index leads back
  to it. So a handle names at most one node. An index entry may dangle after
  \<^verbatim>\<open>SetLocalScript\<close>, which erases a node but not its handle.
\<close>

definition node_ok :: "uint160 \<Rightarrow> ActiveNode \<Rightarrow> bool" where
  "node_ok i n \<longleftrightarrow>
     n_id n = i \<and> IdFromScript (script n) = i \<and> script n \<noteq> [] \<and>
     length (script n) \<le> MAX_HEARTBEAT_SCRIPT \<and> valid_handle (handle (x_account n))"

definition reg_ok :: "Registry \<Rightarrow> bool" where
  "reg_ok rg \<longleftrightarrow>
     map_ok (nodes rg) \<and> map_ok (byHandle rg) \<and>
     (\<forall>i n. map_of (nodes rg) i = Some n \<longrightarrow>
        node_ok i n \<and> map_of (byHandle rg) (handle (x_account n)) = Some i)"

lemma reg_okI:
  assumes "map_ok (nodes rg)" "map_ok (byHandle rg)"
    and "\<And>i n. map_of (nodes rg) i = Some n \<Longrightarrow> node_ok i n"
    and "\<And>i n. map_of (nodes rg) i = Some n \<Longrightarrow> map_of (byHandle rg) (handle (x_account n)) = Some i"
  shows "reg_ok rg"
  using assms by (simp add: reg_ok_def)

lemma reg_okD:
  assumes "reg_ok rg"
  shows "map_ok (nodes rg)" "map_ok (byHandle rg)"
    "map_of (nodes rg) i = Some n \<Longrightarrow> node_ok i n"
    "map_of (nodes rg) i = Some n \<Longrightarrow> map_of (byHandle rg) (handle (x_account n)) = Some i"
  using assms by (simp_all add: reg_ok_def)

lemma reg_ok_init: "reg_ok Registry_init"
  by (simp add: reg_ok_def Registry_init_def)

lemma reg_ok_SetLocalScript: "reg_ok rg \<Longrightarrow> reg_ok (SetLocalScript s rg)"
  by (auto simp: SetLocalScript_def Let_def reg_ok_def map_laws map_of_del split: if_splits)

lemma reg_ok_SetLocalXAccount: "reg_ok rg \<Longrightarrow> reg_ok (SetLocalXAccount a rg)"
  by (simp add: SetLocalXAccount_def reg_ok_def)

lemma reg_ok_Reset: "reg_ok (Registry_Reset rg)"
  by (simp add: Registry_Reset_def reg_ok_def)

lemma foldl_pick: "foldl (\<lambda>a b. if P a b then b else a) a xs \<in> insert a (set xs)"
  by (induction xs arbitrary: a) auto

lemma oldest_node_in: "m \<noteq> [] \<Longrightarrow> oldest_node m \<in> set m"
  using foldl_pick [of "\<lambda>a b. lastSeen (snd b) < lastSeen (snd a)" "hd m" m]
  by (auto simp: oldest_node_def)

text \<open>Erasing a node together with the index entry of its own handle.\<close>

lemma reg_ok_drop_node:
  assumes "reg_ok rg" "map_of (nodes rg) i = Some n"
  shows "reg_ok (rg\<lparr>byHandle := map_del (handle (x_account n)) (byHandle rg), nodes := map_del i (nodes rg)\<rparr>)"
proof (rule reg_okI)
  fix j m
  assume "map_of (nodes (rg\<lparr>byHandle := map_del (handle (x_account n)) (byHandle rg),
      nodes := map_del i (nodes rg)\<rparr>)) j = Some m"
  then have j: "j \<noteq> i" "map_of (nodes rg) j = Some m"
    by (auto simp: map_of_del split: if_splits)
  from reg_okD(3) [OF assms(1) j(2)] show "node_ok j m" .
  have "handle (x_account m) \<noteq> handle (x_account n)"
    using j reg_okD(4) [OF assms(1) j(2)] reg_okD(4) [OF assms] by auto
  with reg_okD(4) [OF assms(1) j(2)]
  show "map_of (byHandle (rg\<lparr>byHandle := map_del (handle (x_account n)) (byHandle rg),
      nodes := map_del i (nodes rg)\<rparr>)) (handle (x_account m)) = Some j"
    by (simp add: map_of_del)
qed (simp_all add: map_laws reg_okD [OF assms(1)])

lemma reg_ok_evict: "reg_ok rg \<Longrightarrow> reg_ok (evict rg)"
proof -
  assume rg: "reg_ok rg"
  obtain oid old where o: "oldest_node (nodes rg) = (oid, old)" by fastforce
  show ?thesis
  proof (cases "MAX_ACTIVE_NODES < length (nodes rg) \<and> oid \<noteq> localId rg")
    case True
    then have "nodes rg \<noteq> []" by (cases "nodes rg") simp_all
    from oldest_node_in [OF this] have "(oid, old) \<in> set (nodes rg)" unfolding o .
    then have "map_of (nodes rg) oid = Some old" by (simp only: map_of_in_set [OF reg_okD(1) [OF rg]])
    from reg_ok_drop_node [OF rg this] True o show ?thesis by (simp add: evict_def)
  next
    case False
    then show ?thesis using rg o by (auto simp: evict_def)
  qed
qed

text \<open>Filing a node under an id and a handle that no other node uses.\<close>

lemma reg_ok_insert_node:
  assumes maps: "map_ok (nodes rg)" "map_ok (byHandle rg)"
    and others: "\<And>j m. j \<noteq> i \<Longrightarrow> map_of (nodes rg) j = Some m \<Longrightarrow>
      node_ok j m \<and> handle (x_account m) \<noteq> norm \<and> map_of (byHandle rg) (handle (x_account m)) = Some j"
    and new: "IdFromScript s = i" "s \<noteq> []" "length s \<le> MAX_HEARTBEAT_SCRIPT" "valid_handle norm"
  shows "reg_ok (insert_node s i now join norm uid rg)"
  unfolding insert_node_def
proof (rule reg_ok_evict, rule reg_okI)
  let ?n = "\<lparr>n_id = i, script = s, lastSeen = now, joined = join, x_account = \<lparr>handle = norm, userId = uid\<rparr>\<rparr>"
  let ?rg = "rg\<lparr>nodes := map_put i ?n (nodes rg), byHandle := map_put norm i (byHandle rg)\<rparr>"
  show "map_ok (nodes ?rg)" "map_ok (byHandle ?rg)" using maps by (simp_all add: map_laws)
  fix j m assume m: "map_of (nodes ?rg) j = Some m"
  show "node_ok j m"
    using m others [of j m] new by (cases "j = i") (auto simp: map_of_put node_ok_def)
  show "map_of (byHandle ?rg) (handle (x_account m)) = Some j"
    using m others [of j m] by (cases "j = i") (auto simp: map_of_put)
qed

lemma release_handle_ok:
  assumes rg: "reg_ok rg" and r: "release_handle i now norm rg = Some rg'"
  shows "reg_ok rg'"
    and "map_of (nodes rg') j = Some m \<Longrightarrow> handle (x_account m) = norm \<Longrightarrow> j = i"
    and "map_of (nodes rg') i = map_of (nodes rg) i"
proof -
  note ok = reg_okD [OF rg]
  consider "rg' = rg" "map_of (byHandle rg) norm = None \<or> map_of (byHandle rg) norm = Some i"
    | other where "map_of (byHandle rg) norm = Some other" "other \<noteq> i" "map_of (nodes rg) other = None"
      "rg' = rg\<lparr>byHandle := map_del norm (byHandle rg)\<rparr>"
    | other where "map_of (byHandle rg) norm = Some other" "other \<noteq> i"
      "rg' = rg\<lparr>nodes := map_del other (nodes rg), byHandle := map_del norm (byHandle rg)\<rparr>"
    using r by (auto simp: release_handle_def split: option.splits if_splits)
  then have "reg_ok rg' \<and> (map_of (nodes rg') j = Some m \<longrightarrow> handle (x_account m) = norm \<longrightarrow> j = i) \<and>
    map_of (nodes rg') i = map_of (nodes rg) i"
  proof cases
    case 1
    then show ?thesis using rg ok(4) by fastforce
  next
    case 2
    then show ?thesis using ok by (auto simp: reg_ok_def map_laws map_of_del)
  next
    case 3
    then show ?thesis using ok by (auto simp: reg_ok_def map_laws map_of_del)
  qed
  then show "reg_ok rg'" "map_of (nodes rg') j = Some m \<Longrightarrow> handle (x_account m) = norm \<Longrightarrow> j = i"
    "map_of (nodes rg') i = map_of (nodes rg) i"
    by blast+
qed

lemma reg_ok_bind_node:
  assumes rg: "reg_ok rg"
    and uniq: "\<And>j m. map_of (nodes rg) j = Some m \<Longrightarrow> handle (x_account m) = norm \<Longrightarrow> j = i"
    and new: "IdFromScript s = i" "s \<noteq> []" "length s \<le> MAX_HEARTBEAT_SCRIPT" "valid_handle norm"
  shows "reg_ok (snd (bind_node s i now norm uid rg))"
proof -
  note ok = reg_okD [OF rg]
  have plain: "reg_ok (insert_node s i now join norm uid rg)" for join
    using ok uniq by (intro reg_ok_insert_node [OF _ _ _ new]) auto
  have "reg_ok (insert_node s i now join norm uid
      (rg\<lparr>byHandle := map_del (handle (x_account n)) (byHandle rg)\<rparr>))"
    if n: "map_of (nodes rg) i = Some n" for join n
  proof (rule reg_ok_insert_node [OF _ _ _ new])
    fix j m assume j: "j \<noteq> i" "map_of (nodes (rg\<lparr>byHandle := map_del (handle (x_account n)) (byHandle rg)\<rparr>)) j = Some m"
    then have m: "map_of (nodes rg) j = Some m" by simp
    have "handle (x_account m) \<noteq> handle (x_account n)"
      using ok(4) [OF m] ok(4) [OF n] j(1) by auto
    then show "node_ok j m \<and> handle (x_account m) \<noteq> norm \<and>
        map_of (byHandle (rg\<lparr>byHandle := map_del (handle (x_account n)) (byHandle rg)\<rparr>)) (handle (x_account m)) = Some j"
      using ok(3,4) [OF m] uniq [OF m] j(1) by (auto simp: map_of_del)
  qed (use ok in \<open>simp_all add: map_laws\<close>)
  with plain rg show ?thesis
    by (simp add: bind_node_def split: option.splits)
qed

lemma reg_ok_Heartbeat:
  assumes "reg_ok rg"
  shows "reg_ok (snd (Heartbeat baked al s now xh uid ver rg))"
proof (cases "NormalizeXHandle xh")
  case (Inl e)
  with assms show ?thesis by (simp add: Heartbeat_def Let_def)
next
  case (Inr norm)
  show ?thesis
  proof (cases "release_handle (IdFromScript s) now norm rg")
    case None
    with assms Inr show ?thesis by (simp add: Heartbeat_def Let_def)
  next
    case (Some rg')
    have "s \<noteq> [] \<Longrightarrow> length s \<le> MAX_HEARTBEAT_SCRIPT \<Longrightarrow>
        reg_ok (snd (bind_node s (IdFromScript s) now norm uid rg'))"
      by (rule reg_ok_bind_node [OF release_handle_ok(1,2) [OF assms Some]])
        (simp_all add: NormalizeXHandle_valid [OF Inr])
    with assms Inr Some show ?thesis by (simp add: Heartbeat_def Let_def)
  qed
qed

section \<open>Runs\<close>

inductive reg_step :: "Registry \<Rightarrow> Registry \<Rightarrow> bool" where
  set_script: "reg_step rg (SetLocalScript s rg)"
| set_account: "reg_step rg (SetLocalXAccount a rg)"
| heartbeat: "reg_step rg (snd (Heartbeat baked al s now xh uid ver rg))"
| reset: "reg_step rg (Registry_Reset rg)"

inductive reg_reach :: "Registry \<Rightarrow> bool" where
  start: "reg_reach Registry_init"
| step: "reg_reach rg \<Longrightarrow> reg_step rg rg' \<Longrightarrow> reg_reach rg'"

inductive_cases reg_stepE: "reg_step rg rg'"

lemma reg_ok_step: "reg_step rg rg' \<Longrightarrow> reg_ok rg \<Longrightarrow> reg_ok rg'"
  by (elim reg_stepE)
    (simp_all add: reg_ok_SetLocalScript reg_ok_SetLocalXAccount reg_ok_Heartbeat reg_ok_Reset)

lemma reg_reach_ok: "reg_reach rg \<Longrightarrow> reg_ok rg"
  by (induction rule: reg_reach.induct) (auto intro: reg_ok_init reg_ok_step)

section \<open>Queries\<close>

lemma ActiveIds_sorted: "reg_ok rg \<Longrightarrow> sorted_wrt (<) (ActiveIds now rg)"
  unfolding ActiveIds_def by (intro sorted_filter_keys reg_okD(1))

lemma ActiveIdsForSlot_sorted: "reg_ok rg \<Longrightarrow> sorted_wrt (<) (ActiveIdsForSlot now slot rg)"
  unfolding ActiveIdsForSlot_def Let_def
  by (simp add: ActiveIds_sorted sorted_filter_keys reg_okD(1))

lemma ActiveIdsForSlot_known:
  assumes "reg_ok rg" "i \<in> set (ActiveIdsForSlot now slot rg)"
  shows "\<exists>n. map_of (nodes rg) i = Some n \<and> node_ok i n"
proof -
  have "i \<in> fst ` set (nodes rg)"
    using assms(2) by (auto simp: ActiveIdsForSlot_def ActiveIds_def Let_def split: if_splits)
  then obtain n where "map_of (nodes rg) i = Some n"
    by (metis dom_map_of_conv_image_fst domD)
  then show ?thesis using reg_okD(3) [OF assms(1)] by blast
qed

lemma ScriptFor_known:
  assumes "reg_ok rg" "map_of (nodes rg) i = Some n"
  shows "IdFromScript (ScriptFor i rg) = i" "ScriptFor i rg \<noteq> []"
    "length (ScriptFor i rg) \<le> MAX_HEARTBEAT_SCRIPT"
  using reg_okD(3) [OF assms] assms(2) by (simp_all add: ScriptFor_def node_ok_def)

section \<open>What a heartbeat does to a node\<close>

lemma evict_node:
  assumes "map_of (nodes rg) i = Some n"
  shows "map_of (nodes (evict rg)) i = Some n \<or>
    map_of (nodes (evict rg)) i = None \<and> MAX_ACTIVE_NODES < length (nodes rg)"
  using assms by (auto simp: evict_def map_of_del split: prod.splits)

lemma evict_le: "map_of (nodes (evict rg)) i = Some n \<Longrightarrow> map_of (nodes rg) i = Some n"
  by (auto simp: evict_def map_of_del split: prod.splits if_splits)

lemma release_handle_length: "release_handle i now norm rg = Some rg' \<Longrightarrow> length (nodes rg') \<le> length (nodes rg)"
  by (auto simp: release_handle_def map_del_def split: option.splits if_splits)

lemma release_handle_node:
  assumes "release_handle i now norm rg = Some rg'" "map_of (nodes rg) j = Some n" "live now n"
  shows "map_of (nodes rg') j = Some n"
  using assms by (auto simp: release_handle_def map_of_del split: option.splits if_splits)

lemma release_handle_le:
  "release_handle i now norm rg = Some rg' \<Longrightarrow> map_of (nodes rg') j = Some n \<Longrightarrow> map_of (nodes rg) j = Some n"
  by (auto simp: release_handle_def map_of_del split: option.splits if_splits)

text \<open>A successful insertion at \<open>i\<close> changes no other node, short of an eviction.\<close>

lemma insert_node_at:
  assumes "map_ok (nodes rg)" "map_of (nodes rg) j = Some n" "j \<noteq> i"
  shows "map_of (nodes (insert_node s i now join norm uid rg)) j = Some n \<or>
    map_of (nodes (insert_node s i now join norm uid rg)) j = None \<and> MAX_ACTIVE_NODES \<le> length (nodes rg)"
proof -
  define r where "r = rg\<lparr>nodes := map_put i \<lparr>n_id = i, script = s, lastSeen = now, joined = join,
      x_account = \<lparr>handle = norm, userId = uid\<rparr>\<rparr> (nodes rg), byHandle := map_put norm i (byHandle rg)\<rparr>"
  have "map_of (nodes r) j = Some n" using assms by (simp add: r_def map_of_put)
  from evict_node [OF this] have "map_of (nodes (evict r)) j = Some n \<or>
    map_of (nodes (evict r)) j = None \<and> MAX_ACTIVE_NODES < length (nodes r)" .
  moreover have "length (nodes r) \<le> Suc (length (nodes rg))"
    using assms(1) by (simp add: r_def om.size_put_le)
  moreover have "insert_node s i now join norm uid rg = evict r"
    by (simp add: insert_node_def r_def)
  ultimately show ?thesis by fastforce
qed

lemma insert_node_self:
  "map_of (nodes (insert_node s i now join norm uid rg)) i = Some m \<Longrightarrow>
   m = \<lparr>n_id = i, script = s, lastSeen = now, joined = join, x_account = \<lparr>handle = norm, userId = uid\<rparr>\<rparr>"
  unfolding insert_node_def by (drule evict_le) (simp add: map_of_put)

lemma insert_node_self_None:
  assumes "map_ok (nodes rg)" "map_of (nodes (insert_node s i now join norm uid rg)) i = None"
  shows "MAX_ACTIVE_NODES \<le> length (nodes rg)"
proof -
  define n where "n = \<lparr>n_id = i, script = s, lastSeen = now, joined = join,
      x_account = \<lparr>handle = norm, userId = uid\<rparr>\<rparr>"
  define r where "r = rg\<lparr>nodes := map_put i n (nodes rg), byHandle := map_put norm i (byHandle rg)\<rparr>"
  have "map_of (nodes r) i = Some n" by (simp add: r_def map_of_put)
  from evict_node [OF this] have "map_of (nodes (evict r)) i = Some n \<or>
    map_of (nodes (evict r)) i = None \<and> MAX_ACTIVE_NODES < length (nodes r)" .
  moreover have "length (nodes r) \<le> Suc (length (nodes rg))"
    using assms(1) by (simp add: r_def om.size_put_le)
  moreover have "insert_node s i now join norm uid rg = evict r"
    by (simp add: insert_node_def r_def n_def)
  ultimately show ?thesis using assms(2) by fastforce
qed

text \<open>What may become of a live node \<open>n\<close>: kept with its identity, or evicted from a full registry.\<close>

definition kept :: "ActiveNode \<Rightarrow> nat \<Rightarrow> ActiveNode option \<Rightarrow> bool" where
  "kept n held found =
     (case found of None \<Rightarrow> MAX_ACTIVE_NODES \<le> held
      | Some n' \<Rightarrow> handle (x_account n') = handle (x_account n) \<and> joined n' = joined n)"

lemma kept_mono: "kept n a f \<Longrightarrow> a \<le> b \<Longrightarrow> kept n b f"
  by (auto simp: kept_def split: option.splits)

lemma insert_node_kept:
  assumes "map_ok (nodes rg)" "map_of (nodes rg) j = Some n" "j \<noteq> i" "nodes r = nodes rg"
  shows "kept n (length (nodes rg)) (map_of (nodes (insert_node s i now jn norm uid r)) j)"
  using insert_node_at [of r j n i s now jn norm uid] assms by (auto simp: kept_def)

lemma bind_node_stable:
  assumes "map_ok (nodes rg)" "map_of (nodes rg) j = Some n" "live now n"
  shows "kept n (length (nodes rg)) (map_of (nodes (snd (bind_node s i now norm uid rg))) j)"
proof (cases "j = i")
  case True
  let ?rg = "insert_node s i now (joined n) norm uid rg"
  show ?thesis
  proof (cases "map_of (nodes ?rg) i")
    case None
    with True assms insert_node_self_None [OF assms(1) None] show ?thesis
      by (simp add: bind_node_def kept_def)
  next
    case (Some m)
    with True assms insert_node_self [OF Some] show ?thesis
      by (simp add: bind_node_def kept_def)
  qed
next
  case False
  note put = insert_node_kept [OF assms(1,2) False]
  have "kept n (length (nodes rg)) (map_of (nodes rg) j)" using assms(2) by (simp add: kept_def)
  then show ?thesis
    by (cases "map_of (nodes rg) i") (simp_all add: bind_node_def put)
qed

lemma Heartbeat_guards:
  "Heartbeat baked al s now xh uid ver rg = (False, rg) \<or>
   ver \<and> s \<noteq> [] \<and> length s \<le> MAX_HEARTBEAT_SCRIPT \<and>
   \<not> (baked \<and> IdFromScript s = localId rg \<and> \<not> blob_IsNull (localId rg)) \<and>
   (\<exists>norm rg'. NormalizeXHandle xh = Inr norm \<and> (PinnedScript norm al = [] \<or> PinnedScript norm al = s) \<and>
      release_handle (IdFromScript s) now norm rg = Some rg' \<and>
      Heartbeat baked al s now xh uid ver rg = bind_node s (IdFromScript s) now norm uid rg')"
  by (cases "NormalizeXHandle xh"; cases "release_handle (IdFromScript s) now (projr (NormalizeXHandle xh)) rg")
    (auto simp: Heartbeat_def Let_def)

lemma Heartbeat_cases:
  obtains (refused) "Heartbeat baked al s now xh uid ver rg = (False, rg)"
  | (passed) norm rg' where "NormalizeXHandle xh = Inr norm" "release_handle (IdFromScript s) now norm rg = Some rg'"
    "Heartbeat baked al s now xh uid ver rg = bind_node s (IdFromScript s) now norm uid rg'"
  using Heartbeat_guards [of baked al s now xh uid ver rg] by blast

lemma Heartbeat_frozen:
  assumes "map_of (nodes (snd (Heartbeat baked al s now xh uid ver rg))) i = Some n" "frozen S n" "S \<le> now"
  shows "\<exists>m. map_of (nodes rg) i = Some m \<and> joined m < S"
proof (rule Heartbeat_cases [of baked al s now xh uid ver rg])
  assume "Heartbeat baked al s now xh uid ver rg = (False, rg)"
  with assms(1,2) show ?thesis by (auto simp: frozen_def)
next
  fix norm rg'
  assume r: "release_handle (IdFromScript s) now norm rg = Some rg'"
    and h: "Heartbeat baked al s now xh uid ver rg = bind_node s (IdFromScript s) now norm uid rg'"
  have put: "i = IdFromScript s \<and> joined n = jn \<or> map_of (nodes rg') i = Some n"
    if "map_of (nodes (insert_node s (IdFromScript s) now jn norm uid r')) i = Some n" "nodes r' = nodes rg'" for jn r'
    using that unfolding insert_node_def by (auto dest!: evict_le simp: map_of_put split: if_splits)
  have "map_of (nodes rg') i = Some n \<or>
      (\<exists>m. i = IdFromScript s \<and> map_of (nodes rg') i = Some m \<and> joined n = joined m) \<or> joined n = now"
    using assms(1) put unfolding h bind_node_def by (auto split: option.splits if_splits)
  then show ?thesis
    using assms(2,3) release_handle_le [OF r, of i] by (auto simp: frozen_def)
qed

section \<open>An example run\<close>

definition ex_node :: "uint160 \<Rightarrow> CScript \<Rightarrow> int \<Rightarrow> int \<Rightarrow> string \<Rightarrow> ActiveNode" where
  "ex_node i s seen join h = \<lparr>n_id = i, script = s, lastSeen = seen, joined = join,
     x_account = \<lparr>handle = h, userId = 0\<rparr>\<rparr>"

definition ex_reg :: Registry where
  "ex_reg = Registry_init\<lparr>nodes := [(id_one, ex_node id_one [0x51] 1000 1000 ''alice'')],
     byHandle := [(''alice'', id_one)]\<rparr>"

lemma ids: "IdFromScript [0x51] = id_one" "IdFromScript [0x52] = id_two"
  by (simp_all add: IdFromScript_def Hash160_one Hash160_two)

lemma ex_handles: "NormalizeXHandle ''alice'' = Inr ''alice''" "NormalizeXHandle ''bob'' = Inr ''bob''"
  "NormalizeXHandle ''@Alice'' = Inr ''alice''"
  by code_simp+

lemma ex_pins: "PinnedScript h Allowlist_init = []"
  by (simp add: PinnedScript_def Allowlist_init_def split: sum.split)

lemmas ex_eval = ex_node_def ids ids_differ ex_handles ex_pins Heartbeat_def release_handle_def
  bind_node_def insert_node_def evict_def live_def Let_def

lemma ex_reg_beat: "Heartbeat False Allowlist_init [0x51] 1000 ''alice'' 0 True Registry_init = (True, ex_reg)"
  by (simp add: ex_reg_def ex_eval Registry_init_def)

lemma ex_reg_reach: "reg_reach ex_reg"
  using reg_reach.step [OF reg_reach.start reg_step.heartbeat
      [of Registry_init False Allowlist_init "[0x51]" 1000 "''alice''" 0 True]]
  by (simp add: ex_reg_beat)

lemma ex_reg_node: "map_of (nodes ex_reg) id_one = Some (ex_node id_one [0x51] 1000 1000 ''alice'')"
  by (simp add: ex_reg_def)

section \<open>Properties\<close>

text \<open>
  C23. The registry in every reachable state: each node is filed under the hash of the script it
  is paid to, and two nodes never carry the same X handle.
\<close>

theorem one_node_per_handle:
  assumes "reg_reach rg" "map_of (nodes rg) i = Some n" "map_of (nodes rg) j = Some m"
    and "handle (x_account n) = handle (x_account m)"
  shows "i = j \<and> IdFromScript (script n) = i \<and> valid_handle (handle (x_account n))"
proof -
  note ok = reg_okD [OF reg_reach_ok [OF assms(1)]]
  from ok(4) [OF assms(2)] ok(4) [OF assms(3)] assms(4) ok(3) [OF assms(2)] show ?thesis
    by (auto simp: node_ok_def)
qed

theorem one_node_per_handle_witness: "id_one = id_one \<and> IdFromScript [0x51] = id_one \<and> valid_handle ''alice''"
  using one_node_per_handle [OF ex_reg_reach ex_reg_node ex_reg_node refl] by (simp add: ex_node_def)

text \<open>
  C24. A live identity cannot be taken over: whatever heartbeat arrives while a node is live, the
  node keeps its handle and its joining time, unless the registry already held 4096 nodes and
  evicted it; and a heartbeat for its handle from another payout script is refused and
  changes nothing.
\<close>

theorem live_node_stable:
  assumes "reg_reach rg" "map_of (nodes rg) i = Some n" "live now n"
  shows "kept n (length (nodes rg)) (map_of (nodes (snd (Heartbeat baked al s now xh uid ver rg))) i) \<and>
   (NormalizeXHandle xh = Inr (handle (x_account n)) \<and> IdFromScript s \<noteq> i \<longrightarrow>
      Heartbeat baked al s now xh uid ver rg = (False, rg))"
proof (rule conjI)
  note rg = reg_reach_ok [OF assms(1)]
  show "kept n (length (nodes rg)) (map_of (nodes (snd (Heartbeat baked al s now xh uid ver rg))) i)"
  proof (rule Heartbeat_cases [of baked al s now xh uid ver rg])
    assume "Heartbeat baked al s now xh uid ver rg = (False, rg)"
    with assms(2) show ?thesis by (simp add: kept_def)
  next
    fix norm rg' assume r: "release_handle (IdFromScript s) now norm rg = Some rg'"
      and h: "Heartbeat baked al s now xh uid ver rg = bind_node s (IdFromScript s) now norm uid rg'"
    have "map_ok (nodes rg')" using reg_okD(1) [OF release_handle_ok(1) [OF rg r]] .
    from bind_node_stable [OF this release_handle_node [OF r assms(2,3)] assms(3)]
    show ?thesis unfolding h by (rule kept_mono) (rule release_handle_length [OF r])
  qed
  have "release_handle (IdFromScript s) now (handle (x_account n)) rg = None" if "IdFromScript s \<noteq> i"
    using that assms(2,3) reg_okD(4) [OF rg assms(2)] by (simp add: release_handle_def)
  then show "NormalizeXHandle xh = Inr (handle (x_account n)) \<and> IdFromScript s \<noteq> i \<longrightarrow>
      Heartbeat baked al s now xh uid ver rg = (False, rg)"
    by (simp add: Heartbeat_def Let_def)
qed

theorem live_node_stable_witness:
  "Heartbeat False Allowlist_init [0x52] 1100 ''@Alice'' 0 True ex_reg = (False, ex_reg)"
  using live_node_stable [OF ex_reg_reach ex_reg_node, of 1100 False Allowlist_init "[0x52]" "''@Alice''" 0 True]
  by (simp add: live_def ex_node_def ex_handles ids ids_differ(1) [symmetric])

text \<open>
  C25. The slot freeze: a heartbeat that arrives once a slot is open never brings a new node into
  that slot's draw. Whoever counts for the slot afterwards was already registered, with a
  joining time before the slot opened.
\<close>

theorem late_joiner_waits:
  assumes "map_of (nodes (snd (Heartbeat baked al s now xh uid ver rg))) i = Some n"
    and "frozen (slot * SLOT_SECONDS) n" "slot * SLOT_SECONDS \<le> now"
  shows "\<exists>m. map_of (nodes rg) i = Some m \<and> joined m < slot * SLOT_SECONDS"
  by (rule Heartbeat_frozen [OF assms])

theorem late_joiner_waits_witness:
  "\<exists>m. map_of (nodes ex_reg) id_one = Some m \<and> joined m < 20 * SLOT_SECONDS"
proof (rule late_joiner_waits)
  show "map_of (nodes (snd (Heartbeat False Allowlist_init [0x51] 1210 ''alice'' 0 True ex_reg))) id_one =
      Some (ex_node id_one [0x51] 1210 1000 ''alice'')"
    by (simp add: ex_reg_def ex_eval)
  show "frozen (20 * SLOT_SECONDS) (ex_node id_one [0x51] 1210 1000 ''alice'')"
    by (simp add: frozen_def ex_node_def)
qed simp

section \<open>Where the code departs from its comments\<close>

text \<open>
  \<^verbatim>\<open>ActiveIdsForSlot\<close> is documented as ``nodes already in the set when slot S opened''. A node
  that expired long before the slot keeps its old joining time, so its heartbeat during the
  slot brings it into that slot's draw.
\<close>

definition ex_reg_expired :: Registry where
  "ex_reg_expired = Registry_init\<lparr>
     nodes := [(id_two, ex_node id_two [0x52] 5990 5000 ''bob''), (id_one, ex_node id_one [0x51] 0 0 ''alice'')],
     byHandle := [(''alice'', id_one), (''bob'', id_two)]\<rparr>"

lemma expired_node_reenters_open_slot:
  "ActiveIdsForSlot 6010 100 ex_reg_expired = [id_two] \<and>
   ActiveIdsForSlot 6010 100 (snd (Heartbeat False Allowlist_init [0x51] 6010 ''alice'' 0 True ex_reg_expired)) =
     [id_two, id_one]"
  by (simp add: ex_reg_expired_def ex_eval ActiveIdsForSlot_def frozen_def)

text \<open>
  The cap of 4096 nodes is not enforced while the local node is the oldest one: a fresh id then
  always adds a node, whatever the size.
\<close>

lemma cap_ignored_when_local_is_oldest:
  assumes "map_ok (nodes rg)" "map_of (nodes rg) i = None"
    and "fst (oldest_node (nodes rg')) = localId rg"
    and "rg' = rg\<lparr>nodes := map_put i \<lparr>n_id = i, script = s, lastSeen = now, joined = now,
      x_account = \<lparr>handle = norm, userId = uid\<rparr>\<rparr> (nodes rg), byHandle := map_put norm i (byHandle rg)\<rparr>"
  shows "length (nodes (insert_node s i now now norm uid rg)) = Suc (length (nodes rg))"
proof -
  have "evict rg' = rg'"
    using assms(3,4) by (auto simp: evict_def split: prod.splits)
  moreover have "insert_node s i now now norm uid rg = evict rg'"
    by (simp add: insert_node_def assms(4))
  moreover have "length (nodes rg') = Suc (length (nodes rg))"
    using assms by (simp add: length_map_put)
  ultimately show ?thesis by simp
qed

text \<open>
  The handle index left behind by \<^verbatim>\<open>SetLocalScript\<close> locks a handle out: after the local user
  \<^verbatim>\<open>alice\<close> moved to another script and \<^verbatim>\<open>bob\<close> registered the old one, a heartbeat of
  \<^verbatim>\<open>alice\<close> from any third script is refused although no node carries her handle.
\<close>

definition ex_reg_stale :: Registry where
  "ex_reg_stale = Registry_init\<lparr>nodes := [(id_one, ex_node id_one [0x51] 1010 1010 ''bob'')],
     byHandle := [(''alice'', id_one), (''bob'', id_one)],
     localScript := [0x52], localId := id_two\<rparr>"

lemma stale_index_reached:
  "snd (Heartbeat False Allowlist_init [0x51] 1010 ''bob'' 0 True (SetLocalScript [0x52]
     (snd (Heartbeat False Allowlist_init [0x51] 1000 ''alice'' 0 True (SetLocalScript [0x51] Registry_init))))) =
   ex_reg_stale"
  by (simp add: ex_reg_stale_def SetLocalScript_def ex_eval Registry_init_def map_del_def)

lemma stale_index_locks_handle_out:
  "Heartbeat False Allowlist_init [0x52] 1020 ''alice'' 0 True ex_reg_stale = (False, ex_reg_stale)"
  by (simp add: ex_reg_stale_def ex_eval)

end
