(* ===== verification/XC_Keys.thy ===== *)
theory XC_Keys
  imports XC_RIPEMD160 XC_Script
begin

text \<open>
  \<^verbatim>\<open>src/src/key.cpp\<close>, \<^verbatim>\<open>src/src/pubkey.h\<close> and \<^verbatim>\<open>pubkey.cpp\<close>: private keys, serialized public
  keys and compact signatures. The curve itself is the bundled C library \<^verbatim>\<open>secp256k1\<close>; its
  calls are the fields of the record \<open>secp256k1\<close>, an argument of the definitions, and what
  its header documents of them is \<open>secp_ok\<close>.
\<close>

section \<open>The curve library\<close>

text \<open>
  One field per library call: \<^verbatim>\<open>ec_seckey_verify\<close>, \<^verbatim>\<open>ec_pubkey_create\<close>,
  \<^verbatim>\<open>ec_pubkey_serialize\<close> (the flag is \<^verbatim>\<open>SECP256K1_EC_COMPRESSED\<close>), \<^verbatim>\<open>ec_pubkey_parse\<close>,
  \<^verbatim>\<open>ecdsa_sign_recoverable\<close> with \<^verbatim>\<open>serialize_compact\<close>, and \<^verbatim>\<open>parse_compact\<close> with
  \<^verbatim>\<open>ecdsa_recover\<close>.
\<close>

record 'p secp256k1 =
  seckey_verify :: "bytes \<Rightarrow> bool"
  pubkey_create :: "bytes \<Rightarrow> 'p"
  pubkey_serialize :: "bool \<Rightarrow> 'p \<Rightarrow> bytes"
  pubkey_parse :: "bytes \<Rightarrow> bool"
  sign_recoverable :: "uint256 \<Rightarrow> bytes \<Rightarrow> bytes \<times> nat"
  parse_recover :: "bytes \<Rightarrow> nat \<Rightarrow> uint256 \<Rightarrow> 'p option"

definition secp_ok :: "'p secp256k1 \<Rightarrow> bool" where
  "secp_ok S \<longleftrightarrow>
     (\<forall>p. length (pubkey_serialize S True p) = 33 \<and> hd (pubkey_serialize S True p) \<in> {2, 3}) \<and>
     (\<forall>p. length (pubkey_serialize S False p) = 65 \<and> hd (pubkey_serialize S False p) = 4) \<and>
     (\<forall>c p. pubkey_parse S (pubkey_serialize S c p)) \<and>
     (\<forall>h k. seckey_verify S k \<longrightarrow>
        (case sign_recoverable S h k of (sig, rec) \<Rightarrow>
           length sig = 64 \<and> rec < 4 \<and> parse_recover S sig rec h = Some (pubkey_create S k)))"

section \<open>CKey\<close>

record CKey =
  fValid :: bool
  fCompressed :: bool
  keydata :: bytes

definition CKey_init :: CKey where
  "CKey_init = \<lparr>fValid = False, fCompressed = False, keydata = replicate 32 0\<rparr>"

definition CKey_Set :: "'p secp256k1 \<Rightarrow> bytes \<Rightarrow> bool \<Rightarrow> CKey \<Rightarrow> CKey" where
  "CKey_Set S p fCompressedIn k =
     (if length p \<noteq> length (keydata k) then k\<lparr>fValid := False\<rparr>
      else if seckey_verify S p then k\<lparr>keydata := p, fValid := True, fCompressed := fCompressedIn\<rparr>
      else k\<lparr>fValid := False\<rparr>)"

text \<open>What \<^verbatim>\<open>Set\<close>, \<^verbatim>\<open>MakeNewKey\<close> and \<^verbatim>\<open>Load\<close> leave: a valid key holds a usable secret.\<close>

definition CKey_ok :: "'p secp256k1 \<Rightarrow> CKey \<Rightarrow> bool" where
  "CKey_ok S k \<longleftrightarrow> length (keydata k) = 32 \<and> (fValid k \<longrightarrow> seckey_verify S (keydata k))"

definition CKey_SignCompact :: "'p secp256k1 \<Rightarrow> CKey \<Rightarrow> uint256 \<Rightarrow> bytes option" where
  "CKey_SignCompact S k hash =
     (if \<not> fValid k then None
      else let (sig, rec) = sign_recoverable S hash (keydata k)
           in Some ((27 + of_nat rec + (if fCompressed k then 4 else 0)) # sig))"

section \<open>CPubKey\<close>

text \<open>A public key is its serialized bytes; the invalid key, whose \<^verbatim>\<open>size()\<close> is 0, is \<open>[]\<close>.\<close>

type_synonym CPubKey = bytes

definition GetLen :: "u8 \<Rightarrow> nat" where
  "GetLen chHeader =
     (if chHeader = 2 \<or> chHeader = 3 then 33
      else if chHeader = 4 \<or> chHeader = 6 \<or> chHeader = 7 then 65 else 0)"

definition CPubKey_Set :: "bytes \<Rightarrow> CPubKey" where
  "CPubKey_Set p =
     (let len = (if p = [] then 0 else GetLen (hd p))
      in if len \<noteq> 0 \<and> len = length p then p else [])"

definition CPubKey_IsValid :: "CPubKey \<Rightarrow> bool" where
  "CPubKey_IsValid pub \<longleftrightarrow> 0 < length pub"

definition CPubKey_IsFullyValid :: "'p secp256k1 \<Rightarrow> CPubKey \<Rightarrow> bool" where
  "CPubKey_IsFullyValid S pub \<longleftrightarrow> CPubKey_IsValid pub \<and> pubkey_parse S pub"

definition CPubKey_GetID :: "CPubKey \<Rightarrow> uint160" where
  "CPubKey_GetID pub = Hash160 pub"

definition CPubKey_RecoverCompact :: "'p secp256k1 \<Rightarrow> uint256 \<Rightarrow> bytes \<Rightarrow> CPubKey option" where
  "CPubKey_RecoverCompact S hash vchSig =
     (if length vchSig \<noteq> 65 then None
      else let recid = unat ((hd vchSig - 27) AND 3);
               fComp = (hd vchSig - 27) AND 4 \<noteq> 0
           in case parse_recover S (tl vchSig) recid hash of None \<Rightarrow> None
              | Some pubkey \<Rightarrow> Some (CPubKey_Set (pubkey_serialize S fComp pubkey)))"

definition CKey_GetPubKey :: "'p secp256k1 \<Rightarrow> CKey \<Rightarrow> CPubKey" where
  "CKey_GetPubKey S k = CPubKey_Set (pubkey_serialize S (fCompressed k) (pubkey_create S (keydata k)))"

section \<open>A compact signature recovers its key\<close>

lemma CPubKey_Set_serialize:
  assumes "secp_ok S"
  shows "CPubKey_Set (pubkey_serialize S c p) = pubkey_serialize S c p \<and> pubkey_serialize S c p \<noteq> []"
proof (cases c)
  case True
  have "length (pubkey_serialize S True p) = 33" "hd (pubkey_serialize S True p) \<in> {2, 3}"
    using assms by (simp_all add: secp_ok_def)
  with True show ?thesis by (auto simp: CPubKey_Set_def GetLen_def)
next
  case False
  have "length (pubkey_serialize S False p) = 65" "hd (pubkey_serialize S False p) = 4"
    using assms by (simp_all add: secp_ok_def)
  with False show ?thesis by (auto simp: CPubKey_Set_def GetLen_def)
qed

lemma CKey_GetPubKey_valid:
  "secp_ok S \<Longrightarrow> CPubKey_IsFullyValid S (CKey_GetPubKey S k)"
  using CPubKey_Set_serialize [of S "fCompressed k" "pubkey_create S (keydata k)"]
  by (auto simp: CPubKey_IsFullyValid_def CPubKey_IsValid_def CKey_GetPubKey_def secp_ok_def)

lemma header_byte:
  assumes "rec < 4"
  shows "unat ((27 + of_nat rec + (if c then 4 else 0) - 27 :: u8) AND 3) = rec"
    and "((27 + of_nat rec + (if c then 4 else 0) - 27 :: u8) AND 4 \<noteq> 0) = c"
proof -
  have "rec = 0 \<or> rec = 1 \<or> rec = 2 \<or> rec = 3" using assms by linarith
  then show "unat ((27 + of_nat rec + (if c then 4 else 0) - 27 :: u8) AND 3) = rec"
    and "((27 + of_nat rec + (if c then 4 else 0) - 27 :: u8) AND 4 \<noteq> 0) = c"
    by (cases c; auto)+
qed

lemma SignCompact_RecoverCompact:
  assumes "secp_ok S" "CKey_ok S k" "CKey_SignCompact S k hash = Some sig"
  shows "length sig = 65 \<and> CPubKey_RecoverCompact S hash sig = Some (CKey_GetPubKey S k)"
proof -
  obtain r rec where s: "sign_recoverable S hash (keydata k) = (r, rec)" by fastforce
  have "fValid k" and sig: "sig = (27 + of_nat rec + (if fCompressed k then 4 else 0)) # r"
    using assms(3) s by (auto simp: CKey_SignCompact_def split: if_splits)
  with assms(1,2) s have "length r = 64" "rec < 4" "parse_recover S r rec hash = Some (pubkey_create S (keydata k))"
    unfolding secp_ok_def CKey_ok_def by (fastforce split: prod.splits)+
  with header_byte [of rec "fCompressed k"] show ?thesis
    unfolding CPubKey_RecoverCompact_def CKey_GetPubKey_def Let_def sig by (simp only: list.sel) simp
qed

lemma SignCompact_Some: "CKey_SignCompact S k hash = None \<longleftrightarrow> \<not> fValid k"
  by (simp add: CKey_SignCompact_def split: prod.splits)

text \<open>
  An instance that meets \<open>secp_ok\<close>, to show that the hypothesis can hold: the ``point'' is the
  secret itself and the signature carries it.
\<close>

definition secp_demo :: "bytes secp256k1" where
  "secp_demo = \<lparr>
     seckey_verify = (\<lambda>k. length k = 32),
     pubkey_create = (\<lambda>k. k),
     pubkey_serialize = (\<lambda>c p. if c then 2 # take 32 (p @ replicate 32 0)
                               else 4 # take 64 (p @ replicate 64 0)),
     pubkey_parse = (\<lambda>b. True),
     sign_recoverable = (\<lambda>h k. (k @ replicate 32 0, 0)),
     parse_recover = (\<lambda>s r h. Some (take 32 s))\<rparr>"

lemma secp_demo_ok: "secp_ok secp_demo"
  by (auto simp: secp_ok_def secp_demo_def min_def)

end
