(* ===== verification/XC_Standard.thy ===== *)
theory XC_Standard
  imports XC_Keys
begin

text \<open>
  \<^verbatim>\<open>src/src/script/standard.cpp\<close>: the template matcher \<^verbatim>\<open>Solver\<close>, the destination a script
  pays (\<^verbatim>\<open>ExtractDestination\<close>, \<^verbatim>\<open>ExtractDestinations\<close>) and the scripts that pay a destination.
\<close>

datatype txnouttype =
    TX_NONSTANDARD | TX_PUBKEY | TX_PUBKEYHASH | TX_SCRIPTHASH | TX_MULTISIG | TX_NULL_DATA
  | TX_WITNESS_V0_SCRIPTHASH | TX_WITNESS_V0_KEYHASH
  | TX_ASSET asset_tx | TX_RESTRICTED_ASSET_DATA

datatype CTxDestination = CNoDestination | CKeyID uint160 | CScriptID uint160

abbreviation "OP_SMALLINTEGER \<equiv> (0xfa :: opcodetype)"
abbreviation "OP_PUBKEYS \<equiv> (0xfb :: opcodetype)"
abbreviation "OP_PUBKEYHASH \<equiv> (0xfd :: opcodetype)"
abbreviation "OP_PUBKEY \<equiv> (0xfe :: opcodetype)"

section \<open>Template matching\<close>

text \<open>
  The inner loop at \<^verbatim>\<open>OP_PUBKEYS\<close>: it collects keys and stops at the first item that is not one.
  A failing \<^verbatim>\<open>GetOp\<close> has cleared the opcode and the item.
\<close>

function take_pubkeys ::
  "opcodetype \<Rightarrow> bytes \<Rightarrow> bytes \<Rightarrow> bytes list \<Rightarrow> opcodetype \<times> bytes \<times> bytes \<times> bytes list" where
  "take_pubkeys opcode1 vch1 pc1 sol =
     (if 33 \<le> length vch1 \<and> length vch1 \<le> 65 then
        (case GetOp2 pc1 of None \<Rightarrow> (OP_INVALIDOPCODE, [], pc1, sol @ [vch1])
         | Some (opcode, vch, pc) \<Rightarrow> take_pubkeys opcode vch pc (sol @ [vch1]))
      else (opcode1, vch1, pc1, sol))"
  by pat_completeness auto
termination
  by (relation "measure (\<lambda>(o1, v, pc, s). length pc)") auto

text \<open>The chain of \<^verbatim>\<open>if\<close> at the end of the loop body: the solutions after one item, or \<^verbatim>\<open>break\<close>.\<close>

definition match_item :: "opcodetype \<Rightarrow> bytes \<Rightarrow> opcodetype \<Rightarrow> bytes \<Rightarrow> bytes list \<Rightarrow> bytes list option" where
  "match_item opcode1 vch1 opcode2 vch2 sol =
     (if opcode2 = OP_PUBKEY then
        (if length vch1 < 33 \<or> 65 < length vch1 then None else Some (sol @ [vch1]))
      else if opcode2 = OP_PUBKEYHASH then
        (if length vch1 \<noteq> 20 then None else Some (sol @ [vch1]))
      else if opcode2 = OP_SMALLINTEGER then
        (if opcode1 = OP_0 \<or> OP_1 \<le> opcode1 \<and> opcode1 \<le> OP_16
         then Some (sol @ [[of_nat (DecodeOP_N opcode1)]]) else None)
      else if opcode1 \<noteq> opcode2 \<or> vch1 \<noteq> vch2 then None
      else Some sol)"

function match_template :: "bytes \<Rightarrow> bytes \<Rightarrow> bytes list \<Rightarrow> bytes list option" where
  "match_template pc1 pc2 sol =
     (if pc1 = [] \<and> pc2 = [] then Some sol
      else case GetOp2 pc1 of None \<Rightarrow> None
      | Some (opcode1, vch1, pc1') \<Rightarrow>
        (case GetOp2 pc2 of None \<Rightarrow> None
         | Some (opcode2, vch2, pc2') \<Rightarrow>
             if opcode2 = OP_PUBKEYS then
               (case take_pubkeys opcode1 vch1 pc1' sol of (opcode1', vch1', pc1'', sol') \<Rightarrow>
                  case GetOp2 pc2' of None \<Rightarrow> None
                  | Some (opcode2', vch2', pc2'') \<Rightarrow>
                      (case match_item opcode1' vch1' opcode2' vch2' sol' of None \<Rightarrow> None
                       | Some sol'' \<Rightarrow> match_template pc1'' pc2'' sol''))
             else
               (case match_item opcode1 vch1 opcode2 vch2 sol of None \<Rightarrow> None
                | Some sol' \<Rightarrow> match_template pc1' pc2' sol')))"
  by pat_completeness auto
termination
  by (relation "measure (\<lambda>(pc1, pc2, s). length pc2)") (auto dest!: GetOp2_shorter)

declare take_pubkeys.simps [simp del] match_template.simps [simp del]

definition mTemplates :: "(txnouttype \<times> CScript) list" where
  "mTemplates =
     [(TX_PUBKEY, [OP_PUBKEY, OP_CHECKSIG]),
      (TX_PUBKEYHASH, [OP_DUP, OP_HASH160, OP_PUBKEYHASH, OP_EQUALVERIFY, OP_CHECKSIG]),
      (TX_MULTISIG, [OP_SMALLINTEGER, OP_PUBKEYS, OP_SMALLINTEGER, OP_CHECKMULTISIG])]"

definition multisig_ok :: "bytes list \<Rightarrow> bool" where
  "multisig_ok sol \<longleftrightarrow>
     (let m = hd (hd sol); n = hd (last sol)
      in \<not> (m < 1 \<or> n < 1 \<or> n < m \<or> length sol - 2 \<noteq> unat n))"

fun scan_templates :: "CScript \<Rightarrow> (txnouttype \<times> CScript) list \<Rightarrow> (txnouttype \<times> bytes list) option" where
  "scan_templates s [] = None"
| "scan_templates s ((ty, tplate) # ts) =
     (case match_template s tplate [] of None \<Rightarrow> scan_templates s ts
      | Some sol \<Rightarrow> if ty = TX_MULTISIG \<and> \<not> multisig_ok sol then None else Some (ty, sol))"

text \<open>\<^verbatim>\<open>Solver\<close>: the type and the solutions, or \<open>None\<close> where it returns \<^verbatim>\<open>false\<close>.\<close>

definition Solver :: "CScript \<Rightarrow> (txnouttype \<times> bytes list) option" where
  "Solver s =
     (if IsPayToScriptHash s then Some (TX_SCRIPTHASH, [take 20 (drop 2 s)])
      else case IsAssetScript s of
        Some (nType, fIsOwner, start) \<Rightarrow> Some (TX_ASSET nType, [take 20 (drop 3 s)])
      | None \<Rightarrow>
        (case IsWitnessProgram s of
           Some (witnessversion, witnessprogram) \<Rightarrow>
             if witnessversion = 0 \<and> length witnessprogram = 20
             then Some (TX_WITNESS_V0_KEYHASH, [witnessprogram])
             else if witnessversion = 0 \<and> length witnessprogram = 32
             then Some (TX_WITNESS_V0_SCRIPTHASH, [witnessprogram])
             else None
         | None \<Rightarrow>
             if 1 \<le> length s \<and> s ! 0 = OP_RETURN \<and> IsPushOnly (drop 1 s) then Some (TX_NULL_DATA, [])
             else if 1 \<le> length s \<and> s ! 0 = OP_RVN_ASSET \<and> IsPushOnly (drop 1 s) then
               Some (TX_RESTRICTED_ASSET_DATA,
                     if 23 \<le> length s \<and> s ! 1 \<noteq> OP_RESERVED then [take 20 (drop 2 s)] else [])
             else scan_templates s mTemplates))"

section \<open>Destinations\<close>

definition ExtractDestination :: "CScript \<Rightarrow> CTxDestination option" where
  "ExtractDestination s =
     (case Solver s of None \<Rightarrow> None
      | Some (whichType, vSolutions) \<Rightarrow>
          (case whichType of
             TX_PUBKEY \<Rightarrow>
               let pubKey = CPubKey_Set (hd vSolutions)
               in if \<not> CPubKey_IsValid pubKey then None else Some (CKeyID (CPubKey_GetID pubKey))
           | TX_PUBKEYHASH \<Rightarrow> Some (CKeyID (hd vSolutions))
           | TX_SCRIPTHASH \<Rightarrow> Some (CScriptID (hd vSolutions))
           | TX_ASSET t \<Rightarrow> Some (CKeyID (hd vSolutions))
           | TX_RESTRICTED_ASSET_DATA \<Rightarrow>
               if vSolutions \<noteq> [] then Some (CKeyID (hd vSolutions)) else None
           | _ \<Rightarrow> None))"

definition ExtractDestinations :: "CScript \<Rightarrow> (txnouttype \<times> CTxDestination list \<times> nat) option" where
  "ExtractDestinations s =
     (case Solver s of None \<Rightarrow> None
      | Some (typeRet, vSolutions) \<Rightarrow>
          if typeRet = TX_NULL_DATA then None
          else if typeRet = TX_MULTISIG then
            let nRequired = unat (hd (hd vSolutions));
                keys = filter CPubKey_IsValid (map CPubKey_Set (butlast (tl vSolutions)));
                addressRet = map (\<lambda>p. CKeyID (CPubKey_GetID p)) keys
            in if addressRet = [] then None else Some (typeRet, addressRet, nRequired)
          else (case ExtractDestination s of None \<Rightarrow> None
                | Some address \<Rightarrow> Some (typeRet, [address], 1)))"

definition GetScriptForDestination :: "CTxDestination \<Rightarrow> CScript" where
  "GetScriptForDestination dest =
     (case dest of
        CNoDestination \<Rightarrow> []
      | CKeyID keyID \<Rightarrow>
          push_opcode (push_opcode (push_data (push_opcode (push_opcode [] OP_DUP) OP_HASH160) keyID)
            OP_EQUALVERIFY) OP_CHECKSIG
      | CScriptID scriptID \<Rightarrow>
          push_opcode (push_data (push_opcode [] OP_HASH160) scriptID) OP_EQUAL)"

definition GetScriptForNullAssetDataDestination :: "CTxDestination \<Rightarrow> CScript" where
  "GetScriptForNullAssetDataDestination dest =
     (case dest of CNoDestination \<Rightarrow> []
      | CKeyID keyID \<Rightarrow> push_data (push_opcode [] OP_RVN_ASSET) keyID
      | CScriptID scriptID \<Rightarrow> push_data (push_opcode [] OP_RVN_ASSET) scriptID)"

definition GetScriptForRawPubKey :: "CPubKey \<Rightarrow> CScript" where
  "GetScriptForRawPubKey pubKey = push_opcode (push_data [] pubKey) OP_CHECKSIG"

definition EncodeOP_N :: "nat \<Rightarrow> opcodetype" where
  "EncodeOP_N n = (if n = 0 then OP_0 else of_nat (unat OP_1 + n - 1))"

definition GetScriptForMultisig :: "nat \<Rightarrow> CPubKey list \<Rightarrow> CScript" where
  "GetScriptForMultisig nRequired keys =
     push_opcode (push_opcode (foldl push_data (push_opcode [] (EncodeOP_N nRequired)) keys)
       (EncodeOP_N (length keys))) OP_CHECKMULTISIG"

definition IsValidDestination :: "CTxDestination \<Rightarrow> bool" where
  "IsValidDestination dest \<longleftrightarrow> dest \<noteq> CNoDestination"

section \<open>A script that pays a destination is recognised as paying it\<close>

lemma GetOp2_plain:
  "OP_PUSHDATA4 < opcode \<Longrightarrow> opcode \<noteq> OP_RVN_ASSET \<Longrightarrow> GetOp2 (opcode # pc) = Some (opcode, [], pc)"
  by (auto simp: GetOp2_def)

lemma GetOp2_short_push:
  assumes "length b < 0x4c"
  shows "GetOp2 (of_nat (length b) # b @ rest) = Some (of_nat (length b), b, rest)"
proof -
  have u: "unat (of_nat (length b) :: u8) = length b"
    using assms by (simp add: unat_of_nat)
  then have "of_nat (length b) < (0x4c :: u8)" "of_nat (length b) \<le> (0x4e :: u8)"
    using assms by (simp_all add: word_less_nat_alt word_le_nat_alt)
  with u show ?thesis
    by (simp add: GetOp2_def GetOp2_size_def)
qed

lemma P2PKH_bytes:
  "length h = 20 \<Longrightarrow>
   GetScriptForDestination (CKeyID h) = [OP_DUP, OP_HASH160, 0x14] @ h @ [OP_EQUALVERIFY, OP_CHECKSIG]"
  by (simp add: GetScriptForDestination_def push_opcode_def push_data_def push_header_def)

lemma Solver_P2PKH:
  assumes "length h = 20"
  shows "Solver (GetScriptForDestination (CKeyID h)) = Some (TX_PUBKEYHASH, [h])"
proof -
  let ?s = "OP_DUP # OP_HASH160 # 0x14 # h @ [OP_EQUALVERIFY, OP_CHECKSIG]"
  have push: "GetOp2 (0x14 # h @ rest) = Some (0x14, h, rest)" for rest
    using GetOp2_short_push [of h rest] assms by simp
  have t1: "match_template ?s [OP_PUBKEY, OP_CHECKSIG] [] = None"
    by (subst match_template.simps) (simp add: GetOp2_plain match_item_def)
  have t2: "match_template ?s [OP_DUP, OP_HASH160, OP_PUBKEYHASH, OP_EQUALVERIFY, OP_CHECKSIG] [] = Some [h]"
    by (simp add: match_template.simps GetOp2_plain match_item_def push assms)
  have "scan_templates ?s mTemplates = Some (TX_PUBKEYHASH, [h])"
    by (simp add: mTemplates_def t1 t2)
  moreover have "\<not> IsPayToScriptHash ?s" "IsAssetScript ?s = None" "IsWitnessProgram ?s = None"
    using assms by (simp_all add: IsPayToScriptHash_def IsAssetScript_def IsWitnessProgram_def)
  ultimately show ?thesis
    using assms by (simp add: P2PKH_bytes Solver_def)
qed

lemma ExtractDestination_P2PKH:
  "length h = 20 \<Longrightarrow> ExtractDestination (GetScriptForDestination (CKeyID h)) = Some (CKeyID h)"
  by (simp add: ExtractDestination_def Solver_P2PKH)

lemma ExtractDestination_P2SH:
  assumes "length h = 20"
  shows "ExtractDestination (GetScriptForDestination (CScriptID h)) = Some (CScriptID h)"
proof -
  let ?s = "OP_HASH160 # 0x14 # h @ [OP_EQUAL]"
  have "GetScriptForDestination (CScriptID h) = ?s"
    using assms by (simp add: GetScriptForDestination_def push_opcode_def push_data_def push_header_def)
  moreover have "IsPayToScriptHash ?s"
    using assms by (simp add: IsPayToScriptHash_def nth_append)
  ultimately show ?thesis
    using assms by (simp add: ExtractDestination_def Solver_def)
qed

section \<open>Multisignature scripts\<close>

lemma EncodeOP_N_unat: "1 \<le> n \<Longrightarrow> n \<le> 16 \<Longrightarrow> unat (EncodeOP_N n) = 80 + n"
proof -
  assume n: "1 \<le> n" "n \<le> 16"
  have "unat (of_nat (unat OP_1 + n - 1) :: opcodetype) = (unat OP_1 + n - 1) mod 2 ^ 8"
    by (simp only: unat_of_nat len_num1 len_num0 len_bit0) simp
  with n show "unat (EncodeOP_N n) = 80 + n" by (simp add: EncodeOP_N_def)
qed

lemma EncodeOP_N_range:
  assumes "1 \<le> n" "n \<le> 16"
  shows "OP_1 \<le> EncodeOP_N n" "EncodeOP_N n \<le> OP_16" "OP_PUSHDATA4 < EncodeOP_N n"
    "DecodeOP_N (EncodeOP_N n) = n"
proof -
  note u = EncodeOP_N_unat [OF assms]
  show "OP_1 \<le> EncodeOP_N n" "EncodeOP_N n \<le> OP_16" "OP_PUSHDATA4 < EncodeOP_N n"
    using u assms by (simp_all add: word_le_nat_alt word_less_nat_alt)
  have "EncodeOP_N n \<noteq> OP_0" using u by (metis unat_0 add_is_0 zero_neq_numeral)
  then show "DecodeOP_N (EncodeOP_N n) = n" using u by (simp add: DecodeOP_N_def)
qed

lemma GetOp2_EncodeOP_N:
  assumes "1 \<le> n" "n \<le> 16"
  shows "GetOp2 (EncodeOP_N n # pc) = Some (EncodeOP_N n, [], pc)"
proof (rule GetOp2_plain)
  show "OP_PUSHDATA4 < EncodeOP_N n" by (rule EncodeOP_N_range(3) [OF assms])
  show "EncodeOP_N n \<noteq> OP_RVN_ASSET" using EncodeOP_N_range(2) [OF assms] by auto
qed

definition key_pushes :: "bytes list \<Rightarrow> bytes" where
  "key_pushes keys = concat (map (\<lambda>k. of_nat (length k) # k) keys)"

lemma multisig_bytes:
  assumes "\<forall>k \<in> set keys. length k \<le> 65"
  shows "GetScriptForMultisig m keys =
    EncodeOP_N m # key_pushes keys @ [EncodeOP_N (length keys), OP_CHECKMULTISIG]"
proof -
  have "foldl push_data s keys = s @ key_pushes keys" for s
    using assms
    by (induction keys arbitrary: s) (simp_all add: key_pushes_def push_data_def push_header_def)
  then show ?thesis by (simp add: GetScriptForMultisig_def push_opcode_def)
qed

lemma take_pubkeys_run:
  assumes "\<forall>k \<in> set keys. 33 \<le> length k \<and> length k \<le> 65" "1 \<le> n" "n \<le> 16" "33 \<le> length v" "length v \<le> 65"
  shows "take_pubkeys opc v (key_pushes keys @ EncodeOP_N n # rest) sol = (EncodeOP_N n, [], rest, sol @ v # keys)"
  using assms
proof (induction keys arbitrary: opc v sol)
  case Nil
  then show ?case
    by (subst take_pubkeys.simps) (simp add: key_pushes_def GetOp2_EncodeOP_N, subst take_pubkeys.simps, simp)
next
  case (Cons k keys)
  have "GetOp2 (of_nat (length k) # k @ key_pushes keys @ EncodeOP_N n # rest) =
      Some (of_nat (length k), k, key_pushes keys @ EncodeOP_N n # rest)"
    using Cons.prems by (intro GetOp2_short_push) simp
  then have "GetOp2 (key_pushes (k # keys) @ EncodeOP_N n # rest) =
      Some (of_nat (length k), k, key_pushes keys @ EncodeOP_N n # rest)"
    by (simp add: key_pushes_def)
  with Cons show ?case by (subst take_pubkeys.simps) simp
qed

lemma match_multisig:
  assumes "\<forall>k \<in> set (k # keys). 33 \<le> length k \<and> length k \<le> 65" "1 \<le> m" "m \<le> 16" "1 \<le> n" "n \<le> 16"
  shows "match_template (EncodeOP_N m # key_pushes (k # keys) @ [EncodeOP_N n, OP_CHECKMULTISIG])
      [OP_SMALLINTEGER, OP_PUBKEYS, OP_SMALLINTEGER, OP_CHECKMULTISIG] [] =
    Some ([[of_nat m]] @ (k # keys) @ [[of_nat n]])"
proof -
  have push: "GetOp2 (of_nat (length k) # k @ key_pushes keys @ [EncodeOP_N n, OP_CHECKMULTISIG]) =
      Some (of_nat (length k), k, key_pushes keys @ [EncodeOP_N n, OP_CHECKMULTISIG])"
    using assms(1) by (intro GetOp2_short_push) simp
  have kp: "key_pushes (k # keys) = of_nat (length k) # k @ key_pushes keys" by (simp add: key_pushes_def)
  note run = take_pubkeys_run [of keys n k "of_nat (length k)" "[OP_CHECKMULTISIG]" "[[of_nat m]]"]
  have r: "take_pubkeys (of_nat (length k)) k (key_pushes keys @ [EncodeOP_N n, OP_CHECKMULTISIG]) [[of_nat m]] =
      (EncodeOP_N n, [], [OP_CHECKMULTISIG], [[of_nat m]] @ k # keys)"
    using run assms by simp
  show ?thesis
    unfolding kp
    by (subst match_template.simps,
        simp add: GetOp2_EncodeOP_N [OF assms(2,3)] GetOp2_plain match_item_def EncodeOP_N_range [OF assms(2,3)],
        subst match_template.simps,
        simp add: push GetOp2_plain r match_item_def EncodeOP_N_range [OF assms(4,5)],
        simp add: match_template.simps GetOp2_plain match_item_def)
qed

lemma Solver_templates:
  assumes "23 < length s" "IsAssetScript s = None" "IsWitnessProgram s = None" "s ! 0 \<noteq> OP_RETURN" "s ! 0 \<noteq> OP_RVN_ASSET"
  shows "Solver s = scan_templates s mTemplates"
  using assms by (simp add: Solver_def IsPayToScriptHash_def)

section \<open>Properties\<close>

text \<open>
  Paying a destination: the script \<^verbatim>\<open>GetScriptForDestination\<close> builds for a key hash or a
  script hash is read back by \<^verbatim>\<open>ExtractDestination\<close> as that destination, so two destinations never
  share a script.
\<close>

theorem destination_round_trip:
  assumes "length h = 20"
  shows "ExtractDestination (GetScriptForDestination (CKeyID h)) = Some (CKeyID h) \<and>
    ExtractDestination (GetScriptForDestination (CScriptID h)) = Some (CScriptID h)"
  using ExtractDestination_P2PKH [OF assms] ExtractDestination_P2SH [OF assms] by blast

theorem destination_round_trip_witness:
  "ExtractDestination (GetScriptForDestination (CKeyID uint160_null)) = Some (CKeyID uint160_null)"
  using destination_round_trip [of uint160_null] by (simp add: uint160_null_def)

text \<open>
  Multisignature scripts: the script \<^verbatim>\<open>GetScriptForMultisig\<close> builds for \<open>m\<close> of up to sixteen
  keys is recognised by \<^verbatim>\<open>Solver\<close> as a multisignature script with exactly that threshold and those
  keys, unless bytes inside the keys happen to spell an asset marker at offset 25.
\<close>

theorem multisig_round_trip:
  assumes "1 \<le> m" "m \<le> length keys" "length keys \<le> 16"
    and "\<forall>k \<in> set keys. length k = 33 \<or> length k = 65"
    and "IsAssetScript (GetScriptForMultisig m keys) = None"
  shows "Solver (GetScriptForMultisig m keys) =
    Some (TX_MULTISIG, [[of_nat m]] @ keys @ [[of_nat (length keys)]])"
proof -
  obtain k ks where keys: "keys = k # ks" using assms(1,2) by (cases keys) auto
  let ?n = "length keys" and ?s = "GetScriptForMultisig m keys"
  have rng: "1 \<le> m" "m \<le> 16" "1 \<le> ?n" "?n \<le> 16" using assms(1-3) by linarith+
  have len: "\<forall>k \<in> set (k # ks). 33 \<le> length k \<and> length k \<le> 65" using assms(4) keys by auto
  have s: "?s = EncodeOP_N m # key_pushes (k # ks) @ [EncodeOP_N ?n, OP_CHECKMULTISIG]"
    using multisig_bytes [of keys m] len keys by simp
  note match = match_multisig [OF len rng]
  have hd: "?s ! 0 = EncodeOP_N m" "?s ! 1 = of_nat (length k)" "length k + 4 \<le> length ?s"
    by (simp_all add: s key_pushes_def)
  have hdne: "EncodeOP_N m \<noteq> OP_RETURN" "EncodeOP_N m \<noteq> OP_RVN_ASSET" "EncodeOP_N m \<noteq> OP_DUP"
    using EncodeOP_N_range(2) [OF rng(1,2)] by auto
  have wit: "IsWitnessProgram ?s = None"
  proof -
    have "unat (of_nat (length k) :: u8) = length k" using len by (simp add: unat_of_nat)
    then show ?thesis using hd by (auto simp: IsWitnessProgram_def)
  qed
  have op: "GetOp2 ?s = Some (EncodeOP_N m, [], key_pushes (k # ks) @ [EncodeOP_N ?n, OP_CHECKMULTISIG])"
    unfolding s by (rule GetOp2_EncodeOP_N [OF rng(1,2)])
  have t: "match_template ?s [OP_PUBKEY, OP_CHECKSIG] [] = None"
    "match_template ?s [OP_DUP, OP_HASH160, OP_PUBKEYHASH, OP_EQUALVERIFY, OP_CHECKSIG] [] = None"
    using hdne(3) by (subst match_template.simps, simp add: op GetOp2_plain match_item_def)+
  have um: "unat (of_nat m :: u8) = m" "unat (of_nat ?n :: u8) = ?n" using rng by (simp_all add: unat_of_nat)
  have "multisig_ok ([[of_nat m]] @ keys @ [[of_nat ?n]])"
    using rng assms(2) um by (auto simp: multisig_ok_def word_less_nat_alt keys)
  then have "scan_templates ?s mTemplates = Some (TX_MULTISIG, [[of_nat m]] @ keys @ [[of_nat ?n]])"
    using t match [folded s, folded keys] by (simp add: mTemplates_def)
  moreover have "23 < length ?s" using hd(3) len by auto
  ultimately show ?thesis using Solver_templates [of ?s] assms(5) wit hd(1) hdne by simp
qed

definition ex_key :: CPubKey where
  "ex_key = 2 # replicate 32 7"

theorem multisig_round_trip_witness:
  "Solver (GetScriptForMultisig 1 [ex_key, ex_key]) = Some (TX_MULTISIG, [[1], ex_key, ex_key, [2]])"
  using multisig_round_trip [of 1 "[ex_key, ex_key]"]
  by (simp add: ex_key_def IsAssetScript_def GetScriptForMultisig_def push_opcode_def push_data_def
      push_header_def EncodeOP_N_def nth_append)

section \<open>A multisignature script read as an asset transfer\<close>

text \<open>
  \<^verbatim>\<open>IsAssetScript\<close> looks at the bytes from offset 25 only, and \<^verbatim>\<open>Solver\<close> asks it first: a key with
  the asset marker inside makes the whole script an asset transfer.
\<close>

definition marked_key :: CPubKey where
  "marked_key = 2 # replicate 22 0 @ [OP_RVN_ASSET, 0, 0x72, 0x76, 0x6e, 0x74] @ replicate 4 0"

lemma multisig_read_as_asset:
  "length marked_key = 33"
  "Solver (GetScriptForMultisig 1 [marked_key]) =
     Some (TX_ASSET TX_TRANSFER_ASSET, [take 20 (drop 3 (GetScriptForMultisig 1 [marked_key]))])"
proof -
  show "length marked_key = 33" by (simp add: marked_key_def)
  let ?s = "GetScriptForMultisig 1 [marked_key]"
  have "?s = [0x51, 0x21] @ marked_key @ [0x51, OP_CHECKMULTISIG]"
    by (simp add: GetScriptForMultisig_def marked_key_def push_opcode_def push_data_def push_header_def EncodeOP_N_def)
  then have "IsAssetScript ?s = Some (TX_TRANSFER_ASSET, False, 31)" "\<not> IsPayToScriptHash ?s"
    by (simp_all add: marked_key_def IsAssetScript_def asset_index_def IsPayToScriptHash_def nth_append)
  then show "Solver ?s = Some (TX_ASSET TX_TRANSFER_ASSET, [take 20 (drop 3 ?s)])" by (simp add: Solver_def)
qed

end
