(* ===== verification/XC_Attest.thy ===== *)
theory XC_Attest
  imports XC_Registry XC_Standard
begin

text \<open>
  Signed statements of \<^verbatim>\<open>src/src/lottery.cpp\<close>: the seed's stamp on a payout id (\<^verbatim>\<open>XVA1\<close>), the
  seed's signature on a block (\<^verbatim>\<open>XSD1\<close>), signed heartbeats, and the stamp store
  \<^verbatim>\<open>g_attest\<close>. Keys and signatures are those of the theory of keys; the digests are computed.
\<close>

section \<open>Parameters and state\<close>

record CChainParams =
  MineBlocksOnDemand :: bool
  XAttestorPub :: bytes
  GenesisTime :: int
  nSubsidyHalvingInterval :: int
  NetworkIsMain :: bool

record AttestRow =
  row_handle :: string
  row_sig :: bytes

type_synonym attest_store = "(uint160, AttestRow) omap"

definition RequireXAttestation :: "CChainParams \<Rightarrow> bool" where
  "RequireXAttestation p = (if MineBlocksOnDemand p then False else XAttestorPub p \<noteq> [])"

definition AttestorPub :: "CChainParams \<Rightarrow> CPubKey" where
  "AttestorPub p = (if XAttestorPub p \<noteq> [] then CPubKey_Set (XAttestorPub p) else [])"

section \<open>Stamps\<close>

definition AttestDigest :: "uint160 \<Rightarrow> string \<Rightarrow> uint256" where
  "AttestDigest i hnd =
     (let norm = (case NormalizeXHandle hnd of Inl e \<Rightarrow> [] | Inr norm \<Rightarrow> norm)
      in sha256_parts [bytes_of ''xcoin-xva-v1'', i, bytes_of norm])"

definition SignAttestation :: "'p secp256k1 \<Rightarrow> CKey \<Rightarrow> uint160 \<Rightarrow> string \<Rightarrow> bytes option" where
  "SignAttestation S attestorKey i hnd =
     (if \<not> fValid attestorKey then None else CKey_SignCompact S attestorKey (AttestDigest i hnd))"

definition VerifyAttestationPub :: "'p secp256k1 \<Rightarrow> CPubKey \<Rightarrow> uint160 \<Rightarrow> string \<Rightarrow> bytes \<Rightarrow> bool" where
  "VerifyAttestationPub S want i hnd sig =
     (if length sig \<noteq> 65 \<or> \<not> CPubKey_IsFullyValid S want then False
      else case CPubKey_RecoverCompact S (AttestDigest i hnd) sig of None \<Rightarrow> False
           | Some rec \<Rightarrow> rec = want)"

definition VerifyAttestation :: "'p secp256k1 \<Rightarrow> CChainParams \<Rightarrow> uint160 \<Rightarrow> string \<Rightarrow> bytes \<Rightarrow> bool" where
  "VerifyAttestation S p i hnd sig = VerifyAttestationPub S (AttestorPub p) i hnd sig"

definition ResetAttestations :: "attest_store \<Rightarrow> attest_store" where
  "ResetAttestations g = []"

definition StoreAttestation ::
  "'p secp256k1 \<Rightarrow> CChainParams \<Rightarrow> uint160 \<Rightarrow> string \<Rightarrow> bytes \<Rightarrow> attest_store \<Rightarrow> attest_store" where
  "StoreAttestation S p i hnd sig g =
     (case NormalizeXHandle hnd of Inl e \<Rightarrow> g
      | Inr norm \<Rightarrow>
          if \<not> VerifyAttestation S p i norm sig then g
          else map_put i \<lparr>row_handle = norm, row_sig = sig\<rparr> g)"

definition HasAttestation :: "uint160 \<Rightarrow> attest_store \<Rightarrow> bool" where
  "HasAttestation i g \<longleftrightarrow> map_of g i \<noteq> None"

definition GetAttestation :: "uint160 \<Rightarrow> attest_store \<Rightarrow> (string \<times> bytes) option" where
  "GetAttestation i g = (case map_of g i of None \<Rightarrow> None | Some r \<Rightarrow> Some (row_handle r, row_sig r))"

definition IsBakedSeed :: "'p secp256k1 \<Rightarrow> CChainParams \<Rightarrow> bool \<Rightarrow> CKey \<Rightarrow> bool" where
  "IsBakedSeed S p forceForTest attestorKey \<longleftrightarrow>
     forceForTest \<or>
     (let want = AttestorPub p
      in fValid attestorKey \<and> CPubKey_IsFullyValid S want \<and> CKey_GetPubKey S attestorKey = want)"

section \<open>The seed's signature on a block\<close>

definition SeedBlockDigest :: "int \<Rightarrow> uint256 \<Rightarrow> uint160 list \<Rightarrow> uint256" where
  "SeedBlockDigest nHeight prevBlockHash ids =
     sha256_parts ([bytes_of ''xcoin-xsd-v1'', prevBlockHash, WriteLE32 (of_int nHeight)] @ ids)"

definition op_return_script :: "bytes \<Rightarrow> CScript" where
  "op_return_script data = push_data (push_opcode [] OP_RETURN) data"

text \<open>The opening moves of every parser: an \<^verbatim>\<open>OP_RETURN\<close> script and the item pushed after it.\<close>

definition op_return_data :: "CScript \<Rightarrow> bytes option" where
  "op_return_data s =
     (if s = [] \<or> s ! 0 \<noteq> OP_RETURN then None
      else case GetOp2 (drop 1 s) of None \<Rightarrow> None | Some (opcode, data, pc) \<Rightarrow> Some data)"

definition MakeSeedBlockCommitment ::
  "'p secp256k1 \<Rightarrow> CKey \<Rightarrow> int \<Rightarrow> uint256 \<Rightarrow> uint160 list \<Rightarrow> CScript" where
  "MakeSeedBlockCommitment S attestorKey nHeight prevBlockHash ids =
     (case (if fValid attestorKey
            then CKey_SignCompact S attestorKey (SeedBlockDigest nHeight prevBlockHash ids) else None) of
        None \<Rightarrow> []
      | Some sig \<Rightarrow>
          if length sig \<noteq> 65 then [] else op_return_script (bytes_of ''XSD1'' @ sig))"

definition VerifySeedBlockSig ::
  "'p secp256k1 \<Rightarrow> CPubKey \<Rightarrow> int \<Rightarrow> uint256 \<Rightarrow> uint160 list \<Rightarrow> bytes \<Rightarrow> bool" where
  "VerifySeedBlockSig S pub nHeight prevBlockHash ids sig =
     (if length sig \<noteq> 65 \<or> \<not> CPubKey_IsFullyValid S pub then False
      else case CPubKey_RecoverCompact S (SeedBlockDigest nHeight prevBlockHash ids) sig of
             None \<Rightarrow> False
           | Some rec \<Rightarrow> rec = pub)"

definition CheckSeedBlockCommitment ::
  "'p secp256k1 \<Rightarrow> CChainParams \<Rightarrow> int \<Rightarrow> uint256 \<Rightarrow> uint160 list \<Rightarrow> CScript \<Rightarrow> bool" where
  "CheckSeedBlockCommitment S p nHeight prevBlockHash ids s =
     (case op_return_data s of None \<Rightarrow> False
      | Some data \<Rightarrow>
          if length data \<noteq> 4 + 65 then False
          else if take 4 data \<noteq> bytes_of ''XSD1'' then False
          else VerifySeedBlockSig S (AttestorPub p) nHeight prevBlockHash ids (drop 4 data))"

section \<open>Stamps of a block\<close>

definition xva_row_bytes :: "string \<Rightarrow> uint160 \<Rightarrow> bytes \<Rightarrow> bytes" where
  "xva_row_bytes hnd i sig = of_nat (length hnd) # bytes_of hnd @ i @ sig"

text \<open>The loop of \<^verbatim>\<open>MakeXvaCommitment\<close>: ids without a usable stamp are skipped.\<close>

fun xva_body :: "attest_store \<Rightarrow> uint160 list \<Rightarrow> nat \<times> bytes" where
  "xva_body g [] = (0, [])"
| "xva_body g (i # ids) =
     (let (n, body) = xva_body g ids
      in case GetAttestation i g of None \<Rightarrow> (n, body)
         | Some (hnd, sig) \<Rightarrow>
             if length sig \<noteq> 65 then (n, body)
             else if hnd = [] \<or> MAX_X_HANDLE < length hnd then (n, body)
             else (n + 1, xva_row_bytes hnd i sig @ body))"

definition MakeXvaCommitment :: "attest_store \<Rightarrow> uint160 list \<Rightarrow> CScript" where
  "MakeXvaCommitment g sortedIds =
     (let (n, body) = xva_body g sortedIds
      in op_return_script (bytes_of ''XVA1'' @ WriteLE32 (of_nat n) @ body))"

text \<open>One row at the read position: handle, id, signature and the rest.\<close>

definition xva_row :: "bytes \<Rightarrow> (string \<times> uint160 \<times> bytes \<times> bytes) option" where
  "xva_row data =
     (if data = [] then None
      else let hlen = unat (hd data); rest = tl data
           in if hlen < 1 \<or> MAX_X_HANDLE < hlen \<or> length rest < hlen + 20 + 65 then None
              else Some (string_of (take hlen rest), take 20 (drop hlen rest),
                         take 65 (drop (hlen + 20) rest), drop (hlen + 85) rest))"

definition xva_header :: "CScript \<Rightarrow> (u32 \<times> bytes) option" where
  "xva_header s =
     (case op_return_data s of None \<Rightarrow> None
      | Some data \<Rightarrow>
          if length data < 8 then None
          else if take 4 data \<noteq> bytes_of ''XVA1'' then None
          else Some (ReadLE32 (drop 4 data), drop 8 data))"

fun xva_parse_rows :: "nat \<Rightarrow> bytes \<Rightarrow> (uint160 \<times> bytes) list option" where
  "xva_parse_rows 0 data = (if data = [] then Some [] else None)"
| "xva_parse_rows (Suc n) data =
     (case xva_row data of None \<Rightarrow> None
      | Some (hnd, i, sig, rest) \<Rightarrow>
          (case xva_parse_rows n rest of None \<Rightarrow> None | Some rows \<Rightarrow> Some ((i, sig) # rows)))"

definition ParseXvaCommitment :: "CScript \<Rightarrow> (uint160 list \<times> bytes list) option" where
  "ParseXvaCommitment s =
     (case xva_header s of None \<Rightarrow> None
      | Some (n, body) \<Rightarrow>
          if 1024 < n then None
          else (case xva_parse_rows (unat n) body of None \<Rightarrow> None
                | Some rows \<Rightarrow> Some (map fst rows, map snd rows)))"

fun xva_check_rows :: "'p secp256k1 \<Rightarrow> CChainParams \<Rightarrow> uint160 list \<Rightarrow> bytes \<Rightarrow> bool" where
  "xva_check_rows S p [] data \<longleftrightarrow> data = []"
| "xva_check_rows S p (want # ids) data =
     (case xva_row data of None \<Rightarrow> False
      | Some (hnd, i, sig, rest) \<Rightarrow>
          if i \<noteq> want then False
          else if \<not> VerifyAttestation S p i hnd sig then False
          else xva_check_rows S p ids rest)"

definition CheckXvaForIds :: "'p secp256k1 \<Rightarrow> CChainParams \<Rightarrow> uint160 list \<Rightarrow> CScript \<Rightarrow> bool" where
  "CheckXvaForIds S p ids s =
     (case xva_header s of None \<Rightarrow> False
      | Some (n, body) \<Rightarrow>
          if unat n \<noteq> length ids \<or> 1024 < n then False
          else xva_check_rows S p ids body)"

fun xva_cache_rows :: "'p secp256k1 \<Rightarrow> CChainParams \<Rightarrow> nat \<Rightarrow> bytes \<Rightarrow> attest_store \<Rightarrow> attest_store" where
  "xva_cache_rows S p 0 data g = g"
| "xva_cache_rows S p (Suc n) data g =
     (case xva_row data of None \<Rightarrow> g
      | Some (hnd, i, sig, rest) \<Rightarrow> xva_cache_rows S p n rest (StoreAttestation S p i hnd sig g))"

definition CacheStampsFromXva :: "'p secp256k1 \<Rightarrow> CChainParams \<Rightarrow> CScript \<Rightarrow> attest_store \<Rightarrow> attest_store" where
  "CacheStampsFromXva S p s g =
     (case xva_header s of None \<Rightarrow> g
      | Some (n, body) \<Rightarrow> if 1024 < n then g else xva_cache_rows S p (unat n) body g)"

section \<open>Signed heartbeats\<close>

abbreviation "MAX_HEARTBEAT_SIG \<equiv> (65 :: nat)"

definition HeartbeatDigest :: "int \<Rightarrow> CScript \<Rightarrow> string \<Rightarrow> u64 \<Rightarrow> bool \<Rightarrow> uint256" where
  "HeartbeatDigest timestamp s hnd uid xVerified =
     sha256_parts [bytes_of ''xcoin-xhb-v2'', WriteLE64 (of_int timestamp), s, bytes_of hnd,
       WriteLE64 uid, [if xVerified then 1 else 0]]"

definition SignHeartbeat ::
  "'p secp256k1 \<Rightarrow> CKey \<Rightarrow> int \<Rightarrow> CScript \<Rightarrow> string \<Rightarrow> u64 \<Rightarrow> bool \<Rightarrow> bytes option" where
  "SignHeartbeat S key timestamp s hnd uid xVerified =
     (if \<not> fValid key then None
      else CKey_SignCompact S key (HeartbeatDigest timestamp s hnd uid xVerified))"

definition VerifyHeartbeatSig ::
  "'p secp256k1 \<Rightarrow> CScript \<Rightarrow> int \<Rightarrow> string \<Rightarrow> u64 \<Rightarrow> bytes \<Rightarrow> bool \<Rightarrow> bool" where
  "VerifyHeartbeatSig S s timestamp hnd uid sig xVerified =
     (if sig = [] \<or> MAX_HEARTBEAT_SIG < length sig then False
      else if s = [] \<or> MAX_HEARTBEAT_SCRIPT < length s then False
      else case NormalizeXHandle hnd of Inl e \<Rightarrow> False
      | Inr norm \<Rightarrow>
          (case ExtractDestination s of
             Some (CKeyID keyID) \<Rightarrow>
               (case CPubKey_RecoverCompact S (HeartbeatDigest timestamp s norm uid xVerified) sig of
                  None \<Rightarrow> False
                | Some pub \<Rightarrow> CPubKey_GetID pub = keyID)
           | _ \<Rightarrow> False))"

section \<open>Pushed data comes back\<close>

lemma op_return_round:
  assumes "length data < 2 ^ 32"
  shows "op_return_data (op_return_script data) = Some data"
proof -
  obtain opcode where "GetOp2 (push_header (length data) @ data @ []) = Some (opcode, data, [])"
    using GetOp2_push_data [OF assms, of "[]"] by blast
  then show ?thesis
    by (simp add: op_return_data_def op_return_script_def push_data_def push_opcode_def)
qed

lemma op_return_script_hd [simp]: "op_return_script data \<noteq> []" "op_return_script data ! 0 = OP_RETURN"
  by (simp_all add: op_return_script_def push_data_def push_opcode_def)

section \<open>What is signed verifies\<close>

lemma stamp_verifies:
  assumes "secp_ok S" "CKey_ok S k" "SignAttestation S k i hnd = Some sig"
  shows "VerifyAttestationPub S (CKey_GetPubKey S k) i hnd sig \<and> length sig = 65"
proof -
  have "CKey_SignCompact S k (AttestDigest i hnd) = Some sig"
    using assms(3) by (simp add: SignAttestation_def split: if_splits)
  from SignCompact_RecoverCompact [OF assms(1,2) this] CKey_GetPubKey_valid [OF assms(1), of k] show ?thesis
    by (simp add: VerifyAttestationPub_def)
qed

lemma seed_block_round:
  assumes "secp_ok S" "CKey_ok S k" "fValid k" "AttestorPub p = CKey_GetPubKey S k"
  shows "CheckSeedBlockCommitment S p h prev ids (MakeSeedBlockCommitment S k h prev ids)"
    and "\<exists>sig. length sig = 65 \<and> MakeSeedBlockCommitment S k h prev ids = op_return_script (bytes_of ''XSD1'' @ sig)"
proof -
  obtain sig where sig: "CKey_SignCompact S k (SeedBlockDigest h prev ids) = Some sig"
    using SignCompact_Some [of S k] assms(3) by auto
  note rec = SignCompact_RecoverCompact [OF assms(1,2) sig]
  have mk: "MakeSeedBlockCommitment S k h prev ids = op_return_script (bytes_of ''XSD1'' @ sig)"
    using assms(3) sig rec by (simp add: MakeSeedBlockCommitment_def)
  then show "\<exists>sig. length sig = 65 \<and> MakeSeedBlockCommitment S k h prev ids = op_return_script (bytes_of ''XSD1'' @ sig)"
    using rec by blast
  have "op_return_data (op_return_script (bytes_of ''XSD1'' @ sig)) = Some (bytes_of ''XSD1'' @ sig)"
    using rec by (intro op_return_round) simp
  with mk rec CKey_GetPubKey_valid [OF assms(1), of k] assms(4)
  show "CheckSeedBlockCommitment S p h prev ids (MakeSeedBlockCommitment S k h prev ids)"
    by (simp add: CheckSeedBlockCommitment_def VerifySeedBlockSig_def)
qed

text \<open>The stamp store holds only stamps that verify under a normalised handle.\<close>

definition store_ok :: "'p secp256k1 \<Rightarrow> CChainParams \<Rightarrow> attest_store \<Rightarrow> bool" where
  "store_ok S p g \<longleftrightarrow> map_ok g \<and>
     (\<forall>i r. map_of g i = Some r \<longrightarrow>
        valid_handle (row_handle r) \<and> VerifyAttestation S p i (row_handle r) (row_sig r))"

lemma store_ok_empty: "store_ok S p []"
  by (simp add: store_ok_def)

lemma store_ok_Store:
  "store_ok S p g \<Longrightarrow> store_ok S p (StoreAttestation S p i hnd sig g)"
  by (auto simp: store_ok_def StoreAttestation_def map_laws map_of_put dest: NormalizeXHandle_valid
      split: sum.splits if_splits)

lemma store_ok_cache_rows: "store_ok S p g \<Longrightarrow> store_ok S p (xva_cache_rows S p n data g)"
  by (induction S p n data g rule: xva_cache_rows.induct)
    (auto simp: store_ok_Store split: option.splits)

lemma store_ok_Cache: "store_ok S p g \<Longrightarrow> store_ok S p (CacheStampsFromXva S p s g)"
  by (simp add: CacheStampsFromXva_def store_ok_cache_rows split: option.split)

lemma Verify_length: "VerifyAttestation S p i h sig \<Longrightarrow> length sig = 65"
  by (simp add: VerifyAttestation_def VerifyAttestationPub_def split: if_splits)

lemma store_ok_row:
  assumes "store_ok S p g" "HasAttestation i g"
  obtains hnd sig where "GetAttestation i g = Some (hnd, sig)" "length sig = 65" "hnd \<noteq> []"
    "length hnd \<le> MAX_X_HANDLE" "VerifyAttestation S p i hnd sig"
proof -
  obtain r where r: "map_of g i = Some r" using assms(2) by (auto simp: HasAttestation_def)
  with assms(1) have "valid_handle (row_handle r)" "VerifyAttestation S p i (row_handle r) (row_sig r)"
    by (auto simp: store_ok_def)
  with that r Verify_length [OF this(2)] show thesis
    by (auto simp: GetAttestation_def valid_handle_def)
qed

section \<open>The stamps a producer commits pass the check\<close>

lemma xva_row_round:
  assumes "hnd \<noteq> []" "length hnd \<le> MAX_X_HANDLE" "length i = 20" "length sig = 65"
  shows "xva_row (xva_row_bytes hnd i sig @ rest) = Some (hnd, i, sig, rest)"
proof -
  have "unat (of_nat (length hnd) :: u8) = length hnd"
    using assms(2) by (simp add: unat_of_nat)
  then show ?thesis
    using assms by (simp add: xva_row_def xva_row_bytes_def Let_def Suc_le_eq)
qed

lemma xva_body_round:
  assumes "store_ok S p g" "\<forall>i \<in> set ids. HasAttestation i g \<and> length i = 20"
  shows "fst (xva_body g ids) = length ids \<and> xva_check_rows S p ids (snd (xva_body g ids)) \<and>
    length (snd (xva_body g ids)) \<le> 118 * length ids \<and>
    (\<exists>rows. xva_parse_rows (length ids) (snd (xva_body g ids)) = Some rows)"
  using assms(2)
proof (induction ids)
  case (Cons i ids)
  then have hi: "HasAttestation i g" "length i = 20" by auto
  obtain hnd sig where r: "GetAttestation i g = Some (hnd, sig)" "length sig = 65" "hnd \<noteq> []"
      "length hnd \<le> MAX_X_HANDLE" "VerifyAttestation S p i hnd sig"
    by (rule store_ok_row [OF assms(1) hi(1)])
  obtain n body where b: "xva_body g ids = (n, body)" by fastforce
  have "xva_body g (i # ids) = (n + 1, xva_row_bytes hnd i sig @ body)"
    using r b by simp
  moreover have "length (xva_row_bytes hnd i sig) \<le> 118"
    using r hi by (simp add: xva_row_bytes_def)
  ultimately show ?case
    using Cons b r hi by (auto simp: xva_row_round)
qed simp

lemma xva_round:
  assumes "store_ok S p g" "\<forall>i \<in> set ids. HasAttestation i g \<and> length i = 20" "length ids \<le> 1024"
  shows "CheckXvaForIds S p ids (MakeXvaCommitment g ids)"
    and "ParseXvaCommitment (MakeXvaCommitment g ids) \<noteq> None"
    and "\<exists>data. MakeXvaCommitment g ids = op_return_script (bytes_of ''XVA1'' @ data) \<and>
      length data \<le> 4 + 118 * length ids"
proof -
  obtain n body where b: "xva_body g ids = (n, body)" by fastforce
  have body: "n = length ids" "xva_check_rows S p ids body" "length body \<le> 118 * length ids"
    "\<exists>rows. xva_parse_rows (length ids) body = Some rows"
    using xva_body_round [OF assms(1,2)] b by auto
  let ?data = "bytes_of ''XVA1'' @ WriteLE32 (of_nat n) @ body"
  have mk: "MakeXvaCommitment g ids = op_return_script ?data"
    by (simp add: MakeXvaCommitment_def b)
  have "op_return_data (op_return_script ?data) = Some ?data"
    using body(1,3) assms(3) by (intro op_return_round) simp
  then have hd: "xva_header (MakeXvaCommitment g ids) = Some (of_nat n, body)"
    unfolding mk xva_header_def by (simp add: bytes_of_def)
  have n: "unat (of_nat n :: u32) = length ids" "\<not> 1024 < (of_nat n :: u32)"
    using assms(3) body(1) by (simp_all add: unat_of_nat word_less_nat_alt)
  from hd n body show "CheckXvaForIds S p ids (MakeXvaCommitment g ids)"
    by (simp add: CheckXvaForIds_def)
  from hd n body show "ParseXvaCommitment (MakeXvaCommitment g ids) \<noteq> None"
    by (auto simp: ParseXvaCommitment_def)
  from mk body(1,3) show "\<exists>data. MakeXvaCommitment g ids = op_return_script (bytes_of ''XVA1'' @ data) \<and>
      length data \<le> 4 + 118 * length ids"
    by (intro exI [of _ "WriteLE32 (of_nat n) @ body"]) simp
qed

section \<open>Properties\<close>

definition demo_key :: CKey where
  "demo_key = CKey_Set secp_demo (replicate 32 7) True CKey_init"

lemma demo_key_ok: "CKey_ok secp_demo demo_key" "fValid demo_key"
  by (simp_all add: CKey_ok_def demo_key_def CKey_Set_def CKey_init_def secp_demo_def)

abbreviation key_script :: "'p secp256k1 \<Rightarrow> CKey \<Rightarrow> CScript" where
  "key_script S k \<equiv> GetScriptForDestination (CKeyID (CPubKey_GetID (CKey_GetPubKey S k)))"

lemma key_script_facts:
  "ExtractDestination (key_script S k) = Some (CKeyID (CPubKey_GetID (CKey_GetPubKey S k)))"
  "key_script S k \<noteq> []" "length (key_script S k) = 25"
proof -
  have l: "length (CPubKey_GetID (CKey_GetPubKey S k)) = 20" by (simp add: CPubKey_GetID_def)
  show "ExtractDestination (key_script S k) = Some (CKeyID (CPubKey_GetID (CKey_GetPubKey S k)))"
    by (rule ExtractDestination_P2PKH [OF l])
  show "key_script S k \<noteq> []" "length (key_script S k) = 25" using l by (simp_all add: P2PKH_bytes)
qed

lemma SignHeartbeat_verifies:
  assumes "secp_ok S" "CKey_ok S key" "NormalizeXHandle hnd = Inr norm"
    and "SignHeartbeat S key t (key_script S key) norm uid ver = Some sig"
  shows "VerifyHeartbeatSig S (key_script S key) t hnd uid sig ver"
proof -
  have "CKey_SignCompact S key (HeartbeatDigest t (key_script S key) norm uid ver) = Some sig"
    using assms(4) by (simp add: SignHeartbeat_def split: if_splits)
  note rec = SignCompact_RecoverCompact [OF assms(1,2) this]
  then have "sig \<noteq> []" by auto
  with rec assms(3) show ?thesis
    by (simp add: VerifyHeartbeatSig_def key_script_facts)
qed

text \<open>
  C27. Signed heartbeats: a heartbeat signed by a key for the pay-to-pubkey-hash script of that
  key passes \<^verbatim>\<open>VerifyHeartbeatSig\<close> under every spelling of the handle that normalises to the
  signed one.
\<close>

theorem heartbeat_signature_verifies:
  assumes "secp_ok S" "CKey_ok S key" "NormalizeXHandle hnd = Inr norm"
    and "SignHeartbeat S key t (key_script S key) norm uid ver = Some sig"
  shows "VerifyHeartbeatSig S (key_script S key) t hnd uid sig ver"
  by (rule SignHeartbeat_verifies [OF assms])

theorem heartbeat_signature_verifies_witness:
  "\<exists>sig. SignHeartbeat secp_demo demo_key 1000 (key_script secp_demo demo_key) ''alice'' 0 True = Some sig \<and>
     VerifyHeartbeatSig secp_demo (key_script secp_demo demo_key) 1000 ''@Alice'' 0 sig True"
proof -
  obtain sig where "SignHeartbeat secp_demo demo_key 1000 (key_script secp_demo demo_key) ''alice'' 0 True = Some sig"
    using SignCompact_Some [of secp_demo demo_key] demo_key_ok(2) by (auto simp: SignHeartbeat_def)
  with heartbeat_signature_verifies [OF secp_demo_ok demo_key_ok(1) ex_handles(3), of 1000 0 True] show ?thesis
    by blast
qed

text \<open>
  C26. Stamps: whatever sequence of stamps is offered to the store, from the lookup or from the
  coinbase of a block, every stamp it holds verifies against the attestor key of the network,
  for the id it is filed under.
\<close>

theorem stored_stamps_verify:
  assumes "map_of (fold (\<lambda>(i, hnd, sig). StoreAttestation S p i hnd sig) offers
      (CacheStampsFromXva S p s [])) i = Some r"
  shows "VerifyAttestation S p i (row_handle r) (row_sig r) \<and> valid_handle (row_handle r)"
proof -
  have "store_ok S p (fold (\<lambda>(i, hnd, sig). StoreAttestation S p i hnd sig) offers g)"
    if "store_ok S p g" for g
    using that by (induction offers arbitrary: g) (auto simp: store_ok_Store)
  from this [OF store_ok_Cache [OF store_ok_empty]] assms show ?thesis
    by (auto simp: store_ok_def)
qed

definition demo_params :: CChainParams where
  "demo_params = \<lparr>MineBlocksOnDemand = False, XAttestorPub = CKey_GetPubKey secp_demo demo_key,
     GenesisTime = 1000, nSubsidyHalvingInterval = 2100000, NetworkIsMain = True\<rparr>"

lemma demo_attestor: "AttestorPub demo_params = CKey_GetPubKey secp_demo demo_key"
  "RequireXAttestation demo_params"
proof -
  note pub = CPubKey_Set_serialize [OF secp_demo_ok, of "fCompressed demo_key" "pubkey_create secp_demo (keydata demo_key)"]
  then show "AttestorPub demo_params = CKey_GetPubKey secp_demo demo_key" "RequireXAttestation demo_params"
    by (simp_all add: AttestorPub_def demo_params_def CKey_GetPubKey_def RequireXAttestation_def)
qed

lemma demo_stamp:
  obtains sig where "SignAttestation secp_demo demo_key i hnd = Some sig"
    "VerifyAttestation secp_demo demo_params i hnd sig"
proof -
  obtain sig where "SignAttestation secp_demo demo_key i hnd = Some sig"
    using SignCompact_Some [of secp_demo demo_key] demo_key_ok(2) by (auto simp: SignAttestation_def)
  then show thesis
    using that stamp_verifies [OF secp_demo_ok demo_key_ok(1)] by (simp add: VerifyAttestation_def demo_attestor)
qed

theorem stored_stamps_verify_witness:
  "\<exists>sig r. map_of (StoreAttestation secp_demo demo_params id_one ''alice'' sig []) id_one = Some r \<and>
     VerifyAttestation secp_demo demo_params id_one (row_handle r) (row_sig r)"
proof -
  obtain sig where "VerifyAttestation secp_demo demo_params id_one ''alice'' sig"
    using demo_stamp [of id_one "''alice''"] by blast
  then have r: "map_of (StoreAttestation secp_demo demo_params id_one ''alice'' sig []) id_one =
      Some \<lparr>row_handle = ''alice'', row_sig = sig\<rparr>"
    by (simp add: StoreAttestation_def ex_handles)
  moreover have "VerifyAttestation secp_demo demo_params id_one (row_handle \<lparr>row_handle = ''alice'', row_sig = sig\<rparr>)
      (row_sig \<lparr>row_handle = ''alice'', row_sig = sig\<rparr>)"
    using stored_stamps_verify [of secp_demo demo_params "[(id_one, ''alice'', sig)]" "[]" id_one, THEN conjunct1] r
    by (simp add: CacheStampsFromXva_def xva_header_def op_return_data_def)
  ultimately show ?thesis by blast
qed

section \<open>Where the code departs from its comments\<close>

text \<open>
  The digest of a heartbeat runs script and handle together without a separator, so bytes can
  move from one to the other. For a payout script that is an asset script, a signature for
  \<^verbatim>\<open>(script, prefix + handle)\<close> also verifies for the longer script and the shorter handle: one
  signature registers another payout id under another handle. Such scripts are accepted at
  all, although \<^verbatim>\<open>VerifyHeartbeatSig\<close> is documented for pay-to-pubkey-hash scripts only.
\<close>

lemma heartbeat_digest_ambiguous:
  "HeartbeatDigest t (s @ bytes_of a) h uid ver = HeartbeatDigest t s (a @ h) uid ver"
  by (simp add: HeartbeatDigest_def sha256_parts_fips bytes_of_def)

lemma IsAssetScript_append:
  assumes "39 < length s"
  shows "IsAssetScript (s @ x) = IsAssetScript s"
proof -
  have n: "(s @ x) ! k = s ! k" if "k < 40" for k using that assms by (simp add: nth_append)
  have "asset_index (s @ x) = asset_index s" by (simp add: asset_index_def n)
  moreover have "asset_index s = Some k \<Longrightarrow> k < 40" for k
    by (auto simp: asset_index_def split: if_splits)
  ultimately show ?thesis
    using assms by (auto simp: IsAssetScript_def n split: option.splits)
qed

lemma asset_destination:
  assumes "39 < length s" "IsAssetScript s = Some (ty, own, st)"
  shows "ExtractDestination s = Some (CKeyID (take 20 (drop 3 s)))"
  using assms by (auto simp: ExtractDestination_def Solver_def IsPayToScriptHash_def)

lemma heartbeat_signature_moves_bytes:
  assumes "39 < length s" "IsAssetScript s = Some a" "length s + length h0 \<le> MAX_HEARTBEAT_SCRIPT"
    and "valid_handle h" "valid_handle (h0 @ h)"
    and "VerifyHeartbeatSig S s t (h0 @ h) uid sig ver"
  shows "VerifyHeartbeatSig S (s @ bytes_of h0) t h uid sig ver"
proof -
  obtain ty own st where a: "IsAssetScript s = Some (ty, own, st)" using assms(2) by (cases a) auto
  have "IsAssetScript (s @ bytes_of h0) = Some (ty, own, st)"
    using a assms(1) by (simp add: IsAssetScript_append)
  then have "ExtractDestination (s @ bytes_of h0) = Some (CKeyID (take 20 (drop 3 s)))"
    using asset_destination [of "s @ bytes_of h0"] assms(1) by simp
  with asset_destination [OF assms(1) a] assms show ?thesis
    by (auto simp: VerifyHeartbeatSig_def NormalizeXHandle_fixed heartbeat_digest_ambiguous split: if_splits)
qed

end
