(* ===== verification/XC_Draw.thy ===== *)
theory XC_Draw
  imports XC_SHA256 XC_Slot
begin

text \<open>
  The draw of \<^verbatim>\<open>src/src/lottery.cpp\<close>: the seed, the random stream read from it, the selection
  of winners by a partial in-place shuffle, and the split of the reward. The shuffle is
  proved to be the functional shuffle \<open>fy\<close>, whose map from residues to winner lists is a
  bijection: up to the reduction of a 64-bit word modulo the pool size no winner list is
  favoured.
\<close>

section \<open>Seed and stream\<close>

definition Seed :: "uint256 \<Rightarrow> int \<Rightarrow> uint256" where
  "Seed prevBlockHash slot = sha256_parts [prevBlockHash, WriteLE64 (of_int slot)]"

definition StreamU64 :: "uint256 \<Rightarrow> u32 \<Rightarrow> u64" where
  "StreamU64 seed counter = ReadLE64 (sha256_parts [seed, WriteLE32 counter])"

section \<open>Selecting winners\<close>

definition swap_at :: "nat \<Rightarrow> nat \<Rightarrow> 'a list \<Rightarrow> 'a list" where
  "swap_at i j xs = xs[i := xs ! j, j := xs ! i]"

definition select_step :: "(nat \<Rightarrow> u64) \<Rightarrow> 'a list \<times> 'a list \<Rightarrow> nat \<Rightarrow> 'a list \<times> 'a list" where
  "select_step rnd st i =
     (let (pool, winners) = st;
          remaining = length pool - i;
          idx = unat (rnd i) mod remaining + i;
          pool = swap_at i idx pool
      in (pool, winners @ [pool ! i]))"

definition SelectWinners :: "uint160 list \<Rightarrow> uint256 \<Rightarrow> int \<Rightarrow> uint160 list" where
  "SelectWinners sortedActive seed k =
     (if sortedActive = [] \<or> k \<le> 0 then []
      else if int (length sortedActive) \<le> k then sortedActive
      else snd (foldl (select_step (\<lambda>i. StreamU64 seed (of_nat i))) (sortedActive, []) [0..<nat k]))"

definition IsWinner :: "uint160 \<Rightarrow> uint160 list \<Rightarrow> bool" where
  "IsWinner wid winners \<longleftrightarrow> wid \<in> set winners"

definition SplitReward :: "CAmount \<Rightarrow> int \<Rightarrow> CAmount list" where
  "SplitReward amount winners =
     (if winners \<le> 0 \<or> amount \<le> 0 then []
      else foldl (\<lambda>parts i. parts[i := parts ! i + 1])
             (replicate (nat winners) (amount div winners)) [0..<nat (amount mod winners)])"

section \<open>The shuffle as a function of residues\<close>

fun fy :: "'a list \<Rightarrow> nat list \<Rightarrow> 'a list" where
  "fy pool [] = []"
| "fy pool (r # rs) = pool ! r # fy (tl (swap_at 0 r pool)) rs"

lemma length_swap_at [simp]: "length (swap_at i j xs) = length xs"
  by (simp add: swap_at_def)

lemma length_fy [simp]: "length (fy pool rs) = length rs"
  by (induction pool rs rule: fy.induct) simp_all

lemma mset_swap_at: "i < length xs \<Longrightarrow> j < length xs \<Longrightarrow> mset (swap_at i j xs) = mset xs"
  by (simp add: swap_at_def mset_swap)

lemma drop_swap_at:
  assumes "i + r < length pool"
  shows "drop i (swap_at i (i + r) pool) = swap_at 0 r (drop i pool)"
  using assms by (simp add: swap_at_def drop_update_swap)

lemma swap_at_hd: "r < length xs \<Longrightarrow> swap_at 0 r xs = xs ! r # tl (swap_at 0 r xs)"
  by (cases xs) (auto simp: swap_at_def nth_list_update intro!: nth_equalityI split: nat.splits)

lemma select_loop_fy:
  assumes "i \<le> k" "k \<le> length pool"
  shows "snd (foldl (select_step rnd) (pool, ws) [i..<k]) =
    ws @ fy (drop i pool) (map (\<lambda>j. unat (rnd j) mod (length pool - j)) [i..<k])"
  using assms
proof (induction "k - i" arbitrary: i pool ws)
  case 0
  then show ?case by simp
next
  case (Suc d)
  let ?r = "unat (rnd i) mod (length pool - i)"
  let ?p = "swap_at i (i + ?r) pool"
  have i: "i < k" "d = k - Suc i" using Suc.hyps(2) by auto
  have r: "i + ?r < length pool"
    using i(1) Suc.prems(2) by (metis add.commute less_diff_conv mod_less_divisor order.strict_trans2 zero_less_diff)
  have step: "select_step rnd (pool, ws) i = (?p, ws @ [pool ! (i + ?r)])"
    using r by (simp add: select_step_def Let_def add.commute swap_at_def nth_list_update)
  have up: "[i..<k] = i # [Suc i..<k]" using i(1) by (simp add: upt_rec)
  have "snd (foldl (select_step rnd) (?p, ws @ [pool ! (i + ?r)]) [Suc i..<k]) =
      (ws @ [pool ! (i + ?r)]) @ fy (drop (Suc i) ?p) (map (\<lambda>j. unat (rnd j) mod (length pool - j)) [Suc i..<k])"
    using Suc.hyps(1) [of "Suc i" ?p] i Suc.prems by simp
  moreover have "drop (Suc i) ?p = tl (swap_at 0 ?r (drop i pool))"
    using drop_swap_at [OF r] by (metis drop_Suc tl_drop)
  ultimately show ?case
    using r by (simp add: up step)
qed

text \<open>Residue lists the loop can produce, and the winner lists they can reach.\<close>

definition residues :: "nat \<Rightarrow> nat \<Rightarrow> nat list set" where
  "residues n k = {rs. length rs = k \<and> (\<forall>i < k. rs ! i < n - i)}"

definition arrangements :: "'a list \<Rightarrow> nat \<Rightarrow> 'a list set" where
  "arrangements pool k = {ws. length ws = k \<and> distinct ws \<and> set ws \<subseteq> set pool}"

lemma tl_swap_at:
  assumes "distinct pool" "r < length pool"
  shows "distinct (tl (swap_at 0 r pool))" "set (tl (swap_at 0 r pool)) = set pool - {pool ! r}"
    "length (tl (swap_at 0 r pool)) = length pool - 1"
proof -
  have m: "mset (swap_at 0 r pool) = mset pool"
    using assms by (intro mset_swap_at) auto
  have d: "distinct (swap_at 0 r pool)" and s: "set (swap_at 0 r pool) = set pool"
    using m assms(1) by (metis mset_eq_imp_distinct_iff, metis mset_eq_setD)
  from d s swap_at_hd [OF assms(2)] show "distinct (tl (swap_at 0 r pool))"
    "set (tl (swap_at 0 r pool)) = set pool - {pool ! r}"
    by (metis distinct.simps(2), metis Diff_insert_absorb distinct.simps(2) list.simps(15))
qed simp

lemma residues_Cons:
  "r # rs \<in> residues n (Suc k) \<longleftrightarrow> r < n \<and> rs \<in> residues (n - 1) k"
proof -
  have "(\<forall>i < Suc k. (r # rs) ! i < n - i) \<longleftrightarrow> r < n \<and> (\<forall>i < k. rs ! i < n - 1 - i)"
    by (simp add: All_less_Suc2)
  then show ?thesis by (auto simp: residues_def)
qed

lemma arrangements_Cons:
  "w # ws \<in> arrangements pool (Suc k) \<longleftrightarrow>
     w \<in> set pool \<and> ws \<in> {vs. length vs = k \<and> distinct vs \<and> set vs \<subseteq> set pool - {w}}"
  by (auto simp: arrangements_def)

lemma arrangements_tl:
  assumes "distinct pool" "r < length pool"
  shows "{vs. length vs = k \<and> distinct vs \<and> set vs \<subseteq> set pool - {pool ! r}} =
    arrangements (tl (swap_at 0 r pool)) k"
  by (simp add: arrangements_def tl_swap_at(2) [OF assms])

lemma fy_bij:
  assumes "distinct pool" "k \<le> length pool"
  shows "bij_betw (fy pool) (residues (length pool) k) (arrangements pool k)"
  using assms
proof (induction k arbitrary: pool)
  case 0
  then show ?case by (auto simp: bij_betw_def residues_def arrangements_def)
next
  case (Suc k)
  have IH: "bij_betw (fy (tl (swap_at 0 r pool))) (residues (length pool - 1) k)
      (arrangements (tl (swap_at 0 r pool)) k)" if "r < length pool" for r
    using Suc.IH [of "tl (swap_at 0 r pool)"] tl_swap_at [OF Suc.prems(1) that] Suc.prems(2) by simp
  have res: "\<exists>r rs'. rs = r # rs' \<and> r < length pool \<and> rs' \<in> residues (length pool - 1) k"
    if "rs \<in> residues (length pool) (Suc k)" for rs
  proof (cases rs)
    case Nil
    with that show ?thesis by (simp add: residues_def)
  next
    case (Cons r rs')
    with that show ?thesis by (simp add: residues_Cons)
  qed
  show ?case
  proof (rule bij_betw_imageI)
    show "inj_on (fy pool) (residues (length pool) (Suc k))"
    proof (rule inj_onI)
      fix rs rs'
      assume "rs \<in> residues (length pool) (Suc k)" "rs' \<in> residues (length pool) (Suc k)"
        and eq: "fy pool rs = fy pool rs'"
      then obtain r ss r' ss' where s: "rs = r # ss" "r < length pool" "ss \<in> residues (length pool - 1) k"
        "rs' = r' # ss'" "r' < length pool" "ss' \<in> residues (length pool - 1) k"
        using res by meson
      with eq have "pool ! r = pool ! r'" by simp
      with s Suc.prems(1) have "r = r'" by (simp add: nth_eq_iff_index_eq)
      moreover have "ss = ss'"
        using eq s \<open>r = r'\<close> IH [OF s(2)] by (auto simp: bij_betw_def dest: inj_onD)
      ultimately show "rs = rs'" using s by simp
    qed
    show "fy pool ` residues (length pool) (Suc k) = arrangements pool (Suc k)"
    proof (intro equalityI subsetI)
      fix ws assume "ws \<in> fy pool ` residues (length pool) (Suc k)"
      then obtain r ss where s: "ws = fy pool (r # ss)" "r < length pool" "ss \<in> residues (length pool - 1) k"
        using res by blast
      have "fy (tl (swap_at 0 r pool)) ss \<in> arrangements (tl (swap_at 0 r pool)) k"
        using IH [OF s(2)] s(3) by (auto simp: bij_betw_def)
      with s show "ws \<in> arrangements pool (Suc k)"
        by (simp add: arrangements_Cons arrangements_tl [OF Suc.prems(1) s(2)])
    next
      fix ws assume ws: "ws \<in> arrangements pool (Suc k)"
      then obtain w vs where v: "ws = w # vs" by (auto simp: arrangements_def length_Suc_conv)
      then obtain r where r: "r < length pool" "w = pool ! r"
        using ws by (metis arrangements_Cons in_set_conv_nth)
      then have "vs \<in> arrangements (tl (swap_at 0 r pool)) k"
        using ws unfolding v arrangements_Cons r(2) arrangements_tl [OF Suc.prems(1) r(1)] by blast
      then obtain ss where "ss \<in> residues (length pool - 1) k" "vs = fy (tl (swap_at 0 r pool)) ss"
        using IH [OF r(1)] by (auto simp: bij_betw_def)
      with r v show "ws \<in> fy pool ` residues (length pool) (Suc k)"
        by (intro image_eqI [of _ _ "r # ss"]) (auto simp: residues_Cons)
    qed
  qed
qed

section \<open>What SelectWinners returns\<close>

definition draw_residues :: "uint256 \<Rightarrow> nat \<Rightarrow> nat \<Rightarrow> nat list" where
  "draw_residues seed n k = map (\<lambda>j. unat (StreamU64 seed (of_nat j)) mod (n - j)) [0..<k]"

lemma draw_residues_in: "k \<le> n \<Longrightarrow> draw_residues seed n k \<in> residues n k"
  by (simp add: residues_def draw_residues_def)

lemma SelectWinners_fy:
  assumes "0 < k" "k < int (length pool)"
  shows "SelectWinners pool seed k = fy pool (draw_residues seed (length pool) (nat k))"
proof -
  have "\<not> int (length pool) \<le> k" "pool \<noteq> []" "nat k \<le> length pool" using assms by auto
  then show ?thesis
    using assms select_loop_fy [of 0 "nat k" pool "\<lambda>i. StreamU64 seed (of_nat i)" "[]"]
    by (simp add: SelectWinners_def draw_residues_def)
qed

lemma SelectWinners_arrangement:
  assumes "distinct pool"
  shows "SelectWinners pool seed k \<in> arrangements pool (min (nat k) (length pool))"
proof (cases "0 < k \<and> k < int (length pool)")
  case True
  then have "nat k \<le> length pool" by linarith
  with fy_bij [OF assms this] draw_residues_in [OF this, of seed] True show ?thesis
    by (auto simp: SelectWinners_fy bij_betw_def)
next
  case False
  then show ?thesis
    using assms by (auto simp: SelectWinners_def arrangements_def min_def)
qed

lemma SelectWinners_facts:
  assumes "distinct pool"
  shows "length (SelectWinners pool seed k) = min (nat k) (length pool)"
    "distinct (SelectWinners pool seed k)" "set (SelectWinners pool seed k) \<subseteq> set pool"
  using SelectWinners_arrangement [OF assms, of seed k] by (simp_all add: arrangements_def)

lemma SelectWinners_empty_iff: "SelectWinners pool seed k = [] \<longleftrightarrow> pool = [] \<or> k \<le> 0"
proof (cases "0 < k \<and> k < int (length pool)")
  case True
  then have "length (SelectWinners pool seed k) = nat k"
    by (simp add: SelectWinners_fy draw_residues_def)
  with True show ?thesis by auto
qed (auto simp: SelectWinners_def)

section \<open>What SplitReward returns\<close>

lemma bump_prefix:
  "m \<le> n \<Longrightarrow> foldl (\<lambda>parts i. parts[i := parts ! i + 1]) (replicate n q) [0..<m] =
     map (\<lambda>i. if i < m then q + 1 else q) [0..<n]"
proof (induction m)
  case 0
  then show ?case by (simp add: map_replicate_const)
next
  case (Suc m)
  then show ?case by (auto simp: list_eq_iff_nth_eq nth_list_update)
qed

lemma SplitReward_map:
  assumes "0 < w" "0 < amount"
  shows "SplitReward amount w =
    map (\<lambda>i. if int i < amount mod w then amount div w + 1 else amount div w) [0..<nat w]"
proof -
  have "0 \<le> amount mod w" "nat (amount mod w) \<le> nat w"
    using assms by (simp_all add: nat_mono pos_mod_bound less_imp_le)
  with assms bump_prefix [OF this(2), of "amount div w"] show ?thesis
    by (auto simp: SplitReward_def nat_less_iff intro!: map_cong)
qed

lemma sum_list_SplitReward:
  assumes "0 < w" "0 < amount"
  shows "sum_list (SplitReward amount w) = amount"
proof -
  let ?q = "amount div w" and ?r = "amount mod w"
  have r: "0 \<le> ?r" "?r < w" using assms by (simp_all)
  have "sum_list (SplitReward amount w) = (\<Sum>i < nat w. ?q + (if int i < ?r then 1 else 0))"
    by (simp add: SplitReward_map [OF assms] sum_list_distinct_conv_sum_set atLeast0LessThan
        if_distrib cong: if_cong)
  also have "\<dots> = w * ?q + (\<Sum>i < nat w. if int i < ?r then 1 else 0)"
    using assms by (simp add: sum.distrib)
  also have "(\<Sum>i < nat w. if int i < ?r then 1 else (0 :: int)) = ?r"
  proof -
    have "{i. i < nat w \<and> int i < ?r} = {..<nat ?r}" using r by auto
    then show ?thesis using r by (simp add: sum.If_cases Int_def)
  qed
  finally show ?thesis by simp
qed

section \<open>Properties\<close>

text \<open>
  C3. The draw is fair: with distinct active ids and fewer winners than ids, the winners are the
  shuffle of the residues read from the seed's stream, and shuffling is a bijection between
  the possible residue lists and the ordered choices of \<open>k\<close> distinct ids, so every choice of
  winners is reached by exactly one residue list and none is reached twice.
\<close>

theorem draw_is_fair:
  assumes "distinct pool" "0 < k" "k < int (length pool)"
  shows "SelectWinners pool seed k = fy pool (draw_residues seed (length pool) (nat k)) \<and>
    draw_residues seed (length pool) (nat k) \<in> residues (length pool) (nat k) \<and>
    bij_betw (fy pool) (residues (length pool) (nat k)) (arrangements pool (nat k))"
proof -
  have "nat k \<le> length pool" using assms(3) by linarith
  then show ?thesis
    using assms SelectWinners_fy draw_residues_in fy_bij by blast
qed

theorem draw_is_fair_witness:
  "bij_betw (fy [[1], [2], [3]]) (residues 3 2) (arrangements [[1], [2], [3 :: u8]] 2)"
  using draw_is_fair [of "[[1], [2], [3]]" 2 uint256_null] by (simp add: numeral_3_eq_3)

text \<open>
  C28. The split of a positive reward over \<open>w\<close> winners: \<open>w\<close> parts that sum to the reward exactly,
  differ by at most one, and give the remainder to the first winners.
\<close>

theorem SplitReward_exact:
  assumes "0 < w" "0 < amount"
  shows "length (SplitReward amount w) = nat w \<and> sum_list (SplitReward amount w) = amount \<and>
    (\<forall>i < nat w. SplitReward amount w ! i = amount div w + (if int i < amount mod w then 1 else 0))"
  using sum_list_SplitReward [OF assms] by (simp add: SplitReward_map [OF assms])

theorem SplitReward_exact_witness:
  "sum_list (SplitReward 500000000000 3) = 500000000000 \<and> SplitReward 500000000000 3 ! 1 = 166666666667"
  using SplitReward_exact [of 3 500000000000] by simp

end
