(* ===== verification/XC_Node.thy ===== *)
theory XC_Node
  imports XC_Attest XC_Draw
begin

text \<open>
  A lottery node: the global state of \<^verbatim>\<open>src/src/lottery.cpp\<close> (registry, invite list, stamp store,
  attestor key), the local heartbeat, the seed's lookup, the draw of the next block, and the
  handler of the network message \<^verbatim>\<open>xhb\<close> in \<^verbatim>\<open>src/src/net_processing.cpp\<close>. What the process
  reads from outside in one call is the record \<open>Env\<close>: the clock, the X session, the wallet
  lock and the answers of the X API.
\<close>

section \<open>State and environment\<close>

datatype lookup_status = VERIFIED | NOT_VERIFIED | LOOKUP_FAILED

record Env =
  GetTime :: int
  SessionIsXVerified :: bool
  WalletAllowsHeartbeat :: bool
  LookupEnabled :: bool
  LookupHandle :: "string \<Rightarrow> lookup_status"

record LotteryState =
  g_registry :: Registry
  g_allowlist :: Allowlist
  g_attest :: attest_store
  g_attestorKey :: CKey
  g_forceBakedSeedForTest :: bool

definition baked :: "'p secp256k1 \<Rightarrow> CChainParams \<Rightarrow> LotteryState \<Rightarrow> bool" where
  "baked S p st = IsBakedSeed S p (g_forceBakedSeedForTest st) (g_attestorKey st)"

definition LocalEligible :: "Env \<Rightarrow> LotteryState \<Rightarrow> bool" where
  "LocalEligible env st =
     (if localScript (g_registry st) = [] \<or> handle (localX (g_registry st)) = [] then False
      else if \<not> SessionIsXVerified env then False
      else if \<not> WalletAllowsHeartbeat env then False
      else True)"

definition MayProduceBlock :: "'p secp256k1 \<Rightarrow> CChainParams \<Rightarrow> Env \<Rightarrow> LotteryState \<Rightarrow> bool" where
  "MayProduceBlock S p env st =
     (if baked S p st then True
      else if RequireXAttestation p then False
      else LocalEligible env st)"

definition IsXLookupNode :: "Env \<Rightarrow> LotteryState \<Rightarrow> bool" where
  "IsXLookupNode env st \<longleftrightarrow> LookupEnabled env \<and> fValid (g_attestorKey st)"

text \<open>\<^verbatim>\<open>LookupAndAttest\<close>: the result, \<^verbatim>\<open>sigOut\<close> and the new state.\<close>

definition LookupAndAttest ::
  "'p secp256k1 \<Rightarrow> CChainParams \<Rightarrow> Env \<Rightarrow> CScript \<Rightarrow> string \<Rightarrow> LotteryState \<Rightarrow> bool \<times> bytes \<times> LotteryState" where
  "LookupAndAttest S p env s hnd st =
     (case NormalizeXHandle hnd of Inl e \<Rightarrow> (False, [], st)
      | Inr norm \<Rightarrow>
          let i = IdFromScript s
          in if HasAttestation i (g_attest st) then
               (case GetAttestation i (g_attest st) of None \<Rightarrow> (False, [], st)
                | Some (have_h, sig) \<Rightarrow> (have_h = norm, sig, st))
             else if \<not> IsXLookupNode env st then (False, [], st)
             else if LookupHandle env norm \<noteq> VERIFIED then (False, [], st)
             else (case SignAttestation S (g_attestorKey st) i norm of None \<Rightarrow> (False, [], st)
                   | Some sig \<Rightarrow>
                       (True, sig, st\<lparr>g_attest := StoreAttestation S p i norm sig (g_attest st)\<rparr>)))"

definition heartbeat_state ::
  "'p secp256k1 \<Rightarrow> CChainParams \<Rightarrow> CScript \<Rightarrow> int \<Rightarrow> string \<Rightarrow> u64 \<Rightarrow> bool \<Rightarrow> LotteryState \<Rightarrow> bool \<times> LotteryState" where
  "heartbeat_state S p s now hnd uid ver st =
     (case Heartbeat (baked S p st) (g_allowlist st) s now hnd uid ver (g_registry st) of
        (ok, rg) \<Rightarrow> (ok, st\<lparr>g_registry := rg\<rparr>))"

definition HeartbeatLocal ::
  "'p secp256k1 \<Rightarrow> CChainParams \<Rightarrow> Env \<Rightarrow> int \<Rightarrow> LotteryState \<Rightarrow> bool \<times> LotteryState" where
  "HeartbeatLocal S p env now st =
     (if baked S p st then (False, st)
      else let s = localScript (g_registry st); x = localX (g_registry st)
           in if s = [] \<or> handle x = [] then (False, st)
              else if \<not> SessionIsXVerified env then (False, st)
              else if \<not> WalletAllowsHeartbeat env then (False, st)
              else let (ok, st) =
                         (if RequireXAttestation p \<and> \<not> HasAttestation (IdFromScript s) (g_attest st)
                          then (case LookupAndAttest S p env s (handle x) st of (ok, sig, st) \<Rightarrow> (ok, st))
                          else (True, st))
                   in if \<not> ok then (False, st)
                      else heartbeat_state S p s now (handle x) (userId x) True st)"

definition CountAttestedActive :: "CChainParams \<Rightarrow> int \<Rightarrow> LotteryState \<Rightarrow> nat" where
  "CountAttestedActive p now st =
     (let ns = ActiveNodes now (g_registry st)
      in if \<not> RequireXAttestation p then length ns
         else length (filter (\<lambda>n. HasAttestation (n_id n) (g_attest st)) ns))"

section \<open>The draw of a block\<close>

record Draw =
  d_height :: int
  d_slot :: int
  d_winnerCount :: int
  d_seed :: uint256
  d_active :: "uint160 list"
  d_winners :: "uint160 list"
  d_rewards :: "CAmount list"

definition ComputeDraw ::
  "CChainParams \<Rightarrow> Env \<Rightarrow> int \<Rightarrow> uint256 \<Rightarrow> int \<Rightarrow> int \<Rightarrow> CAmount \<Rightarrow> LotteryState \<Rightarrow> Draw" where
  "ComputeDraw p env nNextHeight prevBlockHash genesisTime interval subsidy st =
     (let slot = SlotFromHeight nNextHeight genesisTime;
          winnerCount = WinnerCount nNextHeight interval;
          seed = Seed prevBlockHash slot;
          active = ActiveIdsForSlot (GetTime env) slot (g_registry st);
          active = (if RequireXAttestation p then filter (\<lambda>i. HasAttestation i (g_attest st)) active else active);
          winners = SelectWinners active seed winnerCount
      in \<lparr>d_height = nNextHeight, d_slot = slot, d_winnerCount = winnerCount, d_seed = seed,
          d_active = active, d_winners = winners, d_rewards = SplitReward subsidy (int (length winners))\<rparr>)"

section \<open>The network message xhb\<close>

record XhbMsg =
  m_time :: int
  m_script :: CScript
  m_handle :: string
  m_userId :: u64
  m_verified :: bool
  m_sig :: bytes
  m_attest :: bytes

text \<open>
  What the handler does with a decoded message: the misbehaviour score charged to the peer,
  the new state, the new relay times, and the message relayed to the other peers, if any. A
  lookup that fails leaves the state alone, so a dropped message does too.
\<close>

record XhbResult =
  r_score :: nat
  r_state :: LotteryState
  r_relayed :: "(uint160, int) omap"
  r_relay :: "XhbMsg option"

definition xhb_admit ::
  "'p secp256k1 \<Rightarrow> CChainParams \<Rightarrow> Env \<Rightarrow> XhbMsg \<Rightarrow> LotteryState \<Rightarrow> (bool \<times> bytes \<times> LotteryState) option" where
  "xhb_admit S p env m st =
     (let i = IdFromScript (m_script m)
      in if VerifyAttestation S p i (m_handle m) (m_attest m)
         then Some (True, m_attest m, st\<lparr>g_attest := StoreAttestation S p i (m_handle m) (m_attest m) (g_attest st)\<rparr>)
         else if RequireXAttestation p then
           (case LookupAndAttest S p env (m_script m) (m_handle m) st of
              (ok, sig, st) \<Rightarrow>
                if ok then Some (True, sig, st)
                else if IsXLookupNode env st then None
                else Some (HasAttestation i (g_attest st), sig, st))
         else Some (HasAttestation i (g_attest st), m_attest m, st))"

definition ProcessXhb ::
  "'p secp256k1 \<Rightarrow> CChainParams \<Rightarrow> Env \<Rightarrow> XhbMsg \<Rightarrow> (uint160, int) omap \<Rightarrow> LotteryState \<Rightarrow> XhbResult" where
  "ProcessXhb S p env m lastRelay st =
     (let now = GetTime env;
          drop = (\<lambda>score st. \<lparr>r_score = score, r_state = st, r_relayed = lastRelay, r_relay = None\<rparr>);
          i = IdFromScript (m_script m)
      in if m_script m = [] \<or> MAX_HEARTBEAT_SCRIPT < length (m_script m) then drop 1 st
         else if MAX_X_HANDLE < length (m_handle m) \<or> MAX_HEARTBEAT_SIG < length (m_sig m) then drop 1 st
         else if now + 600 < m_time m \<or> m_time m < now - 600 then drop 0 st
         else if \<not> VerifyHeartbeatSig S (m_script m) (m_time m) (m_handle m) (m_userId m) (m_sig m) (m_verified m)
         then drop 10 st
         else if \<not> m_verified m then drop 0 st
         else case xhb_admit S p env m st of None \<Rightarrow> drop 0 st
         | Some (attested, att, st) \<Rightarrow>
             let (ok, st) = (if attested \<or> \<not> RequireXAttestation p
                             then heartbeat_state S p (m_script m) now (m_handle m) (m_userId m) (m_verified m) st
                             else (True, st))
             in if \<not> ok then drop 0 st
                else let relay = (case map_of lastRelay i of None \<Rightarrow> True | Some t \<Rightarrow> 15 \<le> now - t)
                     in \<lparr>r_score = 0, r_state = st,
                         r_relayed = (if relay then map_put i now lastRelay else lastRelay),
                         r_relay = (if relay then Some (m\<lparr>m_attest := att\<rparr>) else None)\<rparr>)"

section \<open>Invariant of the node\<close>

definition node_inv :: "'p secp256k1 \<Rightarrow> CChainParams \<Rightarrow> LotteryState \<Rightarrow> bool" where
  "node_inv S p st \<longleftrightarrow> reg_ok (g_registry st) \<and> allow_ok (g_allowlist st) \<and> store_ok S p (g_attest st)"

lemma LookupAndAttest_failed: "\<not> fst (LookupAndAttest S p env s hnd st) \<Longrightarrow> snd (snd (LookupAndAttest S p env s hnd st)) = st"
  by (auto simp: LookupAndAttest_def Let_def split: sum.splits option.splits if_splits)

lemma LookupAndAttest_inv: "node_inv S p st \<Longrightarrow> node_inv S p (snd (snd (LookupAndAttest S p env s hnd st)))"
  by (auto simp: LookupAndAttest_def Let_def node_inv_def store_ok_Store split: sum.split option.split)

lemma LookupAndAttest_registry: "g_registry (snd (snd (LookupAndAttest S p env s hnd st))) = g_registry st"
  by (auto simp: LookupAndAttest_def Let_def split: sum.split option.split)

lemma heartbeat_state_inv: "node_inv S p st \<Longrightarrow> node_inv S p (snd (heartbeat_state S p s now hnd uid ver st))"
  using reg_ok_Heartbeat [of "g_registry st" "baked S p st" "g_allowlist st" s now hnd uid ver]
  by (auto simp: heartbeat_state_def node_inv_def split: prod.split)

lemma HeartbeatLocal_inv:
  assumes "node_inv S p st"
  shows "node_inv S p (snd (HeartbeatLocal S p env now st))"
proof -
  obtain ok sig st' where l: "LookupAndAttest S p env (localScript (g_registry st)) (handle (localX (g_registry st))) st = (ok, sig, st')"
    by (metis surj_pair)
  have "node_inv S p st'" using LookupAndAttest_inv [OF assms] l by (metis snd_conv)
  then show ?thesis
    using assms l by (auto simp: HeartbeatLocal_def Let_def heartbeat_state_inv)
qed

lemma xhb_admit_inv:
  "node_inv S p st \<Longrightarrow> xhb_admit S p env m st = Some (b, att, st') \<Longrightarrow> node_inv S p st'"
  using LookupAndAttest_inv [of S p st env "m_script m" "m_handle m"]
  by (auto simp: xhb_admit_def Let_def node_inv_def store_ok_Store split: if_splits prod.splits)

lemma ProcessXhb_inv:
  assumes "node_inv S p st"
  shows "node_inv S p (r_state (ProcessXhb S p env m lr st))"
proof (cases "xhb_admit S p env m st")
  case None
  with assms show ?thesis by (simp add: ProcessXhb_def Let_def)
next
  case (Some a)
  obtain b att st' where a: "a = (b, att, st')" by (cases a)
  have st': "node_inv S p st'" using xhb_admit_inv [OF assms] Some a by simp
  have hb: "node_inv S p st''"
    if "heartbeat_state S p (m_script m) (GetTime env) (m_handle m) (m_userId m) True st' = (ok, st'')" for ok st''
    using heartbeat_state_inv [OF st'] that by (metis snd_conv)
  show ?thesis
    using assms st' Some a by (simp add: ProcessXhb_def Let_def hb split: prod.split)
qed

text \<open>The draw takes sorted, distinct, registered ids, and stamped ones where stamps are required.\<close>

lemma ComputeDraw_fields:
  assumes "d = ComputeDraw p env h prev g i sub st"
  shows "d_winners d = SelectWinners (d_active d) (Seed prev (SlotFromHeight h g)) (WinnerCount h i)"
    "d_rewards d = SplitReward sub (int (length (d_winners d)))"
    "set (d_active d) \<subseteq> set (ActiveIdsForSlot (GetTime env) (SlotFromHeight h g) (g_registry st))"
    "RequireXAttestation p \<Longrightarrow> j \<in> set (d_active d) \<Longrightarrow> HasAttestation j (g_attest st)"
  using assms by (auto simp: ComputeDraw_def Let_def)

lemma ComputeDraw_sorted:
  assumes "node_inv S p st" "d = ComputeDraw p env h prev g i sub st"
  shows "sorted_wrt (<) (d_active d)" "distinct (d_active d)"
proof -
  have "sorted_wrt (<) (ActiveIdsForSlot (GetTime env) (SlotFromHeight h g) (g_registry st))"
    using assms(1) by (intro ActiveIdsForSlot_sorted) (simp add: node_inv_def)
  then show s: "sorted_wrt (<) (d_active d)"
    using assms(2) by (simp add: ComputeDraw_def Let_def sorted_wrt_filter)
  then show "distinct (d_active d)" by (simp add: strict_sorted_iff)
qed

lemma HeartbeatLocal_key: "g_attestorKey (snd (HeartbeatLocal S p env now st)) = g_attestorKey st"
proof -
  have "g_attestorKey (snd (snd (LookupAndAttest S p env s hnd st))) = g_attestorKey st" for s hnd
    by (auto simp: LookupAndAttest_def Let_def split: sum.split option.split)
  then have l: "g_attestorKey st' = g_attestorKey st" if "LookupAndAttest S p env s hnd st = (ok, sig, st')" for s hnd ok sig st'
    using that by (metis snd_conv)
  show ?thesis by (auto simp: HeartbeatLocal_def heartbeat_state_def Let_def l split: prod.split)
qed

lemma ComputeDraw_known:
  assumes "node_inv S p st" "d = ComputeDraw p env h prev g i sub st" "j \<in> set (d_active d)"
  shows "IdFromScript (ScriptFor j (g_registry st)) = j" "ScriptFor j (g_registry st) \<noteq> []" "length j = 20"
proof -
  have ok: "reg_ok (g_registry st)" using assms(1) by (simp add: node_inv_def)
  obtain n where "map_of (nodes (g_registry st)) j = Some n"
    using ActiveIdsForSlot_known [OF ok] ComputeDraw_fields(3) [OF assms(2)] assms(3) by blast
  note k = ScriptFor_known [OF ok this]
  then show "IdFromScript (ScriptFor j (g_registry st)) = j" "ScriptFor j (g_registry st) \<noteq> []" by blast+
  then show "length j = 20" by (metis IdFromScript_def length_Hash160)
qed

section \<open>Reachable states\<close>

definition LotteryState_init :: "CKey \<Rightarrow> LotteryState" where
  "LotteryState_init k = \<lparr>g_registry = Registry_init, g_allowlist = Allowlist_init, g_attest = [],
     g_attestorKey = k, g_forceBakedSeedForTest = False\<rparr>"

text \<open>
  The steps of a node. \<open>register\<close> is the heartbeat that the call \<^verbatim>\<open>registeractivenode\<close> makes, with whatever script,
  handle and user id the session lets through.
\<close>

inductive node_step :: "'p secp256k1 \<Rightarrow> CChainParams \<Rightarrow> LotteryState \<Rightarrow> LotteryState \<Rightarrow> bool" for S p where
  set_script: "node_step S p st (st\<lparr>g_registry := SetLocalScript s (g_registry st)\<rparr>)"
| set_account: "node_step S p st (st\<lparr>g_registry := SetLocalXAccount a (g_registry st)\<rparr>)"
| invite: "node_step S p st (st\<lparr>g_allowlist := snd (Allowlist_Add w hnd uid persist pin (g_allowlist st))\<rparr>)"
| uninvite: "node_step S p st (st\<lparr>g_allowlist := snd (Allowlist_Remove w hnd persist (g_allowlist st))\<rparr>)"
| beat: "node_step S p st (snd (HeartbeatLocal S p env now st))"
| register: "node_step S p st (snd (heartbeat_state S p s now hnd uid True st))"
| xhb: "node_step S p st (r_state (ProcessXhb S p env m lastRelay st))"
| lookup: "node_step S p st (snd (snd (LookupAndAttest S p env s hnd st)))"
| block: "node_step S p st (st\<lparr>g_attest := CacheStampsFromXva S p s (g_attest st)\<rparr>)"

inductive node_reach :: "'p secp256k1 \<Rightarrow> CChainParams \<Rightarrow> LotteryState \<Rightarrow> bool" for S p where
  start: "node_reach S p (LotteryState_init k)"
| step: "node_reach S p st \<Longrightarrow> node_step S p st st' \<Longrightarrow> node_reach S p st'"

inductive_cases node_stepE: "node_step S p st st'"

lemma node_inv_step: "node_step S p st st' \<Longrightarrow> node_inv S p st \<Longrightarrow> node_inv S p st'"
  by (elim node_stepE)
    (simp_all add: HeartbeatLocal_inv heartbeat_state_inv ProcessXhb_inv LookupAndAttest_inv,
      simp_all add: node_inv_def reg_ok_SetLocalScript reg_ok_SetLocalXAccount allow_ok_Add allow_ok_Remove store_ok_Cache)

lemma node_inv_init: "node_inv S p (LotteryState_init k)"
  by (simp add: node_inv_def LotteryState_init_def reg_ok_init allow_ok_init store_ok_empty)

lemma node_reach_inv: "node_reach S p st \<Longrightarrow> node_inv S p st"
  by (induction rule: node_reach.induct) (auto intro: node_inv_step node_inv_init)

section \<open>What admits a message\<close>

definition authorised :: "'p secp256k1 \<Rightarrow> CChainParams \<Rightarrow> Env \<Rightarrow> XhbMsg \<Rightarrow> LotteryState \<Rightarrow> bool" where
  "authorised S p env m st \<longleftrightarrow>
     VerifyAttestation S p (IdFromScript (m_script m)) (m_handle m) (m_attest m) \<or>
     HasAttestation (IdFromScript (m_script m)) (g_attest st) \<or>
     IsXLookupNode env st \<and> (\<exists>norm. NormalizeXHandle (m_handle m) = Inr norm \<and> LookupHandle env norm = VERIFIED)"

lemma LookupAndAttest_ok:
  "LookupAndAttest S p env s hnd st = (True, sig, st') \<Longrightarrow>
   HasAttestation (IdFromScript s) (g_attest st) \<or>
   IsXLookupNode env st \<and> (\<exists>norm. NormalizeXHandle hnd = Inr norm \<and> LookupHandle env norm = VERIFIED)"
  by (auto simp: LookupAndAttest_def Let_def split: sum.splits option.splits if_splits)

lemma xhb_admit_registry: "xhb_admit S p env m st = Some (b, att, st') \<Longrightarrow> g_registry st' = g_registry st"
  using LookupAndAttest_registry [of S p env "m_script m" "m_handle m" st]
  by (auto simp: xhb_admit_def Let_def split: if_splits prod.splits)

lemma xhb_admit_authorised: "xhb_admit S p env m st = Some (True, att, st') \<Longrightarrow> authorised S p env m st"
  using LookupAndAttest_ok [of S p env "m_script m" "m_handle m" st]
    LookupAndAttest_failed [of S p env "m_script m" "m_handle m" st]
  by (auto simp: xhb_admit_def authorised_def Let_def split: if_splits prod.splits)

lemma ProcessXhb_registry:
  assumes "g_registry (r_state (ProcessXhb S p env m lr st)) \<noteq> g_registry st"
  obtains b att st' where "xhb_admit S p env m st = Some (b, att, st')" "b \<or> \<not> RequireXAttestation p"
    "VerifyHeartbeatSig S (m_script m) (m_time m) (m_handle m) (m_userId m) (m_sig m) True" "m_verified m"
    "\<bar>m_time m - GetTime env\<bar> \<le> 600"
proof (cases "xhb_admit S p env m st")
  case None
  with assms show ?thesis by (simp add: ProcessXhb_def Let_def split: if_splits)
next
  case (Some a)
  obtain b att st' where a: "a = (b, att, st')" by (cases a)
  have g: "g_registry st' = g_registry st" using xhb_admit_registry Some a by blast
  show ?thesis
    by (rule that [of b att st']) (use assms Some a g in \<open>auto simp: ProcessXhb_def Let_def split: if_splits\<close>)
qed

section \<open>A message that is admitted\<close>

abbreviation "ex_script \<equiv> key_script secp_demo demo_key"

definition ex_xhb :: "bytes \<Rightarrow> bytes \<Rightarrow> XhbMsg" where
  "ex_xhb sig att = \<lparr>m_time = 1000, m_script = ex_script, m_handle = ''alice'', m_userId = 0,
     m_verified = True, m_sig = sig, m_attest = att\<rparr>"

definition ex_clock :: Env where
  "ex_clock = \<lparr>GetTime = 1000, SessionIsXVerified = False, WalletAllowsHeartbeat = False,
     LookupEnabled = False, LookupHandle = (\<lambda>h. LOOKUP_FAILED)\<rparr>"

lemma ex_id: "IdFromScript ex_script = id_seven"
proof -
  have "CKey_GetPubKey secp_demo demo_key = pub_seven"
    using CPubKey_Set_serialize [OF secp_demo_ok, of True "replicate 32 7"]
    by (simp add: CKey_GetPubKey_def secp_demo_def demo_key_def CKey_Set_def CKey_init_def pub_seven_def)
  then show ?thesis
    using Hash160_script_seven
    by (simp add: CPubKey_GetID_def Hash160_pub_seven P2PKH_bytes id_seven_facts(2) IdFromScript_def)
qed

lemma ex_xhb_admitted:
  assumes "VerifyHeartbeatSig secp_demo ex_script 1000 ''alice'' 0 sig True" "length sig \<le> 65"
    and "VerifyAttestation secp_demo demo_params (IdFromScript ex_script) ''alice'' att"
  defines "st \<equiv> r_state (ProcessXhb secp_demo demo_params ex_clock (ex_xhb sig att) [] (LotteryState_init CKey_init))"
  shows "nodes (g_registry st) = [(IdFromScript ex_script, ex_node (IdFromScript ex_script) ex_script 1000 1000 ''alice'')]"
    and "HasAttestation (IdFromScript ex_script) (g_attest st)"
proof -
  note facts = key_script_facts [of secp_demo demo_key]
  have beat: "Heartbeat b Allowlist_init ex_script 1000 ''alice'' 0 True Registry_init =
     (True, Registry_init\<lparr>nodes := [(IdFromScript ex_script, ex_node (IdFromScript ex_script) ex_script 1000 1000 ''alice'')],
        byHandle := [(''alice'', IdFromScript ex_script)]\<rparr>)" for b
    using facts(2,3) id_seven_facts(1)
    by (simp add: ex_id Heartbeat_def Registry_init_def ex_handles ex_pins Let_def release_handle_def bind_node_def
        insert_node_def evict_def ex_node_def)
  have "r_state (ProcessXhb secp_demo demo_params ex_clock (ex_xhb sig att) [] (LotteryState_init CKey_init)) =
    (LotteryState_init CKey_init)\<lparr>g_attest := StoreAttestation secp_demo demo_params (IdFromScript ex_script) ''alice'' att [],
      g_registry := snd (Heartbeat (baked secp_demo demo_params (LotteryState_init CKey_init)) Allowlist_init ex_script 1000 ''alice'' 0 True Registry_init)\<rparr>"
    using facts(2,3) assms(1-3)
    by (simp add: ProcessXhb_def ex_xhb_def ex_clock_def xhb_admit_def heartbeat_state_def beat Let_def
        LotteryState_init_def)
  then have st: "st = (LotteryState_init CKey_init)\<lparr>g_attest := StoreAttestation secp_demo demo_params (IdFromScript ex_script) ''alice'' att [],
      g_registry := Registry_init\<lparr>nodes := [(IdFromScript ex_script, ex_node (IdFromScript ex_script) ex_script 1000 1000 ''alice'')],
        byHandle := [(''alice'', IdFromScript ex_script)]\<rparr>\<rparr>"
    by (simp add: st_def beat)
  show "nodes (g_registry st) = [(IdFromScript ex_script, ex_node (IdFromScript ex_script) ex_script 1000 1000 ''alice'')]"
    by (simp add: st)
  show "HasAttestation (IdFromScript ex_script) (g_attest st)"
    using assms(3) by (simp add: st HasAttestation_def StoreAttestation_def ex_handles)
qed

lemma ex_xhb_exists:
  obtains sig att where "VerifyHeartbeatSig secp_demo ex_script 1000 ''alice'' 0 sig True" "length sig \<le> 65"
    "VerifyAttestation secp_demo demo_params (IdFromScript ex_script) ''alice'' att"
proof -
  obtain sig where sig: "SignHeartbeat secp_demo demo_key 1000 ex_script ''alice'' 0 True = Some sig"
    using SignCompact_Some [of secp_demo demo_key] demo_key_ok(2) by (auto simp: SignHeartbeat_def)
  from SignHeartbeat_verifies [OF secp_demo_ok demo_key_ok(1) ex_handles(1) this]
  have v: "VerifyHeartbeatSig secp_demo ex_script 1000 ''alice'' 0 sig True" .
  then have "length sig \<le> 65" by (simp add: VerifyHeartbeatSig_def split: if_splits)
  moreover obtain att where "VerifyAttestation secp_demo demo_params (IdFromScript ex_script) ''alice'' att"
    by (rule demo_stamp [of "IdFromScript ex_script" "''alice''"])
  ultimately show ?thesis using v that by blast
qed

section \<open>Properties\<close>

text \<open>
  C10. A network message changes the set of lottery nodes only with proof: the registry differs
  after the handler only if the message claims a verified account, is signed by the key of the
  payout script, was sent within ten minutes of the local clock and, on a network that requires
  stamps, carries a stamp that verifies, or names an id already stamped, or was looked up on X
  by this seed and found verified.
\<close>

theorem registry_change_needs_proof:
  assumes "g_registry (r_state (ProcessXhb S p env m lastRelay st)) \<noteq> g_registry st"
  shows "m_verified m \<and> VerifyHeartbeatSig S (m_script m) (m_time m) (m_handle m) (m_userId m) (m_sig m) True \<and>
    \<bar>m_time m - GetTime env\<bar> \<le> 600 \<and> (RequireXAttestation p \<longrightarrow> authorised S p env m st)"
  using ProcessXhb_registry [OF assms] xhb_admit_authorised by metis

theorem registry_change_needs_proof_witness:
  "\<exists>sig att. authorised secp_demo demo_params ex_clock (ex_xhb sig att) (LotteryState_init CKey_init)"
proof -
  obtain sig att where x: "VerifyHeartbeatSig secp_demo ex_script 1000 ''alice'' 0 sig True" "length sig \<le> 65"
    "VerifyAttestation secp_demo demo_params (IdFromScript ex_script) ''alice'' att" by (rule ex_xhb_exists)
  let ?st = "r_state (ProcessXhb secp_demo demo_params ex_clock (ex_xhb sig att) [] (LotteryState_init CKey_init))"
  have "nodes (g_registry ?st) \<noteq> nodes (g_registry (LotteryState_init CKey_init))"
    using ex_xhb_admitted(1) [OF x] by (simp add: LotteryState_init_def Registry_init_def)
  then have "g_registry ?st \<noteq> g_registry (LotteryState_init CKey_init)" by auto
  from registry_change_needs_proof [OF this] demo_attestor(2) show ?thesis by blast
qed

text \<open>
  C9. Who is in a draw: in every reachable state of a node, the active set of the draw of any
  block is strictly sorted, each id in it is the hash of the payout script registered for it, and
  where the network requires stamps each id has a stamp of a well-formed handle that verifies
  against the attestor key. The winners are distinct members of that set.
\<close>

theorem draw_members_stamped:
  assumes "node_reach S p st" "d = ComputeDraw p env h prev genesis interval subsidy st"
  shows "sorted_wrt (<) (d_active d) \<and> distinct (d_winners d) \<and> set (d_winners d) \<subseteq> set (d_active d) \<and>
    (\<forall>i \<in> set (d_active d). IdFromScript (ScriptFor i (g_registry st)) = i \<and>
       (RequireXAttestation p \<longrightarrow> (\<exists>hnd sig. valid_handle hnd \<and> VerifyAttestation S p i hnd sig)))"
proof -
  note inv = node_reach_inv [OF assms(1)]
  note sorted = ComputeDraw_sorted [OF inv assms(2)] and known = ComputeDraw_known [OF inv assms(2)]
  have "\<exists>hnd sig. valid_handle hnd \<and> VerifyAttestation S p i hnd sig"
    if "RequireXAttestation p" "i \<in> set (d_active d)" for i
    using inv ComputeDraw_fields(4) [OF assms(2) that]
    by (auto simp: node_inv_def store_ok_def HasAttestation_def)
  with sorted known(1) SelectWinners_facts [OF sorted(2)] ComputeDraw_fields(1) [OF assms(2)] show ?thesis
    by auto
qed

theorem draw_members_stamped_witness:
  "\<exists>st. node_reach secp_demo demo_params st \<and>
     d_active (ComputeDraw demo_params ex_clock 1 uint256_null 1000 2100000 500000000000 st) = [IdFromScript ex_script] \<and>
     IdFromScript (ScriptFor (IdFromScript ex_script) (g_registry st)) = IdFromScript ex_script"
proof -
  obtain sig att where x: "VerifyHeartbeatSig secp_demo ex_script 1000 ''alice'' 0 sig True" "length sig \<le> 65"
    "VerifyAttestation secp_demo demo_params (IdFromScript ex_script) ''alice'' att" by (rule ex_xhb_exists)
  define st where "st = r_state (ProcessXhb secp_demo demo_params ex_clock (ex_xhb sig att) [] (LotteryState_init CKey_init))"
  note f = ex_xhb_admitted [OF x, folded st_def]
  have reach: "node_reach secp_demo demo_params st"
    unfolding st_def by (intro node_reach.step [OF node_reach.start node_step.xhb])
  have act: "d_active (ComputeDraw demo_params ex_clock 1 uint256_null 1000 2100000 500000000000 st) = [IdFromScript ex_script]"
    by (simp add: ComputeDraw_def Let_def SlotFromHeight_def SlotFromTime_def ActiveIdsForSlot_def f
        frozen_def ex_node_def ex_clock_def)
  with draw_members_stamped [OF reach refl, of ex_clock 1 uint256_null 1000 2100000 500000000000] reach
  show ?thesis by auto
qed

end
