(* ===== verification/XC_Tx.thy ===== *)
theory XC_Tx
  imports XC_Script XC_Slot
begin

text \<open>
  \<^verbatim>\<open>src/src/primitives/transaction.h\<close>, \<^verbatim>\<open>transaction.cpp\<close> and \<^verbatim>\<open>block.h\<close>: transactions and blocks,
  and the context-free lock-time rules of \<^verbatim>\<open>src/src/consensus/tx_verify.cpp\<close>.
\<close>

section \<open>Data\<close>

record COutPoint =
  op_hash :: uint256
  op_n :: u32

record CTxIn =
  prevout :: COutPoint
  scriptSig :: CScript
  nSequence :: u32
  scriptWitness :: "bytes list"

record CTxOut =
  nValue :: CAmount
  scriptPubKey :: CScript

record CTransaction =
  vin :: "CTxIn list"
  vout :: "CTxOut list"
  nVersion :: u32
  nLockTime :: u32

record CBlockHeader =
  b_nVersion :: u32
  hashPrevBlock :: uint256
  hashMerkleRoot :: uint256
  nTime :: u32
  nBits :: u32
  nNonce :: u32
  b_nHeight :: u32
  nNonce64 :: u64
  mix_hash :: uint256

record CBlock = CBlockHeader +
  vtx :: "CTransaction list"

definition OutPoint_IsNull :: "COutPoint \<Rightarrow> bool" where
  "OutPoint_IsNull o1 \<longleftrightarrow> blob_IsNull (op_hash o1) \<and> op_n o1 = -1"

definition OutPoint_less :: "COutPoint \<Rightarrow> COutPoint \<Rightarrow> bool" where
  "OutPoint_less a b \<longleftrightarrow> op_hash a < op_hash b \<or> op_hash a = op_hash b \<and> op_n a < op_n b"

definition Tx_IsNull :: "CTransaction \<Rightarrow> bool" where
  "Tx_IsNull tx \<longleftrightarrow> vin tx = [] \<and> vout tx = []"

definition IsCoinBase :: "CTransaction \<Rightarrow> bool" where
  "IsCoinBase tx \<longleftrightarrow> length (vin tx) = 1 \<and> OutPoint_IsNull (prevout (vin tx ! 0))"

definition HasWitness :: "CTransaction \<Rightarrow> bool" where
  "HasWitness tx \<longleftrightarrow> (\<exists>i \<in> set (vin tx). scriptWitness i \<noteq> [])"

text \<open>\<^verbatim>\<open>GetValueOut\<close>: \<open>None\<close> is the exception ``value out of range''.\<close>

fun GetValueOut_loop :: "bool \<Rightarrow> CTxOut list \<Rightarrow> CAmount \<Rightarrow> CAmount option" where
  "GetValueOut_loop enforced [] n = Some n"
| "GetValueOut_loop enforced (o1 # os) n =
     (if \<not> enforced \<and> IsAssetScript (scriptPubKey o1) \<noteq> None then GetValueOut_loop enforced os n
      else if \<not> MoneyRange (nValue o1) \<or> \<not> MoneyRange (n + nValue o1) then None
      else GetValueOut_loop enforced os (n + nValue o1))"

definition GetValueOut :: "bool \<Rightarrow> CTransaction \<Rightarrow> CAmount option" where
  "GetValueOut fAreEnforcedValues tx = GetValueOut_loop fAreEnforcedValues (vout tx) 0"

section \<open>Lock times\<close>

abbreviation "LOCKTIME_THRESHOLD \<equiv> (500000000 :: int)"
abbreviation "SEQUENCE_FINAL \<equiv> (0xffffffff :: u32)"
abbreviation "SEQUENCE_LOCKTIME_DISABLE_FLAG \<equiv> (0x80000000 :: u32)"
abbreviation "SEQUENCE_LOCKTIME_TYPE_FLAG \<equiv> (0x00400000 :: u32)"
abbreviation "SEQUENCE_LOCKTIME_MASK \<equiv> (0x0000ffff :: u32)"

definition IsFinalTx :: "CTransaction \<Rightarrow> int \<Rightarrow> int \<Rightarrow> bool" where
  "IsFinalTx tx nBlockHeight nBlockTime \<longleftrightarrow>
     nLockTime tx = 0 \<or>
     uint (nLockTime tx) < (if uint (nLockTime tx) < LOCKTIME_THRESHOLD then nBlockHeight else nBlockTime) \<or>
     (\<forall>txin \<in> set (vin tx). nSequence txin = SEQUENCE_FINAL)"

text \<open>
  \<^verbatim>\<open>CalculateSequenceLocks\<close>: \<open>mtp_at h\<close> is the median time past of the ancestor at height \<open>h\<close>.
  The loop runs over the inputs with the heights of their coins and carries the two minima.
\<close>

definition sequence_lock_step :: "(int \<Rightarrow> int) \<Rightarrow> int \<times> int \<Rightarrow> CTxIn \<times> int \<Rightarrow> int \<times> int" where
  "sequence_lock_step mtp_at st input =
     (let (nMinHeight, nMinTime) = st; (txin, nCoinHeight) = input
      in if nSequence txin AND SEQUENCE_LOCKTIME_DISABLE_FLAG \<noteq> 0 then (nMinHeight, nMinTime)
         else if nSequence txin AND SEQUENCE_LOCKTIME_TYPE_FLAG \<noteq> 0 then
           (nMinHeight,
            max nMinTime (mtp_at (max (nCoinHeight - 1) 0)
              + uint (push_bit 9 (nSequence txin AND SEQUENCE_LOCKTIME_MASK)) - 1))
         else (max nMinHeight (nCoinHeight + uint (nSequence txin AND SEQUENCE_LOCKTIME_MASK) - 1), nMinTime))"

definition CalculateSequenceLocks ::
  "(int \<Rightarrow> int) \<Rightarrow> CTransaction \<Rightarrow> bool \<Rightarrow> int list \<Rightarrow> int \<times> int" where
  "CalculateSequenceLocks mtp_at tx verifySequence prevHeights =
     (if \<not> (2 \<le> nVersion tx \<and> verifySequence) then (-1, -1)
      else foldl (sequence_lock_step mtp_at) (-1, -1) (zip (vin tx) prevHeights))"

definition EvaluateSequenceLocks :: "int \<Rightarrow> int \<Rightarrow> int \<times> int \<Rightarrow> bool" where
  "EvaluateSequenceLocks nHeight prevMtp lockPair \<longleftrightarrow>
     \<not> (nHeight \<le> fst lockPair \<or> prevMtp \<le> snd lockPair)"

definition GetLegacySigOpCount :: "CTransaction \<Rightarrow> nat" where
  "GetLegacySigOpCount tx =
     sum_list (map (\<lambda>i. GetSigOpCount False (scriptSig i)) (vin tx)) +
     sum_list (map (\<lambda>o1. GetSigOpCount False (scriptPubKey o1)) (vout tx))"

section \<open>What GetValueOut guarantees\<close>

lemma GetValueOut_loop_sum:
  assumes "GetValueOut_loop True os n = Some v" "MoneyRange n"
  shows "v = n + sum_list (map nValue os) \<and> MoneyRange v"
  using assms
proof (induction os arbitrary: n)
  case (Cons o1 os)
  then have "GetValueOut_loop True os (n + nValue o1) = Some v" "MoneyRange (n + nValue o1)"
    by (auto split: if_splits)
  from Cons.IH [OF this] show ?case by auto
qed simp

lemma GetValueOut_loop_total:
  assumes "\<forall>o1 \<in> set os. MoneyRange (nValue o1)" "0 \<le> n" "n + sum_list (map nValue os) \<le> MAX_MONEY"
  shows "GetValueOut_loop True os n = Some (n + sum_list (map nValue os))"
  using assms
proof (induction os arbitrary: n)
  case (Cons o1 os)
  have "0 \<le> sum_list (map nValue os)"
    using Cons.prems(1) by (intro sum_list_nonneg) (auto simp: MoneyRange_def)
  with Cons show ?case by (auto simp: MoneyRange_def)
qed simp

section \<open>Relative lock times hold exactly\<close>

text \<open>
  What the two minima say of one input: it is disabled, or its coin has matured by the block's
  height, or by the median time of the block before.
\<close>

definition sequence_satisfied :: "(int \<Rightarrow> int) \<Rightarrow> int \<Rightarrow> int \<Rightarrow> CTxIn \<times> int \<Rightarrow> bool" where
  "sequence_satisfied mtp_at nHeight prevMtp input \<longleftrightarrow>
     (let (txin, nCoinHeight) = input; s = nSequence txin
      in s AND SEQUENCE_LOCKTIME_DISABLE_FLAG \<noteq> 0 \<or>
         (if s AND SEQUENCE_LOCKTIME_TYPE_FLAG \<noteq> 0
          then mtp_at (max (nCoinHeight - 1) 0) + 512 * uint (s AND SEQUENCE_LOCKTIME_MASK) \<le> prevMtp
          else nCoinHeight + uint (s AND SEQUENCE_LOCKTIME_MASK) \<le> nHeight))"

lemma uint_locktime_units:
  "uint (push_bit 9 (s AND SEQUENCE_LOCKTIME_MASK)) = 512 * uint (s AND SEQUENCE_LOCKTIME_MASK)"
proof -
  have m: "s AND SEQUENCE_LOCKTIME_MASK = take_bit 16 s"
    using take_bit_eq_mask [of 16 s] by (simp add: mask_eq_exp_minus_1)
  have "uint (take_bit 16 s) < 2 ^ 16"
    unfolding unsigned_take_bit_eq by (rule take_bit_int_less_exp)
  then have "uint (take_bit 16 s) * 512 < 2 ^ 32" by simp
  then show ?thesis
    unfolding m push_bit_eq_mult by (simp add: uint_word_ariths(3) mod_pos_pos_trivial del: unsigned_take_bit_eq)
qed

lemma sequence_lock_step_eval:
  "EvaluateSequenceLocks h t (sequence_lock_step mtp_at st input) \<longleftrightarrow>
     EvaluateSequenceLocks h t st \<and> sequence_satisfied mtp_at h t input"
  by (cases st; cases input)
    (auto simp: EvaluateSequenceLocks_def sequence_lock_step_def sequence_satisfied_def Let_def uint_locktime_units
      simp del: push_bit_and)

lemma sequence_locks_fold:
  "EvaluateSequenceLocks h t (foldl (sequence_lock_step mtp_at) st inputs) \<longleftrightarrow>
     EvaluateSequenceLocks h t st \<and> (\<forall>i \<in> set inputs. sequence_satisfied mtp_at h t i)"
  by (induction inputs arbitrary: st) (auto simp: sequence_lock_step_eval)

text \<open>
  C32. Relative lock times: the pair of minima \<^verbatim>\<open>CalculateSequenceLocks\<close> folds over the inputs is
  accepted by \<^verbatim>\<open>EvaluateSequenceLocks\<close> exactly when every input on its own is disabled or has
  aged enough, in blocks or in units of 512 seconds.
\<close>

theorem sequence_locks_exact:
  assumes "0 \<le> nHeight" "0 \<le> prevMtp"
  shows "EvaluateSequenceLocks nHeight prevMtp (CalculateSequenceLocks mtp_at tx verify heights) \<longleftrightarrow>
    (2 \<le> nVersion tx \<and> verify \<longrightarrow> (\<forall>i \<in> set (zip (vin tx) heights). sequence_satisfied mtp_at nHeight prevMtp i))"
proof -
  have "EvaluateSequenceLocks nHeight prevMtp (-1, -1)"
    using assms by (simp add: EvaluateSequenceLocks_def)
  then show ?thesis
    by (auto simp: CalculateSequenceLocks_def sequence_locks_fold)
qed

definition ex_locked_tx :: CTransaction where
  "ex_locked_tx = \<lparr>vin = [\<lparr>prevout = \<lparr>op_hash = uint256_null, op_n = 0\<rparr>, scriptSig = [], nSequence = 10,
     scriptWitness = []\<rparr>], vout = [], nVersion = 2, nLockTime = 0\<rparr>"

theorem sequence_locks_exact_witness:
  "EvaluateSequenceLocks 110 5000 (CalculateSequenceLocks (\<lambda>h. 0) ex_locked_tx True [100]) \<and>
   \<not> EvaluateSequenceLocks 109 5000 (CalculateSequenceLocks (\<lambda>h. 0) ex_locked_tx True [100])"
  using sequence_locks_exact [of 110 5000 "\<lambda>h. 0" ex_locked_tx True "[100]"]
    sequence_locks_exact [of 109 5000 "\<lambda>h. 0" ex_locked_tx True "[100]"]
  by (simp add: ex_locked_tx_def sequence_satisfied_def)

end
