(* ===== verification/XC_Coinbase.thy ===== *)
theory XC_Coinbase
  imports XC_Node XC_Tx
begin

text \<open>
  The coinbase of a lottery block (\<^verbatim>\<open>src/src/lottery.cpp\<close>): the commitment to the active set,
  what a producer writes into the coinbase (\<^verbatim>\<open>ApplyCoinbasePayouts\<close>) and what every node checks
  of it (\<^verbatim>\<open>CheckLotteryCoinbase\<close>). The check is shown to accept exactly the coinbases that pay
  the draw of the committed set, and to accept what an honest producer writes.
\<close>

section \<open>The commitment to the active set\<close>

definition MakeActiveSetCommitment :: "uint160 list \<Rightarrow> CScript" where
  "MakeActiveSetCommitment sortedIds =
     op_return_script (bytes_of ''XHB1'' @ WriteLE32 (of_nat (length sortedIds)) @ concat sortedIds)"

fun read_ids :: "nat \<Rightarrow> bytes \<Rightarrow> uint160 list" where
  "read_ids 0 data = []"
| "read_ids (Suc n) data = take 20 data # read_ids n (drop 20 data)"

definition ParseActiveSetCommitment :: "CScript \<Rightarrow> uint160 list option" where
  "ParseActiveSetCommitment s =
     (case op_return_data s of None \<Rightarrow> None
      | Some data \<Rightarrow>
          if length data < 8 then None
          else if take 4 data \<noteq> bytes_of ''XHB1'' then None
          else let n = ReadLE32 (drop 4 data)
               in if 1024 < n then None
                  else if length data \<noteq> 8 + unat n * 20 then None
                  else let ids = read_ids (unat n) (drop 8 data)
                       in if successively (<) ids then Some ids else None)"

section \<open>The producer\<close>

definition draw_outputs ::
  "LotteryState \<Rightarrow> CScript \<Rightarrow> CAmount list \<Rightarrow> CAmount \<Rightarrow> uint160 list \<Rightarrow> CTxOut list" where
  "draw_outputs st producerScript parts nFees winners =
     map (\<lambda>i. let dest = ScriptFor (winners ! i) (g_registry st);
                  dest = (if dest = [] then producerScript else dest);
                  v = (if parts = [] then 0 else parts ! i);
                  v = (if i = 0 then v + nFees else v)
              in \<lparr>nValue = v, scriptPubKey = dest\<rparr>) [0..<length winners]"

definition coinbase_outputs ::
  "'p secp256k1 \<Rightarrow> CChainParams \<Rightarrow> int \<Rightarrow> uint256 \<Rightarrow> CAmount \<Rightarrow> CAmount \<Rightarrow> CScript \<Rightarrow> Draw \<Rightarrow> LotteryState \<Rightarrow> CTxOut list" where
  "coinbase_outputs S p nHeight prevBlockHash subsidy nFees producerScript draw st =
     (let parts = SplitReward subsidy (int (length (d_winners draw)));
          seedSig = MakeSeedBlockCommitment S (g_attestorKey st) nHeight prevBlockHash (d_active draw)
      in draw_outputs st producerScript parts nFees (d_winners draw) @
         \<lparr>nValue = 0, scriptPubKey = MakeActiveSetCommitment (d_active draw)\<rparr> #
         (if RequireXAttestation p
          then \<lparr>nValue = 0, scriptPubKey = MakeXvaCommitment (g_attest st) (d_active draw)\<rparr> #
               (if seedSig \<noteq> [] then [\<lparr>nValue = 0, scriptPubKey = seedSig\<rparr>] else [])
          else []))"

definition ApplyCoinbasePayouts ::
  "'p secp256k1 \<Rightarrow> CChainParams \<Rightarrow> Env \<Rightarrow> int \<Rightarrow> uint256 \<Rightarrow> int \<Rightarrow> int \<Rightarrow> CAmount \<Rightarrow> CAmount \<Rightarrow> CScript \<Rightarrow>
   CBlock \<Rightarrow> LotteryState \<Rightarrow> CBlock \<times> LotteryState" where
  "ApplyCoinbasePayouts S p env nHeight prevBlockHash genesisTime interval subsidy nFees producerScript block st =
     (if nHeight < 1 \<or> vtx block = [] then (block, st)
      else let now = GetTime env;
               st = (if producerScript \<noteq> []
                     then st\<lparr>g_registry := SetLocalScript producerScript (g_registry st)\<rparr> else st);
               st = snd (HeartbeatLocal S p env now st);
               draw = ComputeDraw p env nHeight prevBlockHash genesisTime interval subsidy st
           in if d_winners draw = [] then (block, st)
              else let outs = coinbase_outputs S p nHeight prevBlockHash subsidy nFees producerScript draw st
                   in (block\<lparr>vtx := (vtx block)[0 := (vtx block ! 0)\<lparr>vout := outs\<rparr>]\<rparr>, st))"

section \<open>The check\<close>

text \<open>The first pass over the outputs: the committed ids, the stamp script and the seed script.\<close>

record Scan =
  committed :: "uint160 list option"
  xvaScript :: "CScript option"
  xsdScript :: "CScript option"

definition is_xsd :: "CScript \<Rightarrow> bool" where
  "is_xsd s \<longleftrightarrow> 5 < length s \<and> s ! 0 = OP_RETURN \<and>
     (case GetOp2 (drop 1 s) of None \<Rightarrow> False
      | Some (opcode, data, pc) \<Rightarrow> 4 \<le> length data \<and> take 4 data = bytes_of ''XSD1'')"

definition scan_output :: "Scan \<Rightarrow> CTxOut \<Rightarrow> Scan" where
  "scan_output f out =
     (let s = scriptPubKey out
      in if committed f = None \<and> ParseActiveSetCommitment s \<noteq> None
         then f\<lparr>committed := ParseActiveSetCommitment s\<rparr>
         else if xvaScript f = None \<and> ParseXvaCommitment s \<noteq> None then f\<lparr>xvaScript := Some s\<rparr>
         else if xsdScript f = None \<and> is_xsd s then f\<lparr>xsdScript := Some s\<rparr>
         else f)"

definition scan_outputs :: "CTxOut list \<Rightarrow> Scan" where
  "scan_outputs outs = foldl scan_output \<lparr>committed = None, xvaScript = None, xsdScript = None\<rparr> outs"

text \<open>
  \<open>CB_ok\<close> carries the stamp store after the check, \<open>CB_reject\<close> the reject reason (every rejection
  charges 100 points), \<open>CB_undefined\<close> is a read outside a vector.
\<close>

datatype cb_result = CB_ok attest_store | CB_reject string | CB_undefined

fun sum_pays :: "CTxOut list \<Rightarrow> CAmount \<Rightarrow> string + CAmount" where
  "sum_pays [] paid = Inr paid"
| "sum_pays (q # qs) paid =
     (if nValue q < 0 \<or> \<not> MoneyRange (nValue q) then Inl ''bad-cb-lottery-range''
      else if MAX_MONEY - nValue q < paid then Inl ''bad-cb-lottery-overflow''
      else sum_pays qs (paid + nValue q))"

fun check_pays :: "CAmount list \<Rightarrow> CAmount \<Rightarrow> nat \<Rightarrow> uint160 list \<Rightarrow> CTxOut list \<Rightarrow> attest_store \<Rightarrow> cb_result" where
  "check_pays parts nFees i [] pays g = CB_ok g"
| "check_pays parts nFees i (w # ws) [] g = CB_undefined"
| "check_pays parts nFees i (w # ws) (q # qs) g =
     (if IdFromScript (scriptPubKey q) \<noteq> w then CB_reject ''bad-cb-lottery-winner''
      else if length parts \<le> i then CB_undefined
      else if nValue q \<noteq> (if i = 0 then parts ! i + nFees else parts ! i) then CB_reject ''bad-cb-lottery-split''
      else check_pays parts nFees (Suc i) ws qs g)"

text \<open>The last part of the check, from the payouts and the winners.\<close>

definition check_amounts :: "CAmount \<Rightarrow> uint160 list \<Rightarrow> CTxOut list \<Rightarrow> attest_store \<Rightarrow> cb_result" where
  "check_amounts subsidy winners pays g =
     (case sum_pays pays 0 of Inl reason \<Rightarrow> CB_reject reason
      | Inr paid \<Rightarrow>
          if \<not> MoneyRange paid \<or> paid < subsidy then CB_reject ''bad-cb-lottery-amount''
          else if length pays \<noteq> length winners then CB_reject ''bad-cb-lottery-count''
          else check_pays (SplitReward subsidy (int (length winners))) (paid - subsidy) 0 winners pays g)"

definition CheckLotteryCoinbase ::
  "'p secp256k1 \<Rightarrow> CChainParams \<Rightarrow> CBlock \<Rightarrow> int \<Rightarrow> uint256 \<Rightarrow> int \<Rightarrow> int \<Rightarrow> CAmount \<Rightarrow> attest_store \<Rightarrow> cb_result" where
  "CheckLotteryCoinbase S p block nHeight prevBlockHash genesisTime interval subsidy g =
     (if nHeight < 1 then CB_ok g
      else if vtx block = [] \<or> \<not> IsCoinBase (vtx block ! 0) then CB_reject ''bad-cb-lottery''
      else let outs = vout (vtx block ! 0); f = scan_outputs outs
      in case committed f of None \<Rightarrow> CB_reject ''bad-cb-lottery-commit''
      | Some ids \<Rightarrow>
          if RequireXAttestation p \<and>
             (case xvaScript f of None \<Rightarrow> True | Some s \<Rightarrow> \<not> CheckXvaForIds S p ids s)
          then CB_reject ''bad-cb-lottery-xva''
          else if RequireXAttestation p \<and>
             (case xsdScript f of None \<Rightarrow> True
              | Some s \<Rightarrow> \<not> CheckSeedBlockCommitment S p nHeight prevBlockHash ids s)
          then CB_reject ''bad-cb-lottery-xsd''
          else let slot = SlotFromHeight nHeight genesisTime;
                   winners = SelectWinners ids (Seed prevBlockHash slot) (WinnerCount nHeight interval)
          in if winners = [] then CB_reject ''bad-cb-lottery-empty''
          else if list_ex (\<lambda>out. scriptPubKey out = []) outs then CB_reject ''bad-cb-lottery-script''
          else let pays = filter (\<lambda>out. scriptPubKey out ! 0 \<noteq> OP_RETURN) outs
          in check_amounts subsidy winners pays
               (case xvaScript f of None \<Rightarrow> g | Some s \<Rightarrow> CacheStampsFromXva S p s g))"

section \<open>Round trip of the commitment\<close>

lemma read_ids_concat: "\<forall>i \<in> set ids. length i = 20 \<Longrightarrow> read_ids (length ids) (concat ids) = ids"
  by (induction ids) auto

lemma concat_read_ids: "length data = n * 20 \<Longrightarrow> concat (read_ids n data) = data"
  by (induction n data rule: read_ids.induct) auto

lemma length_concat_ids: "\<forall>i \<in> set ids. length i = 20 \<Longrightarrow> length (concat ids) = 20 * length ids"
  by (induction ids) auto

lemma strictly_successive: "successively (<) (ids :: bytes list) \<longleftrightarrow> sorted_wrt (<) ids"
  by (rule successively_conv_sorted_wrt) (rule transpI, rule less_trans)

lemma active_set_data:
  assumes "\<forall>i \<in> set ids. length i = 20" "length ids \<le> 5000"
  shows "op_return_data (MakeActiveSetCommitment ids) =
    Some (bytes_of ''XHB1'' @ WriteLE32 (of_nat (length ids)) @ concat ids)"
  unfolding MakeActiveSetCommitment_def
  using assms by (intro op_return_round) (simp add: length_concat_ids)

lemma active_set_round:
  assumes "\<forall>i \<in> set ids. length i = 20" "length ids \<le> 1024" "sorted_wrt (<) ids"
  shows "ParseActiveSetCommitment (MakeActiveSetCommitment ids) = Some ids"
proof -
  have n: "unat (of_nat (length ids) :: u32) = length ids" "\<not> 1024 < (of_nat (length ids) :: u32)"
    using assms(2) by (simp_all add: unat_of_nat word_less_nat_alt)
  show ?thesis
    using assms n active_set_data [of ids]
    by (simp add: ParseActiveSetCommitment_def length_concat_ids read_ids_concat strictly_successive bytes_of_def)
qed

section \<open>What the check accepts\<close>

lemma sum_pays_Inr:
  assumes "0 \<le> paid" "paid \<le> MAX_MONEY"
  shows "sum_pays qs paid = Inr t \<longleftrightarrow>
    (\<forall>q \<in> set qs. MoneyRange (nValue q)) \<and> t = paid + sum_list (map nValue qs) \<and> t \<le> MAX_MONEY"
  using assms
proof (induction qs arbitrary: paid)
  case (Cons q qs)
  show ?case
  proof (cases "MoneyRange (nValue q) \<and> paid + nValue q \<le> MAX_MONEY")
    case True
    then have "0 \<le> paid + nValue q" "paid + nValue q \<le> MAX_MONEY" using Cons.prems by (auto simp: MoneyRange_def)
    from Cons.IH [OF this] True show ?thesis by (auto simp: MoneyRange_def)
  next
    case False
    have "0 \<le> sum_list (map nValue qs)" if "\<forall>q \<in> set qs. MoneyRange (nValue q)"
      using that by (intro sum_list_nonneg) (auto simp: MoneyRange_def)
    with False Cons.prems show ?thesis by (auto simp: MoneyRange_def)
  qed
qed auto

definition expected :: "CAmount list \<Rightarrow> CAmount \<Rightarrow> nat \<Rightarrow> CAmount" where
  "expected parts nFees i = (if i = 0 then parts ! i + nFees else parts ! i)"

lemma check_pays_ok:
  assumes "length pays = length ws" "i + length ws \<le> length parts"
  shows "check_pays parts nFees i ws pays g \<noteq> CB_undefined"
    and "check_pays parts nFees i ws pays g = CB_ok g' \<longleftrightarrow>
      g' = g \<and> map (IdFromScript \<circ> scriptPubKey) pays = ws \<and>
      map nValue pays = map (expected parts nFees) [i..<i + length ws]"
proof -
  have "check_pays parts nFees i ws pays g \<noteq> CB_undefined \<and>
    (check_pays parts nFees i ws pays g = CB_ok g' \<longleftrightarrow>
      g' = g \<and> map (IdFromScript \<circ> scriptPubKey) pays = ws \<and>
      map nValue pays = map (expected parts nFees) [i..<i + length ws])"
    using assms
  proof (induction pays ws arbitrary: i rule: list_induct2')
    case (4 q qs w ws)
    have "[i..<i + length (w # ws)] = i # [Suc i..<Suc i + length ws]" by (simp add: upt_rec)
    with 4 show ?case by (auto simp: expected_def)
  qed auto
  then show "check_pays parts nFees i ws pays g \<noteq> CB_undefined"
    "check_pays parts nFees i ws pays g = CB_ok g' \<longleftrightarrow>
      g' = g \<and> map (IdFromScript \<circ> scriptPubKey) pays = ws \<and>
      map nValue pays = map (expected parts nFees) [i..<i + length ws]" by blast+
qed

text \<open>The amounts a draw owes its winners: the split of the subsidy, the fees on top of the first part.\<close>

definition owed :: "CAmount \<Rightarrow> CAmount \<Rightarrow> nat \<Rightarrow> CAmount list" where
  "owed subsidy nFees w = map (expected (SplitReward subsidy (int w)) nFees) [0..<w]"

lemma SplitReward_parts:
  assumes "0 < w" "0 < subsidy"
  shows "length (SplitReward subsidy (int w)) = w" "q \<in> set (SplitReward subsidy (int w)) \<Longrightarrow> 0 \<le> q"
  using assms by (auto simp: SplitReward_map pos_imp_zdiv_nonneg_iff)

lemma expected_add:
  "map (expected parts f) [0..<length parts] = (case parts of [] \<Rightarrow> [] | q # qs \<Rightarrow> (q + f) # qs)"
  by (rule nth_equalityI) (auto simp: expected_def nth_Cons split: list.split nat.split)

lemma owed_facts:
  assumes "0 < w" "0 < subsidy"
  shows "length (owed subsidy nFees w) = w" "sum_list (owed subsidy nFees w) = subsidy + nFees"
    "0 \<le> nFees \<Longrightarrow> q \<in> set (owed subsidy nFees w) \<Longrightarrow> 0 \<le> q"
proof -
  obtain a as where parts: "SplitReward subsidy (int w) = a # as"
    using SplitReward_parts(1) [OF assms] assms(1) by (cases "SplitReward subsidy (int w)") auto
  have o: "owed subsidy nFees w = (a + nFees) # as"
  proof -
    have w: "w = length (a # as)" using SplitReward_parts(1) [OF assms] by (simp add: parts)
    have "owed subsidy nFees w = map (expected (a # as) nFees) [0..<length (a # as)]"
      unfolding owed_def parts by (simp only: w)
    then show ?thesis unfolding expected_add by simp
  qed
  show "length (owed subsidy nFees w) = w" by (simp add: owed_def)
  show "sum_list (owed subsidy nFees w) = subsidy + nFees"
    using sum_list_SplitReward [of "int w" subsidy] assms by (simp add: o parts)
  show "0 \<le> nFees \<Longrightarrow> q \<in> set (owed subsidy nFees w) \<Longrightarrow> 0 \<le> q"
    using SplitReward_parts(2) [OF assms] by (auto simp: o parts)
qed

abbreviation payouts :: "CTxOut list \<Rightarrow> CTxOut list" where
  "payouts outs \<equiv> filter (\<lambda>out. scriptPubKey out ! 0 \<noteq> OP_RETURN) outs"

abbreviation draw_winners :: "int \<Rightarrow> uint256 \<Rightarrow> int \<Rightarrow> int \<Rightarrow> uint160 list \<Rightarrow> uint160 list" where
  "draw_winners h prev genesis interval ids \<equiv>
     SelectWinners ids (Seed prev (SlotFromHeight h genesis)) (WinnerCount h interval)"

text \<open>The specification: the outputs pay the draw of the set \<open>ids\<close> they commit to, with \<open>nFees\<close> in fees.\<close>

definition pays_draw ::
  "'p secp256k1 \<Rightarrow> CChainParams \<Rightarrow> int \<Rightarrow> uint256 \<Rightarrow> int \<Rightarrow> int \<Rightarrow> CAmount \<Rightarrow> CTxOut list \<Rightarrow> uint160 list \<Rightarrow> CAmount \<Rightarrow> bool" where
  "pays_draw S p h prev genesis interval subsidy outs ids nFees \<longleftrightarrow>
     committed (scan_outputs outs) = Some ids \<and>
     (RequireXAttestation p \<longrightarrow>
        (\<exists>s. xvaScript (scan_outputs outs) = Some s \<and> CheckXvaForIds S p ids s) \<and>
        (\<exists>s. xsdScript (scan_outputs outs) = Some s \<and> CheckSeedBlockCommitment S p h prev ids s)) \<and>
     draw_winners h prev genesis interval ids \<noteq> [] \<and>
     (\<forall>out \<in> set outs. scriptPubKey out \<noteq> []) \<and> 0 \<le> nFees \<and> subsidy + nFees \<le> MAX_MONEY \<and>
     map (IdFromScript \<circ> scriptPubKey) (payouts outs) = draw_winners h prev genesis interval ids \<and>
     map nValue (payouts outs) = owed subsidy nFees (length (draw_winners h prev genesis interval ids))"

lemma check_amounts_exact:
  assumes "winners \<noteq> []" "0 < subsidy"
  shows "check_amounts subsidy winners pays g \<noteq> CB_undefined"
    and "check_amounts subsidy winners pays g = CB_ok g' \<longleftrightarrow>
      g' = g \<and> (\<exists>nFees \<ge> 0. subsidy + nFees \<le> MAX_MONEY \<and>
        map (IdFromScript \<circ> scriptPubKey) pays = winners \<and>
        map nValue pays = owed subsidy nFees (length winners))"
proof -
  let ?w = "length winners" and ?paid = "sum_list (map nValue pays)"
  have w: "0 < ?w" using assms(1) by simp
  note parts = SplitReward_parts(1) [OF w assms(2)] and o = owed_facts [OF w assms(2)]
  note chk = check_pays_ok [of pays winners 0 "SplitReward subsidy (int ?w)"]
  show "check_amounts subsidy winners pays g \<noteq> CB_undefined"
    using chk(1) parts by (auto simp: check_amounts_def split: sum.split)
  show "check_amounts subsidy winners pays g = CB_ok g' \<longleftrightarrow>
      g' = g \<and> (\<exists>nFees \<ge> 0. subsidy + nFees \<le> MAX_MONEY \<and>
        map (IdFromScript \<circ> scriptPubKey) pays = winners \<and>
        map nValue pays = owed subsidy nFees (length winners))" (is "?l \<longleftrightarrow> ?r")
  proof
    assume ?l
    then obtain paid where s: "sum_pays pays 0 = Inr paid" "subsidy \<le> paid" "length pays = ?w"
      "check_pays (SplitReward subsidy (int ?w)) (paid - subsidy) 0 winners pays g = CB_ok g'"
      by (auto simp: check_amounts_def split: sum.splits if_splits)
    from s(1) have "paid \<le> MAX_MONEY" by (simp add: sum_pays_Inr)
    with s chk(2) [OF s(3)] parts show ?r
      by (auto simp: owed_def intro!: exI [of _ "paid - subsidy"])
  next
    assume ?r
    then obtain f where f: "g' = g" "0 \<le> f" "subsidy + f \<le> MAX_MONEY"
      "map (IdFromScript \<circ> scriptPubKey) pays = winners" "map nValue pays = owed subsidy f ?w" by blast
    have paid: "?paid = subsidy + f" using f(5) o(2) by simp
    have nn: "\<forall>v \<in> set (map nValue pays). 0 \<le> v" using o(3) [OF f(2)] unfolding f(5) by blast
    have "nValue q \<le> ?paid" if "q \<in> set pays" for q
      using nn that by (intro member_le_sum_list) auto
    with nn have "\<forall>q \<in> set pays. MoneyRange (nValue q)"
      using paid f(3) by (fastforce simp: MoneyRange_def)
    then have s: "sum_pays pays 0 = Inr (subsidy + f)" using paid f(3) by (simp add: sum_pays_Inr)
    have len: "length pays = ?w" using f(4) by (metis length_map)
    show ?l
      using chk(2) [OF len, of f g g'] f parts assms(2)
      by (simp add: check_amounts_def s len MoneyRange_def owed_def)
  qed
qed

lemma CheckLotteryCoinbase_exact:
  assumes "1 \<le> h" "0 < subsidy"
  shows "CheckLotteryCoinbase S p block h prev genesis interval subsidy g \<noteq> CB_undefined"
    and "(\<exists>g'. CheckLotteryCoinbase S p block h prev genesis interval subsidy g = CB_ok g') \<longleftrightarrow>
      vtx block \<noteq> [] \<and> IsCoinBase (vtx block ! 0) \<and>
      (\<exists>ids nFees. pays_draw S p h prev genesis interval subsidy (vout (vtx block ! 0)) ids nFees)"
proof -
  let ?outs = "vout (vtx block ! 0)"
  note exact = check_amounts_exact [OF _ assms(2)]
  have h: "\<not> h < 1" using assms(1) by simp
  show "CheckLotteryCoinbase S p block h prev genesis interval subsidy g \<noteq> CB_undefined"
    by (auto simp: CheckLotteryCoinbase_def Let_def h exact(1) split: option.split)
  show "(\<exists>g'. CheckLotteryCoinbase S p block h prev genesis interval subsidy g = CB_ok g') \<longleftrightarrow>
      vtx block \<noteq> [] \<and> IsCoinBase (vtx block ! 0) \<and>
      (\<exists>ids nFees. pays_draw S p h prev genesis interval subsidy ?outs ids nFees)"
  proof (cases "vtx block = [] \<or> \<not> IsCoinBase (vtx block ! 0) \<or> committed (scan_outputs ?outs) = None")
    case True
    then show ?thesis by (auto simp: CheckLotteryCoinbase_def Let_def h pays_draw_def)
  next
    case False
    then obtain ids where ids: "committed (scan_outputs ?outs) = Some ids" by blast
    show ?thesis
      using False
      by (auto simp: CheckLotteryCoinbase_def Let_def h pays_draw_def ids exact(2) list_ex_iff
          split: option.splits)
  qed
qed

section \<open>What the producer writes\<close>

lemma not_op_return:
  assumes "s ! 0 \<noteq> OP_RETURN"
  shows "ParseActiveSetCommitment s = None" "ParseXvaCommitment s = None" "\<not> is_xsd s"
proof -
  have "op_return_data s = None" using assms by (simp add: op_return_data_def)
  then show "ParseActiveSetCommitment s = None" "ParseXvaCommitment s = None"
    by (simp_all add: ParseActiveSetCommitment_def ParseXvaCommitment_def xva_header_def)
  show "\<not> is_xsd s" using assms by (simp add: is_xsd_def)
qed

lemma scan_skips:
  "\<forall>out \<in> set outs. scriptPubKey out ! 0 \<noteq> OP_RETURN \<Longrightarrow> foldl scan_output f outs = f"
  by (induction outs) (auto simp: scan_output_def Let_def not_op_return)

lemma is_xsd_seed:
  assumes "length sig = 65"
  shows "is_xsd (op_return_script (bytes_of ''XSD1'' @ sig))"
proof -
  have "op_return_data (op_return_script (bytes_of ''XSD1'' @ sig)) = Some (bytes_of ''XSD1'' @ sig)"
    using assms by (intro op_return_round) simp
  moreover have "5 < length (op_return_script (bytes_of ''XSD1'' @ sig))"
    using assms by (simp add: op_return_script_def push_data_def push_opcode_def)
  ultimately show ?thesis
    by (auto simp: is_xsd_def op_return_data_def bytes_of_def split: if_splits option.splits)
qed

definition producer_state ::
  "'p secp256k1 \<Rightarrow> CChainParams \<Rightarrow> Env \<Rightarrow> CScript \<Rightarrow> LotteryState \<Rightarrow> LotteryState" where
  "producer_state S p env producerScript st =
     snd (HeartbeatLocal S p env (GetTime env)
       (if producerScript \<noteq> [] then st\<lparr>g_registry := SetLocalScript producerScript (g_registry st)\<rparr> else st))"

lemma producer_state_facts:
  assumes "node_inv S p st"
  shows "node_inv S p (producer_state S p env s st)" "g_attestorKey (producer_state S p env s st) = g_attestorKey st"
  unfolding producer_state_def HeartbeatLocal_key
  by (rule HeartbeatLocal_inv) (use assms in \<open>auto simp: node_inv_def reg_ok_SetLocalScript\<close>)

lemma draw_outputs_pay:
  assumes "\<And>w. w \<in> set winners \<Longrightarrow> ScriptFor w (g_registry st) \<noteq> []" "winners \<noteq> []" "0 < subsidy"
    and outs_def: "outs = draw_outputs st s (SplitReward subsidy (int (length winners))) nFees winners"
  shows "map scriptPubKey outs = map (\<lambda>w. ScriptFor w (g_registry st)) winners"
    and "map nValue outs = owed subsidy nFees (length winners)"
proof -
  have "SplitReward subsidy (int (length winners)) \<noteq> []"
    using SplitReward_parts(1) [of "length winners" subsidy] assms(2,3) by auto
  then show "map nValue outs = owed subsidy nFees (length winners)"
    by (auto simp: outs_def draw_outputs_def owed_def expected_def Let_def)
  show "map scriptPubKey outs = map (\<lambda>w. ScriptFor w (g_registry st)) winners"
    using assms(1) by (auto simp: outs_def draw_outputs_def Let_def intro: nth_equalityI)
qed

text \<open>Outputs of the shape the producer writes: payouts, then the commitments of a set.\<close>

lemma payouts_pay_draw:
  assumes pays: "map (IdFromScript \<circ> scriptPubKey) outs = draw_winners h prev genesis interval ids"
    "map nValue outs = owed subsidy nFees (length (draw_winners h prev genesis interval ids))"
    "\<forall>out \<in> set outs. scriptPubKey out \<noteq> [] \<and> scriptPubKey out ! 0 \<noteq> OP_RETURN"
    and set: "draw_winners h prev genesis interval ids \<noteq> []" "\<forall>i \<in> set ids. length i = 20"
      "length ids \<le> 1024" "sorted_wrt (<) ids"
    and money: "0 \<le> nFees" "subsidy + nFees \<le> MAX_MONEY"
    and att: "RequireXAttestation p \<Longrightarrow> ParseXvaCommitment xva \<noteq> None \<and> CheckXvaForIds S p ids xva \<and>
        is_xsd xsd \<and> CheckSeedBlockCommitment S p h prev ids xsd"
      "xva \<noteq> []" "xva ! 0 = OP_RETURN" "RequireXAttestation p \<Longrightarrow> xsd \<noteq> [] \<and> xsd ! 0 = OP_RETURN"
  shows "pays_draw S p h prev genesis interval subsidy
    (outs @ \<lparr>nValue = 0, scriptPubKey = MakeActiveSetCommitment ids\<rparr> #
       (if RequireXAttestation p then [\<lparr>nValue = 0, scriptPubKey = xva\<rparr>, \<lparr>nValue = 0, scriptPubKey = xsd\<rparr>] else []))
    ids nFees"
    (is "pays_draw S p h prev genesis interval subsidy ?all ids nFees")
proof -
  have hd: "MakeActiveSetCommitment ids \<noteq> []" "MakeActiveSetCommitment ids ! 0 = OP_RETURN"
    by (simp_all add: MakeActiveSetCommitment_def)
  have "filter (\<lambda>out. scriptPubKey out ! 0 \<noteq> OP_RETURN) outs = outs" using pays(3) by (simp add: filter_id_conv)
  then have "payouts ?all = outs" using att hd by simp
  moreover have "scan_outputs ?all =
      (if RequireXAttestation p then \<lparr>committed = Some ids, xvaScript = Some xva, xsdScript = Some xsd\<rparr>
       else \<lparr>committed = Some ids, xvaScript = None, xsdScript = None\<rparr>)"
    using att(1) pays(3) active_set_round [OF set(2-4)]
    by (simp add: scan_outputs_def scan_skips scan_output_def)
  ultimately show ?thesis
    using pays set(1) money att hd by (auto simp: pays_draw_def)
qed

lemma Apply_vtx:
  assumes "1 \<le> h" "vtx block \<noteq> []" "IsCoinBase (vtx block ! 0)"
    and d: "d = ComputeDraw p env h prev genesis interval subsidy (producer_state S p env s st)"
    and "d_winners d \<noteq> []"
    and b: "block' = fst (ApplyCoinbasePayouts S p env h prev genesis interval subsidy nFees s block st)"
  shows "vtx block' \<noteq> []" "IsCoinBase (vtx block' ! 0)"
    and "vout (vtx block' ! 0) = coinbase_outputs S p h prev subsidy nFees s d (producer_state S p env s st)"
proof -
  have h: "\<not> (h < 1 \<or> vtx block = [])" using assms(1,2) by simp
  have b: "block' = block\<lparr>vtx := (vtx block)[0 := (vtx block ! 0)
      \<lparr>vout := coinbase_outputs S p h prev subsidy nFees s d (producer_state S p env s st)\<rparr>]\<rparr>"
    using h assms(5)
    unfolding b ApplyCoinbasePayouts_def Let_def d producer_state_def [symmetric] by simp
  then show "vtx block' \<noteq> []" "IsCoinBase (vtx block' ! 0)"
    "vout (vtx block' ! 0) = coinbase_outputs S p h prev subsidy nFees s d (producer_state S p env s st)"
    using assms(2,3) by (simp_all add: nth_list_update IsCoinBase_def)
qed

lemma coinbase_outputs_pay_draw:
  assumes "secp_ok S" "node_inv S p st" "CKey_ok S (g_attestorKey st)"
    and money: "0 < subsidy" "0 \<le> nFees" "subsidy + nFees \<le> MAX_MONEY"
    and d: "d = ComputeDraw p env h prev genesis interval subsidy st"
    and win: "d_winners d \<noteq> []" "length (d_active d) \<le> 1024"
      "\<forall>w \<in> set (d_winners d). ScriptFor w (g_registry st) ! 0 \<noteq> OP_RETURN"
    and key: "RequireXAttestation p \<Longrightarrow> fValid (g_attestorKey st) \<and> AttestorPub p = CKey_GetPubKey S (g_attestorKey st)"
  shows "pays_draw S p h prev genesis interval subsidy (coinbase_outputs S p h prev subsidy nFees s d st) (d_active d) nFees"
proof -
  note known = ComputeDraw_known [OF assms(2) d] and sorted = ComputeDraw_sorted [OF assms(2) d]
  have store: "store_ok S p (g_attest st)" using assms(2) by (simp add: node_inv_def)
  have winners: "d_winners d = draw_winners h prev genesis interval (d_active d)"
    by (rule ComputeDraw_fields(1) [OF d])
  then have sub: "set (d_winners d) \<subseteq> set (d_active d)" using SelectWinners_facts(3) [OF sorted(2)] by simp
  let ?outs = "draw_outputs st s (SplitReward subsidy (int (length (d_winners d)))) nFees (d_winners d)"
  have "ScriptFor w (g_registry st) \<noteq> []" if "w \<in> set (d_winners d)" for w using known(2) sub that by blast
  note pay = draw_outputs_pay [OF this win(1) money(1) refl, of s nFees]
  have "map (IdFromScript \<circ> scriptPubKey) ?outs = map (\<lambda>w. IdFromScript (ScriptFor w (g_registry st))) (d_winners d)"
    using arg_cong [OF pay(1), of "map IdFromScript"] by (simp add: o_def)
  also have "\<dots> = d_winners d" using known(1) sub by (intro map_idI) blast
  finally have ids: "map (IdFromScript \<circ> scriptPubKey) ?outs = draw_winners h prev genesis interval (d_active d)"
    using winners by simp
  have vals: "map nValue ?outs = owed subsidy nFees (length (draw_winners h prev genesis interval (d_active d)))"
    using pay(2) by (simp only: winners [symmetric])
  have "set (map scriptPubKey ?outs) \<subseteq> (\<lambda>w. ScriptFor w (g_registry st)) ` set (d_winners d)"
    using arg_cong [OF pay(1), of set] by simp
  then have "\<exists>w \<in> set (d_winners d). scriptPubKey out = ScriptFor w (g_registry st)" if "out \<in> set ?outs" for out
    using that by auto
  then have scripts: "\<forall>out \<in> set ?outs. scriptPubKey out \<noteq> [] \<and> scriptPubKey out ! 0 \<noteq> OP_RETURN"
    using win(3) known(2) sub by (metis subsetD)
  let ?xva = "MakeXvaCommitment (g_attest st) (d_active d)" and ?xsd = "MakeSeedBlockCommitment S (g_attestorKey st) h prev (d_active d)"
  have xva_hd: "?xva \<noteq> []" "?xva ! 0 = OP_RETURN" by (simp_all add: MakeXvaCommitment_def split: prod.split)
  have att: "ParseXvaCommitment ?xva \<noteq> None \<and> CheckXvaForIds S p (d_active d) ?xva"
    "is_xsd ?xsd \<and> CheckSeedBlockCommitment S p h prev (d_active d) ?xsd" "?xsd \<noteq> [] \<and> ?xsd ! 0 = OP_RETURN"
    if req: "RequireXAttestation p"
  proof -
    have "\<forall>i \<in> set (d_active d). HasAttestation i (g_attest st) \<and> length i = 20"
      using ComputeDraw_fields(4) [OF d req] known(3) by blast
    from xva_round [OF store this win(2)]
    show "ParseXvaCommitment ?xva \<noteq> None \<and> CheckXvaForIds S p (d_active d) ?xva" by blast
    have k: "fValid (g_attestorKey st)" "AttestorPub p = CKey_GetPubKey S (g_attestorKey st)" using key [OF req] by auto
    note seed = seed_block_round [OF assms(1,3) k, of h prev "d_active d"]
    then obtain sig where "length sig = 65" "?xsd = op_return_script (bytes_of ''XSD1'' @ sig)" by blast
    with seed(1) is_xsd_seed [of sig]
    show "is_xsd ?xsd \<and> CheckSeedBlockCommitment S p h prev (d_active d) ?xsd" "?xsd \<noteq> [] \<and> ?xsd ! 0 = OP_RETURN"
      by simp_all
  qed
  have set: "draw_winners h prev genesis interval (d_active d) \<noteq> []" "\<forall>i \<in> set (d_active d). length i = 20"
    using win(1) winners known(3) by auto
  have "pays_draw S p h prev genesis interval subsidy
    (?outs @ \<lparr>nValue = 0, scriptPubKey = MakeActiveSetCommitment (d_active d)\<rparr> #
       (if RequireXAttestation p then [\<lparr>nValue = 0, scriptPubKey = ?xva\<rparr>, \<lparr>nValue = 0, scriptPubKey = ?xsd\<rparr>] else []))
    (d_active d) nFees"
    using att
    by (intro payouts_pay_draw [OF ids vals scripts set win(2) sorted(1) money(2,3) _ xva_hd])
      simp_all
  then show ?thesis
    using att(3) by (cases "RequireXAttestation p") (simp_all add: coinbase_outputs_def Let_def)
qed

section \<open>Properties\<close>

text \<open>
  C1. The consensus check of the coinbase is exact: above the genesis block and while there is a
  subsidy, \<^verbatim>\<open>CheckLotteryCoinbase\<close> never reads outside a vector, and it accepts a block if and
  only if its first transaction is a coinbase whose outputs pay the draw of the active set they
  commit to: every winner of that draw, in order, the split of the subsidy, with non-negative
  fees on top of the first part and nothing to anyone else, stamped and signed by the seed where
  the network requires it.
\<close>

theorem lottery_check_exact:
  assumes "1 \<le> h" "0 < subsidy"
  shows "CheckLotteryCoinbase S p block h prev genesis interval subsidy g \<noteq> CB_undefined \<and>
    ((\<exists>g'. CheckLotteryCoinbase S p block h prev genesis interval subsidy g = CB_ok g') \<longleftrightarrow>
     vtx block \<noteq> [] \<and> IsCoinBase (vtx block ! 0) \<and>
     (\<exists>ids nFees. pays_draw S p h prev genesis interval subsidy (vout (vtx block ! 0)) ids nFees))"
  using CheckLotteryCoinbase_exact [OF assms] by blast

text \<open>
  C2. The coinbase a producer writes is accepted by every node, whatever stamps that node holds:
  for a producer whose state is well formed and whose draw is not empty, the block that
  \<^verbatim>\<open>ApplyCoinbasePayouts\<close> returns passes \<^verbatim>\<open>CheckLotteryCoinbase\<close>. The draw must have at most 1024
  active ids and no winner with a payout script that opens with \<^verbatim>\<open>OP_RETURN\<close>, and where stamps
  are required the producer must hold the attestor key.
\<close>

theorem producer_coinbase_accepted:
  assumes "secp_ok S" "node_inv S p st" "CKey_ok S (g_attestorKey st)"
    and "1 \<le> h" "vtx block \<noteq> []" "IsCoinBase (vtx block ! 0)"
    and "0 < subsidy" "0 \<le> nFees" "subsidy + nFees \<le> MAX_MONEY"
    and "d = ComputeDraw p env h prev genesis interval subsidy (producer_state S p env s st)"
    and "d_winners d \<noteq> []" "length (d_active d) \<le> 1024"
    and "\<forall>w \<in> set (d_winners d). ScriptFor w (g_registry (producer_state S p env s st)) ! 0 \<noteq> OP_RETURN"
    and "RequireXAttestation p \<Longrightarrow> fValid (g_attestorKey st) \<and> AttestorPub p = CKey_GetPubKey S (g_attestorKey st)"
  shows "\<exists>g'. CheckLotteryCoinbase S p
    (fst (ApplyCoinbasePayouts S p env h prev genesis interval subsidy nFees s block st))
    h prev genesis interval subsidy g = CB_ok g'"
proof -
  note st' = producer_state_facts [OF assms(2), of env s]
  note written = Apply_vtx [OF assms(4-6,10,11) refl, of nFees]
  have "CKey_ok S (g_attestorKey (producer_state S p env s st))" using assms(3) st'(2) by simp
  from coinbase_outputs_pay_draw [OF assms(1) st'(1) this assms(7-13), of s] assms(14)
  have "pays_draw S p h prev genesis interval subsidy
    (coinbase_outputs S p h prev subsidy nFees s d (producer_state S p env s st)) (d_active d) nFees"
    by (simp add: st'(2))
  with written CheckLotteryCoinbase_exact(2) [OF assms(4,7)] show ?thesis by metis
qed

section \<open>A producer and its block\<close>

definition ex_env :: Env where
  "ex_env = \<lparr>GetTime = 1200, SessionIsXVerified = False, WalletAllowsHeartbeat = False,
     LookupEnabled = False, LookupHandle = (\<lambda>h. LOOKUP_FAILED)\<rparr>"

definition ex_state :: "bytes \<Rightarrow> LotteryState" where
  "ex_state sig = \<lparr>g_registry = ex_reg, g_allowlist = Allowlist_init,
     g_attest = StoreAttestation secp_demo demo_params id_one ''alice'' sig [],
     g_attestorKey = demo_key, g_forceBakedSeedForTest = False\<rparr>"

definition ex_block :: CBlock where
  "ex_block = \<lparr>b_nVersion = 1, hashPrevBlock = uint256_null, hashMerkleRoot = uint256_null, nTime = 1020,
     nBits = 0, nNonce = 0, b_nHeight = 1, nNonce64 = 0, mix_hash = uint256_null,
     vtx = [\<lparr>vin = [\<lparr>prevout = \<lparr>op_hash = uint256_null, op_n = -1\<rparr>, scriptSig = [0x51, 0],
       nSequence = -1, scriptWitness = []\<rparr>], vout = [], nVersion = 1, nLockTime = 0\<rparr>]\<rparr>"

lemma ex_block_facts: "vtx ex_block \<noteq> []" "IsCoinBase (vtx ex_block ! 0)"
  by (simp_all add: ex_block_def IsCoinBase_def OutPoint_IsNull_def blob_IsNull_def uint256_null_def list_all_iff)

lemma ex_state_inv: "node_inv secp_demo demo_params (ex_state sig)"
  using reg_reach_ok [OF ex_reg_reach] store_ok_Store [OF store_ok_empty]
  by (simp add: node_inv_def ex_state_def allow_ok_init)

lemma ex_producer_state: "producer_state secp_demo demo_params ex_env [] (ex_state sig) = ex_state sig"
  by (simp add: producer_state_def HeartbeatLocal_def ex_state_def ex_reg_def Registry_init_def)

lemma ex_draw:
  assumes "VerifyAttestation secp_demo demo_params id_one ''alice'' sig"
  defines "d \<equiv> ComputeDraw demo_params ex_env 1 uint256_null 1000 2100000 500000000000 (ex_state sig)"
  shows "d_active d = [id_one]" "d_winners d = [id_one]"
proof -
  have "ActiveIdsForSlot 1200 17 ex_reg = [id_one]"
    by (simp add: ActiveIdsForSlot_def ex_reg_def frozen_def ex_node_def)
  moreover have "HasAttestation id_one (g_attest (ex_state sig))"
    using assms(1) by (simp add: HasAttestation_def ex_state_def StoreAttestation_def ex_handles)
  ultimately show act: "d_active d = [id_one]"
    by (simp add: d_def ComputeDraw_def Let_def SlotFromHeight_def SlotFromTime_def ex_env_def ex_state_def)
  show "d_winners d = [id_one]"
    using ComputeDraw_fields(1) [of d demo_params ex_env 1 uint256_null 1000 2100000 500000000000 "ex_state sig"]
    by (simp add: act d_def [symmetric] WinnerCount_def SelectWinners_def)
qed

theorem producer_coinbase_accepted_witness:
  "\<exists>sig g'. CheckLotteryCoinbase secp_demo demo_params
     (fst (ApplyCoinbasePayouts secp_demo demo_params ex_env 1 uint256_null 1000 2100000 500000000000 700 []
        ex_block (ex_state sig)))
     1 uint256_null 1000 2100000 500000000000 [] = CB_ok g'"
proof -
  obtain sig where sig: "VerifyAttestation secp_demo demo_params id_one ''alice'' sig"
    by (rule demo_stamp [of id_one "''alice''"])
  note d = ex_draw [OF sig]
  have "\<exists>g'. CheckLotteryCoinbase secp_demo demo_params
     (fst (ApplyCoinbasePayouts secp_demo demo_params ex_env 1 uint256_null 1000 2100000 500000000000 700 []
        ex_block (ex_state sig)))
     1 uint256_null 1000 2100000 500000000000 [] = CB_ok g'"
    by (rule producer_coinbase_accepted [OF secp_demo_ok ex_state_inv _ _ ex_block_facts _ _ _ refl])
      (simp_all add: ex_producer_state d, simp_all add: ex_state_def demo_key_ok demo_attestor
        ScriptFor_def ex_reg_node, simp_all add: ex_node_def)
  then show ?thesis by blast
qed

theorem lottery_check_exact_witness:
  "\<not> (\<exists>g'. CheckLotteryCoinbase secp_demo demo_params ex_block 1 uint256_null 1000 2100000 500000000000 [] = CB_ok g')"
  using lottery_check_exact [of 1 500000000000 secp_demo demo_params ex_block uint256_null 1000 2100000 "[]"]
  by (simp add: pays_draw_def scan_outputs_def ex_block_def)

section \<open>Blocks a producer cannot get accepted\<close>

text \<open>
  A payout script only has to name a key hash, which an asset-shaped script does whatever its
  first byte is: a heartbeat for a script that opens with \<^verbatim>\<open>OP_RETURN\<close>, signed by the key whose
  hash sits at bytes 3 to 22, is accepted.
\<close>

definition op_return_payout :: "'p secp256k1 \<Rightarrow> CKey \<Rightarrow> CScript" where
  "op_return_payout S k = [OP_RETURN, 0, 0] @ CPubKey_GetID (CKey_GetPubKey S k) @
     [0, 0, OP_RVN_ASSET, 0, 0x72, 0x76, 0x6e, 0x74] @ replicate 10 0"

lemma op_return_payout_heartbeat:
  assumes "secp_ok S" "CKey_ok S k" "NormalizeXHandle hnd = Inr norm"
    and "SignHeartbeat S k t (op_return_payout S k) norm uid ver = Some sig"
  shows "VerifyHeartbeatSig S (op_return_payout S k) t hnd uid sig ver" "op_return_payout S k ! 0 = OP_RETURN"
proof -
  let ?s = "op_return_payout S k"
  have l: "length (CPubKey_GetID (CKey_GetPubKey S k)) = 20" by (simp add: CPubKey_GetID_def)
  have n: "?s ! 25 = OP_RVN_ASSET" "?s ! 27 = 0x72" "?s ! 28 = 0x76" "?s ! 29 = 0x6e" "?s ! 30 = 0x74" "length ?s = 41"
    using l by (simp_all add: op_return_payout_def nth_append nth_Cons')
  then have "IsAssetScript ?s = Some (TX_TRANSFER_ASSET, False, 31)"
    by (simp add: IsAssetScript_def asset_index_def)
  from asset_destination [OF _ this]
  have dest: "ExtractDestination ?s = Some (CKeyID (CPubKey_GetID (CKey_GetPubKey S k)))"
    using n(6) l by (simp add: op_return_payout_def)
  have "CKey_SignCompact S k (HeartbeatDigest t ?s norm uid ver) = Some sig"
    using assms(4) by (simp add: SignHeartbeat_def split: if_splits)
  note rec = SignCompact_RecoverCompact [OF assms(1,2) this]
  then have "sig \<noteq> []" by auto
  moreover have "?s \<noteq> []" by (simp add: op_return_payout_def)
  ultimately show "VerifyHeartbeatSig S ?s t hnd uid sig ver"
    using rec assms(3) n(6) by (simp add: VerifyHeartbeatSig_def dest)
  show "?s ! 0 = OP_RETURN" by (simp add: op_return_payout_def)
qed

text \<open>
  When the script of a winner opens with \<^verbatim>\<open>OP_RETURN\<close>, the check does not count its output as a
  payout, so the coinbase the producer writes for that draw is refused.
\<close>

lemma coinbase_outputs_payouts:
  assumes "w \<in> set (d_winners d)" "ScriptFor w (g_registry st) \<noteq> []" "ScriptFor w (g_registry st) ! 0 = OP_RETURN"
  shows "length (payouts (coinbase_outputs S p h prev subsidy nFees s d st)) < length (d_winners d)"
proof -
  let ?outs = "draw_outputs st s (SplitReward subsidy (int (length (d_winners d)))) nFees (d_winners d)"
  have commit: "MakeActiveSetCommitment (d_active d) ! 0 = OP_RETURN"
    "MakeXvaCommitment (g_attest st) (d_active d) ! 0 = OP_RETURN"
    "MakeSeedBlockCommitment S k h prev (d_active d) \<noteq> [] \<Longrightarrow>
     MakeSeedBlockCommitment S k h prev (d_active d) ! 0 = OP_RETURN" for k
    by (auto simp: MakeActiveSetCommitment_def MakeXvaCommitment_def MakeSeedBlockCommitment_def
        split: prod.split option.splits if_splits)
  then have "payouts (coinbase_outputs S p h prev subsidy nFees s d st) = payouts ?outs"
    by (simp add: coinbase_outputs_def Let_def)
  moreover obtain k where k: "k < length (d_winners d)" "d_winners d ! k = w" using assms(1) by (metis in_set_conv_nth)
  have "length ?outs = length (d_winners d)" "scriptPubKey (?outs ! k) = ScriptFor w (g_registry st)"
    using k assms(2) by (simp_all add: draw_outputs_def Let_def)
  then have "\<exists>out \<in> set ?outs. scriptPubKey out ! 0 = OP_RETURN" using k(1) assms(3) by (metis nth_mem)
  then have "length (payouts ?outs) < length ?outs" by (auto intro!: length_filter_less)
  ultimately show ?thesis using \<open>length ?outs = length (d_winners d)\<close> by simp
qed

theorem op_return_winner_refused:
  assumes "node_inv S p st" "1 \<le> h" "0 < subsidy" "vtx block \<noteq> []" "IsCoinBase (vtx block ! 0)"
    and d: "d = ComputeDraw p env h prev genesis interval subsidy (producer_state S p env s st)"
    and w: "w \<in> set (d_winners d)" "ScriptFor w (g_registry (producer_state S p env s st)) ! 0 = OP_RETURN"
    and "committed (scan_outputs (coinbase_outputs S p h prev subsidy nFees s d (producer_state S p env s st))) = Some (d_active d)"
  shows "CheckLotteryCoinbase S p
    (fst (ApplyCoinbasePayouts S p env h prev genesis interval subsidy nFees s block st))
    h prev genesis interval subsidy g \<noteq> CB_ok g'"
proof
  let ?st = "producer_state S p env s st" and ?block = "fst (ApplyCoinbasePayouts S p env h prev genesis interval subsidy nFees s block st)"
  let ?outs = "coinbase_outputs S p h prev subsidy nFees s d ?st"
  assume "CheckLotteryCoinbase S p ?block h prev genesis interval subsidy g = CB_ok g'"
  moreover have "d_winners d \<noteq> []" using w(1) by auto
  note written = Apply_vtx [OF assms(2,4,5) d this refl, of nFees]
  ultimately obtain ids fees where pd: "pays_draw S p h prev genesis interval subsidy ?outs ids fees"
    using CheckLotteryCoinbase_exact(2) [OF assms(2,3), of S p ?block prev genesis interval g] by auto
  then have "ids = d_active d" using assms(9) by (simp add: pays_draw_def)
  with pd have "map (IdFromScript \<circ> scriptPubKey) (payouts ?outs) = d_winners d"
    by (simp add: pays_draw_def ComputeDraw_fields(1) [OF d])
  then have "length (payouts ?outs) = length (d_winners d)" by (metis length_map)
  moreover have "ScriptFor w (g_registry ?st) \<noteq> []"
    using ComputeDraw_known(2) [OF producer_state_facts(1) [OF assms(1)] d] w(1) ComputeDraw_fields(1) [OF d]
      SelectWinners_facts(3) [OF ComputeDraw_sorted(2) [OF producer_state_facts(1) [OF assms(1)] d]]
    by (metis subsetD)
  ultimately show False using coinbase_outputs_payouts [OF w(1) _ w(2), of S p h prev subsidy nFees s] by simp
qed

text \<open>A set of more than 1024 ids has no commitment the parsers accept, though the registry keeps 4096 nodes.\<close>

theorem large_set_has_no_commitment:
  assumes "\<forall>i \<in> set ids. length i = 20" "1024 < length ids" "length ids \<le> MAX_ACTIVE_NODES"
  shows "ParseActiveSetCommitment (MakeActiveSetCommitment ids) = None"
proof -
  have "1024 < (of_nat (length ids) :: u32)" using assms(2,3) by (simp add: word_less_nat_alt unat_of_nat)
  then show ?thesis
    using active_set_data [OF assms(1)] assms(3) by (simp add: ParseActiveSetCommitment_def bytes_of_def)
qed

text \<open>With no subsidy left, the check of the first payout reads the empty vector of parts.\<close>

theorem no_subsidy_reads_out_of_bounds:
  assumes "winners \<noteq> []" "map (IdFromScript \<circ> scriptPubKey) pays = winners"
    and "\<forall>q \<in> set pays. MoneyRange (nValue q)" "sum_list (map nValue pays) \<le> MAX_MONEY"
  shows "check_amounts 0 winners pays g = CB_undefined"
proof -
  have "0 \<le> sum_list (map nValue pays)" using assms(3) by (intro sum_list_nonneg) (auto simp: MoneyRange_def)
  moreover have "sum_pays pays 0 = Inr (sum_list (map nValue pays))" using assms(3,4) by (simp add: sum_pays_Inr)
  moreover obtain q qs w ws where "pays = q # qs" "winners = w # ws" "IdFromScript (scriptPubKey q) = w" "length qs = length ws"
    using assms(1,2) by (cases pays) auto
  ultimately show ?thesis
    using assms(4) by (simp add: check_amounts_def MoneyRange_def SplitReward_def)
qed

end
