(* ===== verification/XC_SHA1.thy ===== *)
theory XC_SHA1
  imports XC_RIPEMD160
begin

text \<open>
  \<^verbatim>\<open>src/src/crypto/sha1.cpp\<close>: the eighty unrolled rounds and the class \<^verbatim>\<open>CSHA1\<close>,
  the third provider of the contract \<open>stream_hash\<close>. \<open>fips1_compress\<close> is the definition of the
  standard, with an eighty-word schedule and shifting registers.
\<close>

section \<open>Rounds\<close>

definition sha1_f1 :: "u32 \<Rightarrow> u32 \<Rightarrow> u32 \<Rightarrow> u32" where
  "sha1_f1 b c d = d XOR (b AND (c XOR d))"

definition sha1_f2 :: "u32 \<Rightarrow> u32 \<Rightarrow> u32 \<Rightarrow> u32" where
  "sha1_f2 b c d = b XOR c XOR d"

definition sha1_f3 :: "u32 \<Rightarrow> u32 \<Rightarrow> u32 \<Rightarrow> u32" where
  "sha1_f3 b c d = (b AND c) OR (d AND (b OR c))"

definition sha1_left :: "u32 \<Rightarrow> u32" where
  "sha1_left x = push_bit 1 x OR drop_bit 31 x"

text \<open>\<^verbatim>\<open>Round(a, b, c, d, e, f, k, w)\<close> in call number \<open>t\<close>; it writes \<^verbatim>\<open>e\<close> and \<^verbatim>\<open>b\<close>.\<close>

definition sha1_Round ::
  "nat \<Rightarrow> (u32 \<Rightarrow> u32 \<Rightarrow> u32 \<Rightarrow> u32) \<Rightarrow> u32 \<Rightarrow> u32 \<Rightarrow> u32 list \<Rightarrow> u32 list" where
  "sha1_Round t f k w r =
     (let a = r ! reg5 t 0; b = r ! reg5 t 1; c = r ! reg5 t 2; d = r ! reg5 t 3; e = r ! reg5 t 4
      in r[reg5 t 4 := e + ((push_bit 5 a OR drop_bit 27 a) + f b c d + k + w),
           reg5 t 1 := push_bit 30 b OR drop_bit 2 b])"

definition sha1_Initialize :: "u32 list" where
  "sha1_Initialize = [0x67452301, 0xEFCDAB89, 0x98BADCFE, 0x10325476, 0xC3D2E1F0]"

definition sha1_f :: "nat \<Rightarrow> u32 \<Rightarrow> u32 \<Rightarrow> u32 \<Rightarrow> u32" where
  "sha1_f t =
     (if t < 20 then sha1_f1 else if t < 40 then sha1_f2 else if t < 60 then sha1_f3 else sha1_f2)"

definition sha1_k :: "nat \<Rightarrow> u32" where
  "sha1_k t =
     (if t < 20 then 0x5A827999 else if t < 40 then 0x6ED9EBA1
      else if t < 60 then 0x8F1BBCDC else 0xCA62C1D6)"

definition sha1_word :: "bytes \<Rightarrow> nat \<Rightarrow> u32 list \<Rightarrow> u32" where
  "sha1_word chunk t w =
     (if t < 16 then ReadBE32 (drop (4 * t) chunk)
      else sha1_left (w ! (t mod 16) XOR w ! ((t + 13) mod 16) XOR w ! ((t + 8) mod 16)
                      XOR w ! ((t + 2) mod 16)))"

text \<open>The last three calls do not store their word, which nothing reads afterwards.\<close>

definition sha1_step :: "bytes \<Rightarrow> u32 list \<times> u32 list \<Rightarrow> nat \<Rightarrow> u32 list \<times> u32 list" where
  "sha1_step chunk = (\<lambda>(r, w) t.
     let x = sha1_word chunk t w
     in (sha1_Round t (sha1_f t) (sha1_k t) x r, w[t mod 16 := x]))"

definition sha1_Transform :: "u32 list \<Rightarrow> bytes \<Rightarrow> u32 list" where
  "sha1_Transform s chunk =
     map2 (+) s (fst (foldl (sha1_step chunk) (s, replicate 16 0) [0..<80]))"

section \<open>CSHA1\<close>

definition CSHA1 :: "bytes \<Rightarrow> hasher" where
  "CSHA1 buf = \<lparr>hs = sha1_Initialize, hbuf = buf, hbytes = 0\<rparr>"

definition CSHA1_Write :: "hasher \<Rightarrow> bytes \<Rightarrow> hasher" where
  "CSHA1_Write = buffered_write sha1_Transform"

definition CSHA1_Finalize :: "hasher \<Rightarrow> bytes" where
  "CSHA1_Finalize h =
    (let sizedesc = WriteBE64 (push_bit 3 (hbytes h));
         h = CSHA1_Write h (pad64 (unat (hbytes h)));
         h = CSHA1_Write h sizedesc
     in concat (map WriteBE32 (hs h)))"

definition CSHA1_Reset :: "hasher \<Rightarrow> hasher" where
  "CSHA1_Reset h = h\<lparr>hbytes := 0, hs := sha1_Initialize\<rparr>"

definition sha1_parts :: "bytes list \<Rightarrow> bytes" where
  "sha1_parts ps = CSHA1_Finalize (foldl CSHA1_Write (CSHA1 (replicate 64 0)) ps)"

interpretation sha1: stream_hash sha1_Transform sha1_Initialize CSHA1_Write
  by unfold_locales (simp add: CSHA1_Write_def buffered_write_repr)

section \<open>The standard's compression function\<close>

definition fips1_f :: "nat \<Rightarrow> u32 \<Rightarrow> u32 \<Rightarrow> u32 \<Rightarrow> u32" where
  "fips1_f t x y z =
     (if t < 20 then fips_Ch x y z
      else if 40 \<le> t \<and> t < 60 then fips_Maj x y z
      else x XOR y XOR z)"

fun fips1_W :: "bytes \<Rightarrow> nat \<Rightarrow> u32" where
  "fips1_W c t =
     (if t < 16 then be_word (take 4 (drop (4 * t) c))
      else word_rotl 1 (fips1_W c (t - 3) XOR fips1_W c (t - 8) XOR fips1_W c (t - 14)
                        XOR fips1_W c (t - 16)))"

declare fips1_W.simps [simp del]

fun fips1_round :: "nat \<Rightarrow> u32 \<Rightarrow> u32 list \<Rightarrow> u32 list" where
  "fips1_round t w [a, b, c, d, e] =
     [word_rotl 5 a + fips1_f t b c d + e + sha1_k t + w, a, word_rotl 30 b, c, d]"
| "fips1_round t w r = r"

definition fips1_compress :: "u32 list \<Rightarrow> bytes \<Rightarrow> u32 list" where
  "fips1_compress s c = map2 (+) s (foldl (\<lambda>r t. fips1_round t (fips1_W c t) r) s [0..<80])"

definition fips_sha1 :: "bytes \<Rightarrow> bytes" where
  "fips_sha1 m =
     concat (map WriteBE32 (chain fips1_compress sha1_Initialize
       (m @ pad64 (length m) @ WriteBE64 (of_nat (8 * length m)))))"

section \<open>The unrolled rounds are the standard's\<close>

lemma sha1_f_fips: "sha1_f t x y z = fips1_f t x y z"
  by (rule bit_word_eqI)
    (auto simp: sha1_f_def fips1_f_def sha1_f1_def sha1_f2_def sha1_f3_def fips_Ch_def
      fips_Maj_def bit_simps)

lemma rotl_shifts: "0 < i \<Longrightarrow> i < 32 \<Longrightarrow> push_bit i x OR drop_bit (32 - i) x = word_rotl i (x :: u32)"
  using rol_rotl [of i x] by (simp add: rmd_rol_def)

lemma sha1_rotl:
  "push_bit 5 x OR drop_bit 27 x = word_rotl 5 x" "push_bit 30 x OR drop_bit 2 x = word_rotl 30 x"
  "sha1_left x = word_rotl 1 x"
  using rotl_shifts [of 5 x] rotl_shifts [of 30 x] rotl_shifts [of 1 x]
  unfolding sha1_left_def by simp_all

lemma sha1_Round_fips:
  assumes "length r = 5"
  shows "map (\<lambda>j. sha1_Round t (sha1_f n) (sha1_k n) w r ! reg5 (Suc t) j) [0..<5] =
         fips1_round n w (map (\<lambda>j. r ! reg5 t j) [0..<5])"
proof -
  have "t mod 5 < 5" by simp
  then consider "t mod 5 = 0" | "t mod 5 = 1" | "t mod 5 = 2" | "t mod 5 = 3" | "t mod 5 = 4"
    by linarith
  then show ?thesis
    by cases (rule list5 [OF assms]; simp add: sha1_Round_def reg5_def mod_Suc upt_rec
        sha1_rotl sha1_f_fips Let_def add.commute add.left_commute)+
qed

lemma length_sha1_Round [simp]: "length (sha1_Round t f k w r) = length r"
  by (simp add: sha1_Round_def Let_def)

lemma sha1_word_fips:
  assumes "sched_ok (fips1_W c) t w"
  shows "sha1_word c t w = fips1_W c t"
proof (cases "t < 16")
  case True
  then show ?thesis
    by (simp add: sha1_word_def fips1_W.simps [of c t] ReadBE32_def)
next
  case False
  then obtain u where u: "t = u + 16"
    by (metis add.commute le_Suc_ex not_less)
  note slot = sched_slot [OF assms u]
  from slot [of 0] slot [of 13] slot [of 8] slot [of 2]
  have slots: "w ! (t mod 16) = fips1_W c u" "w ! ((t + 13) mod 16) = fips1_W c (u + 13)"
    "w ! ((t + 8) mod 16) = fips1_W c (u + 8)" "w ! ((t + 2) mod 16) = fips1_W c (u + 2)"
    by simp_all
  have "fips1_W c t =
      word_rotl 1 (fips1_W c (u + 13) XOR fips1_W c (u + 8) XOR fips1_W c (u + 2) XOR fips1_W c u)"
    by (simp add: fips1_W.simps [of c "16 + u"] u add.commute [of u])
  with False show ?thesis
    using slots unfolding sha1_word_def sha1_rotl by (simp only: if_False ac_simps)
qed

lemma sha1_steps_fips:
  assumes "length s = 5"
  shows "case foldl (sha1_step c) (s, replicate 16 0) [0..<t] of (r, w) \<Rightarrow>
    length r = 5 \<and> sched_ok (fips1_W c) t w \<and>
    map (\<lambda>j. r ! reg5 t j) [0..<5] = foldl (\<lambda>r t. fips1_round t (fips1_W c t) r) s [0..<t]"
proof (induction t)
  case 0
  have "map (\<lambda>j. s ! reg5 0 j) [0..<5] = s"
    using assms by (intro nth_equalityI) (simp_all add: reg5_def)
  with assms show ?case by (simp add: sched_ok_def)
next
  case (Suc t)
  obtain r w where st: "foldl (sha1_step c) (s, replicate 16 0) [0..<t] = (r, w)"
    by fastforce
  with Suc.IH have IH: "length r = 5" "sched_ok (fips1_W c) t w"
    "map (\<lambda>j. r ! reg5 t j) [0..<5] = foldl (\<lambda>r t. fips1_round t (fips1_W c t) r) s [0..<t]"
    by simp_all
  have "foldl (sha1_step c) (s, replicate 16 0) [0..<Suc t] = sha1_step c (r, w) t"
    using st by simp
  also have "\<dots> = (sha1_Round t (sha1_f t) (sha1_k t) (fips1_W c t) r, w[t mod 16 := fips1_W c t])"
    by (simp add: sha1_step_def sha1_word_fips [OF IH(2)] Let_def)
  finally show ?case
    using sched_ok_step [OF IH(2)] sha1_Round_fips [OF IH(1), of t t "fips1_W c t"] IH
    by (simp del: upt.simps(2) add: upt_Suc_append)
qed

lemma sha1_Transform_fips:
  assumes "length s = 5"
  shows "sha1_Transform s c = fips1_compress s c"
proof -
  obtain r w where st: "foldl (sha1_step c) (s, replicate 16 0) [0..<80] = (r, w)"
    by fastforce
  with sha1_steps_fips [OF assms, of c 80] have r: "length r = 5"
    and eq: "map (\<lambda>j. r ! reg5 80 j) [0..<5] =
      foldl (\<lambda>r t. fips1_round t (fips1_W c t) r) s [0..<80]"
    by simp_all
  have "map (\<lambda>j. r ! reg5 80 j) [0..<5] = r"
    using r by (intro nth_equalityI) (simp_all add: reg5_def)
  with eq st show ?thesis
    by (simp add: sha1_Transform_def fips1_compress_def del: upt_Suc)
qed

lemma length_fips1_compress: "length (fips1_compress s c) = length s"
proof -
  have "length (fips1_round t w r) = length r" for t w r
    by (induction t w r rule: fips1_round.induct) simp_all
  then have "length (foldl (\<lambda>r t. fips1_round t (f t) r) r ts) = length r" for f r and ts :: "nat list"
    by (induction ts arbitrary: r) simp_all
  then show ?thesis by (simp add: fips1_compress_def)
qed

lemma sha1_chain:
  "chain sha1_Transform sha1_Initialize m = chain fips1_compress sha1_Initialize m \<and>
   length (chain sha1_Transform sha1_Initialize m) = 5"
  by (rule chain_cong [where P = "\<lambda>s. length s = 5"])
    (auto simp: sha1_Initialize_def sha1_Transform_fips length_fips1_compress)

lemma sha1_Finalize_fips:
  assumes "stream_repr sha1_Transform sha1_Initialize h m"
  shows "CSHA1_Finalize h = fips_sha1 m"
proof -
  have "push_bit 3 (hbytes h) = of_nat (8 * length m)"
    using assms by (simp add: stream_repr_def push_bit_eq_mult mult.commute)
  then show ?thesis
    unfolding CSHA1_Finalize_def Let_def sha1.final_words [OF assms] sha1_chain [THEN conjunct1]
      fips_sha1_def by simp
qed

lemma sha1_parts_fips: "sha1_parts ps = fips_sha1 (concat ps)"
  unfolding sha1_parts_def CSHA1_def
  by (rule sha1_Finalize_fips [OF sha1.writes_from_fresh]) simp

lemma length_fips_sha1 [simp]: "length (fips_sha1 m) = 20"
proof -
  have "length (chain fips1_compress sha1_Initialize x) = 5" for x
    using sha1_chain [of x] by metis
  moreover have "length (concat (map WriteBE32 ws)) = 4 * length ws" for ws
    by (induction ws) simp_all
  ultimately show ?thesis
    by (simp add: fips_sha1_def)
qed

end
