(* ===== verification/XC_Der.thy ===== *)
theory XC_Der
  imports XC_Keys
begin

text \<open>
  Signatures as the script interpreter sees them. First the strict encoding rules of
  \<^verbatim>\<open>src/src/script/interpreter.cpp\<close> (\<^verbatim>\<open>IsValidSignatureEncoding\<close> and the checks built on it),
  then the permissive parser of \<^verbatim>\<open>src/src/pubkey.cpp\<close> that \<^verbatim>\<open>CPubKey::Verify\<close> runs on what
  passed them. The group operations stay in the curve library, whose calls are the record
  \<open>ecdsa_lib\<close>: a parsed signature is its 64 compact bytes, a parsed key its serialization.
\<close>

section \<open>The curve library\<close>

text \<open>
  \<^verbatim>\<open>secp256k1_ec_pubkey_parse\<close>, \<^verbatim>\<open>secp256k1_ecdsa_signature_parse_compact\<close> (whether both
  numbers are below the group order), \<^verbatim>\<open>secp256k1_ecdsa_signature_normalize\<close> (whether the
  number was in the upper half, and the normalized signature) and \<^verbatim>\<open>secp256k1_ecdsa_verify\<close>.
\<close>

record ecdsa_lib =
  ec_pubkey_parse :: "bytes \<Rightarrow> bool"
  signature_parse_compact :: "bytes \<Rightarrow> bool"
  signature_normalize :: "bytes \<Rightarrow> bool \<times> bytes"
  ecdsa_verify :: "bytes \<Rightarrow> uint256 \<Rightarrow> bytes \<Rightarrow> bool"

section \<open>Script errors\<close>

datatype ScriptError =
    SCRIPT_ERR_OK | SCRIPT_ERR_UNKNOWN_ERROR | SCRIPT_ERR_EVAL_FALSE | SCRIPT_ERR_OP_RETURN
  | SCRIPT_ERR_SCRIPT_SIZE | SCRIPT_ERR_PUSH_SIZE | SCRIPT_ERR_OP_COUNT | SCRIPT_ERR_STACK_SIZE
  | SCRIPT_ERR_SIG_COUNT | SCRIPT_ERR_PUBKEY_COUNT
  | SCRIPT_ERR_VERIFY | SCRIPT_ERR_EQUALVERIFY | SCRIPT_ERR_CHECKMULTISIGVERIFY
  | SCRIPT_ERR_CHECKSIGVERIFY | SCRIPT_ERR_NUMEQUALVERIFY
  | SCRIPT_ERR_BAD_OPCODE | SCRIPT_ERR_DISABLED_OPCODE | SCRIPT_ERR_INVALID_STACK_OPERATION
  | SCRIPT_ERR_INVALID_ALTSTACK_OPERATION | SCRIPT_ERR_UNBALANCED_CONDITIONAL
  | SCRIPT_ERR_NEGATIVE_LOCKTIME | SCRIPT_ERR_UNSATISFIED_LOCKTIME
  | SCRIPT_ERR_SIG_HASHTYPE | SCRIPT_ERR_SIG_DER | SCRIPT_ERR_MINIMALDATA | SCRIPT_ERR_SIG_PUSHONLY
  | SCRIPT_ERR_SIG_HIGH_S | SCRIPT_ERR_SIG_NULLDUMMY | SCRIPT_ERR_PUBKEYTYPE | SCRIPT_ERR_CLEANSTACK
  | SCRIPT_ERR_MINIMALIF | SCRIPT_ERR_SIG_NULLFAIL
  | SCRIPT_ERR_DISCOURAGE_UPGRADABLE_NOPS | SCRIPT_ERR_DISCOURAGE_UPGRADABLE_WITNESS_PROGRAM
  | SCRIPT_ERR_WITNESS_PROGRAM_WRONG_LENGTH | SCRIPT_ERR_WITNESS_PROGRAM_WITNESS_EMPTY
  | SCRIPT_ERR_WITNESS_PROGRAM_MISMATCH | SCRIPT_ERR_WITNESS_MALLEATED
  | SCRIPT_ERR_WITNESS_MALLEATED_P2SH | SCRIPT_ERR_WITNESS_UNEXPECTED | SCRIPT_ERR_WITNESS_PUBKEYTYPE

section \<open>Verification flags\<close>

text \<open>A set of flags is an \<^verbatim>\<open>unsigned int\<close>; \<open>bit flags n\<close> tests \<^verbatim>\<open>flags & (1U << n)\<close>.\<close>

type_synonym script_flags = u32

abbreviation (input) "SCRIPT_VERIFY_P2SH \<equiv> (0 :: nat)"
abbreviation (input) "SCRIPT_VERIFY_STRICTENC \<equiv> (1 :: nat)"
abbreviation (input) "SCRIPT_VERIFY_DERSIG \<equiv> (2 :: nat)"
abbreviation (input) "SCRIPT_VERIFY_LOW_S \<equiv> (3 :: nat)"
abbreviation (input) "SCRIPT_VERIFY_NULLDUMMY \<equiv> (4 :: nat)"
abbreviation (input) "SCRIPT_VERIFY_SIGPUSHONLY \<equiv> (5 :: nat)"
abbreviation (input) "SCRIPT_VERIFY_MINIMALDATA \<equiv> (6 :: nat)"
abbreviation (input) "SCRIPT_VERIFY_DISCOURAGE_UPGRADABLE_NOPS \<equiv> (7 :: nat)"
abbreviation (input) "SCRIPT_VERIFY_CLEANSTACK \<equiv> (8 :: nat)"
abbreviation (input) "SCRIPT_VERIFY_CHECKLOCKTIMEVERIFY \<equiv> (9 :: nat)"
abbreviation (input) "SCRIPT_VERIFY_CHECKSEQUENCEVERIFY \<equiv> (10 :: nat)"
abbreviation (input) "SCRIPT_VERIFY_WITNESS \<equiv> (11 :: nat)"
abbreviation (input) "SCRIPT_VERIFY_DISCOURAGE_UPGRADABLE_WITNESS_PROGRAM \<equiv> (12 :: nat)"
abbreviation (input) "SCRIPT_VERIFY_MINIMALIF \<equiv> (13 :: nat)"
abbreviation (input) "SCRIPT_VERIFY_NULLFAIL \<equiv> (14 :: nat)"
abbreviation (input) "SCRIPT_VERIFY_WITNESS_PUBKEYTYPE \<equiv> (15 :: nat)"

datatype SigVersion = SIGVERSION_BASE | SIGVERSION_WITNESS_V0

abbreviation (input) "SIGHASH_ALL \<equiv> (1 :: u8)"
abbreviation (input) "SIGHASH_NONE \<equiv> (2 :: u8)"
abbreviation (input) "SIGHASH_SINGLE \<equiv> (3 :: u8)"
abbreviation (input) "SIGHASH_ANYONECANPAY \<equiv> (0x80 :: u8)"

section \<open>Strict encoding\<close>

definition IsCompressedOrUncompressedPubKey :: "bytes \<Rightarrow> bool" where
  "IsCompressedOrUncompressedPubKey vchPubKey \<longleftrightarrow>
     (if length vchPubKey < 33 then False
      else if vchPubKey ! 0 = 0x04 then length vchPubKey = 65
      else if vchPubKey ! 0 = 0x02 \<or> vchPubKey ! 0 = 0x03 then length vchPubKey = 33
      else False)"

definition IsCompressedPubKey :: "bytes \<Rightarrow> bool" where
  "IsCompressedPubKey vchPubKey \<longleftrightarrow>
     length vchPubKey = 33 \<and> (vchPubKey ! 0 = 0x02 \<or> vchPubKey ! 0 = 0x03)"

definition IsValidSignatureEncoding :: "bytes \<Rightarrow> bool" where
  "IsValidSignatureEncoding sig =
     (if length sig < 9 then False
      else if 73 < length sig then False
      else if sig ! 0 \<noteq> 0x30 then False
      else if unat (sig ! 1) \<noteq> length sig - 3 then False
      else let lenR = unat (sig ! 3)
      in if length sig \<le> 5 + lenR then False
      else let lenS = unat (sig ! (5 + lenR))
      in if lenR + lenS + 7 \<noteq> length sig then False
      else if sig ! 2 \<noteq> 0x02 then False
      else if lenR = 0 then False
      else if sig ! 4 AND 0x80 \<noteq> 0 then False
      else if 1 < lenR \<and> sig ! 4 = 0 \<and> sig ! 5 AND 0x80 = 0 then False
      else if sig ! (lenR + 4) \<noteq> 0x02 then False
      else if lenS = 0 then False
      else if sig ! (lenR + 6) AND 0x80 \<noteq> 0 then False
      else if 1 < lenS \<and> sig ! (lenR + 6) = 0 \<and> sig ! (lenR + 7) AND 0x80 = 0 then False
      else True)"

definition IsDefinedHashtypeSignature :: "bytes \<Rightarrow> bool" where
  "IsDefinedHashtypeSignature vchSig \<longleftrightarrow>
     vchSig \<noteq> [] \<and>
     (let nHashType = last vchSig AND NOT SIGHASH_ANYONECANPAY
      in SIGHASH_ALL \<le> nHashType \<and> nHashType \<le> SIGHASH_SINGLE)"

section \<open>The permissive parser\<close>

text \<open>
  Positions are suffixes of the input. A length is one byte, or a count of length bytes whose
  leading zeros are skipped; at most seven of them may remain (\<^verbatim>\<open>sizeof(size_t)\<close> is eight).
\<close>

definition be_nat :: "bytes \<Rightarrow> nat" where
  "be_nat bs = foldl (\<lambda>n b. n * 256 + unat b) 0 bs"

definition der_lax_length :: "bytes \<Rightarrow> (nat \<times> bytes) option" where
  "der_lax_length rest =
     (case rest of [] \<Rightarrow> None
      | lenbyte # rest \<Rightarrow>
          if lenbyte AND 0x80 \<noteq> 0 then
            let n = unat lenbyte - 0x80
            in if length rest < n then None
               else let ds = dropWhile (\<lambda>b. b = 0) (take n rest)
                    in if 8 \<le> length ds then None else Some (be_nat ds, drop n rest)
          else Some (unat lenbyte, rest))"

definition der_lax_integer :: "bytes \<Rightarrow> (bytes \<times> bytes) option" where
  "der_lax_integer rest =
     (case rest of [] \<Rightarrow> None
      | tag # rest \<Rightarrow>
          if tag \<noteq> 0x02 then None
          else case der_lax_length rest of None \<Rightarrow> None
               | Some (n, rest) \<Rightarrow> if length rest < n then None else Some (take n rest, drop n rest))"

definition der_lax_sequence :: "bytes \<Rightarrow> bytes option" where
  "der_lax_sequence input =
     (case input of tag # lenbyte # rest \<Rightarrow>
          if tag \<noteq> 0x30 then None
          else if lenbyte AND 0x80 \<noteq> 0 then
            (if length rest < unat lenbyte - 0x80 then None else Some (drop (unat lenbyte - 0x80) rest))
          else Some rest
      | _ \<Rightarrow> None)"

text \<open>A number without its leading zeros, right-aligned in 32 bytes; \<open>None\<close> when it is too long.\<close>

definition tmpsig_half :: "bytes \<Rightarrow> bytes option" where
  "tmpsig_half v =
     (let v = dropWhile (\<lambda>b. b = 0) v
      in if 32 < length v then None else Some (replicate (32 - length v) 0 @ v))"

definition der_lax_halves :: "bytes \<Rightarrow> (bytes option \<times> bytes option) option" where
  "der_lax_halves input =
     (case der_lax_sequence input of None \<Rightarrow> None
      | Some rest \<Rightarrow>
     (case der_lax_integer rest of None \<Rightarrow> None
      | Some (r, rest) \<Rightarrow>
     (case der_lax_integer rest of None \<Rightarrow> None
      | Some (s, rest) \<Rightarrow> Some (tmpsig_half r, tmpsig_half s))))"

definition ecdsa_signature_parse_der_lax :: "ecdsa_lib \<Rightarrow> bytes \<Rightarrow> bytes option" where
  "ecdsa_signature_parse_der_lax L input =
     (case der_lax_halves input of None \<Rightarrow> None
      | Some (Some r, Some s) \<Rightarrow>
          Some (if signature_parse_compact L (r @ s) then r @ s else replicate 64 0)
      | Some _ \<Rightarrow> Some (replicate 64 0))"

definition CPubKey_Verify :: "ecdsa_lib \<Rightarrow> CPubKey \<Rightarrow> uint256 \<Rightarrow> bytes \<Rightarrow> bool" where
  "CPubKey_Verify L pub hash vchSig =
     (if \<not> CPubKey_IsValid pub then False
      else if \<not> ec_pubkey_parse L pub then False
      else case ecdsa_signature_parse_der_lax L vchSig of None \<Rightarrow> False
           | Some sig \<Rightarrow> ecdsa_verify L (snd (signature_normalize L sig)) hash pub)"

definition CheckLowS :: "ecdsa_lib \<Rightarrow> bytes \<Rightarrow> bool" where
  "CheckLowS L vchSig =
     (case ecdsa_signature_parse_der_lax L vchSig of None \<Rightarrow> False
      | Some sig \<Rightarrow> \<not> fst (signature_normalize L sig))"

section \<open>Encoding checks of the interpreter\<close>

text \<open>\<open>None\<close> is success; otherwise the error that is set.\<close>

definition IsLowDERSignature :: "ecdsa_lib \<Rightarrow> bytes \<Rightarrow> ScriptError option" where
  "IsLowDERSignature L vchSig =
     (if \<not> IsValidSignatureEncoding vchSig then Some SCRIPT_ERR_SIG_DER
      else if \<not> CheckLowS L (butlast vchSig) then Some SCRIPT_ERR_SIG_HIGH_S
      else None)"

definition CheckSignatureEncoding :: "ecdsa_lib \<Rightarrow> bytes \<Rightarrow> script_flags \<Rightarrow> ScriptError option" where
  "CheckSignatureEncoding L vchSig flags =
     (if vchSig = [] then None
      else if (bit flags SCRIPT_VERIFY_DERSIG \<or> bit flags SCRIPT_VERIFY_LOW_S \<or>
               bit flags SCRIPT_VERIFY_STRICTENC) \<and> \<not> IsValidSignatureEncoding vchSig
      then Some SCRIPT_ERR_SIG_DER
      else if bit flags SCRIPT_VERIFY_LOW_S \<and> IsLowDERSignature L vchSig \<noteq> None
      then IsLowDERSignature L vchSig
      else if bit flags SCRIPT_VERIFY_STRICTENC \<and> \<not> IsDefinedHashtypeSignature vchSig
      then Some SCRIPT_ERR_SIG_HASHTYPE
      else None)"

definition CheckPubKeyEncoding :: "bytes \<Rightarrow> script_flags \<Rightarrow> SigVersion \<Rightarrow> ScriptError option" where
  "CheckPubKeyEncoding vchPubKey flags sigversion =
     (if bit flags SCRIPT_VERIFY_STRICTENC \<and> \<not> IsCompressedOrUncompressedPubKey vchPubKey
      then Some SCRIPT_ERR_PUBKEYTYPE
      else if bit flags SCRIPT_VERIFY_WITNESS_PUBKEYTYPE \<and> sigversion = SIGVERSION_WITNESS_V0 \<and>
              \<not> IsCompressedPubKey vchPubKey
      then Some SCRIPT_ERR_WITNESS_PUBKEYTYPE
      else None)"

section \<open>What strict encoding means\<close>

text \<open>A non-negative number in the fewest bytes, and the signature built from two of them.\<close>

definition der_int_ok :: "bytes \<Rightarrow> bool" where
  "der_int_ok v \<longleftrightarrow> v \<noteq> [] \<and> hd v AND 0x80 = 0 \<and> (1 < length v \<longrightarrow> hd v = 0 \<longrightarrow> v ! 1 AND 0x80 \<noteq> 0)"

definition der_encode :: "bytes \<Rightarrow> bytes \<Rightarrow> u8 \<Rightarrow> bytes" where
  "der_encode r s ht =
     0x30 # of_nat (length r + length s + 4) # 0x02 # of_nat (length r) # r @
     0x02 # of_nat (length s) # s @ [ht]"

definition der_canon :: "bytes \<Rightarrow> bytes" where
  "der_canon v =
     (let n = dropWhile (\<lambda>b. b = 0) v
      in if n = [] then [0] else if hd n AND 0x80 \<noteq> 0 then 0 # n else n)"

lemma signature_parts:
  assumes "length sig = n + m + 7"
  obtains a b c d r e f s g where "sig = a # b # c # d # r @ e # f # s @ [g]" "length r = n" "length s = m"
proof -
  obtain a b c d x where x: "sig = a # b # c # d # x"
    using assms by (auto simp: numeral_eq_Suc length_Suc_conv dest!: Suc_le_D)
  with assms have "length x = n + m + 3" by simp
  then have "x = take n x @ drop n x" "length (take n x) = n" "length (drop n x) = m + 3"
    by simp_all
  moreover obtain e f y where y: "drop n x = e # f # y"
    using calculation(3) by (cases "drop n x"; cases "tl (drop n x)") auto
  moreover have "y = take m y @ [y ! m]" "length (take m y) = m"
    using calculation(3) y by (simp_all add: take_Suc_conv_app_nth [symmetric])
  ultimately show ?thesis
    using that x by metis
qed

lemma strict_sound:
  assumes "IsValidSignatureEncoding sig"
  obtains r s ht where "sig = der_encode r s ht" "der_int_ok r" "der_int_ok s" "length r + length s \<le> 66"
proof -
  let ?n = "unat (sig ! 3)" and ?m = "unat (sig ! (5 + unat (sig ! 3)))"
  have len: "length sig = ?n + ?m + 7" "length sig \<le> 73"
    using assms by (simp_all add: IsValidSignatureEncoding_def Let_def split: if_splits)
  obtain a b c d r e f s g where sig: "sig = a # b # c # d # r @ e # f # s @ [g]"
    and r: "length r = ?n" and s: "length s = ?m"
    using signature_parts [OF len(1)] .
  have d: "unat d = length r" and f: "unat f = length s"
    using r s by (simp_all add: sig nth_append)
  have at: "sig ! (length r + 4) = e" "sig ! (length r + 6) = (s @ [g]) ! 0"
    "sig ! (length r + 7) = (s @ [g]) ! 1" "sig ! 4 = (r @ e # f # s @ [g]) ! 0"
    "sig ! 5 = (r @ e # f # s @ [g]) ! 1"
    by (simp_all add: sig nth_append numeral_eq_Suc)
  have *: "a = 0x30" "unat b = length r + length s + 4" "c = 2" "e = 2" "length r \<noteq> 0" "length s \<noteq> 0"
    "(r @ e # f # s @ [g]) ! 0 AND 0x80 = 0" "(s @ [g]) ! 0 AND 0x80 = 0"
    "\<not> (1 < length r \<and> (r @ e # f # s @ [g]) ! 0 = 0 \<and> (r @ e # f # s @ [g]) ! 1 AND 0x80 = 0)"
    "\<not> (1 < length s \<and> (s @ [g]) ! 0 = 0 \<and> (s @ [g]) ! 1 AND 0x80 = 0)"
    using assms d f unfolding IsValidSignatureEncoding_def Let_def at [symmetric]
    by (simp_all add: sig nth_append split: if_splits)
  have "b = of_nat (length r + length s + 4)" "d = of_nat (length r)" "f = of_nat (length s)"
    using * d f by (metis of_nat_unat ucast_id)+
  then have "sig = der_encode r s g"
    using * by (simp add: sig der_encode_def)
  moreover have "der_int_ok r" "der_int_ok s"
    using * by (auto simp: der_int_ok_def nth_append hd_conv_nth)
  moreover have "length r + length s \<le> 66"
    using len by (simp add: sig)
  ultimately show ?thesis using that by blast
qed

lemma strict_complete:
  assumes "der_int_ok r" "der_int_ok s" "length r + length s \<le> 66"
  shows "IsValidSignatureEncoding (der_encode r s ht)"
proof -
  have ne: "r \<noteq> []" "s \<noteq> []" using assms by (simp_all add: der_int_ok_def)
  have u: "unat (of_nat (length r) :: u8) = length r" "unat (of_nat (length s) :: u8) = length s"
    "unat (of_nat (length r + length s + 4) :: u8) = length r + length s + 4"
    using assms(3) by (simp_all only: unat_of_nat) simp_all
  let ?sig = "der_encode r s ht"
  have at: "?sig ! 0 = 0x30" "?sig ! 1 = of_nat (length r + length s + 4)" "?sig ! 2 = 2"
    "?sig ! 3 = of_nat (length r)" "?sig ! (5 + length r) = of_nat (length s)"
    "?sig ! (length r + 4) = 2" "?sig ! 4 = hd r" "?sig ! (length r + 6) = hd s"
    "1 < length r \<Longrightarrow> ?sig ! 5 = r ! 1" "1 < length s \<Longrightarrow> ?sig ! (length r + 7) = s ! 1"
    using ne by (simp_all add: der_encode_def nth_append numeral_eq_Suc hd_conv_nth)
  have len: "length ?sig = length r + length s + 7"
    by (simp add: der_encode_def)
  have "\<not> length r + length s < 2"
    using ne by (cases r; cases s) simp_all
  then show ?thesis
    unfolding IsValidSignatureEncoding_def Let_def at u len
    using assms ne at(9,10) by (auto simp: der_int_ok_def)
qed

text \<open>The permissive parser on a strictly encoded signature.\<close>

lemma small_length_byte: "n < 128 \<Longrightarrow> (of_nat n :: u8) AND 0x80 = 0 \<and> unat (of_nat n :: u8) = n"
proof -
  assume n: "n < 128"
  then have "unat (of_nat n :: u8) = n" by (simp add: unat_of_nat)
  moreover have "\<not> bit (of_nat n :: u8) 7"
    using n by (simp add: bit_of_nat_iff bit_nat_def)
  ultimately show ?thesis by (simp add: high_bit)
qed

lemma der_lax_integer_strict:
  "length v < 128 \<Longrightarrow> der_lax_integer (0x02 # of_nat (length v) # v @ rest) = Some (v, rest)"
  using small_length_byte [of "length v"] by (simp add: der_lax_integer_def der_lax_length_def)

lemma der_lax_halves_strict:
  assumes "length r + length s \<le> 66"
  shows "der_lax_halves (butlast (der_encode r s ht)) = Some (tmpsig_half r, tmpsig_half s)"
proof -
  have "der_lax_integer (0x02 # of_nat (length r) # r @ 0x02 # of_nat (length s) # s) =
      Some (r, 0x02 # of_nat (length s) # s)"
    "der_lax_integer (0x02 # of_nat (length s) # s) = Some (s, [])"
    using der_lax_integer_strict [of r "0x02 # of_nat (length s) # s"]
      der_lax_integer_strict [of s "[]"] assms by simp_all
  moreover have "butlast (der_encode r s ht) = 0x30 # of_nat (length r + length s + 4) #
      0x02 # of_nat (length r) # r @ 0x02 # of_nat (length s) # s"
    by (simp add: der_encode_def butlast_append)
  moreover have "(of_nat (length r + length s + 4) :: u8) AND 0x80 = 0"
    using small_length_byte [of "length r + length s + 4"] assms by linarith
  ultimately show ?thesis
    by (simp only: der_lax_halves_def der_lax_sequence_def list.case if_False option.case prod.case
        simp_thms not_False_eq_True)
qed

lemma dropWhile_canon: "dropWhile (\<lambda>b. b = 0) (der_canon v) = dropWhile (\<lambda>b. b = 0) v"
proof -
  define n where "n = dropWhile (\<lambda>b. b = 0) v"
  have "dropWhile (\<lambda>b. b = 0) n = n" "n \<noteq> [] \<Longrightarrow> hd n \<noteq> 0"
    using hd_dropWhile [of "\<lambda>b. b = 0" v] unfolding n_def by (simp_all add: dropWhile_idem)
  then show ?thesis
    unfolding der_canon_def n_def [symmetric] by (cases n) (auto simp: Let_def)
qed

lemma der_canon_ok: "der_int_ok (der_canon v)"
proof -
  define n where "n = dropWhile (\<lambda>b. b = 0) v"
  have "n \<noteq> [] \<Longrightarrow> hd n \<noteq> 0"
    using hd_dropWhile [of "\<lambda>b. b = 0" v] unfolding n_def by blast
  then show ?thesis
    unfolding der_canon_def n_def [symmetric] by (cases n) (auto simp: Let_def der_int_ok_def)
qed

lemma der_canon_id: "der_int_ok v \<Longrightarrow> der_canon v = v"
  by (cases v; cases "tl v") (auto simp: der_canon_def Let_def der_int_ok_def)

lemma length_der_canon: "length (der_canon v) \<le> max 1 (Suc (length v))"
  using length_dropWhile_le [of "\<lambda>b. b = 0" v] by (auto simp: der_canon_def Let_def)

lemma tmpsig_half_canon:
  assumes "length v = 32"
  shows "tmpsig_half w = Some v \<longleftrightarrow> dropWhile (\<lambda>b. b = 0) w = dropWhile (\<lambda>b. b = 0) v"
proof -
  let ?z = "\<lambda>v. dropWhile (\<lambda>b. b = 0) v"
  have v: "v = replicate (32 - length (?z v)) 0 @ ?z v"
  proof -
    have "v = takeWhile (\<lambda>b. b = 0) v @ ?z v" by simp
    moreover have "takeWhile (\<lambda>b. b = 0) v = replicate (length (takeWhile (\<lambda>b. b = 0) v)) 0"
      by (rule replicate_eqI) (auto dest: set_takeWhileD)
    moreover have "length (takeWhile (\<lambda>b. b = 0) v) = 32 - length (?z v)"
      using assms arg_cong [OF takeWhile_dropWhile_id [of "\<lambda>b. b = 0" v], of length]
      unfolding length_append by linarith
    ultimately show ?thesis by metis
  qed
  have "length (?z v) \<le> 32" using assms length_dropWhile_le [of "\<lambda>b. b = 0" v] by simp
  moreover have "?z (replicate k 0 @ ?z w) = ?z w" for k
    by (induction k) (simp_all add: dropWhile_idem)
  ultimately show ?thesis
    using v by (auto simp: tmpsig_half_def Let_def)
qed

text \<open>A signature whose two numbers are small, with hash type \<^verbatim>\<open>SIGHASH_ALL\<close>.\<close>

definition ex_half :: "u8 \<Rightarrow> bytes" where
  "ex_half b = replicate 31 0 @ [b]"

text \<open>
  Strict encoding is one-to-one: for two 32-byte numbers and a hash type there is exactly one
  byte string that \<^verbatim>\<open>IsValidSignatureEncoding\<close> accepts and from which the permissive parser of
  \<^verbatim>\<open>CPubKey::Verify\<close> reads these numbers. So once strict encoding is required, a third party
  cannot re-encode a signature.
\<close>

theorem strict_signature_unique:
  assumes "length r = 32" "length s = 32"
  shows "IsValidSignatureEncoding sig \<and> last sig = ht \<and> der_lax_halves (butlast sig) = Some (Some r, Some s)
    \<longleftrightarrow> sig = der_encode (der_canon r) (der_canon s) ht"
proof
  assume a: "IsValidSignatureEncoding sig \<and> last sig = ht \<and> der_lax_halves (butlast sig) = Some (Some r, Some s)"
  then obtain r' s' ht' where sig: "sig = der_encode r' s' ht'" "der_int_ok r'" "der_int_ok s'"
    "length r' + length s' \<le> 66"
    using strict_sound by blast
  then have "tmpsig_half r' = Some r" "tmpsig_half s' = Some s"
    using a der_lax_halves_strict by auto
  then have "der_canon r' = der_canon r" "der_canon s' = der_canon s"
    using tmpsig_half_canon [OF assms(1)] tmpsig_half_canon [OF assms(2)] by (simp_all add: der_canon_def)
  with a sig der_canon_id show "sig = der_encode (der_canon r) (der_canon s) ht"
    by (simp add: der_encode_def)
next
  assume sig: "sig = der_encode (der_canon r) (der_canon s) ht"
  have len: "length (der_canon r) + length (der_canon s) \<le> 66"
    using length_der_canon [of r] length_der_canon [of s] assms by simp
  have "tmpsig_half (der_canon r) = Some r" "tmpsig_half (der_canon s) = Some s"
    using assms by (simp_all add: tmpsig_half_canon dropWhile_canon)
  with sig strict_complete [OF der_canon_ok der_canon_ok len] der_lax_halves_strict [OF len]
  show "IsValidSignatureEncoding sig \<and> last sig = ht \<and> der_lax_halves (butlast sig) = Some (Some r, Some s)"
    by (simp add: der_encode_def)
qed

theorem strict_signature_unique_witness:
  "IsValidSignatureEncoding (der_encode [1] [0, 0x81] 1) \<and>
   der_lax_halves (butlast (der_encode [1] [0, 0x81] 1)) = Some (Some (ex_half 1), Some (ex_half 0x81)) \<and>
   \<not> IsValidSignatureEncoding (der_encode [0, 1] [0, 0x81] 1)"
proof -
  let ?long = "der_encode [0, 1] [0, 0x81] 1"
  have canon: "der_canon (ex_half 1) = [1]" "der_canon (ex_half 0x81) = [0, 0x81]"
    by code_simp+
  have long: "der_lax_halves (butlast ?long) = Some (Some (ex_half 1), Some (ex_half 0x81))"
    "last ?long = 1" "?long \<noteq> der_encode [1] [0, 0x81] 1"
    by code_simp+
  have len: "length (ex_half 1) = 32" "length (ex_half 0x81) = 32"
    by (simp_all add: ex_half_def)
  show ?thesis
    using strict_signature_unique [OF len, of "der_encode [1] [0, 0x81] 1" 1]
      strict_signature_unique [OF len, of ?long 1] long
    unfolding canon by blast
qed

end
