(* ===== verification/XC_Interp.thy ===== *)
theory XC_Interp
  imports XC_SHA1 XC_Der XC_Tx
begin

text \<open>
  The script interpreter, \<^verbatim>\<open>EvalScript\<close> of \<^verbatim>\<open>src/src/script/interpreter.cpp\<close>. The state is the
  record \<open>interp\<close>: the iterators are suffixes of the script, stacks have their top first and
  \<^verbatim>\<open>vfExec\<close> its innermost condition first. Every \<^verbatim>\<open>case\<close> of the switch is a definition; an
  instruction either sets a \<open>ScriptError\<close> or gives the next state. The virtual methods of
  \<^verbatim>\<open>BaseSignatureChecker\<close> are the record \<open>checker\<close>.
\<close>

type_synonym valtype = bytes
type_synonym 'a script_res = "ScriptError + 'a"

record checker =
  chk_CheckSig :: "bytes \<Rightarrow> bytes \<Rightarrow> CScript \<Rightarrow> SigVersion \<Rightarrow> bool"
  chk_CheckLockTime :: "int \<Rightarrow> bool"
  chk_CheckSequence :: "int \<Rightarrow> bool"

record interp =
  i_pc :: bytes
  i_codehash :: bytes
  i_stack :: "valtype list"
  i_alt :: "valtype list"
  i_exec :: "bool list"
  i_nops :: nat

abbreviation "MAX_OPS_PER_SCRIPT \<equiv> (201 :: nat)"
abbreviation "MAX_STACK_SIZE \<equiv> (1000 :: nat)"

definition ebind :: "'e + 'a \<Rightarrow> ('a \<Rightarrow> 'e + 'b) \<Rightarrow> 'e + 'b" where
  "ebind r f = (case r of Inl e \<Rightarrow> Inl e | Inr x \<Rightarrow> f x)"

abbreviation (input) stack_err :: "'a script_res" where
  "stack_err \<equiv> Inl SCRIPT_ERR_INVALID_STACK_OPERATION"

section \<open>Opcodes\<close>

abbreviation (input) "OP_NOP \<equiv> (0x61 :: opcodetype)"
abbreviation (input) "OP_IF \<equiv> (0x63 :: opcodetype)"
abbreviation (input) "OP_NOTIF \<equiv> (0x64 :: opcodetype)"
abbreviation (input) "OP_ELSE \<equiv> (0x67 :: opcodetype)"
abbreviation (input) "OP_ENDIF \<equiv> (0x68 :: opcodetype)"
abbreviation (input) "OP_VERIFY \<equiv> (0x69 :: opcodetype)"
abbreviation (input) "OP_TOALTSTACK \<equiv> (0x6b :: opcodetype)"
abbreviation (input) "OP_FROMALTSTACK \<equiv> (0x6c :: opcodetype)"
abbreviation (input) "OP_2DROP \<equiv> (0x6d :: opcodetype)"
abbreviation (input) "OP_2DUP \<equiv> (0x6e :: opcodetype)"
abbreviation (input) "OP_3DUP \<equiv> (0x6f :: opcodetype)"
abbreviation (input) "OP_2OVER \<equiv> (0x70 :: opcodetype)"
abbreviation (input) "OP_2ROT \<equiv> (0x71 :: opcodetype)"
abbreviation (input) "OP_2SWAP \<equiv> (0x72 :: opcodetype)"
abbreviation (input) "OP_IFDUP \<equiv> (0x73 :: opcodetype)"
abbreviation (input) "OP_DEPTH \<equiv> (0x74 :: opcodetype)"
abbreviation (input) "OP_DROP \<equiv> (0x75 :: opcodetype)"
abbreviation (input) "OP_NIP \<equiv> (0x77 :: opcodetype)"
abbreviation (input) "OP_OVER \<equiv> (0x78 :: opcodetype)"
abbreviation (input) "OP_PICK \<equiv> (0x79 :: opcodetype)"
abbreviation (input) "OP_ROLL \<equiv> (0x7a :: opcodetype)"
abbreviation (input) "OP_ROT \<equiv> (0x7b :: opcodetype)"
abbreviation (input) "OP_SWAP \<equiv> (0x7c :: opcodetype)"
abbreviation (input) "OP_TUCK \<equiv> (0x7d :: opcodetype)"
abbreviation (input) "OP_CAT \<equiv> (0x7e :: opcodetype)"
abbreviation (input) "OP_SUBSTR \<equiv> (0x7f :: opcodetype)"
abbreviation (input) "OP_LEFT \<equiv> (0x80 :: opcodetype)"
abbreviation (input) "OP_RIGHT \<equiv> (0x81 :: opcodetype)"
abbreviation (input) "OP_SIZE \<equiv> (0x82 :: opcodetype)"
abbreviation (input) "OP_INVERT \<equiv> (0x83 :: opcodetype)"
abbreviation (input) "OP_AND \<equiv> (0x84 :: opcodetype)"
abbreviation (input) "OP_OR \<equiv> (0x85 :: opcodetype)"
abbreviation (input) "OP_XOR \<equiv> (0x86 :: opcodetype)"
abbreviation (input) "OP_1ADD \<equiv> (0x8b :: opcodetype)"
abbreviation (input) "OP_1SUB \<equiv> (0x8c :: opcodetype)"
abbreviation (input) "OP_2MUL \<equiv> (0x8d :: opcodetype)"
abbreviation (input) "OP_2DIV \<equiv> (0x8e :: opcodetype)"
abbreviation (input) "OP_NEGATE \<equiv> (0x8f :: opcodetype)"
abbreviation (input) "OP_ABS \<equiv> (0x90 :: opcodetype)"
abbreviation (input) "OP_NOT \<equiv> (0x91 :: opcodetype)"
abbreviation (input) "OP_0NOTEQUAL \<equiv> (0x92 :: opcodetype)"
abbreviation (input) "OP_ADD \<equiv> (0x93 :: opcodetype)"
abbreviation (input) "OP_SUB \<equiv> (0x94 :: opcodetype)"
abbreviation (input) "OP_MUL \<equiv> (0x95 :: opcodetype)"
abbreviation (input) "OP_DIV \<equiv> (0x96 :: opcodetype)"
abbreviation (input) "OP_MOD \<equiv> (0x97 :: opcodetype)"
abbreviation (input) "OP_LSHIFT \<equiv> (0x98 :: opcodetype)"
abbreviation (input) "OP_RSHIFT \<equiv> (0x99 :: opcodetype)"
abbreviation (input) "OP_BOOLAND \<equiv> (0x9a :: opcodetype)"
abbreviation (input) "OP_BOOLOR \<equiv> (0x9b :: opcodetype)"
abbreviation (input) "OP_NUMEQUAL \<equiv> (0x9c :: opcodetype)"
abbreviation (input) "OP_NUMEQUALVERIFY \<equiv> (0x9d :: opcodetype)"
abbreviation (input) "OP_NUMNOTEQUAL \<equiv> (0x9e :: opcodetype)"
abbreviation (input) "OP_LESSTHAN \<equiv> (0x9f :: opcodetype)"
abbreviation (input) "OP_GREATERTHAN \<equiv> (0xa0 :: opcodetype)"
abbreviation (input) "OP_LESSTHANOREQUAL \<equiv> (0xa1 :: opcodetype)"
abbreviation (input) "OP_GREATERTHANOREQUAL \<equiv> (0xa2 :: opcodetype)"
abbreviation (input) "OP_MIN \<equiv> (0xa3 :: opcodetype)"
abbreviation (input) "OP_MAX \<equiv> (0xa4 :: opcodetype)"
abbreviation (input) "OP_WITHIN \<equiv> (0xa5 :: opcodetype)"
abbreviation (input) "OP_RIPEMD160 \<equiv> (0xa6 :: opcodetype)"
abbreviation (input) "OP_SHA1 \<equiv> (0xa7 :: opcodetype)"
abbreviation (input) "OP_SHA256 \<equiv> (0xa8 :: opcodetype)"
abbreviation (input) "OP_HASH256 \<equiv> (0xaa :: opcodetype)"
abbreviation (input) "OP_CODESEPARATOR \<equiv> (0xab :: opcodetype)"
abbreviation (input) "OP_NOP1 \<equiv> (0xb0 :: opcodetype)"
abbreviation (input) "OP_CHECKLOCKTIMEVERIFY \<equiv> (0xb1 :: opcodetype)"
abbreviation (input) "OP_CHECKSEQUENCEVERIFY \<equiv> (0xb2 :: opcodetype)"
abbreviation (input) "OP_NOP4 \<equiv> (0xb3 :: opcodetype)"

section \<open>Values\<close>

fun CastToBool :: "valtype \<Rightarrow> bool" where
  "CastToBool [] = False"
| "CastToBool (b # vch) = (if b \<noteq> 0 then \<not> (vch = [] \<and> b = 0x80) else CastToBool vch)"

definition vchTrue :: valtype where "vchTrue = [1]"
definition vchFalse :: valtype where "vchFalse = []"

definition vchBool :: "bool \<Rightarrow> valtype" where
  "vchBool b = (if b then vchTrue else vchFalse)"

text \<open>A number read from the stack; the exception ends in \<^verbatim>\<open>catch (...)\<close>.\<close>

definition stack_num :: "bool \<Rightarrow> nat \<Rightarrow> valtype \<Rightarrow> int script_res" where
  "stack_num fRequireMinimal nMaxNumSize vch =
     (case CScriptNum vch fRequireMinimal nMaxNumSize of
        Inl e \<Rightarrow> Inl SCRIPT_ERR_UNKNOWN_ERROR | Inr n \<Rightarrow> Inr n)"

definition CheckMinimalPush :: "valtype \<Rightarrow> opcodetype \<Rightarrow> bool" where
  "CheckMinimalPush data opcode =
     (if data = [] then opcode = OP_0
      else if length data = 1 \<and> 1 \<le> data ! 0 \<and> data ! 0 \<le> 16 then opcode = OP_1 + (data ! 0 - 1)
      else if length data = 1 \<and> data ! 0 = 0x81 then opcode = OP_1NEGATE
      else if length data \<le> 75 then unat opcode = length data
      else if length data \<le> 255 then opcode = OP_PUSHDATA1
      else if length data \<le> 65535 then opcode = OP_PUSHDATA2
      else True)"

section \<open>FindAndDelete\<close>

function skip_matches :: "bytes \<Rightarrow> bytes \<Rightarrow> nat \<times> bytes" where
  "skip_matches b pc =
     (if b \<noteq> [] \<and> length b \<le> length pc \<and> take (length b) pc = b
      then (let (n, pc') = skip_matches b (drop (length b) pc) in (n + 1, pc'))
      else (0, pc))"
  by pat_completeness auto
termination
  by (relation "measure (\<lambda>(b, pc). length pc)") (auto intro: diff_less order.strict_trans2)

declare skip_matches.simps [simp del]

lemma skip_matches_shorter: "length (snd (skip_matches b pc)) \<le> length pc"
  by (induction b pc rule: skip_matches.induct)
    (subst skip_matches.simps, auto split: prod.splits)

function delete_loop :: "bytes \<Rightarrow> bytes \<Rightarrow> nat \<times> bytes" where
  "delete_loop b pc =
     (let (n, pc1) = skip_matches b pc
      in case GetOp2 pc1 of None \<Rightarrow> (n, pc1)
         | Some (opcode, vch, pc2) \<Rightarrow>
             let (m, result) = delete_loop b pc2 in (n + m, take (length pc1 - length pc2) pc1 @ result))"
  by pat_completeness auto
termination
proof (relation "measure (\<lambda>(b, pc). length pc)")
  fix b pc :: bytes and x n pc1 r opcode q vch pc2
  assume *: "x = skip_matches b pc" "(n, pc1) = x" "GetOp2 pc1 = Some r" "(opcode, q) = r" "(vch, pc2) = q"
  then have "length pc2 < length pc1" "length pc1 \<le> length pc"
    using skip_matches_shorter [of b pc] by (auto dest!: sym [of "(_, _)"])
  then show "((b, pc2), b, pc) \<in> measure (\<lambda>(b, pc). length pc)"
    by simp
qed simp

declare delete_loop.simps [simp del]

definition FindAndDelete :: "CScript \<Rightarrow> CScript \<Rightarrow> nat \<times> CScript" where
  "FindAndDelete s b =
     (if b = [] then (0, s)
      else let (nFound, result) = delete_loop b s in (nFound, if 0 < nFound then result else s))"

section \<open>Stack instructions\<close>

definition exec_VERIFY :: "valtype list \<Rightarrow> valtype list script_res" where
  "exec_VERIFY st = (case st of x # st \<Rightarrow> (if CastToBool x then Inr st else Inl SCRIPT_ERR_VERIFY) | _ \<Rightarrow> stack_err)"

definition exec_2DROP :: "valtype list \<Rightarrow> valtype list script_res" where
  "exec_2DROP st = (case st of x2 # x1 # st \<Rightarrow> Inr st | _ \<Rightarrow> stack_err)"

definition exec_2DUP :: "valtype list \<Rightarrow> valtype list script_res" where
  "exec_2DUP st = (case st of x2 # x1 # st \<Rightarrow> Inr (x2 # x1 # x2 # x1 # st) | _ \<Rightarrow> stack_err)"

definition exec_3DUP :: "valtype list \<Rightarrow> valtype list script_res" where
  "exec_3DUP st =
     (case st of x3 # x2 # x1 # st \<Rightarrow> Inr (x3 # x2 # x1 # x3 # x2 # x1 # st) | _ \<Rightarrow> stack_err)"

definition exec_2OVER :: "valtype list \<Rightarrow> valtype list script_res" where
  "exec_2OVER st =
     (case st of x4 # x3 # x2 # x1 # st \<Rightarrow> Inr (x2 # x1 # x4 # x3 # x2 # x1 # st) | _ \<Rightarrow> stack_err)"

definition exec_2ROT :: "valtype list \<Rightarrow> valtype list script_res" where
  "exec_2ROT st =
     (case st of x6 # x5 # x4 # x3 # x2 # x1 # st \<Rightarrow> Inr (x2 # x1 # x6 # x5 # x4 # x3 # st)
      | _ \<Rightarrow> stack_err)"

definition exec_2SWAP :: "valtype list \<Rightarrow> valtype list script_res" where
  "exec_2SWAP st =
     (case st of x4 # x3 # x2 # x1 # st \<Rightarrow> Inr (x2 # x1 # x4 # x3 # st) | _ \<Rightarrow> stack_err)"

definition exec_IFDUP :: "valtype list \<Rightarrow> valtype list script_res" where
  "exec_IFDUP st = (case st of x # st \<Rightarrow> Inr (if CastToBool x then x # x # st else x # st) | _ \<Rightarrow> stack_err)"

definition exec_DEPTH :: "valtype list \<Rightarrow> valtype list script_res" where
  "exec_DEPTH st = Inr (serialize (int (length st)) # st)"

definition exec_DROP :: "valtype list \<Rightarrow> valtype list script_res" where
  "exec_DROP st = (case st of x # st \<Rightarrow> Inr st | _ \<Rightarrow> stack_err)"

definition exec_DUP :: "valtype list \<Rightarrow> valtype list script_res" where
  "exec_DUP st = (case st of x # st \<Rightarrow> Inr (x # x # st) | _ \<Rightarrow> stack_err)"

definition exec_NIP :: "valtype list \<Rightarrow> valtype list script_res" where
  "exec_NIP st = (case st of x2 # x1 # st \<Rightarrow> Inr (x2 # st) | _ \<Rightarrow> stack_err)"

definition exec_OVER :: "valtype list \<Rightarrow> valtype list script_res" where
  "exec_OVER st = (case st of x2 # x1 # st \<Rightarrow> Inr (x1 # x2 # x1 # st) | _ \<Rightarrow> stack_err)"

definition exec_PICK_ROLL :: "bool \<Rightarrow> bool \<Rightarrow> valtype list \<Rightarrow> valtype list script_res" where
  "exec_PICK_ROLL fRequireMinimal roll st =
     (if length st < 2 then stack_err
      else ebind (stack_num fRequireMinimal 4 (hd st)) (\<lambda>bn.
        let n = getint bn; st = tl st
        in if n < 0 \<or> int (length st) \<le> n then stack_err
           else let k = nat n; vch = st ! k
                in Inr (vch # (if roll then take k st @ drop (k + 1) st else st))))"

definition exec_ROT :: "valtype list \<Rightarrow> valtype list script_res" where
  "exec_ROT st = (case st of x3 # x2 # x1 # st \<Rightarrow> Inr (x1 # x3 # x2 # st) | _ \<Rightarrow> stack_err)"

definition exec_SWAP :: "valtype list \<Rightarrow> valtype list script_res" where
  "exec_SWAP st = (case st of x2 # x1 # st \<Rightarrow> Inr (x1 # x2 # st) | _ \<Rightarrow> stack_err)"

definition exec_TUCK :: "valtype list \<Rightarrow> valtype list script_res" where
  "exec_TUCK st = (case st of x2 # x1 # st \<Rightarrow> Inr (x2 # x1 # x2 # st) | _ \<Rightarrow> stack_err)"

definition exec_SIZE :: "valtype list \<Rightarrow> valtype list script_res" where
  "exec_SIZE st = (case st of x # st \<Rightarrow> Inr (serialize (int (length x)) # x # st) | _ \<Rightarrow> stack_err)"

definition exec_EQUAL :: "bool \<Rightarrow> valtype list \<Rightarrow> valtype list script_res" where
  "exec_EQUAL verify st =
     (case st of vch2 # vch1 # st \<Rightarrow>
          if verify then (if vch1 = vch2 then Inr st else Inl SCRIPT_ERR_EQUALVERIFY)
          else Inr (vchBool (vch1 = vch2) # st)
      | _ \<Rightarrow> stack_err)"

section \<open>Numeric instructions\<close>

definition exec_unary :: "bool \<Rightarrow> (int \<Rightarrow> int) \<Rightarrow> valtype list \<Rightarrow> valtype list script_res" where
  "exec_unary fRequireMinimal f st =
     (case st of x # st \<Rightarrow>
          ebind (stack_num fRequireMinimal 4 x) (\<lambda>bn. Inr (serialize (f bn) # st))
      | _ \<Rightarrow> stack_err)"

definition num_of_bool :: "bool \<Rightarrow> int" where
  "num_of_bool b = (if b then 1 else 0)"

definition unary_ops :: "(opcodetype \<times> (int \<Rightarrow> int)) list" where
  "unary_ops =
     [(OP_1ADD, \<lambda>bn. bn + 1), (OP_1SUB, \<lambda>bn. bn - 1), (OP_NEGATE, \<lambda>bn. - bn),
      (OP_ABS, \<lambda>bn. if bn < 0 then - bn else bn), (OP_NOT, \<lambda>bn. num_of_bool (bn = 0)),
      (OP_0NOTEQUAL, \<lambda>bn. num_of_bool (bn \<noteq> 0))]"

definition exec_binary :: "bool \<Rightarrow> (int \<Rightarrow> int \<Rightarrow> int) \<Rightarrow> valtype list \<Rightarrow> valtype list script_res" where
  "exec_binary fRequireMinimal f st =
     (case st of x2 # x1 # st \<Rightarrow>
          ebind (stack_num fRequireMinimal 4 x1) (\<lambda>bn1.
          ebind (stack_num fRequireMinimal 4 x2) (\<lambda>bn2. Inr (serialize (f bn1 bn2) # st)))
      | _ \<Rightarrow> stack_err)"

definition binary_ops :: "(opcodetype \<times> (int \<Rightarrow> int \<Rightarrow> int)) list" where
  "binary_ops =
     [(OP_ADD, \<lambda>bn1 bn2. bn1 + bn2), (OP_SUB, \<lambda>bn1 bn2. bn1 - bn2),
      (OP_BOOLAND, \<lambda>bn1 bn2. num_of_bool (bn1 \<noteq> 0 \<and> bn2 \<noteq> 0)),
      (OP_BOOLOR, \<lambda>bn1 bn2. num_of_bool (bn1 \<noteq> 0 \<or> bn2 \<noteq> 0)),
      (OP_NUMEQUAL, \<lambda>bn1 bn2. num_of_bool (bn1 = bn2)),
      (OP_NUMEQUALVERIFY, \<lambda>bn1 bn2. num_of_bool (bn1 = bn2)),
      (OP_NUMNOTEQUAL, \<lambda>bn1 bn2. num_of_bool (bn1 \<noteq> bn2)),
      (OP_LESSTHAN, \<lambda>bn1 bn2. num_of_bool (bn1 < bn2)),
      (OP_GREATERTHAN, \<lambda>bn1 bn2. num_of_bool (bn1 > bn2)),
      (OP_LESSTHANOREQUAL, \<lambda>bn1 bn2. num_of_bool (bn1 \<le> bn2)),
      (OP_GREATERTHANOREQUAL, \<lambda>bn1 bn2. num_of_bool (bn1 \<ge> bn2)),
      (OP_MIN, \<lambda>bn1 bn2. if bn1 < bn2 then bn1 else bn2),
      (OP_MAX, \<lambda>bn1 bn2. if bn1 > bn2 then bn1 else bn2)]"

text \<open>The epilogue of \<^verbatim>\<open>OP_NUMEQUALVERIFY\<close>.\<close>

definition exec_verify_top :: "ScriptError \<Rightarrow> valtype list \<Rightarrow> valtype list script_res" where
  "exec_verify_top err st =
     (case st of x # st' \<Rightarrow> (if CastToBool x then Inr st' else Inl err) | [] \<Rightarrow> Inl SCRIPT_ERR_UNKNOWN_ERROR)"

definition exec_WITHIN :: "bool \<Rightarrow> valtype list \<Rightarrow> valtype list script_res" where
  "exec_WITHIN fRequireMinimal st =
     (case st of x3 # x2 # x1 # st \<Rightarrow>
          ebind (stack_num fRequireMinimal 4 x1) (\<lambda>bn1.
          ebind (stack_num fRequireMinimal 4 x2) (\<lambda>bn2.
          ebind (stack_num fRequireMinimal 4 x3) (\<lambda>bn3. Inr (vchBool (bn2 \<le> bn1 \<and> bn1 < bn3) # st))))
      | _ \<Rightarrow> stack_err)"

section \<open>Hash instructions\<close>

definition exec_hash :: "opcodetype \<Rightarrow> valtype list \<Rightarrow> valtype list script_res" where
  "exec_hash opcode st =
     (case st of vch # st \<Rightarrow>
          Inr ((if opcode = OP_RIPEMD160
                then CRIPEMD160_Finalize (CRIPEMD160_Write (CRIPEMD160 (replicate 64 0)) vch)
                else if opcode = OP_SHA1 then sha1_parts [vch]
                else if opcode = OP_SHA256 then sha256_parts [vch]
                else if opcode = OP_HASH160 then Hash160 vch
                else hash256_parts [vch]) # st)
      | _ \<Rightarrow> stack_err)"

text \<open>The cases of the switch that touch the main stack only.\<close>

definition stack_ops :: "bool \<Rightarrow> (opcodetype \<times> (valtype list \<Rightarrow> valtype list script_res)) list" where
  "stack_ops fMin =
     [(OP_VERIFY, exec_VERIFY), (OP_2DROP, exec_2DROP), (OP_2DUP, exec_2DUP), (OP_3DUP, exec_3DUP),
      (OP_2OVER, exec_2OVER), (OP_2ROT, exec_2ROT), (OP_2SWAP, exec_2SWAP), (OP_IFDUP, exec_IFDUP),
      (OP_DEPTH, exec_DEPTH), (OP_DROP, exec_DROP), (OP_DUP, exec_DUP), (OP_NIP, exec_NIP),
      (OP_OVER, exec_OVER), (OP_PICK, exec_PICK_ROLL fMin False), (OP_ROLL, exec_PICK_ROLL fMin True),
      (OP_ROT, exec_ROT), (OP_SWAP, exec_SWAP), (OP_TUCK, exec_TUCK), (OP_SIZE, exec_SIZE),
      (OP_EQUAL, exec_EQUAL False), (OP_EQUALVERIFY, exec_EQUAL True)] @
     map (\<lambda>(opcode, f). (opcode, exec_unary fMin f)) unary_ops @
     map (\<lambda>(opcode, f). (opcode,
        if opcode = OP_NUMEQUALVERIFY
        then (\<lambda>st. ebind (exec_binary fMin f st) (exec_verify_top SCRIPT_ERR_NUMEQUALVERIFY))
        else exec_binary fMin f)) binary_ops @
     [(OP_WITHIN, exec_WITHIN fMin), (OP_RIPEMD160, exec_hash OP_RIPEMD160), (OP_SHA1, exec_hash OP_SHA1),
      (OP_SHA256, exec_hash OP_SHA256), (OP_HASH160, exec_hash OP_HASH160),
      (OP_HASH256, exec_hash OP_HASH256)]"

section \<open>Control, lock times and the alternative stack\<close>

definition exec_push_number :: "opcodetype \<Rightarrow> interp \<Rightarrow> interp script_res" where
  "exec_push_number opcode s = Inr (s\<lparr>i_stack := serialize (uint opcode - (uint OP_1 - 1)) # i_stack s\<rparr>)"

text \<open>An upgradable no-op.\<close>

definition exec_NOP :: "script_flags \<Rightarrow> interp \<Rightarrow> interp script_res" where
  "exec_NOP flags s =
     (if bit flags SCRIPT_VERIFY_DISCOURAGE_UPGRADABLE_NOPS then Inl SCRIPT_ERR_DISCOURAGE_UPGRADABLE_NOPS
      else Inr s)"

definition exec_CHECKLOCKTIMEVERIFY :: "checker \<Rightarrow> script_flags \<Rightarrow> interp \<Rightarrow> interp script_res" where
  "exec_CHECKLOCKTIMEVERIFY chk flags s =
     (if \<not> bit flags SCRIPT_VERIFY_CHECKLOCKTIMEVERIFY then exec_NOP flags s
      else case i_stack s of [] \<Rightarrow> stack_err
           | x # st \<Rightarrow>
               ebind (stack_num (bit flags SCRIPT_VERIFY_MINIMALDATA) 5 x) (\<lambda>nLockTime.
                 if nLockTime < 0 then Inl SCRIPT_ERR_NEGATIVE_LOCKTIME
                 else if \<not> chk_CheckLockTime chk nLockTime then Inl SCRIPT_ERR_UNSATISFIED_LOCKTIME
                 else Inr s))"

definition exec_CHECKSEQUENCEVERIFY :: "checker \<Rightarrow> script_flags \<Rightarrow> interp \<Rightarrow> interp script_res" where
  "exec_CHECKSEQUENCEVERIFY chk flags s =
     (if \<not> bit flags SCRIPT_VERIFY_CHECKSEQUENCEVERIFY then exec_NOP flags s
      else case i_stack s of [] \<Rightarrow> stack_err
           | x # st \<Rightarrow>
               ebind (stack_num (bit flags SCRIPT_VERIFY_MINIMALDATA) 5 x) (\<lambda>nSequence.
                 if nSequence < 0 then Inl SCRIPT_ERR_NEGATIVE_LOCKTIME
                 else if nSequence AND uint SEQUENCE_LOCKTIME_DISABLE_FLAG \<noteq> 0 then Inr s
                 else if \<not> chk_CheckSequence chk nSequence then Inl SCRIPT_ERR_UNSATISFIED_LOCKTIME
                 else Inr s))"

definition exec_IF :: "script_flags \<Rightarrow> SigVersion \<Rightarrow> bool \<Rightarrow> bool \<Rightarrow> interp \<Rightarrow> interp script_res" where
  "exec_IF flags sigversion fExec notif s =
     (if fExec then
        case i_stack s of [] \<Rightarrow> Inl SCRIPT_ERR_UNBALANCED_CONDITIONAL
        | vch # st \<Rightarrow>
            if sigversion = SIGVERSION_WITNESS_V0 \<and> bit flags SCRIPT_VERIFY_MINIMALIF \<and>
               (1 < length vch \<or> length vch = 1 \<and> vch ! 0 \<noteq> 1)
            then Inl SCRIPT_ERR_MINIMALIF
            else Inr (s\<lparr>i_stack := st,
              i_exec := (if notif then \<not> CastToBool vch else CastToBool vch) # i_exec s\<rparr>)
      else Inr (s\<lparr>i_exec := False # i_exec s\<rparr>))"

definition exec_ELSE :: "interp \<Rightarrow> interp script_res" where
  "exec_ELSE s =
     (case i_exec s of [] \<Rightarrow> Inl SCRIPT_ERR_UNBALANCED_CONDITIONAL
      | b # bs \<Rightarrow> Inr (s\<lparr>i_exec := (\<not> b) # bs\<rparr>))"

definition exec_ENDIF :: "interp \<Rightarrow> interp script_res" where
  "exec_ENDIF s =
     (case i_exec s of [] \<Rightarrow> Inl SCRIPT_ERR_UNBALANCED_CONDITIONAL
      | b # bs \<Rightarrow> Inr (s\<lparr>i_exec := bs\<rparr>))"

definition exec_TOALTSTACK :: "interp \<Rightarrow> interp script_res" where
  "exec_TOALTSTACK s =
     (case i_stack s of [] \<Rightarrow> stack_err | x # st \<Rightarrow> Inr (s\<lparr>i_stack := st, i_alt := x # i_alt s\<rparr>))"

definition exec_FROMALTSTACK :: "interp \<Rightarrow> interp script_res" where
  "exec_FROMALTSTACK s =
     (case i_alt s of [] \<Rightarrow> Inl SCRIPT_ERR_INVALID_ALTSTACK_OPERATION
      | x # alt \<Rightarrow> Inr (s\<lparr>i_stack := x # i_stack s, i_alt := alt\<rparr>))"

definition exec_CODESEPARATOR :: "interp \<Rightarrow> interp script_res" where
  "exec_CODESEPARATOR s = Inr (s\<lparr>i_codehash := i_pc s\<rparr>)"

section \<open>Signature checks\<close>

text \<open>The encoding checks of a signature and a key; \<open>None\<close> when both pass.\<close>

definition check_encodings ::
  "ecdsa_lib \<Rightarrow> script_flags \<Rightarrow> SigVersion \<Rightarrow> bytes \<Rightarrow> bytes \<Rightarrow> ScriptError option" where
  "check_encodings L flags sigversion vchSig vchPubKey =
     (case CheckSignatureEncoding L vchSig flags of Some e \<Rightarrow> Some e
      | None \<Rightarrow> CheckPubKeyEncoding vchPubKey flags sigversion)"

definition drop_signature :: "SigVersion \<Rightarrow> CScript \<Rightarrow> bytes \<Rightarrow> CScript" where
  "drop_signature sigversion scriptCode vchSig =
     (if sigversion = SIGVERSION_BASE then snd (FindAndDelete scriptCode (push_data [] vchSig))
      else scriptCode)"

text \<open>The epilogue shared by the two signature instructions.\<close>

definition push_result :: "bool \<Rightarrow> ScriptError \<Rightarrow> bool \<Rightarrow> valtype list \<Rightarrow> valtype list script_res" where
  "push_result verify err fSuccess st =
     (if verify then (if fSuccess then Inr st else Inl err) else Inr (vchBool fSuccess # st))"

definition exec_CHECKSIG ::
  "ecdsa_lib \<Rightarrow> checker \<Rightarrow> script_flags \<Rightarrow> SigVersion \<Rightarrow> bool \<Rightarrow> interp \<Rightarrow> interp script_res" where
  "exec_CHECKSIG L chk flags sigversion verify s =
     (case i_stack s of vchPubKey # vchSig # st \<Rightarrow>
          let scriptCode = drop_signature sigversion (i_codehash s) vchSig
          in (case check_encodings L flags sigversion vchSig vchPubKey of Some e \<Rightarrow> Inl e
              | None \<Rightarrow>
                  let fSuccess = chk_CheckSig chk vchSig vchPubKey scriptCode sigversion
                  in if \<not> fSuccess \<and> bit flags SCRIPT_VERIFY_NULLFAIL \<and> vchSig \<noteq> []
                     then Inl SCRIPT_ERR_SIG_NULLFAIL
                     else ebind (push_result verify SCRIPT_ERR_CHECKSIGVERIFY fSuccess st)
                            (\<lambda>st. Inr (s\<lparr>i_stack := st\<rparr>)))
      | _ \<Rightarrow> stack_err)"

text \<open>\<^verbatim>\<open>while (fSuccess && nSigsCount > 0)\<close>, on the signatures and keys not yet used, top first.\<close>

fun multisig_loop ::
  "ecdsa_lib \<Rightarrow> checker \<Rightarrow> script_flags \<Rightarrow> SigVersion \<Rightarrow> CScript \<Rightarrow> bytes list \<Rightarrow> bytes list \<Rightarrow> bool script_res" where
  "multisig_loop L chk flags sigversion scriptCode [] keys = Inr True"
| "multisig_loop L chk flags sigversion scriptCode (sig # sigs) [] = Inr False"
| "multisig_loop L chk flags sigversion scriptCode (sig # sigs) (key # keys) =
     (case check_encodings L flags sigversion sig key of Some e \<Rightarrow> Inl e
      | None \<Rightarrow>
          let sigs' = (if chk_CheckSig chk sig key scriptCode sigversion then sigs else sig # sigs)
          in if length keys < length sigs' then Inr False
             else multisig_loop L chk flags sigversion scriptCode sigs' keys)"

text \<open>\<^verbatim>\<open>while (i-- > 1)\<close>: \<open>n\<close> items are popped, the first \<^verbatim>\<open>ikey2\<close> of them are not signatures.\<close>

fun multisig_cleanup :: "bool \<Rightarrow> nat \<Rightarrow> nat \<Rightarrow> valtype list \<Rightarrow> valtype list script_res" where
  "multisig_cleanup nullfail 0 ikey2 st = Inr st"
| "multisig_cleanup nullfail (Suc n) ikey2 [] = Inl SCRIPT_ERR_UNKNOWN_ERROR"
| "multisig_cleanup nullfail (Suc n) ikey2 (x # st) =
     (if nullfail \<and> ikey2 = 0 \<and> x \<noteq> [] then Inl SCRIPT_ERR_SIG_NULLFAIL
      else multisig_cleanup nullfail n (ikey2 - 1) st)"

definition multisig_finish ::
  "script_flags \<Rightarrow> bool \<Rightarrow> bool \<Rightarrow> nat \<Rightarrow> nat \<Rightarrow> valtype list \<Rightarrow> valtype list script_res" where
  "multisig_finish flags verify fSuccess nKeys nSigs st =
     ebind (multisig_cleanup (\<not> fSuccess \<and> bit flags SCRIPT_VERIFY_NULLFAIL) (nKeys + nSigs + 2) (nKeys + 2) st)
       (\<lambda>st. case st of [] \<Rightarrow> stack_err
         | dummy # st \<Rightarrow>
             if bit flags SCRIPT_VERIFY_NULLDUMMY \<and> dummy \<noteq> [] then Inl SCRIPT_ERR_SIG_NULLDUMMY
             else push_result verify SCRIPT_ERR_CHECKMULTISIGVERIFY fSuccess st)"

text \<open>The two counts, with the operations counted so far; \<open>Inr\<close> when the stack holds all arguments.\<close>

definition multisig_counts :: "bool \<Rightarrow> nat \<Rightarrow> valtype list \<Rightarrow> (nat \<times> nat) script_res" where
  "multisig_counts fMin nOpCount st =
     (if length st < 1 then stack_err
      else ebind (stack_num fMin 4 (st ! 0)) (\<lambda>bn.
        let nKeysCount = getint bn; nKeys = nat nKeysCount
        in if nKeysCount < 0 \<or> int MAX_PUBKEYS_PER_MULTISIG < nKeysCount then Inl SCRIPT_ERR_PUBKEY_COUNT
           else if MAX_OPS_PER_SCRIPT < nOpCount + nKeys then Inl SCRIPT_ERR_OP_COUNT
           else if length st < nKeys + 2 then stack_err
           else ebind (stack_num fMin 4 (st ! (nKeys + 1))) (\<lambda>bn.
             let nSigsCount = getint bn; nSigs = nat nSigsCount
             in if nSigsCount < 0 \<or> nKeysCount < nSigsCount then Inl SCRIPT_ERR_SIG_COUNT
                else if length st < nKeys + nSigs + 3 then stack_err
                else Inr (nKeys, nSigs))))"

definition exec_CHECKMULTISIG ::
  "ecdsa_lib \<Rightarrow> checker \<Rightarrow> script_flags \<Rightarrow> SigVersion \<Rightarrow> bool \<Rightarrow> interp \<Rightarrow> interp script_res" where
  "exec_CHECKMULTISIG L chk flags sigversion verify s =
     (let st = i_stack s
      in ebind (multisig_counts (bit flags SCRIPT_VERIFY_MINIMALDATA) (i_nops s) st) (\<lambda>(nKeys, nSigs).
        let keys = take nKeys (drop 1 st); sigs = take nSigs (drop (nKeys + 2) st);
            scriptCode = foldl (drop_signature sigversion) (i_codehash s) sigs
        in ebind (multisig_loop L chk flags sigversion scriptCode sigs keys) (\<lambda>fSuccess.
           ebind (multisig_finish flags verify fSuccess nKeys nSigs st) (\<lambda>st.
             Inr (s\<lparr>i_stack := st, i_nops := i_nops s + nKeys\<rparr>)))))"

section \<open>One instruction\<close>

definition exec_opcode ::
  "ecdsa_lib \<Rightarrow> checker \<Rightarrow> script_flags \<Rightarrow> SigVersion \<Rightarrow> bool \<Rightarrow> opcodetype \<Rightarrow> interp \<Rightarrow> interp script_res" where
  "exec_opcode L chk flags sigversion fExec opcode s =
     (if opcode = OP_1NEGATE \<or> OP_1 \<le> opcode \<and> opcode \<le> OP_16 then exec_push_number opcode s
      else if opcode = OP_NOP then Inr s
      else if opcode = OP_CHECKLOCKTIMEVERIFY then exec_CHECKLOCKTIMEVERIFY chk flags s
      else if opcode = OP_CHECKSEQUENCEVERIFY then exec_CHECKSEQUENCEVERIFY chk flags s
      else if opcode = OP_NOP1 \<or> OP_NOP4 \<le> opcode \<and> opcode \<le> OP_NOP10 then exec_NOP flags s
      else if opcode = OP_IF \<or> opcode = OP_NOTIF then exec_IF flags sigversion fExec (opcode = OP_NOTIF) s
      else if opcode = OP_ELSE then exec_ELSE s
      else if opcode = OP_ENDIF then exec_ENDIF s
      else if opcode = OP_RETURN then Inl SCRIPT_ERR_OP_RETURN
      else if opcode = OP_TOALTSTACK then exec_TOALTSTACK s
      else if opcode = OP_FROMALTSTACK then exec_FROMALTSTACK s
      else if opcode = OP_CODESEPARATOR then exec_CODESEPARATOR s
      else if opcode = OP_CHECKSIG \<or> opcode = OP_CHECKSIGVERIFY
      then exec_CHECKSIG L chk flags sigversion (opcode = OP_CHECKSIGVERIFY) s
      else if opcode = OP_CHECKMULTISIG \<or> opcode = OP_CHECKMULTISIGVERIFY
      then exec_CHECKMULTISIG L chk flags sigversion (opcode = OP_CHECKMULTISIGVERIFY) s
      else if opcode = OP_RVN_ASSET then Inr s
      else case map_of (stack_ops (bit flags SCRIPT_VERIFY_MINIMALDATA)) opcode of
             None \<Rightarrow> Inl SCRIPT_ERR_BAD_OPCODE
           | Some h \<Rightarrow> ebind (h (i_stack s)) (\<lambda>st. Inr (s\<lparr>i_stack := st\<rparr>)))"

definition disabled_opcodes :: "opcodetype list" where
  "disabled_opcodes =
     [OP_CAT, OP_SUBSTR, OP_LEFT, OP_RIGHT, OP_INVERT, OP_AND, OP_OR, OP_XOR, OP_2MUL, OP_2DIV, OP_MUL,
      OP_DIV, OP_MOD, OP_LSHIFT, OP_RSHIFT]"

definition exec_instruction ::
  "ecdsa_lib \<Rightarrow> checker \<Rightarrow> script_flags \<Rightarrow> SigVersion \<Rightarrow> opcodetype \<Rightarrow> valtype \<Rightarrow> interp \<Rightarrow> interp script_res" where
  "exec_instruction L chk flags sigversion opcode vchPushValue s =
     (let fExec = (False \<notin> set (i_exec s))
      in if fExec \<and> opcode \<le> OP_PUSHDATA4 then
           (if bit flags SCRIPT_VERIFY_MINIMALDATA \<and> \<not> CheckMinimalPush vchPushValue opcode
            then Inl SCRIPT_ERR_MINIMALDATA
            else Inr (s\<lparr>i_stack := vchPushValue # i_stack s\<rparr>))
         else if fExec \<or> OP_IF \<le> opcode \<and> opcode \<le> OP_ENDIF then
           exec_opcode L chk flags sigversion fExec opcode s
         else Inr s)"

definition eval_step ::
  "ecdsa_lib \<Rightarrow> checker \<Rightarrow> script_flags \<Rightarrow> SigVersion \<Rightarrow> interp \<Rightarrow> interp script_res" where
  "eval_step L chk flags sigversion s =
     (case GetOp2 (i_pc s) of None \<Rightarrow> Inl SCRIPT_ERR_BAD_OPCODE
      | Some (opcode, vchPushValue, pc) \<Rightarrow>
          let nOpCount = i_nops s + (if OP_16 < opcode then 1 else 0)
          in if MAX_SCRIPT_ELEMENT_SIZE < length vchPushValue then Inl SCRIPT_ERR_PUSH_SIZE
             else if OP_16 < opcode \<and> MAX_OPS_PER_SCRIPT < nOpCount then Inl SCRIPT_ERR_OP_COUNT
             else if opcode \<in> set disabled_opcodes then Inl SCRIPT_ERR_DISABLED_OPCODE
             else ebind (exec_instruction L chk flags sigversion opcode vchPushValue
                    (s\<lparr>i_pc := pc, i_nops := nOpCount\<rparr>)) (\<lambda>s.
               if MAX_STACK_SIZE < length (i_stack s) + length (i_alt s) then Inl SCRIPT_ERR_STACK_SIZE
               else Inr s))"

lemma ebind_Inr: "ebind r f = Inr y \<longleftrightarrow> (\<exists>x. r = Inr x \<and> f x = Inr y)"
  by (cases r) (simp_all add: ebind_def)

lemma ebind_InrE:
  assumes "ebind r f = Inr y"
  obtains x where "r = Inr x" "f x = Inr y"
  using assms by (auto simp: ebind_Inr)

lemmas exec_defs =
  exec_push_number_def exec_NOP_def exec_CHECKLOCKTIMEVERIFY_def exec_CHECKSEQUENCEVERIFY_def
  exec_IF_def exec_ELSE_def exec_ENDIF_def exec_TOALTSTACK_def exec_FROMALTSTACK_def
  exec_CODESEPARATOR_def

lemma exec_CHECKSIG_frame:
  "exec_CHECKSIG L chk flags sv verify s = Inr s' \<Longrightarrow> \<exists>st. s' = s\<lparr>i_stack := st\<rparr>"
  by (auto simp: exec_CHECKSIG_def Let_def ebind_Inr split: list.splits option.splits if_splits)

lemma exec_CHECKMULTISIG_frame:
  "exec_CHECKMULTISIG L chk flags sv verify s = Inr s' \<Longrightarrow> \<exists>st n. s' = s\<lparr>i_stack := st, i_nops := n\<rparr>"
  by (auto simp: exec_CHECKMULTISIG_def Let_def elim!: ebind_InrE)

text \<open>Which handler runs depends on the opcode alone.\<close>

lemma exec_opcode_cases:
  obtains
    (push) "\<And>L chk flags sv fExec s. exec_opcode L chk flags sv fExec opcode s = exec_push_number opcode s"
  | (keep) "\<And>L chk flags sv fExec s. exec_opcode L chk flags sv fExec opcode s = Inr s"
  | (cltv) "\<And>L chk flags sv fExec s. exec_opcode L chk flags sv fExec opcode s = exec_CHECKLOCKTIMEVERIFY chk flags s"
  | (csv) "\<And>L chk flags sv fExec s. exec_opcode L chk flags sv fExec opcode s = exec_CHECKSEQUENCEVERIFY chk flags s"
  | (nop) "\<And>L chk flags sv fExec s. exec_opcode L chk flags sv fExec opcode s = exec_NOP flags s"
  | (cond) "\<And>L chk flags sv fExec s. exec_opcode L chk flags sv fExec opcode s = exec_IF flags sv fExec (opcode = OP_NOTIF) s" "OP_16 < opcode"
  | (alt) "\<And>L chk flags sv fExec s. exec_opcode L chk flags sv fExec opcode s = exec_ELSE s"
  | (close) "\<And>L chk flags sv fExec s. exec_opcode L chk flags sv fExec opcode s = exec_ENDIF s"
  | (ret) "\<And>L chk flags sv fExec s. exec_opcode L chk flags sv fExec opcode s = Inl SCRIPT_ERR_OP_RETURN"
  | (toalt) "\<And>L chk flags sv fExec s. exec_opcode L chk flags sv fExec opcode s = exec_TOALTSTACK s"
  | (fromalt) "\<And>L chk flags sv fExec s. exec_opcode L chk flags sv fExec opcode s = exec_FROMALTSTACK s"
  | (codesep) "\<And>L chk flags sv fExec s. exec_opcode L chk flags sv fExec opcode s = exec_CODESEPARATOR s"
  | (sig) "\<And>L chk flags sv fExec s. exec_opcode L chk flags sv fExec opcode s = exec_CHECKSIG L chk flags sv (opcode = OP_CHECKSIGVERIFY) s"
  | (multisig) "\<And>L chk flags sv fExec s. exec_opcode L chk flags sv fExec opcode s = exec_CHECKMULTISIG L chk flags sv (opcode = OP_CHECKMULTISIGVERIFY) s"
  | (table) "\<And>L chk flags sv fExec s. exec_opcode L chk flags sv fExec opcode s =
          (case map_of (stack_ops (bit flags SCRIPT_VERIFY_MINIMALDATA)) opcode of
             None \<Rightarrow> Inl SCRIPT_ERR_BAD_OPCODE | Some h \<Rightarrow> ebind (h (i_stack s)) (\<lambda>st. Inr (s\<lparr>i_stack := st\<rparr>)))"
proof -
  consider
    (push) "opcode = OP_1NEGATE \<or> OP_1 \<le> opcode \<and> opcode \<le> OP_16"
  | (keep) "opcode = OP_NOP \<or> opcode = OP_RVN_ASSET"
  | (cltv) "opcode = OP_CHECKLOCKTIMEVERIFY"
  | (csv) "opcode = OP_CHECKSEQUENCEVERIFY"
  | (nop) "opcode = OP_NOP1 \<or> OP_NOP4 \<le> opcode \<and> opcode \<le> OP_NOP10"
  | (cond) "opcode = OP_IF \<or> opcode = OP_NOTIF"
  | (alt) "opcode = OP_ELSE"
  | (close) "opcode = OP_ENDIF"
  | (ret) "opcode = OP_RETURN"
  | (toalt) "opcode = OP_TOALTSTACK"
  | (fromalt) "opcode = OP_FROMALTSTACK"
  | (codesep) "opcode = OP_CODESEPARATOR"
  | (sig) "opcode = OP_CHECKSIG \<or> opcode = OP_CHECKSIGVERIFY"
  | (multisig) "opcode = OP_CHECKMULTISIG \<or> opcode = OP_CHECKMULTISIGVERIFY"
  | (table) "\<not> (opcode = OP_1NEGATE \<or> OP_1 \<le> opcode \<and> opcode \<le> OP_16)" "\<not> (opcode = OP_NOP \<or> opcode = OP_RVN_ASSET)" "\<not> (opcode = OP_CHECKLOCKTIMEVERIFY)" "\<not> (opcode = OP_CHECKSEQUENCEVERIFY)" "\<not> (opcode = OP_NOP1 \<or> OP_NOP4 \<le> opcode \<and> opcode \<le> OP_NOP10)" "\<not> (opcode = OP_IF \<or> opcode = OP_NOTIF)" "\<not> (opcode = OP_ELSE)" "\<not> (opcode = OP_ENDIF)" "\<not> (opcode = OP_RETURN)" "\<not> (opcode = OP_TOALTSTACK)" "\<not> (opcode = OP_FROMALTSTACK)" "\<not> (opcode = OP_CODESEPARATOR)" "\<not> (opcode = OP_CHECKSIG \<or> opcode = OP_CHECKSIGVERIFY)" "\<not> (opcode = OP_CHECKMULTISIG \<or> opcode = OP_CHECKMULTISIGVERIFY)"
    by blast
  then show thesis
  proof cases
    case push
    then show ?thesis by (intro that(1)) (auto simp: exec_opcode_def)
  next
    case keep
    then show ?thesis by (intro that(2)) (auto simp: exec_opcode_def)
  next
    case cltv
    then show ?thesis by (intro that(3)) (auto simp: exec_opcode_def)
  next
    case csv
    then show ?thesis by (intro that(4)) (auto simp: exec_opcode_def)
  next
    case nop
    then have "\<not> opcode \<le> OP_16" by (auto dest: order_trans)
    with nop show ?thesis by (intro that(5)) (auto simp: exec_opcode_def)
  next
    case cond
    then have "OP_16 < opcode" by auto
    with cond show ?thesis by (intro that(6)) (auto simp: exec_opcode_def)
  next
    case alt
    then show ?thesis by (intro that(7)) (auto simp: exec_opcode_def)
  next
    case close
    then show ?thesis by (intro that(8)) (auto simp: exec_opcode_def)
  next
    case ret
    then show ?thesis by (intro that(9)) (auto simp: exec_opcode_def)
  next
    case toalt
    then show ?thesis by (intro that(10)) (auto simp: exec_opcode_def)
  next
    case fromalt
    then show ?thesis by (intro that(11)) (auto simp: exec_opcode_def)
  next
    case codesep
    then show ?thesis by (intro that(12)) (auto simp: exec_opcode_def)
  next
    case sig
    then show ?thesis by (intro that(13)) (auto simp: exec_opcode_def)
  next
    case multisig
    then show ?thesis by (intro that(14)) (auto simp: exec_opcode_def)
  next
    case table
    then show ?thesis by (intro that(15)) (auto simp: exec_opcode_def)
  qed
qed

lemma exec_opcode_pc: "exec_opcode L chk flags sv fExec opcode s = Inr s' \<Longrightarrow> i_pc s' = i_pc s"
  by (rule exec_opcode_cases [of opcode])
    (auto simp: exec_defs elim!: ebind_InrE dest!: exec_CHECKSIG_frame exec_CHECKMULTISIG_frame
      split: if_splits list.splits option.splits)

lemma exec_instruction_pc: "exec_instruction L chk flags sv opcode vch s = Inr s' \<Longrightarrow> i_pc s' = i_pc s"
  by (auto simp: exec_instruction_def Let_def dest: exec_opcode_pc split: if_splits)

lemma eval_step_Inr:
  assumes "eval_step L chk flags sv s = Inr s'"
  obtains opcode vch pc n where "GetOp2 (i_pc s) = Some (opcode, vch, pc)" "length vch \<le> MAX_SCRIPT_ELEMENT_SIZE"
    "n = i_nops s + (if OP_16 < opcode then 1 else 0)" "OP_16 < opcode \<longrightarrow> n \<le> MAX_OPS_PER_SCRIPT"
    "opcode \<notin> set disabled_opcodes"
    "exec_instruction L chk flags sv opcode vch (s\<lparr>i_pc := pc, i_nops := n\<rparr>) = Inr s'"
    "length (i_stack s') + length (i_alt s') \<le> MAX_STACK_SIZE"
proof -
  obtain opcode vch pc where g: "GetOp2 (i_pc s) = Some (opcode, vch, pc)"
    using assms by (auto simp: eval_step_def split: option.splits)
  define n where "n = i_nops s + (if OP_16 < opcode then 1 else 0)"
  have "length vch \<le> MAX_SCRIPT_ELEMENT_SIZE" "OP_16 < opcode \<longrightarrow> n \<le> MAX_OPS_PER_SCRIPT"
    "opcode \<notin> set disabled_opcodes"
    "exec_instruction L chk flags sv opcode vch (s\<lparr>i_pc := pc, i_nops := n\<rparr>) = Inr s'"
    "length (i_stack s') + length (i_alt s') \<le> MAX_STACK_SIZE"
    using assms g unfolding eval_step_def Let_def
    by (auto simp: ebind_Inr not_less simp flip: n_def split: if_splits)
  with g n_def that show ?thesis by blast
qed

lemma eval_step_shorter:
  assumes "eval_step L chk flags sv s = Inr s'"
  shows "length (i_pc s') < length (i_pc s)"
  using assms
proof (rule eval_step_Inr)
  fix opcode vch pc n
  assume "GetOp2 (i_pc s) = Some (opcode, vch, pc)"
    and "exec_instruction L chk flags sv opcode vch (s\<lparr>i_pc := pc, i_nops := n\<rparr>) = Inr s'"
  then show ?thesis
    using GetOp2_shorter [of "i_pc s" opcode vch pc] exec_instruction_pc by force
qed

section \<open>EvalScript\<close>

function eval_loop ::
  "ecdsa_lib \<Rightarrow> checker \<Rightarrow> script_flags \<Rightarrow> SigVersion \<Rightarrow> interp \<Rightarrow> interp script_res" where
  "eval_loop L chk flags sigversion s =
     (if i_pc s = [] then Inr s
      else case eval_step L chk flags sigversion s of Inl e \<Rightarrow> Inl e
           | Inr s' \<Rightarrow> eval_loop L chk flags sigversion s')"
  by pat_completeness auto
termination
  by (relation "measure (\<lambda>(L, chk, flags, sv, s). length (i_pc s))") (auto dest: eval_step_shorter)

declare eval_loop.simps [simp del]

definition interp_init :: "valtype list \<Rightarrow> CScript \<Rightarrow> interp" where
  "interp_init st script =
     \<lparr>i_pc = script, i_codehash = script, i_stack = st, i_alt = [], i_exec = [], i_nops = 0\<rparr>"

definition EvalScript ::
  "ecdsa_lib \<Rightarrow> checker \<Rightarrow> valtype list \<Rightarrow> CScript \<Rightarrow> script_flags \<Rightarrow> SigVersion \<Rightarrow> valtype list script_res" where
  "EvalScript L chk st script flags sigversion =
     (if MAX_SCRIPT_SIZE < length script then Inl SCRIPT_ERR_SCRIPT_SIZE
      else ebind (eval_loop L chk flags sigversion (interp_init st script)) (\<lambda>s.
        if i_exec s \<noteq> [] then Inl SCRIPT_ERR_UNBALANCED_CONDITIONAL else Inr (i_stack s)))"

end
