(* ===== verification/XC_Codec.thy ===== *)
theory XC_Codec
  imports XC_Script
begin

text \<open>
  \<^verbatim>\<open>src/src/serialize.h\<close> and the read side of \<^verbatim>\<open>CDataStream\<close> (\<^verbatim>\<open>src/src/streams.h\<close>): fixed-width
  integers, compact sizes, variable-length integers, byte vectors and vectors of objects.
  Writing appends bytes; reading takes the unread bytes of the stream and gives an exception or
  a value and what is left. The locale \<open>codec\<close> is the contract of a pair of methods
  \<^verbatim>\<open>Serialize\<close>/\<^verbatim>\<open>Unserialize\<close>; \<open>canonical_codec\<close> adds that every accepted input is the
  serialization of the value read.
\<close>

section \<open>Streams\<close>

datatype ser_error = end_of_data | non_canonical_size | size_too_large | varint_too_large
  | string_too_long | unknown_optional_data

type_synonym 'a reader = "bytes \<Rightarrow> ser_error + 'a \<times> bytes"

definition rret :: "'a \<Rightarrow> 'a reader" where
  "rret x s = Inr (x, s)"

definition rfail :: "ser_error \<Rightarrow> 'a reader" where
  "rfail e s = Inl e"

definition rbind :: "'a reader \<Rightarrow> ('a \<Rightarrow> 'b reader) \<Rightarrow> 'b reader" where
  "rbind r f s = (case r s of Inl e \<Rightarrow> Inl e | Inr (x, s') \<Rightarrow> f x s')"

text \<open>
  \<^verbatim>\<open>CDataStream::read\<close> of \<open>n\<close> bytes. The position is an \<^verbatim>\<open>unsigned int\<close>; streams are shorter
  than $2^{32}$ bytes.
\<close>

definition read_bytes :: "nat \<Rightarrow> bytes reader" where
  "read_bytes n s = (if length s < n then Inl end_of_data else Inr (take n s, drop n s))"

section \<open>Integers\<close>

definition ser_writedata8 :: "u8 \<Rightarrow> bytes" where "ser_writedata8 = le_bytes 1"
definition ser_writedata16 :: "u16 \<Rightarrow> bytes" where "ser_writedata16 = le_bytes 2"
definition ser_writedata32 :: "u32 \<Rightarrow> bytes" where "ser_writedata32 = le_bytes 4"
definition ser_writedata64 :: "u64 \<Rightarrow> bytes" where "ser_writedata64 = le_bytes 8"

definition ser_readdata8 :: "u8 reader" where
  "ser_readdata8 = rbind (read_bytes 1) (\<lambda>obj. rret (le_word obj))"
definition ser_readdata16 :: "u16 reader" where
  "ser_readdata16 = rbind (read_bytes 2) (\<lambda>obj. rret (le_word obj))"
definition ser_readdata32 :: "u32 reader" where
  "ser_readdata32 = rbind (read_bytes 4) (\<lambda>obj. rret (le_word obj))"
definition ser_readdata64 :: "u64 reader" where
  "ser_readdata64 = rbind (read_bytes 8) (\<lambda>obj. rret (le_word obj))"

text \<open>\<^verbatim>\<open>int64_t\<close> goes through \<^verbatim>\<open>uint64_t\<close>.\<close>

definition Serialize_int64 :: "int \<Rightarrow> bytes" where
  "Serialize_int64 a = ser_writedata64 (of_int a)"

definition Unserialize_int64 :: "int reader" where
  "Unserialize_int64 = rbind ser_readdata64 (\<lambda>a. rret (sint a))"

abbreviation "SER_MAX_SIZE \<equiv> (0x02000000 :: nat)"

definition GetSizeOfCompactSize :: "nat \<Rightarrow> nat" where
  "GetSizeOfCompactSize nSize =
     (if nSize < 253 then 1 else if nSize \<le> 0xffff then 1 + 2
      else if nSize \<le> 0xffffffff then 1 + 4 else 1 + 8)"

text \<open>Sizes are below $2^{64}$, the range of \<^verbatim>\<open>uint64_t\<close>.\<close>

definition WriteCompactSize :: "nat \<Rightarrow> bytes" where
  "WriteCompactSize nSize =
     (if nSize < 253 then ser_writedata8 (of_nat nSize)
      else if nSize \<le> 0xffff then ser_writedata8 253 @ ser_writedata16 (of_nat nSize)
      else if nSize \<le> 0xffffffff then ser_writedata8 254 @ ser_writedata32 (of_nat nSize)
      else ser_writedata8 255 @ ser_writedata64 (of_nat nSize))"

definition compact_size_checked :: "nat \<Rightarrow> nat \<Rightarrow> nat reader" where
  "compact_size_checked least nSizeRet =
     (if nSizeRet < least then rfail non_canonical_size
      else if SER_MAX_SIZE < nSizeRet then rfail size_too_large
      else rret nSizeRet)"

definition ReadCompactSize :: "nat reader" where
  "ReadCompactSize =
     rbind ser_readdata8 (\<lambda>chSize.
       if chSize < 253 then compact_size_checked 0 (unat chSize)
       else if chSize = 253 then rbind ser_readdata16 (\<lambda>n. compact_size_checked 253 (unat n))
       else if chSize = 254 then rbind ser_readdata32 (\<lambda>n. compact_size_checked 0x10000 (unat n))
       else rbind ser_readdata64 (\<lambda>n. compact_size_checked 0x100000000 (unat n)))"

section \<open>Variable-length integers\<close>

text \<open>The template at \<^verbatim>\<open>I = uint64_t\<close>: the digits of \<^verbatim>\<open>tmp\<close>, least significant first.\<close>

lemma varint_smaller:
  fixes n :: u64
  assumes "\<not> n \<le> 0x7f"
  shows "unat (drop_bit 7 n - 1) < unat n"
proof -
  have n: "128 \<le> unat n"
    using assms by (simp add: word_le_nat_alt)
  have d: "unat (drop_bit 7 n) = unat n div 128"
    by (simp add: drop_bit_eq_div unat_div_distrib)
  with n have "1 \<le> drop_bit 7 n"
    by (simp add: word_le_nat_alt)
  then have "unat (drop_bit 7 n - 1) = unat n div 128 - 1"
    by (simp add: unat_sub d)
  with n show ?thesis by simp
qed

function varint_digits :: "nat \<Rightarrow> u64 \<Rightarrow> bytes" where
  "varint_digits len n =
     (ucast (n AND 0x7f) OR (if len \<noteq> 0 then 0x80 else 0)) #
     (if n \<le> 0x7f then [] else varint_digits (len + 1) (drop_bit 7 n - 1))"
  by pat_completeness auto
termination
  by (relation "measure (\<lambda>(len, n). unat n)") (simp_all add: varint_smaller)

declare varint_digits.simps [simp del]

definition WriteVarInt :: "u64 \<Rightarrow> bytes" where
  "WriteVarInt n = rev (varint_digits 0 n)"

function GetSizeOfVarInt :: "u64 \<Rightarrow> nat" where
  "GetSizeOfVarInt n = (if n \<le> 0x7f then 1 else 1 + GetSizeOfVarInt (drop_bit 7 n - 1))"
  by pat_completeness auto
termination
  by (relation "measure unat") (simp_all add: varint_smaller)

declare GetSizeOfVarInt.simps [simp del]

fun ReadVarInt_loop :: "u64 \<Rightarrow> u64 reader" where
  "ReadVarInt_loop n [] = Inl end_of_data"
| "ReadVarInt_loop n (chData # is) =
     (if drop_bit 7 (- 1) < n then Inl varint_too_large
      else let n = push_bit 7 n OR ucast (chData AND 0x7f)
           in if chData AND 0x80 \<noteq> 0 then
                if n = - 1 then Inl varint_too_large else ReadVarInt_loop (n + 1) is
              else Inr (n, is))"

definition ReadVarInt :: "u64 reader" where
  "ReadVarInt = ReadVarInt_loop 0"

section \<open>Vectors\<close>

text \<open>
  Byte vectors are read in blocks of at most five million bytes. Vectors of objects grow in
  batches for the same reason and are filled one object after the other.
\<close>

function read_blocks :: "nat \<Rightarrow> bytes reader" where
  "read_blocks n =
     (if n = 0 then rret []
      else let blk = min n 5000000
           in rbind (read_bytes blk) (\<lambda>v. rbind (read_blocks (n - blk)) (\<lambda>w. rret (v @ w))))"
  by pat_completeness auto
termination
  by (relation "measure (\<lambda>n. n)") auto

declare read_blocks.simps [simp del]

definition Serialize_bytes :: "bytes \<Rightarrow> bytes" where
  "Serialize_bytes v = WriteCompactSize (length v) @ v"

definition Unserialize_bytes :: "bytes reader" where
  "Unserialize_bytes = rbind ReadCompactSize read_blocks"

definition Serialize_vector :: "('a \<Rightarrow> bytes) \<Rightarrow> 'a list \<Rightarrow> bytes" where
  "Serialize_vector ser v = WriteCompactSize (length v) @ concat (map ser v)"

fun unserialize_items :: "'a reader \<Rightarrow> nat \<Rightarrow> 'a list reader" where
  "unserialize_items r 0 = rret []"
| "unserialize_items r (Suc n) =
     rbind r (\<lambda>x. rbind (unserialize_items r n) (\<lambda>xs. rret (x # xs)))"

definition Unserialize_vector :: "'a reader \<Rightarrow> 'a list reader" where
  "Unserialize_vector r = rbind ReadCompactSize (unserialize_items r)"

definition Unserialize_string :: "bytes reader" where
  "Unserialize_string = rbind ReadCompactSize read_bytes"

definition LimitedString_Unserialize :: "nat \<Rightarrow> bytes reader" where
  "LimitedString_Unserialize Limit =
     rbind ReadCompactSize (\<lambda>size. if Limit < size then rfail string_too_long else read_bytes size)"

section \<open>The contract of a serializable type\<close>

text \<open>
  \<open>ok\<close> is the set of values the format can carry. \<open>local\<close> says that a read looks only at what it
  consumes.
\<close>

definition reader_local :: "'a reader \<Rightarrow> bool" where
  "reader_local r \<longleftrightarrow> (\<forall>s x rest t. r s = Inr (x, rest) \<longrightarrow> r (s @ t) = Inr (x, rest @ t))"

named_theorems reader_local_intros \<open>readers that look only at what they consume\<close>

lemma reader_local_rret [reader_local_intros]: "reader_local (rret x)"
  by (simp add: reader_local_def rret_def)

lemma reader_local_rfail [reader_local_intros]: "reader_local (rfail e)"
  by (simp add: reader_local_def rfail_def)

lemma reader_local_if [reader_local_intros]:
  "reader_local r \<Longrightarrow> reader_local r' \<Longrightarrow> reader_local (if c then r else r')"
  by simp

lemma reader_local_prod [reader_local_intros]:
  "(\<And>a b. reader_local (f a b)) \<Longrightarrow> reader_local (case p of (a, b) \<Rightarrow> f a b)"
  by (simp split: prod.split)

lemma reader_local_rbind [reader_local_intros]:
  assumes "reader_local r" "\<And>x. reader_local (f x)"
  shows "reader_local (rbind r f)"
proof -
  have "rbind r f (s @ t) = Inr (y, rest @ t)" if b: "rbind r f s = Inr (y, rest)" for s y rest t
  proof -
    obtain x s' where "r s = Inr (x, s')" "f x s' = Inr (y, rest)"
      using b by (auto simp: rbind_def split: sum.splits)
    with assms show ?thesis by (simp add: reader_local_def rbind_def)
  qed
  then show ?thesis by (simp add: reader_local_def)
qed

locale codec =
  fixes ser :: "'a \<Rightarrow> bytes" and unser :: "'a reader" and ok :: "'a \<Rightarrow> bool"
  assumes round_trip: "ok x \<Longrightarrow> unser (ser x @ rest) = Inr (x, rest)"
    and is_local: "reader_local unser"
begin

lemma local: "unser s = Inr (x, rest) \<Longrightarrow> unser (s @ t) = Inr (x, rest @ t)"
  using is_local by (simp add: reader_local_def)

lemma read_then: "ok x \<Longrightarrow> rbind unser f (ser x @ rest) = f x rest"
  by (simp add: rbind_def round_trip)

lemma round_trip_end: "ok x \<Longrightarrow> unser (ser x) = Inr (x, [])"
  using round_trip [of x "[]"] by simp

text \<open>A serialization cut short is refused.\<close>

lemma truncated:
  assumes "ok x" "k < length (ser x)"
  shows "\<exists>e. unser (take k (ser x)) = Inl e"
proof (rule ccontr)
  assume "\<nexists>e. unser (take k (ser x)) = Inl e"
  then obtain y rest where "unser (take k (ser x)) = Inr (y, rest)"
    by (metis sum.exhaust surj_pair)
  from local [OF this, of "drop k (ser x)"] round_trip_end [OF assms(1)] assms(2) show False
    by simp
qed

text \<open>Two values with the same bytes are the same.\<close>

lemma ser_inject: "ok x \<Longrightarrow> ok y \<Longrightarrow> ser x @ s = ser y @ t \<Longrightarrow> x = y \<and> s = t"
  by (metis Inr_inject Pair_inject round_trip)

end

locale canonical_codec = codec +
  assumes canonical: "unser s = Inr (x, rest) \<Longrightarrow> ok x \<and> s = ser x @ rest"
begin

lemma reads: "unser s = Inr (x, rest) \<longleftrightarrow> ok x \<and> s = ser x @ rest"
  using canonical round_trip by blast

lemma bind_reads:
  "rbind unser f s = Inr (y, rest) \<longleftrightarrow> (\<exists>x t. ok x \<and> s = ser x @ t \<and> f x t = Inr (y, rest))"
proof
  assume "rbind unser f s = Inr (y, rest)"
  then show "\<exists>x t. ok x \<and> s = ser x @ t \<and> f x t = Inr (y, rest)"
    by (auto simp: rbind_def reads split: sum.splits)
next
  assume "\<exists>x t. ok x \<and> s = ser x @ t \<and> f x t = Inr (y, rest)"
  then show "rbind unser f s = Inr (y, rest)"
    by (auto simp: read_then)
qed

end

lemma canonical_codecI:
  assumes "\<And>s x rest. unser s = Inr (x, rest) \<longleftrightarrow> ok x \<and> s = ser x @ rest"
  shows "canonical_codec ser unser ok"
  by unfold_locales (auto simp: assms reader_local_def)

lemma rret_iff [simp]: "rret x s = Inr (y, t) \<longleftrightarrow> y = x \<and> t = s"
  by (auto simp: rret_def)

lemma rbind_rret [simp]: "rbind (rret x) f s = f x s"
  by (simp add: rbind_def rret_def)

lemma rbind_rfail [simp]: "rbind (rfail e) f = rfail e"
  by (simp add: rbind_def rfail_def fun_eq_iff)

lemma rbind_assoc: "rbind (rbind r f) g = rbind r (\<lambda>x. rbind (f x) g)"
  by (auto simp: rbind_def fun_eq_iff split: sum.splits)

lemma rfail_iff [simp]: "rfail e s \<noteq> Inr r"
  by (simp add: rfail_def)

section \<open>The basic types meet it\<close>

lemma le_bytes_le_word:
  assumes "length b = n" "LENGTH('a) = 8 * n"
  shows "le_bytes n (le_word b :: 'a::len word) = b"
proof (rule nth_equalityI)
  fix i assume i: "i < length (le_bytes n (le_word b :: 'a word))"
  show "le_bytes n (le_word b :: 'a word) ! i = b ! i"
  proof (rule bit_word_eqI)
    fix k assume "k < LENGTH(8)"
    then show "bit (le_bytes n (le_word b :: 'a word) ! i) k = bit (b ! i) k"
      using i assms by (auto simp: le_bytes_def bit_simps bit_le_word)
  qed
qed (simp add: assms)

interpretation blob: canonical_codec "\<lambda>b. b" "read_bytes n" "\<lambda>b. length b = n" for n
  by (rule canonical_codecI) (auto simp: read_bytes_def)

lemma le_codec:
  assumes "LENGTH('a) = 8 * n"
  shows "canonical_codec (le_bytes n) (rbind (read_bytes n) (\<lambda>obj. rret (le_word obj :: 'a::len word)))
    (\<lambda>_. True)"
proof (rule canonical_codecI)
  fix s rest and x :: "'a word"
  have "(\<exists>b. length b = n \<and> s = b @ rest \<and> x = le_word b) \<longleftrightarrow> s = le_bytes n x @ rest"
    using le_bytes_le_word [OF _ assms] le_word_le_bytes [of n x] assms
    by (metis length_le_bytes order_refl)
  then show "rbind (read_bytes n) (\<lambda>obj. rret (le_word obj)) s = Inr (x, rest) \<longleftrightarrow>
      True \<and> s = le_bytes n x @ rest"
    by (auto simp: blob.bind_reads)
qed

interpretation data8: canonical_codec ser_writedata8 ser_readdata8 "\<lambda>_. True"
  unfolding ser_writedata8_def ser_readdata8_def by (rule le_codec) simp

interpretation data16: canonical_codec ser_writedata16 ser_readdata16 "\<lambda>_. True"
  unfolding ser_writedata16_def ser_readdata16_def by (rule le_codec) simp

interpretation data32: canonical_codec ser_writedata32 ser_readdata32 "\<lambda>_. True"
  unfolding ser_writedata32_def ser_readdata32_def by (rule le_codec) simp

interpretation data64: canonical_codec ser_writedata64 ser_readdata64 "\<lambda>_. True"
  unfolding ser_writedata64_def ser_readdata64_def by (rule le_codec) simp

definition int64_range :: "int \<Rightarrow> bool" where
  "int64_range a \<longleftrightarrow> - (2 ^ 63) \<le> a \<and> a < 2 ^ 63"

lemma sint_of_int64: "int64_range a \<Longrightarrow> sint (of_int a :: u64) = a"
  by (simp add: int64_range_def signed_of_int signed_take_bit_int_eq_self)

lemma int64_range_sint: "int64_range (sint (w :: u64))"
  using sint_ge [of w] sint_lt [of w] by (simp add: int64_range_def)

interpretation int64: canonical_codec Serialize_int64 Unserialize_int64 int64_range
proof (rule canonical_codecI)
  fix s x rest
  show "Unserialize_int64 s = Inr (x, rest) \<longleftrightarrow> int64_range x \<and> s = Serialize_int64 x @ rest"
    unfolding Unserialize_int64_def Serialize_int64_def
    by (auto simp: data64.bind_reads sint_of_int64 int64_range_sint)
qed

lemma compact_size_checked_iff [simp]:
  "compact_size_checked least m s = Inr (n, rest) \<longleftrightarrow>
     least \<le> m \<and> m \<le> SER_MAX_SIZE \<and> n = m \<and> rest = s"
  by (auto simp: compact_size_checked_def)

lemma ReadCompactSize_sound:
  assumes "ReadCompactSize s = Inr (n, rest)"
  shows "n \<le> SER_MAX_SIZE \<and> s = WriteCompactSize n @ rest"
proof -
  from assms obtain c t where s: "s = ser_writedata8 c @ t" and
    t: "(if c < 253 then compact_size_checked 0 (unat c)
       else if c = 253 then rbind ser_readdata16 (\<lambda>n. compact_size_checked 253 (unat n))
       else if c = 254 then rbind ser_readdata32 (\<lambda>n. compact_size_checked 0x10000 (unat n))
       else rbind ser_readdata64 (\<lambda>n. compact_size_checked 0x100000000 (unat n))) t = Inr (n, rest)"
    by (auto simp: ReadCompactSize_def data8.bind_reads)
  have unat16: "unat (w :: u16) < 0x10000" for w
    using unsigned_less [of w, where ?'a = nat] by simp
  consider "c < 253" | "c = 253" | "c = 254" | "\<not> c < 253" "c \<noteq> 253" "c \<noteq> 254"
    by blast
  then show ?thesis
  proof cases
    case 1
    then have "unat c < 253" by (simp add: word_less_nat_alt)
    with 1 s t show ?thesis by (simp add: WriteCompactSize_def)
  next
    case 2
    with t obtain w where "t = ser_writedata16 w @ rest" "n = unat w" "253 \<le> unat w"
      by (auto simp: data16.bind_reads)
    with 2 s unat16 [of w] show ?thesis by (simp add: WriteCompactSize_def)
  next
    case 3
    with t obtain w where "t = ser_writedata32 w @ rest" "n = unat w" "0x10000 \<le> unat w"
      "unat w \<le> SER_MAX_SIZE"
      by (auto simp: data32.bind_reads)
    with 3 s show ?thesis by (simp add: WriteCompactSize_def)
  next
    case 4
    with t have False by (auto simp: data64.bind_reads)
    then show ?thesis ..
  qed
qed

lemma ReadCompactSize_complete:
  assumes "n \<le> SER_MAX_SIZE"
  shows "ReadCompactSize (WriteCompactSize n @ rest) = Inr (n, rest)"
proof -
  consider "n < 253" | "253 \<le> n" "n \<le> 0xffff" | "0xffff < n"
    by linarith
  then show ?thesis
  proof cases
    case 1
    then have "unat (of_nat n :: u8) = n" by (simp add: unat_of_nat)
    moreover from this 1 have "(of_nat n :: u8) < 253" by (simp add: word_less_nat_alt)
    ultimately show ?thesis
      using 1 assms by (simp add: ReadCompactSize_def WriteCompactSize_def data8.read_then)
  next
    case 2
    then have "unat (of_nat n :: u16) = n" by (simp add: unat_of_nat)
    with 2 assms show ?thesis
      by (simp add: ReadCompactSize_def WriteCompactSize_def data8.read_then data16.read_then)
  next
    case 3
    with assms have "unat (of_nat n :: u32) = n" by (simp add: unat_of_nat)
    with 3 assms show ?thesis
      by (simp add: ReadCompactSize_def WriteCompactSize_def data8.read_then data32.read_then)
  qed
qed

interpretation compact_size: canonical_codec WriteCompactSize ReadCompactSize "\<lambda>n. n \<le> SER_MAX_SIZE"
  by (rule canonical_codecI) (blast dest: ReadCompactSize_sound intro: ReadCompactSize_complete)

lemma length_WriteCompactSize: "length (WriteCompactSize n) = GetSizeOfCompactSize n"
  by (simp add: WriteCompactSize_def GetSizeOfCompactSize_def ser_writedata8_def ser_writedata16_def
      ser_writedata32_def ser_writedata64_def)

section \<open>Vectors meet it\<close>

text \<open>Reading in blocks changes nothing.\<close>

lemma read_blocks: "read_blocks n = read_bytes n"
proof (induction n rule: read_blocks.induct)
  case (1 n)
  show ?case
  proof (cases "n = 0")
    case True
    then show ?thesis by (simp add: fun_eq_iff read_blocks.simps rret_def read_bytes_def)
  next
    case False
    let ?b = "min n 5000000"
    have IH: "read_blocks (n - ?b) = read_bytes (n - ?b)"
      using "1.IH" False by (simp add: Let_def)
    have "take ?b s @ take (n - ?b) (drop ?b s) = take n s" for s :: bytes
      by (metis le_add_diff_inverse min.cobounded1 take_add)
    with False IH show ?thesis
      by (auto simp: fun_eq_iff read_blocks.simps [of n] rbind_def read_bytes_def rret_def Let_def)
  qed
qed

interpretation byte_vector: canonical_codec Serialize_bytes Unserialize_bytes
    "\<lambda>v. length v \<le> SER_MAX_SIZE"
proof (rule canonical_codecI)
  fix s x rest
  show "Unserialize_bytes s = Inr (x, rest) \<longleftrightarrow> length x \<le> SER_MAX_SIZE \<and> s = Serialize_bytes x @ rest"
    by (auto simp: Unserialize_bytes_def Serialize_bytes_def compact_size.bind_reads read_blocks blob.reads)
qed

lemma Unserialize_string: "Unserialize_string = Unserialize_bytes"
  by (simp add: Unserialize_string_def Unserialize_bytes_def read_blocks [abs_def])

context codec
begin

lemma items_round_trip:
  "\<forall>x \<in> set xs. ok x \<Longrightarrow>
     unserialize_items unser (length xs) (concat (map ser xs) @ rest) = Inr (xs, rest)"
  by (induction xs) (simp_all add: rret_def rbind_def round_trip)

lemma items_local: "reader_local (unserialize_items unser n)"
  by (induction n) (auto intro!: reader_local_intros is_local)

lemma vector_codec:
  "codec (Serialize_vector ser) (Unserialize_vector unser)
     (\<lambda>v. length v \<le> SER_MAX_SIZE \<and> (\<forall>x \<in> set v. ok x))"
proof
  fix x rest
  assume "length x \<le> SER_MAX_SIZE \<and> (\<forall>y \<in> set x. ok y)"
  then show "Unserialize_vector unser (Serialize_vector ser x @ rest) = Inr (x, rest)"
    by (simp add: Unserialize_vector_def Serialize_vector_def compact_size.read_then items_round_trip)
next
  show "reader_local (Unserialize_vector unser)"
    unfolding Unserialize_vector_def
    by (intro reader_local_intros compact_size.is_local items_local)
qed

end

context canonical_codec
begin

lemma items_reads:
  "unserialize_items unser n s = Inr (xs, rest) \<longleftrightarrow>
     length xs = n \<and> (\<forall>x \<in> set xs. ok x) \<and> s = concat (map ser xs) @ rest"
proof (induction n arbitrary: s xs)
  case (Suc n)
  have "rbind (unserialize_items unser n) (\<lambda>ys. rret (x # ys)) t = Inr (xs, rest) \<longleftrightarrow>
      (\<exists>ys. unserialize_items unser n t = Inr (ys, rest) \<and> xs = x # ys)" for x t
    by (auto simp: rbind_def rret_def split: sum.splits)
  then show ?case
    by (cases xs) (auto simp: bind_reads Suc.IH)
qed auto

lemma vector_canonical:
  "canonical_codec (Serialize_vector ser) (Unserialize_vector unser)
     (\<lambda>v. length v \<le> SER_MAX_SIZE \<and> (\<forall>x \<in> set v. ok x))"
  by (rule canonical_codecI)
    (auto simp: Unserialize_vector_def Serialize_vector_def compact_size.bind_reads items_reads)

end

section \<open>Variable-length integers meet it\<close>

text \<open>The digits before the last one, as a function of the number the reader holds after them.\<close>

definition varint_prefix :: "u64 \<Rightarrow> bytes" where
  "varint_prefix m = (if m = 0 then [] else rev (varint_digits 1 (m - 1)))"

lemma varint_digits_Suc: "varint_digits (Suc len) n = varint_digits 1 n"
proof (induction "unat n" arbitrary: len n rule: less_induct)
  case less
  show ?case
  proof (cases "n \<le> 0x7f")
    case True
    then show ?thesis by (simp add: varint_digits.simps [of _ n])
  next
    case False
    note IH = less.hyps [OF varint_smaller [OF False]]
    show ?thesis
      using IH [of "Suc len"] IH [of 1] by (simp add: varint_digits.simps [of _ n])
  qed
qed

lemma small_drop7: "(n :: u64) \<le> 0x7f \<longleftrightarrow> drop_bit 7 n = 0"
proof -
  have "unat (drop_bit 7 n) = unat n div 128"
    by (simp add: drop_bit_eq_div unat_div_distrib)
  then have "drop_bit 7 n = 0 \<longleftrightarrow> unat n div 128 = 0"
    by (metis unsigned_0 unsigned_word_eqI)
  then show ?thesis by (auto simp: word_le_nat_alt)
qed

lemma varint_prefix_step:
  assumes "k \<noteq> - 1"
  shows "varint_prefix (k + 1) = varint_prefix (drop_bit 7 k) @ [ucast (k AND 0x7f) OR 0x80]"
proof -
  have "k + 1 \<noteq> 0"
    using assms by (simp add: eq_neg_iff_add_eq_0)
  then show ?thesis
    using varint_digits_Suc [of 1 "drop_bit 7 k - 1"] small_drop7 [of k]
    unfolding varint_prefix_def by (simp add: varint_digits.simps [of "Suc 0" k])
qed

lemma WriteVarInt_prefix: "WriteVarInt n = varint_prefix (drop_bit 7 n) @ [ucast (n AND 0x7f)]"
  using small_drop7 [of n]
  by (simp add: WriteVarInt_def varint_prefix_def varint_digits.simps [of 0 n])

text \<open>What one digit does to the number held.\<close>

lemma seven_bits: "(0x7f :: 'a::len word) = mask 7"
  by (simp add: mask_eq_exp_minus_1)

lemma varint_join:
  fixes k :: u64
  shows "push_bit 7 (drop_bit 7 k) OR (k AND 0x7f) = k"
  unfolding seven_bits by (rule bit_word_eqI) (auto simp: bit_simps)

lemma varint_split:
  fixes m :: u64 and b :: u8
  assumes "m \<le> drop_bit 7 (- 1)"
  shows "drop_bit 7 (push_bit 7 m OR ucast (b AND 0x7f)) = m"
    and "ucast ((push_bit 7 m OR ucast (b AND 0x7f)) AND 0x7f) = b AND 0x7f"
proof -
  have "drop_bit 7 (- 1 :: u64) = 0x1ffffffffffffff"
    by code_simp
  with assms have "unat m < 2 ^ 57"
    by (simp add: word_le_nat_alt)
  then have "take_bit 57 (unat m) = unat m"
    by (simp add: take_bit_nat_eq_self_iff)
  then have "bit m n \<Longrightarrow> n < 57" for n
    using bit_take_bit_iff [of 57 "unat m" n] by (simp add: bit_unsigned_iff)
  then show "drop_bit 7 (push_bit 7 m OR ucast (b AND 0x7f)) = m"
    unfolding seven_bits by (intro bit_word_eqI) (auto simp: bit_simps)
  show "ucast ((push_bit 7 m OR ucast (b AND 0x7f)) AND 0x7f) = b AND 0x7f"
    unfolding seven_bits by (rule bit_word_eqI) (auto simp: bit_simps)
qed

lemma varint_digit:
  fixes n :: u64
  shows "(ucast (n AND 0x7f) :: u8) AND 0x80 = 0"
    and "ucast (ucast (n AND 0x7f) :: u8) = n AND 0x7f"
    and "\<not> drop_bit 7 (- 1) < drop_bit 7 n"
proof -
  show "(ucast (n AND 0x7f) :: u8) AND 0x80 = 0"
    unfolding high_bit seven_bits by (simp add: bit_simps)
  show "ucast (ucast (n AND 0x7f) :: u8) = n AND 0x7f"
    unfolding seven_bits by (rule bit_word_eqI) (auto simp: bit_simps)
  show "\<not> drop_bit 7 (- 1) < drop_bit 7 n"
    using unsigned_less [of n, where 'a = nat]
    by (simp add: not_less word_le_nat_alt drop_bit_eq_div unat_div_distrib)
qed

lemma ReadVarInt_prefix: "ReadVarInt_loop 0 (varint_prefix m @ s) = ReadVarInt_loop m s"
proof (induction "unat m" arbitrary: m s rule: less_induct)
  case less
  show ?case
  proof (cases "m = 0")
    case True
    then show ?thesis by (simp add: varint_prefix_def)
  next
    case False
    define k where "k = m - 1"
    have m: "m = k + 1" and k: "k \<noteq> - 1"
      using False by (simp_all add: k_def)
    have "drop_bit 7 k \<le> k"
      by (simp add: word_le_nat_alt drop_bit_eq_div unat_div_distrib)
    moreover have "unat k < unat m"
      using False by (simp add: k_def unat_sub measure_unat)
    ultimately have lt: "unat (drop_bit 7 k) < unat m"
      by (simp add: word_le_nat_alt)
    from less.hyps [OF lt] low_byte [OF varint_digit(1)] varint_digit(2,3) [of k] k varint_join [of k]
    show ?thesis by (simp add: m varint_prefix_step)
  qed
qed

lemma ReadVarInt_sound:
  "ReadVarInt_loop m s = Inr (n, rest) \<Longrightarrow> varint_prefix m @ s = WriteVarInt n @ rest"
proof (induction m s rule: ReadVarInt_loop.induct)
  case (2 m b s)
  let ?n = "push_bit 7 m OR ucast (b AND 0x7f)"
  from "2.prems" have m: "m \<le> drop_bit 7 (- 1)"
    by (simp add: not_less split: if_splits)
  note n = varint_split [OF m, of b]
  show ?case
  proof (cases "b AND 0x80 = 0")
    case True
    with "2.prems" m have "n = ?n" "rest = s" by (simp_all add: Let_def split: if_splits)
    with n low_byte(1) [OF True] show ?thesis by (simp add: WriteVarInt_prefix)
  next
    case False
    with "2.prems" m have top: "?n \<noteq> - 1" and r: "ReadVarInt_loop (?n + 1) s = Inr (n, rest)"
      by (simp_all add: Let_def split: if_splits)
    have "\<not> drop_bit 7 (- 1) < m" using m by (simp add: not_less)
    from "2.IH" [OF this refl False top r] n high_byte(1) [OF False] top show ?thesis
      by (simp add: varint_prefix_step)
  qed
qed simp

lemma ReadVarInt_complete: "ReadVarInt (WriteVarInt n @ rest) = Inr (n, rest)"
  using low_byte(1) [OF varint_digit(1)] varint_digit [of n] varint_join [of n]
  by (simp add: ReadVarInt_def WriteVarInt_prefix ReadVarInt_prefix)

interpretation varint: canonical_codec WriteVarInt ReadVarInt "\<lambda>_. True"
proof (rule canonical_codecI)
  fix s n rest
  show "ReadVarInt s = Inr (n, rest) \<longleftrightarrow> True \<and> s = WriteVarInt n @ rest"
    using ReadVarInt_sound [of 0 s n rest] ReadVarInt_complete [of n rest]
    by (auto simp: ReadVarInt_def varint_prefix_def)
qed

lemma length_varint_digits: "length (varint_digits len n) = GetSizeOfVarInt n"
  by (induction len n rule: varint_digits.induct)
    (simp add: varint_digits.simps [of _ _] GetSizeOfVarInt.simps)

lemma length_WriteVarInt: "length (WriteVarInt n) = GetSizeOfVarInt n"
  by (simp add: WriteVarInt_def length_varint_digits)

end
