(* ===== verification/XC_Serialize.thy ===== *)
theory XC_Serialize
  imports XC_Codec XC_Tx XC_RIPEMD160
begin

text \<open>
  The wire and disk format of transactions and blocks (\<^verbatim>\<open>src/src/primitives/transaction.h\<close>,
  \<^verbatim>\<open>block.h\<close>), with and without witnesses, and the identifiers computed from it
  (\<^verbatim>\<open>transaction.cpp\<close>, \<^verbatim>\<open>CHashWriter\<close> of \<^verbatim>\<open>src/src/hash.h\<close>).
\<close>

section \<open>Inputs and outputs\<close>

definition Serialize_COutPoint :: "COutPoint \<Rightarrow> bytes" where
  "Serialize_COutPoint o1 = op_hash o1 @ ser_writedata32 (op_n o1)"

definition Unserialize_COutPoint :: "COutPoint reader" where
  "Unserialize_COutPoint =
     rbind (read_bytes 32) (\<lambda>h. rbind ser_readdata32 (\<lambda>n. rret \<lparr>op_hash = h, op_n = n\<rparr>))"

text \<open>The witness of an input is written by the transaction.\<close>

definition Serialize_CTxIn :: "CTxIn \<Rightarrow> bytes" where
  "Serialize_CTxIn i =
     Serialize_COutPoint (prevout i) @ Serialize_bytes (scriptSig i) @ ser_writedata32 (nSequence i)"

definition Unserialize_CTxIn :: "CTxIn reader" where
  "Unserialize_CTxIn =
     rbind Unserialize_COutPoint (\<lambda>o1. rbind Unserialize_bytes (\<lambda>sg. rbind ser_readdata32 (\<lambda>q.
       rret \<lparr>prevout = o1, scriptSig = sg, nSequence = q, scriptWitness = []\<rparr>)))"

definition Serialize_CTxOut :: "CTxOut \<Rightarrow> bytes" where
  "Serialize_CTxOut o1 = Serialize_int64 (nValue o1) @ Serialize_bytes (scriptPubKey o1)"

definition Unserialize_CTxOut :: "CTxOut reader" where
  "Unserialize_CTxOut =
     rbind Unserialize_int64 (\<lambda>v. rbind Unserialize_bytes (\<lambda>pk. rret \<lparr>nValue = v, scriptPubKey = pk\<rparr>))"

section \<open>Transactions\<close>

definition SerializeTransaction :: "bool \<Rightarrow> CTransaction \<Rightarrow> bytes" where
  "SerializeTransaction fAllowWitness tx =
     (let flags = (if fAllowWitness \<and> HasWitness tx then 1 else 0 :: u8)
      in ser_writedata32 (nVersion tx) @
         (if flags \<noteq> 0 then Serialize_vector Serialize_CTxIn [] @ ser_writedata8 flags else []) @
         Serialize_vector Serialize_CTxIn (vin tx) @
         Serialize_vector Serialize_CTxOut (vout tx) @
         (if flags AND 1 \<noteq> 0
          then concat (map (\<lambda>i. Serialize_vector Serialize_bytes (scriptWitness i)) (vin tx)) else []) @
         ser_writedata32 (nLockTime tx))"

text \<open>The loop \<^verbatim>\<open>s >> tx.vin[i].scriptWitness.stack\<close>.\<close>

fun read_witnesses :: "CTxIn list \<Rightarrow> CTxIn list reader" where
  "read_witnesses [] = rret []"
| "read_witnesses (i # is) =
     rbind (Unserialize_vector Unserialize_bytes) (\<lambda>w.
     rbind (read_witnesses is) (\<lambda>is'. rret (i\<lparr>scriptWitness := w\<rparr> # is')))"

definition UnserializeTransaction :: "bool \<Rightarrow> CTransaction reader" where
  "UnserializeTransaction fAllowWitness =
     rbind ser_readdata32 (\<lambda>ver.
     rbind (Unserialize_vector Unserialize_CTxIn) (\<lambda>ins.
     rbind (if ins = [] \<and> fAllowWitness then
              rbind ser_readdata8 (\<lambda>flags.
                if flags \<noteq> 0 then
                  rbind (Unserialize_vector Unserialize_CTxIn) (\<lambda>ins.
                  rbind (Unserialize_vector Unserialize_CTxOut) (\<lambda>outs. rret (ins, outs, flags)))
                else rret (ins, [], flags))
            else rbind (Unserialize_vector Unserialize_CTxOut) (\<lambda>outs. rret (ins, outs, 0)))
       (\<lambda>(ins, outs, flags).
     rbind (if flags AND 1 \<noteq> 0 \<and> fAllowWitness then
              rbind (read_witnesses ins) (\<lambda>ins. rret (ins, flags XOR 1))
            else rret (ins, flags))
       (\<lambda>(ins, flags).
     if flags \<noteq> 0 then rfail unknown_optional_data
     else rbind ser_readdata32 (\<lambda>lt.
       rret \<lparr>vin = ins, vout = outs, nVersion = ver, nLockTime = lt\<rparr>)))))"

section \<open>Blocks\<close>

text \<open>\<open>act\<close> is the global \<^verbatim>\<open>nKAWPOWActivationTime\<close>; the fields a format leaves out are read as zero.\<close>

definition Serialize_CBlockHeader :: "u32 \<Rightarrow> ('a) CBlockHeader_scheme \<Rightarrow> bytes" where
  "Serialize_CBlockHeader act h =
     ser_writedata32 (b_nVersion h) @ hashPrevBlock h @ hashMerkleRoot h @
     ser_writedata32 (nTime h) @ ser_writedata32 (nBits h) @
     (if nTime h < act then ser_writedata32 (nNonce h)
      else ser_writedata32 (b_nHeight h) @ ser_writedata64 (nNonce64 h) @ mix_hash h)"

definition Unserialize_CBlockHeader :: "u32 \<Rightarrow> CBlockHeader reader" where
  "Unserialize_CBlockHeader act =
     rbind ser_readdata32 (\<lambda>ver. rbind (read_bytes 32) (\<lambda>prev. rbind (read_bytes 32) (\<lambda>root.
     rbind ser_readdata32 (\<lambda>t. rbind ser_readdata32 (\<lambda>bits.
       if t < act then
         rbind ser_readdata32 (\<lambda>nonce. rret \<lparr>b_nVersion = ver, hashPrevBlock = prev,
           hashMerkleRoot = root, nTime = t, nBits = bits, nNonce = nonce, b_nHeight = 0,
           nNonce64 = 0, mix_hash = uint256_null\<rparr>)
       else
         rbind ser_readdata32 (\<lambda>height. rbind ser_readdata64 (\<lambda>nonce64. rbind (read_bytes 32) (\<lambda>mix.
           rret \<lparr>b_nVersion = ver, hashPrevBlock = prev, hashMerkleRoot = root, nTime = t,
             nBits = bits, nNonce = 0, b_nHeight = height, nNonce64 = nonce64, mix_hash = mix\<rparr>))))))))"

definition Serialize_CBlock :: "u32 \<Rightarrow> bool \<Rightarrow> CBlock \<Rightarrow> bytes" where
  "Serialize_CBlock act fAllowWitness b =
     Serialize_CBlockHeader act b @ Serialize_vector (SerializeTransaction fAllowWitness) (vtx b)"

definition Unserialize_CBlock :: "u32 \<Rightarrow> bool \<Rightarrow> CBlock reader" where
  "Unserialize_CBlock act fAllowWitness =
     rbind (Unserialize_CBlockHeader act) (\<lambda>h.
     rbind (Unserialize_vector (UnserializeTransaction fAllowWitness)) (\<lambda>txs.
       rret (CBlockHeader.extend h (CBlock.fields txs))))"

section \<open>Identifiers\<close>

text \<open>\<^verbatim>\<open>CHashWriter\<close> hashes whatever is written to it.\<close>

definition SerializeHash :: "bytes \<Rightarrow> uint256" where
  "SerializeHash obj = hash256_parts [obj]"

definition Tx_GetHash :: "CTransaction \<Rightarrow> uint256" where
  "Tx_GetHash tx = SerializeHash (SerializeTransaction False tx)"

definition Tx_GetWitnessHash :: "CTransaction \<Rightarrow> uint256" where
  "Tx_GetWitnessHash tx =
     (if \<not> HasWitness tx then Tx_GetHash tx else SerializeHash (SerializeTransaction True tx))"

definition GetTotalSize :: "CTransaction \<Rightarrow> nat" where
  "GetTotalSize tx = length (SerializeTransaction True tx)"

definition GetTransactionWeight :: "CTransaction \<Rightarrow> nat" where
  "GetTransactionWeight tx =
     length (SerializeTransaction False tx) * (4 - 1) + length (SerializeTransaction True tx)"

definition GetBlockWeight :: "u32 \<Rightarrow> CBlock \<Rightarrow> nat" where
  "GetBlockWeight act b =
     length (Serialize_CBlock act False b) * (4 - 1) + length (Serialize_CBlock act True b)"

section \<open>Inputs, outputs and headers are canonical\<close>

definition outpoint_ok :: "COutPoint \<Rightarrow> bool" where
  "outpoint_ok o1 \<longleftrightarrow> length (op_hash o1) = 32"

definition txin_ok :: "CTxIn \<Rightarrow> bool" where
  "txin_ok i \<longleftrightarrow> outpoint_ok (prevout i) \<and> length (scriptSig i) \<le> SER_MAX_SIZE"

definition txout_ok :: "CTxOut \<Rightarrow> bool" where
  "txout_ok o1 \<longleftrightarrow> int64_range (nValue o1) \<and> length (scriptPubKey o1) \<le> SER_MAX_SIZE"

lemmas codec_reads =
  blob.bind_reads blob.reads data8.bind_reads data8.reads data32.bind_reads data32.reads
  data64.bind_reads data64.reads int64.bind_reads int64.reads byte_vector.bind_reads byte_vector.reads

lemmas codec_thens =
  blob.read_then data8.read_then data32.read_then data64.read_then int64.read_then
  byte_vector.read_then

interpretation outpoint: canonical_codec Serialize_COutPoint Unserialize_COutPoint outpoint_ok
proof (rule canonical_codecI)
  fix s x rest
  show "Unserialize_COutPoint s = Inr (x, rest) \<longleftrightarrow> outpoint_ok x \<and> s = Serialize_COutPoint x @ rest"
    by (cases x) (auto simp: Unserialize_COutPoint_def Serialize_COutPoint_def outpoint_ok_def codec_reads)
qed

interpretation txin: canonical_codec Serialize_CTxIn Unserialize_CTxIn
    "\<lambda>i. txin_ok i \<and> scriptWitness i = []"
proof (rule canonical_codecI)
  fix s x rest
  show "Unserialize_CTxIn s = Inr (x, rest) \<longleftrightarrow>
      (txin_ok x \<and> scriptWitness x = []) \<and> s = Serialize_CTxIn x @ rest"
    by (cases x) (auto simp: Unserialize_CTxIn_def Serialize_CTxIn_def txin_ok_def
        outpoint.bind_reads codec_reads)
qed

interpretation txout: canonical_codec Serialize_CTxOut Unserialize_CTxOut txout_ok
proof (rule canonical_codecI)
  fix s x rest
  show "Unserialize_CTxOut s = Inr (x, rest) \<longleftrightarrow> txout_ok x \<and> s = Serialize_CTxOut x @ rest"
    by (cases x) (auto simp: Unserialize_CTxOut_def Serialize_CTxOut_def txout_ok_def codec_reads)
qed

definition header_ok :: "u32 \<Rightarrow> ('a) CBlockHeader_scheme \<Rightarrow> bool" where
  "header_ok act h \<longleftrightarrow>
     length (hashPrevBlock h) = 32 \<and> length (hashMerkleRoot h) = 32 \<and>
     (if nTime h < act then b_nHeight h = 0 \<and> nNonce64 h = 0 \<and> mix_hash h = uint256_null
      else nNonce h = 0 \<and> length (mix_hash h) = 32)"

interpretation header: canonical_codec "Serialize_CBlockHeader act" "Unserialize_CBlockHeader act"
    "header_ok act" for act
proof (rule canonical_codecI)
  fix s rest and x :: CBlockHeader
  show "Unserialize_CBlockHeader act s = Inr (x, rest) \<longleftrightarrow>
      header_ok act x \<and> s = Serialize_CBlockHeader act x @ rest"
  proof
    assume "Unserialize_CBlockHeader act s = Inr (x, rest)"
    then show "header_ok act x \<and> s = Serialize_CBlockHeader act x @ rest"
      by (cases x) (auto simp: Unserialize_CBlockHeader_def Serialize_CBlockHeader_def header_ok_def
          codec_reads split: if_splits)
  next
    assume "header_ok act x \<and> s = Serialize_CBlockHeader act x @ rest"
    then show "Unserialize_CBlockHeader act s = Inr (x, rest)"
      by (cases x) (auto simp: Unserialize_CBlockHeader_def Serialize_CBlockHeader_def header_ok_def
          codec_thens rret_def split: if_splits)
  qed
qed

interpretation txins: canonical_codec "Serialize_vector Serialize_CTxIn"
    "Unserialize_vector Unserialize_CTxIn"
    "\<lambda>v. length v \<le> SER_MAX_SIZE \<and> (\<forall>x \<in> set v. txin_ok x \<and> scriptWitness x = [])"
  by (rule txin.vector_canonical)

interpretation txouts: canonical_codec "Serialize_vector Serialize_CTxOut"
    "Unserialize_vector Unserialize_CTxOut"
    "\<lambda>v. length v \<le> SER_MAX_SIZE \<and> (\<forall>x \<in> set v. txout_ok x)"
  by (rule txout.vector_canonical)

interpretation witness_stack: canonical_codec "Serialize_vector Serialize_bytes"
    "Unserialize_vector Unserialize_bytes"
    "\<lambda>v. length v \<le> SER_MAX_SIZE \<and> (\<forall>x \<in> set v. length x \<le> SER_MAX_SIZE)"
  by (rule byte_vector.vector_canonical)

section \<open>Transactions\<close>

abbreviation strip_witness :: "CTxIn \<Rightarrow> CTxIn" where
  "strip_witness i \<equiv> i\<lparr>scriptWitness := []\<rparr>"

definition witness_ok :: "bytes list \<Rightarrow> bool" where
  "witness_ok w \<longleftrightarrow> length w \<le> SER_MAX_SIZE \<and> (\<forall>x \<in> set w. length x \<le> SER_MAX_SIZE)"

definition tx_fields_ok :: "CTransaction \<Rightarrow> bool" where
  "tx_fields_ok tx \<longleftrightarrow>
     length (vin tx) \<le> SER_MAX_SIZE \<and> (\<forall>i \<in> set (vin tx). txin_ok i \<and> witness_ok (scriptWitness i)) \<and>
     length (vout tx) \<le> SER_MAX_SIZE \<and> (\<forall>o1 \<in> set (vout tx). txout_ok o1)"

text \<open>
  The values each format carries: the old one has no witnesses; in the new one an empty list of
  inputs followed by outputs would be taken for the marker of the extended format.
\<close>

definition tx_ok :: "bool \<Rightarrow> CTransaction \<Rightarrow> bool" where
  "tx_ok fAllowWitness tx \<longleftrightarrow> tx_fields_ok tx \<and>
     (if fAllowWitness then vin tx = [] \<longrightarrow> vout tx = [] else \<not> HasWitness tx)"

text \<open>The extended format, whether or not a witness is present.\<close>

definition extended_format :: "CTransaction \<Rightarrow> bytes" where
  "extended_format tx =
     ser_writedata32 (nVersion tx) @ Serialize_vector Serialize_CTxIn [] @ ser_writedata8 1 @
     Serialize_vector Serialize_CTxIn (vin tx) @ Serialize_vector Serialize_CTxOut (vout tx) @
     concat (map (\<lambda>i. Serialize_vector Serialize_bytes (scriptWitness i)) (vin tx)) @
     ser_writedata32 (nLockTime tx)"

definition basic_format :: "CTransaction \<Rightarrow> bytes" where
  "basic_format tx =
     ser_writedata32 (nVersion tx) @ Serialize_vector Serialize_CTxIn (vin tx) @
     Serialize_vector Serialize_CTxOut (vout tx) @ ser_writedata32 (nLockTime tx)"

lemma SerializeTransaction_format:
  "SerializeTransaction w tx = (if w \<and> HasWitness tx then extended_format tx else basic_format tx)"
  by (simp add: SerializeTransaction_def extended_format_def basic_format_def Let_def)

lemma Serialize_CTxIn_strip [simp]: "Serialize_CTxIn (strip_witness i) = Serialize_CTxIn i"
  by (simp add: Serialize_CTxIn_def)

lemma Serialize_vector_strip [simp]:
  "Serialize_vector Serialize_CTxIn (map strip_witness is) = Serialize_vector Serialize_CTxIn is"
  by (simp add: Serialize_vector_def comp_def)

lemma strip_no_witness: "\<forall>i \<in> set is. scriptWitness i = [] \<Longrightarrow> map strip_witness is = is"
  by (induction "is") simp_all

lemma read_witnesses_round:
  "\<forall>i \<in> set is. witness_ok (scriptWitness i) \<Longrightarrow>
   read_witnesses (map strip_witness is)
     (concat (map (\<lambda>i. Serialize_vector Serialize_bytes (scriptWitness i)) is) @ rest) = Inr (is, rest)"
  by (induction "is")
    (simp_all add: rret_def rbind_def witness_stack.round_trip witness_ok_def)

lemma read_witnesses_sound:
  "read_witnesses is s = Inr (js, rest) \<Longrightarrow>
   map strip_witness js = map strip_witness is \<and> (\<forall>i \<in> set js. witness_ok (scriptWitness i)) \<and>
   s = concat (map (\<lambda>i. Serialize_vector Serialize_bytes (scriptWitness i)) js) @ rest"
proof (induction "is" arbitrary: s js)
  case (Cons i "is")
  from Cons.prems obtain w t where w: "witness_ok w" "s = Serialize_vector Serialize_bytes w @ t"
    and "rbind (read_witnesses is) (\<lambda>is'. rret (i\<lparr>scriptWitness := w\<rparr> # is')) t = Inr (js, rest)"
    by (auto simp: witness_stack.bind_reads witness_ok_def)
  then obtain js' where "read_witnesses is t = Inr (js', rest)" "js = i\<lparr>scriptWitness := w\<rparr> # js'"
    by (auto simp: rbind_def rret_def split: sum.splits)
  with Cons.IH w show ?case by simp
qed (simp add: rret_def)

lemma read_witnesses_local: "reader_local (read_witnesses is)"
  by (induction "is") (auto intro!: reader_local_intros witness_stack.is_local)

lemma UnserializeTransaction_local: "reader_local (UnserializeTransaction w)"
  unfolding UnserializeTransaction_def
  by (intro reader_local_intros data32.is_local data8.is_local txins.is_local txouts.is_local
      read_witnesses_local)

text \<open>What the reader does after the inputs and outputs.\<close>

definition read_rest :: "bool \<Rightarrow> u32 \<Rightarrow> CTxIn list \<times> CTxOut list \<times> u8 \<Rightarrow> CTransaction reader" where
  "read_rest w ver = (\<lambda>(ins, outs, flags).
     rbind (if flags AND 1 \<noteq> 0 \<and> w then
              rbind (read_witnesses ins) (\<lambda>ins. rret (ins, flags XOR 1))
            else rret (ins, flags))
       (\<lambda>(ins, flags).
     if flags \<noteq> 0 then rfail unknown_optional_data
     else rbind ser_readdata32 (\<lambda>lt.
       rret \<lparr>vin = ins, vout = outs, nVersion = ver, nLockTime = lt\<rparr>)))"

lemma read_rest_plain:
  "read_rest w ver (ins, outs, 0) s = Inr (tx, rest) \<longleftrightarrow>
     vin tx = ins \<and> vout tx = outs \<and> nVersion tx = ver \<and> s = ser_writedata32 (nLockTime tx) @ rest"
  by (cases tx) (auto simp: read_rest_def data32.bind_reads)

lemma read_rest_witness:
  assumes "flags \<noteq> 0" "read_rest True ver (ins, outs, flags) s = Inr (tx, rest)"
  shows "flags = 1 \<and> vout tx = outs \<and> nVersion tx = ver \<and>
    map strip_witness (vin tx) = map strip_witness ins \<and>
    (\<forall>i \<in> set (vin tx). witness_ok (scriptWitness i)) \<and>
    s = concat (map (\<lambda>i. Serialize_vector Serialize_bytes (scriptWitness i)) (vin tx)) @
        ser_writedata32 (nLockTime tx) @ rest"
proof -
  have odd: "flags AND 1 \<noteq> 0"
    using assms by (auto simp: read_rest_def)
  with assms(2) obtain js t where "read_witnesses ins s = Inr (js, t)"
    and t: "(if flags XOR 1 \<noteq> 0 then rfail unknown_optional_data
       else rbind ser_readdata32 (\<lambda>lt.
         rret \<lparr>vin = js, vout = outs, nVersion = ver, nLockTime = lt\<rparr>)) t = Inr (tx, rest)"
    by (auto simp: read_rest_def rbind_assoc rbind_def [of "read_witnesses _"] split: sum.splits)
  moreover from t have "flags XOR 1 = 0" by (simp split: if_splits)
  then have "flags = 1" by (metis xor.assoc xor_self_eq xor.right_neutral xor.left_neutral)
  ultimately show ?thesis
    using read_witnesses_sound [of ins s js t] by (auto simp: data32.bind_reads split: if_splits)
qed

lemma UnserializeTransaction_rest:
  "UnserializeTransaction w =
     rbind ser_readdata32 (\<lambda>ver.
     rbind (Unserialize_vector Unserialize_CTxIn) (\<lambda>ins.
     rbind (if ins = [] \<and> w then
              rbind ser_readdata8 (\<lambda>flags.
                if flags \<noteq> 0 then
                  rbind (Unserialize_vector Unserialize_CTxIn) (\<lambda>ins.
                  rbind (Unserialize_vector Unserialize_CTxOut) (\<lambda>outs. rret (ins, outs, flags)))
                else rret (ins, [], flags))
            else rbind (Unserialize_vector Unserialize_CTxOut) (\<lambda>outs. rret (ins, outs, 0)))
       (read_rest w ver)))"
  by (simp add: UnserializeTransaction_def read_rest_def)

lemma no_witness_iff: "\<not> HasWitness tx \<longleftrightarrow> (\<forall>i \<in> set (vin tx). scriptWitness i = [])"
  by (simp add: HasWitness_def)

lemma strip_txin_ok: "map strip_witness is = js \<Longrightarrow>
    (\<forall>j \<in> set js. txin_ok j) \<longleftrightarrow> (\<forall>i \<in> set is. txin_ok i)"
  by (auto simp: txin_ok_def)

lemma read_extended_sound:
  assumes "flags \<noteq> 0" "rbind (rbind (Unserialize_vector Unserialize_CTxIn) (\<lambda>ins.
       rbind (Unserialize_vector Unserialize_CTxOut) (\<lambda>outs. rret (ins, outs, flags))))
     (read_rest True ver) u = Inr (tx, rest)"
  shows "flags = 1 \<and> nVersion tx = ver \<and> tx_fields_ok tx \<and>
    u = Serialize_vector Serialize_CTxIn (vin tx) @ Serialize_vector Serialize_CTxOut (vout tx) @
      concat (map (\<lambda>i. Serialize_vector Serialize_bytes (scriptWitness i)) (vin tx)) @
      ser_writedata32 (nLockTime tx) @ rest"
proof -
  from assms(2) obtain ins outs v where ins:
    "length ins \<le> SER_MAX_SIZE" "\<forall>x \<in> set ins. txin_ok x \<and> scriptWitness x = []"
    "length outs \<le> SER_MAX_SIZE" "\<forall>x \<in> set outs. txout_ok x"
    "u = Serialize_vector Serialize_CTxIn ins @ Serialize_vector Serialize_CTxOut outs @ v"
    and v: "read_rest True ver (ins, outs, flags) v = Inr (tx, rest)"
    by (auto simp: rbind_assoc txins.bind_reads txouts.bind_reads)
  note r = read_rest_witness [OF assms(1) v]
  then have e: "map strip_witness (vin tx) = ins"
    using strip_no_witness [of ins] ins by simp
  have "Serialize_vector Serialize_CTxIn (vin tx) = Serialize_vector Serialize_CTxIn ins"
    "length (vin tx) = length ins"
    using Serialize_vector_strip [of "vin tx"] e by auto
  with ins r strip_txin_ok [OF e] show ?thesis
    by (simp add: tx_fields_ok_def)
qed

text \<open>Every accepted input is in one of the two formats.\<close>

lemma UnserializeTransaction_sound:
  assumes "UnserializeTransaction w s = Inr (tx, rest)"
  shows "tx_fields_ok tx \<and>
    (\<not> HasWitness tx \<and> (w \<longrightarrow> vin tx = [] \<longrightarrow> vout tx = []) \<and> s = basic_format tx @ rest \<or>
     w \<and> s = extended_format tx @ rest)"
proof -
  from assms obtain ver ins t where
    ins: "length ins \<le> SER_MAX_SIZE" "\<forall>x \<in> set ins. txin_ok x \<and> scriptWitness x = []"
    and s: "s = ser_writedata32 ver @ Serialize_vector Serialize_CTxIn ins @ t"
    and t: "rbind (if ins = [] \<and> w then
              rbind ser_readdata8 (\<lambda>flags.
                if flags \<noteq> 0 then
                  rbind (Unserialize_vector Unserialize_CTxIn) (\<lambda>ins.
                  rbind (Unserialize_vector Unserialize_CTxOut) (\<lambda>outs. rret (ins, outs, flags)))
                else rret (ins, [], flags))
            else rbind (Unserialize_vector Unserialize_CTxOut) (\<lambda>outs. rret (ins, outs, 0)))
       (read_rest w ver) t = Inr (tx, rest)"
    by (auto simp: UnserializeTransaction_rest data32.bind_reads txins.bind_reads)
  show ?thesis
  proof (cases "ins = [] \<and> w")
    case False
    with t obtain outs u where "length outs \<le> SER_MAX_SIZE" "\<forall>x \<in> set outs. txout_ok x"
      "t = Serialize_vector Serialize_CTxOut outs @ u" "read_rest w ver (ins, outs, 0) u = Inr (tx, rest)"
      by (auto simp: rbind_assoc txouts.bind_reads)
    with False ins s show ?thesis
      by (auto simp: read_rest_plain tx_fields_ok_def witness_ok_def HasWitness_def basic_format_def)
  next
    case True
    with t obtain flags u where fu: "t = ser_writedata8 flags @ u"
      and u: "rbind (if flags \<noteq> 0 then
                  rbind (Unserialize_vector Unserialize_CTxIn) (\<lambda>ins.
                  rbind (Unserialize_vector Unserialize_CTxOut) (\<lambda>outs. rret (ins, outs, flags)))
                else rret (ins, [], flags)) (read_rest w ver) u = Inr (tx, rest)"
      by (auto simp: rbind_assoc data8.bind_reads)
    show ?thesis
    proof (cases "flags = 0")
      case True
      with u have "vin tx = ins" "vout tx = []" "nVersion tx = ver" "u = ser_writedata32 (nLockTime tx) @ rest"
        by (simp_all add: read_rest_plain)
      with True \<open>ins = [] \<and> w\<close> s fu show ?thesis
        by (simp add: tx_fields_ok_def HasWitness_def basic_format_def Serialize_vector_def WriteCompactSize_def)
    next
      case False
      with u \<open>ins = [] \<and> w\<close> have "rbind (rbind (Unserialize_vector Unserialize_CTxIn) (\<lambda>ins.
            rbind (Unserialize_vector Unserialize_CTxOut) (\<lambda>outs. rret (ins, outs, flags))))
          (read_rest True ver) u = Inr (tx, rest)"
        by simp
      from read_extended_sound [OF False this] \<open>ins = [] \<and> w\<close> s fu show ?thesis
        by (simp add: extended_format_def)
    qed
  qed
qed

lemma UnserializeTransaction_basic:
  assumes "tx_fields_ok tx" "\<not> HasWitness tx" "w \<Longrightarrow> vin tx = [] \<Longrightarrow> vout tx = []"
  shows "UnserializeTransaction w (basic_format tx @ rest) = Inr (tx, rest)"
proof (cases "vin tx = [] \<and> w")
  case True
  then have "vout tx = []" using assms(3) by simp
  with True have "basic_format tx @ rest = ser_writedata32 (nVersion tx) @
      Serialize_vector Serialize_CTxIn [] @ ser_writedata8 0 @ ser_writedata32 (nLockTime tx) @ rest"
    by (simp add: basic_format_def Serialize_vector_def WriteCompactSize_def)
  with True \<open>vout tx = []\<close> show ?thesis
    by (simp add: UnserializeTransaction_rest data32.read_then txins.read_then data8.read_then
        rbind_assoc read_rest_plain)
next
  case False
  with assms show ?thesis
    by (auto simp: basic_format_def UnserializeTransaction_rest data32.read_then txins.read_then
        txouts.read_then rbind_assoc read_rest_plain tx_fields_ok_def no_witness_iff)
qed

lemma UnserializeTransaction_extended:
  assumes "tx_fields_ok tx"
  shows "UnserializeTransaction True (extended_format tx @ rest) = Inr (tx, rest)"
proof -
  let ?ins = "map strip_witness (vin tx)"
  have ins: "length ?ins \<le> SER_MAX_SIZE \<and> (\<forall>x \<in> set ?ins. txin_ok x \<and> scriptWitness x = [])"
    "length (vout tx) \<le> SER_MAX_SIZE \<and> (\<forall>x \<in> set (vout tx). txout_ok x)"
    using assms by (auto simp: tx_fields_ok_def txin_ok_def)
  have wit: "\<forall>i \<in> set (vin tx). witness_ok (scriptWitness i)"
    using assms by (simp add: tx_fields_ok_def)
  have "read_rest True (nVersion tx) (?ins, vout tx, 1)
     (concat (map (\<lambda>i. Serialize_vector Serialize_bytes (scriptWitness i)) (vin tx)) @
      ser_writedata32 (nLockTime tx) @ rest) = Inr (tx, rest)"
    by (simp add: read_rest_def rbind_assoc rbind_def [of "read_witnesses _"]
        read_witnesses_round [OF wit] data32.read_then)
  then show ?thesis
    unfolding extended_format_def Serialize_vector_strip [of "vin tx", symmetric]
    by (simp add: UnserializeTransaction_rest data32.read_then txins.read_then [OF ins(1)]
        txins.read_then [of "[]"] txouts.read_then [OF ins(2)] data8.read_then rbind_assoc
        del: Serialize_vector_strip)
qed

interpretation transaction: codec "SerializeTransaction w" "UnserializeTransaction w" "tx_ok w" for w
proof
  fix x rest
  assume "tx_ok w x"
  then show "UnserializeTransaction w (SerializeTransaction w x @ rest) = Inr (x, rest)"
    using UnserializeTransaction_basic [of x w rest] UnserializeTransaction_extended [of x rest]
    by (auto simp: SerializeTransaction_format tx_ok_def split: if_splits)
qed (rule UnserializeTransaction_local)

interpretation transactions: codec "Serialize_vector (SerializeTransaction w)"
    "Unserialize_vector (UnserializeTransaction w)"
    "\<lambda>v. length v \<le> SER_MAX_SIZE \<and> (\<forall>x \<in> set v. tx_ok w x)" for w
  by (rule transaction.vector_codec)

definition block_ok :: "u32 \<Rightarrow> bool \<Rightarrow> CBlock \<Rightarrow> bool" where
  "block_ok act w b \<longleftrightarrow> header_ok act b \<and> length (vtx b) \<le> SER_MAX_SIZE \<and> (\<forall>tx \<in> set (vtx b). tx_ok w tx)"

lemma header_truncate:
  "Serialize_CBlockHeader act (CBlockHeader.truncate b) = Serialize_CBlockHeader act b"
  "header_ok act (CBlockHeader.truncate b) = header_ok act b"
  by (simp_all add: Serialize_CBlockHeader_def header_ok_def CBlockHeader.truncate_def)

lemma header_extend: "CBlockHeader.extend (CBlockHeader.truncate b) (CBlock.fields (vtx b)) = b"
  by (cases b) (simp add: CBlockHeader.extend_def CBlockHeader.truncate_def CBlock.fields_def)

interpretation block: codec "Serialize_CBlock act w" "Unserialize_CBlock act w" "block_ok act w" for act w
proof
  fix b rest
  assume "block_ok act w b"
  then have "header_ok act (CBlockHeader.truncate b)"
    "length (vtx b) \<le> SER_MAX_SIZE \<and> (\<forall>x \<in> set (vtx b). tx_ok w x)"
    by (simp_all add: block_ok_def header_truncate)
  then show "Unserialize_CBlock act w (Serialize_CBlock act w b @ rest) = Inr (b, rest)"
    unfolding Unserialize_CBlock_def Serialize_CBlock_def header_truncate [of act b, symmetric]
    by (simp add: header.read_then transactions.read_then header_extend)
next
  show "reader_local (Unserialize_CBlock act w)"
    unfolding Unserialize_CBlock_def
    by (intro reader_local_intros header.is_local transactions.is_local)
qed

section \<open>Identifiers\<close>

lemma SerializeHash_fips: "SerializeHash b = fips_sha256 (fips_sha256 b)"
  by (simp add: SerializeHash_def hash256_parts_fips)

text \<open>The transaction without its witnesses.\<close>

definition strip_tx :: "CTransaction \<Rightarrow> CTransaction" where
  "strip_tx tx = tx\<lparr>vin := map strip_witness (vin tx)\<rparr>"

lemma strip_tx_serialized: "SerializeTransaction False tx = SerializeTransaction False (strip_tx tx)"
  by (simp add: SerializeTransaction_format basic_format_def strip_tx_def)

lemma strip_tx_ok: "tx_fields_ok tx \<Longrightarrow> tx_ok False (strip_tx tx)"
  by (auto simp: tx_ok_def tx_fields_ok_def strip_tx_def HasWitness_def txin_ok_def witness_ok_def)

definition sha256_collision :: "bytes \<Rightarrow> bytes \<Rightarrow> bool" where
  "sha256_collision a b \<longleftrightarrow> a \<noteq> b \<and> fips_sha256 a = fips_sha256 b"

lemma SerializeHash_eq_iff:
  "SerializeHash a = SerializeHash b \<longleftrightarrow>
     a = b \<or> sha256_collision a b \<or> sha256_collision (fips_sha256 a) (fips_sha256 b)"
  by (auto simp: SerializeHash_fips sha256_collision_def)

lemma strip_tx_inject:
  assumes "tx_fields_ok tx" "tx_fields_ok tx'"
  shows "SerializeTransaction False tx = SerializeTransaction False tx' \<longleftrightarrow> strip_tx tx = strip_tx tx'"
  using transaction.ser_inject [OF strip_tx_ok [OF assms(1)] strip_tx_ok [OF assms(2)], of "[]" "[]"]
  by (auto simp: strip_tx_serialized [of tx] strip_tx_serialized [of tx'])

section \<open>Properties\<close>

text \<open>A transaction with one input and one output, and the same with a witness item.\<close>

definition ex_plain_tx :: CTransaction where
  "ex_plain_tx =
     \<lparr>vin = [\<lparr>prevout = \<lparr>op_hash = replicate 32 7, op_n = 1\<rparr>, scriptSig = [OP_1], nSequence = -1,
       scriptWitness = []\<rparr>],
      vout = [\<lparr>nValue = 5 * COIN, scriptPubKey = [OP_DUP, OP_HASH160]\<rparr>], nVersion = 2, nLockTime = 9\<rparr>"

definition ex_witness_tx :: CTransaction where
  "ex_witness_tx = ex_plain_tx\<lparr>vin := map (\<lambda>i. i\<lparr>scriptWitness := [[3, 4]]\<rparr>) (vin ex_plain_tx)\<rparr>"

definition ex_block :: CBlock where
  "ex_block =
     \<lparr>b_nVersion = 4, hashPrevBlock = replicate 32 1, hashMerkleRoot = replicate 32 2, nTime = 60,
      nBits = 0x207fffff, nNonce = 0, b_nHeight = 1, nNonce64 = 0, mix_hash = replicate 32 0,
      vtx = [ex_plain_tx, ex_witness_tx]\<rparr>"

lemma ex_tx_ok: "tx_fields_ok ex_plain_tx" "tx_fields_ok ex_witness_tx"
  by (simp_all add: tx_fields_ok_def ex_plain_tx_def ex_witness_tx_def txin_ok_def outpoint_ok_def
      witness_ok_def txout_ok_def int64_range_def)

lemma ex_block_ok: "block_ok 0 True ex_block"
  using ex_tx_ok by (simp add: block_ok_def header_ok_def tx_ok_def ex_block_def)
    (simp add: ex_plain_tx_def ex_witness_tx_def)

text \<open>
  C16. Reading a transaction: with witnesses allowed, an input is accepted exactly when it is the
  serialization of the transaction read, or the extended format of a transaction whose witnesses
  are all empty (which is never written). No other byte string is accepted, whatever follows.
\<close>

theorem transaction_reads:
  "UnserializeTransaction True s = Inr (tx, rest) \<longleftrightarrow>
     tx_fields_ok tx \<and>
     (s = SerializeTransaction True tx @ rest \<and> (HasWitness tx \<or> vin tx \<noteq> [] \<or> vout tx = []) \<or>
      \<not> HasWitness tx \<and> s = extended_format tx @ rest)"
proof -
  have "vin tx = [] \<Longrightarrow> \<not> HasWitness tx"
    by (simp add: HasWitness_def)
  then show ?thesis
    using UnserializeTransaction_sound [of True s tx rest] UnserializeTransaction_basic [of tx True rest]
      UnserializeTransaction_extended [of tx rest]
    by (auto simp: SerializeTransaction_format)
qed

theorem transaction_reads_witness:
  "UnserializeTransaction True (extended_format ex_plain_tx) = Inr (ex_plain_tx, []) \<and>
   UnserializeTransaction True (SerializeTransaction True ex_plain_tx) = Inr (ex_plain_tx, []) \<and>
   extended_format ex_plain_tx \<noteq> SerializeTransaction True ex_plain_tx"
proof -
  have "\<not> HasWitness ex_plain_tx" "vin ex_plain_tx \<noteq> []"
    by (simp_all add: HasWitness_def ex_plain_tx_def)
  moreover have "extended_format ex_plain_tx \<noteq> SerializeTransaction True ex_plain_tx"
    by code_simp
  ultimately show ?thesis
    using ex_tx_ok(1) transaction_reads [of "extended_format ex_plain_tx" ex_plain_tx "[]"]
      transaction_reads [of "SerializeTransaction True ex_plain_tx" ex_plain_tx "[]"]
    by simp
qed

text \<open>
  C22. A block written to disk or to the network is read back, in front of any further bytes, and
  the reader stops right behind it.
\<close>

theorem block_round_trip:
  assumes "block_ok act w b"
  shows "Unserialize_CBlock act w (Serialize_CBlock act w b @ rest) = Inr (b, rest)"
  using assms by (rule block.round_trip)

theorem block_round_trip_witness:
  "Unserialize_CBlock 0 True (Serialize_CBlock 0 True ex_block @ [1, 2]) = Inr (ex_block, [1, 2])"
  by (rule block_round_trip [OF ex_block_ok])

text \<open>
  A block cut short at any byte is refused with an exception: no prefix of a serialized block
  reads as a block.
\<close>

theorem truncated_block_refused:
  assumes "block_ok act w b" "k < length (Serialize_CBlock act w b)"
  shows "\<exists>e. Unserialize_CBlock act w (take k (Serialize_CBlock act w b)) = Inl e"
  using assms by (rule block.truncated)

theorem truncated_block_refused_witness:
  "\<exists>e. Unserialize_CBlock 0 True (take 100 (Serialize_CBlock 0 True ex_block)) = Inl e"
proof (rule truncated_block_refused [OF ex_block_ok])
  show "100 < length (Serialize_CBlock 0 True ex_block)"
    by code_simp
qed

text \<open>
  C17. Transaction identifiers: two transactions have the same id exactly when they agree on
  everything but their witnesses, or else the two serializations (or their first hashes) are a
  collision of SHA-256.
\<close>

theorem txid_identifies:
  assumes "tx_fields_ok tx" "tx_fields_ok tx'"
  shows "Tx_GetHash tx = Tx_GetHash tx' \<longleftrightarrow>
    strip_tx tx = strip_tx tx' \<or>
    sha256_collision (SerializeTransaction False tx) (SerializeTransaction False tx') \<or>
    sha256_collision (fips_sha256 (SerializeTransaction False tx))
      (fips_sha256 (SerializeTransaction False tx'))"
  unfolding Tx_GetHash_def SerializeHash_eq_iff strip_tx_inject [OF assms] ..

theorem txid_identifies_witness:
  "ex_plain_tx \<noteq> ex_witness_tx \<and> Tx_GetHash ex_plain_tx = Tx_GetHash ex_witness_tx"
proof -
  have "strip_tx ex_plain_tx = strip_tx ex_witness_tx" "ex_plain_tx \<noteq> ex_witness_tx"
    by (simp_all add: strip_tx_def ex_witness_tx_def ex_plain_tx_def)
  then show ?thesis
    using txid_identifies [OF ex_tx_ok] by simp
qed

text \<open>
  Variable-length integers have exactly one encoding: the reader accepts precisely what the
  writer writes, for every 64-bit number, and stops right behind it.
\<close>

theorem varint_unique: "ReadVarInt s = Inr (n, rest) \<longleftrightarrow> s = WriteVarInt n @ rest"
  using varint.reads by simp

end
