(* ===== verification/XC_Sighash.thy ===== *)
theory XC_Sighash
  imports XC_Serialize XC_Der "HOL-Library.Sublist"
begin

text \<open>
  The message a signature signs: \<^verbatim>\<open>CTransactionSignatureSerializer\<close>, the cache
  \<^verbatim>\<open>PrecomputedTransactionData\<close> and \<^verbatim>\<open>SignatureHash\<close> of \<^verbatim>\<open>src/src/script/interpreter.cpp\<close>.
  Hash types are the \<^verbatim>\<open>int\<close> the source passes, as 32 bits.
\<close>

abbreviation (input) "OP_CODESEPARATOR \<equiv> (0xab :: opcodetype)"

section \<open>The script code without its separators\<close>

text \<open>Where a failing \<^verbatim>\<open>GetOp2\<close> leaves the iterator.\<close>

definition GetOp2_fail_pos :: "bytes \<Rightarrow> bytes" where
  "GetOp2_fail_pos pc =
     (case pc of [] \<Rightarrow> []
      | opcode # pc \<Rightarrow> (case GetOp2_size opcode pc of None \<Rightarrow> pc | Some (nSize, pc) \<Rightarrow> pc))"

function count_separators :: "bytes \<Rightarrow> nat" where
  "count_separators it =
     (case GetOp2 it of None \<Rightarrow> 0
      | Some (opcode, vch, it') \<Rightarrow> (if opcode = OP_CODESEPARATOR then 1 else 0) + count_separators it')"
  by pat_completeness auto
termination
  by (relation "measure length") auto

text \<open>The second loop: \<^verbatim>\<open>it\<close> walks, \<^verbatim>\<open>itBegin\<close> is the start of the run not yet written.\<close>

function write_segments :: "bytes \<Rightarrow> bytes \<Rightarrow> bytes" where
  "write_segments it itBegin =
     (case GetOp2 it of
        None \<Rightarrow> (if itBegin \<noteq> [] then take (length itBegin - length (GetOp2_fail_pos it)) itBegin else [])
      | Some (opcode, vch, it') \<Rightarrow>
          if opcode = OP_CODESEPARATOR
          then take (length itBegin - length it' - 1) itBegin @ write_segments it' it'
          else write_segments it' itBegin)"
  by pat_completeness auto
termination
  by (relation "measure (\<lambda>(it, b). length it)") auto

declare count_separators.simps [simp del] write_segments.simps [simp del]

definition SerializeScriptCode :: "CScript \<Rightarrow> bytes" where
  "SerializeScriptCode scriptCode =
     WriteCompactSize (length scriptCode - count_separators scriptCode) @ write_segments scriptCode scriptCode"

section \<open>CTransactionSignatureSerializer\<close>

definition fAnyoneCanPay :: "u32 \<Rightarrow> bool" where
  "fAnyoneCanPay nHashType \<longleftrightarrow> nHashType AND 0x80 \<noteq> 0"

definition fHashSingle :: "u32 \<Rightarrow> bool" where
  "fHashSingle nHashType \<longleftrightarrow> nHashType AND 0x1f = 3"

definition fHashNone :: "u32 \<Rightarrow> bool" where
  "fHashNone nHashType \<longleftrightarrow> nHashType AND 0x1f = 2"

definition SerializeInput :: "CTransaction \<Rightarrow> CScript \<Rightarrow> nat \<Rightarrow> u32 \<Rightarrow> nat \<Rightarrow> bytes" where
  "SerializeInput txTo scriptCode nIn ht nInput =
     (let nInput = (if fAnyoneCanPay ht then nIn else nInput)
      in Serialize_COutPoint (prevout (vin txTo ! nInput)) @
         (if nInput \<noteq> nIn then Serialize_bytes [] else SerializeScriptCode scriptCode) @
         (if nInput \<noteq> nIn \<and> (fHashSingle ht \<or> fHashNone ht) then ser_writedata32 0
          else ser_writedata32 (nSequence (vin txTo ! nInput))))"

text \<open>The null output \<^verbatim>\<open>CTxOut()\<close>.\<close>

definition CTxOut_null :: CTxOut where
  "CTxOut_null = \<lparr>nValue = - 1, scriptPubKey = []\<rparr>"

definition SerializeOutput :: "CTransaction \<Rightarrow> nat \<Rightarrow> u32 \<Rightarrow> nat \<Rightarrow> bytes" where
  "SerializeOutput txTo nIn ht nOutput =
     (if fHashSingle ht \<and> nOutput \<noteq> nIn then Serialize_CTxOut CTxOut_null
      else Serialize_CTxOut (vout txTo ! nOutput))"

definition SignatureSerializer :: "CTransaction \<Rightarrow> CScript \<Rightarrow> nat \<Rightarrow> u32 \<Rightarrow> bytes" where
  "SignatureSerializer txTo scriptCode nIn ht =
     (let nInputs = (if fAnyoneCanPay ht then 1 else length (vin txTo));
          nOutputs = (if fHashNone ht then 0 else if fHashSingle ht then nIn + 1 else length (vout txTo))
      in ser_writedata32 (nVersion txTo) @
         WriteCompactSize nInputs @ concat (map (SerializeInput txTo scriptCode nIn ht) [0..<nInputs]) @
         WriteCompactSize nOutputs @ concat (map (SerializeOutput txTo nIn ht) [0..<nOutputs]) @
         ser_writedata32 (nLockTime txTo))"

section \<open>SignatureHash\<close>

definition GetPrevoutHash :: "CTransaction \<Rightarrow> uint256" where
  "GetPrevoutHash txTo = hash256_parts (map (\<lambda>i. Serialize_COutPoint (prevout i)) (vin txTo))"

definition GetSequenceHash :: "CTransaction \<Rightarrow> uint256" where
  "GetSequenceHash txTo = hash256_parts (map (\<lambda>i. ser_writedata32 (nSequence i)) (vin txTo))"

definition GetOutputsHash :: "CTransaction \<Rightarrow> uint256" where
  "GetOutputsHash txTo = hash256_parts (map Serialize_CTxOut (vout txTo))"

record PrecomputedTransactionData =
  pre_hashPrevouts :: uint256
  pre_hashSequence :: uint256
  pre_hashOutputs :: uint256
  pre_ready :: bool

definition PrecomputedTransactionData :: "CTransaction \<Rightarrow> PrecomputedTransactionData" where
  "PrecomputedTransactionData txTo =
     (if HasWitness txTo then
        \<lparr>pre_hashPrevouts = GetPrevoutHash txTo, pre_hashSequence = GetSequenceHash txTo,
         pre_hashOutputs = GetOutputsHash txTo, pre_ready = True\<rparr>
      else \<lparr>pre_hashPrevouts = uint256_null, pre_hashSequence = uint256_null,
         pre_hashOutputs = uint256_null, pre_ready = False\<rparr>)"

definition cached :: "PrecomputedTransactionData option \<Rightarrow> (PrecomputedTransactionData \<Rightarrow> uint256) \<Rightarrow>
    uint256 \<Rightarrow> uint256" where
  "cached cache field computed =
     (case cache of None \<Rightarrow> computed | Some c \<Rightarrow> if pre_ready c then field c else computed)"

text \<open>The part of \<^verbatim>\<open>SignatureHash\<close> for \<^verbatim>\<open>SIGVERSION_WITNESS_V0\<close>.\<close>

definition WitnessSignatureHash ::
  "CScript \<Rightarrow> CTransaction \<Rightarrow> nat \<Rightarrow> u32 \<Rightarrow> CAmount \<Rightarrow> PrecomputedTransactionData option \<Rightarrow> uint256" where
  "WitnessSignatureHash scriptCode txTo nIn ht amount cache =
     (let hashPrevouts = (if \<not> fAnyoneCanPay ht then cached cache pre_hashPrevouts (GetPrevoutHash txTo)
            else uint256_null);
          hashSequence = (if \<not> fAnyoneCanPay ht \<and> \<not> fHashSingle ht \<and> \<not> fHashNone ht
            then cached cache pre_hashSequence (GetSequenceHash txTo) else uint256_null);
          hashOutputs = (if \<not> fHashSingle ht \<and> \<not> fHashNone ht
            then cached cache pre_hashOutputs (GetOutputsHash txTo)
            else if fHashSingle ht \<and> nIn < length (vout txTo)
            then hash256_parts [Serialize_CTxOut (vout txTo ! nIn)] else uint256_null)
      in hash256_parts [ser_writedata32 (nVersion txTo), hashPrevouts, hashSequence,
           Serialize_COutPoint (prevout (vin txTo ! nIn)), Serialize_bytes scriptCode,
           Serialize_int64 amount, ser_writedata32 (nSequence (vin txTo ! nIn)), hashOutputs,
           ser_writedata32 (nLockTime txTo), ser_writedata32 ht])"

definition uint256_one :: uint256 where
  "uint256_one = 1 # replicate 31 0"

text \<open>\<open>None\<close> is the failed assertion \<^verbatim>\<open>nIn < txTo.vin.size()\<close>.\<close>

definition SignatureHash ::
  "CScript \<Rightarrow> CTransaction \<Rightarrow> nat \<Rightarrow> u32 \<Rightarrow> CAmount \<Rightarrow> SigVersion \<Rightarrow> PrecomputedTransactionData option \<Rightarrow>
   uint256 option" where
  "SignatureHash scriptCode txTo nIn nHashType amount sigversion cache =
     (if length (vin txTo) \<le> nIn then None
      else Some (if sigversion = SIGVERSION_WITNESS_V0 then
          WitnessSignatureHash scriptCode txTo nIn nHashType amount cache
        else if fHashSingle nHashType \<and> length (vout txTo) \<le> nIn then uint256_one
        else hash256_parts [SignatureSerializer txTo scriptCode nIn nHashType, ser_writedata32 nHashType]))"

section \<open>Script codes that parse\<close>

function parses :: "bytes \<Rightarrow> bool" where
  "parses it = (it = [] \<or> (case GetOp2 it of None \<Rightarrow> False | Some (opcode, vch, it') \<Rightarrow> parses it'))"
  by pat_completeness auto
termination
  by (relation "measure length") auto

text \<open>The instructions other than \<^verbatim>\<open>OP_CODESEPARATOR\<close>.\<close>

function strip_separators :: "bytes \<Rightarrow> bytes" where
  "strip_separators it =
     (case GetOp2 it of None \<Rightarrow> []
      | Some (opcode, vch, it') \<Rightarrow>
          (if opcode = OP_CODESEPARATOR then [] else take (length it - length it') it) @ strip_separators it')"
  by pat_completeness auto
termination
  by (relation "measure length") auto

declare parses.simps [simp del] strip_separators.simps [simp del]

lemma GetOp2_suffix: "GetOp2 it = Some (opcode, vch, it') \<Longrightarrow> suffix it' it"
  by (auto simp: GetOp2_def GetOp2_size_def split: list.splits if_splits option.splits
      intro!: suffix_ConsI suffix_drop intro: suffix_order.trans [OF suffix_drop suffix_drop])

lemma GetOp2_split:
  assumes "GetOp2 it = Some (opcode, vch, it')"
  shows "it = take (length it - length it') it @ it'"
  using GetOp2_suffix [OF assms] by (auto elim!: suffixE)

lemma GetOp2_separator:
  "GetOp2 it = Some (OP_CODESEPARATOR, vch, it') \<Longrightarrow> it = OP_CODESEPARATOR # it'"
  by (auto simp: GetOp2_def GetOp2_size_def split: list.splits if_splits option.splits)

lemma write_segments_strip: "parses it \<Longrightarrow> write_segments it (p @ it) = p @ strip_separators it"
proof (induction it arbitrary: p rule: strip_separators.induct)
  case (1 it)
  show ?case
  proof (cases "GetOp2 it")
    case None
    with "1.prems" have "it = []" by (subst (asm) parses.simps) simp
    with None show ?thesis
      by (simp add: write_segments.simps [of "[]"] strip_separators.simps [of "[]"] GetOp2_fail_pos_def)
  next
    case (Some x)
    then obtain opcode vch it' where g: "GetOp2 it = Some (opcode, vch, it')" by (cases x) auto
    have IH: "write_segments it' (q @ it') = q @ strip_separators it'" for q
      using "1.IH" [OF g refl refl] "1.prems" g by (auto simp: parses.simps [of it] GetOp2_def)
    show ?thesis
    proof (cases "opcode = OP_CODESEPARATOR")
      case True
      with g GetOp2_separator have "it = OP_CODESEPARATOR # it'" by blast
      with True g IH [of "[]"] show ?thesis
        by (simp add: write_segments.simps [of "OP_CODESEPARATOR # it'"]
            strip_separators.simps [of "OP_CODESEPARATOR # it'"])
    next
      case False
      with g IH [of "p @ take (length it - length it') it"] GetOp2_split [OF g] show ?thesis
        by (simp add: write_segments.simps [of it] strip_separators.simps [of it])
    qed
  qed
qed

lemma length_strip_separators: "parses it \<Longrightarrow> length (strip_separators it) + count_separators it = length it"
proof (induction it rule: strip_separators.induct)
  case (1 it)
  show ?case
  proof (cases "GetOp2 it")
    case None
    with "1.prems" have "it = []" by (subst (asm) parses.simps) simp
    with None show ?thesis
      by (simp add: count_separators.simps [of "[]"] strip_separators.simps [of "[]"])
  next
    case (Some x)
    then obtain opcode vch it' where g: "GetOp2 it = Some (opcode, vch, it')" by (cases x) auto
    have IH: "length (strip_separators it') + count_separators it' = length it'"
      using "1.IH" [OF g refl refl] "1.prems" g by (auto simp: parses.simps [of it] GetOp2_def)
    with g GetOp2_separator [of it vch it'] GetOp2_shorter [OF g] show ?thesis
      by (auto simp: count_separators.simps [of it] strip_separators.simps [of it])
  qed
qed

lemma SerializeScriptCode_strip:
  assumes "parses code"
  shows "SerializeScriptCode code = Serialize_bytes (strip_separators code)"
  using write_segments_strip [OF assms, of "[]"] length_strip_separators [OF assms]
  by (simp add: SerializeScriptCode_def Serialize_bytes_def) (metis add_diff_cancel_right')

section \<open>The transaction a signature is made for\<close>

text \<open>
  What the comment on \<^verbatim>\<open>CTransactionSignatureSerializer\<close> describes: a copy of the transaction
  with the modifications the hash type asks for done in place.
\<close>

definition signature_input :: "CTransaction \<Rightarrow> CScript \<Rightarrow> nat \<Rightarrow> u32 \<Rightarrow> nat \<Rightarrow> CTxIn" where
  "signature_input tx code nIn ht k =
     \<lparr>prevout = prevout (vin tx ! k), scriptSig = (if k = nIn then strip_separators code else []),
      nSequence = (if k \<noteq> nIn \<and> (fHashSingle ht \<or> fHashNone ht) then 0 else nSequence (vin tx ! k)),
      scriptWitness = []\<rparr>"

definition signature_outputs :: "CTransaction \<Rightarrow> nat \<Rightarrow> u32 \<Rightarrow> CTxOut list" where
  "signature_outputs tx nIn ht =
     (if fHashNone ht then []
      else if fHashSingle ht then replicate nIn CTxOut_null @ [vout tx ! nIn]
      else vout tx)"

definition signature_tx :: "CTransaction \<Rightarrow> CScript \<Rightarrow> nat \<Rightarrow> u32 \<Rightarrow> CTransaction" where
  "signature_tx tx code nIn ht =
     \<lparr>vin = (if fAnyoneCanPay ht then [signature_input tx code nIn ht nIn]
             else map (signature_input tx code nIn ht) [0..<length (vin tx)]),
      vout = signature_outputs tx nIn ht, nVersion = nVersion tx, nLockTime = nLockTime tx\<rparr>"

lemma SerializeInput_signature:
  assumes "parses code"
  shows "SerializeInput tx code nIn ht k =
    Serialize_CTxIn (signature_input tx code nIn ht (if fAnyoneCanPay ht then nIn else k))"
  by (simp add: SerializeInput_def signature_input_def Serialize_CTxIn_def Let_def
      SerializeScriptCode_strip [OF assms])

lemma SerializeOutput_signature:
  "concat (map (SerializeOutput tx nIn ht)
     [0..<(if fHashNone ht then 0 else if fHashSingle ht then nIn + 1 else length (vout tx))]) =
   concat (map Serialize_CTxOut (signature_outputs tx nIn ht))"
proof -
  consider "fHashNone ht" | "\<not> fHashNone ht" "fHashSingle ht" | "\<not> fHashNone ht" "\<not> fHashSingle ht"
    by blast
  then show ?thesis
  proof cases
    case 2
    have "map (SerializeOutput tx nIn ht) [0..<nIn] = replicate nIn (Serialize_CTxOut CTxOut_null)"
      using 2 by (intro nth_equalityI) (simp_all add: SerializeOutput_def)
    with 2 show ?thesis
      by (simp add: signature_outputs_def SerializeOutput_def)
  next
    case 3
    then have "map (SerializeOutput tx nIn ht) [0..<length (vout tx)] = map Serialize_CTxOut (vout tx)"
      by (intro nth_equalityI) (simp_all add: SerializeOutput_def)
    with 3 show ?thesis by (simp add: signature_outputs_def)
  qed (simp add: signature_outputs_def)
qed

lemma SignatureSerializer_tx:
  assumes "parses code"
  shows "SignatureSerializer tx code nIn ht = SerializeTransaction False (signature_tx tx code nIn ht)"
proof -
  have "concat (map (SerializeInput tx code nIn ht)
      [0..<(if fAnyoneCanPay ht then 1 else length (vin tx))]) =
    concat (map Serialize_CTxIn (vin (signature_tx tx code nIn ht)))"
    by (simp add: SerializeInput_signature [OF assms, abs_def] signature_tx_def comp_def)
  moreover have "length (signature_outputs tx nIn ht) =
      (if fHashNone ht then 0 else if fHashSingle ht then nIn + 1 else length (vout tx))"
    by (simp add: signature_outputs_def)
  ultimately show ?thesis
    unfolding SignatureSerializer_def Let_def SerializeOutput_signature SerializeTransaction_format
      basic_format_def Serialize_vector_def
    by (simp add: signature_tx_def)
qed

lemma length_strip_le: "parses code \<Longrightarrow> length (strip_separators code) \<le> length code"
  using length_strip_separators [of code] by linarith

lemma signature_tx_ok:
  assumes "tx_fields_ok tx" "nIn < length (vin tx)" "fHashSingle ht \<Longrightarrow> nIn < length (vout tx)"
    "parses code" "length code \<le> SER_MAX_SIZE"
  shows "tx_ok False (signature_tx tx code nIn ht)"
proof -
  have i: "txin_ok (signature_input tx code nIn ht k)" if "k < length (vin tx)" for k
  proof -
    have "txin_ok (vin tx ! k)" using assms(1) that by (simp add: tx_fields_ok_def)
    with length_strip_le [OF assms(4)] assms(5) show ?thesis
      by (simp add: signature_input_def txin_ok_def)
  qed
  have o1: "\<forall>o1 \<in> set (signature_outputs tx nIn ht). txout_ok o1" "length (signature_outputs tx nIn ht) \<le> SER_MAX_SIZE"
    using assms(1,3) by (auto simp: signature_outputs_def tx_fields_ok_def CTxOut_null_def txout_ok_def
        int64_range_def)
  have w: "scriptWitness (signature_input tx code nIn ht k) = []" for k
    by (simp add: signature_input_def)
  show ?thesis
    using i o1 assms(1,2)
    by (auto simp: tx_ok_def tx_fields_ok_def signature_tx_def HasWitness_def witness_ok_def w)
qed

section \<open>What the hash binds\<close>

definition signature_preimage :: "CTransaction \<Rightarrow> CScript \<Rightarrow> nat \<Rightarrow> u32 \<Rightarrow> bytes" where
  "signature_preimage tx code nIn ht = SignatureSerializer tx code nIn ht @ ser_writedata32 ht"

text \<open>\<^verbatim>\<open>SIGHASH_SINGLE\<close> for an input that has no output of its number: the code returns one instead of a hash.\<close>

definition single_out_of_range :: "CTransaction \<Rightarrow> nat \<Rightarrow> u32 \<Rightarrow> bool" where
  "single_out_of_range tx nIn ht \<longleftrightarrow> fHashSingle ht \<and> length (vout tx) \<le> nIn"

definition request_ok :: "CTransaction \<Rightarrow> CScript \<Rightarrow> nat \<Rightarrow> bool" where
  "request_ok tx code nIn \<longleftrightarrow> tx_fields_ok tx \<and> nIn < length (vin tx) \<and> parses code \<and> length code \<le> SER_MAX_SIZE"

definition signable :: "CTransaction \<Rightarrow> CScript \<Rightarrow> nat \<Rightarrow> u32 \<Rightarrow> bool" where
  "signable tx code nIn ht \<longleftrightarrow> tx_fields_ok tx \<and> nIn < length (vin tx) \<and>
     (fHashSingle ht \<longrightarrow> nIn < length (vout tx)) \<and> parses code \<and> length code \<le> SER_MAX_SIZE"

lemma SignatureHash_base:
  "signable tx code nIn ht \<Longrightarrow>
   SignatureHash code tx nIn ht amount SIGVERSION_BASE cache = Some (SerializeHash (signature_preimage tx code nIn ht))"
  by (auto simp: SignatureHash_def signable_def SerializeHash_fips hash256_parts_fips signature_preimage_def)

lemma signable_iff: "signable tx code nIn ht \<longleftrightarrow> request_ok tx code nIn \<and> \<not> single_out_of_range tx nIn ht"
  by (auto simp: signable_def request_ok_def single_out_of_range_def)

lemma SignatureHash_base_cases:
  assumes "request_ok tx code nIn"
  shows "SignatureHash code tx nIn ht amount SIGVERSION_BASE cache =
    Some (if single_out_of_range tx nIn ht then uint256_one else SerializeHash (signature_preimage tx code nIn ht))"
proof (cases "single_out_of_range tx nIn ht")
  case True
  with assms show ?thesis by (simp add: SignatureHash_def request_ok_def single_out_of_range_def)
next
  case False
  with assms SignatureHash_base [of tx code nIn ht] show ?thesis by (simp add: signable_iff)
qed

lemma signature_preimage_inject:
  assumes "signable tx code nIn ht" "signable tx' code' nIn' ht'"
  shows "signature_preimage tx code nIn ht = signature_preimage tx' code' nIn' ht' \<longleftrightarrow>
    signature_tx tx code nIn ht = signature_tx tx' code' nIn' ht' \<and> ht = ht'"
proof -
  have ok: "tx_ok False (signature_tx tx code nIn ht)" "tx_ok False (signature_tx tx' code' nIn' ht')"
    and p: "parses code" "parses code'"
    using assms by (auto simp: signable_def intro!: signature_tx_ok)
  have "ser_writedata32 ht = ser_writedata32 ht' \<Longrightarrow> ht = ht'"
    using data32.ser_inject [of ht "[]" ht' "[]"] by simp
  then show ?thesis
    unfolding signature_preimage_def SignatureSerializer_tx [OF p(1)] SignatureSerializer_tx [OF p(2)]
    using transaction.ser_inject [OF ok, of "ser_writedata32 ht" "ser_writedata32 ht'"] by auto
qed

text \<open>For \<^verbatim>\<open>SIGHASH_ALL\<close> the signed copy fixes everything but the other inputs' scripts.\<close>

lemma sighash_all_flags: "\<not> fHashNone 1" "\<not> fHashSingle 1" "\<not> fAnyoneCanPay 1"
  by (simp_all add: fHashNone_def fHashSingle_def fAnyoneCanPay_def)

lemma signature_tx_all:
  assumes "signature_tx tx code nIn 1 = signature_tx tx' code' nIn' 1"
  shows "vout tx = vout tx' \<and> nVersion tx = nVersion tx' \<and> nLockTime tx = nLockTime tx' \<and>
    map prevout (vin tx) = map prevout (vin tx') \<and> map nSequence (vin tx) = map nSequence (vin tx')"
proof -
  have v: "map (signature_input tx code nIn 1) [0..<length (vin tx)] =
      map (signature_input tx' code' nIn' 1) [0..<length (vin tx')]"
    and o1: "vout tx = vout tx'" "nVersion tx = nVersion tx'" "nLockTime tx = nLockTime tx'"
    using assms by (simp_all add: signature_tx_def sighash_all_flags signature_outputs_def)
  have "map prevout (map (signature_input tx code nIn 1) [0..<length (vin tx)]) = map prevout (vin tx)"
    "map nSequence (map (signature_input tx code nIn 1) [0..<length (vin tx)]) = map nSequence (vin tx)"
    for tx code nIn
    by (rule nth_equalityI; simp add: signature_input_def sighash_all_flags)+
  then show ?thesis
    using o1 v by metis
qed

section \<open>Properties\<close>

text \<open>
  C14. The signature serializer, which writes the modified transaction field by field without
  building it, writes exactly the serialization of the modified copy, for every hash type and
  every script code that parses.
\<close>

theorem signature_serializer_refines:
  assumes "parses code"
  shows "SignatureSerializer tx code nIn ht = SerializeTransaction False (signature_tx tx code nIn ht)"
  using assms by (rule SignatureSerializer_tx)

theorem signature_serializer_refines_witness:
  "SignatureSerializer ex_plain_tx [OP_1, OP_CODESEPARATOR, OP_DUP] 0 0x83 =
     SerializeTransaction False (signature_tx ex_plain_tx [OP_1, OP_CODESEPARATOR, OP_DUP] 0 0x83) \<and>
   strip_separators [OP_1, OP_CODESEPARATOR, OP_DUP] = [OP_1, OP_DUP]"
proof -
  have "parses [OP_1, OP_CODESEPARATOR, OP_DUP]" "strip_separators [OP_1, OP_CODESEPARATOR, OP_DUP] = [OP_1, OP_DUP]"
    by code_simp+
  then show ?thesis
    using signature_serializer_refines [of "[OP_1, OP_CODESEPARATOR, OP_DUP]" ex_plain_tx 0 "0x83"] by blast
qed

text \<open>
  C15. What a legacy signature binds. For the base version of scripts, an existing input and a script code that
  parses to its end: two requests for a signature that have an output where \<^verbatim>\<open>SIGHASH_SINGLE\<close> asks for one have the same
  hash exactly when they agree on the modified copy of the transaction and on the hash type, or the two messages (or
  their first hashes) are a collision of SHA-256. All requests for \<^verbatim>\<open>SIGHASH_SINGLE\<close> without such an output have the same
  hash, the number one, whatever the transaction is; another request shares it only if its message hashes to one.
\<close>

theorem sighash_binds:
  assumes "request_ok tx code nIn" "request_ok tx' code' nIn'"
  shows "SignatureHash code tx nIn ht amount SIGVERSION_BASE cache =
      SignatureHash code' tx' nIn' ht' amount' SIGVERSION_BASE cache' \<longleftrightarrow>
    (if single_out_of_range tx nIn ht then
       single_out_of_range tx' nIn' ht' \<or> SerializeHash (signature_preimage tx' code' nIn' ht') = uint256_one
     else if single_out_of_range tx' nIn' ht' then SerializeHash (signature_preimage tx code nIn ht) = uint256_one
     else signature_tx tx code nIn ht = signature_tx tx' code' nIn' ht' \<and> ht = ht' \<or>
       sha256_collision (signature_preimage tx code nIn ht) (signature_preimage tx' code' nIn' ht') \<or>
       sha256_collision (fips_sha256 (signature_preimage tx code nIn ht))
         (fips_sha256 (signature_preimage tx' code' nIn' ht')))"
proof -
  have "SerializeHash (signature_preimage tx code nIn ht) = SerializeHash (signature_preimage tx' code' nIn' ht') \<longleftrightarrow>
      signature_tx tx code nIn ht = signature_tx tx' code' nIn' ht' \<and> ht = ht' \<or>
      sha256_collision (signature_preimage tx code nIn ht) (signature_preimage tx' code' nIn' ht') \<or>
      sha256_collision (fips_sha256 (signature_preimage tx code nIn ht)) (fips_sha256 (signature_preimage tx' code' nIn' ht'))"
    if "\<not> single_out_of_range tx nIn ht" "\<not> single_out_of_range tx' nIn' ht'"
    using signature_preimage_inject [of tx code nIn ht tx' code' nIn' ht'] assms that
    by (simp add: signable_iff SerializeHash_eq_iff)
  then show ?thesis
    unfolding SignatureHash_base_cases [OF assms(1)] SignatureHash_base_cases [OF assms(2)] by auto
qed

theorem sighash_binds_witness:
  "SignatureHash [OP_DUP] ex_plain_tx 0 1 5 SIGVERSION_BASE None =
   SignatureHash [OP_DUP] ex_witness_tx 0 1 7 SIGVERSION_BASE None"
proof -
  have p: "parses [OP_DUP]" by code_simp
  have len: "length (vin ex_plain_tx) = 1" "length (vin ex_witness_tx) = 1"
    by (simp_all add: ex_witness_tx_def ex_plain_tx_def)
  have "request_ok ex_plain_tx [OP_DUP] 0" "request_ok ex_witness_tx [OP_DUP] 0"
    using ex_tx_ok len p by (simp_all add: request_ok_def)
  moreover have "\<not> single_out_of_range ex_plain_tx 0 1" "\<not> single_out_of_range ex_witness_tx 0 1"
    using sighash_all_flags by (simp_all add: single_out_of_range_def)
  moreover have "signature_tx ex_plain_tx [OP_DUP] 0 1 = signature_tx ex_witness_tx [OP_DUP] 0 1"
    by (simp add: signature_tx_def len signature_input_def signature_outputs_def sighash_all_flags)
      (simp add: ex_witness_tx_def ex_plain_tx_def)
  ultimately show ?thesis
    using sighash_binds [of ex_plain_tx "[OP_DUP]" 0 ex_witness_tx "[OP_DUP]" 0 1 5 None 1 7 None] by simp
qed

text \<open>
  The cache of the three transaction-wide hashes changes no signature hash, for any script
  version, hash type and input.
\<close>

theorem sighash_cache_transparent:
  "SignatureHash code tx nIn ht amount sv (Some (PrecomputedTransactionData tx)) =
   SignatureHash code tx nIn ht amount sv None"
  by (simp add: SignatureHash_def WitnessSignatureHash_def cached_def PrecomputedTransactionData_def)

end
