(* ===== verification/XC_InterpLaws.thy ===== *)
theory XC_InterpLaws
  imports XC_Interp XC_Sighash
begin

text \<open>
  What the interpreter guarantees whatever script it runs: its resource limits hold in every
  reachable state, the number of signature checks is bounded, and evaluation under more
  verification flags only ever fails more.
\<close>

section \<open>Reachable states\<close>

inductive interp_reach ::
  "ecdsa_lib \<Rightarrow> checker \<Rightarrow> script_flags \<Rightarrow> SigVersion \<Rightarrow> interp \<Rightarrow> interp \<Rightarrow> bool"
  for L chk flags sv s0 where
  start: "interp_reach L chk flags sv s0 s0"
| step: "interp_reach L chk flags sv s0 s \<Longrightarrow> i_pc s \<noteq> [] \<Longrightarrow> eval_step L chk flags sv s = Inr s' \<Longrightarrow>
    interp_reach L chk flags sv s0 s'"

lemma eval_loop_reach:
  "interp_reach L chk flags sv s0 s \<Longrightarrow> eval_loop L chk flags sv s = Inr s' \<Longrightarrow>
   interp_reach L chk flags sv s0 s'"
proof (induction L chk flags sv s rule: eval_loop.induct)
  case (1 L chk flags sv s)
  show ?case
  proof (cases "i_pc s = []")
    case True
    with "1.prems" show ?thesis by (simp add: eval_loop.simps [of _ _ _ _ s])
  next
    case False
    with "1.prems"(2) obtain t where t: "eval_step L chk flags sv s = Inr t"
      "eval_loop L chk flags sv t = Inr s'"
      by (auto simp: eval_loop.simps [of _ _ _ _ s] split: sum.splits)
    from "1.IH" [OF False t(1) step [OF "1.prems"(1) False t(1)] t(2)] show ?thesis .
  qed
qed

section \<open>Sizes of stack items\<close>

definition item_ok :: "valtype \<Rightarrow> bool" where
  "item_ok x \<longleftrightarrow> length x \<le> MAX_SCRIPT_ELEMENT_SIZE"

lemma length_serialize: "length (serialize n) \<le> 9"
proof -
  let ?a = "absvalue_bytes (of_int (if n < 0 then - n else n))"
  have "length ?a \<le> 8" by (rule absvalue_length_8)
  moreover have "length (serialize n) \<le> Suc (length ?a)"
    by (auto simp: serialize_def Let_def)
  ultimately show ?thesis by linarith
qed

lemma item_ok_made [simp]:
  "item_ok (serialize n)" "item_ok (vchBool b)" "item_ok (Hash160 v)" "item_ok (sha256_parts ps)"
  "item_ok (sha1_parts ps)" "item_ok (hash256_parts ps)"
  "item_ok (CRIPEMD160_Finalize (CRIPEMD160_Write (CRIPEMD160 (replicate 64 0)) v))"
  using length_serialize [of n]
  by (simp_all add: item_ok_def vchBool_def vchTrue_def vchFalse_def sha1_parts_fips rmd160_fresh
      hash256_parts_fips)

text \<open>A handler that keeps item sizes.\<close>

definition keeps_items :: "(valtype list \<Rightarrow> valtype list script_res) \<Rightarrow> bool" where
  "keeps_items h \<longleftrightarrow> (\<forall>st st'. list_all item_ok st \<longrightarrow> h st = Inr st' \<longrightarrow> list_all item_ok st')"

lemma keeps_items_plain:
  "keeps_items exec_VERIFY" "keeps_items exec_2DROP" "keeps_items exec_2DUP" "keeps_items exec_3DUP"
  "keeps_items exec_2OVER" "keeps_items exec_2ROT" "keeps_items exec_2SWAP" "keeps_items exec_IFDUP"
  "keeps_items exec_DEPTH" "keeps_items exec_DROP" "keeps_items exec_DUP" "keeps_items exec_NIP"
  "keeps_items exec_OVER" "keeps_items exec_ROT" "keeps_items exec_SWAP" "keeps_items exec_TUCK"
  "keeps_items exec_SIZE" "keeps_items (exec_EQUAL b)" "keeps_items (exec_hash opcode)"
  unfolding keeps_items_def exec_VERIFY_def exec_2DROP_def exec_2DUP_def exec_3DUP_def exec_2OVER_def
    exec_2ROT_def exec_2SWAP_def exec_IFDUP_def exec_DEPTH_def exec_DROP_def exec_DUP_def exec_NIP_def
    exec_OVER_def exec_ROT_def exec_SWAP_def exec_TUCK_def exec_SIZE_def exec_EQUAL_def exec_hash_def
  by (auto split: list.splits if_splits)

lemma keeps_items_num:
  "keeps_items (exec_unary m f)" "keeps_items (exec_binary m g)" "keeps_items (exec_WITHIN m)"
  "keeps_items (exec_verify_top err)"
  unfolding keeps_items_def exec_unary_def exec_binary_def exec_WITHIN_def exec_verify_top_def
  by (auto simp: ebind_Inr split: list.splits if_splits)

lemma keeps_items_PICK_ROLL: "keeps_items (exec_PICK_ROLL m roll)"
proof -
  have "list_all item_ok st'" if st: "list_all item_ok (x # st)"
    and ex: "exec_PICK_ROLL m roll (x # st) = Inr st'" for x st st'
  proof -
    from ex obtain bn where "stack_num m 4 x = Inr bn"
      by (auto simp: exec_PICK_ROLL_def ebind_Inr split: if_splits)
    with ex have "nat (getint bn) < length st"
      "st' = st ! nat (getint bn) #
        (if roll then take (nat (getint bn)) st @ drop (nat (getint bn) + 1) st else st)"
      by (auto simp: exec_PICK_ROLL_def ebind_def Let_def nat_less_iff split: if_splits)
    with st show ?thesis
      by (auto simp: list_all_iff dest: in_set_takeD in_set_dropD)
  qed
  moreover have "exec_PICK_ROLL m roll [] = stack_err"
    by (simp add: exec_PICK_ROLL_def)
  ultimately show ?thesis
    unfolding keeps_items_def by (metis Inl_Inr_False list.exhaust)
qed

lemma keeps_items_ebind: "keeps_items h \<Longrightarrow> keeps_items k \<Longrightarrow> keeps_items (\<lambda>st. ebind (h st) k)"
  unfolding keeps_items_def ebind_Inr by blast

lemma keeps_items_stack_ops: "\<forall>p \<in> set (stack_ops m). keeps_items (snd p)"
  by (auto simp: stack_ops_def unary_ops_def binary_ops_def keeps_items_plain keeps_items_num
      keeps_items_PICK_ROLL intro!: keeps_items_ebind)

section \<open>Limits\<close>

text \<open>
  \<open>script\<close> is the script run: items are at most 520 bytes, at most 201 operations are counted, every
  open conditional was counted, and the script code of a signature is a suffix of the script.
\<close>

definition interp_ok :: "CScript \<Rightarrow> interp \<Rightarrow> bool" where
  "interp_ok script s \<longleftrightarrow>
     list_all item_ok (i_stack s) \<and> list_all item_ok (i_alt s) \<and> i_nops s \<le> MAX_OPS_PER_SCRIPT \<and>
     length (i_exec s) \<le> i_nops s \<and> suffix (i_codehash s) script \<and> suffix (i_pc s) script"

lemma push_result_items:
  "push_result verify err b st = Inr st' \<Longrightarrow> list_all item_ok st \<Longrightarrow> list_all item_ok st'"
  by (auto simp: push_result_def split: if_splits)

lemma multisig_cleanup_drop:
  "multisig_cleanup nullfail n k st = Inr st' \<Longrightarrow> st' = drop n st \<and> n \<le> length st"
  by (induction nullfail n k st rule: multisig_cleanup.induct) (auto split: if_splits)

lemma list_all_drop: "list_all P xs \<Longrightarrow> list_all P (drop n xs)"
  by (auto simp: list_all_iff dest: in_set_dropD)

lemma multisig_finish_items:
  assumes "multisig_finish flags verify b nKeys nSigs st = Inr st'" "list_all item_ok st"
  shows "list_all item_ok st'"
proof -
  from assms(1) obtain d st1 where "drop (nKeys + nSigs + 2) st = d # st1"
    "push_result verify SCRIPT_ERR_CHECKMULTISIGVERIFY b st1 = Inr st'"
    by (auto simp: multisig_finish_def elim!: ebind_InrE dest!: multisig_cleanup_drop
        split: list.splits if_splits)
  with list_all_drop [OF assms(2), of "nKeys + nSigs + 2"] push_result_items show ?thesis by auto
qed

lemma exec_CHECKSIG_ok:
  assumes "exec_CHECKSIG L chk flags sv verify s = Inr s'" "interp_ok script s"
  shows "interp_ok script s'"
  using assms
  by (auto simp: exec_CHECKSIG_def Let_def ebind_Inr interp_ok_def dest: push_result_items
      split: list.splits option.splits if_splits)

lemma multisig_counts_Inr:
  "multisig_counts m n st = Inr (nKeys, nSigs) \<Longrightarrow>
     nKeys \<le> MAX_PUBKEYS_PER_MULTISIG \<and> nSigs \<le> nKeys \<and> n + nKeys \<le> MAX_OPS_PER_SCRIPT \<and>
     nKeys + nSigs + 3 \<le> length st"
  by (auto simp: multisig_counts_def Let_def not_less nat_le_iff nat_mono elim!: ebind_InrE split: if_splits)

lemma exec_CHECKMULTISIG_Inr:
  assumes "exec_CHECKMULTISIG L chk flags sv verify s = Inr s'"
  obtains nKeys nSigs b st where
    "multisig_counts (bit flags SCRIPT_VERIFY_MINIMALDATA) (i_nops s) (i_stack s) = Inr (nKeys, nSigs)"
    "multisig_loop L chk flags sv (foldl (drop_signature sv) (i_codehash s) (take nSigs (drop (nKeys + 2) (i_stack s))))
       (take nSigs (drop (nKeys + 2) (i_stack s))) (take nKeys (drop 1 (i_stack s))) = Inr b"
    "multisig_finish flags verify b nKeys nSigs (i_stack s) = Inr st"
    "s' = s\<lparr>i_stack := st, i_nops := i_nops s + nKeys\<rparr>"
  using assms unfolding exec_CHECKMULTISIG_def Let_def
  by (elim ebind_InrE) (auto elim!: ebind_InrE)

lemma exec_CHECKMULTISIG_ok:
  assumes "exec_CHECKMULTISIG L chk flags sv verify s = Inr s'" "interp_ok script s"
  shows "interp_ok script s'"
  using assms(1)
proof (rule exec_CHECKMULTISIG_Inr)
  fix nKeys nSigs b st
  assume "multisig_counts (bit flags SCRIPT_VERIFY_MINIMALDATA) (i_nops s) (i_stack s) = Inr (nKeys, nSigs)"
    "multisig_finish flags verify b nKeys nSigs (i_stack s) = Inr st"
    "s' = s\<lparr>i_stack := st, i_nops := i_nops s + nKeys\<rparr>"
  with assms(2) multisig_counts_Inr [of _ "i_nops s" "i_stack s" nKeys nSigs] multisig_finish_items
  show ?thesis by (auto simp: interp_ok_def)
qed

lemma exec_simple_ok:
  assumes "interp_ok script s"
  shows "exec_push_number opcode s = Inr s' \<Longrightarrow> interp_ok script s'"
    and "exec_NOP flags s = Inr s' \<Longrightarrow> interp_ok script s'"
    and "exec_CHECKLOCKTIMEVERIFY chk flags s = Inr s' \<Longrightarrow> interp_ok script s'"
    and "exec_CHECKSEQUENCEVERIFY chk flags s = Inr s' \<Longrightarrow> interp_ok script s'"
    and "exec_ELSE s = Inr s' \<Longrightarrow> interp_ok script s'"
    and "exec_ENDIF s = Inr s' \<Longrightarrow> interp_ok script s'"
    and "exec_TOALTSTACK s = Inr s' \<Longrightarrow> interp_ok script s'"
    and "exec_FROMALTSTACK s = Inr s' \<Longrightarrow> interp_ok script s'"
    and "exec_CODESEPARATOR s = Inr s' \<Longrightarrow> interp_ok script s'"
    and "length (i_exec s) < i_nops s \<Longrightarrow> exec_IF flags sv fExec notif s = Inr s' \<Longrightarrow> interp_ok script s'"
  using assms
  by (auto simp: exec_defs interp_ok_def elim!: ebind_InrE split: list.splits if_splits)

lemma exec_table_ok:
  assumes "interp_ok script s" "map_of (stack_ops m) opcode = Some h" "h (i_stack s) = Inr st"
  shows "interp_ok script (s\<lparr>i_stack := st\<rparr>)"
  using keeps_items_stack_ops [of m] map_of_SomeD [OF assms(2)] assms
  by (auto simp: keeps_items_def interp_ok_def)

lemma exec_opcode_ok:
  assumes "exec_opcode L chk flags sv fExec opcode s = Inr s'" "interp_ok script s"
    "OP_16 < opcode \<Longrightarrow> length (i_exec s) < i_nops s"
  shows "interp_ok script s'"
  by (rule exec_opcode_cases [of opcode])
    (use assms exec_simple_ok [OF assms(2)] exec_table_ok [OF assms(2)] exec_CHECKSIG_ok [OF _ assms(2)]
       exec_CHECKMULTISIG_ok [OF _ assms(2)] in \<open>auto elim!: ebind_InrE split: option.splits\<close>)

lemma exec_instruction_ok:
  assumes "exec_instruction L chk flags sv opcode vch s = Inr s'" "interp_ok script s" "item_ok vch"
    "OP_16 < opcode \<Longrightarrow> length (i_exec s) < i_nops s"
  shows "interp_ok script s'"
  using assms exec_opcode_ok [of L chk flags sv _ opcode s s' script]
  by (auto simp: exec_instruction_def Let_def interp_ok_def split: if_splits)

lemma eval_step_ok:
  assumes "eval_step L chk flags sv s = Inr s'" "interp_ok script s"
  shows "interp_ok script s'"
  using assms(1)
proof (rule eval_step_Inr)
  fix opcode vch pc n
  assume g: "GetOp2 (i_pc s) = Some (opcode, vch, pc)" and v: "length vch \<le> MAX_SCRIPT_ELEMENT_SIZE"
    and n: "n = i_nops s + (if OP_16 < opcode then 1 else 0)" "OP_16 < opcode \<longrightarrow> n \<le> MAX_OPS_PER_SCRIPT"
    and ex: "exec_instruction L chk flags sv opcode vch (s\<lparr>i_pc := pc, i_nops := n\<rparr>) = Inr s'"
  have "interp_ok script (s\<lparr>i_pc := pc, i_nops := n\<rparr>)"
    using assms(2) n suffix_order.trans [OF GetOp2_suffix [OF g]] by (auto simp: interp_ok_def)
  moreover have "OP_16 < opcode \<Longrightarrow> length (i_exec s) < n"
    using assms(2) n by (simp add: interp_ok_def)
  ultimately show ?thesis
    using exec_instruction_ok [OF ex] v by (simp add: item_ok_def)
qed

lemma interp_init_ok: "list_all item_ok st \<Longrightarrow> interp_ok script (interp_init st script)"
  by (simp add: interp_ok_def interp_init_def)

text \<open>
  C13. Limits of the interpreter: in every state it reaches on a script from a stack of admissible items,
  items are at most 520 bytes, both stacks together hold at most 1000 of them (or what the start held), at
  most 201 operations are counted, the open conditionals are among them, and the code a signature commits
  to is a suffix of the script.
\<close>

theorem interpreter_limits:
  assumes "interp_reach L chk flags sv (interp_init st script) s" "list_all item_ok st"
  shows "interp_ok script s \<and> length (i_stack s) + length (i_alt s) \<le> max MAX_STACK_SIZE (length st)"
  using assms(1)
proof induction
  case start
  then show ?case using interp_init_ok [OF assms(2)] by (simp add: interp_init_def)
next
  case (step s s')
  then show ?case using eval_step_ok by (auto elim: eval_step_Inr)
qed

lemma ex_first_step:
  "eval_step L chk 0 SIGVERSION_BASE (interp_init [] [1, 7]) = Inr (interp_init [] [1, 7]\<lparr>i_pc := [], i_stack := [[7]]\<rparr>)"
  by (simp add: eval_step_def interp_init_def GetOp2_def GetOp2_size_def disabled_opcodes_def exec_instruction_def ebind_def)

theorem interpreter_limits_witness:
  "interp_ok [1, 7] (interp_init [] [1, 7]\<lparr>i_pc := [], i_stack := [[7]]\<rparr>)"
  using interpreter_limits [OF interp_reach.step [OF interp_reach.start _ ex_first_step]]
  by (auto simp: interp_init_def)

section \<open>Signature checks\<close>

text \<open>The calls of \<^verbatim>\<open>CheckSig\<close> that one instruction makes, whether it succeeds or fails.\<close>

fun multisig_calls ::
  "ecdsa_lib \<Rightarrow> checker \<Rightarrow> script_flags \<Rightarrow> SigVersion \<Rightarrow> CScript \<Rightarrow> bytes list \<Rightarrow> bytes list \<Rightarrow> nat" where
  "multisig_calls L chk flags sv code (sig # sigs) (key # keys) =
     (case check_encodings L flags sv sig key of Some e \<Rightarrow> 0
      | None \<Rightarrow>
          let sigs' = (if chk_CheckSig chk sig key code sv then sigs else sig # sigs)
          in 1 + (if length keys < length sigs' then 0 else multisig_calls L chk flags sv code sigs' keys))"
| "multisig_calls L chk flags sv code _ _ = 0"

definition exec_calls ::
  "ecdsa_lib \<Rightarrow> checker \<Rightarrow> script_flags \<Rightarrow> SigVersion \<Rightarrow> opcodetype \<Rightarrow> interp \<Rightarrow> nat" where
  "exec_calls L chk flags sv opcode s =
     (if False \<in> set (i_exec s) then 0
      else if opcode = OP_CHECKSIG \<or> opcode = OP_CHECKSIGVERIFY then
        (case i_stack s of key # sig # st \<Rightarrow> (case check_encodings L flags sv sig key of None \<Rightarrow> 1 | Some e \<Rightarrow> 0)
         | _ \<Rightarrow> 0)
      else if opcode = OP_CHECKMULTISIG \<or> opcode = OP_CHECKMULTISIGVERIFY then
        (case multisig_counts (bit flags SCRIPT_VERIFY_MINIMALDATA) (i_nops s) (i_stack s) of Inl e \<Rightarrow> 0
         | Inr (nKeys, nSigs) \<Rightarrow>
             let sigs = take nSigs (drop (nKeys + 2) (i_stack s))
             in multisig_calls L chk flags sv (foldl (drop_signature sv) (i_codehash s) sigs) sigs
                  (take nKeys (drop 1 (i_stack s))))
      else 0)"

definition step_calls :: "ecdsa_lib \<Rightarrow> checker \<Rightarrow> script_flags \<Rightarrow> SigVersion \<Rightarrow> interp \<Rightarrow> nat" where
  "step_calls L chk flags sv s =
     (case GetOp2 (i_pc s) of None \<Rightarrow> 0
      | Some (opcode, vch, pc) \<Rightarrow>
          let n = i_nops s + (if OP_16 < opcode then 1 else 0)
          in if MAX_SCRIPT_ELEMENT_SIZE < length vch \<or> OP_16 < opcode \<and> MAX_OPS_PER_SCRIPT < n then 0
             else exec_calls L chk flags sv opcode (s\<lparr>i_pc := pc, i_nops := n\<rparr>))"

function eval_calls :: "ecdsa_lib \<Rightarrow> checker \<Rightarrow> script_flags \<Rightarrow> SigVersion \<Rightarrow> interp \<Rightarrow> nat" where
  "eval_calls L chk flags sv s =
     (if i_pc s = [] then 0
      else step_calls L chk flags sv s +
        (case eval_step L chk flags sv s of Inl e \<Rightarrow> 0 | Inr s' \<Rightarrow> eval_calls L chk flags sv s'))"
  by pat_completeness auto
termination
  by (relation "measure (\<lambda>(L, chk, flags, sv, s). length (i_pc s))") (auto dest: eval_step_shorter)

declare eval_calls.simps [simp del]

lemma multisig_calls_keys: "multisig_calls L chk flags sv code sigs keys \<le> length keys"
  by (induction L chk flags sv code sigs keys rule: multisig_calls.induct)
    (auto simp: Let_def split: option.splits)

lemma exec_opcode_nops:
  assumes "exec_opcode L chk flags sv fExec opcode s = Inr s'"
  shows "i_nops s \<le> i_nops s' \<and> (i_nops s \<le> MAX_OPS_PER_SCRIPT \<longrightarrow> i_nops s' \<le> MAX_OPS_PER_SCRIPT)"
proof -
  have "i_nops s \<le> i_nops s' \<and> (i_nops s \<le> MAX_OPS_PER_SCRIPT \<longrightarrow> i_nops s' \<le> MAX_OPS_PER_SCRIPT)"
    if "exec_CHECKMULTISIG L chk flags sv verify s = Inr s'" for verify
    using that by (rule exec_CHECKMULTISIG_Inr) (auto dest: multisig_counts_Inr)
  then show ?thesis
    by (rule_tac exec_opcode_cases [of opcode])
      (use assms in \<open>auto simp: exec_defs elim!: ebind_InrE dest!: exec_CHECKSIG_frame
         split: if_splits list.splits option.splits\<close>)
qed

text \<open>The keys an executed multisignature instruction adds to the count.\<close>

definition keys_counted :: "script_flags \<Rightarrow> opcodetype \<Rightarrow> interp \<Rightarrow> nat" where
  "keys_counted flags opcode s =
     (if False \<notin> set (i_exec s) \<and> (opcode = OP_CHECKMULTISIG \<or> opcode = OP_CHECKMULTISIGVERIFY) then
        (case multisig_counts (bit flags SCRIPT_VERIFY_MINIMALDATA) (i_nops s) (i_stack s) of Inl e \<Rightarrow> 0
         | Inr (nKeys, nSigs) \<Rightarrow> nKeys)
      else 0)"

lemma exec_calls_keys:
  "exec_calls L chk flags sv opcode s \<le> (if OP_16 < opcode then 1 else 0) + keys_counted flags opcode s"
proof -
  have "multisig_calls L chk flags sv code sigs (take n keys) \<le> n" for code sigs keys n
    using multisig_calls_keys [of L chk flags sv code sigs "take n keys"] by simp
  then show ?thesis
    by (auto simp: exec_calls_def keys_counted_def Let_def le_SucI
        split: list.splits option.splits sum.splits prod.splits)
qed

lemma keys_counted_bound:
  "i_nops s \<le> MAX_OPS_PER_SCRIPT \<Longrightarrow> i_nops s + keys_counted flags opcode s \<le> MAX_OPS_PER_SCRIPT"
  by (auto simp: keys_counted_def dest!: multisig_counts_Inr split: sum.splits prod.splits)

lemma keys_counted_done:
  assumes "exec_instruction L chk flags sv opcode vch s = Inr s'"
  shows "i_nops s + keys_counted flags opcode s \<le> i_nops s'"
proof (cases "False \<notin> set (i_exec s) \<and> (opcode = OP_CHECKMULTISIG \<or> opcode = OP_CHECKMULTISIGVERIFY)")
  case True
  then have "exec_CHECKMULTISIG L chk flags sv (opcode = OP_CHECKMULTISIGVERIFY) s = Inr s'"
    using assms by (auto simp: exec_instruction_def exec_opcode_def Let_def)
  then show ?thesis
    by (rule exec_CHECKMULTISIG_Inr) (simp add: keys_counted_def)
next
  case False
  then have "keys_counted flags opcode s = 0" by (simp only: keys_counted_def if_False)
  with assms exec_opcode_nops show ?thesis
    by (auto simp: exec_instruction_def Let_def split: if_splits)
qed

lemma exec_instruction_nops:
  "exec_instruction L chk flags sv opcode vch s = Inr s' \<Longrightarrow> i_nops s \<le> MAX_OPS_PER_SCRIPT \<Longrightarrow>
   i_nops s' \<le> MAX_OPS_PER_SCRIPT"
  by (auto simp: exec_instruction_def Let_def dest!: exec_opcode_nops split: if_splits)

lemma step_calls_bound:
  assumes "i_nops s \<le> MAX_OPS_PER_SCRIPT"
  shows "i_nops s + step_calls L chk flags sv s \<le> MAX_OPS_PER_SCRIPT"
proof (cases "GetOp2 (i_pc s)")
  case (Some r)
  obtain opcode vch pc where r: "r = (opcode, vch, pc)" by (cases r)
  let ?n = "i_nops s + (if OP_16 < opcode then 1 else 0)"
  let ?t = "s\<lparr>i_pc := pc, i_nops := ?n\<rparr>"
  show ?thesis
  proof (cases "OP_16 < opcode \<and> MAX_OPS_PER_SCRIPT < ?n")
    case False
    then have "?n \<le> MAX_OPS_PER_SCRIPT" using assms by auto
    with keys_counted_bound [of ?t flags opcode] exec_calls_keys [of L chk flags sv opcode ?t]
    show ?thesis using Some r assms by (auto simp: step_calls_def Let_def)
  qed (use Some r assms in \<open>auto simp: step_calls_def Let_def\<close>)
qed (use assms in \<open>simp add: step_calls_def\<close>)

lemma step_calls_done:
  assumes "eval_step L chk flags sv s = Inr s'"
  shows "i_nops s + step_calls L chk flags sv s \<le> i_nops s' \<and>
    (i_nops s \<le> MAX_OPS_PER_SCRIPT \<longrightarrow> i_nops s' \<le> MAX_OPS_PER_SCRIPT)"
  using assms
proof (rule eval_step_Inr)
  fix opcode vch pc n
  assume g: "GetOp2 (i_pc s) = Some (opcode, vch, pc)"
    and n: "n = i_nops s + (if OP_16 < opcode then 1 else 0)" "OP_16 < opcode \<longrightarrow> n \<le> MAX_OPS_PER_SCRIPT"
    and ex: "exec_instruction L chk flags sv opcode vch (s\<lparr>i_pc := pc, i_nops := n\<rparr>) = Inr s'"
  have "i_nops s + step_calls L chk flags sv s \<le> i_nops s'"
    using g n keys_counted_done [OF ex] exec_calls_keys [of L chk flags sv opcode "s\<lparr>i_pc := pc, i_nops := n\<rparr>"]
    by (auto simp: step_calls_def Let_def)
  then show ?thesis
    using n exec_instruction_nops [OF ex] by auto
qed

lemma eval_calls_bound:
  "i_nops s \<le> MAX_OPS_PER_SCRIPT \<Longrightarrow> i_nops s + eval_calls L chk flags sv s \<le> MAX_OPS_PER_SCRIPT"
proof (induction L chk flags sv s rule: eval_calls.induct)
  case (1 L chk flags sv s)
  show ?case
  proof (cases "eval_step L chk flags sv s")
    case (Inl e)
    with step_calls_bound [OF "1.prems"] "1.prems" show ?thesis
      by (simp add: eval_calls.simps [of _ _ _ _ s])
  next
    case (Inr s')
    with "1.IH" [OF _ Inr] "1.prems" step_calls_done [OF Inr] show ?thesis
      by (auto simp: eval_calls.simps [of _ _ _ _ s])
  qed
qed

text \<open>
  C21. Running any script checks at most 201 signatures, whatever it does: \<open>OP_CHECKMULTISIG\<close> pays for each
  of its keys from the limit on operations.
\<close>

theorem signature_checks_bounded:
  "eval_calls L chk flags sv (interp_init st script) \<le> MAX_OPS_PER_SCRIPT"
  using eval_calls_bound [of "interp_init st script"] by (simp add: interp_init_def)

section \<open>More flags only fail more\<close>

definition flags_le :: "script_flags \<Rightarrow> script_flags \<Rightarrow> bool" where
  "flags_le f g \<longleftrightarrow> f AND g = f"

lemma flags_le_bit: "flags_le f g \<Longrightarrow> bit f n \<Longrightarrow> bit g n"
  unfolding flags_le_def by (metis bit_and_iff)

text \<open>\<open>r\<close> succeeds only with the result of \<open>r'\<close>.\<close>

definition refines :: "'e + 'a \<Rightarrow> 'e + 'a \<Rightarrow> bool" where
  "refines r r' \<longleftrightarrow> (\<forall>x. r = Inr x \<longrightarrow> r' = Inr x)"

lemma refines_refl [simp]: "refines r r" and refines_Inl [simp]: "refines (Inl e) r"
  by (simp_all add: refines_def)

lemma refines_Inr [simp]: "refines (Inr x) r \<longleftrightarrow> r = Inr x"
  by (auto simp: refines_def)

lemma refines_ebind: "refines r r' \<Longrightarrow> (\<And>x. refines (f x) (f' x)) \<Longrightarrow> refines (ebind r f) (ebind r' f')"
  by (auto simp: refines_def ebind_def split: sum.splits)

lemma stack_num_mono: "(m' \<Longrightarrow> m) \<Longrightarrow> refines (stack_num m k x) (stack_num m' k x)"
  by (auto simp: refines_def stack_num_def CScriptNum_def split: if_splits)

lemma stack_ops_mono:
  "list_all2 (\<lambda>(a, h) (b, h'). a = b \<and> (\<forall>st. refines (h st) (h' st))) (stack_ops True) (stack_ops False)"
proof -
  have num: "refines (stack_num True k x) (stack_num False k x)" for k x
    by (rule stack_num_mono) simp
  have u: "refines (exec_unary True f st) (exec_unary False f st)" for f st
    by (auto simp: exec_unary_def intro!: refines_ebind num split: list.split)
  have b: "refines (exec_binary True f st) (exec_binary False f st)" for f st
    by (auto simp: exec_binary_def intro!: refines_ebind num split: list.split)
  have w: "refines (exec_WITHIN True st) (exec_WITHIN False st)" for st
    by (auto simp: exec_WITHIN_def intro!: refines_ebind num split: list.split)
  have p: "refines (exec_PICK_ROLL True roll st) (exec_PICK_ROLL False roll st)" for roll st
    by (auto simp: exec_PICK_ROLL_def intro!: refines_ebind num)
  show ?thesis
    by (simp add: stack_ops_def unary_ops_def binary_ops_def u b w p refines_ebind)
qed

lemma map_of_list_all2:
  assumes "list_all2 (\<lambda>(a, h) (b, h'). a = b \<and> R h h') xs ys"
  shows "rel_option R (map_of xs k) (map_of ys k)"
  using assms by (induction rule: list_all2_induct) auto

lemma exec_table_mono:
  assumes "m' \<Longrightarrow> m"
  shows "refines
    (case map_of (stack_ops m) opcode of None \<Rightarrow> Inl e | Some h \<Rightarrow> ebind (h (i_stack s)) f)
    (case map_of (stack_ops m') opcode of None \<Rightarrow> Inl e | Some h \<Rightarrow> ebind (h (i_stack s)) f)"
proof (cases "m = m'")
  case False
  with assms have "m" "\<not> m'" by auto
  then show ?thesis
    using map_of_list_all2 [OF stack_ops_mono, of opcode]
    by (auto simp: refines_ebind elim: option.rel_cases)
qed simp

lemma check_encodings_mono:
  assumes "flags_le f g" "check_encodings L g sv sig key = None"
  shows "check_encodings L f sv sig key = None"
  using assms flags_le_bit [OF assms(1)]
  by (auto simp: check_encodings_def CheckSignatureEncoding_def CheckPubKeyEncoding_def IsLowDERSignature_def
      split: option.splits if_splits)

lemma check_encodings_case_mono:
  assumes "flags_le f g" "check_encodings L g sv sig key = None \<Longrightarrow> refines r r'"
  shows "refines (case check_encodings L g sv sig key of Some e \<Rightarrow> Inl e | None \<Rightarrow> r)
    (case check_encodings L f sv sig key of Some e \<Rightarrow> Inl e | None \<Rightarrow> r')"
  using check_encodings_mono [OF assms(1), of L sv sig key] assms(2) by (auto split: option.splits)

lemma multisig_loop_mono:
  assumes "flags_le f g"
  shows "refines (multisig_loop L chk g sv code sigs keys) (multisig_loop L chk f sv code sigs keys)"
  using assms
proof (induction L chk g sv code sigs keys rule: multisig_loop.induct)
  case (3 L chk g sv code sig sigs key keys)
  show ?case
    unfolding multisig_loop.simps
    by (rule check_encodings_case_mono [OF "3.prems"])
      (use 3 in \<open>auto simp: Let_def\<close>)
qed simp_all

lemma multisig_cleanup_mono:
  "(b' \<Longrightarrow> b) \<Longrightarrow> refines (multisig_cleanup b n k st) (multisig_cleanup b' n k st)"
  by (induction b n k st rule: multisig_cleanup.induct) auto

lemma multisig_finish_mono:
  assumes "flags_le f g"
  shows "refines (multisig_finish g verify b n k st) (multisig_finish f verify b n k st)"
  unfolding multisig_finish_def
  by (rule refines_ebind, rule multisig_cleanup_mono)
    (use flags_le_bit [OF assms] in \<open>auto split: list.split\<close>)

lemma multisig_counts_mono:
  "(m' \<Longrightarrow> m) \<Longrightarrow> refines (multisig_counts m n st) (multisig_counts m' n st)"
  by (auto simp: multisig_counts_def Let_def intro!: refines_ebind stack_num_mono)

lemma exec_CHECKMULTISIG_mono:
  assumes "flags_le f g"
  shows "refines (exec_CHECKMULTISIG L chk g sv verify s) (exec_CHECKMULTISIG L chk f sv verify s)"
  unfolding exec_CHECKMULTISIG_def Let_def
  by (rule refines_ebind [OF multisig_counts_mono])
    (use flags_le_bit [OF assms] in \<open>auto intro!: refines_ebind multisig_loop_mono [OF assms]
       multisig_finish_mono [OF assms]\<close>)

lemma exec_CHECKSIG_mono:
  assumes "flags_le f g"
  shows "refines (exec_CHECKSIG L chk g sv verify s) (exec_CHECKSIG L chk f sv verify s)"
  using flags_le_bit [OF assms] unfolding exec_CHECKSIG_def Let_def
  by (auto intro!: check_encodings_case_mono [OF assms] split: list.split)

lemma lock_time_mono:
  assumes "flags_le f g" "\<not> bit f SCRIPT_VERIFY_DISCOURAGE_UPGRADABLE_NOPS"
  shows "refines (exec_NOP g s) (exec_NOP f s)"
    and "refines (exec_CHECKLOCKTIMEVERIFY chk g s) (exec_CHECKLOCKTIMEVERIFY chk f s)"
    and "refines (exec_CHECKSEQUENCEVERIFY chk g s) (exec_CHECKSEQUENCEVERIFY chk f s)"
proof -
  note bit = flags_le_bit [OF assms(1)]
  have num: "refines (stack_num (bit g SCRIPT_VERIFY_MINIMALDATA) 5 x) (stack_num (bit f SCRIPT_VERIFY_MINIMALDATA) 5 x)" for x
    by (rule stack_num_mono) (rule bit)
  have same: "refines (ebind r (\<lambda>n. if P n then Inl e else if Q n then Inl e' else Inr s)) (Inr s)"
    "refines (ebind r (\<lambda>n. if P n then Inl e else if R n then Inr s else if Q n then Inl e' else Inr s)) (Inr s)"
    for r :: "int script_res" and P Q R e e'
    by (auto simp: refines_def ebind_Inr split: if_splits)
  show "refines (exec_NOP g s) (exec_NOP f s)"
    using assms bit by (auto simp: exec_NOP_def)
  show "refines (exec_CHECKLOCKTIMEVERIFY chk g s) (exec_CHECKLOCKTIMEVERIFY chk f s)"
    using assms bit same num
    by (auto simp: exec_CHECKLOCKTIMEVERIFY_def exec_NOP_def intro!: refines_ebind split: list.split)
  show "refines (exec_CHECKSEQUENCEVERIFY chk g s) (exec_CHECKSEQUENCEVERIFY chk f s)"
    using assms bit same num
    by (auto simp: exec_CHECKSEQUENCEVERIFY_def exec_NOP_def intro!: refines_ebind split: list.split)
qed

lemma exec_IF_mono:
  "flags_le f g \<Longrightarrow> refines (exec_IF g sv fExec notif s) (exec_IF f sv fExec notif s)"
  using flags_le_bit [of f g] by (auto simp: exec_IF_def split: list.split)

lemma exec_opcode_mono:
  assumes "flags_le f g" "\<not> bit f SCRIPT_VERIFY_DISCOURAGE_UPGRADABLE_NOPS"
  shows "refines (exec_opcode L chk g sv fExec opcode s) (exec_opcode L chk f sv fExec opcode s)"
  by (rule exec_opcode_cases [of opcode])
    (simp_all only: refines_refl lock_time_mono [OF assms] exec_IF_mono [OF assms(1)]
      exec_CHECKSIG_mono [OF assms(1)] exec_CHECKMULTISIG_mono [OF assms(1)]
      exec_table_mono [OF flags_le_bit [OF assms(1)]])

lemma eval_step_mono:
  assumes "flags_le f g" "\<not> bit f SCRIPT_VERIFY_DISCOURAGE_UPGRADABLE_NOPS"
  shows "refines (eval_step L chk g sv s) (eval_step L chk f sv s)"
proof -
  have "refines (exec_instruction L chk g sv opcode vch t) (exec_instruction L chk f sv opcode vch t)"
    for opcode vch t
    using flags_le_bit [OF assms(1)] exec_opcode_mono [OF assms]
    by (auto simp: exec_instruction_def Let_def)
  then show ?thesis
    by (auto simp: eval_step_def Let_def intro!: refines_ebind split: option.split)
qed

lemma eval_loop_mono:
  assumes "flags_le f g" "\<not> bit f SCRIPT_VERIFY_DISCOURAGE_UPGRADABLE_NOPS"
  shows "refines (eval_loop L chk g sv s) (eval_loop L chk f sv s)"
  using assms
proof (induction L chk g sv s rule: eval_loop.induct)
  case (1 L chk g sv s)
  show ?case
  proof (cases "eval_step L chk g sv s")
    case (Inl e)
    then show ?thesis by (simp add: eval_loop.simps [of _ _ _ _ s])
  next
    case (Inr s')
    with eval_step_mono [OF "1.prems", of L chk sv s] have "eval_step L chk f sv s = Inr s'"
      by simp
    with Inr "1.IH" [OF _ Inr "1.prems"] show ?thesis
      by (simp add: eval_loop.simps [of _ _ _ _ s])
  qed
qed

lemma EvalScript_mono:
  assumes "flags_le f g" "\<not> bit f SCRIPT_VERIFY_DISCOURAGE_UPGRADABLE_NOPS"
  shows "refines (EvalScript L chk st script g sv) (EvalScript L chk st script f sv)"
  using eval_loop_mono [OF assms] by (auto simp: EvalScript_def intro!: refines_ebind)

end
