(* ===== verification/XC_Verify.thy ===== *)
theory XC_Verify
  imports XC_InterpLaws
begin

text \<open>
  \<^verbatim>\<open>VerifyScript\<close>, \<^verbatim>\<open>VerifyWitnessProgram\<close>, \<^verbatim>\<open>TransactionSignatureChecker\<close> and the witness
  operation counts of \<^verbatim>\<open>src/src/script/interpreter.cpp\<close>: what has to hold for an input to spend
  an output.
\<close>

section \<open>TransactionSignatureChecker\<close>

record TransactionSignatureChecker =
  txTo :: CTransaction
  nIn :: nat
  amount :: CAmount
  txdata :: "PrecomputedTransactionData option"

text \<open>
  The object is built for an input of the transaction; for another index \<open>SignatureHash\<close> is \<open>None\<close>,
  the failed assertion, and no signature is accepted.
\<close>

definition CheckSig ::
  "ecdsa_lib \<Rightarrow> TransactionSignatureChecker \<Rightarrow> bytes \<Rightarrow> bytes \<Rightarrow> CScript \<Rightarrow> SigVersion \<Rightarrow> bool" where
  "CheckSig L c vchSigIn vchPubKey scriptCode sigversion =
     (let pubkey = CPubKey_Set vchPubKey
      in if \<not> CPubKey_IsValid pubkey then False
         else if vchSigIn = [] then False
         else case SignatureHash scriptCode (txTo c) (nIn c) (ucast (last vchSigIn)) (amount c) sigversion (txdata c) of
                None \<Rightarrow> False
              | Some sighash \<Rightarrow> CPubKey_Verify L pubkey sighash (butlast vchSigIn))"

definition CheckLockTime :: "TransactionSignatureChecker \<Rightarrow> int \<Rightarrow> bool" where
  "CheckLockTime c nLockTime' \<longleftrightarrow>
     (let txLockTime = uint (nLockTime (txTo c))
      in (txLockTime < LOCKTIME_THRESHOLD \<and> nLockTime' < LOCKTIME_THRESHOLD \<or>
          LOCKTIME_THRESHOLD \<le> txLockTime \<and> LOCKTIME_THRESHOLD \<le> nLockTime') \<and>
         nLockTime' \<le> txLockTime \<and>
         nSequence (vin (txTo c) ! nIn c) \<noteq> SEQUENCE_FINAL)"

definition CheckSequence :: "TransactionSignatureChecker \<Rightarrow> int \<Rightarrow> bool" where
  "CheckSequence c nSequence' \<longleftrightarrow>
     (let txToSequence = nSequence (vin (txTo c) ! nIn c);
          nLockTimeMask = uint (SEQUENCE_LOCKTIME_TYPE_FLAG OR SEQUENCE_LOCKTIME_MASK);
          txToSequenceMasked = uint txToSequence AND nLockTimeMask;
          nSequenceMasked = nSequence' AND nLockTimeMask;
          type_flag = uint SEQUENCE_LOCKTIME_TYPE_FLAG
      in \<not> nVersion (txTo c) < 2 \<and>
         txToSequence AND SEQUENCE_LOCKTIME_DISABLE_FLAG = 0 \<and>
         (txToSequenceMasked < type_flag \<and> nSequenceMasked < type_flag \<or>
          type_flag \<le> txToSequenceMasked \<and> type_flag \<le> nSequenceMasked) \<and>
         nSequenceMasked \<le> txToSequenceMasked)"

definition transaction_checker :: "ecdsa_lib \<Rightarrow> TransactionSignatureChecker \<Rightarrow> checker" where
  "transaction_checker L c =
     \<lparr>chk_CheckSig = CheckSig L c, chk_CheckLockTime = CheckLockTime c, chk_CheckSequence = CheckSequence c\<rparr>"

section \<open>Witness programs\<close>

text \<open>\<open>Inr ()\<close> is \<^verbatim>\<open>true\<close>. The witness is in the order of the vector, its top last.\<close>

definition witness_p2pkh :: "bytes \<Rightarrow> CScript" where
  "witness_p2pkh program =
     push_opcode (push_opcode (push_data (push_opcode (push_opcode [] OP_DUP) OP_HASH160) program)
       OP_EQUALVERIFY) OP_CHECKSIG"

definition run_witness ::
  "ecdsa_lib \<Rightarrow> checker \<Rightarrow> script_flags \<Rightarrow> valtype list \<Rightarrow> CScript \<Rightarrow> unit script_res" where
  "run_witness L chk flags st script =
     (if \<exists>x \<in> set st. MAX_SCRIPT_ELEMENT_SIZE < length x then Inl SCRIPT_ERR_PUSH_SIZE
      else ebind (EvalScript L chk st script flags SIGVERSION_WITNESS_V0) (\<lambda>st.
        if length st \<noteq> 1 then Inl SCRIPT_ERR_EVAL_FALSE
        else if \<not> CastToBool (hd st) then Inl SCRIPT_ERR_EVAL_FALSE
        else Inr ()))"

definition VerifyWitnessProgram ::
  "ecdsa_lib \<Rightarrow> checker \<Rightarrow> bytes list \<Rightarrow> nat \<Rightarrow> bytes \<Rightarrow> script_flags \<Rightarrow> unit script_res" where
  "VerifyWitnessProgram L chk witness witversion program flags =
     (if witversion = 0 then
        if length program = 32 then
          if witness = [] then Inl SCRIPT_ERR_WITNESS_PROGRAM_WITNESS_EMPTY
          else if sha256_parts [last witness] \<noteq> program then Inl SCRIPT_ERR_WITNESS_PROGRAM_MISMATCH
          else run_witness L chk flags (rev (butlast witness)) (last witness)
        else if length program = 20 then
          if length witness \<noteq> 2 then Inl SCRIPT_ERR_WITNESS_PROGRAM_MISMATCH
          else run_witness L chk flags (rev witness) (witness_p2pkh program)
        else Inl SCRIPT_ERR_WITNESS_PROGRAM_WRONG_LENGTH
      else if bit flags SCRIPT_VERIFY_DISCOURAGE_UPGRADABLE_WITNESS_PROGRAM
      then Inl SCRIPT_ERR_DISCOURAGE_UPGRADABLE_WITNESS_PROGRAM
      else Inr ())"

section \<open>VerifyScript\<close>

text \<open>
  The stages of \<^verbatim>\<open>VerifyScript\<close>. A stage gives the error it sets, or what the next one needs: the
  stack and \<^verbatim>\<open>hadWitness\<close>. \<open>None\<close> is a failed assertion.
\<close>

definition eval_true :: "valtype list script_res \<Rightarrow> valtype list script_res" where
  "eval_true r =
     ebind r (\<lambda>st. if st = [] then Inl SCRIPT_ERR_EVAL_FALSE
       else if \<not> CastToBool (hd st) then Inl SCRIPT_ERR_EVAL_FALSE else Inr st)"

definition verify_bare_witness ::
  "ecdsa_lib \<Rightarrow> checker \<Rightarrow> script_flags \<Rightarrow> CScript \<Rightarrow> CScript \<Rightarrow> bytes list \<Rightarrow> valtype list \<Rightarrow>
   (valtype list \<times> bool) script_res" where
  "verify_bare_witness L chk flags sig pk witness st =
     (if \<not> bit flags SCRIPT_VERIFY_WITNESS then Inr (st, False)
      else case IsWitnessProgram pk of None \<Rightarrow> Inr (st, False)
           | Some (version, program) \<Rightarrow>
               if sig \<noteq> [] then Inl SCRIPT_ERR_WITNESS_MALLEATED
               else ebind (VerifyWitnessProgram L chk witness version program flags)
                      (\<lambda>_. Inr ([last st], True)))"

definition verify_p2sh_witness ::
  "ecdsa_lib \<Rightarrow> checker \<Rightarrow> script_flags \<Rightarrow> CScript \<Rightarrow> CScript \<Rightarrow> bytes list \<Rightarrow> bool \<Rightarrow> valtype list \<Rightarrow>
   (valtype list \<times> bool) script_res" where
  "verify_p2sh_witness L chk flags sig pubKey2 witness had st =
     (if \<not> bit flags SCRIPT_VERIFY_WITNESS then Inr (st, had)
      else case IsWitnessProgram pubKey2 of None \<Rightarrow> Inr (st, had)
           | Some (version, program) \<Rightarrow>
               if sig \<noteq> push_data [] pubKey2 then Inl SCRIPT_ERR_WITNESS_MALLEATED_P2SH
               else ebind (VerifyWitnessProgram L chk witness version program flags)
                      (\<lambda>_. Inr ([last st], True)))"

definition verify_p2sh ::
  "ecdsa_lib \<Rightarrow> checker \<Rightarrow> script_flags \<Rightarrow> CScript \<Rightarrow> CScript \<Rightarrow> bytes list \<Rightarrow> valtype list \<Rightarrow>
   valtype list \<times> bool \<Rightarrow> (valtype list \<times> bool) script_res option" where
  "verify_p2sh L chk flags sig pk witness stackCopy r =
     (if \<not> (bit flags SCRIPT_VERIFY_P2SH \<and> IsPayToScriptHash pk) then Some (Inr r)
      else if \<not> IsPushOnly sig then Some (Inl SCRIPT_ERR_SIG_PUSHONLY)
      else case stackCopy of [] \<Rightarrow> None
           | pubKey2 # st \<Rightarrow>
               Some (ebind (eval_true (EvalScript L chk st pubKey2 flags SIGVERSION_BASE))
                 (verify_p2sh_witness L chk flags sig pubKey2 witness (snd r))))"

definition verify_end :: "script_flags \<Rightarrow> bytes list \<Rightarrow> valtype list \<times> bool \<Rightarrow> unit script_res option" where
  "verify_end flags witness r =
     (let (st, hadWitness) = r
      in if bit flags SCRIPT_VERIFY_CLEANSTACK \<and>
            \<not> (bit flags SCRIPT_VERIFY_P2SH \<and> bit flags SCRIPT_VERIFY_WITNESS) then None
         else if bit flags SCRIPT_VERIFY_CLEANSTACK \<and> length st \<noteq> 1 then Some (Inl SCRIPT_ERR_CLEANSTACK)
         else if bit flags SCRIPT_VERIFY_WITNESS \<and> \<not> bit flags SCRIPT_VERIFY_P2SH then None
         else if bit flags SCRIPT_VERIFY_WITNESS \<and> \<not> hadWitness \<and> witness \<noteq> []
         then Some (Inl SCRIPT_ERR_WITNESS_UNEXPECTED)
         else Some (Inr ()))"

definition VerifyScript ::
  "ecdsa_lib \<Rightarrow> checker \<Rightarrow> CScript \<Rightarrow> CScript \<Rightarrow> bytes list \<Rightarrow> script_flags \<Rightarrow> unit script_res option" where
  "VerifyScript L chk sig pk witness flags =
     (if bit flags SCRIPT_VERIFY_SIGPUSHONLY \<and> \<not> IsPushOnly sig then Some (Inl SCRIPT_ERR_SIG_PUSHONLY)
      else case EvalScript L chk [] sig flags SIGVERSION_BASE of Inl e \<Rightarrow> Some (Inl e)
      | Inr stackCopy \<Rightarrow>
     (case ebind (eval_true (EvalScript L chk stackCopy pk flags SIGVERSION_BASE))
             (verify_bare_witness L chk flags sig pk witness) of Inl e \<Rightarrow> Some (Inl e)
      | Inr r \<Rightarrow>
     (case verify_p2sh L chk flags sig pk witness stackCopy r of None \<Rightarrow> None
      | Some (Inl e) \<Rightarrow> Some (Inl e)
      | Some (Inr r) \<Rightarrow> verify_end flags witness r)))"

section \<open>Operation counts of witness programs\<close>

definition WitnessSigOps :: "nat \<Rightarrow> bytes \<Rightarrow> bytes list \<Rightarrow> nat" where
  "WitnessSigOps witversion witprogram witness =
     (if witversion = 0 then
        if length witprogram = 20 then 1
        else if length witprogram = 32 \<and> witness \<noteq> [] then GetSigOpCount True (last witness)
        else 0
      else 0)"

text \<open>\<open>None\<close> is the failed assertion that \<^verbatim>\<open>SCRIPT_VERIFY_P2SH\<close> is set.\<close>

definition CountWitnessSigOps :: "CScript \<Rightarrow> CScript \<Rightarrow> bytes list \<Rightarrow> script_flags \<Rightarrow> nat option" where
  "CountWitnessSigOps sig pk witness flags =
     (if \<not> bit flags SCRIPT_VERIFY_WITNESS then Some 0
      else if \<not> bit flags SCRIPT_VERIFY_P2SH then None
      else case IsWitnessProgram pk of
             Some (version, program) \<Rightarrow> Some (WitnessSigOps version program witness)
           | None \<Rightarrow>
               if IsPayToScriptHash pk \<and> IsPushOnly sig then
                 (case last_push sig [] of None \<Rightarrow> Some 0
                  | Some data \<Rightarrow>
                      (case IsWitnessProgram data of
                         Some (version, program) \<Rightarrow> Some (WitnessSigOps version program witness)
                       | None \<Rightarrow> Some 0))
               else Some 0)"

section \<open>More flags only refuse more\<close>

text \<open>The combinations of flags the assertions allow.\<close>

definition flags_ok :: "script_flags \<Rightarrow> bool" where
  "flags_ok flags \<longleftrightarrow>
     (bit flags SCRIPT_VERIFY_CLEANSTACK \<longrightarrow> bit flags SCRIPT_VERIFY_WITNESS) \<and>
     (bit flags SCRIPT_VERIFY_WITNESS \<longrightarrow> bit flags SCRIPT_VERIFY_P2SH)"

lemma run_witness_mono:
  assumes "flags_le f g" "\<not> bit f SCRIPT_VERIFY_DISCOURAGE_UPGRADABLE_NOPS"
  shows "refines (run_witness L chk g st script) (run_witness L chk f st script)"
  by (auto simp: run_witness_def intro!: refines_ebind EvalScript_mono [OF assms])

lemma VerifyWitnessProgram_mono:
  assumes "flags_le f g" "\<not> bit f SCRIPT_VERIFY_DISCOURAGE_UPGRADABLE_NOPS"
  shows "refines (VerifyWitnessProgram L chk witness v program g) (VerifyWitnessProgram L chk witness v program f)"
  using flags_le_bit [OF assms(1)] run_witness_mono [OF assms] by (auto simp: VerifyWitnessProgram_def)

text \<open>A successful verification, stage by stage.\<close>

lemma VerifyScript_success:
  "VerifyScript L chk sig pk witness flags = Some (Inr ()) \<longleftrightarrow>
    (bit flags SCRIPT_VERIFY_SIGPUSHONLY \<longrightarrow> IsPushOnly sig) \<and>
    (\<exists>stackCopy st r r'. EvalScript L chk [] sig flags SIGVERSION_BASE = Inr stackCopy \<and>
      eval_true (EvalScript L chk stackCopy pk flags SIGVERSION_BASE) = Inr st \<and>
      verify_bare_witness L chk flags sig pk witness st = Inr r \<and>
      verify_p2sh L chk flags sig pk witness stackCopy r = Some (Inr r') \<and>
      verify_end flags witness r' = Some (Inr ()))"
  unfolding VerifyScript_def by (auto simp: ebind_def split: sum.split option.split if_splits)

lemma eval_true_mono: "refines r r' \<Longrightarrow> refines (eval_true r) (eval_true r')"
  by (auto simp: eval_true_def intro!: refines_ebind)

text \<open>The two stages that read the witness flag: without it they change nothing, with it they agree.\<close>

lemma verify_bare_witness_mono:
  assumes "flags_le f g" "\<not> bit f SCRIPT_VERIFY_DISCOURAGE_UPGRADABLE_NOPS"
    and "verify_bare_witness L chk g sig pk witness st = Inr r"
  shows "\<exists>r'. verify_bare_witness L chk f sig pk witness st = Inr r' \<and> (bit f SCRIPT_VERIFY_WITNESS \<longrightarrow> r' = r)"
proof (cases "bit f SCRIPT_VERIFY_WITNESS")
  case True
  with flags_le_bit [OF assms(1)] have "bit g SCRIPT_VERIFY_WITNESS" by blast
  with True have "refines (verify_bare_witness L chk g sig pk witness st) (verify_bare_witness L chk f sig pk witness st)"
    by (auto simp: verify_bare_witness_def intro!: refines_ebind VerifyWitnessProgram_mono [OF assms(1,2)]
        split: option.split)
  with assms(3) show ?thesis by simp
qed (auto simp: verify_bare_witness_def)

lemma verify_p2sh_witness_mono:
  assumes "flags_le f g" "\<not> bit f SCRIPT_VERIFY_DISCOURAGE_UPGRADABLE_NOPS"
    and "verify_p2sh_witness L chk g sig pk2 witness had st = Inr r"
  shows "\<exists>r'. verify_p2sh_witness L chk f sig pk2 witness had' st = Inr r' \<and>
    (bit f SCRIPT_VERIFY_WITNESS \<longrightarrow> had' = had \<longrightarrow> r' = r)"
proof (cases "bit f SCRIPT_VERIFY_WITNESS")
  case True
  with flags_le_bit [OF assms(1)] have "bit g SCRIPT_VERIFY_WITNESS" by blast
  with True assms(3) VerifyWitnessProgram_mono [OF assms(1,2)] show ?thesis
    by (auto simp: verify_p2sh_witness_def refines_def ebind_Inr split: option.splits if_splits)
qed (auto simp: verify_p2sh_witness_def)

lemma verify_p2sh_mono:
  assumes "flags_le f g" "\<not> bit f SCRIPT_VERIFY_DISCOURAGE_UPGRADABLE_NOPS"
    and "verify_p2sh L chk g sig pk witness stackCopy r = Some (Inr r')"
    and "bit f SCRIPT_VERIFY_WITNESS \<longrightarrow> q = r"
  shows "\<exists>q'. verify_p2sh L chk f sig pk witness stackCopy q = Some (Inr q') \<and>
    (bit f SCRIPT_VERIFY_WITNESS \<and> bit f SCRIPT_VERIFY_P2SH \<longrightarrow> q' = r')"
proof (cases "bit f SCRIPT_VERIFY_P2SH \<and> IsPayToScriptHash pk")
  case True
  with flags_le_bit [OF assms(1)] have "bit g SCRIPT_VERIFY_P2SH" by blast
  with True assms(3) obtain pk2 st st' where s: "IsPushOnly sig" "stackCopy = pk2 # st"
    "eval_true (EvalScript L chk st pk2 g SIGVERSION_BASE) = Inr st'"
    "verify_p2sh_witness L chk g sig pk2 witness (snd r) st' = Inr r'"
    by (auto simp: verify_p2sh_def ebind_Inr split: if_splits list.splits)
  have "eval_true (EvalScript L chk st pk2 f SIGVERSION_BASE) = Inr st'"
    using eval_true_mono [OF EvalScript_mono [OF assms(1,2)]] s(3) by (auto simp: refines_def)
  with True s verify_p2sh_witness_mono [OF assms(1,2) s(4), of "snd q"] assms(4) show ?thesis
    by (auto simp: verify_p2sh_def ebind_Inr)
next
  case False
  then show ?thesis
    using assms(3,4) flags_le_bit [OF assms(1)]
    by (auto simp: verify_p2sh_def split: if_splits list.splits)
qed

text \<open>
  C12. Verification flags are soft forks: what verifies under some flags verifies under every smaller set of
  them that the assertions allow, as long as the smaller set does not itself discourage the no-operations
  that the lock-time rules have taken over.
\<close>

theorem more_flags_refuse_more:
  assumes le: "flags_le f g" "\<not> bit f SCRIPT_VERIFY_DISCOURAGE_UPGRADABLE_NOPS" and ok: "flags_ok f"
    and "VerifyScript L chk sig pk witness g = Some (Inr ())"
  shows "VerifyScript L chk sig pk witness f = Some (Inr ())"
proof -
  note bit = flags_le_bit [OF le(1)]
  obtain stackCopy st r r' where g: "bit g SCRIPT_VERIFY_SIGPUSHONLY \<longrightarrow> IsPushOnly sig"
    "EvalScript L chk [] sig g SIGVERSION_BASE = Inr stackCopy"
    "eval_true (EvalScript L chk stackCopy pk g SIGVERSION_BASE) = Inr st"
    "verify_bare_witness L chk g sig pk witness st = Inr r"
    "verify_p2sh L chk g sig pk witness stackCopy r = Some (Inr r')"
    "verify_end g witness r' = Some (Inr ())"
    using assms(4) unfolding VerifyScript_success by blast
  have f: "EvalScript L chk [] sig f SIGVERSION_BASE = Inr stackCopy"
    "eval_true (EvalScript L chk stackCopy pk f SIGVERSION_BASE) = Inr st"
    using g(2,3) EvalScript_mono [OF le] eval_true_mono [OF EvalScript_mono [OF le]]
    by (auto simp: refines_def)
  obtain q where q: "verify_bare_witness L chk f sig pk witness st = Inr q" "bit f SCRIPT_VERIFY_WITNESS \<longrightarrow> q = r"
    using verify_bare_witness_mono [OF le g(4)] by blast
  obtain q' where q': "verify_p2sh L chk f sig pk witness stackCopy q = Some (Inr q')"
    "bit f SCRIPT_VERIFY_WITNESS \<and> bit f SCRIPT_VERIFY_P2SH \<longrightarrow> q' = r'"
    using verify_p2sh_mono [OF le g(5) q(2)] by blast
  have "verify_end f witness q' = Some (Inr ())"
    using g(6) q'(2) ok bit by (cases q'; cases r') (auto simp: verify_end_def flags_ok_def split: if_splits)
  with f q q' g(1) bit show ?thesis
    unfolding VerifyScript_success by blast
qed

definition ex_lib :: ecdsa_lib where
  "ex_lib = \<lparr>ec_pubkey_parse = (\<lambda>b. True), signature_parse_compact = (\<lambda>b. True),
     signature_normalize = (\<lambda>b. (False, b)), ecdsa_verify = (\<lambda>s h p. True)\<rparr>"

text \<open>A checker that accepts one signature for one key and refuses every lock time.\<close>

definition ex_checker :: "bytes \<Rightarrow> bytes \<Rightarrow> checker" where
  "ex_checker sig pub =
     \<lparr>chk_CheckSig = (\<lambda>s p code sv. s = sig \<and> p = pub), chk_CheckLockTime = (\<lambda>n. False), chk_CheckSequence = (\<lambda>n. False)\<rparr>"

theorem more_flags_refuse_more_witness:
  "VerifyScript ex_lib (ex_checker [9] [7]) [0x51] [0x63, 0x51, 0x68] [] 0 = Some (Inr ())"
proof (rule more_flags_refuse_more [where g = "0x8d41"])
  show "VerifyScript ex_lib (ex_checker [9] [7]) [0x51] [0x63, 0x51, 0x68] [] 0x8d41 = Some (Inr ())"
    by code_simp
qed (simp_all add: flags_le_def flags_ok_def)

end
