(* ===== verification/XC_Spend.thy ===== *)
theory XC_Spend
  imports XC_Verify XC_Standard
begin

text \<open>
  What it takes to spend an output: the interpreter of \<^verbatim>\<open>src/src/script/interpreter.cpp\<close> run on the
  scripts \<^verbatim>\<open>src/src/script/standard.cpp\<close> builds, and the script-level lock times against the
  transaction-level rules of \<^verbatim>\<open>src/src/consensus/tx_verify.cpp\<close>.
\<close>

section \<open>Running an instruction\<close>

lemma eval_loop_done: "i_pc s = [] \<Longrightarrow> eval_loop L chk flags sv s = Inr s"
  by (simp add: eval_loop.simps)

lemma eval_loop_next:
  "i_pc s \<noteq> [] \<Longrightarrow> eval_loop L chk flags sv s = ebind (eval_step L chk flags sv s) (eval_loop L chk flags sv)"
  by (simp add: eval_loop.simps [of L chk flags sv s] ebind_def)

lemma ebind_simps [simp]: "ebind (Inr x) f = f x" "ebind (Inl e) f = Inl e"
  by (simp_all add: ebind_def)

lemma ebind_if: "ebind (if c then r else r') f = (if c then ebind r f else ebind r' f)"
  by simp

text \<open>An executed instruction that is no push, counted and within the limits.\<close>

lemma eval_step_opcode:
  assumes "i_pc s = opcode # pc" "OP_16 < opcode" "opcode \<noteq> OP_RVN_ASSET" "opcode \<notin> set disabled_opcodes"
    "i_exec s = []" "i_nops s < MAX_OPS_PER_SCRIPT"
  shows "eval_step L chk flags sv s =
    ebind (exec_opcode L chk flags sv True opcode (s\<lparr>i_pc := pc, i_nops := Suc (i_nops s)\<rparr>))
      (\<lambda>s. if MAX_STACK_SIZE < length (i_stack s) + length (i_alt s) then Inl SCRIPT_ERR_STACK_SIZE else Inr s)"
proof -
  have "OP_PUSHDATA4 < opcode" using assms(2) by (rule order_less_trans [rotated]) simp
  with assms show ?thesis
    by (auto simp: eval_step_def GetOp2_plain exec_instruction_def not_le)
qed

lemma eval_step_push:
  assumes "GetOp2 (i_pc s) = Some (opcode, vch, pc)" "opcode \<le> OP_PUSHDATA4" "length vch \<le> MAX_SCRIPT_ELEMENT_SIZE"
    "i_exec s = []"
  shows "eval_step L chk flags sv s =
    (if bit flags SCRIPT_VERIFY_MINIMALDATA \<and> \<not> CheckMinimalPush vch opcode then Inl SCRIPT_ERR_MINIMALDATA
     else if MAX_STACK_SIZE < Suc (length (i_stack s) + length (i_alt s)) then Inl SCRIPT_ERR_STACK_SIZE
     else Inr (s\<lparr>i_pc := pc, i_stack := vch # i_stack s\<rparr>))"
proof -
  have "\<not> OP_16 < opcode" using assms(2) by (simp add: not_less) (rule order_trans, assumption, simp)
  moreover have "opcode \<notin> set disabled_opcodes" using assms(2) by (auto simp: disabled_opcodes_def)
  ultimately show ?thesis
    using assms by (auto simp: eval_step_def exec_instruction_def)
qed

lemma eval_step_asset:
  assumes "i_pc s = OP_RVN_ASSET # pc" "i_exec s = []" "i_nops s < MAX_OPS_PER_SCRIPT"
  shows "eval_step L chk flags sv s =
    (if MAX_SCRIPT_ELEMENT_SIZE < length pc then Inl SCRIPT_ERR_PUSH_SIZE
     else if MAX_STACK_SIZE < length (i_stack s) + length (i_alt s) then Inl SCRIPT_ERR_STACK_SIZE
     else Inr (s\<lparr>i_pc := [], i_nops := Suc (i_nops s)\<rparr>))"
  using assms by (auto simp: eval_step_def exec_instruction_def exec_opcode_def GetOp2_def disabled_opcodes_def)

text \<open>The table of the instructions the standard scripts use.\<close>

lemma stack_ops_standard:
  "map_of (stack_ops m) OP_DUP = Some exec_DUP" "map_of (stack_ops m) OP_HASH160 = Some (exec_hash OP_HASH160)"
  "map_of (stack_ops m) OP_EQUALVERIFY = Some (exec_EQUAL True)" "map_of (stack_ops m) OP_EQUAL = Some (exec_EQUAL False)"
  "map_of (stack_ops m) OP_DROP = Some exec_DROP"
  by (simp_all add: stack_ops_def binary_ops_def unary_ops_def)

lemma exec_opcode_standard:
  "exec_opcode L chk flags sv e OP_DUP s = ebind (exec_DUP (i_stack s)) (\<lambda>st. Inr (s\<lparr>i_stack := st\<rparr>))"
  "exec_opcode L chk flags sv e OP_HASH160 s = ebind (exec_hash OP_HASH160 (i_stack s)) (\<lambda>st. Inr (s\<lparr>i_stack := st\<rparr>))"
  "exec_opcode L chk flags sv e OP_EQUALVERIFY s = ebind (exec_EQUAL True (i_stack s)) (\<lambda>st. Inr (s\<lparr>i_stack := st\<rparr>))"
  "exec_opcode L chk flags sv e OP_EQUAL s = ebind (exec_EQUAL False (i_stack s)) (\<lambda>st. Inr (s\<lparr>i_stack := st\<rparr>))"
  "exec_opcode L chk flags sv e OP_DROP s = ebind (exec_DROP (i_stack s)) (\<lambda>st. Inr (s\<lparr>i_stack := st\<rparr>))"
  "exec_opcode L chk flags sv e OP_CHECKSIG s = exec_CHECKSIG L chk flags sv False s"
  "exec_opcode L chk flags sv e OP_RETURN s = Inl SCRIPT_ERR_OP_RETURN"
  by (simp_all add: exec_opcode_def stack_ops_standard)

lemmas run_simps = eval_loop_next eval_loop_done eval_step_opcode disabled_opcodes_def exec_opcode_standard

section \<open>Assertions never fail\<close>

lemma p2sh_needs_argument:
  assumes "IsPayToScriptHash pk"
  shows "EvalScript L chk [] pk flags sv = Inl SCRIPT_ERR_INVALID_STACK_OPERATION"
proof -
  obtain pc where pk: "pk = OP_HASH160 # pc" "length pk = 23"
    using assms by (cases pk) (auto simp: IsPayToScriptHash_def)
  then show ?thesis
    by (simp add: EvalScript_def interp_init_def run_simps exec_hash_def)
qed

text \<open>
  C20. No assertion of \<^verbatim>\<open>VerifyScript\<close> fails when the witness rules are used with the P2SH rules and the
  clean-stack rule with the witness rules: in particular the copy of the stack a P2SH spend reads its
  script from is never empty.
\<close>

theorem verify_script_total:
  assumes "flags_ok flags"
  shows "VerifyScript L chk sig pk witness flags \<noteq> None"
proof -
  have final: "\<exists>res. verify_end flags witness r = Some res" for r
    using assms by (auto simp: verify_end_def flags_ok_def split: prod.splits if_splits)
  have copy: "verify_p2sh L chk flags sig pk witness st r = None \<Longrightarrow>
      eval_true (EvalScript L chk st pk flags SIGVERSION_BASE) = Inr st' \<Longrightarrow> False" for st st' r
    using p2sh_needs_argument [of pk L chk flags SIGVERSION_BASE]
    by (cases st) (auto simp: verify_p2sh_def eval_true_def split: if_splits)
  show ?thesis
    unfolding VerifyScript_def
    by (auto simp: ebind_Inr split: sum.split option.split if_splits dest: copy intro: final)
qed

section \<open>Paying to a key\<close>

text \<open>
  The output scripts of a key: the standard one, alone or followed by \<open>OP_RVN_ASSET\<close> and the data of
  an asset.
\<close>

definition key_script :: "uint160 \<Rightarrow> bytes option \<Rightarrow> CScript" where
  "key_script h asset =
     GetScriptForDestination (CKeyID h) @ (case asset of None \<Rightarrow> [] | Some data \<Rightarrow> OP_RVN_ASSET # data)"

definition asset_fits :: "bytes option \<Rightarrow> bool" where
  "asset_fits asset \<longleftrightarrow> (case asset of None \<Rightarrow> True | Some data \<Rightarrow> length data \<le> MAX_SCRIPT_ELEMENT_SIZE)"

lemma eval_asset_tail:
  assumes "i_pc s = (case asset of None \<Rightarrow> [] | Some data \<Rightarrow> OP_RVN_ASSET # data)"
    "i_exec s = []" "i_nops s < MAX_OPS_PER_SCRIPT" "length (i_stack s) + length (i_alt s) \<le> MAX_STACK_SIZE"
  shows "ebind (eval_loop L chk flags sv s) (\<lambda>s. Inr (i_stack s)) =
    (if asset_fits asset then Inr (i_stack s) else Inl SCRIPT_ERR_PUSH_SIZE)"
  using assms by (cases asset) (auto simp: asset_fits_def eval_loop_next eval_loop_done eval_step_asset)

lemma minimal_key_push: "length h = 20 \<Longrightarrow> CheckMinimalPush h 0x14"
  by (auto simp: CheckMinimalPush_def)

lemma eval_step_key_hash:
  assumes "i_pc s = 0x14 # h @ pc" "length h = 20" "i_exec s = []"
  shows "eval_step L chk flags sv s =
    (if MAX_STACK_SIZE < Suc (length (i_stack s) + length (i_alt s)) then Inl SCRIPT_ERR_STACK_SIZE
     else Inr (s\<lparr>i_pc := pc, i_stack := h # i_stack s\<rparr>))"
  using assms GetOp2_short_push [of h pc] minimal_key_push [of h] by (subst eval_step_push [of s "0x14" h pc]) auto

definition key_unlocks ::
  "ecdsa_lib \<Rightarrow> checker \<Rightarrow> script_flags \<Rightarrow> uint160 \<Rightarrow> CScript \<Rightarrow> bytes \<Rightarrow> bytes \<Rightarrow> bool" where
  "key_unlocks L chk flags h lock pub s \<longleftrightarrow>
     Hash160 pub = h \<and> check_encodings L flags SIGVERSION_BASE s pub = None \<and>
     chk_CheckSig chk s pub (drop_signature SIGVERSION_BASE lock s) SIGVERSION_BASE"

lemmas key_script_run = eval_true_def EvalScript_def key_script_def P2PKH_bytes interp_init_def run_simps
  exec_DUP_def exec_hash_def eval_step_key_hash exec_EQUAL_def

lemma eval_key_script_short:
  assumes "length h = 20" "length st < 2 \<or> 998 < length st"
  shows "eval_true (EvalScript L chk st (key_script h asset) flags SIGVERSION_BASE) \<noteq> Inr st'"
proof -
  consider "st = []" | pub where "st = [pub]" | pub s rest where "st = pub # s # rest" "996 < length rest"
    using assms(2) by (cases st; cases "tl st") auto
  then show ?thesis
    by cases (use assms(1) in \<open>auto simp: key_script_run exec_CHECKSIG_def\<close>)
qed

lemma eval_key_script:
  assumes "length h = 20" "length rest \<le> 996"
  shows "eval_true (EvalScript L chk (pub # s # rest) (key_script h asset) flags SIGVERSION_BASE) = Inr st' \<longleftrightarrow>
    asset_fits asset \<and> key_unlocks L chk flags h (key_script h asset) pub s \<and> st' = vchTrue # rest"
  using assms
  by (cases asset) (auto simp: key_script_run exec_CHECKSIG_def key_unlocks_def asset_fits_def Let_def push_result_def
    vchBool_def vchTrue_def vchFalse_def eval_step_asset split: option.splits)

lemma eval_key_script_iff:
  assumes "length h = 20"
  shows "eval_true (EvalScript L chk st (key_script h asset) flags SIGVERSION_BASE) = Inr st' \<longleftrightarrow>
    asset_fits asset \<and> (\<exists>pub s rest. st = pub # s # rest \<and> length rest \<le> 996 \<and>
      key_unlocks L chk flags h (key_script h asset) pub s \<and> st' = vchTrue # rest)"
proof (cases "length st < 2 \<or> 998 < length st")
  case True
  then show ?thesis using eval_key_script_short [OF assms] by auto
next
  case False
  then obtain pub s rest where "st = pub # s # rest" "length rest \<le> 996"
    by (cases st; cases "tl st") auto
  then show ?thesis using eval_key_script [OF assms, of rest] by auto
qed

lemma key_script_kinds:
  "length h = 20 \<Longrightarrow> \<not> IsPayToScriptHash (key_script h asset)"
  "length h = 20 \<Longrightarrow> IsWitnessProgram (key_script h asset) = None"
  by (auto simp: key_script_def P2PKH_bytes IsPayToScriptHash_def IsWitnessProgram_def)

text \<open>
  C11. An output to a key, with or without asset data behind it, is spent by exactly the unlocking scripts
  that leave a public key with the output's hash on top of the stack and under it a well-encoded signature
  the checker accepts for the output's script. The asset data is never executed; it only has to fit into
  one element. Under the clean-stack rule nothing else may remain, and under the witness rules there is
  no witness.
\<close>

theorem key_spend_exact:
  assumes "length h = 20" "flags_ok flags"
  shows "VerifyScript L chk sig (key_script h asset) witness flags = Some (Inr ()) \<longleftrightarrow>
    asset_fits asset \<and> (bit flags SCRIPT_VERIFY_SIGPUSHONLY \<longrightarrow> IsPushOnly sig) \<and>
    (bit flags SCRIPT_VERIFY_WITNESS \<longrightarrow> witness = []) \<and>
    (\<exists>pub s rest. EvalScript L chk [] sig flags SIGVERSION_BASE = Inr (pub # s # rest) \<and> length rest \<le> 996 \<and>
      (bit flags SCRIPT_VERIFY_CLEANSTACK \<longrightarrow> rest = []) \<and>
      key_unlocks L chk flags h (key_script h asset) pub s)" (is "?ok \<longleftrightarrow> ?c")
proof -
  have stages: "?ok \<longleftrightarrow> (bit flags SCRIPT_VERIFY_SIGPUSHONLY \<longrightarrow> IsPushOnly sig) \<and>
      (\<exists>st st'. EvalScript L chk [] sig flags SIGVERSION_BASE = Inr st \<and>
        eval_true (EvalScript L chk st (key_script h asset) flags SIGVERSION_BASE) = Inr st' \<and>
        (bit flags SCRIPT_VERIFY_CLEANSTACK \<longrightarrow> length st' = 1) \<and> (bit flags SCRIPT_VERIFY_WITNESS \<longrightarrow> witness = []))"
    using key_script_kinds [OF assms(1)] assms(2)
    by (simp add: VerifyScript_success verify_bare_witness_def verify_p2sh_def verify_end_def flags_ok_def) blast
  show ?thesis
    unfolding stages eval_key_script_iff [OF assms(1)] by auto
qed

lemma ex_checker_CheckSig: "chk_CheckSig (ex_checker sig pub) s p code sv \<longleftrightarrow> s = sig \<and> p = pub"
  by (simp add: ex_checker_def)

lemma ex_unlock:
  "EvalScript ex_lib (ex_checker [9] [7]) [] [1, 9, 1, 7] 0 SIGVERSION_BASE = Inr [[7], [9]]"
  by (simp add: EvalScript_def interp_init_def eval_loop_next eval_loop_done eval_step_push [of _ 1]
      GetOp2_def GetOp2_size_def)

theorem key_spend_exact_witness:
  "VerifyScript ex_lib (ex_checker [9] [7]) [1, 9, 1, 7] (key_script (Hash160 [7]) (Some [1, 2, 3])) [] 0 = Some (Inr ())"
  by (subst key_spend_exact)
    (simp_all add: flags_ok_def asset_fits_def ex_unlock key_unlocks_def ex_checker_CheckSig check_encodings_def
      CheckSignatureEncoding_def CheckPubKeyEncoding_def)

theorem verify_script_total_witness:
  "VerifyScript ex_lib (ex_checker [9] [7]) [] [OP_HASH160] [] 1 \<noteq> None"
  by (rule verify_script_total) (simp add: flags_ok_def)

section \<open>Outputs nobody can spend\<close>

text \<open>
  An output whose script starts with \<open>OP_RETURN\<close> is refused whatever unlocks it, and the error tells
  which rule refused it first: a scriptSig that is not push-only under that rule, an error inside the
  scriptSig, an output script that is too long, and otherwise \<open>SCRIPT_ERR_OP_RETURN\<close>.
\<close>

theorem op_return_refused:
  "VerifyScript L chk sig (OP_RETURN # data) witness flags =
     Some (Inl (if bit flags SCRIPT_VERIFY_SIGPUSHONLY \<and> \<not> IsPushOnly sig then SCRIPT_ERR_SIG_PUSHONLY
       else case EvalScript L chk [] sig flags SIGVERSION_BASE of Inl e \<Rightarrow> e
            | Inr st \<Rightarrow> if MAX_SCRIPT_SIZE \<le> length data then SCRIPT_ERR_SCRIPT_SIZE else SCRIPT_ERR_OP_RETURN))"
proof -
  have "EvalScript L chk st (OP_RETURN # data) flags SIGVERSION_BASE =
      Inl (if MAX_SCRIPT_SIZE \<le> length data then SCRIPT_ERR_SCRIPT_SIZE else SCRIPT_ERR_OP_RETURN)" for st
    by (simp add: EvalScript_def interp_init_def run_simps)
  then show ?thesis
    by (simp add: VerifyScript_def eval_true_def split: sum.split)
qed

section \<open>Lock times written into scripts\<close>

lemma eval_push_int64:
  assumes "i_pc s = push_int64 [] n @ pc" "\<bar>n\<bar> < 2 ^ 63" "i_exec s = []" "eval_step L chk flags sv s = Inr s'"
  shows "s' = s\<lparr>i_pc := pc, i_stack := serialize n # i_stack s\<rparr>"
proof -
  consider (small) "n = -1 \<or> 1 \<le> n \<and> n \<le> 16" | (zero) "n = 0"
    | (data) "\<not> (n = -1 \<or> 1 \<le> n \<and> n \<le> 16)" "n \<noteq> 0"
    by blast
  then show ?thesis
  proof cases
    case small
    define b where "b = (of_int (n + 0x50) :: u8)"
    have u: "uint b = n + 0x50"
      unfolding b_def uint_word_of_int using small by auto
    then have r: "b = OP_1NEGATE \<or> OP_1 \<le> b \<and> b \<le> OP_16" "OP_PUSHDATA4 < b" "b \<le> OP_16"
      using small by (auto simp: word_le_def word_less_def word_uint_eq_iff)
    have "i_pc s = b # pc" using assms(1) small by (simp add: push_int64_def b_def)
    moreover have "b \<noteq> OP_RVN_ASSET" using r(3) by auto
    ultimately have g: "GetOp2 (i_pc s) = Some (b, [], pc)" using GetOp2_plain [OF r(2)] by simp
    have "uint b - (uint OP_1 - 1) = n" using u by simp
    then have "exec_opcode L chk flags sv True b t = Inr (t\<lparr>i_stack := serialize n # i_stack t\<rparr>)" for t
      by (simp only: exec_opcode_def exec_push_number_def if_P [OF r(1)])
    then show ?thesis
      using assms(3,4) g r(2,3) by (auto simp: eval_step_def exec_instruction_def split: if_splits)
  next
    case zero
    then show ?thesis
      using assms by (auto simp: eval_step_push push_int64_def GetOp2_def GetOp2_size_def serialize_def split: if_splits)
  next
    case data
    then have "push_int64 [] n = push_header (length (serialize n)) @ serialize n"
      by (auto simp: push_int64_def push_data_def)
    moreover have len: "length (serialize n) \<le> 8" using serialize_set_vch [OF assms(2)] by simp
    ultimately obtain opcode where "opcode \<le> OP_PUSHDATA4" "GetOp2 (i_pc s) = Some (opcode, serialize n, pc)"
      using GetOp2_push_data [of "serialize n" pc] assms(1) by auto
    with len assms(3,4) show ?thesis
      by (auto simp: eval_step_push split: if_splits)
  qed
qed

text \<open>A script that checks a number with a lock-time instruction before the rest of it runs.\<close>

definition lock_script :: "opcodetype \<Rightarrow> int \<Rightarrow> CScript \<Rightarrow> CScript" where
  "lock_script opcode n rest = push_opcode (push_opcode (push_int64 [] n) opcode) OP_DROP @ rest"

lemma lock_script_executed:
  assumes "VerifyScript L chk sig (lock_script opcode n rest) witness flags = Some (Inr ())"
    and "\<bar>n\<bar> < 2 ^ 63" "OP_16 < opcode" "opcode \<noteq> OP_RVN_ASSET" "opcode \<notin> set disabled_opcodes"
  obtains st s' where "exec_opcode L chk flags SIGVERSION_BASE True opcode
    \<lparr>i_pc = OP_DROP # rest, i_codehash = lock_script opcode n rest, i_stack = serialize n # st, i_alt = [], i_exec = [],
     i_nops = 1\<rparr> = Inr s'"
proof -
  obtain st r where "EvalScript L chk st (lock_script opcode n rest) flags SIGVERSION_BASE = Inr r"
    using assms(1) unfolding VerifyScript_success eval_true_def by (auto elim!: ebind_InrE)
  then obtain r where e: "eval_loop L chk flags SIGVERSION_BASE (interp_init st (lock_script opcode n rest)) = Inr r"
    unfolding EvalScript_def by (auto elim!: ebind_InrE split: if_splits)
  let ?s = "interp_init st (lock_script opcode n rest)"
  have pc: "i_pc ?s = push_int64 [] n @ opcode # OP_DROP # rest" "i_pc ?s \<noteq> []"
    by (auto simp: interp_init_def lock_script_def push_opcode_def)
  let ?s' = "?s\<lparr>i_pc := opcode # OP_DROP # rest, i_stack := serialize n # st\<rparr>"
  obtain s1 where "eval_step L chk flags SIGVERSION_BASE ?s = Inr s1" "eval_loop L chk flags SIGVERSION_BASE s1 = Inr r"
    using e eval_loop_next [OF pc(2)] by (auto elim!: ebind_InrE)
  with eval_push_int64 [OF pc(1) assms(2), of L chk flags SIGVERSION_BASE]
  have "eval_loop L chk flags SIGVERSION_BASE ?s' = Inr r"
    by (auto simp: interp_init_def)
  then show thesis
    using that assms(3-5)
    by (auto simp: eval_loop_next eval_step_opcode interp_init_def elim!: ebind_InrE)
qed

lemma stack_num_serialize:
  "\<bar>n\<bar> < 2 ^ 63 \<Longrightarrow> stack_num m k (serialize n) = Inr n' \<Longrightarrow> n' = n"
  using serialize_set_vch [of n]
  by (auto simp: stack_num_def CScriptNum_def split: if_splits)

text \<open>
  C18. An output locked with \<open>OP_CHECKLOCKTIMEVERIFY\<close> stays locked: a transaction that passes the script and
  is final for a block (\<^verbatim>\<open>IsFinalTx\<close>) is in a block beyond the height, or the time, written in the script.
\<close>

theorem absolute_lock_enforced:
  assumes "VerifyScript L (transaction_checker L c) sig (lock_script OP_CHECKLOCKTIMEVERIFY n rest) witness flags = Some (Inr ())"
    and "bit flags SCRIPT_VERIFY_CHECKLOCKTIMEVERIFY" "\<bar>n\<bar> < 2 ^ 63" "nIn c < length (vin (txTo c))"
    and "IsFinalTx (txTo c) nBlockHeight nBlockTime" "0 < nBlockHeight"
  shows "0 \<le> n \<and> n < (if n < LOCKTIME_THRESHOLD then nBlockHeight else nBlockTime)"
proof -
  have "0 \<le> n \<and> CheckLockTime c n"
    by (rule lock_script_executed [OF assms(1,3)])
      (auto simp: disabled_opcodes_def exec_opcode_def exec_CHECKLOCKTIMEVERIFY_def assms(2) transaction_checker_def
        elim!: ebind_InrE dest!: stack_num_serialize [OF assms(3)] split: if_splits)
  then show ?thesis
    using assms(4-6) nth_mem [OF assms(4)]
    by (auto simp: CheckLockTime_def Let_def IsFinalTx_def split: if_splits)
qed

text \<open>A masked sequence number is its type bit and its 16-bit value.\<close>

lemma sequence_mask_split:
  fixes x :: int
  shows "x AND 0x40ffff = (x AND 0x400000) + (x AND 0xffff)" "x AND 0x400000 = 0 \<or> x AND 0x400000 = 0x400000"
    "0 \<le> x AND 0xffff" "x AND 0xffff \<le> 0xffff"
proof -
  have "(x AND 0x400000) AND (x AND 0xffff) = x AND ((0x400000 :: int) AND 0xffff)"
    by (simp only: and.assoc and.left_commute and.left_idem)
  then have "(x AND 0x400000) AND (x AND 0xffff) = 0" by simp
  then have "(x AND 0x400000) + (x AND 0xffff) = x AND (0x400000 OR 0xffff)"
    by (simp only: disjunctive_add_eq_or bit.conj_disj_distrib)
  then show "x AND 0x40ffff = (x AND 0x400000) + (x AND 0xffff)" by simp
  have "x AND 2 ^ k = (if bit x k then 2 ^ k else 0)" for k
    by (rule bit_eqI) (auto simp: bit_and_iff bit_exp_iff)
  from this [of 22] show "x AND 0x400000 = 0 \<or> x AND 0x400000 = 0x400000" by (simp split: if_splits)
qed (simp_all add: AND_upper2')

lemma uint_and_numeral: "uint (s AND numeral k :: u32) = uint s AND uint (numeral k :: u32)"
  by (rule unsigned_and_eq)

text \<open>The relative lock of \<open>n\<close>, on a coin created at a height.\<close>

definition relative_lock_over :: "(int \<Rightarrow> int) \<Rightarrow> int \<Rightarrow> int \<Rightarrow> int \<Rightarrow> int \<Rightarrow> bool" where
  "relative_lock_over mtp_at nHeight prevMtp nCoinHeight n \<longleftrightarrow>
     n AND 0x80000000 \<noteq> 0 \<or>
     (if n AND 0x400000 \<noteq> 0 then mtp_at (max (nCoinHeight - 1) 0) + 512 * (n AND 0xffff) \<le> prevMtp
      else nCoinHeight + (n AND 0xffff) \<le> nHeight)"

lemma CheckSequence_relative:
  assumes "CheckSequence c n" "sequence_satisfied mtp_at h t (vin (txTo c) ! nIn c, nCoinHeight)"
  shows "relative_lock_over mtp_at h t nCoinHeight n"
proof -
  define m where "m = uint (nSequence (vin (txTo c) ! nIn c))"
  have c: "nSequence (vin (txTo c) ! nIn c) AND SEQUENCE_LOCKTIME_DISABLE_FLAG = 0" "n AND 0x40ffff \<le> m AND 0x40ffff"
    "m AND 0x40ffff < 0x400000 \<longleftrightarrow> n AND 0x40ffff < 0x400000"
    using assms(1) by (auto simp: CheckSequence_def Let_def m_def)
  have w: "(nSequence (vin (txTo c) ! nIn c) AND SEQUENCE_LOCKTIME_TYPE_FLAG = 0) = (m AND 0x400000 = 0)"
    "uint (nSequence (vin (txTo c) ! nIn c) AND SEQUENCE_LOCKTIME_MASK) = m AND 0xffff"
    by (simp_all add: word_uint_eq_iff uint_and_numeral m_def)
  have "if m AND 0x400000 \<noteq> 0 then mtp_at (max (nCoinHeight - 1) 0) + 512 * (m AND 0xffff) \<le> t
      else nCoinHeight + (m AND 0xffff) \<le> h"
    using assms(2) c(1) unfolding sequence_satisfied_def Let_def by (simp add: w split: if_splits)
  moreover have "n AND 0xffff \<le> m AND 0xffff" "n AND 0x400000 = m AND 0x400000"
    using c(2,3) sequence_mask_split [of n] sequence_mask_split [of m] by linarith+
  ultimately show ?thesis
    by (auto simp: relative_lock_over_def split: if_splits)
qed

text \<open>
  C19. An output locked with \<open>OP_CHECKSEQUENCEVERIFY\<close> stays locked: a transaction that passes the script and
  whose sequence locks hold in a block (\<^verbatim>\<open>CalculateSequenceLocks\<close>, \<^verbatim>\<open>EvaluateSequenceLocks\<close>) spends a coin
  that has aged by the number of blocks, or of 512-second units, written in the script.
\<close>

theorem relative_lock_enforced:
  assumes "VerifyScript L (transaction_checker L c) sig (lock_script OP_CHECKSEQUENCEVERIFY n rest) witness flags = Some (Inr ())"
    and "bit flags SCRIPT_VERIFY_CHECKSEQUENCEVERIFY" "\<bar>n\<bar> < 2 ^ 63"
    and "nIn c < length (vin (txTo c))" "length heights = length (vin (txTo c))"
    and "EvaluateSequenceLocks nHeight prevMtp (CalculateSequenceLocks mtp_at (txTo c) True heights)"
  shows "0 \<le> n \<and> relative_lock_over mtp_at nHeight prevMtp (heights ! nIn c) n"
proof -
  have n: "0 \<le> n \<and> (n AND 0x80000000 \<noteq> 0 \<or> CheckSequence c n)"
    by (rule lock_script_executed [OF assms(1,3)])
      (auto simp: disabled_opcodes_def exec_opcode_def exec_CHECKSEQUENCEVERIFY_def assms(2) transaction_checker_def
        elim!: ebind_InrE dest!: stack_num_serialize [OF assms(3)] split: if_splits)
  have "(vin (txTo c) ! nIn c, heights ! nIn c) \<in> set (zip (vin (txTo c)) heights)"
    using assms(4,5) by (auto simp: set_zip)
  then have "CheckSequence c n \<Longrightarrow> sequence_satisfied mtp_at nHeight prevMtp (vin (txTo c) ! nIn c, heights ! nIn c)"
    using assms(6) by (auto simp: CalculateSequenceLocks_def sequence_locks_fold CheckSequence_def Let_def not_less split: if_splits)
  with n CheckSequence_relative show ?thesis
    by (auto simp: relative_lock_over_def)
qed

section \<open>Spends of locked outputs\<close>

definition ex_spend :: "u32 \<Rightarrow> u32 \<Rightarrow> TransactionSignatureChecker" where
  "ex_spend locktime sequence =
     \<lparr>txTo = \<lparr>vin = [\<lparr>prevout = \<lparr>op_hash = uint256_null, op_n = 0\<rparr>, scriptSig = [], nSequence = sequence,
        scriptWitness = []\<rparr>], vout = [], nVersion = 2, nLockTime = locktime\<rparr>,
      nIn = 0, amount = 0, txdata = None\<rparr>"

theorem absolute_lock_enforced_witness:
  "(0 :: int) \<le> 100 \<and> (100 :: int) < (if 100 < LOCKTIME_THRESHOLD then 101 else 0)"
proof (rule absolute_lock_enforced [where c = "ex_spend 100 0" and flags = "0x200" and sig = "[]" and rest = "[0x51]"
      and witness = "[]" and L = ex_lib])
  show "VerifyScript ex_lib (transaction_checker ex_lib (ex_spend 100 0)) []
      (lock_script OP_CHECKLOCKTIMEVERIFY 100 [0x51]) [] 0x200 = Some (Inr ())"
    by code_simp
qed (simp_all add: ex_spend_def IsFinalTx_def)

theorem relative_lock_enforced_witness:
  "(0 :: int) \<le> 10 \<and> relative_lock_over (\<lambda>h. 0) 110 5000 ([100] ! 0) 10"
proof -
  have "VerifyScript ex_lib (transaction_checker ex_lib (ex_spend 0 10)) []
      (lock_script OP_CHECKSEQUENCEVERIFY 10 [0x51]) [] 0x400 = Some (Inr ())"
    by code_simp
  from relative_lock_enforced [OF this, of "[100]" 110 5000 "\<lambda>h. 0"] show ?thesis
    by (simp add: ex_spend_def EvaluateSequenceLocks_def CalculateSequenceLocks_def sequence_lock_step_def)
qed

end
