(* ===== verification/XC_Regex.thy ===== *)
theory XC_Regex
  imports XC_Prelude
begin

text \<open>
  \<^verbatim>\<open>std::regex_match\<close> for the expressions of \<^verbatim>\<open>src/src/assets/assets.cpp\<close>: character classes,
  sequences, alternatives and repetition. \<^verbatim>\<open>regex_match\<close> takes the whole string, so the anchors
  of the expressions carry no meaning of their own. The matcher is executable; \<open>re_lang\<close> says what
  it decides.
\<close>

datatype re =
    One
  | Class string
  | Not_class string
  | Seq re re
  | Alt re re
  | Star re
  | Zero

text \<open>The dot of ECMAScript expressions takes every character but a line terminator.\<close>

definition any_char :: re where
  "any_char = Not_class [CHR 0x0A, CHR 0x0D]"

primrec seqs :: "re list \<Rightarrow> re" where
  "seqs [] = One"
| "seqs (r # rs) = Seq r (seqs rs)"

primrec alts :: "re list \<Rightarrow> re" where
  "alts [] = Zero"
| "alts (r # rs) = Alt r (alts rs)"

definition literal :: "string \<Rightarrow> re" where
  "literal s = seqs (map (\<lambda>c. Class [c]) s)"

definition at_least :: "nat \<Rightarrow> re \<Rightarrow> re" where
  "at_least n r = seqs (replicate n r @ [Star r])"

section \<open>Matching\<close>

primrec nullable :: "re \<Rightarrow> bool" where
  "nullable One \<longleftrightarrow> True"
| "nullable (Class cs) \<longleftrightarrow> False"
| "nullable (Not_class cs) \<longleftrightarrow> False"
| "nullable (Seq r s) \<longleftrightarrow> nullable r \<and> nullable s"
| "nullable (Alt r s) \<longleftrightarrow> nullable r \<or> nullable s"
| "nullable (Star r) \<longleftrightarrow> True"
| "nullable Zero \<longleftrightarrow> False"

primrec deriv :: "char \<Rightarrow> re \<Rightarrow> re" where
  "deriv c One = Zero"
| "deriv c (Class cs) = (if c \<in> set cs then One else Zero)"
| "deriv c (Not_class cs) = (if c \<in> set cs then Zero else One)"
| "deriv c (Seq r s) =
     (if nullable r then Alt (Seq (deriv c r) s) (deriv c s) else Seq (deriv c r) s)"
| "deriv c (Alt r s) = Alt (deriv c r) (deriv c s)"
| "deriv c (Star r) = Seq (deriv c r) (Star r)"
| "deriv c Zero = Zero"

fun regex_match :: "string \<Rightarrow> re \<Rightarrow> bool" where
  "regex_match [] r = nullable r"
| "regex_match (c # s) r = regex_match s (deriv c r)"

section \<open>What it decides\<close>

inductive re_lang :: "re \<Rightarrow> string \<Rightarrow> bool" where
  one: "re_lang One []"
| cls: "c \<in> set cs \<Longrightarrow> re_lang (Class cs) [c]"
| ncls: "c \<notin> set cs \<Longrightarrow> re_lang (Not_class cs) [c]"
| seq: "re_lang r u \<Longrightarrow> re_lang s v \<Longrightarrow> re_lang (Seq r s) (u @ v)"
| alt1: "re_lang r u \<Longrightarrow> re_lang (Alt r s) u"
| alt2: "re_lang s u \<Longrightarrow> re_lang (Alt r s) u"
| star0: "re_lang (Star r) []"
| star1: "re_lang r u \<Longrightarrow> re_lang (Star r) v \<Longrightarrow> re_lang (Star r) (u @ v)"

inductive_cases re_lang_OneE [elim!]: "re_lang One u"
inductive_cases re_lang_ClassE [elim!]: "re_lang (Class cs) u"
inductive_cases re_lang_NotE [elim!]: "re_lang (Not_class cs) u"
inductive_cases re_lang_SeqE [elim!]: "re_lang (Seq r s) u"
inductive_cases re_lang_AltE [elim!]: "re_lang (Alt r s) u"
inductive_cases re_lang_ZeroE [elim!]: "re_lang Zero u"

lemma re_lang_simps:
  "re_lang One u \<longleftrightarrow> u = []" "re_lang (Class cs) u \<longleftrightarrow> (\<exists>c \<in> set cs. u = [c])"
  "re_lang (Not_class cs) u \<longleftrightarrow> (\<exists>c. c \<notin> set cs \<and> u = [c])"
  "re_lang (Seq r s) u \<longleftrightarrow> (\<exists>v w. u = v @ w \<and> re_lang r v \<and> re_lang s w)"
  "re_lang (Alt r s) u \<longleftrightarrow> re_lang r u \<or> re_lang s u" "\<not> re_lang Zero u"
  by (auto intro: re_lang.intros)

lemma star_Cons:
  "re_lang (Star r) (c # u) \<longleftrightarrow> (\<exists>v w. u = v @ w \<and> re_lang r (c # v) \<and> re_lang (Star r) w)"
proof
  have "re_lang (Star r) x \<Longrightarrow> x = c # u \<Longrightarrow>
      \<exists>v w. u = v @ w \<and> re_lang r (c # v) \<and> re_lang (Star r) w" for x
  proof (induction "Star r" x rule: re_lang.induct)
    case (star1 v w)
    then show ?case by (cases v) auto
  qed simp
  then show "re_lang (Star r) (c # u) \<Longrightarrow> \<exists>v w. u = v @ w \<and> re_lang r (c # v) \<and> re_lang (Star r) w"
    by simp
next
  assume "\<exists>v w. u = v @ w \<and> re_lang r (c # v) \<and> re_lang (Star r) w"
  then show "re_lang (Star r) (c # u)" using re_lang.star1 [of r "c # _"] by auto
qed

lemma nullable_lang: "nullable r \<longleftrightarrow> re_lang r []"
  by (induction r) (auto simp: re_lang_simps intro: re_lang.star0)

lemma deriv_lang: "re_lang (deriv c r) u \<longleftrightarrow> re_lang r (c # u)"
proof (induction r arbitrary: u)
  case (Seq r s)
  have "re_lang (Seq r s) (c # u) \<longleftrightarrow>
      nullable r \<and> re_lang s (c # u) \<or> (\<exists>v w. u = v @ w \<and> re_lang r (c # v) \<and> re_lang s w)"
    by (auto simp: re_lang_simps nullable_lang Cons_eq_append_conv)
  with Seq show ?case by (auto simp: re_lang_simps)
qed (auto simp: re_lang_simps star_Cons)

lemma regex_match_lang: "regex_match s r \<longleftrightarrow> re_lang r s"
  by (induction s r rule: regex_match.induct) (simp_all add: nullable_lang deriv_lang)

section \<open>The shapes the expressions have\<close>

lemma seq_class:
  "re_lang (Seq (Class cs) s) u \<longleftrightarrow> (\<exists>c w. u = c # w \<and> c \<in> set cs \<and> re_lang s w)"
  "re_lang (Seq (Not_class cs) s) u \<longleftrightarrow> (\<exists>c w. u = c # w \<and> c \<notin> set cs \<and> re_lang s w)"
  using re_lang.seq [OF re_lang.cls, of _ cs s] re_lang.seq [OF re_lang.ncls, of _ cs s] by auto

lemma star_class: "re_lang (Star (Class cs)) u \<longleftrightarrow> set u \<subseteq> set cs"
  by (induction u) (auto simp: star_Cons re_lang_simps intro: re_lang.star0)

lemma star_not_class: "re_lang (Star (Not_class cs)) u \<longleftrightarrow> set u \<inter> set cs = {}"
  by (induction u) (auto simp: star_Cons re_lang_simps intro: re_lang.star0)

lemma at_least_Suc: "at_least (Suc n) r = Seq r (at_least n r)" and at_least_0: "at_least 0 r = Seq (Star r) One"
  by (simp_all add: at_least_def)

lemma at_least_class: "re_lang (at_least n (Class cs)) u \<longleftrightarrow> n \<le> length u \<and> set u \<subseteq> set cs"
proof (induction n arbitrary: u)
  case 0
  then show ?case by (auto simp: at_least_0 re_lang_simps star_class)
next
  case (Suc n)
  show ?case by (cases u) (auto simp: at_least_Suc seq_class Suc)
qed

lemma at_least_not_class: "re_lang (at_least n (Not_class cs)) u \<longleftrightarrow> n \<le> length u \<and> set u \<inter> set cs = {}"
proof (induction n arbitrary: u)
  case 0
  then show ?case by (auto simp: at_least_0 re_lang_simps star_not_class)
next
  case (Suc n)
  show ?case by (cases u) (auto simp: at_least_Suc seq_class Suc)
qed

lemma literal_lang: "re_lang (literal s) u \<longleftrightarrow> u = s"
  by (induction s arbitrary: u) (auto simp: literal_def re_lang_simps)

lemmas regex_laws = regex_match_lang re_lang_simps star_class star_not_class at_least_class at_least_not_class literal_lang

end
