(* ===== verification/XC_AssetName.thy ===== *)
theory XC_AssetName
  imports XC_Regex XC_Handle
begin

text \<open>
  Asset names in \<^verbatim>\<open>src/src/assets/assets.cpp\<close>: the expressions, the checks of each kind of name and
  \<^verbatim>\<open>IsAssetNameValid\<close>, which finds the kind; and the root name \<^verbatim>\<open>src/src/assets/xaccount.cpp\<close> derives from
  a handle.
\<close>

section \<open>Kinds\<close>

datatype AssetType = ROOT | SUB | UNIQUE | MSGCHANNEL | QUALIFIER | SUB_QUALIFIER | RESTRICTED | VOTE
  | REISSUE | OWNER | NULL_ADD_QUALIFIER | INVALID

abbreviation "MIN_ASSET_LENGTH \<equiv> (3 :: nat)"
abbreviation "MAX_ROOT_NAME_LENGTH \<equiv> (32 :: nat)"
abbreviation "MAX_NAME_LENGTH \<equiv> (33 :: nat)"
abbreviation "MAX_CHANNEL_NAME_LENGTH \<equiv> (12 :: nat)"
abbreviation "OWNER_TAG \<equiv> ''!''"

section \<open>Expressions\<close>

definition upper :: string where "upper = ''ABCDEFGHIJKLMNOPQRSTUVWXYZ''"
definition lower :: string where "lower = ''abcdefghijklmnopqrstuvwxyz''"
definition digits :: string where "digits = ''0123456789''"
definition name_chars :: string where "name_chars = upper @ digits @ ''._''"

definition ROOT_NAME_CHARACTERS :: re where "ROOT_NAME_CHARACTERS = at_least 3 (Class name_chars)"
definition SUB_NAME_CHARACTERS :: re where "SUB_NAME_CHARACTERS = at_least 1 (Class name_chars)"
definition UNIQUE_TAG_CHARACTERS :: re where
  "UNIQUE_TAG_CHARACTERS = at_least 1 (Class (''-'' @ upper @ lower @ digits @ ''@$%&*()[]{}_.?:''))"
definition MSG_CHANNEL_TAG_CHARACTERS :: re where
  "MSG_CHANNEL_TAG_CHARACTERS = at_least 1 (Class (upper @ lower @ digits @ ''_''))"
definition VOTE_TAG_CHARACTERS :: re where "VOTE_TAG_CHARACTERS = at_least 1 (Class name_chars)"

definition QUALIFIER_NAME_CHARACTERS :: re where
  "QUALIFIER_NAME_CHARACTERS = Seq (Class ''#'') (at_least 3 (Class name_chars))"
definition SUB_QUALIFIER_NAME_CHARACTERS :: re where
  "SUB_QUALIFIER_NAME_CHARACTERS = Seq (Class ''#'') (at_least 1 (Class name_chars))"
definition RESTRICTED_NAME_CHARACTERS :: re where
  "RESTRICTED_NAME_CHARACTERS = Seq (Class ''$'') (at_least 3 (Class name_chars))"

definition DOUBLE_PUNCTUATION :: re where
  "DOUBLE_PUNCTUATION = seqs [Star any_char, at_least 2 (Class ''._''), Star any_char]"
definition LEADING_PUNCTUATION :: re where "LEADING_PUNCTUATION = Seq (Class ''._'') (Star any_char)"
definition TRAILING_PUNCTUATION :: re where "TRAILING_PUNCTUATION = Seq (Star any_char) (Class ''._'')"
definition QUALIFIER_LEADING_PUNCTUATION :: re where
  "QUALIFIER_LEADING_PUNCTUATION = seqs [Class ''#$'', Class ''._'', Star any_char]"

definition UNIQUE_INDICATOR :: re where
  "UNIQUE_INDICATOR = seqs [at_least 1 (Not_class ''^~#!''), Class ''#'', at_least 1 (Not_class ''~#!/'')]"
definition MSG_CHANNEL_INDICATOR :: re where
  "MSG_CHANNEL_INDICATOR = seqs [at_least 1 (Not_class ''^~#!''), Class ''~'', at_least 1 (Not_class ''~#!/'')]"
definition OWNER_INDICATOR :: re where
  "OWNER_INDICATOR = Seq (at_least 1 (Not_class ''^~#!'')) (Class ''!'')"
definition VOTE_INDICATOR :: re where
  "VOTE_INDICATOR = seqs [at_least 1 (Not_class ''^~#!''), Class ''^'', at_least 1 (Not_class ''~#!/'')]"

definition QUALIFIER_INDICATOR :: re where
  "QUALIFIER_INDICATOR = Seq (Class ''#'') (at_least 3 (Class name_chars))"
definition SUB_QUALIFIER_INDICATOR :: re where
  "SUB_QUALIFIER_INDICATOR =
     seqs [Class ''#'', at_least 1 (Class name_chars), Class ''/'', Class ''#'', at_least 1 (Class name_chars)]"
definition RESTRICTED_INDICATOR :: re where
  "RESTRICTED_INDICATOR = Seq (Class ''$'') (at_least 3 (Class name_chars))"

definition RAVEN_NAMES :: re where
  "RAVEN_NAMES = alts (map literal
     [''RVN'', ''RAVEN'', ''RAVENCOIN'', ''XFER'', ''XCOIN'', ''#RVN'', ''#RAVEN'', ''#RAVENCOIN'', ''#XFER'', ''#XCOIN''])"

section \<open>Parts of names\<close>

definition IsRootNameValid :: "string \<Rightarrow> bool" where
  "IsRootNameValid name \<longleftrightarrow> regex_match name ROOT_NAME_CHARACTERS \<and> \<not> regex_match name DOUBLE_PUNCTUATION \<and>
     \<not> regex_match name LEADING_PUNCTUATION \<and> \<not> regex_match name TRAILING_PUNCTUATION \<and> \<not> regex_match name RAVEN_NAMES"

definition IsQualifierNameValid :: "string \<Rightarrow> bool" where
  "IsQualifierNameValid name \<longleftrightarrow> regex_match name QUALIFIER_NAME_CHARACTERS \<and> \<not> regex_match name DOUBLE_PUNCTUATION \<and>
     \<not> regex_match name QUALIFIER_LEADING_PUNCTUATION \<and> \<not> regex_match name TRAILING_PUNCTUATION \<and>
     \<not> regex_match name RAVEN_NAMES"

definition IsRestrictedNameValid :: "string \<Rightarrow> bool" where
  "IsRestrictedNameValid name \<longleftrightarrow> regex_match name RESTRICTED_NAME_CHARACTERS \<and> \<not> regex_match name DOUBLE_PUNCTUATION \<and>
     \<not> regex_match name LEADING_PUNCTUATION \<and> \<not> regex_match name TRAILING_PUNCTUATION \<and> \<not> regex_match name RAVEN_NAMES"

definition IsSubQualifierNameValid :: "string \<Rightarrow> bool" where
  "IsSubQualifierNameValid name \<longleftrightarrow> regex_match name SUB_QUALIFIER_NAME_CHARACTERS \<and>
     \<not> regex_match name DOUBLE_PUNCTUATION \<and> \<not> regex_match name LEADING_PUNCTUATION \<and> \<not> regex_match name TRAILING_PUNCTUATION"

definition IsSubNameValid :: "string \<Rightarrow> bool" where
  "IsSubNameValid name \<longleftrightarrow> regex_match name SUB_NAME_CHARACTERS \<and> \<not> regex_match name DOUBLE_PUNCTUATION \<and>
     \<not> regex_match name LEADING_PUNCTUATION \<and> \<not> regex_match name TRAILING_PUNCTUATION"

definition IsUniqueTagValid :: "string \<Rightarrow> bool" where
  "IsUniqueTagValid tag = regex_match tag UNIQUE_TAG_CHARACTERS"

definition IsVoteTagValid :: "string \<Rightarrow> bool" where
  "IsVoteTagValid tag = regex_match tag VOTE_TAG_CHARACTERS"

definition IsMsgChannelTagValid :: "string \<Rightarrow> bool" where
  "IsMsgChannelTagValid tag \<longleftrightarrow> regex_match tag MSG_CHANNEL_TAG_CHARACTERS \<and> \<not> regex_match tag DOUBLE_PUNCTUATION \<and>
     \<not> regex_match tag LEADING_PUNCTUATION \<and> \<not> regex_match tag TRAILING_PUNCTUATION"

text \<open>\<^verbatim>\<open>boost::split\<close> at every occurrence of one character; there is always a first part.\<close>

fun split_at :: "char \<Rightarrow> string \<Rightarrow> string \<times> string list" where
  "split_at d [] = ([], [])"
| "split_at d (c # s) =
     (let (p, ps) = split_at d s in if c = d then ([], p # ps) else (c # p, ps))"

definition IsNameValidBeforeTag :: "string \<Rightarrow> bool" where
  "IsNameValidBeforeTag name =
     (let (front, rest) = split_at (CHR ''/'') name in IsRootNameValid front \<and> list_all IsSubNameValid rest)"

definition IsQualifierNameValidBeforeTag :: "string \<Rightarrow> bool" where
  "IsQualifierNameValidBeforeTag name =
     (let (front, rest) = split_at (CHR ''/'') name
      in IsQualifierNameValid front \<and> length rest \<le> 1 \<and> list_all IsSubQualifierNameValid rest)"

definition IsAssetNameASubasset :: "string \<Rightarrow> bool" where
  "IsAssetNameASubasset name = (let (front, rest) = split_at (CHR ''/'') name in IsRootNameValid front \<and> rest \<noteq> [])"

definition IsAssetNameASubQualifier :: "string \<Rightarrow> bool" where
  "IsAssetNameASubQualifier name =
     (let (front, rest) = split_at (CHR ''/'') name in IsQualifierNameValid front \<and> rest \<noteq> [])"

section \<open>Whole names\<close>

text \<open>The last part of a split.\<close>

definition split_back :: "char \<Rightarrow> string \<Rightarrow> string" where
  "split_back d name = (let (front, rest) = split_at d name in if rest = [] then front else last rest)"

definition IsTypeCheckNameValid :: "AssetType \<Rightarrow> string \<Rightarrow> bool" where
  "IsTypeCheckNameValid type name =
     (if type = UNIQUE then
        length name \<le> MAX_NAME_LENGTH \<and> IsNameValidBeforeTag (fst (split_at (CHR ''#'') name)) \<and>
        IsUniqueTagValid (split_back (CHR ''#'') name)
      else if type = MSGCHANNEL then
        length name \<le> MAX_NAME_LENGTH \<and> length (split_back (CHR ''~'') name) \<le> MAX_CHANNEL_NAME_LENGTH \<and>
        IsNameValidBeforeTag (fst (split_at (CHR ''~'') name)) \<and> IsMsgChannelTagValid (split_back (CHR ''~'') name)
      else if type = OWNER then
        length name \<le> MAX_NAME_LENGTH \<and> IsNameValidBeforeTag (butlast name)
      else if type = VOTE then
        length name \<le> MAX_NAME_LENGTH \<and> IsNameValidBeforeTag (fst (split_at (CHR ''^'') name)) \<and>
        IsVoteTagValid (split_back (CHR ''^'') name)
      else if type = QUALIFIER \<or> type = SUB_QUALIFIER then
        length name \<le> MAX_NAME_LENGTH \<and> IsQualifierNameValidBeforeTag name
      else if type = RESTRICTED then length name \<le> MAX_NAME_LENGTH \<and> IsRestrictedNameValid name
      else
        length name \<le> MAX_ROOT_NAME_LENGTH \<and> (IsAssetNameASubasset name \<or> MIN_ASSET_LENGTH \<le> length name) \<and>
        IsNameValidBeforeTag name)"

text \<open>
  The value returned and the value written to \<^verbatim>\<open>assetType\<close>; \<open>None\<close> when it is left as it was, which
  happens for names over 48 characters.
\<close>

definition IsAssetNameValid :: "string \<Rightarrow> bool \<times> AssetType option" where
  "IsAssetNameValid name =
     (let check = (\<lambda>type. let ret = IsTypeCheckNameValid type name in (ret, Some (if ret then type else INVALID)))
      in if 48 < length name then (False, None)
         else if regex_match name UNIQUE_INDICATOR then check UNIQUE
         else if regex_match name MSG_CHANNEL_INDICATOR then check MSGCHANNEL
         else if regex_match name OWNER_INDICATOR then check OWNER
         else if regex_match name VOTE_INDICATOR then check VOTE
         else if regex_match name QUALIFIER_INDICATOR then
           let ret = IsTypeCheckNameValid QUALIFIER name
           in (ret, Some (if \<not> ret then INVALID else if IsAssetNameASubQualifier name then SUB_QUALIFIER else QUALIFIER))
         else if regex_match name SUB_QUALIFIER_INDICATOR then
           let ret = IsTypeCheckNameValid SUB_QUALIFIER name
           in (ret, Some (if ret \<and> IsAssetNameASubQualifier name then SUB_QUALIFIER else INVALID))
         else if regex_match name RESTRICTED_INDICATOR then check RESTRICTED
         else check (if IsAssetNameASubasset name then SUB else ROOT))"

definition IsAssetNameARoot :: "string \<Rightarrow> bool" where
  "IsAssetNameARoot name \<longleftrightarrow> IsAssetNameValid name = (True, Some ROOT)"

definition IsAssetNameAnOwner :: "string \<Rightarrow> bool" where
  "IsAssetNameAnOwner name \<longleftrightarrow> fst (IsAssetNameValid name) \<and> regex_match name OWNER_INDICATOR"

definition IsAssetNameAnRestricted :: "string \<Rightarrow> bool" where
  "IsAssetNameAnRestricted name \<longleftrightarrow> fst (IsAssetNameValid name) \<and> regex_match name RESTRICTED_INDICATOR"

definition IsAssetNameAQualifier :: "string \<Rightarrow> bool \<Rightarrow> bool" where
  "IsAssetNameAQualifier name fOnlyQualifiers \<longleftrightarrow> fst (IsAssetNameValid name) \<and>
     (regex_match name QUALIFIER_INDICATOR \<or> \<not> fOnlyQualifiers \<and> regex_match name SUB_QUALIFIER_INDICATOR)"

definition IsAssetNameAnMsgChannel :: "string \<Rightarrow> bool" where
  "IsAssetNameAnMsgChannel name \<longleftrightarrow> fst (IsAssetNameValid name) \<and> regex_match name MSG_CHANNEL_INDICATOR"

definition RestrictedNameToOwnerName :: "string \<Rightarrow> string" where
  "RestrictedNameToOwnerName name = (if \<not> IsAssetNameAnRestricted name then [] else tl name @ OWNER_TAG)"

text \<open>\<^verbatim>\<open>name.substr(0, name.find_last_of(d))\<close>, or the name when it has no \<open>d\<close>.\<close>

definition before_last :: "char \<Rightarrow> string \<Rightarrow> string" where
  "before_last d name = (if d \<in> set name then rev (tl (dropWhile (\<lambda>c. c \<noteq> d) (rev name))) else name)"

definition GetParentName :: "string \<Rightarrow> string" where
  "GetParentName name =
     (case IsAssetNameValid name of
        (True, Some type) \<Rightarrow>
          if type = SUB \<or> type = SUB_QUALIFIER then before_last (CHR ''/'') name
          else if type = UNIQUE then before_last (CHR ''#'') name
          else if type = MSGCHANNEL then before_last (CHR ''~'') name
          else if type = VOTE then before_last (CHR ''^'') name
          else name
      | _ \<Rightarrow> [])"

definition GetUniqueAssetName :: "string \<Rightarrow> string \<Rightarrow> string" where
  "GetUniqueAssetName parent tag =
     (let unique = parent @ ''#'' @ tag in if IsAssetNameValid unique = (True, Some UNIQUE) then unique else [])"

section \<open>The shape of root names\<close>

definition punctuation :: "char \<Rightarrow> bool" where "punctuation c \<longleftrightarrow> c \<in> set ''._''"

fun double_punctuation :: "string \<Rightarrow> bool" where
  "double_punctuation (a # b # s) \<longleftrightarrow> punctuation a \<and> punctuation b \<or> double_punctuation (b # s)"
| "double_punctuation _ \<longleftrightarrow> False"

definition reserved_names :: "string list" where
  "reserved_names = [''RVN'', ''RAVEN'', ''RAVENCOIN'', ''XFER'', ''XCOIN'',
     ''#RVN'', ''#RAVEN'', ''#RAVENCOIN'', ''#XFER'', ''#XCOIN'']"

lemma double_punctuation_iff:
  "double_punctuation s \<longleftrightarrow> (\<exists>u a b w. s = u @ a # b # w \<and> punctuation a \<and> punctuation b)"
proof (induction s rule: double_punctuation.induct)
  case (1 a b s)
  show ?case
  proof
    assume "double_punctuation (a # b # s)"
    then consider "punctuation a \<and> punctuation b" | "double_punctuation (b # s)" by auto
    then show "\<exists>u x y w. a # b # s = u @ x # y # w \<and> punctuation x \<and> punctuation y"
    proof cases
      case 2
      then obtain u x y w where "b # s = u @ x # y # w" "punctuation x" "punctuation y" using 1 by auto
      then have "a # b # s = (a # u) @ x # y # w" by simp
      then show ?thesis using \<open>punctuation x\<close> \<open>punctuation y\<close> by blast
    qed (metis append_Nil)
  next
    assume "\<exists>u x y w. a # b # s = u @ x # y # w \<and> punctuation x \<and> punctuation y"
    then obtain u x y w where e: "a # b # s = u @ x # y # w" and p: "punctuation x" "punctuation y" by blast
    show "double_punctuation (a # b # s)"
    proof (cases u)
      case Nil
      with e p show ?thesis by simp
    next
      case (Cons c t)
      with e have "b # s = t @ x # y # w" by simp
      then have "double_punctuation (b # s)" using p 1 by blast
      then show ?thesis by simp
    qed
  qed
qed (auto simp: Cons_eq_append_conv)

lemma any_char_star: "re_lang (Star any_char) u \<longleftrightarrow> CHR 0x0A \<notin> set u \<and> CHR 0x0D \<notin> set u"
  by (auto simp: any_char_def star_not_class)

lemma name_chars_plain:
  "set name_chars \<inter> {CHR 0x0A, CHR 0x0D, CHR ''#'', CHR ''~'', CHR ''!'', CHR ''^'', CHR ''/'', CHR ''$''} = {}"
  by (simp add: name_chars_def upper_def digits_def)

lemma plain_name:
  assumes "set s \<subseteq> set name_chars"
  shows "CHR 0x0A \<notin> set s" "CHR 0x0D \<notin> set s" "CHR ''#'' \<notin> set s" "CHR ''~'' \<notin> set s" "CHR ''!'' \<notin> set s"
    "CHR ''^'' \<notin> set s" "CHR ''/'' \<notin> set s" "CHR ''$'' \<notin> set s"
  using assms name_chars_plain by auto

lemma double_punctuation_match:
  assumes "CHR 0x0A \<notin> set s" "CHR 0x0D \<notin> set s"
  shows "regex_match s DOUBLE_PUNCTUATION \<longleftrightarrow> double_punctuation s"
proof
  assume "regex_match s DOUBLE_PUNCTUATION"
  then obtain u v w where s: "s = u @ v @ w" and v: "2 \<le> length v" "set v \<subseteq> set ''._''"
    by (auto simp: DOUBLE_PUNCTUATION_def regex_match_lang re_lang_simps at_least_class)
  from v(1) obtain a b t where "v = a # b # t" by (cases v; cases "tl v") auto
  with s v(2) show "double_punctuation s" by (auto simp: double_punctuation_iff punctuation_def)
next
  assume "double_punctuation s"
  then obtain u a b w where s: "s = u @ a # b # w" "punctuation a" "punctuation b"
    by (auto simp: double_punctuation_iff)
  have "re_lang (seqs [Star any_char, at_least 2 (Class ''._''), Star any_char]) (u @ [a, b] @ w @ [])"
    unfolding seqs.simps using s assms
    by (intro re_lang.seq re_lang.one) (auto simp: any_char_star at_least_class punctuation_def)
  then show "regex_match s DOUBLE_PUNCTUATION" by (simp add: DOUBLE_PUNCTUATION_def regex_match_lang s)
qed

lemma edge_punctuation_match:
  assumes "CHR 0x0A \<notin> set s" "CHR 0x0D \<notin> set s" "s \<noteq> []"
  shows "regex_match s LEADING_PUNCTUATION \<longleftrightarrow> punctuation (hd s)"
    and "regex_match s TRAILING_PUNCTUATION \<longleftrightarrow> punctuation (last s)"
proof -
  show "regex_match s LEADING_PUNCTUATION \<longleftrightarrow> punctuation (hd s)"
    using assms by (cases s) (auto simp: LEADING_PUNCTUATION_def regex_match_lang seq_class any_char_star punctuation_def)
  obtain u c where "s = u @ [c]" using assms(3) by (cases s rule: rev_cases) auto
  then show "regex_match s TRAILING_PUNCTUATION \<longleftrightarrow> punctuation (last s)"
    using assms
    by (auto simp: TRAILING_PUNCTUATION_def regex_match_lang re_lang_simps any_char_star punctuation_def)
qed

lemma alts_lang: "re_lang (alts rs) u \<longleftrightarrow> (\<exists>r \<in> set rs. re_lang r u)"
  by (induction rs) (auto simp: re_lang_simps)

lemma reserved_match: "regex_match s RAVEN_NAMES \<longleftrightarrow> s \<in> set reserved_names"
  unfolding RAVEN_NAMES_def reserved_names_def regex_match_lang alts_lang
  by (simp add: literal_lang del: alts.simps)

lemma at_least_match: "regex_match s (at_least n (Class cs)) \<longleftrightarrow> n \<le> length s \<and> set s \<subseteq> set cs"
  by (simp add: regex_match_lang at_least_class)

definition tidy :: "string \<Rightarrow> bool" where
  "tidy s \<longleftrightarrow> set s \<subseteq> set name_chars \<and> \<not> double_punctuation s \<and> \<not> punctuation (hd s) \<and> \<not> punctuation (last s)"

lemma root_name_iff: "IsRootNameValid s \<longleftrightarrow> 3 \<le> length s \<and> tidy s \<and> s \<notin> set reserved_names"
proof (cases "3 \<le> length s \<and> set s \<subseteq> set name_chars")
  case True
  then have "s \<noteq> []" by auto
  with True plain_name [of s] show ?thesis
    by (simp add: IsRootNameValid_def tidy_def double_punctuation_match edge_punctuation_match reserved_match
        ROOT_NAME_CHARACTERS_def at_least_match)
next
  case False
  then show ?thesis
    by (auto simp: IsRootNameValid_def tidy_def ROOT_NAME_CHARACTERS_def regex_match_lang at_least_class)
qed

lemma sub_name_iff: "IsSubNameValid s \<longleftrightarrow> s \<noteq> [] \<and> tidy s"
proof (cases "s \<noteq> [] \<and> set s \<subseteq> set name_chars")
  case True
  with plain_name [of s] show ?thesis
    by (simp add: IsSubNameValid_def tidy_def double_punctuation_match edge_punctuation_match
        SUB_NAME_CHARACTERS_def at_least_match Suc_le_eq)
next
  case False
  then show ?thesis
    by (cases s) (auto simp: IsSubNameValid_def tidy_def SUB_NAME_CHARACTERS_def regex_match_lang at_least_class)
qed

section \<open>Owner tokens\<close>

lemma split_at_set: "split_at d s = (p, ps) \<Longrightarrow> set s \<subseteq> {d} \<union> set p \<union> \<Union> (set ` set ps)"
  by (induction s arbitrary: p ps) (force split: prod.splits if_splits)+

lemma split_at_length: "length (fst (split_at d s)) \<le> length s"
  by (induction s) (auto split: prod.splits)

lemma before_tag_name:
  assumes "IsNameValidBeforeTag s"
  shows "set s \<subseteq> insert (CHR ''/'') (set name_chars)" "3 \<le> length s"
proof -
  obtain p ps where sp: "split_at (CHR ''/'') s = (p, ps)" by (cases "split_at (CHR ''/'') s")
  with assms have p: "3 \<le> length p" "tidy p" and ps: "list_all tidy ps"
    by (auto simp: IsNameValidBeforeTag_def root_name_iff sub_name_iff list_all_iff)
  have "set p \<union> \<Union> (set ` set ps) \<subseteq> set name_chars" using p(2) ps by (auto simp: tidy_def list_all_iff)
  then show "set s \<subseteq> insert (CHR ''/'') (set name_chars)" using split_at_set [OF sp] by blast
  show "3 \<le> length s" using split_at_length [of "CHR ''/''" s] sp p(1) by simp
qed

lemma before_tag_plain:
  assumes "IsNameValidBeforeTag s"
  shows "CHR ''#'' \<notin> set s" "CHR ''~'' \<notin> set s" "CHR ''!'' \<notin> set s" "CHR ''^'' \<notin> set s" "CHR ''$'' \<notin> set s"
  using before_tag_name(1) [OF assms] name_chars_plain by auto

lemma indicator_mark:
  "regex_match s UNIQUE_INDICATOR \<Longrightarrow> CHR ''#'' \<in> set s"
  "regex_match s MSG_CHANNEL_INDICATOR \<Longrightarrow> CHR ''~'' \<in> set s"
  "regex_match s VOTE_INDICATOR \<Longrightarrow> CHR ''^'' \<in> set s"
  "regex_match s QUALIFIER_INDICATOR \<Longrightarrow> CHR ''#'' \<in> set s"
  "regex_match s SUB_QUALIFIER_INDICATOR \<Longrightarrow> CHR ''#'' \<in> set s"
  "regex_match s RESTRICTED_INDICATOR \<Longrightarrow> CHR ''$'' \<in> set s"
  by (auto simp: UNIQUE_INDICATOR_def MSG_CHANNEL_INDICATOR_def VOTE_INDICATOR_def QUALIFIER_INDICATOR_def
      SUB_QUALIFIER_INDICATOR_def RESTRICTED_INDICATOR_def regex_match_lang re_lang_simps)

lemma owner_indicator:
  "regex_match s OWNER_INDICATOR \<longleftrightarrow> (\<exists>n. s = n @ OWNER_TAG \<and> n \<noteq> [] \<and> set n \<inter> set ''^~#!'' = {})"
  by (auto simp: OWNER_INDICATOR_def regex_match_lang re_lang_simps at_least_not_class Suc_le_eq)

lemma owner_name_iff:
  "IsAssetNameValid s = (True, Some OWNER) \<longleftrightarrow>
     (\<exists>n. s = n @ OWNER_TAG \<and> IsNameValidBeforeTag n \<and> length n \<le> MAX_ROOT_NAME_LENGTH)"
proof
  assume "IsAssetNameValid s = (True, Some OWNER)"
  then have "regex_match s OWNER_INDICATOR" and t: "IsTypeCheckNameValid OWNER s"
    unfolding IsAssetNameValid_def Let_def by (auto split: if_splits)
  then obtain n where "s = n @ OWNER_TAG" by (auto simp: owner_indicator)
  with t show "\<exists>n. s = n @ OWNER_TAG \<and> IsNameValidBeforeTag n \<and> length n \<le> MAX_ROOT_NAME_LENGTH"
    by (auto simp: IsTypeCheckNameValid_def)
next
  assume "\<exists>n. s = n @ OWNER_TAG \<and> IsNameValidBeforeTag n \<and> length n \<le> MAX_ROOT_NAME_LENGTH"
  then obtain n where s: "s = n @ OWNER_TAG" and n: "IsNameValidBeforeTag n" "length n \<le> 32" by blast
  note plain = before_tag_plain [OF n(1)]
  have "CHR ''#'' \<notin> set s" "CHR ''~'' \<notin> set s" using plain s by auto
  then have not: "\<not> regex_match s UNIQUE_INDICATOR" "\<not> regex_match s MSG_CHANNEL_INDICATOR"
    using indicator_mark(1,2) by blast+
  have "n \<noteq> []" using before_tag_name(2) [OF n(1)] by auto
  then have "regex_match s OWNER_INDICATOR" using plain by (auto simp: owner_indicator s)
  moreover have "IsTypeCheckNameValid OWNER s" using n by (simp add: IsTypeCheckNameValid_def s)
  ultimately show "IsAssetNameValid s = (True, Some OWNER)"
    unfolding IsAssetNameValid_def Let_def using not n(2) by (simp add: s)
qed

lemma ordinary_name_iff:
  "(IsAssetNameValid s = (True, Some ROOT) \<or> IsAssetNameValid s = (True, Some SUB)) \<longleftrightarrow>
     IsNameValidBeforeTag s \<and> length s \<le> MAX_ROOT_NAME_LENGTH"
proof
  assume "IsAssetNameValid s = (True, Some ROOT) \<or> IsAssetNameValid s = (True, Some SUB)"
  then have "IsTypeCheckNameValid ROOT s \<or> IsTypeCheckNameValid SUB s"
    unfolding IsAssetNameValid_def Let_def by (auto split: if_splits)
  then show "IsNameValidBeforeTag s \<and> length s \<le> MAX_ROOT_NAME_LENGTH" by (auto simp: IsTypeCheckNameValid_def)
next
  assume s: "IsNameValidBeforeTag s \<and> length s \<le> MAX_ROOT_NAME_LENGTH"
  then have n: "IsNameValidBeforeTag s" by simp
  have "\<not> regex_match s OWNER_INDICATOR" using before_tag_plain(3) [OF n] by (auto simp: owner_indicator)
  moreover have "\<not> regex_match s r" if "r \<in> {UNIQUE_INDICATOR, MSG_CHANNEL_INDICATOR, VOTE_INDICATOR,
      QUALIFIER_INDICATOR, SUB_QUALIFIER_INDICATOR, RESTRICTED_INDICATOR}" for r
    using that indicator_mark [of s] before_tag_plain [OF n] by blast
  moreover have "IsTypeCheckNameValid t s" if "t \<in> {ROOT, SUB}" for t
    using that s before_tag_name(2) [OF n] by (auto simp: IsTypeCheckNameValid_def)
  ultimately show "IsAssetNameValid s = (True, Some ROOT) \<or> IsAssetNameValid s = (True, Some SUB)"
    unfolding IsAssetNameValid_def Let_def using s by simp
qed

lemma split_at_none: "d \<notin> set s \<Longrightarrow> split_at d s = (s, [])"
  by (induction s) auto

lemma split_at_one: "split_at d s = (p, []) \<Longrightarrow> p = s"
  by (induction s arbitrary: p) (auto split: prod.splits if_splits)

lemma root_kind_iff: "IsAssetNameARoot s \<longleftrightarrow> IsRootNameValid s \<and> length s \<le> MAX_ROOT_NAME_LENGTH"
proof
  assume "IsAssetNameARoot s"
  then have v: "IsAssetNameValid s = (True, Some ROOT)" by (simp add: IsAssetNameARoot_def)
  then have b: "IsNameValidBeforeTag s" "length s \<le> MAX_ROOT_NAME_LENGTH" using ordinary_name_iff by blast+
  have "\<not> IsAssetNameASubasset s" using v unfolding IsAssetNameValid_def Let_def by (auto split: if_splits)
  with b(1) have "snd (split_at (CHR ''/'') s) = []" "IsRootNameValid (fst (split_at (CHR ''/'') s))"
    by (auto simp: IsNameValidBeforeTag_def IsAssetNameASubasset_def split: prod.splits)
  with b(2) show "IsRootNameValid s \<and> length s \<le> MAX_ROOT_NAME_LENGTH"
    by (metis split_at_one prod.collapse)
next
  assume a: "IsRootNameValid s \<and> length s \<le> MAX_ROOT_NAME_LENGTH"
  then have "set s \<subseteq> set name_chars" by (simp add: root_name_iff tidy_def)
  then have sp: "split_at (CHR ''/'') s = (s, [])" using plain_name by (simp add: split_at_none)
  then have "IsNameValidBeforeTag s" and n: "\<not> IsAssetNameASubasset s"
    using a by (simp_all add: IsNameValidBeforeTag_def IsAssetNameASubasset_def)
  with a ordinary_name_iff consider "IsAssetNameValid s = (True, Some ROOT)" | "IsAssetNameValid s = (True, Some SUB)"
    by blast
  then show "IsAssetNameARoot s"
  proof cases
    case 2
    with n show ?thesis unfolding IsAssetNameValid_def Let_def by (auto split: if_splits)
  qed (simp add: IsAssetNameARoot_def)
qed

text \<open>
  An owner token belongs to exactly one root or sub asset, and every root and sub asset has one:
  the valid owner names are the valid root and sub names with \<^verbatim>\<open>!\<close> behind.
\<close>

theorem owner_tokens_match:
  "IsAssetNameValid s = (True, Some OWNER) \<longleftrightarrow>
     (\<exists>!n. s = n @ OWNER_TAG \<and> (IsAssetNameValid n = (True, Some ROOT) \<or> IsAssetNameValid n = (True, Some SUB)))"
  unfolding owner_name_iff ordinary_name_iff by blast

end
