(* ===== verification/XC_RootName.thy ===== *)
theory XC_RootName
  imports XC_AssetName
begin

text \<open>
  The root asset of an X account (\<^verbatim>\<open>src/src/assets/xaccount.cpp\<close>): how a handle becomes a root name.
\<close>

section \<open>From handle to name\<close>

text \<open>\<open>prev\<close> is the last character kept; the loop starts with character 0.\<close>

fun collapse_from :: "char \<Rightarrow> string \<Rightarrow> string" where
  "collapse_from prev [] = []"
| "collapse_from prev (c # s) =
     (if c = CHR ''_'' \<and> prev = CHR ''_'' then collapse_from prev s else c # collapse_from c s)"

definition CollapseUnderscores :: "string \<Rightarrow> string" where
  "CollapseUnderscores inp = collapse_from (CHR 0x00) inp"

definition char_in :: "char \<Rightarrow> char \<Rightarrow> char \<Rightarrow> bool" where
  "char_in lo hi c \<longleftrightarrow> lo \<le> c \<and> c \<le> hi"

definition root_char :: "char \<Rightarrow> char option" where
  "root_char c =
     (if char_in (CHR ''a'') (CHR ''z'') c then Some (char_of ((of_char c :: nat) - 97 + 65))
      else if char_in (CHR ''A'') (CHR ''Z'') c \<or> char_in (CHR ''0'') (CHR ''9'') c \<or> c = CHR ''_'' then Some c
      else None)"

fun root_chars :: "string \<Rightarrow> string option" where
  "root_chars [] = Some []"
| "root_chars (c # s) =
     (case root_char c of None \<Rightarrow> None
      | Some d \<Rightarrow> (case root_chars s of None \<Rightarrow> None | Some out \<Rightarrow> Some (d # out)))"

definition replace_front :: "string \<Rightarrow> string" where
  "replace_front out = (if out \<noteq> [] \<and> hd out = CHR ''_'' then CHR ''X'' # tl out else out)"

definition replace_back :: "string \<Rightarrow> string" where
  "replace_back out = (if out \<noteq> [] \<and> last out = CHR ''_'' then butlast out @ [CHR ''X''] else out)"

definition pad_front :: "string \<Rightarrow> string" where
  "pad_front out = replicate (MIN_ASSET_LENGTH - length out) (CHR ''X'') @ out"

text \<open>The name before the two checks at the end of \<^verbatim>\<open>MapXHandleToRootName\<close>.\<close>

definition root_text :: "string \<Rightarrow> string" where
  "root_text out = pad_front (CollapseUnderscores (replace_back (replace_front (CollapseUnderscores out))))"

datatype root_error = bad_character | root_too_long | not_a_root

definition MapXHandleToRootName :: "string \<Rightarrow> root_error + string" where
  "MapXHandleToRootName hnd =
     (case root_chars hnd of None \<Rightarrow> Inl bad_character
      | Some out \<Rightarrow>
          let name = root_text out
          in if MAX_ROOT_NAME_LENGTH < length name then Inl root_too_long
             else if \<not> IsAssetNameARoot name then Inl not_a_root
             else Inr name)"

section \<open>A name that is free\<close>

function decimal :: "nat \<Rightarrow> string" where
  "decimal n = (if n < 10 then [char_of (48 + n)] else decimal (n div 10) @ [char_of (48 + n mod 10)])"
  by pat_completeness auto
termination
  by (relation "measure (\<lambda>n. n)") auto

declare decimal.simps [simp del]

datatype derive_error = bad_account spec_error | bad_handle root_error | no_free_name

definition suffixes :: "u64 \<Rightarrow> string list" where
  "suffixes uid = (if uid \<noteq> 0 then [decimal (unat uid)] else []) @ map decimal [2..<10000]"

text \<open>\<open>NameTaken\<close> asks the asset caches and the mempool.\<close>

definition tryName :: "(string \<Rightarrow> bool) \<Rightarrow> string \<Rightarrow> bool" where
  "tryName NameTaken n \<longleftrightarrow>
     MIN_ASSET_LENGTH \<le> length n \<and> length n \<le> MAX_ROOT_NAME_LENGTH \<and> IsAssetNameARoot n \<and> \<not> NameTaken n"

fun try_suffixes :: "(string \<Rightarrow> bool) \<Rightarrow> string \<Rightarrow> string list \<Rightarrow> string option" where
  "try_suffixes NameTaken base [] = None"
| "try_suffixes NameTaken base (suf # sufs) =
     (if MAX_ROOT_NAME_LENGTH < length base + 1 + length suf then try_suffixes NameTaken base sufs
      else if tryName NameTaken (base @ ''_'' @ suf) then Some (base @ ''_'' @ suf)
      else try_suffixes NameTaken base sufs)"

definition DeriveMainAssetName :: "(string \<Rightarrow> bool) \<Rightarrow> string \<Rightarrow> derive_error + string" where
  "DeriveMainAssetName NameTaken xHandleOrId =
     (case ParseXAccountSpec xHandleOrId of Inl e \<Rightarrow> Inl (bad_account e)
      | Inr acc \<Rightarrow>
          case MapXHandleToRootName (handle acc) of Inl e \<Rightarrow> Inl (bad_handle e)
          | Inr base \<Rightarrow>
              if tryName NameTaken base then Inr base
              else (case try_suffixes NameTaken base (suffixes (userId acc)) of
                      None \<Rightarrow> Inl no_free_name | Some n \<Rightarrow> Inr n))"

section \<open>Every handle has a name, save the reserved ones\<close>

definition root_alphabet :: string where "root_alphabet = upper @ digits @ ''_''"

lemma collapse_set: "set (collapse_from p s) \<subseteq> set s"
  by (induction p s rule: collapse_from.induct) auto

lemma collapse_length: "length (collapse_from p s) \<le> length s"
  by (induction p s rule: collapse_from.induct) auto

fun doubled :: "string \<Rightarrow> bool" where
  "doubled (a # b # s) \<longleftrightarrow> a = CHR ''_'' \<and> b = CHR ''_'' \<or> doubled (b # s)"
| "doubled _ \<longleftrightarrow> False"

lemma collapse_doubled: "\<not> doubled (collapse_from p s) \<and> (p = CHR ''_'' \<longrightarrow> collapse_from p s = [] \<or> hd (collapse_from p s) \<noteq> CHR ''_'')"
proof (induction p s rule: collapse_from.induct)
  case (2 prev c s)
  then show ?case by (cases "collapse_from c s") auto
qed simp

lemma double_punctuation_doubled:
  assumes "set s \<subseteq> set root_alphabet"
  shows "double_punctuation s \<longleftrightarrow> doubled s"
  using assms
  by (induction s rule: doubled.induct) (auto simp: punctuation_def root_alphabet_def upper_def digits_def)

lemma collapse_hd: "s \<noteq> [] \<Longrightarrow> CollapseUnderscores s \<noteq> [] \<and> hd (CollapseUnderscores s) = hd s"
  by (cases s) (auto simp: CollapseUnderscores_def)

lemma collapse_last: "s \<noteq> [] \<Longrightarrow> last s \<noteq> CHR ''_'' \<Longrightarrow> collapse_from p s \<noteq> [] \<and> last (collapse_from p s) = last s"
  by (induction p s rule: collapse_from.induct) (auto split: if_splits)

lemma doubled_Cons: "c \<noteq> CHR ''_'' \<Longrightarrow> doubled (c # s) = doubled s"
  by (cases s) auto

lemma doubled_tl: "\<not> doubled s \<Longrightarrow> \<not> doubled (tl s)"
  by (induction s rule: doubled.induct) auto

lemma replace_front_edges:
  assumes "s \<noteq> []"
  shows "replace_front s \<noteq> []" "hd (replace_front s) \<noteq> CHR ''_''" "set (replace_front s) \<subseteq> insert (CHR ''X'') (set s)"
    "length (replace_front s) = length s"
  using assms by (cases s; auto simp: replace_front_def)+

lemma replace_back_edges:
  assumes "s \<noteq> []" "hd s \<noteq> CHR ''_''"
  shows "replace_back s \<noteq> []" "hd (replace_back s) \<noteq> CHR ''_''" "last (replace_back s) \<noteq> CHR ''_''"
    "set (replace_back s) \<subseteq> insert (CHR ''X'') (set s)" "length (replace_back s) = length s"
  using assms by (cases s rule: rev_cases; cases "butlast s"; auto simp: replace_back_def hd_append)+

lemma doubled_pad: "doubled (replicate n (CHR ''X'') @ s) = doubled s"
  by (induction n) (auto simp: doubled_Cons)

lemma pad_front_edges:
  assumes "s \<noteq> [] \<Longrightarrow> hd s \<noteq> CHR ''_'' \<and> last s \<noteq> CHR ''_''"
  shows "hd (pad_front s) \<noteq> CHR ''_''" "last (pad_front s) \<noteq> CHR ''_''" "3 \<le> length (pad_front s)"
  using assms by (cases "s = []"; cases "3 - length s"; auto simp: pad_front_def hd_append last_append)+

lemma replaced_edges:
  defines "b \<equiv> \<lambda>a. replace_back (replace_front a)"
  shows "length (b a) = length a" "set (b a) \<subseteq> insert (CHR ''X'') (set a)"
    "b a \<noteq> [] \<Longrightarrow> hd (b a) \<noteq> CHR ''_'' \<and> last (b a) \<noteq> CHR ''_''"
proof -
  have "length (b a) = length a \<and> set (b a) \<subseteq> insert (CHR ''X'') (set a) \<and>
      (b a \<noteq> [] \<longrightarrow> hd (b a) \<noteq> CHR ''_'' \<and> last (b a) \<noteq> CHR ''_'')"
  proof (cases "a = []")
    case True
    then show ?thesis by (simp add: b_def replace_front_def replace_back_def)
  next
    case False
    note f = replace_front_edges [OF False]
    note e = replace_back_edges [OF f(1,2)]
    have "set (b a) \<subseteq> insert (CHR ''X'') (set a)" unfolding b_def using e(4) f(3) by blast
    with e(2,3,5) f(4) show ?thesis unfolding b_def by simp
  qed
  then show "length (b a) = length a" "set (b a) \<subseteq> insert (CHR ''X'') (set a)"
    "b a \<noteq> [] \<Longrightarrow> hd (b a) \<noteq> CHR ''_'' \<and> last (b a) \<noteq> CHR ''_''" by blast+
qed

lemma collapse_edges:
  assumes "b \<noteq> [] \<Longrightarrow> hd b \<noteq> CHR ''_'' \<and> last b \<noteq> CHR ''_''"
  shows "CollapseUnderscores b \<noteq> [] \<Longrightarrow>
    hd (CollapseUnderscores b) \<noteq> CHR ''_'' \<and> last (CollapseUnderscores b) \<noteq> CHR ''_''"
  using assms collapse_hd [of b] collapse_last [of b "CHR 0x00"] by (cases "b = []") (auto simp: CollapseUnderscores_def)

lemma X_root_alphabet: "CHR ''X'' \<in> set root_alphabet"
  by (simp add: root_alphabet_def upper_def)

lemma root_alphabet_punctuation: "x \<in> set root_alphabet \<Longrightarrow> punctuation x \<Longrightarrow> x = CHR ''_''"
  by (auto simp: punctuation_def root_alphabet_def upper_def digits_def)

lemma root_text_tidy:
  assumes "set out \<subseteq> set root_alphabet" "length out \<le> MAX_ROOT_NAME_LENGTH"
  shows "3 \<le> length (root_text out)" "length (root_text out) \<le> MAX_ROOT_NAME_LENGTH" "tidy (root_text out)"
proof -
  define a where "a = CollapseUnderscores out"
  define c where "c = CollapseUnderscores (replace_back (replace_front a))"
  have r: "root_text out = pad_front c" by (simp add: root_text_def a_def c_def)
  have a: "length a \<le> length out" "set a \<subseteq> set out"
    using collapse_length collapse_set by (auto simp: a_def CollapseUnderscores_def)
  note b = replaced_edges [of a]
  have c: "length c \<le> length out" "set c \<subseteq> insert (CHR ''X'') (set out)" "\<not> doubled c"
    using a b(1,2) collapse_length [of "CHR 0x00" "replace_back (replace_front a)"]
      collapse_set [of "CHR 0x00" "replace_back (replace_front a)"]
      collapse_doubled [of "CHR 0x00" "replace_back (replace_front a)"]
    unfolding c_def CollapseUnderscores_def by (linarith, blast, blast)
  have c4: "c \<noteq> [] \<Longrightarrow> hd c \<noteq> CHR ''_'' \<and> last c \<noteq> CHR ''_''"
    unfolding c_def by (rule collapse_edges [OF b(3)])
  note edges = pad_front_edges [of c, OF c4]
  show "3 \<le> length (root_text out)" using edges(3) by (simp add: r)
  show "length (root_text out) \<le> MAX_ROOT_NAME_LENGTH" using c(1) assms(2) by (auto simp: r pad_front_def)
  have alpha: "set (pad_front c) \<subseteq> set root_alphabet"
    unfolding pad_front_def using c(2) assms(1) X_root_alphabet by (auto simp del: set_replicate)
  have "pad_front c \<noteq> []" using edges(3) by auto
  with alpha have "hd (pad_front c) \<in> set root_alphabet" "last (pad_front c) \<in> set root_alphabet" by auto
  with root_alphabet_punctuation edges have "\<not> punctuation (hd (pad_front c))" "\<not> punctuation (last (pad_front c))"
    by blast+
  moreover have "set (pad_front c) \<subseteq> set name_chars" using alpha by (auto simp: root_alphabet_def name_chars_def)
  moreover have "\<not> double_punctuation (pad_front c)"
    using c(3) by (simp add: double_punctuation_doubled [OF alpha]) (simp add: pad_front_def doubled_pad)
  ultimately show "tidy (root_text out)" by (simp add: tidy_def r)
qed

lemma upper_codes: "upper = map char_of [65..<91 :: nat]" and digits_codes: "digits = map char_of [48..<58 :: nat]"
  by (code_simp, code_simp)

lemma upper_iff: "c \<in> set upper \<longleftrightarrow> char_in (CHR ''A'') (CHR ''Z'') c"
  and digits_iff: "c \<in> set digits \<longleftrightarrow> char_in (CHR ''0'') (CHR ''9'') c"
proof -
  have r: "c \<in> set (map char_of [m..<n]) \<longleftrightarrow> m \<le> of_char c \<and> of_char c < n" if "n \<le> 256" for m n :: nat and c
  proof
    assume "c \<in> set (map char_of [m..<n])"
    then show "m \<le> of_char c \<and> of_char c < n" using that by (auto simp: of_char_of)
  next
    assume "m \<le> of_char c \<and> of_char c < n"
    then have "of_char c \<in> set [m..<n]" by simp
    then have "char_of (of_char c :: nat) \<in> char_of ` set [m..<n]" by blast
    then show "c \<in> set (map char_of [m..<n])" by simp
  qed
  show "c \<in> set upper \<longleftrightarrow> char_in (CHR ''A'') (CHR ''Z'') c"
    unfolding upper_codes by (subst r) (auto simp: char_in_def less_eq_char_def)
  show "c \<in> set digits \<longleftrightarrow> char_in (CHR ''0'') (CHR ''9'') c"
    unfolding digits_codes by (subst r) (auto simp: char_in_def less_eq_char_def)
qed

lemma root_char_alphabet: "root_char c = Some d \<Longrightarrow> d \<in> set root_alphabet"
  by (auto simp: root_char_def root_alphabet_def upper_iff digits_iff char_in_def less_eq_char_def of_char_of split: if_splits)

lemma root_chars_alphabet: "root_chars s = Some out \<Longrightarrow> set out \<subseteq> set root_alphabet \<and> length out = length s"
  by (induction s arbitrary: out) (auto split: option.splits dest: root_char_alphabet)

lemma handle_char_root: "handle_char c \<Longrightarrow> \<exists>d. root_char c = Some d"
  by (auto simp: handle_char_def root_char_def char_in_def)

lemma root_chars_handle: "list_all handle_char s \<Longrightarrow> \<exists>out. root_chars s = Some out"
  by (induction s) (auto dest!: handle_char_root)

lemma root_text_kind:
  assumes "root_chars hnd = Some out" "length hnd \<le> MAX_ROOT_NAME_LENGTH"
  shows "length (root_text out) \<le> MAX_ROOT_NAME_LENGTH"
    and "IsAssetNameARoot (root_text out) \<longleftrightarrow> root_text out \<notin> set reserved_names"
  using root_text_tidy [of out] root_chars_alphabet [OF assms(1)] assms(2)
  by (simp_all add: root_kind_iff root_name_iff)

lemma MapXHandleToRootName_eq:
  assumes "root_chars hnd = Some out" "length hnd \<le> MAX_ROOT_NAME_LENGTH"
  shows "MapXHandleToRootName hnd = (if root_text out \<in> set reserved_names then Inl not_a_root else Inr (root_text out))"
  using root_text_kind [OF assms] by (simp add: MapXHandleToRootName_def assms(1))

lemma handle_maps:
  assumes "valid_handle hnd"
  defines "base \<equiv> root_text (the (root_chars hnd))"
  shows "MapXHandleToRootName hnd =
    (if base \<in> {''RVN'', ''RAVEN'', ''RAVENCOIN'', ''XFER'', ''XCOIN''} then Inl not_a_root else Inr base)"
proof -
  obtain out where out: "root_chars hnd = Some out"
    using assms(1) root_chars_handle by (auto simp: valid_handle_def)
  have l: "length hnd \<le> MAX_ROOT_NAME_LENGTH" using assms(1) by (simp add: valid_handle_def)
  have "tidy (root_text out)" using root_text_tidy [of out] root_chars_alphabet [OF out] l by simp
  then have "CHR ''#'' \<notin> set (root_text out)" using plain_name by (simp add: tidy_def)
  then have "root_text out \<in> set reserved_names \<longleftrightarrow> root_text out \<in> {''RVN'', ''RAVEN'', ''RAVENCOIN'', ''XFER'', ''XCOIN''}"
    by (auto simp: reserved_names_def)
  with MapXHandleToRootName_eq [OF out l] show ?thesis by (simp add: base_def out)
qed

section \<open>The derived name is free\<close>

definition candidates :: "string \<Rightarrow> u64 \<Rightarrow> string list" where
  "candidates base uid = base # map (\<lambda>suf. base @ ''_'' @ suf)
     (filter (\<lambda>suf. length base + 1 + length suf \<le> MAX_ROOT_NAME_LENGTH) (suffixes uid))"

lemma double_punctuation_append:
  "\<not> double_punctuation a \<Longrightarrow> a = [] \<or> \<not> punctuation (last a) \<Longrightarrow> \<not> double_punctuation b \<Longrightarrow> \<not> double_punctuation (a @ b)"
proof (induction a)
  case (Cons c a)
  show ?case
  proof (cases a)
    case Nil
    then show ?thesis using Cons.prems by (cases b) auto
  qed (use Cons in auto)
qed simp

lemma decimal_digits: "set (decimal n) \<subseteq> set digits" "decimal n \<noteq> []"
proof -
  have d: "char_of (48 + k) \<in> set digits" if "k < 10" for k :: nat
    using that by (simp add: digits_iff char_in_def less_eq_char_def)
  show "set (decimal n) \<subseteq> set digits" "decimal n \<noteq> []"
    by (induction n rule: decimal.induct) (subst decimal.simps; simp add: d)+
qed

lemma digits_tidy: "set d \<subseteq> set digits \<Longrightarrow> \<not> double_punctuation d \<and> (\<forall>c \<in> set d. \<not> punctuation c)"
proof -
  have p: "\<not> punctuation c" if "c \<in> set digits" for c
    using that by (auto simp: digits_def punctuation_def)
  show "set d \<subseteq> set digits \<Longrightarrow> \<not> double_punctuation d \<and> (\<forall>c \<in> set d. \<not> punctuation c)"
    by (induction d rule: double_punctuation.induct) (auto dest: p)
qed

lemma reserved_no_underscore: "n \<in> set reserved_names \<Longrightarrow> CHR ''_'' \<notin> set n"
  by (auto simp: reserved_names_def)

lemma suffixed_name:
  assumes "tidy base" "3 \<le> length base" "set d \<subseteq> set digits" "d \<noteq> []" "length base + 1 + length d \<le> MAX_ROOT_NAME_LENGTH"
  shows "IsAssetNameARoot (base @ ''_'' @ d)"
proof -
  obtain c ds where d: "d = c # ds" using assms(4) by (cases d) auto
  note t = digits_tidy [OF assms(3)]
  have "\<not> punctuation c" using t d by simp
  then have "\<not> double_punctuation (''_'' @ d)" using t by (simp add: d)
  moreover have "base \<noteq> []" using assms(2) by auto
  ultimately have dp: "\<not> double_punctuation (base @ ''_'' @ d)"
    using assms(1) double_punctuation_append [of base "''_'' @ d"] unfolding tidy_def by blast
  have "\<not> punctuation (last d)" using t assms(4) by simp
  moreover have "set d \<subseteq> set name_chars" "CHR ''_'' \<in> set name_chars"
    using assms(3) by (auto simp: name_chars_def)
  ultimately have "tidy (base @ ''_'' @ d)"
    unfolding tidy_def using assms(1,4) \<open>base \<noteq> []\<close> dp by (simp add: tidy_def)
  moreover have "base @ ''_'' @ d \<notin> set reserved_names" using reserved_no_underscore [of "base @ ''_'' @ d"] by auto
  moreover have "3 \<le> length (base @ ''_'' @ d)" "length (base @ ''_'' @ d) \<le> MAX_ROOT_NAME_LENGTH"
    using assms(2,5) by simp_all
  ultimately show ?thesis unfolding root_kind_iff root_name_iff by blast
qed

lemma try_suffixes_find:
  assumes "tidy base" "3 \<le> length base" "\<forall>d \<in> set ds. set d \<subseteq> set digits \<and> d \<noteq> []"
  shows "try_suffixes T base ds = find (\<lambda>n. \<not> T n) (map (\<lambda>suf. base @ ''_'' @ suf)
    (filter (\<lambda>suf. length base + 1 + length suf \<le> MAX_ROOT_NAME_LENGTH) ds))"
  using assms(3)
proof (induction ds)
  case (Cons d ds)
  then show ?case
    using suffixed_name [OF assms(1,2), of d] assms(2) by (auto simp: tryName_def)
qed simp

lemma mapped_name:
  assumes "MapXHandleToRootName hnd = Inr base"
  shows "IsAssetNameARoot base" "tidy base" "3 \<le> length base" "length base \<le> MAX_ROOT_NAME_LENGTH"
proof -
  show "IsAssetNameARoot base"
    using assms by (auto simp: MapXHandleToRootName_def Let_def split: option.splits if_splits)
  then show "tidy base" "3 \<le> length base" "length base \<le> MAX_ROOT_NAME_LENGTH"
    by (simp_all add: root_kind_iff root_name_iff)
qed

lemma derived_name_first_free:
  assumes "ParseXAccountSpec x = Inr acc" "MapXHandleToRootName (handle acc) = Inr base"
  shows "DeriveMainAssetName NameTaken x =
      (case find (\<lambda>n. \<not> NameTaken n) (candidates base (userId acc)) of
         None \<Rightarrow> Inl no_free_name | Some n \<Rightarrow> Inr n)"
    and "list_all (\<lambda>n. IsAssetNameARoot n \<and> length n \<le> MAX_ROOT_NAME_LENGTH) (candidates base (userId acc))"
proof -
  note b = mapped_name [OF assms(2)]
  have d: "\<forall>d \<in> set (suffixes (userId acc)). set d \<subseteq> set digits \<and> d \<noteq> []"
    unfolding suffixes_def using decimal_digits by (auto simp del: upt_rec_numeral)
  show "DeriveMainAssetName NameTaken x =
      (case find (\<lambda>n. \<not> NameTaken n) (candidates base (userId acc)) of None \<Rightarrow> Inl no_free_name | Some n \<Rightarrow> Inr n)"
    using b try_suffixes_find [OF b(2,3) d, of NameTaken]
    by (simp add: DeriveMainAssetName_def assms candidates_def tryName_def)
  show "list_all (\<lambda>n. IsAssetNameARoot n \<and> length n \<le> MAX_ROOT_NAME_LENGTH) (candidates base (userId acc))"
    using b suffixed_name [OF b(2,3)] d by (auto simp: candidates_def list_all_iff)
qed

lemma spec_valid_handle: "ParseXAccountSpec x = Inr acc \<Longrightarrow> valid_handle (handle acc)"
  using NormalizeXHandle_valid by (auto simp: ParseXAccountSpec_def Let_def split: sum.splits if_splits option.splits)

text \<open>
  C33. The root name of an account. For every account that parses, the derived root is the first free one among the
  mapped handle and the mapped handle with \<^verbatim>\<open>_\<close> and the user id, 2, 3 and so on, as far as they fit into 32 characters;
  each of these is a valid root name, so that the derivation fails only when all of them are taken. The five handles
  that map to a reserved name are the exception: \<^verbatim>\<open>MapXHandleToRootName\<close> refuses them before a suffix is tried, and the
  derivation fails whatever is taken, where \<^verbatim>\<open>docs/ASSETS.md\<close> announces a suffix for a name that is \<^verbatim>\<open>taken (or reserved)\<close>.
\<close>

theorem handle_root_name:
  assumes "ParseXAccountSpec x = Inr acc"
  shows "let base = root_text (the (root_chars (handle acc)))
    in if base \<in> {''RVN'', ''RAVEN'', ''RAVENCOIN'', ''XFER'', ''XCOIN''}
       then DeriveMainAssetName NameTaken x = Inl (bad_handle not_a_root)
       else DeriveMainAssetName NameTaken x =
           (case find (\<lambda>n. \<not> NameTaken n) (candidates base (userId acc)) of None \<Rightarrow> Inl no_free_name | Some n \<Rightarrow> Inr n) \<and>
         list_all (\<lambda>n. IsAssetNameARoot n \<and> length n \<le> MAX_ROOT_NAME_LENGTH) (candidates base (userId acc))"
proof -
  note m = handle_maps [OF spec_valid_handle [OF assms]]
  show ?thesis
  proof (cases "root_text (the (root_chars (handle acc))) \<in> {''RVN'', ''RAVEN'', ''RAVENCOIN'', ''XFER'', ''XCOIN''}")
    case True
    with m show ?thesis by (simp add: Let_def DeriveMainAssetName_def assms)
  next
    case False
    with m have "MapXHandleToRootName (handle acc) = Inr (root_text (the (root_chars (handle acc))))" by simp
    with False derived_name_first_free [OF assms this] show ?thesis by (simp only: Let_def if_False)
  qed
qed

theorem handle_root_name_witness:
  "DeriveMainAssetName (\<lambda>n. n \<in> {''ALICE'', ''ALICE_77''}) ''@Alice:77'' = Inr ''ALICE_2'' \<and> IsAssetNameARoot ''ALICE_77'' \<and>
   DeriveMainAssetName (\<lambda>n. False) ''xfer:77'' = Inl (bad_handle not_a_root)"
proof -
  let ?acc = "\<lparr>handle = ''alice'', userId = 77\<rparr> :: XAccount" and ?xfer = "\<lparr>handle = ''xfer'', userId = 77\<rparr> :: XAccount"
  have p: "ParseXAccountSpec ''@Alice:77'' = Inr ?acc" "ParseXAccountSpec ''xfer:77'' = Inr ?xfer"
    by (simp_all add: ParseXAccountSpec_def TrimCopy_def isspace_def NormalizeXHandle_def handle_char_def fold_case_def
        less_eq_char_def char_of_eq_iff digit_def stoull_def decimal_value_def digit_value_def)
  have c: "root_chars ''alice'' = Some ''ALICE''" "root_chars ''xfer'' = Some ''XFER''"
    by (simp_all add: root_char_def char_in_def less_eq_char_def char_of_eq_iff)
  have r: "root_text ''ALICE'' = ''ALICE''" "root_text ''XFER'' = ''XFER''"
    by (simp_all add: root_text_def pad_front_def CollapseUnderscores_def replace_front_def replace_back_def)
  have dec: "decimal 77 = ''77''" "decimal 2 = ''2''"
    by (simp_all add: decimal.simps char_of_eq_iff)
  have u: "[2..<10000] = 2 # [3..<10000 :: nat]"
    using upt_conv_Cons [of 2 10000] by (simp del: upt_rec_numeral)
  show ?thesis
    using handle_root_name [OF p(1), of "\<lambda>n. n \<in> {''ALICE'', ''ALICE_77''}"] handle_root_name [OF p(2), of "\<lambda>n. False"]
    by (simp add: Let_def candidates_def suffixes_def dec u c r del: upt_rec_numeral root_chars.simps)
qed

end
