(* ===== verification/XC_Base58.thy ===== *)
theory XC_Base58
  imports XC_Handle XC_Standard
begin

text \<open>
  \<^verbatim>\<open>src/src/base58.cpp\<close>: the base-58 encoding of byte strings, its form with a checksum, and the
  addresses built on it. The conversion between bases runs in a buffer whose size is estimated in
  advance; a too small buffer would trip the assertion on the carry, which is \<open>None\<close> here.
\<close>

section \<open>The conversion loop\<close>

text \<open>
  \<^verbatim>\<open>for (it = b.rbegin(); (carry != 0 || i < length) && it != b.rend(); ++it, ++i)\<close>, on the
  buffer in the order of the reverse iterator. It yields the buffer, the carry and \<open>i\<close>.
\<close>

fun carry_loop :: "nat \<Rightarrow> nat \<Rightarrow> nat \<Rightarrow> nat \<Rightarrow> nat \<Rightarrow> nat list \<Rightarrow> nat list \<times> nat \<times> nat" where
  "carry_loop mul base len carry i [] = ([], carry, i)"
| "carry_loop mul base len carry i (d # ds) =
     (if carry \<noteq> 0 \<or> i < len then
        let carry = carry + mul * d;
            (ds', c, j) = carry_loop mul base len (carry div base) (i + 1) ds
        in (carry mod base # ds', c, j)
      else (d # ds, carry, i))"

text \<open>The loop over the input digits; the state is the buffer and \<^verbatim>\<open>length\<close>.\<close>

fun convert_loop :: "nat \<Rightarrow> nat \<Rightarrow> nat list \<Rightarrow> nat list \<times> nat \<Rightarrow> (nat list \<times> nat) option" where
  "convert_loop mul base [] st = Some st"
| "convert_loop mul base (c # cs) (ds, len) =
     (let (ds', carry, i) = carry_loop mul base len c 0 ds
      in if carry \<noteq> 0 then None else convert_loop mul base cs (ds', i))"

text \<open>The digits after the leading zeroes, most significant first.\<close>

definition convert :: "nat \<Rightarrow> nat \<Rightarrow> nat \<Rightarrow> nat list \<Rightarrow> nat list option" where
  "convert mul base width cs =
     map_option (\<lambda>(ds, len). dropWhile (\<lambda>d. d = 0) (rev (take len ds))) (convert_loop mul base cs (replicate width 0, 0))"

section \<open>Base 58\<close>

definition pszBase58 :: string where
  "pszBase58 = ''123456789ABCDEFGHJKLMNPQRSTUVWXYZabcdefghijkmnopqrstuvwxyz''"

definition EncodeBase58 :: "bytes \<Rightarrow> string option" where
  "EncodeBase58 vch =
     (let zeroes = takeWhile (\<lambda>b. b = 0) vch; rest = dropWhile (\<lambda>b. b = 0) vch
      in map_option (\<lambda>ds. replicate (length zeroes) (CHR ''1'') @ map ((!) pszBase58) ds)
           (convert 256 58 (length rest * 138 div 100 + 1) (map unat rest)))"

fun find_index :: "char \<Rightarrow> string \<Rightarrow> nat option" where
  "find_index c [] = None"
| "find_index c (x # xs) = (if x = c then Some 0 else map_option Suc (find_index c xs))"

fun base58_digits :: "string \<Rightarrow> nat list option" where
  "base58_digits [] = Some []"
| "base58_digits (c # cs) =
     (case find_index c pszBase58 of None \<Rightarrow> None | Some d \<Rightarrow> map_option ((#) d) (base58_digits cs))"

text \<open>
  The C string ends at the first zero byte. \<open>None\<close> is \<^verbatim>\<open>false\<close>. The digits are looked up one by one,
  between the steps of the conversion; a character that is no digit ends the function.
\<close>

definition DecodeBase58 :: "string \<Rightarrow> bytes option" where
  "DecodeBase58 str =
     (let psz = dropWhile isspace (takeWhile (\<lambda>c. c \<noteq> CHR 0x00) str);
          zeroes = takeWhile (\<lambda>c. c = CHR ''1'') psz; psz = dropWhile (\<lambda>c. c = CHR ''1'') psz;
          body = takeWhile (\<lambda>c. \<not> isspace c) psz; rest = dropWhile (\<lambda>c. \<not> isspace c) psz
      in case base58_digits body of None \<Rightarrow> None
         | Some cs \<Rightarrow>
             (case convert 58 256 (length psz * 733 div 1000 + 1) cs of None \<Rightarrow> None
              | Some ds \<Rightarrow>
                  if dropWhile isspace rest \<noteq> [] then None
                  else Some (replicate (length zeroes) 0 @ map of_nat ds)))"

section \<open>With a checksum\<close>

definition EncodeBase58Check :: "bytes \<Rightarrow> string option" where
  "EncodeBase58Check vchIn = EncodeBase58 (vchIn @ take 4 (hash256_parts [vchIn]))"

definition DecodeBase58Check :: "string \<Rightarrow> bytes option" where
  "DecodeBase58Check str =
     (case DecodeBase58 str of None \<Rightarrow> None
      | Some vch \<Rightarrow>
          if length vch < 4 then None
          else let data = take (length vch - 4) vch
               in if take 4 (hash256_parts [data]) \<noteq> drop (length vch - 4) vch then None else Some data)"

section \<open>Addresses\<close>

text \<open>The prefixes of the network (\<^verbatim>\<open>Base58Prefix\<close>): one byte each on every network.\<close>

record base58_prefixes =
  PUBKEY_ADDRESS :: bytes
  SCRIPT_ADDRESS :: bytes

record CBase58Data =
  vchVersion :: bytes
  vchData :: bytes

definition SetString :: "nat \<Rightarrow> string \<Rightarrow> CBase58Data" where
  "SetString nVersionBytes str =
     (case DecodeBase58Check str of None \<Rightarrow> \<lparr>vchVersion = [], vchData = []\<rparr>
      | Some vchTemp \<Rightarrow>
          if length vchTemp < nVersionBytes then \<lparr>vchVersion = [], vchData = []\<rparr>
          else \<lparr>vchVersion = take nVersionBytes vchTemp, vchData = drop nVersionBytes vchTemp\<rparr>)"

definition ToString :: "CBase58Data \<Rightarrow> string option" where
  "ToString d = EncodeBase58Check (vchVersion d @ vchData d)"

definition Address_Set :: "base58_prefixes \<Rightarrow> CTxDestination \<Rightarrow> CBase58Data" where
  "Address_Set P dest =
     (case dest of CNoDestination \<Rightarrow> \<lparr>vchVersion = [], vchData = []\<rparr>
      | CKeyID h \<Rightarrow> \<lparr>vchVersion = PUBKEY_ADDRESS P, vchData = h\<rparr>
      | CScriptID h \<Rightarrow> \<lparr>vchVersion = SCRIPT_ADDRESS P, vchData = h\<rparr>)"

definition Address_IsValid :: "base58_prefixes \<Rightarrow> CBase58Data \<Rightarrow> bool" where
  "Address_IsValid P d \<longleftrightarrow>
     length (vchData d) = 20 \<and> (vchVersion d = PUBKEY_ADDRESS P \<or> vchVersion d = SCRIPT_ADDRESS P)"

definition Address_Get :: "base58_prefixes \<Rightarrow> CBase58Data \<Rightarrow> CTxDestination" where
  "Address_Get P d =
     (if \<not> Address_IsValid P d then CNoDestination
      else if vchVersion d = PUBKEY_ADDRESS P then CKeyID (vchData d)
      else CScriptID (vchData d))"

text \<open>\<open>None\<close> would be the failed assertion of the conversion.\<close>

definition EncodeDestination :: "base58_prefixes \<Rightarrow> CTxDestination \<Rightarrow> string option" where
  "EncodeDestination P dest =
     (let addr = Address_Set P dest in if \<not> Address_IsValid P addr then Some [] else ToString addr)"

definition DecodeDestination :: "base58_prefixes \<Rightarrow> string \<Rightarrow> CTxDestination" where
  "DecodeDestination P str = Address_Get P (SetString 1 str)"

definition IsValidDestinationString :: "base58_prefixes \<Rightarrow> string \<Rightarrow> bool" where
  "IsValidDestinationString P str \<longleftrightarrow> Address_IsValid P (SetString 1 str)"

section \<open>The conversion keeps the number\<close>

text \<open>\<open>le_num\<close> reads the buffer, least significant digit first; \<open>be_num\<close> reads a digit string.\<close>

primrec le_num :: "nat \<Rightarrow> nat list \<Rightarrow> nat" where
  "le_num b [] = 0"
| "le_num b (d # ds) = d + b * le_num b ds"

definition be_num :: "nat \<Rightarrow> nat list \<Rightarrow> nat" where
  "be_num b cs = foldl (\<lambda>n c. b * n + c) 0 cs"

lemma be_num_snoc [simp]: "be_num b (cs @ [c]) = b * be_num b cs + c" and be_num_Nil [simp]: "be_num b [] = 0"
  by (simp_all add: be_num_def)

lemma be_num_rev: "be_num b (rev ds) = le_num b ds"
  by (induction ds) simp_all

lemma be_num_foldl: "foldl (\<lambda>n c. b * n + c) m cs = b ^ length cs * m + be_num b cs"
proof (induction cs rule: rev_induct)
  case (snoc c cs)
  then show ?case by (simp add: algebra_simps)
qed simp

lemma be_num_Cons: "be_num b (c # cs) = b ^ length cs * c + be_num b cs"
  using be_num_foldl [of b c cs] by (simp add: be_num_def)

lemma le_num_zeros: "\<forall>d \<in> set ds. d = 0 \<Longrightarrow> le_num b ds = 0"
  by (induction ds) simp_all

lemma carry_loop_correct:
  assumes "carry_loop mul base len carry i ds = (ds', c, j)"
    and "\<forall>d \<in> set (drop (len - i) ds). d = 0" "\<forall>d \<in> set ds. d < base" "0 < base"
  shows "le_num base ds' + base ^ length ds * c = carry + mul * le_num base ds \<and> length ds' = length ds \<and>
    (\<forall>d \<in> set ds'. d < base) \<and> i \<le> j \<and> j - i \<le> length ds \<and> (\<forall>d \<in> set (drop (j - i) ds'). d = 0)"
  using assms
proof (induction mul base len carry i ds arbitrary: ds' c j rule: carry_loop.induct)
  case (2 mul base len carry i d ds)
  show ?case
  proof (cases "carry \<noteq> 0 \<or> i < len")
    case True
    let ?c = "carry + mul * d"
    obtain es where r: "carry_loop mul base len (?c div base) (i + 1) ds = (es, c, j)" "ds' = ?c mod base # es"
      using "2.prems"(1) True by (auto simp: Let_def split: prod.splits)
    have "\<forall>d \<in> set (drop (len - (i + 1)) ds). d = 0"
    proof (cases "i < len")
      case True
      then have "len - i = Suc (len - (i + 1))" by simp
      with "2.prems"(2) show ?thesis by simp
    qed (use "2.prems"(2) in simp)
    from "2.IH" [OF True refl r(1) this] "2.prems"(3,4)
    have IH: "le_num base es + base ^ length ds * c = ?c div base + mul * le_num base ds" "length es = length ds"
      "\<forall>d \<in> set es. d < base" "i + 1 \<le> j" "j - (i + 1) \<le> length ds" "\<forall>d \<in> set (drop (j - (i + 1)) es). d = 0"
      by auto
    have "base * (le_num base es + base ^ length ds * c) + ?c mod base = ?c + base * (mul * le_num base ds)"
      unfolding IH(1) by (simp add: algebra_simps)
    moreover have "j - i = Suc (j - (i + 1))" using IH(4) by simp
    ultimately show ?thesis
      using IH r(2) "2.prems"(4) by (auto simp: algebra_simps)
  next
    case False
    with "2.prems" have "le_num base (d # ds) = 0" "ds' = d # ds" "c = 0" "j = i" "carry = 0" "\<forall>e \<in> set (d # ds). e = 0"
      by (auto intro: le_num_zeros)
    then show ?thesis using "2.prems" by simp
  qed
qed auto

definition buffer_ok :: "nat \<Rightarrow> nat list \<Rightarrow> nat \<Rightarrow> bool" where
  "buffer_ok base ds len \<longleftrightarrow> (\<forall>d \<in> set ds. d < base) \<and> (\<forall>d \<in> set (drop len ds). d = 0)"

lemma convert_loop_correct:
  assumes "buffer_ok base ds len" "0 < base" "0 < mul"
    and "mul ^ length cs * le_num base ds + be_num mul cs < base ^ length ds"
  shows "\<exists>ds' len'. convert_loop mul base cs (ds, len) = Some (ds', len') \<and> buffer_ok base ds' len' \<and>
    le_num base ds' = mul ^ length cs * le_num base ds + be_num mul cs"
  using assms(1,4)
proof (induction cs arbitrary: ds len)
  case (Cons c cs)
  obtain es carry i where l: "carry_loop mul base len c 0 ds = (es, carry, i)" by (metis prod_cases3)
  have r: "le_num base es + base ^ length ds * carry = c + mul * le_num base ds" "length es = length ds"
    "buffer_ok base es i"
    using carry_loop_correct [OF l _ _ assms(2)] Cons.prems(1) unfolding buffer_ok_def by simp_all
  define X where "X = c + mul * le_num base ds"
  have total: "mul ^ length cs * X + be_num mul cs = mul ^ length (c # cs) * le_num base ds + be_num mul (c # cs)"
    by (simp add: be_num_Cons algebra_simps X_def)
  have "X \<le> mul ^ length cs * X" using assms(3) by simp
  with total Cons.prems(2) have "X < base ^ length ds" by linarith
  with r(1) have "base ^ length ds * carry < base ^ length ds * 1" unfolding X_def by linarith
  then have c0: "carry = 0" by (simp only: mult_less_cancel1) simp
  with r(1) have X: "le_num base es = X" by (simp add: X_def)
  with total Cons.prems(2) r(2) have "mul ^ length cs * le_num base es + be_num mul cs < base ^ length es" by simp
  from Cons.IH [OF r(3) this] X total show ?case using l c0 by auto
qed auto

text \<open>Digit strings without leading zeroes are determined by their number.\<close>

definition canonical :: "nat \<Rightarrow> nat list \<Rightarrow> bool" where
  "canonical b cs \<longleftrightarrow> (\<forall>c \<in> set cs. c < b) \<and> (cs = [] \<or> hd cs \<noteq> 0)"

lemma be_num_less: "\<forall>c \<in> set cs. c < b \<Longrightarrow> be_num b cs < b ^ length cs"
proof (induction cs rule: rev_induct)
  case (snoc c cs)
  then have "b * Suc (be_num b cs) \<le> b * b ^ length cs" by (intro mult_left_mono) auto
  with snoc.prems show ?case by (auto simp: algebra_simps)
qed simp

lemma be_num_positive: "canonical b cs \<Longrightarrow> cs \<noteq> [] \<Longrightarrow> 0 < be_num b cs"
  by (cases cs) (auto simp: canonical_def be_num_Cons)

lemma canonical_unique:
  "canonical b cs \<Longrightarrow> canonical b ds \<Longrightarrow> be_num b cs = be_num b ds \<Longrightarrow> cs = ds"
proof (induction cs arbitrary: ds rule: rev_induct)
  case Nil
  then show ?case using be_num_positive [of b ds] by fastforce
next
  case (snoc c cs)
  from snoc.prems have "ds \<noteq> []" using be_num_positive [of b "cs @ [c]"] by auto
  then obtain d es where ds: "ds = es @ [d]" by (metis append_butlast_last_id)
  have e: "c < b" "d < b" "b * be_num b cs + c = b * be_num b es + d"
    using snoc.prems ds by (auto simp: canonical_def)
  from arg_cong [OF e(3), of "\<lambda>n. n mod b"] e(1,2) have "c = d" by simp
  with e have "be_num b cs = be_num b es" by simp
  moreover have "canonical b cs" "canonical b es"
    using snoc.prems ds by (auto simp: canonical_def hd_append split: if_splits)
  ultimately show ?case using snoc.IH [of es] ds \<open>c = d\<close> by simp
qed

lemma canonical_dropWhile:
  assumes "\<forall>c \<in> set cs. c < b"
  shows "canonical b (dropWhile (\<lambda>d. d = 0) cs)" "be_num b (dropWhile (\<lambda>d. d = 0) cs) = be_num b cs"
proof -
  show "canonical b (dropWhile (\<lambda>d. d = 0) cs)"
    using assms hd_dropWhile [of "\<lambda>d. d = 0" cs] unfolding canonical_def by (meson set_dropWhileD)
  show "be_num b (dropWhile (\<lambda>d. d = 0) cs) = be_num b cs"
    by (induction cs) (auto simp: be_num_Cons)
qed

lemma le_num_take: "\<forall>d \<in> set (drop n ds). d = 0 \<Longrightarrow> le_num b (take n ds) = le_num b ds"
proof (induction ds arbitrary: n)
  case (Cons d ds)
  then show ?case by (cases n) (auto simp: le_num_zeros)
qed simp

lemma convert_correct:
  assumes "0 < base" "0 < mul" "be_num mul cs < base ^ w"
  obtains ds where "convert mul base w cs = Some ds" "canonical base ds" "be_num base ds = be_num mul cs"
proof -
  have "buffer_ok base (replicate w 0) 0" "le_num base (replicate w 0) = 0"
    using assms(1) by (auto simp: buffer_ok_def le_num_zeros)
  with convert_loop_correct [of base "replicate w 0" 0 mul cs] assms obtain ds len where
    c: "convert_loop mul base cs (replicate w 0, 0) = Some (ds, len)" "buffer_ok base ds len"
    "le_num base ds = be_num mul cs"
    by auto
  let ?ds = "dropWhile (\<lambda>d. d = 0) (rev (take len ds))"
  have "\<forall>d \<in> set (rev (take len ds)). d < base"
    using c(2) by (auto simp: buffer_ok_def dest: in_set_takeD)
  from canonical_dropWhile [OF this] have "canonical base ?ds" "be_num base ?ds = be_num mul cs"
    using c(2,3) by (simp_all add: be_num_rev le_num_take buffer_ok_def)
  with c(1) that show thesis by (simp add: convert_def)
qed

section \<open>The buffers are large enough\<close>

lemma power_estimate:
  fixes a b p q :: nat
  assumes "a ^ q \<le> b ^ p" "\<forall>r < q. a ^ r \<le> b ^ ((p * r + q - 1) div q)" "0 < q"
  shows "a ^ n \<le> b ^ ((p * n + q - 1) div q)"
proof -
  define m r where "m = n div q" and "r = n mod q"
  have n: "n = q * m + r" "r < q" using assms(3) by (simp_all add: m_def r_def)
  have "a ^ n = (a ^ q) ^ m * a ^ r" by (simp add: n(1) power_add power_mult)
  also have "\<dots> \<le> (b ^ p) ^ m * b ^ ((p * r + q - 1) div q)"
    using assms(1,2) n(2) by (intro mult_mono power_mono) auto
  also have "\<dots> = b ^ (p * m + (p * r + q - 1) div q)" by (simp add: power_add power_mult)
  also have "p * m + (p * r + q - 1) div q = (p * n + q - 1) div q"
  proof -
    define k where "k = p * r + q - 1"
    have "p * n + q - 1 = k + q * (p * m)" using assms(3) by (simp add: n(1) algebra_simps k_def)
    then have "(p * n + q - 1) div q = p * m + k div q" using assms(3) by simp
    then show ?thesis by (simp only: k_def)
  qed
  finally show ?thesis .
qed

lemma encode_buffer: "(256 :: nat) ^ n \<le> 58 ^ (n * 138 div 100 + 1)"
proof -
  have "list_all (\<lambda>r. (256 :: nat) ^ r \<le> 58 ^ ((11 * r + 8 - 1) div 8)) [0..<8]"
    by (simp add: upt_rec)
  then have "\<forall>r < 8. (256 :: nat) ^ r \<le> 58 ^ ((11 * r + 8 - 1) div 8)"
    by (auto simp: list_all_iff)
  then have "(256 :: nat) ^ n \<le> 58 ^ ((11 * n + 8 - 1) div 8)"
    by (intro power_estimate) simp_all
  also have "\<dots> \<le> 58 ^ (n * 138 div 100 + 1)"
    by (intro power_increasing) linarith+
  finally show ?thesis .
qed

lemma decode_buffer: "(58 :: nat) ^ n \<le> 256 ^ (n * 733 div 1000 + 1)"
proof -
  have "list_all (\<lambda>r. (58 :: nat) ^ r \<le> 256 ^ ((52 * r + 71 - 1) div 71)) [0..<71]"
    by (simp add: upt_rec)
  then have "\<forall>r < 71. (58 :: nat) ^ r \<le> 256 ^ ((52 * r + 71 - 1) div 71)"
    by (auto simp: list_all_iff)
  then have "(58 :: nat) ^ n \<le> 256 ^ ((52 * n + 71 - 1) div 71)"
    by (intro power_estimate) simp_all
  also have "\<dots> \<le> 256 ^ (n * 733 div 1000 + 1)"
    by (intro power_increasing) linarith+
  finally show ?thesis .
qed

lemma convert_bytes:
  assumes "\<forall>c \<in> set cs. c < 256"
  obtains ds where "convert 256 58 (length cs * 138 div 100 + 1) cs = Some ds" "canonical 58 ds"
    "be_num 58 ds = be_num 256 cs"
proof -
  have "be_num 256 cs < 58 ^ (length cs * 138 div 100 + 1)"
    using be_num_less [OF assms] encode_buffer [of "length cs"] by (rule order_less_le_trans)
  then show thesis using that by (rule convert_correct [of 58 256, OF zero_less_numeral zero_less_numeral])
qed

lemma convert_digits:
  assumes "\<forall>c \<in> set cs. c < 58" "length cs \<le> n"
  obtains ds where "convert 58 256 (n * 733 div 1000 + 1) cs = Some ds" "canonical 256 ds"
    "be_num 256 ds = be_num 58 cs"
proof -
  have "be_num 58 cs < 58 ^ length cs" by (rule be_num_less [OF assms(1)])
  also have "\<dots> \<le> 58 ^ n" using assms(2) by (intro power_increasing) simp_all
  also have "\<dots> \<le> 256 ^ (n * 733 div 1000 + 1)" by (rule decode_buffer)
  finally have "be_num 58 cs < 256 ^ (n * 733 div 1000 + 1)" .
  then show thesis using that by (rule convert_correct [of 256 58, OF zero_less_numeral zero_less_numeral])
qed

section \<open>Round trips\<close>

lemma base58_alphabet:
  "list_all (\<lambda>d. find_index (pszBase58 ! d) pszBase58 = Some d \<and> \<not> isspace (pszBase58 ! d) \<and>
     pszBase58 ! d \<noteq> CHR 0x00 \<and> (pszBase58 ! d = CHR ''1'' \<longleftrightarrow> d = 0)) [0..<58]"
  by code_simp

lemma base58_char:
  assumes "d < 58"
  shows "find_index (pszBase58 ! d) pszBase58 = Some d" "\<not> isspace (pszBase58 ! d)" "pszBase58 ! d \<noteq> CHR 0x00"
    "pszBase58 ! d = CHR ''1'' \<longleftrightarrow> d = 0"
  using base58_alphabet assms by (auto simp: list_all_iff)

lemma base58_digits_map: "\<forall>d \<in> set ds. d < 58 \<Longrightarrow> base58_digits (map ((!) pszBase58) ds) = Some ds"
  by (induction ds) (simp_all add: base58_char)

lemma EncodeBase58_total:
  obtains z ds where "EncodeBase58 vch = Some (replicate (length z) (CHR ''1'') @ map ((!) pszBase58) ds)"
    "z = takeWhile (\<lambda>b. b = 0) vch" "canonical 58 ds" "be_num 58 ds = be_num 256 (map unat (dropWhile (\<lambda>b. b = 0) vch))"
proof -
  have "\<forall>c \<in> set (map unat (dropWhile (\<lambda>b. b = 0) vch)). c < 256"
    using unsigned_less [where 'a = nat and 'b = 8] by auto
  from convert_bytes [OF this] that show thesis by (auto simp: EncodeBase58_def Let_def)
qed

lemma unat_canonical: "canonical 256 (map unat (dropWhile (\<lambda>b. b = 0) (vch :: bytes)))"
proof -
  have "unat b < 256" for b :: u8 using unsigned_less [of b, where 'a = nat] by simp
  then show ?thesis
    using hd_dropWhile [of "\<lambda>b. b = 0" vch]
    by (cases "dropWhile (\<lambda>b. b = 0) vch") (auto simp: canonical_def unat_eq_zero)
qed

lemma base58_round_trip:
  "EncodeBase58 vch \<noteq> None \<and> DecodeBase58 (the (EncodeBase58 vch)) = Some vch"
proof -
  obtain z ds where e: "EncodeBase58 vch = Some (replicate (length z) (CHR ''1'') @ map ((!) pszBase58) ds)"
    "z = takeWhile (\<lambda>b. b = 0) vch" "canonical 58 ds" "be_num 58 ds = be_num 256 (map unat (dropWhile (\<lambda>b. b = 0) vch))"
    by (rule EncodeBase58_total)
  have small: "\<forall>d \<in> set ds. d < 58" using e(3) by (simp add: canonical_def)
  define n t where "n = length z" and "t = map ((!) pszBase58) ds"
  have t: "\<forall>c \<in> set t. \<not> isspace c \<and> c \<noteq> CHR 0x00" using small by (auto simp: base58_char t_def)
  have hd: "t = [] \<or> hd t \<noteq> CHR ''1''"
    using e(3) small by (cases ds) (auto simp: canonical_def base58_char t_def)
  let ?s = "replicate n (CHR ''1'') @ t"
  have one: "\<not> isspace (CHR ''1'')" by (simp add: isspace_def)
  have all: "\<forall>c \<in> set ?s. \<not> isspace c \<and> c \<noteq> CHR 0x00" 
  proof
    fix c assume "c \<in> set ?s"
    then have "c = CHR ''1'' \<or> c \<in> set t" by (simp only: set_append Un_iff in_set_replicate) blast
    then show "\<not> isspace c \<and> c \<noteq> CHR 0x00"
    proof
      assume "c = CHR ''1''"
      with one show ?thesis by simp
    qed (use t in blast)
  qed
  have s: "takeWhile (\<lambda>c. c \<noteq> CHR 0x00) ?s = ?s" "takeWhile (\<lambda>c. \<not> isspace c) t = t"
    by (rule takeWhile_eq_all_conv [THEN iffD2], use all in auto)+
  have d: "dropWhile isspace ?s = ?s" "dropWhile (\<lambda>c. \<not> isspace c) t = []"
    using all hd_in_set [of ?s] t unfolding dropWhile_eq_self_iff dropWhile_eq_Nil_conv by blast+
  have ones: "takeWhile (\<lambda>c. c = CHR ''1'') ?s = replicate n (CHR ''1'')" "dropWhile (\<lambda>c. c = CHR ''1'') ?s = t"
    using hd by (cases t; simp add: takeWhile_append dropWhile_append takeWhile_eq_Nil_iff)+
  have digits: "base58_digits t = Some ds" unfolding t_def by (rule base58_digits_map [OF small])
  obtain es where c: "convert 58 256 (length t * 733 div 1000 + 1) ds = Some es" "canonical 256 es"
    "be_num 256 es = be_num 58 ds"
    using convert_digits [OF small, of "length t"] by (auto simp: t_def)
  have es: "es = map unat (dropWhile (\<lambda>b. b = 0) vch)"
    by (rule canonical_unique [OF c(2) unat_canonical]) (simp add: c(3) e(4))
  have "replicate n 0 = z" unfolding n_def e(2)
    by (rule replicate_eqI [symmetric]) (auto dest: set_takeWhileD)
  moreover have "map of_nat es = dropWhile (\<lambda>b. b = 0) vch" by (simp add: es map_idI)
  ultimately have "replicate n 0 @ map of_nat es = vch" by (simp add: e(2))
  then have "DecodeBase58 ?s = Some vch"
    unfolding DecodeBase58_def Let_def s(1) d(1) ones s(2) d(2) digits option.case c(1) by simp
  with e(1) show ?thesis by (simp add: n_def t_def)
qed

lemma base58check_round_trip:
  "EncodeBase58Check v \<noteq> None \<and> DecodeBase58Check (the (EncodeBase58Check v)) = Some v"
  using base58_round_trip [of "v @ take 4 (hash256_parts [v])"]
  by (simp add: EncodeBase58Check_def DecodeBase58Check_def hash256_parts_fips)

definition prefixes_ok :: "base58_prefixes \<Rightarrow> bool" where
  "prefixes_ok P \<longleftrightarrow> length (PUBKEY_ADDRESS P) = 1 \<and> length (SCRIPT_ADDRESS P) = 1 \<and> PUBKEY_ADDRESS P \<noteq> SCRIPT_ADDRESS P"

definition dest_ok :: "CTxDestination \<Rightarrow> bool" where
  "dest_ok dest \<longleftrightarrow> (case dest of CNoDestination \<Rightarrow> False | CKeyID h \<Rightarrow> length h = 20 | CScriptID h \<Rightarrow> length h = 20)"

lemma address_data:
  assumes "prefixes_ok P" "dest_ok dest"
  shows "Address_IsValid P (Address_Set P dest)" "length (vchVersion (Address_Set P dest)) = 1"
    "Address_Get P (Address_Set P dest) = dest"
  using assms by (auto simp: Address_Set_def Address_IsValid_def Address_Get_def prefixes_ok_def dest_ok_def
      split: CTxDestination.splits)

lemma address_text:
  assumes "prefixes_ok P" "dest_ok dest"
  obtains str where "EncodeDestination P dest = Some str" "DecodeDestination P str = dest" "IsValidDestinationString P str"
proof -
  let ?a = "Address_Set P dest"
  note data = address_data [OF assms]
  obtain str where s: "ToString ?a = Some str" "DecodeBase58Check str = Some (vchVersion ?a @ vchData ?a)"
    using base58check_round_trip [of "vchVersion ?a @ vchData ?a"] by (auto simp: ToString_def)
  then have "SetString 1 str = ?a" using data(2) by (simp add: SetString_def)
  with s data that show thesis
    by (simp add: EncodeDestination_def DecodeDestination_def IsValidDestinationString_def Let_def)
qed

lemma EncodeDestination_inject:
  assumes "prefixes_ok P" "dest_ok d" "dest_ok d'" "EncodeDestination P d = EncodeDestination P d'"
  shows "d = d'"
  using address_text [OF assms(1,2)] address_text [OF assms(1,3)] assms(4) by (metis option.inject)

text \<open>
  Addresses: the text of a key or script address is always produced (the buffer of the conversion is
  never too small) and reading it back gives the destination, so that different destinations have
  different addresses.
\<close>

theorem address_round_trip:
  assumes "prefixes_ok P" "dest_ok dest"
  shows "\<exists>str. EncodeDestination P dest = Some str \<and> DecodeDestination P str = dest \<and>
    IsValidDestinationString P str"
  using address_text [OF assms] by blast

text \<open>The main network.\<close>

definition main_prefixes :: base58_prefixes where
  "main_prefixes = \<lparr>PUBKEY_ADDRESS = [76], SCRIPT_ADDRESS = [139]\<rparr>"

theorem address_round_trip_witness:
  "\<exists>str. EncodeDestination main_prefixes (CKeyID (replicate 20 7)) = Some str \<and>
     DecodeDestination main_prefixes str = CKeyID (replicate 20 7) \<and> IsValidDestinationString main_prefixes str"
  by (rule address_round_trip) (simp_all add: prefixes_ok_def main_prefixes_def dest_ok_def)

end
