(* ===== verification/XC_AssetScript.thy ===== *)
theory XC_AssetScript
  imports XC_AssetName XC_Base58 XC_Interp XC_Serialize XC_Attest
begin

text \<open>
  Asset data in outputs: the records of \<^verbatim>\<open>src/src/assets/assettypes.h\<close> with their serialization, the
  scripts that carry them and the readers \<^verbatim>\<open>...FromScript\<close> of \<^verbatim>\<open>src/src/assets/assets.cpp\<close>. An
  address is what \<^verbatim>\<open>EncodeDestination\<close> returns.
\<close>

section \<open>Records\<close>

abbreviation "MAX_UNIT \<equiv> (8 :: int)"
abbreviation "IPFS_SHA2_256 \<equiv> (0x12 :: u8)"
abbreviation "TXID_NOTIFIER \<equiv> (0x54 :: u8)"
abbreviation "IPFS_SHA2_256_LEN \<equiv> (0x20 :: u8)"

text \<open>\<^verbatim>\<open>int8_t\<close> fields are integers from -128 to 127; hashes and messages are byte strings.\<close>

record CNewAsset =
  strName :: string
  nAmount :: CAmount
  units :: int
  nReissuable :: int
  nHasIPFS :: int
  strIPFSHash :: bytes

record CAssetTransfer =
  t_strName :: string
  t_nAmount :: CAmount
  t_message :: bytes
  t_nExpireTime :: int

record CReissueAsset =
  r_strName :: string
  r_nAmount :: CAmount
  r_nUnits :: int
  r_nReissuable :: int
  r_strIPFSHash :: bytes

record CNullAssetTxData =
  asset_name :: string
  flag :: int

section \<open>Serialization\<close>

definition Serialize_int8 :: "int \<Rightarrow> bytes" where
  "Serialize_int8 a = ser_writedata8 (of_int a)"

definition Unserialize_int8 :: "int reader" where
  "Unserialize_int8 = rbind ser_readdata8 (\<lambda>a. rret (sint a))"

definition Serialize_std_string :: "string \<Rightarrow> bytes" where
  "Serialize_std_string s = Serialize_bytes (bytes_of s)"

definition Unserialize_std_string :: "string reader" where
  "Unserialize_std_string = rbind Unserialize_string (\<lambda>b. rret (string_of b))"

text \<open>\<^verbatim>\<open>ReadWriteAssetHash\<close>, writing and reading; the reader also gives what the function returns.\<close>

definition WriteAssetHash :: "bytes \<Rightarrow> bytes" where
  "WriteAssetHash h =
     (if length h = 34 then IPFS_SHA2_256 # Serialize_bytes (drop 2 h)
      else if length h = 32 then TXID_NOTIFIER # Serialize_bytes h
      else [])"

definition ReadAssetHash :: "(bytes \<times> bool) reader" where
  "ReadAssetHash s =
     (if s \<noteq> [] \<and> 33 \<le> length s then
        rbind ser_readdata8 (\<lambda>sha2_256. rbind Unserialize_string (\<lambda>h.
          rret ((if sha2_256 = IPFS_SHA2_256 then [IPFS_SHA2_256, IPFS_SHA2_256_LEN] else []) @ take 32 h, True))) s
      else rret ([], False) s)"

definition Serialize_CNewAsset :: "CNewAsset \<Rightarrow> bytes" where
  "Serialize_CNewAsset a =
     Serialize_std_string (strName a) @ Serialize_int64 (nAmount a) @ Serialize_int8 (units a) @
     Serialize_int8 (nReissuable a) @ Serialize_int8 (nHasIPFS a) @
     (if nHasIPFS a = 1 then WriteAssetHash (strIPFSHash a) else [])"

definition Unserialize_CNewAsset :: "CNewAsset reader" where
  "Unserialize_CNewAsset =
     rbind Unserialize_std_string (\<lambda>name. rbind Unserialize_int64 (\<lambda>amount. rbind Unserialize_int8 (\<lambda>u.
     rbind Unserialize_int8 (\<lambda>r. rbind Unserialize_int8 (\<lambda>has.
     rbind (if has = 1 then ReadAssetHash else rret ([], False)) (\<lambda>(h, b).
       rret \<lparr>strName = name, nAmount = amount, units = u, nReissuable = r, nHasIPFS = has, strIPFSHash = h\<rparr>))))))"

definition Serialize_CAssetTransfer :: "CAssetTransfer \<Rightarrow> bytes" where
  "Serialize_CAssetTransfer t =
     Serialize_std_string (t_strName t) @ Serialize_int64 (t_nAmount t) @ WriteAssetHash (t_message t) @
     (if (length (t_message t) = 34 \<or> length (t_message t) = 32) \<and> t_nExpireTime t \<noteq> 0
      then Serialize_int64 (t_nExpireTime t) else [])"

definition ReadExpireTime :: "bool \<Rightarrow> int reader" where
  "ReadExpireTime validIPFS s =
     (if validIPFS \<and> s \<noteq> [] \<and> 8 \<le> length s then Unserialize_int64 s else rret 0 s)"

definition Unserialize_CAssetTransfer :: "CAssetTransfer reader" where
  "Unserialize_CAssetTransfer =
     rbind Unserialize_std_string (\<lambda>name. rbind Unserialize_int64 (\<lambda>amount.
     rbind ReadAssetHash (\<lambda>(message, validIPFS). rbind (ReadExpireTime validIPFS) (\<lambda>expire.
       rret \<lparr>t_strName = name, t_nAmount = amount, t_message = message, t_nExpireTime = expire\<rparr>))))"

definition Serialize_CReissueAsset :: "CReissueAsset \<Rightarrow> bytes" where
  "Serialize_CReissueAsset r =
     Serialize_std_string (r_strName r) @ Serialize_int64 (r_nAmount r) @ Serialize_int8 (r_nUnits r) @
     Serialize_int8 (r_nReissuable r) @ WriteAssetHash (r_strIPFSHash r)"

definition Unserialize_CReissueAsset :: "CReissueAsset reader" where
  "Unserialize_CReissueAsset =
     rbind Unserialize_std_string (\<lambda>name. rbind Unserialize_int64 (\<lambda>amount. rbind Unserialize_int8 (\<lambda>u.
     rbind Unserialize_int8 (\<lambda>r. rbind ReadAssetHash (\<lambda>(h, b).
       rret \<lparr>r_strName = name, r_nAmount = amount, r_nUnits = u, r_nReissuable = r, r_strIPFSHash = h\<rparr>)))))"

definition Unserialize_CNullAssetTxData :: "CNullAssetTxData reader" where
  "Unserialize_CNullAssetTxData =
     rbind Unserialize_std_string (\<lambda>name. rbind Unserialize_int8 (\<lambda>f. rret \<lparr>asset_name = name, flag = f\<rparr>))"

section \<open>Scripts\<close>

definition asset_script :: "CScript \<Rightarrow> char \<Rightarrow> bytes \<Rightarrow> CScript" where
  "asset_script s kind data =
     push_opcode (push_data (push_opcode s OP_RVN_ASSET) (bytes_of (''rvn'' @ [kind]) @ data)) OP_DROP"

definition CNewAsset_ConstructTransaction :: "CNewAsset \<Rightarrow> CScript \<Rightarrow> CScript" where
  "CNewAsset_ConstructTransaction a s = asset_script s (CHR ''q'') (Serialize_CNewAsset a)"

definition CNewAsset_ConstructOwnerTransaction :: "CNewAsset \<Rightarrow> CScript \<Rightarrow> CScript" where
  "CNewAsset_ConstructOwnerTransaction a s =
     asset_script s (CHR ''o'') (Serialize_std_string (strName a @ OWNER_TAG))"

definition CAssetTransfer_ConstructTransaction :: "CAssetTransfer \<Rightarrow> CScript \<Rightarrow> CScript" where
  "CAssetTransfer_ConstructTransaction t s = asset_script s (CHR ''t'') (Serialize_CAssetTransfer t)"

definition CReissueAsset_ConstructTransaction :: "CReissueAsset \<Rightarrow> CScript \<Rightarrow> CScript" where
  "CReissueAsset_ConstructTransaction r s = asset_script s (CHR ''r'') (Serialize_CReissueAsset r)"

text \<open>The address of an output, and the object that starts at an index of the script.\<close>

definition script_address :: "base58_prefixes \<Rightarrow> CScript \<Rightarrow> string option" where
  "script_address P s =
     EncodeDestination P (case ExtractDestination s of None \<Rightarrow> CNoDestination | Some d \<Rightarrow> d)"

definition from_index :: "base58_prefixes \<Rightarrow> 'a reader \<Rightarrow> CScript \<Rightarrow> nat \<Rightarrow> ('a \<times> string option) option" where
  "from_index P r s i = (case r (drop i s) of Inl e \<Rightarrow> None | Inr (x, rest) \<Rightarrow> Some (x, script_address P s))"

text \<open>
  \<^verbatim>\<open>AreTransferScriptsSizeDeployed\<close> holds from the start: \<^verbatim>\<open>nAssetActivationHeight\<close> is 0 on every network.
\<close>

definition TransferAssetFromScript :: "base58_prefixes \<Rightarrow> CScript \<Rightarrow> (CAssetTransfer \<times> string option) option" where
  "TransferAssetFromScript P s =
     (case IsAssetScript s of
        Some (TX_TRANSFER_ASSET, own, i) \<Rightarrow> from_index P Unserialize_CAssetTransfer s i | _ \<Rightarrow> None)"

definition AssetFromScript :: "base58_prefixes \<Rightarrow> CScript \<Rightarrow> (CNewAsset \<times> string option) option" where
  "AssetFromScript P s =
     (case IsAssetScript s of
        Some (TX_NEW_ASSET, False, i) \<Rightarrow> from_index P Unserialize_CNewAsset s i | _ \<Rightarrow> None)"

definition OwnerAssetFromScript :: "base58_prefixes \<Rightarrow> CScript \<Rightarrow> (string \<times> string option) option" where
  "OwnerAssetFromScript P s =
     (case IsAssetScript s of
        Some (TX_NEW_ASSET, True, i) \<Rightarrow> from_index P Unserialize_std_string s i | _ \<Rightarrow> None)"

definition ReissueAssetFromScript :: "base58_prefixes \<Rightarrow> CScript \<Rightarrow> (CReissueAsset \<times> string option) option" where
  "ReissueAssetFromScript P s =
     (case IsAssetScript s of
        Some (TX_REISSUE_ASSET, own, i) \<Rightarrow> from_index P Unserialize_CReissueAsset s i | _ \<Rightarrow> None)"

definition AssetNullDataFromScript :: "base58_prefixes \<Rightarrow> CScript \<Rightarrow> (CNullAssetTxData \<times> string option) option" where
  "AssetNullDataFromScript P s =
     (if IsNullAssetTxDataScript s then from_index P Unserialize_CNullAssetTxData s 23 else None)"

definition GlobalAssetNullDataFromScript :: "CScript \<Rightarrow> CNullAssetTxData option" where
  "GlobalAssetNullDataFromScript s =
     (if IsNullGlobalRestrictionAssetTxDataScript s then
        (case Unserialize_CNullAssetTxData (drop 4 s) of Inl e \<Rightarrow> None | Inr (x, rest) \<Rightarrow> Some x)
      else None)"

definition AssetNullVerifierDataFromScript :: "CScript \<Rightarrow> string option" where
  "AssetNullVerifierDataFromScript s =
     (if IsNullAssetVerifierTxDataScript s then
        (case Unserialize_std_string (drop 3 s) of Inl e \<Rightarrow> None | Inr (x, rest) \<Rightarrow> Some x)
      else None)"

section \<open>Scripts by the kind of the asset they create\<close>

definition created_kind :: "base58_prefixes \<Rightarrow> CScript \<Rightarrow> AssetType option" where
  "created_kind P s =
     (case AssetFromScript P s of None \<Rightarrow> None
      | Some (a, addr) \<Rightarrow> (case IsAssetNameValid (strName a) of (True, k) \<Rightarrow> k | _ \<Rightarrow> None))"

definition IsScriptNewUniqueAsset :: "base58_prefixes \<Rightarrow> CScript \<Rightarrow> bool" where
  "IsScriptNewUniqueAsset P s \<longleftrightarrow> created_kind P s = Some UNIQUE"

definition IsScriptNewMsgChannelAsset :: "base58_prefixes \<Rightarrow> CScript \<Rightarrow> bool" where
  "IsScriptNewMsgChannelAsset P s \<longleftrightarrow> created_kind P s = Some MSGCHANNEL"

definition IsScriptNewQualifierAsset :: "base58_prefixes \<Rightarrow> CScript \<Rightarrow> bool" where
  "IsScriptNewQualifierAsset P s \<longleftrightarrow> created_kind P s \<in> {Some QUALIFIER, Some SUB_QUALIFIER}"

definition IsScriptNewRestrictedAsset :: "base58_prefixes \<Rightarrow> CScript \<Rightarrow> bool" where
  "IsScriptNewRestrictedAsset P s \<longleftrightarrow> created_kind P s = Some RESTRICTED"

section \<open>Serialized assets are read back\<close>

definition int8_range :: "int \<Rightarrow> bool" where "int8_range a \<longleftrightarrow> - 128 \<le> a \<and> a < 128"

lemma sint_of_int8: "int8_range a \<Longrightarrow> sint (of_int a :: u8) = a"
  by (simp add: int8_range_def signed_of_int signed_take_bit_int_eq_self)

interpretation int8: codec Serialize_int8 Unserialize_int8 int8_range
proof
  show "Unserialize_int8 (Serialize_int8 x @ rest) = Inr (x, rest)" if "int8_range x" for x rest
    using that by (simp add: Serialize_int8_def Unserialize_int8_def data8.read_then sint_of_int8 rret_def)
  show "reader_local Unserialize_int8"
    unfolding Unserialize_int8_def by (intro reader_local_intros data8.is_local)
qed

definition name_ok :: "string \<Rightarrow> bool" where "name_ok n \<longleftrightarrow> length n \<le> SER_MAX_SIZE"

interpretation std_string: codec Serialize_std_string Unserialize_std_string name_ok
proof
  show "Unserialize_std_string (Serialize_std_string x @ rest) = Inr (x, rest)" if "name_ok x" for x rest
    using that by (simp add: Serialize_std_string_def Unserialize_std_string_def Unserialize_string
        byte_vector.read_then name_ok_def rret_def)
  show "reader_local Unserialize_std_string"
    unfolding Unserialize_std_string_def Unserialize_string by (intro reader_local_intros byte_vector.is_local)
qed

definition hash_ok :: "bytes \<Rightarrow> bool" where
  "hash_ok h \<longleftrightarrow> length h = 32 \<or> length h = 34 \<and> take 2 h = [IPFS_SHA2_256, IPFS_SHA2_256_LEN]"

lemma ReadAssetHash_round_trip:
  assumes "hash_ok h"
  shows "ReadAssetHash (WriteAssetHash h @ rest) = Inr ((h, True), rest)"
proof -
  have step: "rbind ser_readdata8 f (b # t) = f b t" for f :: "u8 \<Rightarrow> (bytes \<times> bool) reader" and b t
    using data8.read_then [where f = f and x = b and rest = t] by (simp add: ser_writedata8_def le_bytes_def)
  consider "length h = 32" | "length h = 34" "take 2 h = [IPFS_SHA2_256, IPFS_SHA2_256_LEN]"
    using assms by (auto simp: hash_ok_def)
  then show ?thesis
  proof cases
    case 1
    moreover from this have "33 \<le> Suc (length (Serialize_bytes h))" by (simp add: Serialize_bytes_def)
    ultimately show ?thesis
      by (simp add: ReadAssetHash_def WriteAssetHash_def step Unserialize_string byte_vector.read_then rret_def)
  next
    case 2
    define g where "g = drop 2 h"
    have "h = [IPFS_SHA2_256, IPFS_SHA2_256_LEN] @ g" unfolding g_def using 2 by (metis append_take_drop_id)
    moreover have g: "length g = 32" using 2 by (simp add: g_def)
    moreover have "33 \<le> Suc (length (Serialize_bytes g))" using g by (simp add: Serialize_bytes_def)
    ultimately show ?thesis
      by (simp add: ReadAssetHash_def WriteAssetHash_def step Unserialize_string byte_vector.read_then rret_def)
  qed
qed

lemma ReadAssetHash_short: "length s < 33 \<Longrightarrow> ReadAssetHash s = Inr (([], False), s)"
  by (simp add: ReadAssetHash_def rret_def)

definition new_asset_ok :: "CNewAsset \<Rightarrow> bool" where
  "new_asset_ok a \<longleftrightarrow> name_ok (strName a) \<and> int64_range (nAmount a) \<and> int8_range (units a) \<and>
     int8_range (nReissuable a) \<and> int8_range (nHasIPFS a) \<and>
     (if nHasIPFS a = 1 then hash_ok (strIPFSHash a) else strIPFSHash a = [])"

definition transfer_ok :: "CAssetTransfer \<Rightarrow> bool" where
  "transfer_ok t \<longleftrightarrow> name_ok (t_strName t) \<and> int64_range (t_nAmount t) \<and> int64_range (t_nExpireTime t) \<and>
     (hash_ok (t_message t) \<or> t_message t = [] \<and> t_nExpireTime t = 0)"

definition reissue_ok :: "CReissueAsset \<Rightarrow> bool" where
  "reissue_ok r \<longleftrightarrow> name_ok (r_strName r) \<and> int64_range (r_nAmount r) \<and> int8_range (r_nUnits r) \<and>
     int8_range (r_nReissuable r) \<and> (hash_ok (r_strIPFSHash r) \<or> r_strIPFSHash r = [])"

lemmas asset_read_then = std_string.read_then int64.read_then int8.read_then

lemma new_asset_round_trip:
  assumes "new_asset_ok a"
  shows "Unserialize_CNewAsset (Serialize_CNewAsset a @ rest) = Inr (a, rest)"
proof (cases "nHasIPFS a = 1")
  case True
  with assms show ?thesis
    by (simp add: Unserialize_CNewAsset_def Serialize_CNewAsset_def new_asset_ok_def asset_read_then
        rbind_def [of ReadAssetHash] ReadAssetHash_round_trip rret_def)
next
  case False
  with assms show ?thesis
    by (simp add: Unserialize_CNewAsset_def Serialize_CNewAsset_def new_asset_ok_def asset_read_then rret_def)
qed

text \<open>Without a message or an expiry the reader must not find more bytes than the end of the script.\<close>

lemma transfer_round_trip:
  assumes "transfer_ok t" "length rest < 8"
  shows "Unserialize_CAssetTransfer (Serialize_CAssetTransfer t @ rest) = Inr (t, rest)"
proof (cases "hash_ok (t_message t)")
  case True
  then have len: "length (t_message t) = 34 \<or> length (t_message t) = 32" by (auto simp: hash_ok_def)
  show ?thesis
  proof (cases "t_nExpireTime t = 0")
    case True
    with assms \<open>hash_ok (t_message t)\<close> show ?thesis
      by (simp add: Unserialize_CAssetTransfer_def Serialize_CAssetTransfer_def transfer_ok_def asset_read_then
          rbind_def [of ReadAssetHash] ReadAssetHash_round_trip rbind_def [of "ReadExpireTime _"] ReadExpireTime_def rret_def)
  next
    case False
    have l8: "length (Serialize_int64 x) = 8" for x by (simp add: Serialize_int64_def ser_writedata64_def le_bytes_def)
    then have "Serialize_int64 (t_nExpireTime t) \<noteq> []" by (metis length_0_conv zero_neq_numeral)
    with False assms len \<open>hash_ok (t_message t)\<close> show ?thesis
      by (simp add: Unserialize_CAssetTransfer_def Serialize_CAssetTransfer_def transfer_ok_def asset_read_then
          rbind_def [of ReadAssetHash] ReadAssetHash_round_trip rbind_def [of "ReadExpireTime _"] ReadExpireTime_def
          rret_def int64.round_trip l8)
  qed
next
  case False
  with assms show ?thesis
    by (simp add: Unserialize_CAssetTransfer_def Serialize_CAssetTransfer_def transfer_ok_def asset_read_then
        WriteAssetHash_def ReadAssetHash_short
        rbind_def [of ReadAssetHash] rbind_def [of "ReadExpireTime _"] ReadExpireTime_def rret_def)
qed

lemma reissue_round_trip:
  assumes "reissue_ok r" "length rest < 33"
  shows "Unserialize_CReissueAsset (Serialize_CReissueAsset r @ rest) = Inr (r, rest)"
proof (cases "hash_ok (r_strIPFSHash r)")
  case True
  with assms show ?thesis
    by (simp add: Unserialize_CReissueAsset_def Serialize_CReissueAsset_def reissue_ok_def asset_read_then
        rbind_def [of ReadAssetHash] ReadAssetHash_round_trip rret_def)
next
  case False
  with assms show ?thesis
    by (simp add: Unserialize_CReissueAsset_def Serialize_CReissueAsset_def reissue_ok_def asset_read_then
        WriteAssetHash_def ReadAssetHash_short rbind_def [of ReadAssetHash] rret_def)
qed

section \<open>Asset scripts are recognised\<close>

text \<open>
  The length of the pushed data stays below 114, which is the code of \<^verbatim>\<open>r\<close>: that length byte would
  be taken for the start of the mark.
\<close>

lemma asset_script_shape:
  assumes "length s = 25" "length data < 110"
  shows "31 + length data < length (asset_script s kind data)" "asset_script s kind data ! 25 = OP_RVN_ASSET"
    and "\<exists>i. asset_index (asset_script s kind data) = Some i \<and> asset_script s kind data ! i = byte_of_char kind \<and>
      drop (i + 1) (asset_script s kind data) = data @ [OP_DROP]"
proof -
  have mark: "bytes_of [CHR ''r'', CHR ''v'', CHR ''n'', kind] = [0x72, 0x76, 0x6e, byte_of_char kind]"
    by (simp add: bytes_of_def byte_of_char_def)
  consider "length data < 72" | "72 \<le> length data" by linarith
  then have "31 + length data < length (asset_script s kind data) \<and> asset_script s kind data ! 25 = OP_RVN_ASSET \<and>
    (\<exists>i. asset_index (asset_script s kind data) = Some i \<and> asset_script s kind data ! i = byte_of_char kind \<and>
      drop (i + 1) (asset_script s kind data) = data @ [OP_DROP])"
  proof cases
    case 1
    then have "asset_script s kind data =
        s @ [OP_RVN_ASSET, of_nat (4 + length data), 0x72, 0x76, 0x6e, byte_of_char kind] @ data @ [OP_DROP]"
      by (simp add: asset_script_def push_opcode_def push_data_def push_header_def mark)
    with assms(1) show ?thesis by (simp add: asset_index_def nth_append)
  next
    case 2
    have "(of_nat (4 + length data) :: u8) \<noteq> 0x72"
    proof
      define n where "n = 4 + length data"
      assume "(of_nat (4 + length data) :: u8) = 0x72"
      then have "unat (of_nat n :: u8) = 0x72" unfolding n_def by simp
      moreover have "n < 114" using assms(2) by (simp add: n_def)
      ultimately show False by (simp add: unat_of_nat)
    qed
    moreover have "asset_script s kind data =
        s @ [OP_RVN_ASSET, OP_PUSHDATA1, of_nat (4 + length data), 0x72, 0x76, 0x6e, byte_of_char kind] @ data @ [OP_DROP]"
      using 2 assms(2) by (simp add: asset_script_def push_opcode_def push_data_def push_header_def mark)
    ultimately show ?thesis using assms(1) by (simp add: asset_index_def nth_append)
  qed
  then show "31 + length data < length (asset_script s kind data)" "asset_script s kind data ! 25 = OP_RVN_ASSET"
    "\<exists>i. asset_index (asset_script s kind data) = Some i \<and> asset_script s kind data ! i = byte_of_char kind \<and>
      drop (i + 1) (asset_script s kind data) = data @ [OP_DROP]" by blast+
qed

lemma IsAssetScript_asset_script:
  assumes "length s = 25" "length data < 110" "kind = CHR ''q'' \<Longrightarrow> 8 \<le> length data"
    and "(kind, ty, own) \<in> {(CHR ''t'', TX_TRANSFER_ASSET, False), (CHR ''q'', TX_NEW_ASSET, False),
      (CHR ''o'', TX_NEW_ASSET, True), (CHR ''r'', TX_REISSUE_ASSET, False)}"
  shows "\<exists>i. IsAssetScript (asset_script s kind data) = Some (ty, own, i) \<and>
    drop i (asset_script s kind data) = data @ [OP_DROP]"
proof -
  note shape = asset_script_shape [OF assms(1,2), of kind]
  obtain i where i: "asset_index (asset_script s kind data) = Some i"
    "asset_script s kind data ! i = byte_of_char kind" "drop (i + 1) (asset_script s kind data) = data @ [OP_DROP]"
    using shape(3) by blast
  show ?thesis
    using assms(3,4) shape(1,2) i by (auto simp: IsAssetScript_def byte_of_char_def)
qed

lemma asset_script_destination:
  assumes "length h = 20" "IsAssetScript (asset_script (GetScriptForDestination (CKeyID h)) kind data) = Some a"
  shows "ExtractDestination (asset_script (GetScriptForDestination (CKeyID h)) kind data) = Some (CKeyID h)"
proof -
  let ?s = "asset_script (GetScriptForDestination (CKeyID h)) kind data"
  have "31 < length ?s" using assms(2) by (auto simp: IsAssetScript_def split: if_splits)
  moreover have "take 20 (drop 3 ?s) = h"
    using assms(1) by (simp add: asset_script_def push_opcode_def push_data_def P2PKH_bytes)
  ultimately show ?thesis
    using assms(2) by (cases a) (auto simp: ExtractDestination_def Solver_def IsPayToScriptHash_def)
qed

lemma asset_script_address:
  assumes "length h = 20" "IsAssetScript (asset_script (GetScriptForDestination (CKeyID h)) kind data) = Some a"
  shows "script_address P (asset_script (GetScriptForDestination (CKeyID h)) kind data) = EncodeDestination P (CKeyID h)"
  using asset_script_destination [OF assms] by (simp add: script_address_def)

lemma from_index_asset_script:
  assumes "length h = 20" "length data < 110" "kind = CHR ''q'' \<Longrightarrow> 8 \<le> length data"
    and "(kind, ty, own) \<in> {(CHR ''t'', TX_TRANSFER_ASSET, False), (CHR ''q'', TX_NEW_ASSET, False),
      (CHR ''o'', TX_NEW_ASSET, True), (CHR ''r'', TX_REISSUE_ASSET, False)}"
    and "r (data @ [OP_DROP]) = Inr (x, [OP_DROP])"
  shows "\<exists>i. IsAssetScript (asset_script (GetScriptForDestination (CKeyID h)) kind data) = Some (ty, own, i) \<and>
    from_index P r (asset_script (GetScriptForDestination (CKeyID h)) kind data) i =
      Some (x, EncodeDestination P (CKeyID h))"
proof -
  let ?s = "GetScriptForDestination (CKeyID h)"
  have "length ?s = 25" using assms(1) by (simp add: P2PKH_bytes)
  from IsAssetScript_asset_script [OF this assms(2,3,4)] obtain i where
    i: "IsAssetScript (asset_script ?s kind data) = Some (ty, own, i)"
    "drop i (asset_script ?s kind data) = data @ [OP_DROP]" by blast
  with asset_script_address [OF assms(1) i(1)] assms(5) show ?thesis by (simp add: from_index_def)
qed

lemma length_std_string: "length n \<le> 48 \<Longrightarrow> length (Serialize_std_string n) = 1 + length n"
  by (simp add: Serialize_std_string_def Serialize_bytes_def length_WriteCompactSize GetSizeOfCompactSize_def)

lemma length_asset_hash: "length (WriteAssetHash h) \<le> 34"
  by (simp add: WriteAssetHash_def Serialize_bytes_def length_WriteCompactSize GetSizeOfCompactSize_def)

lemma length_asset_ints: "length (Serialize_int64 x) = 8" "length (Serialize_int8 x) = 1"
  by (simp_all add: Serialize_int64_def ser_writedata64_def Serialize_int8_def ser_writedata8_def le_bytes_def)

lemma length_asset_data:
  "length (strName a) \<le> 48 \<Longrightarrow> length (Serialize_CNewAsset a) < 110 \<and> 8 \<le> length (Serialize_CNewAsset a)"
  "length (t_strName t) \<le> 48 \<Longrightarrow> length (Serialize_CAssetTransfer t) < 110"
  "length (r_strName r) \<le> 48 \<Longrightarrow> length (Serialize_CReissueAsset r) < 110"
  using length_asset_hash [of "strIPFSHash a"] length_asset_hash [of "t_message t"] length_asset_hash [of "r_strIPFSHash r"]
  by (simp_all add: Serialize_CNewAsset_def Serialize_CAssetTransfer_def Serialize_CReissueAsset_def
      length_std_string length_asset_ints)

lemma new_asset_script:
  assumes "length h = 20" "new_asset_ok a" "length (strName a) \<le> 48"
  shows "AssetFromScript P (CNewAsset_ConstructTransaction a (GetScriptForDestination (CKeyID h))) =
    Some (a, EncodeDestination P (CKeyID h))"
  using from_index_asset_script [OF assms(1), of "Serialize_CNewAsset a" "CHR ''q''" TX_NEW_ASSET False
      Unserialize_CNewAsset a P] length_asset_data(1) [OF assms(3)] new_asset_round_trip [OF assms(2)]
  by (auto simp: AssetFromScript_def CNewAsset_ConstructTransaction_def)

lemma owner_script:
  assumes "length h = 20" "length (strName a) < 48"
  shows "OwnerAssetFromScript P (CNewAsset_ConstructOwnerTransaction a (GetScriptForDestination (CKeyID h))) =
    Some (strName a @ OWNER_TAG, EncodeDestination P (CKeyID h))"
proof -
  have "name_ok (strName a @ OWNER_TAG)" using assms(2) by (simp add: name_ok_def)
  from std_string.round_trip [OF this] assms(2) show ?thesis
    using from_index_asset_script [OF assms(1), of "Serialize_std_string (strName a @ OWNER_TAG)" "CHR ''o''"
        TX_NEW_ASSET True Unserialize_std_string "strName a @ OWNER_TAG" P] length_std_string [of "strName a @ OWNER_TAG"]
    by (auto simp: OwnerAssetFromScript_def CNewAsset_ConstructOwnerTransaction_def)
qed

lemma transfer_script:
  assumes "length h = 20" "transfer_ok t" "length (t_strName t) \<le> 48"
  shows "TransferAssetFromScript P (CAssetTransfer_ConstructTransaction t (GetScriptForDestination (CKeyID h))) =
    Some (t, EncodeDestination P (CKeyID h))"
  using from_index_asset_script [OF assms(1), of "Serialize_CAssetTransfer t" "CHR ''t''" TX_TRANSFER_ASSET False
      Unserialize_CAssetTransfer t P] length_asset_data(2) [OF assms(3)] transfer_round_trip [OF assms(2)]
  by (auto simp: TransferAssetFromScript_def CAssetTransfer_ConstructTransaction_def)

lemma reissue_script:
  assumes "length h = 20" "reissue_ok r" "length (r_strName r) \<le> 48"
  shows "ReissueAssetFromScript P (CReissueAsset_ConstructTransaction r (GetScriptForDestination (CKeyID h))) =
    Some (r, EncodeDestination P (CKeyID h))"
  using from_index_asset_script [OF assms(1), of "Serialize_CReissueAsset r" "CHR ''r''" TX_REISSUE_ASSET False
      Unserialize_CReissueAsset r P] length_asset_data(3) [OF assms(3)] reissue_round_trip [OF assms(2)]
  by (auto simp: ReissueAssetFromScript_def CReissueAsset_ConstructTransaction_def)

end
