(* ===== verification/XC_XAccount.thy ===== *)
theory XC_XAccount
  imports XC_RootName XC_AssetScript
begin

text \<open>
  X accounts on the chain (\<^verbatim>\<open>src/src/assets/xaccount.cpp\<close>): the output that assigns an account, the
  identity claim with its dummy input, the site proof, and the map from accounts to root assets with its
  copy in the assets database. \<open>P\<close> is the address format of the network.
\<close>

section \<open>Transactions that create assets\<close>

definition CheckIssueDataTx :: "CTxOut \<Rightarrow> bool" where
  "CheckIssueDataTx o1 = IsNewAsset (scriptPubKey o1)"

definition CheckOwnerDataTx :: "CTxOut \<Rightarrow> bool" where
  "CheckOwnerDataTx o1 = IsOwnerAsset (scriptPubKey o1)"

definition CheckReissueDataTx :: "CTxOut \<Rightarrow> bool" where
  "CheckReissueDataTx o1 = IsReissueAsset (scriptPubKey o1)"

definition Tx_IsNewAsset :: "base58_prefixes \<Rightarrow> CTransaction \<Rightarrow> bool" where
  "Tx_IsNewAsset P tx \<longleftrightarrow>
     3 \<le> length (vout tx) \<and> CheckIssueDataTx (vout tx ! (length (vout tx) - 1)) \<and>
     CheckOwnerDataTx (vout tx ! (length (vout tx) - 2)) \<and>
     (let s = scriptPubKey (vout tx ! (length (vout tx) - 1))
      in \<not> IsScriptNewUniqueAsset P s \<and> \<not> IsScriptNewRestrictedAsset P s)"

section \<open>The assignment output\<close>

definition MakeXAccountAssignmentScript :: "string \<Rightarrow> CScript" where
  "MakeXAccountAssignmentScript xId = op_return_script (bytes_of ''XID1'' @ bytes_of xId)"

definition ParseXAccountAssignmentScript :: "CScript \<Rightarrow> string option" where
  "ParseXAccountAssignmentScript s =
     (case op_return_data s of None \<Rightarrow> None
      | Some data \<Rightarrow>
          if length data < 5 then None
          else if take 4 data \<noteq> bytes_of ''XID1'' then None
          else let xId = string_of (drop 4 data)
               in if xId = [] \<or> MAX_X_HANDLE < length xId then None else Some xId)"

fun first_assignment :: "CTxOut list \<Rightarrow> string option" where
  "first_assignment [] = None"
| "first_assignment (o1 # os) =
     (case ParseXAccountAssignmentScript (scriptPubKey o1) of None \<Rightarrow> first_assignment os | Some xId \<Rightarrow> Some xId)"

definition ParseXAccountAssignment :: "CTransaction \<Rightarrow> string option" where
  "ParseXAccountAssignment tx = first_assignment (vout tx)"

section \<open>Identity claims\<close>

abbreviation "XACCOUNT_DUMMY_N \<equiv> (0x58494431 :: u32)"

definition MakeXAccountDummyPrevout :: "string \<Rightarrow> COutPoint" where
  "MakeXAccountDummyPrevout hnd =
     \<lparr>op_hash = hash256_parts [bytes_of ''xcoin-xid-vin-v1'', bytes_of hnd], op_n = XACCOUNT_DUMMY_N\<rparr>"

definition IsXAccountDummyPrevout :: "COutPoint \<Rightarrow> bool" where
  "IsXAccountDummyPrevout o1 \<longleftrightarrow> op_n o1 = XACCOUNT_DUMMY_N \<and> \<not> blob_IsNull (op_hash o1)"

text \<open>The handle of the claim, or \<open>None\<close> when the transaction is not one.\<close>

definition XAccountIdentityClaim :: "base58_prefixes \<Rightarrow> CTransaction \<Rightarrow> string option" where
  "XAccountIdentityClaim P tx =
     (if IsCoinBase tx \<or> HasWitness tx then None
      else if length (vin tx) \<noteq> 1 then None
      else let txin = vin tx ! 0
           in if OutPoint_IsNull (prevout txin) \<or> \<not> IsXAccountDummyPrevout (prevout txin) then None
              else if scriptSig txin \<noteq> [] \<or> length (scriptWitness txin) \<noteq> 0 then None
              else if nSequence txin \<noteq> SEQUENCE_FINAL then None
              else if \<not> list_all (\<lambda>o1. nValue o1 = 0) (vout tx) then None
              else case ParseXAccountAssignment tx of None \<Rightarrow> None
                   | Some xid \<Rightarrow>
                       (case ParseXAccountSpec xid of Inl e \<Rightarrow> None
                        | Inr acc \<Rightarrow>
                            if prevout txin \<noteq> MakeXAccountDummyPrevout (handle acc) then None
                            else if \<not> Tx_IsNewAsset P tx then None
                            else Some (handle acc)))"

definition IsXAccountIdentityClaim :: "base58_prefixes \<Rightarrow> CTransaction \<Rightarrow> bool" where
  "IsXAccountIdentityClaim P tx \<longleftrightarrow> XAccountIdentityClaim P tx \<noteq> None"

definition IsXAccountDummyInput :: "base58_prefixes \<Rightarrow> CTransaction \<Rightarrow> nat \<Rightarrow> bool" where
  "IsXAccountDummyInput P tx nIn \<longleftrightarrow>
     nIn < length (vin tx) \<and> IsXAccountDummyPrevout (prevout (vin tx ! nIn)) \<and> IsXAccountIdentityClaim P tx"

text \<open>\<open>None\<close> when the transaction is accepted.\<close>

definition CheckXAccountDummyInputs :: "base58_prefixes \<Rightarrow> CTransaction \<Rightarrow> string option" where
  "CheckXAccountDummyInputs P tx =
     (let dummyCount = length (filter (\<lambda>i. IsXAccountDummyPrevout (prevout i)) (vin tx))
      in if dummyCount = 0 then None
         else if IsCoinBase tx then Some ''bad-txns-coinbase-xid-dummy''
         else if \<not> IsXAccountIdentityClaim P tx then Some ''bad-txns-xid-dummy-not-identity''
         else if dummyCount \<noteq> 1 then Some ''bad-txns-xid-dummy-count''
         else None)"

section \<open>Site proofs\<close>

abbreviation "XCLAIM_PROOF_VERSION \<equiv> (1 :: u8)"
abbreviation "XCLAIM_PROOF_PAYLOAD_SIZE \<equiv> (4 + 1 + 1 + 8 + 4 + 65 :: nat)"
abbreviation "XCLAIM_PROOF_MAX_FUTURE \<equiv> (3600 :: int)"
abbreviation "MAX_XCLAIM_DATACARRIER_BYTES \<equiv> (160 :: nat)"

record XClaimProof =
  xp_keyId :: u8
  xp_userId :: u64
  xp_expiry :: u32
  xp_sig :: bytes

definition BuildXClaimProofPayload :: "u8 \<Rightarrow> u64 \<Rightarrow> u32 \<Rightarrow> bytes \<Rightarrow> bytes option" where
  "BuildXClaimProofPayload keyId uid expiry sig =
     (if length sig \<noteq> 65 then None
      else Some (bytes_of ''XPF1'' @ [XCLAIM_PROOF_VERSION, keyId] @ WriteLE64 uid @ WriteLE32 expiry @ sig))"

definition MakeXAccountAssignmentScriptWithProof :: "string \<Rightarrow> bytes \<Rightarrow> CScript" where
  "MakeXAccountAssignmentScriptWithProof xId proofPayload =
     push_data (op_return_script (bytes_of ''XID1'' @ bytes_of xId)) proofPayload"

definition ParseXClaimProofPayload :: "bytes \<Rightarrow> XClaimProof option" where
  "ParseXClaimProofPayload data =
     (if length data \<noteq> XCLAIM_PROOF_PAYLOAD_SIZE then None
      else if take 4 data \<noteq> bytes_of ''XPF1'' then None
      else if data ! 4 \<noteq> XCLAIM_PROOF_VERSION then None
      else Some \<lparr>xp_keyId = data ! 5, xp_userId = ReadLE64 (drop 6 data), xp_expiry = ReadLE32 (drop 14 data),
                 xp_sig = drop 18 data\<rparr>)"

fun claim_output :: "CTxOut list \<Rightarrow> CScript option" where
  "claim_output [] = None"
| "claim_output (o1 # os) =
     (case ParseXAccountAssignmentScript (scriptPubKey o1) of None \<Rightarrow> claim_output os
      | Some xid \<Rightarrow> Some (scriptPubKey o1))"

definition ParseXClaimProof :: "CTransaction \<Rightarrow> XClaimProof option" where
  "ParseXClaimProof tx =
     (case claim_output (vout tx) of None \<Rightarrow> None
      | Some s \<Rightarrow>
          (case GetOp2 s of None \<Rightarrow> None
           | Some (opcode, first, pc) \<Rightarrow>
               if opcode \<noteq> OP_RETURN then None
               else (case GetOp2 pc of None \<Rightarrow> None
                     | Some (opcode, first, pc) \<Rightarrow>
                         (case GetOp2 pc of None \<Rightarrow> None
                          | Some (opcode, second, pc) \<Rightarrow>
                              if pc \<noteq> [] then None else ParseXClaimProofPayload second))))"

definition XClaimProofDigest :: "string \<Rightarrow> u64 \<Rightarrow> uint160 \<Rightarrow> string \<Rightarrow> u32 \<Rightarrow> u8 \<Rightarrow> uint256" where
  "XClaimProofDigest hnd uid addrHash root expiry keyId =
     (let hwrite = min 255 (length hnd); rwrite = min 255 (length root)
      in hash256_parts ([bytes_of ''xcoin-xpf-v1'', [of_nat hwrite]] @
           (if hwrite = 0 then [] else [bytes_of (take hwrite hnd)]) @
           [WriteLE64 uid, addrHash, [of_nat rwrite]] @
           (if rwrite = 0 then [] else [bytes_of (take rwrite root)]) @
           [WriteLE32 expiry, [keyId]]))"

text \<open>The loop of \<^verbatim>\<open>XClaimBindFields\<close>: the owner's key hash, and the root's with its name.\<close>

fun bind_outputs ::
  "base58_prefixes \<Rightarrow> CTxOut list \<Rightarrow> uint160 option \<Rightarrow> (uint160 \<times> string) option \<Rightarrow>
     (uint160 option \<times> (uint160 \<times> string) option) option" where
  "bind_outputs P [] owner root = Some (owner, root)"
| "bind_outputs P (o1 # os) owner root =
     (case IsAssetScript (scriptPubKey o1) of
        Some (TX_NEW_ASSET, fOwner, i) \<Rightarrow>
          (case ExtractDestination (scriptPubKey o1) of
             Some (CKeyID kid) \<Rightarrow>
               if fOwner then (if owner \<noteq> None then None else bind_outputs P os (Some kid) root)
               else if root \<noteq> None then None
               else (case AssetFromScript P (scriptPubKey o1) of None \<Rightarrow> None
                     | Some (a, addr) \<Rightarrow>
                         if strName a = [] \<or> 255 < length (strName a) then None
                         else bind_outputs P os owner (Some (kid, strName a)))
           | _ \<Rightarrow> None)
      | _ \<Rightarrow> bind_outputs P os owner root)"

definition XClaimBindFields :: "base58_prefixes \<Rightarrow> CTransaction \<Rightarrow> (string \<times> uint160 \<times> string) option" where
  "XClaimBindFields P tx =
     (case XAccountIdentityClaim P tx of None \<Rightarrow> None
      | Some hnd \<Rightarrow>
          if hnd = [] \<or> 255 < length hnd then None
          else (case bind_outputs P (vout tx) None None of
                  Some (Some ownerId, Some (rootId, root)) \<Rightarrow>
                    if rootId \<noteq> ownerId then None else Some (hnd, rootId, root)
                | _ \<Rightarrow> None))"

type_synonym proof_pubs = "(u8, CPubKey) omap"

datatype xclaim_error = xclaim_proof_missing | xclaim_proof_expired | xclaim_proof_mismatch | xclaim_proof_bad_sig

definition CheckXClaimProof ::
  "'p secp256k1 \<Rightarrow> base58_prefixes \<Rightarrow> proof_pubs \<Rightarrow> CTransaction \<Rightarrow> int \<Rightarrow> xclaim_error option" where
  "CheckXClaimProof S P pubs tx now =
     (case ParseXClaimProof tx of None \<Rightarrow> Some xclaim_proof_missing
      | Some proof1 \<Rightarrow>
          let exp = uint (xp_expiry proof1)
          in if now < 0 \<or> exp \<le> now \<or> XCLAIM_PROOF_MAX_FUTURE < exp - now then Some xclaim_proof_expired
             else case XClaimBindFields P tx of None \<Rightarrow> Some xclaim_proof_mismatch
                  | Some (hnd, addr, root) \<Rightarrow>
                      (case map_of pubs (xp_keyId proof1) of None \<Rightarrow> Some xclaim_proof_bad_sig
                       | Some pub \<Rightarrow>
                           if \<not> CPubKey_IsFullyValid S pub \<or> length (xp_sig proof1) \<noteq> 65 then Some xclaim_proof_bad_sig
                           else (case CPubKey_RecoverCompact S (XClaimProofDigest hnd (xp_userId proof1) addr root
                                        (xp_expiry proof1) (xp_keyId proof1)) (xp_sig proof1) of
                                   None \<Rightarrow> Some xclaim_proof_bad_sig
                                 | Some rec \<Rightarrow> if rec \<noteq> pub then Some xclaim_proof_bad_sig else None)))"

definition XClaimProofEnforced :: "'p secp256k1 \<Rightarrow> proof_pubs \<Rightarrow> bool" where
  "XClaimProofEnforced S pubs \<longleftrightarrow> pubs \<noteq> [] \<and> list_all (\<lambda>kv. CPubKey_IsFullyValid S (snd kv)) pubs"

definition XClaimProofBlocksInclusion ::
  "'p secp256k1 \<Rightarrow> base58_prefixes \<Rightarrow> proof_pubs \<Rightarrow> int \<Rightarrow> CTransaction \<Rightarrow> bool" where
  "XClaimProofBlocksInclusion S P pubs now tx \<longleftrightarrow>
     XClaimProofEnforced S pubs \<and> IsXAccountIdentityClaim P tx \<and> CheckXClaimProof S P pubs tx now \<noteq> None"

definition XClaimDatacarrierExempt :: "base58_prefixes \<Rightarrow> bool \<Rightarrow> nat \<Rightarrow> CTransaction \<Rightarrow> CScript \<Rightarrow> bool" where
  "XClaimDatacarrierExempt P fAcceptDatacarrier nMaxDatacarrierBytes tx s \<longleftrightarrow>
     fAcceptDatacarrier \<and> nMaxDatacarrierBytes < length s \<and> length s \<le> MAX_XCLAIM_DATACARRIER_BYTES \<and>
     s \<noteq> [] \<and> s ! 0 = OP_RETURN \<and> IsXAccountIdentityClaim P tx \<and> ParseXClaimProof tx \<noteq> None"

section \<open>Assignments\<close>

text \<open>
  The two maps of the process and the rows of the assets database, which the node reloads at start; the
  mempool's view of the claims it holds.
\<close>

record XAssignments =
  mapXAccountToAsset :: "(string, string) omap"
  mapAssetToXAccount :: "(string, string) omap"
  db_rows :: "(string, string) omap"

record MempoolAssets =
  mapAssetToHash :: "(string, uint256) omap"
  mapHashToAsset :: "(uint256, string) omap"
  mapXAccountToHash :: "(string, uint256) omap"
  mapHashToXAccount :: "(uint256, string) omap"

text \<open>
  \<open>None\<close> when the account is free; otherwise the asset name, which stays empty for a mempool entry
  without one.
\<close>

definition CheckIfXAccountAssigned :: "XAssignments \<Rightarrow> MempoolAssets \<Rightarrow> string \<Rightarrow> string option" where
  "CheckIfXAccountAssigned X M xId =
     (case map_of (mapXAccountToAsset X) xId of Some n \<Rightarrow> Some n
      | None \<Rightarrow>
          (case map_of (mapXAccountToHash M) xId of None \<Rightarrow> None
           | Some h \<Rightarrow> Some (case map_of (mapHashToAsset M) h of None \<Rightarrow> [] | Some n \<Rightarrow> n)))"

definition AddXAccountAssignment :: "string \<Rightarrow> string \<Rightarrow> XAssignments \<Rightarrow> bool \<times> XAssignments" where
  "AddXAccountAssignment xId assetName X =
     (case map_of (mapXAccountToAsset X) xId of
        Some n \<Rightarrow> if n \<noteq> assetName then (False, X) else
          (True, \<lparr>mapXAccountToAsset = map_put xId assetName (mapXAccountToAsset X),
                  mapAssetToXAccount = map_put assetName xId (mapAssetToXAccount X),
                  db_rows = map_put xId assetName (db_rows X)\<rparr>)
      | None \<Rightarrow>
          (True, \<lparr>mapXAccountToAsset = map_put xId assetName (mapXAccountToAsset X),
                  mapAssetToXAccount = map_put assetName xId (mapAssetToXAccount X),
                  db_rows = map_put xId assetName (db_rows X)\<rparr>))"

definition RemoveXAccountAssignment :: "string \<Rightarrow> XAssignments \<Rightarrow> XAssignments" where
  "RemoveXAccountAssignment xId X =
     (case map_of (mapXAccountToAsset X) xId of None \<Rightarrow> X
      | Some asset \<Rightarrow>
          \<lparr>mapXAccountToAsset = map_del xId (mapXAccountToAsset X),
           mapAssetToXAccount = map_del asset (mapAssetToXAccount X),
           db_rows = map_del xId (db_rows X)\<rparr>)"

definition LoadXAccountAssignments :: "XAssignments \<Rightarrow> XAssignments" where
  "LoadXAccountAssignments X =
     \<lparr>mapXAccountToAsset = db_rows X,
      mapAssetToXAccount = foldl (\<lambda>m kv. map_put (snd kv) (fst kv) m) [] (db_rows X),
      db_rows = db_rows X\<rparr>"

section \<open>Issuing under an own root\<close>

fun top_level :: "nat \<Rightarrow> string \<Rightarrow> string" where
  "top_level 0 root = root"
| "top_level (Suc n) root =
     (let parent = GetParentName root in if parent = [] \<or> parent = root then root else top_level n parent)"

definition TopLevelRootName :: "string \<Rightarrow> string" where
  "TopLevelRootName assetName = top_level 32 assetName"

datatype issue_error = no_session | claim_first | not_own_root string

text \<open>\<open>session\<close> is the handle of the signed-in session, if there is one.\<close>

definition RequireIssueUnderOwnMain ::
  "XAssignments \<Rightarrow> MempoolAssets \<Rightarrow> string option \<Rightarrow> string \<Rightarrow> issue_error option" where
  "RequireIssueUnderOwnMain X M session assetName =
     (case session of None \<Rightarrow> Some no_session
      | Some hnd \<Rightarrow>
          (case CheckIfXAccountAssigned X M hnd of None \<Rightarrow> Some claim_first
           | Some ownRoot \<Rightarrow>
               if ownRoot = [] then Some claim_first
               else let root = TopLevelRootName assetName
                    in if root = [] \<or> root \<noteq> ownRoot then Some (not_own_root ownRoot) else None))"

section \<open>A claim moves no coins\<close>

lemma dummy_not_null: "op_n o1 = XACCOUNT_DUMMY_N \<Longrightarrow> \<not> OutPoint_IsNull o1"
  by (simp add: OutPoint_IsNull_def)

lemma identity_claim_iff:
  "XAccountIdentityClaim P tx = Some hnd \<longleftrightarrow>
     Tx_IsNewAsset P tx \<and> list_all (\<lambda>o1. nValue o1 = 0) (vout tx) \<and>
     (\<exists>xid acc. ParseXAccountAssignment tx = Some xid \<and> ParseXAccountSpec xid = Inr acc \<and> handle acc = hnd) \<and>
     \<not> blob_IsNull (op_hash (MakeXAccountDummyPrevout hnd)) \<and>
     vin tx = [\<lparr>prevout = MakeXAccountDummyPrevout hnd, scriptSig = [], nSequence = SEQUENCE_FINAL, scriptWitness = []\<rparr>]"
  (is "?l = ?r")
proof
  assume l: ?l
  then obtain txin where v: "vin tx = [txin]"
    by (cases "vin tx"; cases "tl (vin tx)") (auto simp: XAccountIdentityClaim_def split: if_splits)
  with l show ?r
    by (cases txin) (auto simp: XAccountIdentityClaim_def IsXAccountDummyPrevout_def Let_def
        split: if_splits option.splits sum.splits)
next
  assume r: ?r
  let ?in = "\<lparr>prevout = MakeXAccountDummyPrevout hnd, scriptSig = [], nSequence = SEQUENCE_FINAL, scriptWitness = []\<rparr>"
  have n: "op_n (MakeXAccountDummyPrevout hnd) = XACCOUNT_DUMMY_N" by (simp add: MakeXAccountDummyPrevout_def)
  have "\<not> IsCoinBase tx" "\<not> HasWitness tx"
    using r dummy_not_null [OF n] by (simp_all add: IsCoinBase_def HasWitness_def)
  with r dummy_not_null [OF n] n show ?l
    by (auto simp: XAccountIdentityClaim_def IsXAccountDummyPrevout_def)
qed

definition dummy_message :: "string \<Rightarrow> bytes" where
  "dummy_message hnd = bytes_of ''xcoin-xid-vin-v1'' @ bytes_of hnd"

lemma dummy_message_inject: "dummy_message h = dummy_message h' \<longleftrightarrow> h = h'"
  using inj_bytes_of by (auto simp: dummy_message_def inj_eq)

lemma dummy_prevout_eq_iff:
  "MakeXAccountDummyPrevout h = MakeXAccountDummyPrevout h' \<longleftrightarrow>
     h = h' \<or> sha256_collision (dummy_message h) (dummy_message h') \<or>
     sha256_collision (fips_sha256 (dummy_message h)) (fips_sha256 (dummy_message h'))"
proof -
  have "MakeXAccountDummyPrevout h = MakeXAccountDummyPrevout h' \<longleftrightarrow>
      fips_sha256 (fips_sha256 (dummy_message h)) = fips_sha256 (fips_sha256 (dummy_message h'))"
    by (simp add: MakeXAccountDummyPrevout_def hash256_parts_fips dummy_message_def)
  then show ?thesis using dummy_message_inject [of h h'] by (auto simp: sha256_collision_def)
qed

lemma dummy_input_only_in_claim:
  assumes "CheckXAccountDummyInputs P tx = None" "i \<in> set (vin tx)" "IsXAccountDummyPrevout (prevout i)"
  obtains h where "XAccountIdentityClaim P tx = Some h" "map prevout (vin tx) = [MakeXAccountDummyPrevout h]"
proof -
  have "length (filter (\<lambda>i. IsXAccountDummyPrevout (prevout i)) (vin tx)) \<noteq> 0"
    using assms(2,3) by (auto simp: filter_empty_conv)
  with assms(1) have "IsXAccountIdentityClaim P tx" by (simp add: CheckXAccountDummyInputs_def split: if_splits)
  then show thesis using that by (auto simp: IsXAccountIdentityClaim_def identity_claim_iff)
qed

text \<open>
  C35. An identity claim is worth nothing and takes its place by its input. Every output carries zero coins, and a
  transaction that passes the check of dummy inputs has an input in common with the claim exactly when it is itself a
  claim of the same handle: no other transaction can take the claim's place, and two claims of a handle exclude each
  other. The only other way to the same input is that the messages hashed for the two handles (or their first hashes)
  are a collision of SHA-256.
\<close>

theorem identity_claims_conflict:
  assumes "XAccountIdentityClaim P tx = Some h" "CheckXAccountDummyInputs P tx' = None"
  shows "(\<Sum>o1 \<leftarrow> vout tx. nValue o1) = 0 \<and>
    (set (map prevout (vin tx)) \<inter> set (map prevout (vin tx')) \<noteq> {} \<longleftrightarrow>
      (\<exists>h'. XAccountIdentityClaim P tx' = Some h' \<and>
        (h = h' \<or> sha256_collision (dummy_message h) (dummy_message h') \<or>
         sha256_collision (fips_sha256 (dummy_message h)) (fips_sha256 (dummy_message h')))))"
proof
  have "list_all (\<lambda>o1. nValue o1 = 0) os \<Longrightarrow> (\<Sum>o1 \<leftarrow> os. nValue o1) = 0" for os by (induction os) auto
  from this [of "vout tx"] assms(1) show "(\<Sum>o1 \<leftarrow> vout tx. nValue o1) = 0" unfolding identity_claim_iff by blast
  have v: "map prevout (vin tx) = [MakeXAccountDummyPrevout h]" and d: "IsXAccountDummyPrevout (MakeXAccountDummyPrevout h)"
    using assms(1) by (auto simp: identity_claim_iff IsXAccountDummyPrevout_def MakeXAccountDummyPrevout_def)
  have "\<exists>h'. XAccountIdentityClaim P tx' = Some h' \<and> MakeXAccountDummyPrevout h = MakeXAccountDummyPrevout h'"
    if shared: "MakeXAccountDummyPrevout h \<in> set (map prevout (vin tx'))"
  proof -
    obtain i where i: "i \<in> set (vin tx')" "prevout i = MakeXAccountDummyPrevout h" using shared by auto
    obtain h' where "XAccountIdentityClaim P tx' = Some h'" "map prevout (vin tx') = [MakeXAccountDummyPrevout h']"
      using dummy_input_only_in_claim [OF assms(2) i(1)] i(2) d by auto
    with shared show ?thesis by simp
  qed
  moreover have "map prevout (vin tx') = [MakeXAccountDummyPrevout h']" if "XAccountIdentityClaim P tx' = Some h'" for h'
    using that by (simp add: identity_claim_iff)
  ultimately show "set (map prevout (vin tx)) \<inter> set (map prevout (vin tx')) \<noteq> {} \<longleftrightarrow>
      (\<exists>h'. XAccountIdentityClaim P tx' = Some h' \<and>
        (h = h' \<or> sha256_collision (dummy_message h) (dummy_message h') \<or>
         sha256_collision (fips_sha256 (dummy_message h)) (fips_sha256 (dummy_message h'))))"
    unfolding v dummy_prevout_eq_iff [symmetric] by auto
qed

section \<open>What a site proof signs\<close>

definition proof_message :: "string \<Rightarrow> u64 \<Rightarrow> uint160 \<Rightarrow> string \<Rightarrow> u32 \<Rightarrow> u8 \<Rightarrow> bytes" where
  "proof_message hnd uid addr root expiry keyId =
     bytes_of ''xcoin-xpf-v1'' @ of_nat (length hnd) # bytes_of hnd @ WriteLE64 uid @ addr @
     of_nat (length root) # bytes_of root @ WriteLE32 expiry @ [keyId]"

lemma XClaimProofDigest_message:
  assumes "length hnd \<le> 255" "length root \<le> 255"
  shows "XClaimProofDigest hnd uid addr root expiry keyId =
    fips_sha256 (fips_sha256 (proof_message hnd uid addr root expiry keyId))"
proof -
  have m: "min 255 (length hnd) = length hnd" "min 255 (length root) = length root" using assms by simp_all
  have n: "bytes_of [] = []" by simp
  show ?thesis
    unfolding XClaimProofDigest_def m hash256_parts_fips proof_message_def Let_def by (simp add: n)
qed

lemma byte_length_inject:
  assumes "(of_nat (length a) :: u8) = of_nat (length b)" "length a \<le> 255" "length b \<le> 255"
  shows "length a = length b"
proof -
  have "unat (of_nat (length a) :: u8) = unat (of_nat (length b) :: u8)" using assms(1) by simp
  with assms(2,3) show ?thesis by (simp add: unat_of_nat)
qed

lemma proof_message_inject:
  assumes "proof_message h u a r e k = proof_message h' u' a' r' e' k'"
    and "length h \<le> 255" "length h' \<le> 255" "length r \<le> 255" "length r' \<le> 255" "length a = 20" "length a' = 20"
  shows "h = h' \<and> u = u' \<and> a = a' \<and> r = r' \<and> e = e' \<and> k = k'"
proof -
  have c: "of_nat (length h) # bytes_of h @ WriteLE64 u @ a @ of_nat (length r) # bytes_of r @ WriteLE32 e @ [k] =
      of_nat (length h') # bytes_of h' @ WriteLE64 u' @ a' @ of_nat (length r') # bytes_of r' @ WriteLE32 e' @ [k']"
    using assms(1) by (simp add: proof_message_def)
  then have "length h = length h'" using byte_length_inject assms(2,3) by auto
  with c have "h = h'" and c2: "WriteLE64 u @ a @ of_nat (length r) # bytes_of r @ WriteLE32 e @ [k] =
      WriteLE64 u' @ a' @ of_nat (length r') # bytes_of r' @ WriteLE32 e' @ [k']"
    using inj_bytes_of by (auto simp: inj_eq)
  from c2 have w: "WriteLE64 u = WriteLE64 u'" and c3: "a @ of_nat (length r) # bytes_of r @ WriteLE32 e @ [k] =
      a' @ of_nat (length r') # bytes_of r' @ WriteLE32 e' @ [k']" by simp_all
  from c3 assms(6,7) have "a = a'" and c4: "of_nat (length r) # bytes_of r @ WriteLE32 e @ [k] =
      of_nat (length r') # bytes_of r' @ WriteLE32 e' @ [k']" by simp_all
  then have "length r = length r'" using byte_length_inject assms(4,5) by auto
  with c4 have "r = r'" and c5: "WriteLE32 e @ [k] = WriteLE32 e' @ [k']" using inj_bytes_of by (auto simp: inj_eq)
  from w have "u = u'" using ReadWrite(3) [of u "[]"] ReadWrite(3) [of u' "[]"] by simp
  moreover from c5 have "e = e'" "k = k'" using ReadWrite(2) [of e "[]"] ReadWrite(2) [of e' "[]"] by simp_all
  ultimately show ?thesis using \<open>h = h'\<close> \<open>a = a'\<close> \<open>r = r'\<close> by simp
qed

lemma asset_key_length:
  assumes "IsAssetScript s = Some a" "ExtractDestination s = Some (CKeyID kid)"
  shows "length kid = 20"
proof -
  have l: "31 < length s" using assms(1) by (auto simp: IsAssetScript_def split: if_splits)
  obtain t own i where "a = (t, own, i)" by (cases a)
  with assms l show ?thesis by (auto simp: ExtractDestination_def Solver_def IsPayToScriptHash_def)
qed

lemma bind_outputs_sizes:
  assumes "bind_outputs P os owner root = Some (owner', Some (kid, n))"
    and "\<And>k n. root = Some (k, n) \<Longrightarrow> length k = 20 \<and> length n \<le> 255"
  shows "length kid = 20 \<and> length n \<le> 255"
  using assms
proof (induction os arbitrary: owner root)
  case (Cons o1 os)
  show ?case
  proof (cases "\<exists>own i k. IsAssetScript (scriptPubKey o1) = Some (TX_NEW_ASSET, own, i) \<and>
      ExtractDestination (scriptPubKey o1) = Some (CKeyID k)")
    case True
    then obtain own i k where a: "IsAssetScript (scriptPubKey o1) = Some (TX_NEW_ASSET, own, i)"
      and d: "ExtractDestination (scriptPubKey o1) = Some (CKeyID k)" by blast
    have k: "length k = 20" using asset_key_length [OF a d] .
    show ?thesis
    proof (cases own)
      case True
      with Cons.prems a d have "owner = None" "bind_outputs P os (Some k) root = Some (owner', Some (kid, n))"
        by (auto split: if_splits)
      from Cons.IH [OF this(2) Cons.prems(2)] show ?thesis .
    next
      case False
      then have "root = None" using Cons.prems(1) a d by (cases root) (auto split: if_splits)
      with False Cons.prems(1) a d obtain xa where xa: "AssetFromScript P (scriptPubKey o1) = Some xa"
        by (cases "AssetFromScript P (scriptPubKey o1)") auto
      obtain x addr where "xa = (x, addr)" by (cases xa)
      with xa False \<open>root = None\<close> Cons.prems(1) a d
      have x: "AssetFromScript P (scriptPubKey o1) = Some (x, addr)" "\<not> (strName x = [] \<or> 255 < length (strName x))"
        "bind_outputs P os owner (Some (k, strName x)) = Some (owner', Some (kid, n))"
        by (auto split: if_splits)
      from x(2) k show ?thesis by (intro Cons.IH [OF x(3)]) auto
    qed
  next
    case False
    with Cons.prems(1) have "bind_outputs P os owner root = Some (owner', Some (kid, n))"
      by (auto split: option.splits asset_tx.splits CTxDestination.splits)
    from Cons.IH [OF this Cons.prems(2)] show ?thesis .
  qed
qed auto

lemma XClaimBindFields_sizes:
  assumes "XClaimBindFields P tx = Some (h, a, r)"
  shows "length h \<le> 255" "length a = 20" "length r \<le> 255"
  using assms bind_outputs_sizes [of P "vout tx" None None]
  by (auto simp: XClaimBindFields_def split: option.splits if_splits prod.splits)

lemma CheckXClaimProof_accepts:
  "CheckXClaimProof S P pubs tx now = None \<longleftrightarrow>
     (\<exists>p h a r pub. ParseXClaimProof tx = Some p \<and> XClaimBindFields P tx = Some (h, a, r) \<and>
        map_of pubs (xp_keyId p) = Some pub \<and> CPubKey_IsFullyValid S pub \<and> length (xp_sig p) = 65 \<and>
        0 \<le> now \<and> now < uint (xp_expiry p) \<and> uint (xp_expiry p) \<le> now + XCLAIM_PROOF_MAX_FUTURE \<and>
        CPubKey_RecoverCompact S (XClaimProofDigest h (xp_userId p) a r (xp_expiry p) (xp_keyId p)) (xp_sig p) = Some pub)"
  unfolding CheckXClaimProof_def by (auto simp: Let_def split: option.splits if_splits prod.splits)

type_synonym approval = "string \<times> u64 \<times> uint160 \<times> string \<times> u32 \<times> u8"

definition approval_digest :: "approval \<Rightarrow> uint256" where
  "approval_digest q = (case q of (h, u, a, r, e, k) \<Rightarrow> XClaimProofDigest h u a r e k)"

definition approval_message :: "approval \<Rightarrow> bytes" where
  "approval_message q = (case q of (h, u, a, r, e, k) \<Rightarrow> proof_message h u a r e k)"

definition approval_sized :: "approval \<Rightarrow> bool" where
  "approval_sized q = (case q of (h, u, a, r, e, k) \<Rightarrow> length h \<le> 255 \<and> length r \<le> 255 \<and> length a = 20)"

lemma approval_digest_eq_iff:
  assumes "approval_sized q" "approval_sized q'"
  shows "approval_digest q = approval_digest q' \<longleftrightarrow> q = q' \<or> sha256_collision (approval_message q) (approval_message q') \<or>
    sha256_collision (fips_sha256 (approval_message q)) (fips_sha256 (approval_message q'))"
proof -
  have d: "approval_digest p = fips_sha256 (fips_sha256 (approval_message p))" if "approval_sized p" for p
    using that XClaimProofDigest_message
    by (cases p) (auto simp: approval_digest_def approval_message_def approval_sized_def)
  have "approval_message q = approval_message q' \<longrightarrow> q = q'"
    using assms proof_message_inject by (cases q; cases q') (auto simp: approval_message_def approval_sized_def)
  then show ?thesis unfolding d [OF assms(1)] d [OF assms(2)] by (auto simp: sha256_collision_def)
qed

text \<open>
  C34. A claim that passes the site-proof policy was approved as it stands. Where a node enforces the policy, the claims
  that its block templates do not leave out carry a proof that has not expired, and if the signature in it recovers
  the key of the site only for requests the site approved, then the claim's handle, the key that receives the root and
  the owner token, its root name, and the user id, expiry and key id of the proof are exactly those of an approval, so
  that a proof cannot be moved to another claim; otherwise the messages of the claim and of an approval (or their first
  hashes) are a collision of SHA-256. This is policy of the node: \<^verbatim>\<open>ConnectBlock\<close> does not ask for a proof.
\<close>

theorem claim_was_approved:
  assumes "XClaimProofEnforced S pubs" "IsXAccountIdentityClaim P tx" "\<not> XClaimProofBlocksInclusion S P pubs now tx"
    and unforged: "\<forall>p pub d. ParseXClaimProof tx = Some p \<longrightarrow> map_of pubs (xp_keyId p) = Some pub \<longrightarrow>
      CPubKey_RecoverCompact S d (xp_sig p) = Some pub \<longrightarrow> d \<in> approval_digest ` Approved"
    and sized: "\<forall>q \<in> Approved. approval_sized q"
  shows "\<exists>h a r p q. XClaimBindFields P tx = Some (h, a, r) \<and> ParseXClaimProof tx = Some p \<and>
    now < uint (xp_expiry p) \<and> uint (xp_expiry p) \<le> now + XCLAIM_PROOF_MAX_FUTURE \<and> q \<in> Approved \<and>
    (let c = (h, xp_userId p, a, r, xp_expiry p, xp_keyId p)
     in c = q \<or> sha256_collision (approval_message c) (approval_message q) \<or>
        sha256_collision (fips_sha256 (approval_message c)) (fips_sha256 (approval_message q)))"
proof -
  have "CheckXClaimProof S P pubs tx now = None" using assms(1-3) by (simp add: XClaimProofBlocksInclusion_def)
  then obtain p :: XClaimProof and h a r pub where pp: "ParseXClaimProof tx = Some p"
      and p: "XClaimBindFields P tx = Some (h, a, r)"
      "map_of pubs (xp_keyId p) = Some pub"
      "now < uint (xp_expiry p)" "uint (xp_expiry p) \<le> now + XCLAIM_PROOF_MAX_FUTURE"
      "CPubKey_RecoverCompact S (XClaimProofDigest h (xp_userId p) a r (xp_expiry p) (xp_keyId p)) (xp_sig p) = Some pub"
    unfolding CheckXClaimProof_accepts by blast
  let ?c = "(h, xp_userId p, a, r, xp_expiry p, xp_keyId p)"
  from unforged pp p(2,5) obtain q where q: "q \<in> Approved" "approval_digest ?c = approval_digest q"
    by (auto simp: approval_digest_def)
  have "approval_sized ?c" "approval_sized q"
    using XClaimBindFields_sizes [OF p(1)] sized q(1) by (simp_all add: approval_sized_def)
  note approval_digest_eq_iff [OF this]
  with p(1,3,4) pp q show ?thesis unfolding Let_def by blast
qed

section \<open>A proof that is built is accepted\<close>

lemma GetOp2_return: "GetOp2 (OP_RETURN # rest) = Some (OP_RETURN, [], rest)"
  by (simp add: GetOp2_plain)

lemma assignment_with_proof:
  assumes "xid \<noteq> []" "length xid \<le> MAX_X_HANDLE" "length payload < 2 ^ 32"
  shows "ParseXAccountAssignmentScript (MakeXAccountAssignmentScriptWithProof xid payload) = Some xid"
    and "\<exists>oc oc' pc. GetOp2 (MakeXAccountAssignmentScriptWithProof xid payload) =
        Some (OP_RETURN, [], drop 1 (MakeXAccountAssignmentScriptWithProof xid payload)) \<and>
      GetOp2 (drop 1 (MakeXAccountAssignmentScriptWithProof xid payload)) = Some (oc, bytes_of ''XID1'' @ bytes_of xid, pc) \<and>
      GetOp2 pc = Some (oc', payload, [])"
proof -
  let ?d = "bytes_of ''XID1'' @ bytes_of xid"
  have s: "MakeXAccountAssignmentScriptWithProof xid payload =
      OP_RETURN # push_header (length ?d) @ ?d @ push_header (length payload) @ payload"
    by (simp add: MakeXAccountAssignmentScriptWithProof_def op_return_script_def push_data_def push_opcode_def)
  have "length ?d < 2 ^ 32" using assms(2) by simp
  from GetOp2_push_data [OF this] obtain oc where
    g: "GetOp2 (push_header (length ?d) @ ?d @ push_header (length payload) @ payload) =
      Some (oc, ?d, push_header (length payload) @ payload)" by blast
  obtain oc' where g': "GetOp2 (push_header (length payload) @ payload) = Some (oc', payload, [])"
    using GetOp2_push_data [OF assms(3), of "[]"] by auto
  have "op_return_data (MakeXAccountAssignmentScriptWithProof xid payload) = Some ?d"
    using g by (simp add: op_return_data_def s)
  moreover have "take 4 ?d = bytes_of ''XID1''" "drop 4 ?d = bytes_of xid" "5 \<le> length ?d"
    using assms(1) by (cases xid; simp)+
  ultimately show "ParseXAccountAssignmentScript (MakeXAccountAssignmentScriptWithProof xid payload) = Some xid"
    using assms(1,2) by (simp add: ParseXAccountAssignmentScript_def Let_def)
  show "\<exists>oc oc' pc. GetOp2 (MakeXAccountAssignmentScriptWithProof xid payload) =
        Some (OP_RETURN, [], drop 1 (MakeXAccountAssignmentScriptWithProof xid payload)) \<and>
      GetOp2 (drop 1 (MakeXAccountAssignmentScriptWithProof xid payload)) = Some (oc, ?d, pc) \<and>
      GetOp2 pc = Some (oc', payload, [])"
    using g g' GetOp2_return by (simp add: s)
qed

lemma payload_round_trip:
  assumes "BuildXClaimProofPayload kid uid e sig = Some payload"
  shows "ParseXClaimProofPayload payload = Some \<lparr>xp_keyId = kid, xp_userId = uid, xp_expiry = e, xp_sig = sig\<rparr>"
    and "length payload = XCLAIM_PROOF_PAYLOAD_SIZE"
proof -
  have "length sig = 65" and p: "payload = bytes_of ''XPF1'' @ [XCLAIM_PROOF_VERSION, kid] @ WriteLE64 uid @ WriteLE32 e @ sig"
    using assms by (auto simp: BuildXClaimProofPayload_def split: if_splits)
  then show "length payload = XCLAIM_PROOF_PAYLOAD_SIZE" by simp
  moreover have "take 4 payload = bytes_of ''XPF1''" "payload ! 4 = XCLAIM_PROOF_VERSION" "payload ! 5 = kid"
    "drop 6 payload = WriteLE64 uid @ WriteLE32 e @ sig" "drop 14 payload = WriteLE32 e @ sig" "drop 18 payload = sig"
    by (simp_all add: p nth_append)
  ultimately show "ParseXClaimProofPayload payload = Some \<lparr>xp_keyId = kid, xp_userId = uid, xp_expiry = e, xp_sig = sig\<rparr>"
    by (simp add: ParseXClaimProofPayload_def)
qed

lemma ParseXClaimProof_built:
  assumes "claim_output (vout tx) = Some (MakeXAccountAssignmentScriptWithProof xid payload)"
    and "xid \<noteq> []" "length xid \<le> MAX_X_HANDLE" "BuildXClaimProofPayload kid uid e sig = Some payload"
  shows "ParseXClaimProof tx = Some \<lparr>xp_keyId = kid, xp_userId = uid, xp_expiry = e, xp_sig = sig\<rparr>"
proof -
  note l = payload_round_trip [OF assms(4)]
  then have "length payload < 2 ^ 32" by simp
  from assignment_with_proof(2) [OF assms(2,3) this] l(1) show ?thesis
    by (auto simp: ParseXClaimProof_def assms(1))
qed

lemma built_proof_accepted:
  assumes "secp_ok S" "CKey_ok S key" "map_of pubs kid = Some (CKey_GetPubKey S key)"
    and "XClaimBindFields P tx = Some (h, a, r)" "CKey_SignCompact S key (XClaimProofDigest h uid a r e kid) = Some sig"
    and "BuildXClaimProofPayload kid uid e sig = Some payload"
    and "claim_output (vout tx) = Some (MakeXAccountAssignmentScriptWithProof xid payload)" "xid \<noteq> []" "length xid \<le> MAX_X_HANDLE"
    and "0 \<le> now" "now < uint e" "uint e \<le> now + XCLAIM_PROOF_MAX_FUTURE"
  shows "CheckXClaimProof S P pubs tx now = None"
  unfolding CheckXClaimProof_accepts
  using assms ParseXClaimProof_built [OF assms(7-9,6)] SignCompact_RecoverCompact [OF assms(1,2,5)]
    CKey_GetPubKey_valid [OF assms(1)]
  by (intro exI [of _ "\<lparr>xp_keyId = kid, xp_userId = uid, xp_expiry = e, xp_sig = sig\<rparr>"] exI) auto

section \<open>Issuing transactions\<close>

definition issue_out :: "uint160 \<Rightarrow> CNewAsset \<Rightarrow> CTxOut" where
  "issue_out h a = \<lparr>nValue = 0, scriptPubKey = CNewAsset_ConstructTransaction a (GetScriptForDestination (CKeyID h))\<rparr>"

definition owner_out :: "uint160 \<Rightarrow> CNewAsset \<Rightarrow> CTxOut" where
  "owner_out h a = \<lparr>nValue = 0, scriptPubKey = CNewAsset_ConstructOwnerTransaction a (GetScriptForDestination (CKeyID h))\<rparr>"

lemma issue_out_kind:
  assumes "length h = 20" "new_asset_ok a" "length (strName a) \<le> 48"
  shows "\<exists>i. IsAssetScript (scriptPubKey (issue_out h a)) = Some (TX_NEW_ASSET, False, i)"
    and "AssetFromScript P (scriptPubKey (issue_out h a)) = Some (a, EncodeDestination P (CKeyID h))"
    and "ExtractDestination (scriptPubKey (issue_out h a)) = Some (CKeyID h)"
proof -
  show f: "AssetFromScript P (scriptPubKey (issue_out h a)) = Some (a, EncodeDestination P (CKeyID h))"
    using new_asset_script [OF assms] by (simp add: issue_out_def)
  then show i: "\<exists>i. IsAssetScript (scriptPubKey (issue_out h a)) = Some (TX_NEW_ASSET, False, i)"
    by (auto simp: AssetFromScript_def split: option.splits asset_tx.splits bool.splits)
  then show "ExtractDestination (scriptPubKey (issue_out h a)) = Some (CKeyID h)"
    using asset_script_destination [OF assms(1)]
    by (auto simp: issue_out_def CNewAsset_ConstructTransaction_def)
qed

lemma owner_out_kind:
  assumes "length h = 20" "length (strName a) < 48"
  shows "\<exists>i. IsAssetScript (scriptPubKey (owner_out h a)) = Some (TX_NEW_ASSET, True, i)"
    and "OwnerAssetFromScript P (scriptPubKey (owner_out h a)) = Some (strName a @ OWNER_TAG, EncodeDestination P (CKeyID h))"
    and "ExtractDestination (scriptPubKey (owner_out h a)) = Some (CKeyID h)"
proof -
  show f: "OwnerAssetFromScript P (scriptPubKey (owner_out h a)) = Some (strName a @ OWNER_TAG, EncodeDestination P (CKeyID h))"
    using owner_script [OF assms] by (simp add: owner_out_def)
  then show i: "\<exists>i. IsAssetScript (scriptPubKey (owner_out h a)) = Some (TX_NEW_ASSET, True, i)"
    by (auto simp: OwnerAssetFromScript_def split: option.splits asset_tx.splits bool.splits)
  then show "ExtractDestination (scriptPubKey (owner_out h a)) = Some (CKeyID h)"
    using asset_script_destination [OF assms(1)]
    by (auto simp: owner_out_def CNewAsset_ConstructOwnerTransaction_def)
qed

lemma nth_from_end: "length (xs @ [a, b]) - 1 = Suc (length xs)" "length (xs @ [a, b]) - 2 = length xs"
  by simp_all

lemma Tx_IsNewAsset_issue:
  assumes "length h = 20" "new_asset_ok a" "length (strName a) < 48" "vout tx = outs @ [owner_out h' a', issue_out h a]" "outs \<noteq> []"
    and "length h' = 20" "length (strName a') < 48"
    and "IsAssetNameValid (strName a) = (v, k)" "k \<noteq> Some UNIQUE" "k \<noteq> Some RESTRICTED"
  shows "Tx_IsNewAsset P tx"
proof -
  have a: "length (strName a) \<le> 48" using assms(3) by simp
  note i = issue_out_kind [OF assms(1,2) a] and ow = owner_out_kind [OF assms(6,7)]
  have "created_kind P (scriptPubKey (issue_out h a)) \<notin> {Some UNIQUE, Some RESTRICTED}"
    using i(2) [of P] assms(8-10) by (cases v) (auto simp: created_kind_def)
  moreover have "3 \<le> length (vout tx)" using assms(4,5) by (cases outs) auto
  moreover have "vout tx ! (length (vout tx) - 1) = issue_out h a" "vout tx ! (length (vout tx) - 2) = owner_out h' a'"
    by (simp_all add: assms(4) nth_append)
  ultimately show ?thesis
    using i(1) ow(1) by (auto simp: Tx_IsNewAsset_def CheckIssueDataTx_def CheckOwnerDataTx_def IsNewAsset_def
        IsOwnerAsset_def IsScriptNewUniqueAsset_def IsScriptNewRestrictedAsset_def Let_def)
qed

section \<open>An example claim\<close>

text \<open>The claim of \<^verbatim>\<open>alice\<close> for the root \<^verbatim>\<open>ALICE\<close>, with a site proof for user 7.\<close>

definition ex_root :: CNewAsset where
  "ex_root = \<lparr>strName = ''ALICE'', nAmount = COIN, units = 0, nReissuable = 0, nHasIPFS = 0, strIPFSHash = []\<rparr>"

definition ex_key_hash :: uint160 where "ex_key_hash = replicate 20 7"

definition ex_claim :: "CScript \<Rightarrow> CTransaction" where
  "ex_claim s =
     \<lparr>vin = [\<lparr>prevout = MakeXAccountDummyPrevout ''alice'', scriptSig = [], nSequence = SEQUENCE_FINAL, scriptWitness = []\<rparr>],
      vout = [\<lparr>nValue = 0, scriptPubKey = s\<rparr>, owner_out ex_key_hash ex_root, issue_out ex_key_hash ex_root],
      nVersion = 2, nLockTime = 0\<rparr>"

lemma ex_root_facts: "new_asset_ok ex_root" "length (strName ex_root) < 48" "IsAssetNameARoot (strName ex_root)"
    "IsAssetNameValid (strName ex_root) = (True, Some ROOT)" "length ex_key_hash = 20"
proof -
  show "new_asset_ok ex_root" "length (strName ex_root) < 48" "length ex_key_hash = 20"
    by (simp_all add: ex_root_def new_asset_ok_def name_ok_def int8_range_def int64_range_def ex_key_hash_def)
  show r: "IsAssetNameARoot (strName ex_root)"
    by (simp add: ex_root_def root_kind_iff root_name_iff tidy_def name_chars_def upper_def punctuation_def reserved_names_def)
  then show "IsAssetNameValid (strName ex_root) = (True, Some ROOT)" by (simp add: IsAssetNameARoot_def)
qed

lemma ex_claim_new_asset: "Tx_IsNewAsset P (ex_claim s)"
  using Tx_IsNewAsset_issue [OF ex_root_facts(5,1,2) _ _ ex_root_facts(5,2,4),
      of "ex_claim s" "[\<lparr>nValue = 0, scriptPubKey = s\<rparr>]" P]
  by (simp add: ex_claim_def)

lemma ex_spec: "ParseXAccountSpec ''alice'' = Inr \<lparr>handle = ''alice'', userId = 0\<rparr>"
  by (simp add: ParseXAccountSpec_def TrimCopy_def isspace_def NormalizeXHandle_def handle_char_def fold_case_def
      less_eq_char_def)

lemma ex_claim_identity:
  assumes "ParseXAccountAssignmentScript s = Some ''alice''"
  shows "XAccountIdentityClaim P (ex_claim s) = Some ''alice''"
  unfolding identity_claim_iff
  using assms ex_claim_new_asset ex_spec dummy_alice_facts(1) hash256_alice
  by (auto simp: ex_claim_def ParseXAccountAssignment_def owner_out_def issue_out_def MakeXAccountDummyPrevout_def)

lemma ex_claim_fields:
  assumes "ParseXAccountAssignmentScript s = Some ''alice''" "IsAssetScript s = None"
  shows "XClaimBindFields P (ex_claim s) = Some (''alice'', ex_key_hash, ''ALICE'')"
proof -
  have r: "length (strName ex_root) \<le> 48" using ex_root_facts(2) by simp
  note i = issue_out_kind [OF ex_root_facts(5,1) r] and ow = owner_out_kind [OF ex_root_facts(5,2)]
  have "strName ex_root = ''ALICE''" by (simp add: ex_root_def)
  with i ow assms(2) have "bind_outputs P (vout (ex_claim s)) None None = Some (Some ex_key_hash, Some (ex_key_hash, ''ALICE''))"
    by (auto simp: ex_claim_def)
  then show ?thesis by (simp add: XClaimBindFields_def ex_claim_identity [OF assms(1)])
qed

definition ex_script :: "u32 \<Rightarrow> bytes \<Rightarrow> CScript" where
  "ex_script e sig = MakeXAccountAssignmentScriptWithProof ''alice''
     (bytes_of ''XPF1'' @ [XCLAIM_PROOF_VERSION, 0] @ WriteLE64 7 @ WriteLE32 e @ sig)"

lemma ex_script_facts:
  assumes "length sig = 65"
  shows "ParseXAccountAssignmentScript (ex_script e sig) = Some ''alice''" "IsAssetScript (ex_script e sig) = None"
    "BuildXClaimProofPayload 0 7 e sig = Some (bytes_of ''XPF1'' @ [XCLAIM_PROOF_VERSION, 0] @ WriteLE64 7 @ WriteLE32 e @ sig)"
proof -
  show "BuildXClaimProofPayload 0 7 e sig = Some (bytes_of ''XPF1'' @ [XCLAIM_PROOF_VERSION, 0] @ WriteLE64 7 @ WriteLE32 e @ sig)"
    using assms by (simp add: BuildXClaimProofPayload_def)
  show "ParseXAccountAssignmentScript (ex_script e sig) = Some ''alice''"
    unfolding ex_script_def using assms by (intro assignment_with_proof(1)) simp_all
  have w: "WriteLE64 7 = [7, 0, 0, 0, 0, 0, 0, 0]" by code_simp
  have "ex_script e sig ! 25 = 0"
    using assms by (simp add: ex_script_def MakeXAccountAssignmentScriptWithProof_def op_return_script_def push_data_def
        push_opcode_def push_header_def w bytes_of_def)
  then show "IsAssetScript (ex_script e sig) = None" by (simp add: IsAssetScript_def)
qed

theorem identity_claims_conflict_witness:
  "let tx = ex_claim (MakeXAccountAssignmentScript ''alice''); tx' = ex_claim (ex_script 1000 (replicate 65 0))
   in (\<Sum>o1 \<leftarrow> vout tx. nValue o1) = 0 \<and> set (map prevout (vin tx)) \<inter> set (map prevout (vin tx')) \<noteq> {}"
proof -
  have "op_return_data (MakeXAccountAssignmentScript ''alice'') = Some (bytes_of ''XID1'' @ bytes_of ''alice'')"
    unfolding MakeXAccountAssignmentScript_def by (rule op_return_round) simp
  then have p: "ParseXAccountAssignmentScript (MakeXAccountAssignmentScript ''alice'') = Some ''alice''"
    by (simp add: ParseXAccountAssignmentScript_def)
  let ?tx' = "ex_claim (ex_script 1000 (replicate 65 0))"
  have c: "XAccountIdentityClaim main_prefixes ?tx' = Some ''alice''"
    by (rule ex_claim_identity) (simp add: ex_script_facts)
  moreover from c have "\<not> IsCoinBase ?tx'" by (simp add: XAccountIdentityClaim_def split: if_splits)
  ultimately have "CheckXAccountDummyInputs main_prefixes ?tx' = None"
    by (auto simp: CheckXAccountDummyInputs_def IsXAccountIdentityClaim_def Let_def identity_claim_iff)
  from identity_claims_conflict [OF ex_claim_identity [OF p, of main_prefixes] this] c show ?thesis unfolding Let_def by blast
qed

text \<open>A library in which signatures recover for the approved message alone.\<close>

definition ex_approval :: approval where "ex_approval = (''alice'', 7, ex_key_hash, ''ALICE'', 1000, 0)"

definition ex_sig :: bytes where "ex_sig = 31 # replicate 64 0"

definition ex_secp :: "bytes secp256k1" where
  "ex_secp = secp_demo\<lparr>parse_recover := \<lambda>sig r d. if d = approval_digest ex_approval then Some (replicate 32 1) else None\<rparr>"

theorem claim_was_approved_witness:
  "\<exists>h a r p q. XClaimBindFields main_prefixes (ex_claim (ex_script 1000 ex_sig)) = Some (h, a, r) \<and>
    ParseXClaimProof (ex_claim (ex_script 1000 ex_sig)) = Some p \<and>
    100 < uint (xp_expiry p) \<and> uint (xp_expiry p) \<le> 100 + XCLAIM_PROOF_MAX_FUTURE \<and> q \<in> {ex_approval} \<and>
    (let c = (h, xp_userId p, a, r, xp_expiry p, xp_keyId p)
     in c = q \<or> sha256_collision (approval_message c) (approval_message q) \<or>
        sha256_collision (fips_sha256 (approval_message c)) (fips_sha256 (approval_message q)))"
proof (rule claim_was_approved [where S = ex_secp and pubs = "[(0, 2 # replicate 32 1)]"])
  have r: "CPubKey_RecoverCompact ex_secp (approval_digest ex_approval) ex_sig = Some (2 # replicate 32 1)"
    by (simp add: CPubKey_RecoverCompact_def ex_secp_def secp_demo_def CPubKey_Set_def GetLen_def ex_sig_def)
  have "length ex_sig = 65" by (simp add: ex_sig_def)
  note f = ex_script_facts [OF this, of 1000]
  have p: "ParseXClaimProof (ex_claim (ex_script 1000 ex_sig)) = Some \<lparr>xp_keyId = 0, xp_userId = 7, xp_expiry = 1000, xp_sig = ex_sig\<rparr>"
    using ParseXClaimProof_built [OF _ _ _ f(3), where xid = "''alice''" and tx = "ex_claim (ex_script 1000 ex_sig)"] f(1)
    by (simp add: ex_claim_def ex_script_def)
  show "XClaimProofEnforced ex_secp [(0, 2 # replicate 32 1)]"
    by (simp add: XClaimProofEnforced_def CPubKey_IsFullyValid_def CPubKey_IsValid_def ex_secp_def secp_demo_def)
  show "IsXAccountIdentityClaim main_prefixes (ex_claim (ex_script 1000 ex_sig))"
    using ex_claim_identity [OF f(1)] by (simp add: IsXAccountIdentityClaim_def)
  have "CheckXClaimProof ex_secp main_prefixes [(0, 2 # replicate 32 1)] (ex_claim (ex_script 1000 ex_sig)) 100 = None"
    using p r ex_claim_fields [OF f(1,2), of main_prefixes]
    by (simp add: CheckXClaimProof_def ex_approval_def approval_digest_def CPubKey_IsFullyValid_def CPubKey_IsValid_def
        ex_secp_def secp_demo_def \<open>length ex_sig = 65\<close>)
  then show "\<not> XClaimProofBlocksInclusion ex_secp main_prefixes [(0, 2 # replicate 32 1)] 100 (ex_claim (ex_script 1000 ex_sig))"
    by (simp add: XClaimProofBlocksInclusion_def)
  show "\<forall>p pub d. ParseXClaimProof (ex_claim (ex_script 1000 ex_sig)) = Some p \<longrightarrow>
      map_of [(0, 2 # replicate 32 1)] (xp_keyId p) = Some pub \<longrightarrow>
      CPubKey_RecoverCompact ex_secp d (xp_sig p) = Some pub \<longrightarrow> d \<in> approval_digest ` {ex_approval}"
    by (auto simp: CPubKey_RecoverCompact_def ex_secp_def Let_def split: if_splits option.splits)
  show "\<forall>q \<in> {ex_approval}. approval_sized q"
    by (simp add: ex_approval_def approval_sized_def ex_key_hash_def)
qed

end
