(* ===== verification/XC_BoolEE.thy ===== *)
theory XC_BoolEE
  imports XC_AssetScript XC_Map XC_Handle
begin

text \<open>
  Verifier strings (\<^verbatim>\<open>src/src/LibBoolEE.cpp\<close> and the string checks of \<^verbatim>\<open>src/src/assets/assets.cpp\<close>):
  the evaluator of boolean expressions over tags, and the syntax check a verifier output goes through.
  An exception of the evaluator is a value of \<open>boolee_error\<close>. The theorem of the theory says that an
  expression written with the usual precedence of negation, conjunction and disjunction evaluates to what
  it means.
\<close>

datatype boolee_error =
    unknown_operator char string
  | parenthesis_parity string
  | empty_subexpression
  | not_a_formula string
  | variable_not_found string

type_synonym Vals = "(string, bool) omap"

text \<open>Letters and digits of the C locale.\<close>

definition isalnum :: "char \<Rightarrow> bool" where
  "isalnum c \<longleftrightarrow>
     list_ex (\<lambda>(lo, hi). lo \<le> c \<and> c \<le> hi) [(CHR ''a'', CHR ''z''), (CHR ''A'', CHR ''Z''), (CHR ''0'', CHR ''9'')]"

definition belongsToName :: "char \<Rightarrow> bool" where
  "belongsToName ch \<longleftrightarrow> isalnum ch \<or> ch = CHR ''_'' \<or> ch = CHR ''#'' \<or> ch = CHR ''.''"

definition removeWhitespaces :: "string \<Rightarrow> string" where
  "removeWhitespaces source = filter (\<lambda>c. \<not> isspace c) source"

definition removeCharacter :: "string \<Rightarrow> char \<Rightarrow> string" where
  "removeCharacter source ch = filter (\<lambda>c. ch \<noteq> c) source"

section \<open>Splitting at an operator\<close>

text \<open>
  The loop of \<^verbatim>\<open>singleParse\<close>: \<open>i\<close> is the index, \<open>start\<close> the start of the current subexpression
  (\<open>None\<close> for \<^verbatim>\<open>-1\<close>) and \<open>rest\<close> what is left of the formula.
\<close>

fun parse_loop ::
  "string \<Rightarrow> char \<Rightarrow> nat \<Rightarrow> nat option \<Rightarrow> int \<Rightarrow> string list \<Rightarrow> string \<Rightarrow>
     boolee_error + nat option \<times> int \<times> string list" where
  "parse_loop formula op i start parity subs [] = Inr (start, parity, subs)"
| "parse_loop formula op i start parity subs (c # rest) =
     (if c = CHR '')'' then parse_loop formula op (i + 1) start (parity - 1) subs rest
      else if c = CHR ''('' then
        parse_loop formula op (i + 1) (if start = None then Some i else start) (parity + 1) subs rest
      else if parity = 0 then
        (case start of
           None \<Rightarrow>
             if belongsToName c \<or> c = CHR ''!'' then parse_loop formula op (i + 1) (Some i) parity subs rest
             else parse_loop formula op (i + 1) None parity subs rest
         | Some s \<Rightarrow>
             if \<not> (belongsToName c \<or> c = CHR ''!'') then
               if op = c then
                 parse_loop formula op (i + 1) (Some (i + 1)) parity (subs @ [take (i - s) (drop s formula)]) rest
               else if c \<noteq> CHR ''&'' \<and> c \<noteq> CHR ''|'' then Inl (unknown_operator c formula)
               else parse_loop formula op (i + 1) start parity subs rest
             else parse_loop formula op (i + 1) start parity subs rest)
      else parse_loop formula op (i + 1) start parity subs rest)"

definition singleParse :: "string \<Rightarrow> char \<Rightarrow> boolee_error + string list" where
  "singleParse formula op =
     (case parse_loop formula op 0 None 0 [] formula of
        Inl e \<Rightarrow> Inl e
      | Inr (start, parity, subs) \<Rightarrow>
          let subs = (case start of None \<Rightarrow> subs | Some s \<Rightarrow> subs @ [drop s formula])
          in if parity \<noteq> 0 then Inl (parenthesis_parity formula) else Inr subs)"

text \<open>The same loop with the text of the current subexpression in place of its start.\<close>

fun scan :: "string \<Rightarrow> char \<Rightarrow> string option \<Rightarrow> int \<Rightarrow> string list \<Rightarrow> string \<Rightarrow>
     boolee_error + string option \<times> int \<times> string list" where
  "scan f op cur k subs [] = Inr (cur, k, subs)"
| "scan f op cur k subs (c # rest) =
     (let more = map_option (\<lambda>u. u @ [c]) cur
      in if c = CHR '')'' then scan f op more (k - 1) subs rest
         else if c = CHR ''('' then scan f op (if cur = None then Some [c] else more) (k + 1) subs rest
         else if k \<noteq> 0 then scan f op more k subs rest
         else if belongsToName c \<or> c = CHR ''!'' then scan f op (if cur = None then Some [c] else more) k subs rest
         else (case cur of None \<Rightarrow> scan f op None k subs rest
               | Some u \<Rightarrow>
                   if op = c then scan f op (Some []) k (subs @ [u]) rest
                   else if c \<noteq> CHR ''&'' \<and> c \<noteq> CHR ''|'' then Inl (unknown_operator c f)
                   else scan f op more k subs rest))"

lemma parse_loop_scan:
  assumes "formula = pre @ rest" "i = length pre" "case start of None \<Rightarrow> True | Some s \<Rightarrow> s \<le> i"
  shows "map_sum id (\<lambda>(start, k, subs). (map_option (\<lambda>s. drop s formula) start, k, subs))
      (parse_loop formula op i start k subs rest) =
    scan formula op (map_option (\<lambda>s. drop s pre) start) k subs rest"
  using assms
proof (induction rest arbitrary: pre i start k subs)
  case Nil
  then show ?case by (cases start) auto
next
  case (Cons c rest)
  have pre: "formula = (pre @ [c]) @ rest" "i + 1 = length (pre @ [c])" using Cons.prems(1,2) by simp_all
  note IH = Cons.IH [OF pre]
  show ?case
  proof (cases start)
    case None
    have "drop i (pre @ [c]) = [c]" using Cons.prems(2) by simp
    then show ?thesis using IH [of None] IH [of "Some i"] by (simp add: Let_def None)
  next
    case (Some s)
    with Cons.prems have s: "s \<le> i" by simp
    have "drop s (pre @ [c]) = drop s pre @ [c]" "drop (i + 1) (pre @ [c]) = []"
      "take (i - s) (drop s formula) = drop s pre" using s Cons.prems(1,2) by simp_all
    then show ?thesis using IH [of "Some s"] IH [of "Some (i + 1)"] s by (auto simp: Let_def Some simp del: drop_append)
  qed
qed

lemma singleParse_scan:
  "singleParse f op =
     (case scan f op None 0 [] f of Inl e \<Rightarrow> Inl e
      | Inr (cur, k, subs) \<Rightarrow>
          if k \<noteq> 0 then Inl (parenthesis_parity f)
          else Inr (case cur of None \<Rightarrow> subs | Some u \<Rightarrow> subs @ [u]))"
  using parse_loop_scan [of f "[]" f 0 None op 0 "[]"]
  by (auto simp: singleParse_def Let_def split: sum.splits prod.splits option.splits)

definition parts_size :: "string option \<Rightarrow> string list \<Rightarrow> nat" where
  "parts_size cur subs = (case cur of None \<Rightarrow> 0 | Some u \<Rightarrow> Suc (length u)) + (\<Sum>s \<leftarrow> subs. Suc (length s))"

lemma scan_size:
  "scan f op cur k subs rest = Inr (cur', k', subs') \<Longrightarrow>
     parts_size cur' subs' \<le> parts_size cur subs + length rest + (if cur = None then 1 else 0)"
proof (induction rest arbitrary: cur k subs)
  case (Cons c rest)
  then show ?case
    by (cases cur; fastforce simp: Let_def parts_size_def split: if_splits)
qed (simp add: parts_size_def)

lemma singleParse_shorter:
  assumes "singleParse f op = Inr subs" "2 \<le> length subs" "s \<in> set subs"
  shows "length s < length f"
proof -
  have sum: "(\<Sum>s \<leftarrow> subs. Suc (length s)) \<le> Suc (length f)"
    using assms(1) scan_size [of f op None 0 "[]" f]
    by (auto simp: singleParse_scan parts_size_def split: sum.splits prod.splits option.splits if_splits)
  obtain a b where ab: "subs = a @ s # b" using assms(3) by (meson split_list)
  have "1 \<le> length a + length b" using assms(2) by (simp add: ab)
  moreover have "length xs \<le> (\<Sum>s \<leftarrow> xs. Suc (length s))" for xs :: "string list"
    by (induction xs) auto
  note this [of a] this [of b]
  ultimately show ?thesis using sum by (simp add: ab)
qed

section \<open>Evaluation\<close>

text \<open>The values of the subexpressions in order, or the first exception.\<close>

fun all_values :: "(boolee_error + bool) list \<Rightarrow> boolee_error + bool list" where
  "all_values [] = Inr []"
| "all_values (Inl e # rs) = Inl e"
| "all_values (Inr b # rs) = map_sum id (\<lambda>bs. b # bs) (all_values rs)"

lemma removeWhitespaces_length: "length (removeWhitespaces s) \<le> length s"
  by (simp add: removeWhitespaces_def)

lemma two_parts: "xs \<noteq> [] \<Longrightarrow> length xs \<noteq> Suc 0 \<Longrightarrow> 2 \<le> length xs"
  by (cases xs; cases "tl xs") auto

text \<open>
  \<^verbatim>\<open>resolveRec\<close>, with the call of \<^verbatim>\<open>resolve\<close> on a part written out as the removal of its white space.
\<close>

function resolveRec :: "Vals \<Rightarrow> string \<Rightarrow> boolee_error + bool" where
  "resolveRec vals source =
     (if source = [] then Inl empty_subexpression
      else case singleParse source CHR ''|'' of Inl e \<Rightarrow> Inl e
      | Inr subs1 \<Rightarrow>
          (case (if length subs1 = 1 then singleParse source CHR ''&'' else Inr subs1) of Inl e \<Rightarrow> Inl e
           | Inr subs \<Rightarrow>
               if length subs = 0 then Inl (not_a_formula source)
               else if length subs = 1 then
                 if source ! 0 = CHR ''!'' then map_sum id Not (resolveRec vals (removeWhitespaces (drop 1 source)))
                 else if source ! 0 = CHR ''('' then
                   resolveRec vals (removeWhitespaces (take (length source - 2) (drop 1 source)))
                 else if source = ''1'' then Inr True
                 else if source = ''0'' then Inr False
                 else (case map_of vals source of None \<Rightarrow> Inl (variable_not_found source) | Some b \<Rightarrow> Inr b)
               else if length subs1 = 1 then
                 map_sum id (foldl (\<and>) True) (all_values (map (\<lambda>x. resolveRec vals (removeWhitespaces x)) subs))
               else
                 map_sum id (foldl (\<or>) False) (all_values (map (\<lambda>x. resolveRec vals (removeWhitespaces x)) subs))))"
  by pat_completeness auto

termination
proof (relation "measure (\<lambda>(vals, s). length s)", goal_cases)
  case (2 vals source subs1 subs)
  then show ?case using removeWhitespaces_length [of "drop 1 source"] by (cases source) auto
next
  case (3 vals source subs1 subs)
  then show ?case using removeWhitespaces_length [of "take (length source - 2) (drop 1 source)"] by (cases source) auto
next
  case (4 vals source subs1 subs x)
  then have "length x < length source"
    by (intro singleParse_shorter [of source "CHR ''&''" subs x]) (auto intro: two_parts)
  then show ?case using removeWhitespaces_length [of x] by simp
next
  case (5 vals source subs1 subs x)
  then have "length x < length source"
    by (intro singleParse_shorter [of source "CHR ''|''" subs x]) (auto intro: two_parts)
  then show ?case using removeWhitespaces_length [of x] by simp
qed simp

declare resolveRec.simps [simp del]

definition resolve :: "Vals \<Rightarrow> string \<Rightarrow> boolee_error + bool" where
  "resolve vals source = resolveRec vals (removeWhitespaces source)"

section \<open>Verifier strings\<close>

text \<open>
  The matches of \<^verbatim>\<open>[A-Z0-9_.]+\<close> from left to right: the longest runs of those characters; \<open>run\<close> is the
  one that is being read.
\<close>

definition qualifier_char :: "char \<Rightarrow> bool" where
  "qualifier_char c \<longleftrightarrow>
     list_ex (\<lambda>(lo, hi). lo \<le> c \<and> c \<le> hi) [(CHR ''A'', CHR ''Z''), (CHR ''0'', CHR ''9''), (CHR ''_'', CHR ''_''), (CHR ''.'', CHR ''.'')]"

fun name_runs :: "string \<Rightarrow> string \<Rightarrow> string list" where
  "name_runs run [] = (if run = [] then [] else [run])"
| "name_runs run (c # s) =
     (if qualifier_char c then name_runs (run @ [c]) s
      else if run = [] then name_runs [] s else run # name_runs [] s)"

text \<open>The set of the names that were found, each with the value the syntax check gives it.\<close>

definition ExtractVerifierStringQualifiers :: "string \<Rightarrow> Vals" where
  "ExtractVerifierStringQualifiers verifier = foldl (\<lambda>m q. map_put q True m) [] (name_runs [] verifier)"

definition GetStrippedVerifierString :: "string \<Rightarrow> string" where
  "GetStrippedVerifierString verifier = removeCharacter (removeWhitespaces verifier) CHR ''#''"

definition CheckVerifierString :: "string \<Rightarrow> string + Vals" where
  "CheckVerifierString verifier =
     (if verifier = ''true'' then Inr []
      else if verifier = [] then Inl ''Verifier string can not be empty''
      else
        let stripped = GetStrippedVerifierString verifier
        in if 80 < length stripped then Inl ''Verifier string has length greater than 80''
           else
             let vals = ExtractVerifierStringQualifiers stripped
             in case find (\<lambda>q. \<not> IsQualifierNameValid (CHR ''#'' # q)) (map fst vals) of
                  Some q \<Rightarrow> Inl (''bad-txns-null-verifier-invalid-asset-name-'' @ q)
                | None \<Rightarrow>
                    (case resolve vals verifier of
                       Inl e \<Rightarrow> Inl ''bad-txns-null-verifier-failed-syntax-check''
                     | Inr b \<Rightarrow> Inr vals))"

definition CheckVerifierAssetTxOut :: "CTxOut \<Rightarrow> string option" where
  "CheckVerifierAssetTxOut o1 =
     (case AssetNullVerifierDataFromScript (scriptPubKey o1) of
        None \<Rightarrow> Some ''bad-txns-null-verifier-data-serialization''
      | Some verifier \<Rightarrow>
          if CHR '' '' \<in> set verifier then Some ''bad-txns-null-verifier-data-contained-whitespaces''
          else if CHR ''#'' \<in> set verifier then Some ''bad-txns-null-verifier-data-contained-qualifier-character-#''
          else (case CheckVerifierString verifier of Inl e \<Rightarrow> Some e | Inr vals \<Rightarrow> None))"

text \<open>
  Against the chain: the tags must exist, and the address must satisfy the expression over the tags it
  has; \<open>exists\<close> and \<open>tagged\<close> are the lookups in the asset and the tag caches.
\<close>

definition ContextualCheckVerifierString ::
  "(string \<Rightarrow> bool) \<Rightarrow> (string \<Rightarrow> string \<Rightarrow> bool) \<Rightarrow> string \<Rightarrow> string \<Rightarrow> string option" where
  "ContextualCheckVerifierString exists tagged verifier check_address =
     (if verifier = ''true'' then None
      else case CheckVerifierString verifier of Inl e \<Rightarrow> Some e
      | Inr found \<Rightarrow>
          if \<not> list_all (\<lambda>q. exists (CHR ''#'' # q)) (map fst found) then
            Some ''bad-txns-null-verifier-contains-non-issued-qualifier''
          else if check_address = [] then None
          else
            let vals = map (\<lambda>q. (q, tagged (CHR ''#'' # q) check_address)) (map fst found)
            in (case resolve vals verifier of
                  Inl e \<Rightarrow> Some ''bad-txns-null-verifier-failed-contexual-syntax-check''
                | Inr ret \<Rightarrow> if ret then None else Some ''bad-txns-null-verifier-address-failed-verification''))"

section \<open>What an expression means\<close>

datatype bexp = Var string | Par bexp | Neg bexp | Conj "bexp list" | Disj "bexp list"

fun beval :: "(string \<Rightarrow> bool) \<Rightarrow> bexp \<Rightarrow> bool" where
  "beval v (Var x) = v x"
| "beval v (Par e) = beval v e"
| "beval v (Neg e) = (\<not> beval v e)"
| "beval v (Conj es) = (\<forall>e \<in> set es. beval v e)"
| "beval v (Disj es) = (\<exists>e \<in> set es. beval v e)"

fun bexp_names :: "bexp \<Rightarrow> string list" where
  "bexp_names (Var x) = [x]"
| "bexp_names (Par e) = bexp_names e"
| "bexp_names (Neg e) = bexp_names e"
| "bexp_names (Conj es) = concat (map bexp_names es)"
| "bexp_names (Disj es) = concat (map bexp_names es)"

fun bexp_level :: "bexp \<Rightarrow> nat" where
  "bexp_level (Disj es) = 0"
| "bexp_level (Conj es) = 1"
| "bexp_level e = 2"

fun join_with :: "char \<Rightarrow> string list \<Rightarrow> string" where
  "join_with d [] = []"
| "join_with d [x] = x"
| "join_with d (x # xs) = x @ d # join_with d xs"

definition paren :: "nat \<Rightarrow> bexp \<Rightarrow> string \<Rightarrow> string" where
  "paren n e t = (if bexp_level e < n then CHR ''('' # t @ '')'' else t)"

text \<open>
  The text of an expression, with parentheses where the precedence needs them and where the expression has them;
  \<open>Par\<close> stands for a pair that is not needed.
\<close>

fun btext :: "bexp \<Rightarrow> string" where
  "btext (Var x) = x"
| "btext (Par e) = CHR ''('' # btext e @ '')''"
| "btext (Neg e) = CHR ''!'' # paren 2 e (btext e)"
| "btext (Conj es) = join_with CHR ''&'' (map (\<lambda>e. paren 2 e (btext e)) es)"
| "btext (Disj es) = join_with CHR ''|'' (map (\<lambda>e. paren 1 e (btext e)) es)"

fun wf_bexp :: "bexp \<Rightarrow> bool" where
  "wf_bexp (Var x) \<longleftrightarrow> x \<noteq> [] \<and> list_all belongsToName x \<and> x \<notin> {''0'', ''1''}"
| "wf_bexp (Par e) \<longleftrightarrow> wf_bexp e"
| "wf_bexp (Neg e) \<longleftrightarrow> wf_bexp e"
| "wf_bexp (Conj es) \<longleftrightarrow> 2 \<le> length es \<and> list_all wf_bexp es"
| "wf_bexp (Disj es) \<longleftrightarrow> 2 \<le> length es \<and> list_all wf_bexp es"

lemma name_char_facts:
  "belongsToName c \<Longrightarrow> c \<notin> {CHR ''('', CHR '')'', CHR ''!'', CHR ''&'', CHR ''|''} \<and> \<not> isspace c"
  by (auto simp: belongsToName_def isalnum_def isspace_def less_eq_char_def)

lemma mark_chars [simp]:
  "\<not> belongsToName CHR ''!''" "\<not> belongsToName CHR ''&''" "\<not> belongsToName CHR ''|''"
  "\<not> isspace CHR ''!''" "\<not> isspace CHR ''&''" "\<not> isspace CHR ''|''" "\<not> isspace CHR ''(''" "\<not> isspace CHR '')''"
  by (simp_all add: belongsToName_def isalnum_def isspace_def less_eq_char_def)

text \<open>
  Inside parentheses a text is passed over; at the top level a text without \<open>op\<close> joins the current
  subexpression (\<open>flow\<close>) or begins it (\<open>opens\<close>).
\<close>

definition inner :: "string \<Rightarrow> bool" where
  "inner u \<longleftrightarrow> (\<forall>f op c k subs rest. 0 < k \<longrightarrow> scan f op (Some c) k subs (u @ rest) = scan f op (Some (c @ u)) k subs rest)"

definition flow :: "char \<Rightarrow> string \<Rightarrow> bool" where
  "flow op u \<longleftrightarrow> (\<forall>f c subs rest. scan f op (Some c) 0 subs (u @ rest) = scan f op (Some (c @ u)) 0 subs rest)"

definition opens :: "char \<Rightarrow> string \<Rightarrow> bool" where
  "opens op u \<longleftrightarrow> (\<forall>f subs rest. scan f op None 0 subs (u @ rest) = scan f op (Some u) 0 subs rest)"

lemma inner_append: "inner u \<Longrightarrow> inner w \<Longrightarrow> inner (u @ w)"
  by (simp add: inner_def)

lemma flow_append: "flow op u \<Longrightarrow> flow op w \<Longrightarrow> flow op (u @ w)"
  by (simp add: flow_def)

lemma opens_append: "opens op u \<Longrightarrow> flow op w \<Longrightarrow> opens op (u @ w)"
  by (simp add: flow_def opens_def)

lemma inner_Nil: "inner []" by (simp add: inner_def)

lemma flow_Nil: "flow op []" by (simp add: flow_def)

lemma inner_plain: "c \<noteq> CHR ''('' \<Longrightarrow> c \<noteq> CHR '')'' \<Longrightarrow> inner [c]"
  by (simp add: inner_def Let_def)

lemma inner_name: "list_all belongsToName x \<Longrightarrow> inner x"
proof (induction x)
  case (Cons c x)
  then show ?case using name_char_facts [of c] inner_append [OF inner_plain, of c x] by simp
qed (simp add: inner_Nil)

lemma flow_plain: "belongsToName c \<or> c = CHR ''!'' \<Longrightarrow> flow op [c] \<and> opens op [c]"
  using name_char_facts [of c] by (auto simp: flow_def opens_def Let_def)

lemma flow_name: "list_all belongsToName x \<Longrightarrow> flow op x"
proof (induction x)
  case (Cons c x)
  then show ?case using flow_plain [of c op] flow_append [of op "[c]" x] by simp
qed (simp add: flow_Nil)

lemma inner_paren: "inner u \<Longrightarrow> inner (CHR ''('' # u @ '')'')"
  by (simp add: inner_def Let_def)

lemma flow_paren: "inner u \<Longrightarrow> flow op (CHR ''('' # u @ '')'') \<and> opens op (CHR ''('' # u @ '')'')"
  by (simp add: inner_def flow_def opens_def Let_def)

lemma inner_join: "list_all inner xs \<Longrightarrow> d \<in> {CHR ''&'', CHR ''|''} \<Longrightarrow> inner (join_with d xs)"
proof (induction d xs rule: join_with.induct)
  case (3 d x y xs)
  then show ?case using inner_append [of x "[d] @ join_with d (y # xs)"] inner_append [of "[d]"] inner_plain [of d] by auto
qed (simp_all add: inner_Nil)

lemma flow_join: "list_all (flow CHR ''|'') xs \<Longrightarrow> flow CHR ''|'' (join_with CHR ''&'' xs)"
proof (induction "CHR ''&''" xs rule: join_with.induct)
  case (3 x y xs)
  have "flow CHR ''|'' [CHR ''&'']" by (simp add: flow_def Let_def)
  with 3 show ?case
    using flow_append [of "CHR ''|''" x "CHR ''&'' # join_with CHR ''&'' (y # xs)"]
      flow_append [of "CHR ''|''" "[CHR ''&'']" "join_with CHR ''&'' (y # xs)"] by simp
qed (simp_all add: flow_Nil)

lemma opens_join:
  assumes "xs \<noteq> []" "list_all (flow CHR ''|'') xs" "opens CHR ''|'' (hd xs)"
  shows "opens CHR ''|'' (join_with CHR ''&'' xs)"
proof (cases xs)
  case (Cons x ys)
  show ?thesis
  proof (cases ys)
    case Nil then show ?thesis using assms Cons by simp
  next
    case (Cons y zs)
    have "flow CHR ''|'' (CHR ''&'' # join_with CHR ''&'' ys)"
      using flow_append [of "CHR ''|''" "[CHR ''&'']"] flow_join [of ys] assms(2) \<open>xs = x # ys\<close>
      by (simp add: flow_def Let_def)
    then show ?thesis using assms(3) opens_append [of "CHR ''|''" x] Cons \<open>xs = x # ys\<close> by simp
  qed
qed (use assms in simp)

lemma inner_btext: "wf_bexp e \<Longrightarrow> inner (btext e)"
proof (induction e)
  case (Par e)
  then show ?case by (simp add: inner_paren)
next
  case (Neg e)
  then have "inner (paren 2 e (btext e))" by (simp add: paren_def inner_paren)
  then show ?case using inner_append [OF inner_plain, of "CHR ''!''"] by simp
next
  case (Conj es)
  then show ?case by (auto simp: paren_def list_all_iff inner_paren intro!: inner_join)
next
  case (Disj es)
  then show ?case by (auto simp: paren_def list_all_iff inner_paren intro!: inner_join)
qed (simp add: inner_name)

lemma atom_text:
  "wf_bexp e \<Longrightarrow> flow op (paren 2 e (btext e)) \<and> opens op (paren 2 e (btext e))"
proof (induction e)
  case (Var x)
  then obtain c y where x: "x = c # y" by (cases x) auto
  with Var have c: "belongsToName c" "list_all belongsToName y" by simp_all
  then show ?case
    using flow_plain [of c op] flow_append [of op "[c]" y] opens_append [of op "[c]" y] flow_name [of y op]
    by (simp add: paren_def x)
next
  case (Par e)
  then show ?case using flow_paren [OF inner_btext, of e] by (simp add: paren_def)
next
  case (Neg e)
  then show ?case
    using flow_plain [of "CHR ''!''" op] flow_append [of op "[CHR ''!'']" "paren 2 e (btext e)"]
      opens_append [of op "[CHR ''!'']" "paren 2 e (btext e)"]
    by (simp add: paren_def [of 2 "Neg e"])
next
  case (Conj es)
  then show ?case using flow_paren [OF inner_btext [OF Conj.prems]] by (simp add: paren_def [of 2 "Conj es"])
next
  case (Disj es)
  then show ?case using flow_paren [OF inner_btext [OF Disj.prems]] by (simp add: paren_def [of 2 "Disj es"])
qed

lemma conj_text:
  assumes "wf_bexp (Conj es)"
  shows "flow CHR ''|'' (btext (Conj es)) \<and> opens CHR ''|'' (btext (Conj es))"
proof -
  let ?xs = "map (\<lambda>e. paren 2 e (btext e)) es"
  have "es \<noteq> []" "list_all wf_bexp es" using assms by auto
  then have "?xs \<noteq> []" "list_all (flow CHR ''|'') ?xs" "opens CHR ''|'' (hd ?xs)"
    using atom_text [of _ "CHR ''|''"] by (auto simp: list_all_iff hd_map)
  then show ?thesis using flow_join opens_join by simp
qed

lemma disj_operand:
  assumes "wf_bexp e"
  shows "flow CHR ''|'' (paren 1 e (btext e)) \<and> opens CHR ''|'' (paren 1 e (btext e))"
  using atom_text [OF assms, of "CHR ''|''"] conj_text assms flow_paren [OF inner_btext [OF assms]]
  by (cases e) (simp_all add: paren_def)

lemma scan_join:
  assumes "op \<in> {CHR ''&'', CHR ''|''}" "list_all (flow op) (x # xs)"
  shows "scan f op (Some []) 0 subs (join_with op (x # xs)) = Inr (Some (last (x # xs)), 0, subs @ butlast (x # xs))"
  using assms(2)
proof (induction xs arbitrary: x subs)
  case Nil
  then have "scan f op (Some []) 0 subs (x @ []) = scan f op (Some ([] @ x)) 0 subs []"
    unfolding flow_def list.pred_inject by blast
  then show ?case by simp
next
  case (Cons y ys)
  then have "scan f op (Some []) 0 subs (join_with op (x # y # ys)) = scan f op (Some x) 0 subs (op # join_with op (y # ys))"
    by (simp add: flow_def)
  also have "\<dots> = scan f op (Some []) 0 (subs @ [x]) (join_with op (y # ys))" using assms(1) by (auto simp: Let_def)
  finally show ?case using Cons by simp
qed

lemma singleParse_join:
  assumes "op \<in> {CHR ''&'', CHR ''|''}" "xs \<noteq> []" "list_all (flow op) xs" "opens op (hd xs)"
  shows "singleParse (join_with op xs) op = Inr xs"
proof -
  obtain x ys where xs: "xs = x # ys" using assms(2) by (cases xs) auto
  have "scan f op None 0 [] (join_with op xs) = Inr (Some (last xs), 0, butlast xs)" for f
  proof (cases ys)
    case Nil
    have "scan f op None 0 [] (x @ []) = scan f op (Some x) 0 [] []" using assms(4) unfolding opens_def xs list.sel by blast
    then show ?thesis by (simp add: xs Nil)
  next
    case (Cons y zs)
    have "scan f op None 0 [] (join_with op xs) = scan f op (Some x) 0 [] (op # join_with op ys)"
      using assms(4) by (simp add: opens_def xs Cons)
    also have "\<dots> = scan f op (Some []) 0 [x] (join_with op ys)" using assms(1) by (auto simp: Let_def)
    also have "\<dots> = Inr (Some (last ys), 0, [x] @ butlast ys)"
      using scan_join [OF assms(1), of y zs f "[x]"] assms(3) by (simp add: xs Cons)
    finally show ?thesis by (simp add: xs Cons)
  qed
  then show ?thesis using assms(2) by (simp add: singleParse_scan)
qed

lemma singleParse_single:
  "op \<in> {CHR ''&'', CHR ''|''} \<Longrightarrow> flow op u \<Longrightarrow> opens op u \<Longrightarrow> singleParse u op = Inr [u]"
  using singleParse_join [of op "[u]"] by simp

lemma btext_no_space: "wf_bexp e \<Longrightarrow> removeWhitespaces (btext e) = btext e"
proof -
  have join_with: "removeWhitespaces (join_with d xs) = join_with d (map removeWhitespaces xs)" if "\<not> isspace d" for d xs
    using that by (induction d xs rule: join_with.induct) (auto simp: removeWhitespaces_def)
  have paren: "removeWhitespaces (paren n e t) = paren n e t" if "removeWhitespaces t = t" for n e t
    using that by (auto simp: paren_def removeWhitespaces_def)
  show "wf_bexp e \<Longrightarrow> removeWhitespaces (btext e) = btext e"
  proof (induction e)
    case (Var x)
    then show ?case using name_char_facts by (auto simp: removeWhitespaces_def list_all_iff intro!: filter_True)
  next
    case (Par e)
    then show ?case by (simp add: removeWhitespaces_def)
  next
    case (Neg e)
    then show ?case using paren [of "btext e" 2 e] by (simp add: removeWhitespaces_def)
  next
    case (Conj es)
    then have "map removeWhitespaces (map (\<lambda>e. paren 2 e (btext e)) es) = map (\<lambda>e. paren 2 e (btext e)) es"
      by (auto simp: list_all_iff paren)
    then show ?case by (simp only: btext.simps join_with mark_chars not_False_eq_True)
  next
    case (Disj es)
    then have "map removeWhitespaces (map (\<lambda>e. paren 1 e (btext e)) es) = map (\<lambda>e. paren 1 e (btext e)) es"
      by (auto simp: list_all_iff paren)
    then show ?case by (simp only: btext.simps join_with mark_chars not_False_eq_True)
  qed
qed

lemma resolve_parentheses:
  assumes "wf_bexp e"
  shows "resolveRec vals (CHR ''('' # btext e @ '')'') = resolveRec vals (btext e)"
proof -
  let ?t = "CHR ''('' # btext e @ '')''"
  have s: "singleParse ?t op = Inr [?t]" if "op \<in> {CHR ''&'', CHR ''|''}" for op
    using that flow_paren [OF inner_btext [OF assms], of op] singleParse_single by blast
  have "take (length ?t - 2) (drop 1 ?t) = btext e" by simp
  then show ?thesis by (subst resolveRec.simps) (simp add: s btext_no_space [OF assms])
qed

lemma resolve_paren:
  assumes "wf_bexp e"
  shows "resolveRec vals (removeWhitespaces (paren n e (btext e))) = resolveRec vals (btext e)"
proof -
  have "removeWhitespaces (paren n e (btext e)) = paren n e (btext e)"
    using btext_no_space [OF assms] by (simp add: paren_def removeWhitespaces_def)
  then show ?thesis by (simp add: paren_def resolve_parentheses [OF assms])
qed

lemma join_nonempty: "2 \<le> length xs \<Longrightarrow> join_with d xs \<noteq> []"
  by (cases "(d, xs)" rule: join_with.cases) auto

lemma resolve_conj:
  assumes "wf_bexp (Conj es)"
  shows "resolveRec vals (btext (Conj es)) =
    map_sum id (foldl (\<and>) True) (all_values (map (\<lambda>e. resolveRec vals (btext e)) es))"
proof -
  let ?xs = "map (\<lambda>e. paren 2 e (btext e)) es"
  have es: "2 \<le> length es" "list_all wf_bexp es" "es \<noteq> []" using assms by auto
  have "list_all (flow CHR ''&'') ?xs" "opens CHR ''&'' (hd ?xs)"
    using es atom_text [of _ "CHR ''&''"] by (cases es; auto simp: list_all_iff)+
  then have p: "singleParse (btext (Conj es)) CHR ''&'' = Inr ?xs" using es singleParse_join [of "CHR ''&''" ?xs] by auto
  have q: "singleParse (btext (Conj es)) CHR ''|'' = Inr [btext (Conj es)]"
    using conj_text [OF assms] singleParse_single by blast
  have "map (\<lambda>x. resolveRec vals (removeWhitespaces x)) ?xs = map (\<lambda>e. resolveRec vals (btext e)) es"
    using es(2) by (simp add: list_all_iff resolve_paren)
  moreover have "btext (Conj es) \<noteq> []" using es(1) by (simp add: join_nonempty)
  ultimately show ?thesis
    by (subst resolveRec.simps) (use es(1,3) p q in \<open>simp del: btext.simps map_map\<close>)
qed

lemma resolve_disj:
  assumes "wf_bexp (Disj es)"
  shows "resolveRec vals (btext (Disj es)) =
    map_sum id (foldl (\<or>) False) (all_values (map (\<lambda>e. resolveRec vals (btext e)) es))"
proof -
  let ?xs = "map (\<lambda>e. paren 1 e (btext e)) es"
  have es: "2 \<le> length es" "list_all wf_bexp es" "es \<noteq> []" using assms by auto
  have "list_all (flow CHR ''|'') ?xs" "opens CHR ''|'' (hd ?xs)"
    using es disj_operand by (cases es; auto simp: list_all_iff)+
  then have p: "singleParse (btext (Disj es)) CHR ''|'' = Inr ?xs" using es singleParse_join [of "CHR ''|''" ?xs] by auto
  have "map (\<lambda>x. resolveRec vals (removeWhitespaces x)) ?xs = map (\<lambda>e. resolveRec vals (btext e)) es"
    using es(2) by (simp add: list_all_iff resolve_paren)
  moreover have "btext (Disj es) \<noteq> []" using es(1) by (simp add: join_nonempty)
  ultimately show ?thesis
    by (subst resolveRec.simps) (use es(1,3) p in \<open>simp del: btext.simps map_map\<close>)
qed

text \<open>The first name that has no value.\<close>

definition missing :: "Vals \<Rightarrow> bexp \<Rightarrow> string option" where
  "missing vals e = find (\<lambda>x. map_of vals x = None) (bexp_names e)"

definition meaning :: "Vals \<Rightarrow> bexp \<Rightarrow> boolee_error + bool" where
  "meaning vals e = (case missing vals e of None \<Rightarrow> Inr (beval (\<lambda>x. the (map_of vals x)) e)
     | Some x \<Rightarrow> Inl (variable_not_found x))"

lemma find_append: "find P (xs @ ys) = (case find P xs of None \<Rightarrow> find P ys | Some x \<Rightarrow> Some x)"
  by (induction xs) auto

lemma all_values_meaning:
  "all_values (map (meaning vals) es) =
     (case find (\<lambda>x. map_of vals x = None) (concat (map bexp_names es)) of
        None \<Rightarrow> Inr (map (beval (\<lambda>x. the (map_of vals x))) es)
      | Some x \<Rightarrow> Inl (variable_not_found x))"
  by (induction es) (auto simp: meaning_def missing_def find_append split: option.splits)

lemma foldl_and: "foldl (\<and>) b bs = (b \<and> (\<forall>x \<in> set bs. x))"
  by (induction bs arbitrary: b) auto

lemma foldl_or: "foldl (\<or>) b bs = (b \<or> (\<exists>x \<in> set bs. x))"
  by (induction bs arbitrary: b) auto

lemma resolve_text: "wf_bexp e \<Longrightarrow> resolveRec vals (btext e) = meaning vals e"
proof (induction e)
  case (Var x)
  then have "singleParse x op = Inr [x]" if "op \<in> {CHR ''&'', CHR ''|''}" for op
    using that atom_text [OF Var, of op] singleParse_single by (simp add: paren_def)
  moreover have "x \<noteq> []" "x ! 0 \<noteq> CHR ''!''" "x ! 0 \<noteq> CHR ''(''"
    using Var name_char_facts [of "x ! 0"] by (cases x; auto)+
  ultimately show ?case using Var
    by (subst resolveRec.simps) (auto simp: meaning_def missing_def split: option.splits)
next
  case (Par e)
  then show ?case using resolve_parentheses [of e vals] by (simp add: meaning_def missing_def split: option.split)
next
  case (Neg e)
  then have "singleParse (btext (Neg e)) op = Inr [btext (Neg e)]" if "op \<in> {CHR ''&'', CHR ''|''}" for op
    using that atom_text [OF Neg.prems, of op] singleParse_single by (simp add: paren_def [of 2 "Neg e"])
  with Neg show ?case
    by (subst resolveRec.simps) (auto simp: resolve_paren meaning_def missing_def split: option.splits)
next
  case (Conj es)
  then have m: "map (\<lambda>e. resolveRec vals (btext e)) es = map (meaning vals) es" by (simp add: list_all_iff)
  show ?case
    unfolding resolve_conj [OF Conj.prems] m all_values_meaning
    by (simp add: meaning_def missing_def foldl_and split: option.splits)
next
  case (Disj es)
  then have m: "map (\<lambda>e. resolveRec vals (btext e)) es = map (meaning vals) es" by (simp add: list_all_iff)
  show ?case
    unfolding resolve_disj [OF Disj.prems] m all_values_meaning
    by (simp add: meaning_def missing_def foldl_or split: option.splits)
qed

text \<open>
  C39. Verifier expressions mean what they say. A string that is the text of an expression once its white
  space is gone, negation binding tighter than conjunction and conjunction tighter than disjunction, and with any
  further pairs of parentheses around parts of it, resolves to the value of the expression when every name in it has a value, and otherwise fails with
  the first name that has none; evaluation never stops on such a text in any other way.
\<close>

theorem verifier_semantics:
  assumes "wf_bexp e" "removeWhitespaces source = btext e"
  shows "resolve vals source =
    (case find (\<lambda>x. map_of vals x = None) (bexp_names e) of
       None \<Rightarrow> Inr (beval (\<lambda>x. the (map_of vals x)) e)
     | Some x \<Rightarrow> Inl (variable_not_found x))"
  using resolve_text [OF assms(1), of vals] assms(2) by (simp add: resolve_def meaning_def missing_def)

theorem verifier_semantics_witness:
  "resolve [(''KYC'', True), (''US'', False)] ''(!US) & (KYC | US)'' = Inr True \<and>
   resolve [(''KYC'', True)] ''KYC|US'' = Inl (variable_not_found ''US'')"
proof
  let ?e = "Conj [Par (Neg (Var ''US'')), Disj [Var ''KYC'', Var ''US'']]"
  have "wf_bexp ?e" "removeWhitespaces ''(!US) & (KYC | US)'' = btext ?e"
    by (simp_all add: belongsToName_def isalnum_def less_eq_char_def removeWhitespaces_def isspace_def paren_def)
  then show "resolve [(''KYC'', True), (''US'', False)] ''(!US) & (KYC | US)'' = Inr True"
    using verifier_semantics [of ?e "''(!US) & (KYC | US)''" "[(''KYC'', True), (''US'', False)]"] by simp
  let ?d = "Disj [Var ''KYC'', Var ''US'']"
  have "wf_bexp ?d" "removeWhitespaces ''KYC|US'' = btext ?d"
    by (simp_all add: belongsToName_def isalnum_def less_eq_char_def removeWhitespaces_def isspace_def paren_def)
  then show "resolve [(''KYC'', True)] ''KYC|US'' = Inl (variable_not_found ''US'')"
    using verifier_semantics [of ?d "''KYC|US''" "[(''KYC'', True)]"] by simp
qed

text \<open>
  Characters in front of the first name are passed over unless they are parentheses, so that a text which
  is not an expression is taken for one.
\<close>

lemma leading_operator_ignored: "resolve [(''AAA'', a), (''BBB'', b)] ''&AAA|BBB'' = Inr (a \<or> b)"
proof -
  have r: "removeWhitespaces ''&AAA|BBB'' = ''&AAA|BBB''" "removeWhitespaces ''AAA'' = ''AAA''"
      "removeWhitespaces ''BBB'' = ''BBB''"
    by (simp_all add: removeWhitespaces_def isspace_def)
  have n: "belongsToName CHR ''A''" "belongsToName CHR ''B''"
    by (simp_all add: belongsToName_def isalnum_def less_eq_char_def)
  have p: "singleParse ''&AAA|BBB'' CHR ''|'' = Inr [''AAA'', ''BBB'']" by (simp add: singleParse_scan n)
  have "wf_bexp (Var ''AAA'')" "wf_bexp (Var ''BBB'')" using n by simp_all
  from this [THEN resolve_text, of "[(''AAA'', a), (''BBB'', b)]"]
  show ?thesis unfolding resolve_def r(1)
    by (subst resolveRec.simps) (simp add: p r meaning_def missing_def)
qed

end
