(* ===== verification/XC_AssetTx.thy ===== *)
theory XC_AssetTx
  imports XC_XAccount XC_BoolEE
begin

text \<open>
  Transactions that issue and reissue assets (\<^verbatim>\<open>src/src/assets/assets.cpp\<close>): the burn outputs, the
  kinds of transaction, and the checks of each kind that need no view of the chain. A check returns
  \<open>None\<close> when it passes and otherwise the reason. \<open>u\<close> is what an uninitialised \<^verbatim>\<open>AssetType\<close> variable
  holds: \<^verbatim>\<open>IsAssetNameValid\<close> leaves the variable alone for names over 48 characters.
\<close>

section \<open>Parameters of a network\<close>

record AssetParams =
  prefixes :: base58_prefixes
  fTestnet :: bool
  nIssueAssetBurnAmount :: CAmount
  nReissueAssetBurnAmount :: CAmount
  nIssueSubAssetBurnAmount :: CAmount
  nIssueUniqueAssetBurnAmount :: CAmount
  nIssueMsgChannelAssetBurnAmount :: CAmount
  nIssueQualifierAssetBurnAmount :: CAmount
  nIssueSubQualifierAssetBurnAmount :: CAmount
  nIssueRestrictedAssetBurnAmount :: CAmount
  nAddNullQualifierTagBurnAmount :: CAmount
  strIssueAssetBurnAddress :: string
  strReissueAssetBurnAddress :: string
  strIssueSubAssetBurnAddress :: string
  strIssueUniqueAssetBurnAddress :: string
  strIssueMsgChannelAssetBurnAddress :: string
  strIssueQualifierAssetBurnAddress :: string
  strIssueSubQualifierAssetBurnAddress :: string
  strIssueRestrictedAssetBurnAddress :: string
  strAddNullQualifierTagBurnAddress :: string

definition main_asset_params :: AssetParams where
  "main_asset_params =
     \<lparr>prefixes = main_prefixes, fTestnet = False,
      nIssueAssetBurnAmount = 500 * COIN, nReissueAssetBurnAmount = 100 * COIN,
      nIssueSubAssetBurnAmount = 100 * COIN, nIssueUniqueAssetBurnAmount = 5 * COIN,
      nIssueMsgChannelAssetBurnAmount = 100 * COIN, nIssueQualifierAssetBurnAmount = 1000 * COIN,
      nIssueSubQualifierAssetBurnAmount = 100 * COIN, nIssueRestrictedAssetBurnAmount = 1500 * COIN,
      nAddNullQualifierTagBurnAmount = COIN div 10,
      strIssueAssetBurnAddress = ''XissueAssetXXXXXXXXXXXXXXXXXXwTyxt'',
      strReissueAssetBurnAddress = ''XreissueAssetXXXXXXXXXXXXXXXZNfDqa'',
      strIssueSubAssetBurnAddress = ''XissueSubAssetXXXXXXXXXXXXXXcHkFpF'',
      strIssueUniqueAssetBurnAddress = ''XissueUniqueAssetXXXXXXXXXXXagKZDZ'',
      strIssueMsgChannelAssetBurnAddress = ''XissueMsgChanneLAssetXXXXXXXcZDf2U'',
      strIssueQualifierAssetBurnAddress = ''XissueQuaLifierXXXXXXXXXXXXXXAQP3h'',
      strIssueSubQualifierAssetBurnAddress = ''XissueSubQuaLifierXXXXXXXXXXb8QkLq'',
      strIssueRestrictedAssetBurnAddress = ''XissueRestrictedXXXXXXXXXXXXU7kfQh'',
      strAddNullQualifierTagBurnAddress = ''XnuLLTagBurnXXXXXXXXXXXXXXXXdbJo3F''\<rparr>"

definition GetBurnAmount :: "AssetParams \<Rightarrow> AssetType \<Rightarrow> CAmount" where
  "GetBurnAmount A type =
     (case type of
        ROOT \<Rightarrow> nIssueAssetBurnAmount A
      | SUB \<Rightarrow> nIssueSubAssetBurnAmount A
      | MSGCHANNEL \<Rightarrow> nIssueMsgChannelAssetBurnAmount A
      | UNIQUE \<Rightarrow> nIssueUniqueAssetBurnAmount A
      | REISSUE \<Rightarrow> nReissueAssetBurnAmount A
      | QUALIFIER \<Rightarrow> nIssueQualifierAssetBurnAmount A
      | SUB_QUALIFIER \<Rightarrow> nIssueSubQualifierAssetBurnAmount A
      | RESTRICTED \<Rightarrow> nIssueRestrictedAssetBurnAmount A
      | NULL_ADD_QUALIFIER \<Rightarrow> nAddNullQualifierTagBurnAmount A
      | _ \<Rightarrow> 0)"

definition GetBurnAddress :: "AssetParams \<Rightarrow> AssetType \<Rightarrow> string" where
  "GetBurnAddress A type =
     (case type of
        ROOT \<Rightarrow> strIssueAssetBurnAddress A
      | SUB \<Rightarrow> strIssueSubAssetBurnAddress A
      | MSGCHANNEL \<Rightarrow> strIssueMsgChannelAssetBurnAddress A
      | UNIQUE \<Rightarrow> strIssueUniqueAssetBurnAddress A
      | REISSUE \<Rightarrow> strReissueAssetBurnAddress A
      | QUALIFIER \<Rightarrow> strIssueQualifierAssetBurnAddress A
      | SUB_QUALIFIER \<Rightarrow> strIssueSubQualifierAssetBurnAddress A
      | RESTRICTED \<Rightarrow> strIssueRestrictedAssetBurnAddress A
      | NULL_ADD_QUALIFIER \<Rightarrow> strAddNullQualifierTagBurnAddress A
      | _ \<Rightarrow> [])"

section \<open>Burn outputs\<close>

definition pays_address :: "AssetParams \<Rightarrow> CTxOut \<Rightarrow> string \<Rightarrow> bool" where
  "pays_address A o1 addr =
     (case ExtractDestination (scriptPubKey o1) of None \<Rightarrow> False
      | Some destination \<Rightarrow>
          destination \<noteq> CNoDestination \<and> EncodeDestination (prefixes A) destination = Some addr)"

definition CheckIssueBurnTx :: "AssetParams \<Rightarrow> CTxOut \<Rightarrow> AssetType \<Rightarrow> int \<Rightarrow> bool" where
  "CheckIssueBurnTx A o1 type numberIssued \<longleftrightarrow>
     type \<notin> {REISSUE, VOTE, OWNER, INVALID} \<and> nValue o1 = GetBurnAmount A type * numberIssued \<and>
     pays_address A o1 (GetBurnAddress A type)"

definition CheckReissueBurnTx :: "AssetParams \<Rightarrow> CTxOut \<Rightarrow> bool" where
  "CheckReissueBurnTx A o1 \<longleftrightarrow>
     nValue o1 = nReissueAssetBurnAmount A \<and> pays_address A o1 (strReissueAssetBurnAddress A)"

definition CheckAddingTagBurnFee :: "AssetParams \<Rightarrow> CTransaction \<Rightarrow> int \<Rightarrow> bool" where
  "CheckAddingTagBurnFee A tx n = list_ex (\<lambda>o1. CheckIssueBurnTx A o1 NULL_ADD_QUALIFIER n) (vout tx)"

section \<open>Kinds of transaction\<close>

text \<open>
  The last output and the one before it; a transaction without outputs is refused before these
  are looked at.
\<close>

definition last_script :: "CTransaction \<Rightarrow> CScript" where
  "last_script tx = scriptPubKey (vout tx ! (length (vout tx) - 1))"

definition owner_script_of :: "CTransaction \<Rightarrow> CScript" where
  "owner_script_of tx = scriptPubKey (vout tx ! (length (vout tx) - 2))"

definition MsgChannelAssetFromScript :: "base58_prefixes \<Rightarrow> CScript \<Rightarrow> (CNewAsset \<times> string option) option" where
  "MsgChannelAssetFromScript P s = (if IsScriptNewMsgChannelAsset P s then AssetFromScript P s else None)"

definition QualifierAssetFromScript :: "base58_prefixes \<Rightarrow> CScript \<Rightarrow> (CNewAsset \<times> string option) option" where
  "QualifierAssetFromScript P s = (if IsScriptNewQualifierAsset P s then AssetFromScript P s else None)"

definition RestrictedAssetFromScript :: "base58_prefixes \<Rightarrow> CScript \<Rightarrow> (CNewAsset \<times> string option) option" where
  "RestrictedAssetFromScript P s = (if IsScriptNewRestrictedAsset P s then AssetFromScript P s else None)"

definition IsNewUniqueAsset :: "base58_prefixes \<Rightarrow> CTransaction \<Rightarrow> bool" where
  "IsNewUniqueAsset P tx \<longleftrightarrow> IsNewAsset (last_script tx) \<and> IsScriptNewUniqueAsset P (last_script tx)"

definition IsNewMsgChannelAsset :: "base58_prefixes \<Rightarrow> CTransaction \<Rightarrow> bool" where
  "IsNewMsgChannelAsset P tx \<longleftrightarrow> IsNewAsset (last_script tx) \<and> IsScriptNewMsgChannelAsset P (last_script tx)"

definition IsNewQualifierAsset :: "base58_prefixes \<Rightarrow> CTransaction \<Rightarrow> bool" where
  "IsNewQualifierAsset P tx \<longleftrightarrow> IsNewAsset (last_script tx) \<and> IsScriptNewQualifierAsset P (last_script tx)"

definition IsNewRestrictedAsset :: "base58_prefixes \<Rightarrow> CTransaction \<Rightarrow> bool" where
  "IsNewRestrictedAsset P tx \<longleftrightarrow> IsNewAsset (last_script tx) \<and> IsScriptNewRestrictedAsset P (last_script tx)"

definition Tx_IsReissueAsset :: "CTransaction \<Rightarrow> bool" where
  "Tx_IsReissueAsset tx = IsReissueAsset (last_script tx)"

definition AssetFromTransaction :: "base58_prefixes \<Rightarrow> CTransaction \<Rightarrow> (CNewAsset \<times> string option) option" where
  "AssetFromTransaction P tx = (if Tx_IsNewAsset P tx then AssetFromScript P (last_script tx) else None)"

definition OwnerFromTransaction :: "base58_prefixes \<Rightarrow> CTransaction \<Rightarrow> (string \<times> string option) option" where
  "OwnerFromTransaction P tx = (if Tx_IsNewAsset P tx then OwnerAssetFromScript P (owner_script_of tx) else None)"

definition MsgChannelAssetFromTransaction :: "base58_prefixes \<Rightarrow> CTransaction \<Rightarrow> (CNewAsset \<times> string option) option" where
  "MsgChannelAssetFromTransaction P tx =
     (if IsNewMsgChannelAsset P tx then MsgChannelAssetFromScript P (last_script tx) else None)"

definition QualifierAssetFromTransaction :: "base58_prefixes \<Rightarrow> CTransaction \<Rightarrow> (CNewAsset \<times> string option) option" where
  "QualifierAssetFromTransaction P tx =
     (if IsNewQualifierAsset P tx then QualifierAssetFromScript P (last_script tx) else None)"

definition RestrictedAssetFromTransaction :: "base58_prefixes \<Rightarrow> CTransaction \<Rightarrow> (CNewAsset \<times> string option) option" where
  "RestrictedAssetFromTransaction P tx =
     (if IsNewRestrictedAsset P tx then RestrictedAssetFromScript P (last_script tx) else None)"

definition ReissueAssetFromTransaction :: "base58_prefixes \<Rightarrow> CTransaction \<Rightarrow> (CReissueAsset \<times> string option) option" where
  "ReissueAssetFromTransaction P tx =
     (if Tx_IsReissueAsset tx then ReissueAssetFromScript P (last_script tx) else None)"

text \<open>The numbers of issues, reissues, transfers and owner tokens among the outputs.\<close>

record TxOutAssetTypes =
  issues :: nat
  reissues :: nat
  transfers :: nat
  owners :: nat

fun GetTxOutAssetTypes :: "CTxOut list \<Rightarrow> TxOutAssetTypes" where
  "GetTxOutAssetTypes [] = \<lparr>issues = 0, reissues = 0, transfers = 0, owners = 0\<rparr>"
| "GetTxOutAssetTypes (o1 # os) =
     (let n = GetTxOutAssetTypes os
      in case IsAssetScript (scriptPubKey o1) of
           None \<Rightarrow> n
         | Some (TX_NEW_ASSET, False, i) \<Rightarrow> n\<lparr>issues := issues n + 1\<rparr>
         | Some (TX_NEW_ASSET, True, i) \<Rightarrow> n\<lparr>owners := owners n + 1\<rparr>
         | Some (TX_TRANSFER_ASSET, own, i) \<Rightarrow> n\<lparr>transfers := transfers n + 1\<rparr>
         | Some (TX_REISSUE_ASSET, own, i) \<Rightarrow> n\<lparr>reissues := reissues n + 1\<rparr>)"

definition sends_asset :: "base58_prefixes \<Rightarrow> string \<Rightarrow> CTxOut \<Rightarrow> bool" where
  "sends_asset P name o1 =
     (case TransferAssetFromScript P (scriptPubKey o1) of None \<Rightarrow> False | Some (t, addr) \<Rightarrow> t_strName t = name)"

definition name_type :: "AssetType \<Rightarrow> string \<Rightarrow> AssetType" where
  "name_type u name = (case snd (IsAssetNameValid name) of None \<Rightarrow> u | Some t \<Rightarrow> t)"

section \<open>Checks of each kind\<close>

definition IsNewOwnerTxValid :: "base58_prefixes \<Rightarrow> CTransaction \<Rightarrow> string \<Rightarrow> string option \<Rightarrow> string option" where
  "IsNewOwnerTxValid P tx assetName address =
     (case OwnerFromTransaction P tx of None \<Rightarrow> Some ''bad-txns-bad-owner''
      | Some (ownerName, ownerAddress) \<Rightarrow>
          if ownerAddress \<noteq> address then Some ''bad-txns-owner-address-mismatch''
          else if length ownerName < 1 + MIN_ASSET_LENGTH then Some ''bad-txns-owner-asset-length''
          else if ownerName \<noteq> assetName @ OWNER_TAG then Some ''bad-txns-owner-name-mismatch''
          else None)"

text \<open>
  The check of ordinary issues, with the X account rule for roots; \<open>X\<close> and \<open>M\<close> are the assignments of
  the chain and of the mempool, which \<^verbatim>\<open>CheckIfXAccountAssigned\<close> looks into.
\<close>

definition VerifyNewAsset ::
  "AssetParams \<Rightarrow> XAssignments \<Rightarrow> MempoolAssets \<Rightarrow> AssetType \<Rightarrow> CTransaction \<Rightarrow> string option" where
  "VerifyNewAsset A X M u tx =
     (if length (vout tx) < 3 then Some ''bad-txns-issue-vout-size-to-small''
      else if \<not> IsNewAsset (last_script tx) then Some ''bad-txns-issue-data-not-found''
      else if \<not> IsOwnerAsset (owner_script_of tx) then Some ''bad-txns-issue-owner-data-not-found''
      else case AssetFromScript (prefixes A) (last_script tx) of None \<Rightarrow> Some ''bad-txns-issue-serialzation-failed''
      | Some (asset, address) \<Rightarrow>
          let assetType = name_type u (strName asset)
          in case OwnerAssetFromScript (prefixes A) (owner_script_of tx) of
               None \<Rightarrow> Some ''bad-txns-issue-owner-serialzation-failed''
             | Some (strOwnerName, address) \<Rightarrow>
                 if strOwnerName \<noteq> strName asset @ OWNER_TAG then Some ''bad-txns-issue-owner-name-doesn't-match''
                 else
                   let fFoundIssueBurnTx = list_ex (\<lambda>o1. CheckIssueBurnTx A o1 assetType 1) (vout tx);
                       account =
                         (if assetType = ROOT then
                            if fFoundIssueBurnTx then Some ''bad-txns-issue-root-must-be-protocol-assignment''
                            else case ParseXAccountAssignment tx of
                                   None \<Rightarrow> Some ''bad-txns-issue-root-missing-xaccount''
                                 | Some xid \<Rightarrow>
                                     (case CheckIfXAccountAssigned X M xid of None \<Rightarrow> None
                                      | Some existing \<Rightarrow>
                                          if existing \<noteq> strName asset then Some ''bad-txns-xaccount-already-assigned'' else None)
                          else if \<not> fFoundIssueBurnTx then Some ''bad-txns-issue-burn-not-found''
                          else None)
                   in case account of Some e \<Rightarrow> Some e
                      | None \<Rightarrow>
                          if assetType = SUB \<and>
                             \<not> list_ex (sends_asset (prefixes A) (GetParentName (strName asset) @ OWNER_TAG)) (vout tx)
                          then Some ''bad-txns-issue-new-asset-missing-owner-asset''
                          else
                            let n = GetTxOutAssetTypes (vout tx)
                            in if owners n \<noteq> 1 \<or> issues n \<noteq> 1 \<or> 0 < reissues n
                               then Some ''bad-txns-failed-issue-asset-formatting-check'' else None)"

text \<open>
  The loop of \<^verbatim>\<open>VerifyNewUniqueAsset\<close> over the unique assets: \<open>root\<close> is \<^verbatim>\<open>assetRoot\<close> and \<open>seen\<close> the names so
  far; the result is the root and the names.
\<close>

fun unique_outputs ::
  "base58_prefixes \<Rightarrow> CTxOut list \<Rightarrow> string \<Rightarrow> string list \<Rightarrow> string + string \<times> string list" where
  "unique_outputs P [] root seen = Inr (root, seen)"
| "unique_outputs P (o1 # os) root seen =
     (if \<not> IsScriptNewUniqueAsset P (scriptPubKey o1) then unique_outputs P os root seen
      else case AssetFromScript P (scriptPubKey o1) of None \<Rightarrow> Inl ''bad-txns-issue-unique-asset-from-script''
      | Some (asset, address) \<Rightarrow>
          let parent = GetParentName (strName asset); root = (if root = [] then parent else root)
          in if root \<noteq> parent then Inl ''bad-txns-issue-unique-asset-compare-failed''
             else if strName asset \<in> set seen then Inl ''bad-txns-issue-unique-duplicate-name-in-same-tx''
             else unique_outputs P os root (strName asset # seen))"

definition VerifyNewUniqueAsset :: "AssetParams \<Rightarrow> CTransaction \<Rightarrow> string option" where
  "VerifyNewUniqueAsset A tx =
     (if length (vout tx) < 3 then Some ''bad-txns-unique-vout-size-to-small''
      else case unique_outputs (prefixes A) (vout tx) [] [] of Inl e \<Rightarrow> Some e
      | Inr (assetRoot, names) \<Rightarrow>
          if length names = 0 then Some ''bad-txns-issue-unique-asset-bad-outpoint-count''
          else if \<not> list_ex (\<lambda>o1. CheckIssueBurnTx A o1 UNIQUE (int (length names))) (vout tx) then
            Some ''bad-txns-issue-unique-asset-burn-outpoints-not-found''
          else if \<not> list_ex (sends_asset (prefixes A) (assetRoot @ OWNER_TAG)) (vout tx) then
            Some ''bad-txns-issue-unique-asset-missing-owner-asset''
          else
            let n = GetTxOutAssetTypes (vout tx)
            in if 0 < owners n \<or> 0 < reissues n \<or> issues n \<noteq> length names
               then Some ''bad-txns-failed-unique-asset-formatting-check'' else None)"

definition VerifyNewMsgChannelAsset :: "AssetParams \<Rightarrow> CTransaction \<Rightarrow> string option" where
  "VerifyNewMsgChannelAsset A tx =
     (if length (vout tx) < 3 then Some ''bad-txns-issue-msgchannel-vout-size-to-small''
      else if \<not> IsNewAsset (last_script tx) then Some ''bad-txns-issue-data-not-found''
      else case MsgChannelAssetFromScript (prefixes A) (last_script tx) of
             None \<Rightarrow> Some ''bad-txns-issue-msgchannel-serialzation-failed''
           | Some (asset, address) \<Rightarrow>
               if \<not> list_ex (\<lambda>o1. CheckIssueBurnTx A o1 MSGCHANNEL 1) (vout tx) then
                 Some ''bad-txns-issue-msgchannel-burn-not-found''
               else if \<not> list_ex (sends_asset (prefixes A) (GetParentName (strName asset) @ OWNER_TAG)) (vout tx) then
                 Some ''bad-txns-issue-msg-channel-asset-bad-owner-asset''
               else
                 let n = GetTxOutAssetTypes (vout tx)
                 in if owners n \<noteq> 0 \<or> issues n \<noteq> 1 \<or> 0 < reissues n
                    then Some ''bad-txns-failed-issue-msgchannel-asset-formatting-check'' else None)"

definition VerifyNewQualfierAsset :: "AssetParams \<Rightarrow> AssetType \<Rightarrow> CTransaction \<Rightarrow> string option" where
  "VerifyNewQualfierAsset A u tx =
     (if length (vout tx) < 2 then Some ''bad-txns-issue-qualifier-vout-size-to-small''
      else if \<not> IsNewAsset (last_script tx) then Some ''bad-txns-issue-qualifider-data-not-found''
      else case QualifierAssetFromScript (prefixes A) (last_script tx) of
             None \<Rightarrow> Some ''bad-txns-issue-qualifier-serialzation-failed''
           | Some (asset, address) \<Rightarrow>
               let assetType = name_type u (strName asset)
               in if \<not> list_ex (\<lambda>o1. CheckIssueBurnTx A o1 assetType 1) (vout tx) then
                    Some ''bad-txns-issue-qualifier-burn-not-found''
                  else if assetType = SUB_QUALIFIER \<and>
                    \<not> list_ex (sends_asset (prefixes A) (GetParentName (strName asset))) (vout tx) then
                    Some ''bad-txns-issue-sub-qualifier-parent-outpoint-not-found''
                  else
                    let n = GetTxOutAssetTypes (vout tx)
                    in if owners n \<noteq> 0 \<or> issues n \<noteq> 1 \<or> 0 < reissues n
                       then Some ''bad-txns-failed-issue-asset-formatting-check'' else None)"

text \<open>
  The only verifier string among the outputs, or the error and whether it is that there is none; \<open>found\<close>
  is the one read so far.
\<close>

fun verifier_output :: "CTxOut list \<Rightarrow> string option \<Rightarrow> (string \<times> bool) + string" where
  "verifier_output [] found =
     (case found of None \<Rightarrow> Inl (''Verifier string not found'', True) | Some v \<Rightarrow> Inr v)"
| "verifier_output (o1 # os) found =
     (if \<not> IsNullAssetVerifierTxDataScript (scriptPubKey o1) then verifier_output os found
      else if found \<noteq> None then Inl (''Multiple verifier strings found in transaction'', False)
      else case AssetNullVerifierDataFromScript (scriptPubKey o1) of
             None \<Rightarrow> Inl (''Failed to get verifier string from output'', False)
           | Some v \<Rightarrow> verifier_output os (Some v))"

definition GetVerifierStringFromTx :: "CTransaction \<Rightarrow> (string \<times> bool) + string" where
  "GetVerifierStringFromTx tx = verifier_output (vout tx) None"

definition VerifyNewRestrictedAsset :: "AssetParams \<Rightarrow> AssetType \<Rightarrow> CTransaction \<Rightarrow> string option" where
  "VerifyNewRestrictedAsset A u tx =
     (if length (vout tx) < 4 then Some ''bad-txns-issue-restricted-vout-size-to-small''
      else if \<not> IsNewAsset (last_script tx) then Some ''bad-txns-issue-restricted-data-not-found''
      else case RestrictedAssetFromScript (prefixes A) (last_script tx) of
             None \<Rightarrow> Some ''bad-txns-issue-restricted-serialization-failed''
           | Some (asset, address) \<Rightarrow>
               if \<not> list_ex (\<lambda>o1. CheckIssueBurnTx A o1 (name_type u (strName asset)) 1) (vout tx) then
                 Some ''bad-txns-issue-restricted-burn-not-found''
               else if \<not> list_ex (sends_asset (prefixes A) (drop 1 (GetParentName (strName asset)) @ OWNER_TAG)) (vout tx) then
                 Some ''bad-txns-issue-restricted-root-owner-token-outpoint-not-found''
               else case GetVerifierStringFromTx tx of Inl (e, fNotFound) \<Rightarrow> Some e
               | Inr verifier \<Rightarrow>
                   let n = GetTxOutAssetTypes (vout tx)
                   in if owners n \<noteq> 0 \<or> issues n \<noteq> 1 \<or> 0 < reissues n
                      then Some ''bad-txns-failed-issue-asset-formatting-check'' else None)"

definition VerifyReissueAsset :: "AssetParams \<Rightarrow> CTransaction \<Rightarrow> string option" where
  "VerifyReissueAsset A tx =
     (if length (vout tx) < 3 then Some ''bad-txns-vout-size-to-small''
      else if \<not> IsReissueAsset (last_script tx) then Some ''bad-txns-reissue-data-not-found''
      else case ReissueAssetFromScript (prefixes A) (last_script tx) of
             None \<Rightarrow> Some ''bad-txns-reissue-serialization-failed''
           | Some (reissue, address) \<Rightarrow>
               let name = (if name_type INVALID (r_strName reissue) = RESTRICTED then drop 1 (r_strName reissue)
                           else r_strName reissue)
               in if \<not> list_ex (sends_asset (prefixes A) (name @ OWNER_TAG)) (vout tx) then
                    Some ''bad-txns-reissue-owner-outpoint-not-found''
                  else if \<not> list_ex (CheckReissueBurnTx A) (vout tx) then
                    Some ''bad-txns-reissue-burn-outpoint-not-found''
                  else
                    let n = GetTxOutAssetTypes (vout tx)
                    in if 0 < owners n \<or> reissues n \<noteq> 1 \<or> 0 < issues n
                       then Some ''bad-txns-failed-reissue-asset-formatting-check'' else None)"

section \<open>The data of an asset\<close>

abbreviation "OWNER_ASSET_AMOUNT \<equiv> 1 * COIN"
abbreviation "UNIQUE_ASSET_AMOUNT \<equiv> 1 * COIN"
abbreviation "UNIQUE_ASSET_UNITS \<equiv> (0 :: int)"
abbreviation "QUALIFIER_ASSET_MIN_AMOUNT \<equiv> 1 * COIN"
abbreviation "QUALIFIER_ASSET_MAX_AMOUNT \<equiv> 10 * COIN"
abbreviation "QUALIFIER_ASSET_UNITS \<equiv> (0 :: int)"

text \<open>Every caller has checked that the units are between 0 and 8.\<close>

definition CheckAmountWithUnits :: "CAmount \<Rightarrow> int \<Rightarrow> bool" where
  "CheckAmountWithUnits amount nUnits \<longleftrightarrow> amount mod 10 ^ nat (MAX_UNIT - nUnits) = 0"

datatype asset_error =
    invalid_name | restricted_removed | unique_units | unique_amount | unique_reissuable | owner_name
  | amount_not_positive | amount_too_large | bad_units | amount_not_divisible | bad_reissuable | bad_has_ipfs

text \<open>
  The second test on qualifiers in the source comes after the one that refuses every qualifier.
\<close>

definition CheckNewAsset :: "CNewAsset \<Rightarrow> asset_error option" where
  "CheckNewAsset asset =
     (case IsAssetNameValid (strName asset) of
        (True, Some assetType) \<Rightarrow>
          if assetType \<in> {RESTRICTED, QUALIFIER, SUB_QUALIFIER} then Some restricted_removed
          else if assetType \<in> {UNIQUE, MSGCHANNEL} \<and> units asset \<noteq> UNIQUE_ASSET_UNITS then Some unique_units
          else if assetType \<in> {UNIQUE, MSGCHANNEL} \<and> nAmount asset \<noteq> UNIQUE_ASSET_AMOUNT then Some unique_amount
          else if assetType \<in> {UNIQUE, MSGCHANNEL} \<and> nReissuable asset \<noteq> 0 then Some unique_reissuable
          else if IsAssetNameAnOwner (strName asset) then Some owner_name
          else if nAmount asset \<le> 0 then Some amount_not_positive
          else if MAX_MONEY < nAmount asset then Some amount_too_large
          else if units asset < 0 \<or> 8 < units asset then Some bad_units
          else if \<not> CheckAmountWithUnits (nAmount asset) (units asset) then Some amount_not_divisible
          else if nReissuable asset \<noteq> 0 \<and> nReissuable asset \<noteq> 1 then Some bad_reissuable
          else if nHasIPFS asset \<noteq> 0 \<and> nHasIPFS asset \<noteq> 1 then Some bad_has_ipfs
          else None
      | _ \<Rightarrow> Some invalid_name)"

definition CheckReissueAsset :: "AssetParams \<Rightarrow> CReissueAsset \<Rightarrow> string option" where
  "CheckReissueAsset A asset =
     (if r_nAmount asset < 0 \<or> MAX_MONEY \<le> r_nAmount asset then
        Some ''Unable to reissue asset: amount must be 0 or larger''
      else if MAX_UNIT < r_nUnits asset \<or> r_nUnits asset < -1 then
        Some ''Unable to reissue asset: unit must be between 8 and -1''
      else
        let fSkip = (fTestnet A \<and> (r_strName asset = ''GAMINGWEB'' \<and> r_nReissuable asset = 109 \<or>
                                  r_strName asset = ''UINT8'' \<and> r_nReissuable asset = -47))
        in if \<not> fSkip \<and> r_nReissuable asset \<noteq> 0 \<and> r_nReissuable asset \<noteq> 1 then
             Some ''Unable to reissue asset: reissuable must be 0 or 1''
           else None)"

end
