(* ===== verification/XC_CheckTx.thy ===== *)
theory XC_CheckTx
  imports XC_AssetTx XC_Serialize "HOL-Library.Product_Lexorder"
begin

text \<open>
  \<^verbatim>\<open>CheckTransaction\<close> of \<^verbatim>\<open>src/src/consensus/tx_verify.cpp\<close>: the checks of a transaction that need no view of
  the coins. A rejection carries the misbehaviour score and the reason. \<^verbatim>\<open>AreEnforcedValuesDeployed\<close> and
  \<^verbatim>\<open>AreCoinbaseCheckAssetsDeployed\<close> hold from the first block on, since \<^verbatim>\<open>nAssetActivationHeight\<close> is 0.
\<close>

type_synonym reject = "nat \<times> string"

abbreviation "WITNESS_SCALE_FACTOR \<equiv> (4 :: nat)"
abbreviation "MAX_BLOCK_WEIGHT_RIP2 \<equiv> (8000000 :: nat)"

definition GetMaxBlockWeight :: nat where "GetMaxBlockWeight = MAX_BLOCK_WEIGHT_RIP2"

function Find_loop :: "opcodetype \<Rightarrow> bytes \<Rightarrow> nat" where
  "Find_loop oc pc =
     (if pc = [] then 0
      else case GetOp2 pc of None \<Rightarrow> 0
           | Some (opcode, vch, pc') \<Rightarrow> (if opcode = oc then 1 else 0) + Find_loop oc pc')"
  by pat_completeness auto
termination
  by (relation "measure (\<lambda>(oc, pc). length pc)") auto

declare Find_loop.simps [simp del]

definition Find :: "CScript \<Rightarrow> opcodetype \<Rightarrow> nat" where "Find s oc = Find_loop oc s"

definition asset_error_text :: "asset_error \<Rightarrow> string" where
  "asset_error_text e =
     (case e of
        invalid_name \<Rightarrow> ''Invalid parameter: asset_name must only consist of valid characters and have a size between 3 and 32 characters. See help for more details.''
      | restricted_removed \<Rightarrow> ''Restricted assets were removed''
      | unique_units \<Rightarrow> ''Invalid parameter: units must be 0''
      | unique_amount \<Rightarrow> ''Invalid parameter: amount must be 100000000''
      | unique_reissuable \<Rightarrow> ''Invalid parameter: reissuable must be 0''
      | owner_name \<Rightarrow> ''Invalid parameters: asset_name can't have a '!' at the end of it. See help for more details.''
      | amount_not_positive \<Rightarrow> ''Invalid parameter: asset amount can't be equal to or less than zero.''
      | amount_too_large \<Rightarrow> ''Invalid parameter: asset amount greater than max money: 21000000000''
      | bad_units \<Rightarrow> ''Invalid parameter: units must be between 0-8.''
      | amount_not_divisible \<Rightarrow> ''Invalid parameter: amount must be divisible by the smaller unit assigned to the asset''
      | bad_reissuable \<Rightarrow> ''Invalid parameter: reissuable must be 0 or 1''
      | bad_has_ipfs \<Rightarrow> ''Invalid parameter: has_ipfs must be 0 or 1.'')"

section \<open>The loop over the outputs\<close>

text \<open>
  \<open>null_data\<close> is \<^verbatim>\<open>mapNullDataTxCount\<close>, whose counts never pass one, and \<open>transfer_names\<close> and
  \<open>global_changes\<close> are the two sets.
\<close>

record check_state =
  nValueOut :: CAmount
  transfer_names :: "(string, unit) omap"
  null_data :: "(string \<times> string, unit) omap"
  global_changes :: "(string, unit) omap"
  fContainsNullAssetVerifierTx :: bool
  nCountAddTagOuts :: int

definition check_start :: check_state where
  "check_start = \<lparr>nValueOut = 0, transfer_names = [], null_data = [], global_changes = [],
     fContainsNullAssetVerifierTx = False, nCountAddTagOuts = 0\<rparr>"

definition VerifyNullAssetDataFlag :: "int \<Rightarrow> string option" where
  "VerifyNullAssetDataFlag f = (if f \<noteq> 0 \<and> f \<noteq> 1 then Some ''bad-txns-null-data-flag-must-be-0-or-1'' else None)"

definition the_address :: "string option \<Rightarrow> string" where
  "the_address a = (case a of None \<Rightarrow> [] | Some s \<Rightarrow> s)"

definition check_null_asset :: "AssetParams \<Rightarrow> check_state \<Rightarrow> CTxOut \<Rightarrow> reject + check_state" where
  "check_null_asset A st o1 =
     (let s = scriptPubKey o1
      in if IsNullAssetTxDataScript s then
           (case AssetNullDataFromScript (prefixes A) s of
              None \<Rightarrow> Inl (100, ''bad-txns-null-asset-data-serialization'')
            | Some (data, address) \<Rightarrow>
                (case VerifyNullAssetDataFlag (flag data) of Some e \<Rightarrow> Inl (100, e)
                 | None \<Rightarrow>
                     let pair = (asset_name data, the_address address)
                     in if map_of (null_data st) pair \<noteq> None then
                          Inl (100, ''bad-txns-null-data-only-one-change-per-asset-address'')
                        else Inr (st\<lparr>null_data := map_put pair () (null_data st),
                          nCountAddTagOuts := nCountAddTagOuts st +
                            (if IsAssetNameAQualifier (asset_name data) False \<and> flag data = 1 then 1 else 0)\<rparr>)))
         else if IsNullGlobalRestrictionAssetTxDataScript s then
           (case GlobalAssetNullDataFromScript s of
              None \<Rightarrow> Inl (100, ''bad-txns-null-global-asset-data-serialization'')
            | Some data \<Rightarrow>
                (case VerifyNullAssetDataFlag (flag data) of Some e \<Rightarrow> Inl (100, e)
                 | None \<Rightarrow>
                     if map_of (global_changes st) (asset_name data) \<noteq> None then
                       Inl (100, ''bad-txns-null-data-only-one-global-change-per-asset-name'')
                     else Inr (st\<lparr>global_changes := map_put (asset_name data) () (global_changes st)\<rparr>)))
         else if IsNullAssetVerifierTxDataScript s then
           (case CheckVerifierAssetTxOut o1 of Some e \<Rightarrow> Inl (100, e)
            | None \<Rightarrow>
                if fContainsNullAssetVerifierTx st then Inl (100, ''bad-txns-null-data-only-one-verifier-per-tx'')
                else Inr (st\<lparr>fContainsNullAssetVerifierTx := True\<rparr>))
         else Inr st)"

definition check_asset_output ::
  "AssetParams \<Rightarrow> bool \<Rightarrow> bool \<Rightarrow> check_state \<Rightarrow> CTxOut \<Rightarrow> reject + check_state" where
  "check_asset_output A fMempoolCheck fBlockCheck st o1 =
     (case IsAssetScript (scriptPubKey o1) of
        None \<Rightarrow> Inr st
      | Some (TX_TRANSFER_ASSET, own, i) \<Rightarrow>
          (case TransferAssetFromScript (prefixes A) (scriptPubKey o1) of
             None \<Rightarrow> Inl (100, ''bad-txns-transfer-asset-bad-deserialize'')
           | Some (transfer, address) \<Rightarrow>
               (case IsAssetNameValid (t_strName transfer) of
                  (True, Some assetType) \<Rightarrow>
                    if IsAssetNameAnOwner (t_strName transfer) \<and> t_nAmount transfer \<noteq> OWNER_ASSET_AMOUNT then
                      Inl (100, ''bad-txns-transfer-owner-amount-was-not-1'')
                    else if assetType = UNIQUE \<and> t_nAmount transfer \<noteq> UNIQUE_ASSET_AMOUNT then
                      Inl (100, ''bad-txns-transfer-unique-amount-was-not-1'')
                    else if assetType \<in> {QUALIFIER, SUB_QUALIFIER} \<and>
                      (t_nAmount transfer < QUALIFIER_ASSET_MIN_AMOUNT \<or> QUALIFIER_ASSET_MAX_AMOUNT < t_nAmount transfer) then
                      Inl (100, ''bad-txns-transfer-qualifier-amount-must be between 1 - 100'')
                    else if nValue o1 \<noteq> 0 then Inl (100, ''bad-txns-asset-transfer-amount-isn't-zero'')
                    else Inr (st\<lparr>transfer_names := map_put (t_strName transfer) () (transfer_names st)\<rparr>)
                | _ \<Rightarrow> Inl (100, ''bad-txns-transfer-asset-name-invalid'')))
      | Some (TX_NEW_ASSET, own, i) \<Rightarrow>
          if nValue o1 \<noteq> 0 then Inl (100, ''bad-txns-asset-issued-amount-isn't-zero'') else Inr st
      | Some (TX_REISSUE_ASSET, own, i) \<Rightarrow>
          if fBlockCheck \<and> nValue o1 \<noteq> 0 then Inl (0, ''bad-txns-asset-reissued-amount-isn't-zero'')
          else if fMempoolCheck \<and> nValue o1 \<noteq> 0 then Inl (0, ''bad-mempool-txns-asset-reissued-amount-isn't-zero'')
          else Inr st)"

definition check_output ::
  "AssetParams \<Rightarrow> bool \<Rightarrow> bool \<Rightarrow> check_state \<Rightarrow> CTxOut \<Rightarrow> reject + check_state" where
  "check_output A fMempoolCheck fBlockCheck st o1 =
     (if nValue o1 < 0 then Inl (100, ''bad-txns-vout-negative'')
      else if MAX_MONEY < nValue o1 then Inl (100, ''bad-txns-vout-toolarge'')
      else if \<not> MoneyRange (nValueOut st + nValue o1) then Inl (100, ''bad-txns-txouttotal-toolarge'')
      else case check_null_asset A (st\<lparr>nValueOut := nValueOut st + nValue o1\<rparr>) o1 of Inl e \<Rightarrow> Inl e
      | Inr st' \<Rightarrow> check_asset_output A fMempoolCheck fBlockCheck st' o1)"

fun check_outputs ::
  "AssetParams \<Rightarrow> bool \<Rightarrow> bool \<Rightarrow> CTxOut list \<Rightarrow> check_state \<Rightarrow> reject + check_state" where
  "check_outputs A fM fB [] st = Inr st"
| "check_outputs A fM fB (o1 # os) st =
     (case check_output A fM fB st o1 of Inl e \<Rightarrow> Inl e | Inr st' \<Rightarrow> check_outputs A fM fB os st')"

section \<open>After the outputs\<close>

fun first_error :: "('a \<Rightarrow> 'e option) \<Rightarrow> 'a list \<Rightarrow> 'e option" where
  "first_error f [] = None"
| "first_error f (x # xs) = (case f x of None \<Rightarrow> first_error f xs | Some e \<Rightarrow> Some e)"

text \<open>
  A change to an asset must come with a transfer of the asset or of its owner token. The source reads the
  first character of the name also when the name is empty, where it finds the terminator of the string.
\<close>

definition null_data_error :: "check_state \<Rightarrow> string \<times> string \<Rightarrow> reject option" where
  "null_data_error st entry =
     (case fst entry of
        CHR ''$'' # token \<Rightarrow>
          if map_of (transfer_names st) (token @ OWNER_TAG) = None then
            Some (100, ''bad-txns-tx-contains-restricted-asset-null-tx-without-asset-transfer'') else None
      | name \<Rightarrow>
          if map_of (transfer_names st) name = None then
            Some (100, ''bad-txns-tx-contains-qualifier-asset-null-tx-without-asset-transfer'') else None)"

definition global_change_error :: "check_state \<Rightarrow> string \<Rightarrow> reject option" where
  "global_change_error st name =
     (if length name = 0 then Some (100, ''bad-txns-tx-contains-global-asset-null-tx-with-null-asset-name'')
      else if map_of (transfer_names st) (drop 1 name @ OWNER_TAG) = None then
        Some (100, ''bad-txns-tx-contains-global-asset-null-tx-without-asset-transfer'')
      else None)"

text \<open>An output of a transaction that creates nothing.\<close>

definition plain_output_error :: "CTxOut \<Rightarrow> reject option" where
  "plain_output_error o1 =
     (case IsAssetScript (scriptPubKey o1) of
        Some (t, own, i) \<Rightarrow>
          if t \<noteq> TX_TRANSFER_ASSET then Some (100, ''bad-txns-bad-asset-transaction'') else None
      | None \<Rightarrow>
          if Find (scriptPubKey o1) OP_RVN_ASSET \<noteq> 0 \<and> scriptPubKey o1 ! 0 \<noteq> OP_RVN_ASSET then
            Some (100, ''bad-txns-op-rvn-asset-not-in-right-script-location'') else None)"

datatype restricted_use = no_restricted | issues_restricted | reissues_restricted

text \<open>
  The part for transactions that create or reissue: the rejection, or whether the transaction issues or
  reissues a restricted asset.
\<close>

definition check_creation ::
  "AssetParams \<Rightarrow> XAssignments \<Rightarrow> MempoolAssets \<Rightarrow> AssetType \<Rightarrow> CTransaction \<Rightarrow> reject + restricted_use" where
  "check_creation A X M u tx =
     (let P = prefixes A
      in if Tx_IsNewAsset P tx then
           (case VerifyNewAsset A X M u tx of Some e \<Rightarrow> Inl (100, e)
            | None \<Rightarrow>
                (case AssetFromTransaction P tx of None \<Rightarrow> Inl (100, ''bad-txns-issue-asset-from-transaction'')
                 | Some (asset, strAddress) \<Rightarrow>
                     (case IsNewOwnerTxValid P tx (strName asset) strAddress of Some e \<Rightarrow> Inl (100, e)
                      | None \<Rightarrow>
                          (case CheckNewAsset asset of Some e \<Rightarrow> Inl (100, asset_error_text e)
                           | None \<Rightarrow> Inr no_restricted))))
         else if Tx_IsReissueAsset tx then
           (case VerifyReissueAsset A tx of Some e \<Rightarrow> Inl (100, e)
            | None \<Rightarrow>
                (case ReissueAssetFromTransaction P tx of None \<Rightarrow> Inl (100, ''bad-txns-reissue-asset'')
                 | Some (reissue, strAddress) \<Rightarrow>
                     (case CheckReissueAsset A reissue of Some e \<Rightarrow> Inl (100, e)
                      | None \<Rightarrow>
                          if name_type u (r_strName reissue) = RESTRICTED then
                            (case GetVerifierStringFromTx tx of
                               Inl (e, False) \<Rightarrow> Inl (100, ''bad-txns-reissue-restricted-verifier-'' @ e)
                             | _ \<Rightarrow> Inr reissues_restricted)
                          else Inr no_restricted)))
         else if IsNewUniqueAsset P tx then
           (case VerifyNewUniqueAsset A tx of Some e \<Rightarrow> Inl (100, e)
            | None \<Rightarrow>
                (case first_error (\<lambda>o1.
                        if \<not> IsScriptNewUniqueAsset P (scriptPubKey o1) then None
                        else case AssetFromScript P (scriptPubKey o1) of
                               None \<Rightarrow> Some (100, ''bad-txns-check-transaction-issue-unique-asset-serialization'')
                             | Some (asset, strAddress) \<Rightarrow>
                                 (case CheckNewAsset asset of None \<Rightarrow> None
                                  | Some e \<Rightarrow> Some (100, ''bad-txns-issue-unique'' @ asset_error_text e))) (vout tx) of
                   Some e \<Rightarrow> Inl e | None \<Rightarrow> Inr no_restricted))
         else if IsNewMsgChannelAsset P tx then
           (case VerifyNewMsgChannelAsset A tx of Some e \<Rightarrow> Inl (100, e)
            | None \<Rightarrow>
                (case MsgChannelAssetFromTransaction P tx of None \<Rightarrow> Inl (100, ''bad-txns-issue-msgchannel-from-transaction'')
                 | Some (asset, strAddress) \<Rightarrow>
                     (case CheckNewAsset asset of None \<Rightarrow> Inr no_restricted
                      | Some e \<Rightarrow> Inl (100, ''bad-txns-issue-msgchannel'' @ asset_error_text e))))
         else if IsNewQualifierAsset P tx then
           (case VerifyNewQualfierAsset A u tx of Some e \<Rightarrow> Inl (100, e)
            | None \<Rightarrow>
                (case QualifierAssetFromTransaction P tx of None \<Rightarrow> Inl (100, ''bad-txns-issue-qualifier-from-transaction'')
                 | Some (asset, strAddress) \<Rightarrow>
                     (case CheckNewAsset asset of None \<Rightarrow> Inr no_restricted
                      | Some e \<Rightarrow> Inl (100, ''bad-txns-issue-qualfier'' @ asset_error_text e))))
         else if IsNewRestrictedAsset P tx then
           (case VerifyNewRestrictedAsset A u tx of Some e \<Rightarrow> Inl (100, e)
            | None \<Rightarrow>
                (case RestrictedAssetFromTransaction P tx of None \<Rightarrow> Inl (100, ''bad-txns-issue-restricted-from-transaction'')
                 | Some (asset, strAddress) \<Rightarrow>
                     (case CheckNewAsset asset of Some e \<Rightarrow> Inl (100, ''bad-txns-issue-restricted'' @ asset_error_text e)
                      | None \<Rightarrow>
                          (case GetVerifierStringFromTx tx of
                             Inl (e, fNotFound) \<Rightarrow> Inl (100, ''bad-txns-issue-restricted-verifier-search-'' @ e)
                           | Inr verifier \<Rightarrow> Inr issues_restricted))))
         else (case first_error plain_output_error (vout tx) of Some e \<Rightarrow> Inl e | None \<Rightarrow> Inr no_restricted))"

definition check_inputs :: "CTransaction \<Rightarrow> reject option" where
  "check_inputs tx =
     (if IsCoinBase tx then
        if length (scriptSig (vin tx ! 0)) < 2 \<or> 100 < length (scriptSig (vin tx ! 0)) then Some (100, ''bad-cb-length'')
        else if list_ex (\<lambda>o1. IsAssetScript (scriptPubKey o1) \<noteq> None \<or> IsNullAsset (scriptPubKey o1)) (vout tx) then
          Some (0, ''bad-txns-coinbase-contains-asset-txes'')
        else None
      else if list_ex (\<lambda>i. OutPoint_IsNull (prevout i)) (vin tx) then Some (10, ''bad-txns-prevout-null'')
      else None)"

definition CheckTransaction ::
  "AssetParams \<Rightarrow> XAssignments \<Rightarrow> MempoolAssets \<Rightarrow> AssetType \<Rightarrow> bool \<Rightarrow> bool \<Rightarrow> bool \<Rightarrow> CTransaction \<Rightarrow> reject option" where
  "CheckTransaction A X M u fCheckDuplicateInputs fMempoolCheck fBlockCheck tx =
     (if vin tx = [] then Some (10, ''bad-txns-vin-empty'')
      else if vout tx = [] then Some (10, ''bad-txns-vout-empty'')
      else if GetMaxBlockWeight < length (SerializeTransaction False tx) * WITNESS_SCALE_FACTOR then
        Some (100, ''bad-txns-oversize'')
      else case check_outputs A fMempoolCheck fBlockCheck (vout tx) check_start of Inl e \<Rightarrow> Some e
      | Inr st \<Rightarrow>
          if nCountAddTagOuts st \<noteq> 0 \<and> \<not> CheckAddingTagBurnFee A tx (nCountAddTagOuts st) then
            Some (100, ''bad-txns-tx-doesn't-contain-required-burn-fee-for-adding-tags'')
          else case first_error (null_data_error st) (map_keys (null_data st)) of Some e \<Rightarrow> Some e
          | None \<Rightarrow>
          case first_error (global_change_error st) (map_keys (global_changes st)) of Some e \<Rightarrow> Some e
          | None \<Rightarrow>
          if fCheckDuplicateInputs \<and> \<not> distinct (map prevout (vin tx)) then Some (100, ''bad-txns-inputs-duplicate'')
          else case check_inputs tx of Some e \<Rightarrow> Some e
          | None \<Rightarrow>
          case check_creation A X M u tx of Inl e \<Rightarrow> Some e
          | Inr c \<Rightarrow>
              if fContainsNullAssetVerifierTx st \<and> c = no_restricted then
                Some (100, ''bad-txns-tx-cointains-verifier-string-without-restricted-asset-issuance-or-reissuance'')
              else if c = issues_restricted \<and> \<not> fContainsNullAssetVerifierTx st then
                Some (100, ''bad-txns-tx-cointains-restricted-asset-issuance-without-verifier'')
              else map_option (\<lambda>e. (100, e)) (CheckXAccountDummyInputs (prefixes A) tx))"

section \<open>What acceptance means\<close>

lemma CheckTransaction_accepts:
  "CheckTransaction A X M u fD fM fB tx = None \<longleftrightarrow>
     vin tx \<noteq> [] \<and> vout tx \<noteq> [] \<and> length (SerializeTransaction False tx) * WITNESS_SCALE_FACTOR \<le> GetMaxBlockWeight \<and>
     (\<exists>st c. check_outputs A fM fB (vout tx) check_start = Inr st \<and>
        (nCountAddTagOuts st \<noteq> 0 \<longrightarrow> CheckAddingTagBurnFee A tx (nCountAddTagOuts st)) \<and>
        first_error (null_data_error st) (map_keys (null_data st)) = None \<and>
        first_error (global_change_error st) (map_keys (global_changes st)) = None \<and>
        (fD \<longrightarrow> distinct (map prevout (vin tx))) \<and> check_inputs tx = None \<and>
        check_creation A X M u tx = Inr c \<and> (fContainsNullAssetVerifierTx st \<longrightarrow> c \<noteq> no_restricted) \<and>
        (c = issues_restricted \<longrightarrow> fContainsNullAssetVerifierTx st) \<and> CheckXAccountDummyInputs (prefixes A) tx = None)"
  unfolding CheckTransaction_def by (auto split: sum.splits option.splits if_splits)

lemma first_error_None: "first_error f xs = None \<longleftrightarrow> (\<forall>x \<in> set xs. f x = None)"
  by (induction xs) (auto split: option.splits)

lemma asset_type_counts:
  "issues (GetTxOutAssetTypes os) = length (filter (\<lambda>o1. IsNewAsset (scriptPubKey o1)) os)"
  "owners (GetTxOutAssetTypes os) = length (filter (\<lambda>o1. IsOwnerAsset (scriptPubKey o1)) os)"
  "reissues (GetTxOutAssetTypes os) = length (filter (\<lambda>o1. IsReissueAsset (scriptPubKey o1)) os)"
  "transfers (GetTxOutAssetTypes os) = length (filter (\<lambda>o1. IsTransferAsset (scriptPubKey o1)) os)"
proof (atomize (full), induction os)
  case (Cons o1 os)
  note kinds = Let_def IsNewAsset_def IsOwnerAsset_def IsReissueAsset_def IsTransferAsset_def
  show ?case
  proof (cases "IsAssetScript (scriptPubKey o1)")
    case None
    then show ?thesis using Cons by (simp add: kinds)
  next
    case (Some k)
    obtain t own i where "k = (t, own, i)" by (cases k)
    with Some Cons show ?thesis by (cases t; cases own; simp add: kinds)
  qed
qed simp

lemma IsNewAsset_iff: "IsNewAsset s \<longleftrightarrow> (\<exists>i. IsAssetScript s = Some (TX_NEW_ASSET, False, i))"
  by (auto simp: IsNewAsset_def split: option.splits)

lemma IsOwnerAsset_iff: "IsOwnerAsset s \<longleftrightarrow> (\<exists>i. IsAssetScript s = Some (TX_NEW_ASSET, True, i))"
  by (auto simp: IsOwnerAsset_def split: option.splits)

lemma IsReissueAsset_iff: "IsReissueAsset s \<longleftrightarrow> (\<exists>own i. IsAssetScript s = Some (TX_REISSUE_ASSET, own, i))"
  by (auto simp: IsReissueAsset_def split: option.splits)

lemma AssetFromScript_new: "AssetFromScript P s = Some x \<Longrightarrow> IsNewAsset s"
  by (auto simp: AssetFromScript_def IsNewAsset_iff split: option.splits asset_tx.splits bool.splits)

lemma created_kind_new: "created_kind P s = Some k \<Longrightarrow> IsNewAsset s"
  by (auto simp: created_kind_def split: option.splits dest: AssetFromScript_new)

lemma last_script_in: "vout tx \<noteq> [] \<Longrightarrow> \<exists>o1 \<in> set (vout tx). last_script tx = scriptPubKey o1"
  by (auto simp: last_script_def intro!: bexI [of _ "vout tx ! (length (vout tx) - 1)"])

text \<open>Two outputs that satisfy a predicate that holds once are the same.\<close>

lemma filter_single:
  assumes "length (filter Q xs) = 1" "x \<in> set xs" "Q x" "y \<in> set xs" "Q y"
  shows "x = y"
proof -
  obtain z where z: "filter Q xs = [z]" using assms(1) by (cases "filter Q xs") auto
  have "x \<in> set (filter Q xs)" "y \<in> set (filter Q xs)" using assms(2-5) by simp_all
  then show ?thesis by (simp add: z)
qed

lemma filter_none: "length (filter Q xs) = 0 \<Longrightarrow> x \<in> set xs \<Longrightarrow> \<not> Q x"
  by (simp add: filter_empty_conv)

lemma unique_outputs_names:
  "unique_outputs P os root seen = Inr (root', seen') \<Longrightarrow>
     length seen' = length seen + length (filter (\<lambda>o1. IsScriptNewUniqueAsset P (scriptPubKey o1)) os) \<and>
     (root \<noteq> [] \<longrightarrow> root' = root) \<and>
     (\<forall>o1 \<in> set os. IsScriptNewUniqueAsset P (scriptPubKey o1) \<longrightarrow>
        (\<exists>a addr. AssetFromScript P (scriptPubKey o1) = Some (a, addr) \<and>
           (GetParentName (strName a) \<noteq> [] \<longrightarrow> root' = GetParentName (strName a))))"
proof (induction os arbitrary: root seen)
  case (Cons o1 os)
  show ?case
  proof (cases "IsScriptNewUniqueAsset P (scriptPubKey o1)")
    case True
    with Cons.prems show ?thesis
      by (auto simp: Let_def split: option.splits if_splits dest!: Cons.IH)
  qed (use Cons in auto)
qed simp

section \<open>Authority for what is created\<close>

text \<open>What an accepted transaction needs beside an output that creates the asset.\<close>

definition sends_owner :: "AssetParams \<Rightarrow> CTransaction \<Rightarrow> string \<Rightarrow> bool" where
  "sends_owner A tx name \<longleftrightarrow> list_ex (sends_asset (prefixes A) (name @ OWNER_TAG)) (vout tx)"

definition issue_authority ::
  "AssetParams \<Rightarrow> XAssignments \<Rightarrow> MempoolAssets \<Rightarrow> CTransaction \<Rightarrow> CNewAsset \<Rightarrow> AssetType \<Rightarrow> bool" where
  "issue_authority A X M tx a k =
     (case k of
        ROOT \<Rightarrow> (\<exists>xid. ParseXAccountAssignment tx = Some xid \<and> CheckIfXAccountAssigned X M xid \<in> {None, Some (strName a)}) \<and>
          \<not> list_ex (\<lambda>o1. CheckIssueBurnTx A o1 ROOT 1) (vout tx)
      | SUB \<Rightarrow> sends_owner A tx (GetParentName (strName a)) \<and> list_ex (\<lambda>o1. CheckIssueBurnTx A o1 SUB 1) (vout tx)
      | UNIQUE \<Rightarrow> sends_owner A tx (GetParentName (strName a)) \<and>
          list_ex (\<lambda>o1. CheckIssueBurnTx A o1 UNIQUE (int (issues (GetTxOutAssetTypes (vout tx))))) (vout tx)
      | MSGCHANNEL \<Rightarrow> (sends_owner A tx (GetParentName (strName a)) \<or> owners (GetTxOutAssetTypes (vout tx)) = 1) \<and>
          list_ex (\<lambda>o1. CheckIssueBurnTx A o1 MSGCHANNEL 1) (vout tx)
      | _ \<Rightarrow> False)"

lemma valid_kind:
  "IsAssetNameValid name = (True, k) \<Longrightarrow> \<exists>t. k = Some t"
  by (auto simp: IsAssetNameValid_def Let_def split: if_splits)

lemma new_asset_kind:
  assumes "CheckNewAsset a = None"
  obtains k where "IsAssetNameValid (strName a) = (True, Some k)" "k \<notin> {RESTRICTED, QUALIFIER, SUB_QUALIFIER}"
    "\<not> IsAssetNameAnOwner (strName a)"
  using assms unfolding CheckNewAsset_def
  by (auto split: prod.splits bool.splits option.splits if_splits)

lemma only_issue:
  assumes "issues (GetTxOutAssetTypes (vout tx)) = 1" "vout tx \<noteq> []" "IsNewAsset (last_script tx)"
    and "o1 \<in> set (vout tx)" "AssetFromScript P (scriptPubKey o1) = Some x"
  shows "AssetFromScript P (last_script tx) = Some x"
proof -
  obtain o2 where o2: "o2 \<in> set (vout tx)" "last_script tx = scriptPubKey o2" using last_script_in [OF assms(2)] by blast
  from filter_single [OF assms(1) [unfolded asset_type_counts] assms(4) AssetFromScript_new [OF assms(5)] o2(1)]
  have "o1 = o2" using assms(3) o2(2) by simp
  then show ?thesis using assms(5) o2(2) by simp
qed

lemma VerifyNewAsset_accepts:
  assumes "VerifyNewAsset A X M u tx = None"
  obtains a addr own where
    "IsNewAsset (last_script tx)" "AssetFromScript (prefixes A) (last_script tx) = Some (a, addr)"
    "OwnerAssetFromScript (prefixes A) (owner_script_of tx) = Some (strName a @ OWNER_TAG, own)"
    "issues (GetTxOutAssetTypes (vout tx)) = 1" "owners (GetTxOutAssetTypes (vout tx)) = 1"
    "reissues (GetTxOutAssetTypes (vout tx)) = 0"
    "name_type u (strName a) = ROOT \<Longrightarrow> issue_authority A X M tx a ROOT"
    "name_type u (strName a) \<noteq> ROOT \<Longrightarrow> list_ex (\<lambda>o1. CheckIssueBurnTx A o1 (name_type u (strName a)) 1) (vout tx)"
    "name_type u (strName a) = SUB \<Longrightarrow> sends_owner A tx (GetParentName (strName a))"
proof -
  from assms obtain a addr where a: "AssetFromScript (prefixes A) (last_script tx) = Some (a, addr)"
    by (auto simp: VerifyNewAsset_def split: if_splits option.splits)
  from assms obtain n own where o: "OwnerAssetFromScript (prefixes A) (owner_script_of tx) = Some (n, own)"
    by (auto simp: VerifyNewAsset_def Let_def split: if_splits option.splits)
  note v = assms [unfolded VerifyNewAsset_def a o Let_def option.case prod.case]
  show thesis
  proof (rule that [OF _ a])
    show "IsNewAsset (last_script tx)" using AssetFromScript_new [OF a] .
    show "OwnerAssetFromScript (prefixes A) (owner_script_of tx) = Some (strName a @ OWNER_TAG, own)"
      using v o by (simp split: if_splits)
    show "issues (GetTxOutAssetTypes (vout tx)) = 1" "owners (GetTxOutAssetTypes (vout tx)) = 1"
      "reissues (GetTxOutAssetTypes (vout tx)) = 0"
      using v by (auto split: if_splits option.splits)
    show "issue_authority A X M tx a ROOT" if "name_type u (strName a) = ROOT"
      using v that by (auto simp: issue_authority_def split: if_splits option.splits)
    show "list_ex (\<lambda>o1. CheckIssueBurnTx A o1 (name_type u (strName a)) 1) (vout tx)" if "name_type u (strName a) \<noteq> ROOT"
      using v that by (auto split: if_splits option.splits)
    show "sends_owner A tx (GetParentName (strName a))" if "name_type u (strName a) = SUB"
      using v that by (auto simp: sends_owner_def split: if_splits option.splits)
  qed
qed

lemma no_burn_kinds: "list_ex (\<lambda>o1. CheckIssueBurnTx A o1 k n) os \<Longrightarrow> k \<notin> {REISSUE, VOTE, OWNER, INVALID}"
  by (auto simp: list_ex_iff CheckIssueBurnTx_def)

lemma before_last_nonempty: "fst (split_at d name) \<noteq> [] \<Longrightarrow> before_last d name \<noteq> []"
proof (cases name)
  case (Cons c cs)
  assume "fst (split_at d name) \<noteq> []"
  then have "c \<noteq> d" by (auto simp: Cons split: prod.splits)
  show ?thesis
  proof (cases "d \<in> set cs")
    case True
    then obtain zs where "dropWhile (\<lambda>c. c \<noteq> d) (rev cs) = d # zs"
      by (metis (mono_tags, lifting) dropWhile_eq_Cons_conv dropWhile_eq_Nil_conv list.exhaust set_rev)
    then have "dropWhile (\<lambda>c. c \<noteq> d) (rev name) = d # zs @ [c]"
      using True by (simp add: Cons dropWhile_append1 [of d])
    then show ?thesis using True by (simp add: before_last_def Cons)
  qed (use \<open>c \<noteq> d\<close> in \<open>simp add: before_last_def Cons\<close>)
qed (simp add: before_last_def)

lemma unique_parent:
  assumes "IsAssetNameValid name = (True, Some UNIQUE)"
  shows "GetParentName name \<noteq> []"
proof -
  have "IsTypeCheckNameValid UNIQUE name"
    using assms by (auto simp: IsAssetNameValid_def Let_def split: if_splits)
  then have "IsNameValidBeforeTag (fst (split_at (CHR ''#'') name))" by (simp add: IsTypeCheckNameValid_def)
  then have "fst (split_at (CHR ''#'') name) \<noteq> []"
    by (auto simp: IsNameValidBeforeTag_def IsRootNameValid_def ROOT_NAME_CHARACTERS_def at_least_def numeral_3_eq_3)
  then show ?thesis using assms before_last_nonempty by (simp add: GetParentName_def)
qed

lemma new_asset_authority:
  assumes "VerifyNewAsset A X M u tx = None" "AssetFromScript (prefixes A) (last_script tx) = Some (a, addr)"
    and "CheckNewAsset a = None" "\<not> IsScriptNewUniqueAsset (prefixes A) (last_script tx)"
  shows "\<exists>k. IsAssetNameValid (strName a) = (True, Some k) \<and> issue_authority A X M tx a k"
proof -
  obtain k where k: "IsAssetNameValid (strName a) = (True, Some k)" "k \<notin> {RESTRICTED, QUALIFIER, SUB_QUALIFIER}"
    using new_asset_kind [OF assms(3)] by metis
  then have n: "name_type u (strName a) = k" by (simp add: name_type_def)
  have "k \<noteq> UNIQUE" using assms(2,4) k(1) by (auto simp: IsScriptNewUniqueAsset_def created_kind_def)
  from VerifyNewAsset_accepts [OF assms(1)] assms(2) n
  have v: "k = ROOT \<Longrightarrow> issue_authority A X M tx a ROOT" "owners (GetTxOutAssetTypes (vout tx)) = 1"
    "k \<noteq> ROOT \<Longrightarrow> list_ex (\<lambda>o1. CheckIssueBurnTx A o1 k 1) (vout tx)"
    "k = SUB \<Longrightarrow> sends_owner A tx (GetParentName (strName a))" by (metis option.inject prod.inject)+
  moreover have "k \<noteq> ROOT \<Longrightarrow> k \<notin> {REISSUE, VOTE, OWNER, INVALID, NULL_ADD_QUALIFIER}"
    using no_burn_kinds [OF v(3)] k(1) by (auto simp: IsAssetNameValid_def Let_def split: if_splits)
  ultimately have "issue_authority A X M tx a k"
    using k(2) \<open>k \<noteq> UNIQUE\<close> by (cases k) (simp_all add: issue_authority_def)
  with k(1) show ?thesis by blast
qed

lemma unique_issues:
  assumes "VerifyNewUniqueAsset A tx = None" "o1 \<in> set (vout tx)" "IsNewAsset (scriptPubKey o1)"
  shows "IsScriptNewUniqueAsset (prefixes A) (scriptPubKey o1)"
proof -
  let ?U = "\<lambda>o1. IsScriptNewUniqueAsset (prefixes A) (scriptPubKey o1)"
  from assms(1) obtain root ns where u: "unique_outputs (prefixes A) (vout tx) [] [] = Inr (root, ns)"
    by (auto simp: VerifyNewUniqueAsset_def split: if_splits sum.splits)
  have "issues (GetTxOutAssetTypes (vout tx)) = length ns"
    using assms(1) by (auto simp: VerifyNewUniqueAsset_def u Let_def split: if_splits)
  then have "length (filter (\<lambda>o1. IsNewAsset (scriptPubKey o1)) (vout tx)) = length (filter ?U (vout tx))"
    using unique_outputs_names [OF u] by (simp add: asset_type_counts)
  moreover have "filter ?U (filter (\<lambda>o1. IsNewAsset (scriptPubKey o1)) (vout tx)) = filter ?U (vout tx)"
    by (auto simp: IsScriptNewUniqueAsset_def intro!: filter_cong dest: created_kind_new)
  ultimately have "\<forall>o1 \<in> set (filter (\<lambda>o1. IsNewAsset (scriptPubKey o1)) (vout tx)). ?U o1"
    by (metis (no_types, lifting) filter_True filter_id_conv length_filter_less order_less_irrefl)
  then show ?thesis using assms(2,3) by simp
qed

lemma unique_authority:
  assumes "VerifyNewUniqueAsset A tx = None" "o1 \<in> set (vout tx)"
    and "AssetFromScript (prefixes A) (scriptPubKey o1) = Some (a, addr)"
  shows "IsScriptNewUniqueAsset (prefixes A) (scriptPubKey o1)" "issue_authority A X M tx a UNIQUE"
proof -
  let ?U = "\<lambda>o1. IsScriptNewUniqueAsset (prefixes A) (scriptPubKey o1)"
  from assms(1) obtain root ns where u: "unique_outputs (prefixes A) (vout tx) [] [] = Inr (root, ns)"
    by (auto simp: VerifyNewUniqueAsset_def split: if_splits sum.splits)
  note v = assms(1) [unfolded VerifyNewUniqueAsset_def u Let_def sum.case prod.case]
  note names = unique_outputs_names [OF u]
  have n: "issues (GetTxOutAssetTypes (vout tx)) = length ns" using v by (auto split: if_splits)
  show U: "?U o1" by (rule unique_issues [OF assms(1,2) AssetFromScript_new [OF assms(3)]])
  then have "GetParentName (strName a) \<noteq> []"
    using assms(3) unique_parent by (auto simp: IsScriptNewUniqueAsset_def created_kind_def split: prod.splits bool.splits)
  then have "root = GetParentName (strName a)" using names assms(2,3) U by auto
  then show "issue_authority A X M tx a UNIQUE"
    using v n by (auto simp: issue_authority_def sends_owner_def split: if_splits)
qed

lemma authority_new:
  assumes "Tx_IsNewAsset (prefixes A) tx" "check_creation A X M u tx = Inr c" "vout tx \<noteq> []"
    and o1: "o1 \<in> set (vout tx)" "AssetFromScript (prefixes A) (scriptPubKey o1) = Some (a, addr)"
  shows "CheckNewAsset a = None \<and> (\<exists>k. IsAssetNameValid (strName a) = (True, Some k) \<and> issue_authority A X M tx a k)"
proof -
  let ?P = "prefixes A"
  from assms(1,2) obtain a' addr' where v: "VerifyNewAsset A X M u tx = None"
      "AssetFromScript ?P (last_script tx) = Some (a', addr')" "CheckNewAsset a' = None"
    by (auto simp: check_creation_def Let_def AssetFromTransaction_def split: option.splits)
  have "AssetFromScript ?P (last_script tx) = Some (a, addr)"
    using VerifyNewAsset_accepts [OF v(1)] only_issue [OF _ assms(3) _ o1] by metis
  moreover have "\<not> IsScriptNewUniqueAsset ?P (last_script tx)"
    using assms(1) by (auto simp: Tx_IsNewAsset_def last_script_def Let_def)
  ultimately show ?thesis using new_asset_authority [OF v(1)] v by auto
qed

lemma authority_unique:
  assumes "\<not> Tx_IsNewAsset (prefixes A) tx" "\<not> Tx_IsReissueAsset tx" "IsNewUniqueAsset (prefixes A) tx"
    and "check_creation A X M u tx = Inr c"
    and o1: "o1 \<in> set (vout tx)" "AssetFromScript (prefixes A) (scriptPubKey o1) = Some (a, addr)"
  shows "CheckNewAsset a = None \<and> (\<exists>k. IsAssetNameValid (strName a) = (True, Some k) \<and> issue_authority A X M tx a k)"
proof -
  have v: "VerifyNewUniqueAsset A tx = None"
    using assms(1-4) by (auto simp: check_creation_def Let_def split: option.splits)
  note u = unique_authority [OF v o1]
  have "CheckNewAsset a = None"
    using assms(1-4) v u(1) o1 by (auto simp: check_creation_def Let_def first_error_None split: option.splits if_splits)
  then show ?thesis using u(2) u(1) o1(2)
    by (auto simp: IsScriptNewUniqueAsset_def created_kind_def split: prod.splits bool.splits)
qed

lemma authority_channel:
  assumes "\<not> Tx_IsNewAsset (prefixes A) tx" "\<not> Tx_IsReissueAsset tx" "\<not> IsNewUniqueAsset (prefixes A) tx"
    and ch: "IsNewMsgChannelAsset (prefixes A) tx" and "check_creation A X M u tx = Inr c" "vout tx \<noteq> []"
    and o1: "o1 \<in> set (vout tx)" "AssetFromScript (prefixes A) (scriptPubKey o1) = Some (a, addr)"
  shows "CheckNewAsset a = None \<and> (\<exists>k. IsAssetNameValid (strName a) = (True, Some k) \<and> issue_authority A X M tx a k)"
proof -
  let ?P = "prefixes A"
  from assms(1-5) obtain a' addr' where v: "VerifyNewMsgChannelAsset A tx = None"
      "IsScriptNewMsgChannelAsset ?P (last_script tx)"
      "AssetFromScript ?P (last_script tx) = Some (a', addr')" "CheckNewAsset a' = None"
    by (auto simp: check_creation_def Let_def MsgChannelAssetFromTransaction_def MsgChannelAssetFromScript_def
        IsNewMsgChannelAsset_def split: option.splits if_splits)
  have i: "issues (GetTxOutAssetTypes (vout tx)) = 1" "sends_owner A tx (GetParentName (strName a'))"
      "list_ex (\<lambda>o1. CheckIssueBurnTx A o1 MSGCHANNEL 1) (vout tx)"
    using v(1-3) by (auto simp: VerifyNewMsgChannelAsset_def MsgChannelAssetFromScript_def sends_owner_def Let_def split: if_splits)
  have "a' = a" using only_issue [OF i(1) assms(6) _ o1] ch v(3) by (simp add: IsNewMsgChannelAsset_def)
  then show ?thesis using v i
    by (auto simp: IsScriptNewMsgChannelAsset_def created_kind_def issue_authority_def split: prod.splits bool.splits)
qed

lemma created_kind_valid:
  "AssetFromScript P s = Some (a, addr) \<Longrightarrow> created_kind P s = Some k \<Longrightarrow> IsAssetNameValid (strName a) = (True, Some k)"
  by (auto simp: created_kind_def split: prod.splits bool.splits)

lemma removed_kinds:
  assumes "\<not> Tx_IsNewAsset (prefixes A) tx" "\<not> Tx_IsReissueAsset tx" "\<not> IsNewUniqueAsset (prefixes A) tx"
    and "\<not> IsNewMsgChannelAsset (prefixes A) tx" and c: "check_creation A X M u tx = Inr c"
  shows "\<not> IsNewQualifierAsset (prefixes A) tx \<and> \<not> IsNewRestrictedAsset (prefixes A) tx"
proof -
  let ?P = "prefixes A"
  note cc = c [unfolded check_creation_def Let_def if_not_P [OF assms(1)] if_not_P [OF assms(2)] if_not_P [OF assms(3)] if_not_P [OF assms(4)]]
  have q: "\<not> IsNewQualifierAsset ?P tx"
  proof
    assume "IsNewQualifierAsset ?P tx"
    with cc obtain x where "QualifierAssetFromTransaction ?P tx = Some x" "CheckNewAsset (fst x) = None"
      by (auto split: option.splits)
    moreover obtain a addr where "x = (a, addr)" by (cases x)
    ultimately have "CheckNewAsset a = None" "AssetFromScript ?P (last_script tx) = Some (a, addr)"
        "IsScriptNewQualifierAsset ?P (last_script tx)"
      by (auto simp: QualifierAssetFromTransaction_def QualifierAssetFromScript_def split: if_splits)
    then show False using created_kind_valid by (auto simp: IsScriptNewQualifierAsset_def elim: new_asset_kind)
  qed
  moreover have "\<not> IsNewRestrictedAsset ?P tx"
  proof
    assume "IsNewRestrictedAsset ?P tx"
    with cc q obtain x where "RestrictedAssetFromTransaction ?P tx = Some x" "CheckNewAsset (fst x) = None"
      by (auto split: option.splits)
    moreover obtain a addr where "x = (a, addr)" by (cases x)
    ultimately have "CheckNewAsset a = None" "AssetFromScript ?P (last_script tx) = Some (a, addr)"
        "IsScriptNewRestrictedAsset ?P (last_script tx)"
      by (auto simp: RestrictedAssetFromTransaction_def RestrictedAssetFromScript_def split: if_splits)
    then show False using created_kind_valid by (auto simp: IsScriptNewRestrictedAsset_def elim: new_asset_kind)
  qed
  ultimately show ?thesis by blast
qed

lemma nothing_else_issued:
  assumes "\<not> Tx_IsNewAsset (prefixes A) tx" "Tx_IsReissueAsset tx \<or> \<not> IsNewUniqueAsset (prefixes A) tx \<and> \<not> IsNewMsgChannelAsset (prefixes A) tx"
    and c: "check_creation A X M u tx = Inr c" and o1: "o1 \<in> set (vout tx)" "AssetFromScript (prefixes A) (scriptPubKey o1) = Some x"
  shows False
proof (cases "Tx_IsReissueAsset tx")
  case True
  then have "VerifyReissueAsset A tx = None" using assms(1) c by (auto simp: check_creation_def Let_def split: option.splits)
  then have "issues (GetTxOutAssetTypes (vout tx)) = 0"
    by (auto simp: VerifyReissueAsset_def Let_def split: if_splits option.splits)
  then show ?thesis using filter_none [OF _ o1(1)] AssetFromScript_new [OF o1(2)] by (auto simp: asset_type_counts)
next
  case False
  then have "plain_output_error o1 = None"
    using removed_kinds [OF assms(1) False _ _ c] assms(1,2) c o1(1)
    by (simp add: check_creation_def Let_def first_error_None split: option.splits)
  then show ?thesis using AssetFromScript_new [OF o1(2)] by (auto simp: plain_output_error_def IsNewAsset_iff split: if_splits)
qed

lemma creation_authority:
  assumes "check_creation A X M u tx = Inr c" "vout tx \<noteq> []"
    and "o1 \<in> set (vout tx)" "AssetFromScript (prefixes A) (scriptPubKey o1) = Some (a, addr)"
  shows "CheckNewAsset a = None \<and> (\<exists>k. IsAssetNameValid (strName a) = (True, Some k) \<and> issue_authority A X M tx a k)"
  using authority_new [OF _ assms] authority_unique [OF _ _ _ assms(1,3,4)] authority_channel [OF _ _ _ _ assms]
    nothing_else_issued [OF _ _ assms(1,3,4)] by blast

text \<open>
  C37. Nothing is issued without authority. Whatever asset an accepted transaction issues has valid
  data, and a root comes with an X account that is free or already has this very root and with no
  burn; a sub asset and a unique asset come with a transfer of their parent's owner token and the burn
  for their kind and number; a message channel comes with its burn and either its parent's owner token
  or an owner token of its own; no other kind of asset can be issued.
\<close>

theorem issue_needs_authority:
  assumes "CheckTransaction A X M u fD fM fB tx = None" "o1 \<in> set (vout tx)"
    and "AssetFromScript (prefixes A) (scriptPubKey o1) = Some (a, addr)"
  shows "CheckNewAsset a = None \<and> (\<exists>k. IsAssetNameValid (strName a) = (True, Some k) \<and> issue_authority A X M tx a k)"
  using assms creation_authority by (auto simp: CheckTransaction_accepts)

section \<open>Values and amounts\<close>

text \<open>What the loop over the outputs asks of an output.\<close>

definition output_checked :: "base58_prefixes \<Rightarrow> bool \<Rightarrow> bool \<Rightarrow> CTxOut \<Rightarrow> bool" where
  "output_checked P fM fB o1 \<longleftrightarrow> MoneyRange (nValue o1) \<and>
     (case IsAssetScript (scriptPubKey o1) of
        None \<Rightarrow> True
      | Some (TX_NEW_ASSET, own, i) \<Rightarrow> nValue o1 = 0
      | Some (TX_REISSUE_ASSET, own, i) \<Rightarrow> fM \<or> fB \<longrightarrow> nValue o1 = 0
      | Some (TX_TRANSFER_ASSET, own, i) \<Rightarrow> nValue o1 = 0 \<and>
          (\<exists>t addr k. TransferAssetFromScript P (scriptPubKey o1) = Some (t, addr) \<and>
             IsAssetNameValid (t_strName t) = (True, Some k) \<and>
             (IsAssetNameAnOwner (t_strName t) \<or> k = UNIQUE \<longrightarrow> t_nAmount t = COIN) \<and>
             (k \<in> {QUALIFIER, SUB_QUALIFIER} \<longrightarrow>
                QUALIFIER_ASSET_MIN_AMOUNT \<le> t_nAmount t \<and> t_nAmount t \<le> QUALIFIER_ASSET_MAX_AMOUNT)))"

text \<open>The form of an output that creates: it can be read, what it reads is valid, and an owner token belongs to an issue.\<close>

definition created_ok :: "AssetParams \<Rightarrow> CTransaction \<Rightarrow> CTxOut \<Rightarrow> bool" where
  "created_ok A tx o1 \<longleftrightarrow>
     (case IsAssetScript (scriptPubKey o1) of
        Some (TX_NEW_ASSET, False, i) \<Rightarrow>
          \<exists>a addr. AssetFromScript (prefixes A) (scriptPubKey o1) = Some (a, addr) \<and> CheckNewAsset a = None
      | Some (TX_NEW_ASSET, True, i) \<Rightarrow>
          \<exists>o2 \<in> set (vout tx). \<exists>a addr own. AssetFromScript (prefixes A) (scriptPubKey o2) = Some (a, addr) \<and>
             OwnerAssetFromScript (prefixes A) (scriptPubKey o1) = Some (strName a @ OWNER_TAG, own)
      | Some (TX_REISSUE_ASSET, own, i) \<Rightarrow>
          \<exists>r addr. ReissueAssetFromScript (prefixes A) (scriptPubKey o1) = Some (r, addr) \<and> CheckReissueAsset A r = None
      | _ \<Rightarrow> True)"

lemma check_null_asset_value: "check_null_asset A st o1 = Inr st' \<Longrightarrow> nValueOut st' = nValueOut st"
  by (auto simp: check_null_asset_def Let_def split: if_splits option.splits)

lemma check_asset_output_ok:
  assumes "check_asset_output A fM fB st o1 = Inr st'" "MoneyRange (nValue o1)"
  shows "nValueOut st' = nValueOut st \<and> output_checked (prefixes A) fM fB o1"
proof (cases "IsAssetScript (scriptPubKey o1)")
  case (Some k)
  obtain t own i where k: "k = (t, own, i)" by (cases k)
  then show ?thesis
    using assms Some by (cases t)
      (auto simp: check_asset_output_def output_checked_def split: if_splits option.splits prod.splits bool.splits)
qed (use assms in \<open>simp add: check_asset_output_def output_checked_def\<close>)

lemma check_output_ok:
  assumes "check_output A fM fB st o1 = Inr st'"
  shows "output_checked (prefixes A) fM fB o1 \<and> nValueOut st' = nValueOut st + nValue o1 \<and> MoneyRange (nValueOut st')"
proof -
  from assms obtain st1 where v: "MoneyRange (nValue o1)" "MoneyRange (nValueOut st + nValue o1)"
      "check_null_asset A (st\<lparr>nValueOut := nValueOut st + nValue o1\<rparr>) o1 = Inr st1"
      "check_asset_output A fM fB st1 o1 = Inr st'"
    by (auto simp: check_output_def MoneyRange_def split: if_splits sum.splits)
  then show ?thesis using check_null_asset_value [OF v(3)] check_asset_output_ok [OF v(4,1)] by simp
qed

lemma check_outputs_ok:
  "check_outputs A fM fB os st = Inr st' \<Longrightarrow> MoneyRange (nValueOut st) \<Longrightarrow>
     (\<forall>o1 \<in> set os. output_checked (prefixes A) fM fB o1) \<and> MoneyRange (nValueOut st') \<and>
     nValueOut st' = nValueOut st + (\<Sum>o1 \<leftarrow> os. nValue o1) \<and>
     GetValueOut_loop True os (nValueOut st) = Some (nValueOut st')"
proof (induction os arbitrary: st)
  case (Cons o1 os)
  then obtain st1 where c: "check_output A fM fB st o1 = Inr st1" "check_outputs A fM fB os st1 = Inr st'"
    by (auto split: sum.splits)
  note s = check_output_ok [OF c(1)]
  have "MoneyRange (nValue o1)" using s by (simp add: output_checked_def)
  with s Cons.IH [OF c(2)] show ?case by auto
qed simp

text \<open>Every output that creates is of the kind the transaction is, and is the one that was read.\<close>

lemma created_okI:
  assumes "IsNewAsset (scriptPubKey o1) \<Longrightarrow>
      \<exists>a addr. AssetFromScript (prefixes A) (scriptPubKey o1) = Some (a, addr) \<and> CheckNewAsset a = None"
    and "IsOwnerAsset (scriptPubKey o1) \<Longrightarrow>
      \<exists>o2 \<in> set (vout tx). \<exists>a addr own. AssetFromScript (prefixes A) (scriptPubKey o2) = Some (a, addr) \<and>
        OwnerAssetFromScript (prefixes A) (scriptPubKey o1) = Some (strName a @ OWNER_TAG, own)"
    and "IsReissueAsset (scriptPubKey o1) \<Longrightarrow>
      \<exists>r addr. ReissueAssetFromScript (prefixes A) (scriptPubKey o1) = Some (r, addr) \<and> CheckReissueAsset A r = None"
  shows "created_ok A tx o1"
proof (cases "IsAssetScript (scriptPubKey o1)")
  case (Some x)
  obtain t own i where "x = (t, own, i)" by (cases x)
  with Some assms show ?thesis
    unfolding IsNewAsset_iff IsOwnerAsset_iff IsReissueAsset_iff created_ok_def by (cases t; cases own) auto
qed (simp add: created_ok_def)

lemma new_tx_forms:
  assumes "Tx_IsNewAsset (prefixes A) tx" "check_creation A X M u tx = Inr c" "o1 \<in> set (vout tx)"
  shows "created_ok A tx o1"
proof -
  let ?P = "prefixes A" and ?last = "vout tx ! (length (vout tx) - 1)" and ?owner = "vout tx ! (length (vout tx) - 2)"
  obtain a addr where v: "VerifyNewAsset A X M u tx = None" "AssetFromScript ?P (last_script tx) = Some (a, addr)" "CheckNewAsset a = None"
    using assms(1,2) by (auto simp: check_creation_def Let_def AssetFromTransaction_def split: option.splits)
  obtain own where w: "OwnerAssetFromScript ?P (owner_script_of tx) = Some (strName a @ OWNER_TAG, own)"
      "issues (GetTxOutAssetTypes (vout tx)) = 1" "owners (GetTxOutAssetTypes (vout tx)) = 1" "reissues (GetTxOutAssetTypes (vout tx)) = 0"
    using VerifyNewAsset_accepts [OF v(1)] v(2) by (metis option.inject prod.inject)
  have "3 \<le> length (vout tx)" and k: "IsNewAsset (scriptPubKey ?last)" "IsOwnerAsset (scriptPubKey ?owner)"
    using assms(1) by (simp_all add: Tx_IsNewAsset_def CheckIssueDataTx_def CheckOwnerDataTx_def)
  then have m: "?last \<in> set (vout tx)" "?owner \<in> set (vout tx)" by (auto intro!: nth_mem)
  note w = w(1) w(2-4) [unfolded asset_type_counts]
  show ?thesis
  proof (rule created_okI)
    assume "IsNewAsset (scriptPubKey o1)"
    with filter_single [OF w(2) assms(3) _ m(1) k(1)] have "o1 = ?last" .
    then show "\<exists>a addr. AssetFromScript ?P (scriptPubKey o1) = Some (a, addr) \<and> CheckNewAsset a = None"
      using v(2,3) by (simp add: last_script_def)
  next
    assume "IsOwnerAsset (scriptPubKey o1)"
    with filter_single [OF w(3) assms(3) _ m(2) k(2)] have "o1 = ?owner" .
    then show "\<exists>o2 \<in> set (vout tx). \<exists>a addr own. AssetFromScript ?P (scriptPubKey o2) = Some (a, addr) \<and>
        OwnerAssetFromScript ?P (scriptPubKey o1) = Some (strName a @ OWNER_TAG, own)"
      using v(2) w(1) m(1) unfolding last_script_def owner_script_of_def by blast
  qed (use filter_none [OF w(4) assms(3)] in blast)
qed

text \<open>A transaction with one output that creates, the last one.\<close>

lemma reissue_tx_forms:
  assumes "o1 \<in> set (vout tx)" "vout tx \<noteq> []" "owners (GetTxOutAssetTypes (vout tx)) = 0"
    and "issues (GetTxOutAssetTypes (vout tx)) = 0" "reissues (GetTxOutAssetTypes (vout tx)) = 1" "IsReissueAsset (last_script tx)"
    and "ReissueAssetFromScript (prefixes A) (last_script tx) = Some (r, addr)" "CheckReissueAsset A r = None"
  shows "created_ok A tx o1"
proof -
  obtain o2 where o2: "o2 \<in> set (vout tx)" "last_script tx = scriptPubKey o2" using last_script_in [OF assms(2)] by blast
  note n = assms(3-5) [unfolded asset_type_counts]
  show ?thesis
  proof (rule created_okI)
    assume "IsReissueAsset (scriptPubKey o1)"
    with filter_single [OF n(3) assms(1) _ o2(1)] assms(6) o2(2) have "o1 = o2" by simp
    with assms(7,8) o2(2) show "\<exists>r addr. ReissueAssetFromScript (prefixes A) (scriptPubKey o1) = Some (r, addr) \<and> CheckReissueAsset A r = None"
      by simp
  qed (use filter_none [OF n(1) assms(1)] filter_none [OF n(2) assms(1)] in blast)+
qed

lemma channel_tx_forms:
  assumes "o1 \<in> set (vout tx)" "vout tx \<noteq> []" "owners (GetTxOutAssetTypes (vout tx)) = 0"
    and "reissues (GetTxOutAssetTypes (vout tx)) = 0" "issues (GetTxOutAssetTypes (vout tx)) = 1"
    and "AssetFromScript (prefixes A) (last_script tx) = Some (a, addr)" "CheckNewAsset a = None"
  shows "created_ok A tx o1"
proof -
  obtain o2 where o2: "o2 \<in> set (vout tx)" "last_script tx = scriptPubKey o2" using last_script_in [OF assms(2)] by blast
  note n = assms(3-5) [unfolded asset_type_counts]
  show ?thesis
  proof (rule created_okI)
    assume "IsNewAsset (scriptPubKey o1)"
    with filter_single [OF n(3) assms(1) _ o2(1)] AssetFromScript_new [OF assms(6)] o2(2) have "o1 = o2" by simp
    with assms(6,7) o2(2) show "\<exists>a addr. AssetFromScript (prefixes A) (scriptPubKey o1) = Some (a, addr) \<and> CheckNewAsset a = None"
      by simp
  qed (use filter_none [OF n(1) assms(1)] filter_none [OF n(2) assms(1)] in blast)+
qed

lemma unique_tx_forms:
  assumes "\<not> Tx_IsNewAsset (prefixes A) tx" "\<not> Tx_IsReissueAsset tx" "IsNewUniqueAsset (prefixes A) tx"
    and "check_creation A X M u tx = Inr c" "o1 \<in> set (vout tx)"
  shows "created_ok A tx o1"
proof -
  let ?P = "prefixes A"
  have v: "VerifyNewUniqueAsset A tx = None" using assms(1-4) by (auto simp: check_creation_def Let_def split: option.splits)
  then have w: "owners (GetTxOutAssetTypes (vout tx)) = 0" "reissues (GetTxOutAssetTypes (vout tx)) = 0"
    by (auto simp: VerifyNewUniqueAsset_def Let_def split: if_splits sum.splits)
  show ?thesis
  proof (rule created_okI)
    assume "IsNewAsset (scriptPubKey o1)"
    from unique_issues [OF v assms(5) this] obtain x where x: "AssetFromScript ?P (scriptPubKey o1) = Some x"
      by (auto simp: IsScriptNewUniqueAsset_def created_kind_def split: option.splits)
    obtain a addr where "x = (a, addr)" by (cases x)
    with x authority_unique [OF assms(1-5)]
    show "\<exists>a addr. AssetFromScript ?P (scriptPubKey o1) = Some (a, addr) \<and> CheckNewAsset a = None" by blast
  qed (use filter_none [OF w(1) [unfolded asset_type_counts] assms(5)] filter_none [OF w(2) [unfolded asset_type_counts] assms(5)] in blast)+
qed

lemma creation_forms:
  assumes "check_creation A X M u tx = Inr c" "vout tx \<noteq> []" "o1 \<in> set (vout tx)"
  shows "created_ok A tx o1"
proof -
  let ?P = "prefixes A" and ?n = "GetTxOutAssetTypes (vout tx)"
  consider "Tx_IsNewAsset ?P tx" | (re) "\<not> Tx_IsNewAsset ?P tx" "Tx_IsReissueAsset tx"
    | "\<not> Tx_IsNewAsset ?P tx" "\<not> Tx_IsReissueAsset tx" "IsNewUniqueAsset ?P tx"
    | (channel) "\<not> Tx_IsNewAsset ?P tx" "\<not> Tx_IsReissueAsset tx" "\<not> IsNewUniqueAsset ?P tx" "IsNewMsgChannelAsset ?P tx"
    | (plain) "\<not> Tx_IsNewAsset ?P tx" "\<not> Tx_IsReissueAsset tx" "\<not> IsNewUniqueAsset ?P tx" "\<not> IsNewMsgChannelAsset ?P tx" by blast
  then show ?thesis
  proof cases
    case re
    then obtain r addr where v: "VerifyReissueAsset A tx = None" "ReissueAssetFromScript ?P (last_script tx) = Some (r, addr)"
        "CheckReissueAsset A r = None"
      using assms(1) by (auto simp: check_creation_def Let_def ReissueAssetFromTransaction_def split: option.splits)
    then have "owners ?n = 0" "issues ?n = 0" "reissues ?n = 1" by (auto simp: VerifyReissueAsset_def Let_def split: if_splits)
    from reissue_tx_forms [OF assms(3,2) this _ v(2,3)] re(2) show ?thesis by (simp add: Tx_IsReissueAsset_def)
  next
    case channel
    then obtain a addr where v: "VerifyNewMsgChannelAsset A tx = None" "MsgChannelAssetFromTransaction ?P tx = Some (a, addr)"
        "CheckNewAsset a = None" using assms(1) by (auto simp: check_creation_def Let_def split: option.splits)
    then have "AssetFromScript ?P (last_script tx) = Some (a, addr)"
      by (auto simp: MsgChannelAssetFromTransaction_def MsgChannelAssetFromScript_def split: if_splits)
    moreover have "owners ?n = 0" "reissues ?n = 0" "issues ?n = 1"
      using v(1) by (auto simp: VerifyNewMsgChannelAsset_def Let_def split: if_splits option.splits)
    ultimately show ?thesis using channel_tx_forms [OF assms(3,2)] v(3) by blast
  next
    case plain
    have "plain_output_error o1 = None"
      using removed_kinds [OF plain assms(1)] plain assms(1,3)
      by (simp add: check_creation_def Let_def first_error_None split: option.splits)
    then show ?thesis
      by (auto simp: plain_output_error_def created_ok_def split: option.splits asset_tx.splits bool.splits if_splits)
  qed (use assms new_tx_forms unique_tx_forms in blast)+
qed

text \<open>
  C38. The outputs of an accepted transaction add up and are well formed. Every output and their sum are within the
  money range, so that reading the total later raises no exception. An output that issues an asset or its owner token
  or transfers one carries no coins, and neither does a reissue where a block or the mempool is checked; the check
  without the two flags (blocks read from disk, the wallet's file, the mempool's own cleaning) does not look at the coins
  of a reissue. Issues and reissues can be read and their data pass \<^verbatim>\<open>CheckNewAsset\<close> and \<^verbatim>\<open>CheckReissueAsset\<close>; an owner
  token carries the name of an asset the transaction issues; a transferred asset has a valid name, owner tokens and
  unique assets move in amounts of exactly one, and qualifiers within their limits.
\<close>

theorem accepted_outputs:
  assumes "CheckTransaction A X M u fD fM fB tx = None"
  shows "GetValueOut True tx = Some (\<Sum>o1 \<leftarrow> vout tx. nValue o1) \<and> MoneyRange (\<Sum>o1 \<leftarrow> vout tx. nValue o1) \<and>
    (\<forall>o1 \<in> set (vout tx). output_checked (prefixes A) fM fB o1 \<and> created_ok A tx o1)"
proof -
  obtain st c where c: "check_outputs A fM fB (vout tx) check_start = Inr st" "check_creation A X M u tx = Inr c" "vout tx \<noteq> []"
    using assms by (auto simp: CheckTransaction_accepts)
  from check_outputs_ok [OF c(1)] creation_forms [OF c(2,3)] show ?thesis
    by (simp add: check_start_def GetValueOut_def MoneyRange_def)
qed

section \<open>Uninitialised kinds\<close>

lemma name_type_known: "snd (IsAssetNameValid name) \<noteq> None \<Longrightarrow> name_type u name = name_type u' name"
  by (auto simp: name_type_def)

lemma unknown_kind: "snd (IsAssetNameValid name) = None \<longleftrightarrow> 48 < length name"
  by (auto simp: IsAssetNameValid_def Let_def)

lemma reissued_name_known:
  assumes "VerifyReissueAsset A tx = None" "ReissueAssetFromScript (prefixes A) (last_script tx) = Some (r, addr)"
    and "\<forall>o1 \<in> set (vout tx). output_checked (prefixes A) fM fB o1"
  shows "snd (IsAssetNameValid (r_strName r)) \<noteq> None"
proof
  assume long: "snd (IsAssetNameValid (r_strName r)) = None"
  then have "name_type INVALID (r_strName r) \<noteq> RESTRICTED" by (simp add: name_type_def)
  then obtain o1 t addr' where t: "o1 \<in> set (vout tx)" "TransferAssetFromScript (prefixes A) (scriptPubKey o1) = Some (t, addr')"
      "t_strName t = r_strName r @ OWNER_TAG"
    using assms(1,2) by (auto simp: VerifyReissueAsset_def Let_def list_ex_iff sends_asset_def split: if_splits option.splits)
  then obtain own i where "IsAssetScript (scriptPubKey o1) = Some (TX_TRANSFER_ASSET, own, i)"
    by (auto simp: TransferAssetFromScript_def split: option.splits asset_tx.splits)
  with t assms(3) have "snd (IsAssetNameValid (t_strName t)) \<noteq> None" by (auto simp: output_checked_def dest!: bspec)
  then show False using long t(3) by (simp add: unknown_kind)
qed

lemma check_creation_type_free:
  assumes "check_creation A X M u tx = Inr c" "\<forall>o1 \<in> set (vout tx). output_checked (prefixes A) fM fB o1"
  shows "check_creation A X M u' tx = Inr c"
proof -
  let ?P = "prefixes A"
  consider (new) "Tx_IsNewAsset ?P tx" | (re) "\<not> Tx_IsNewAsset ?P tx" "Tx_IsReissueAsset tx"
    | (other) "\<not> Tx_IsNewAsset ?P tx" "\<not> Tx_IsReissueAsset tx" by blast
  then show ?thesis
  proof cases
    case new
    with assms(1) obtain a addr where v: "VerifyNewAsset A X M u tx = None" "AssetFromScript ?P (last_script tx) = Some (a, addr)"
      "CheckNewAsset a = None" by (auto simp: check_creation_def Let_def AssetFromTransaction_def split: option.splits)
    then have "name_type u (strName a) = name_type u' (strName a)"
      by (intro name_type_known) (auto elim: new_asset_kind)
    then have "VerifyNewAsset A X M u' tx = VerifyNewAsset A X M u tx" by (simp add: VerifyNewAsset_def v(2))
    with new assms(1) show ?thesis by (simp add: check_creation_def)
  next
    case re
    with assms(1) obtain r addr where v: "VerifyReissueAsset A tx = None" "ReissueAssetFromScript ?P (last_script tx) = Some (r, addr)"
      by (auto simp: check_creation_def Let_def ReissueAssetFromTransaction_def split: option.splits)
    have "name_type u' (r_strName r) = name_type u (r_strName r)"
      by (rule name_type_known [OF reissued_name_known [OF v assms(2)]])
    with re assms(1) v show ?thesis
      by (cases "CheckReissueAsset A r"; cases "name_type u (r_strName r) = RESTRICTED") (simp_all add: check_creation_def ReissueAssetFromTransaction_def)
  next
    case other
    show ?thesis
    proof (cases "IsNewUniqueAsset ?P tx \<or> IsNewMsgChannelAsset ?P tx")
      case True
      with other assms(1) show ?thesis by (auto simp: check_creation_def Let_def)
    next
      case False
      then have "\<not> IsNewQualifierAsset ?P tx \<and> \<not> IsNewRestrictedAsset ?P tx"
        using removed_kinds [OF other _ _ assms(1)] by blast
      with other assms(1) False show ?thesis by (simp add: check_creation_def Let_def)
    qed
  qed
qed

text \<open>
  Reading an uninitialised kind does no harm. The checks read the kind of a name that is too long
  to have one, and the variable then holds whatever was on the stack; whether a transaction is accepted
  does not depend on it.
\<close>

theorem uninitialised_kind_harmless:
  "CheckTransaction A X M u fD fM fB tx = None \<longleftrightarrow> CheckTransaction A X M u' fD fM fB tx = None"
proof -
  have "CheckTransaction A X M v' fD fM fB tx = None" if a: "CheckTransaction A X M v fD fM fB tx = None" for v v'
  proof -
    obtain st where "check_outputs A fM fB (vout tx) check_start = Inr st"
      using a by (auto simp: CheckTransaction_accepts)
    then have "\<forall>o1 \<in> set (vout tx). output_checked (prefixes A) fM fB o1"
      using check_outputs_ok by (force simp: check_start_def MoneyRange_def)
    then show ?thesis using a check_creation_type_free unfolding CheckTransaction_accepts by blast
  qed
  then show ?thesis by blast
qed

end
