(* ===== verification/XC_Coins.thy ===== *)
theory XC_Coins
  imports XC_AssetTx "HOL-Library.AList"
begin

text \<open>
  Unspent coins and their caches (\<^verbatim>\<open>src/src/coins.cpp\<close>, \<^verbatim>\<open>src/src/txdb.cpp\<close>). The hash tables of the source are
  association lists with distinct keys. A cache sits on a base view through the virtual functions of
  \<^verbatim>\<open>CCoinsView\<close>; what a view promises is the locale \<open>coins_view\<close>, in which a cache over any view is shown to
  be a view again, and which is interpreted on the database, the cache over it and the cache of a block.
  Reading a coin may change the caches below, so every operation returns the new state. The part of the
  operations that concerns the assets cache is not in this theory.
\<close>

section \<open>Coins\<close>

record Coin =
  coin_out :: CTxOut
  fCoinBase :: bool
  coin_height :: nat

definition null_out :: CTxOut where "null_out = \<lparr>nValue = -1, scriptPubKey = []\<rparr>"

definition Coin_empty :: Coin where "Coin_empty = \<lparr>coin_out = null_out, fCoinBase = False, coin_height = 0\<rparr>"

definition IsSpent :: "Coin \<Rightarrow> bool" where "IsSpent coin \<longleftrightarrow> nValue (coin_out coin) = -1"

definition Coin_IsAsset :: "Coin \<Rightarrow> bool" where "Coin_IsAsset coin \<longleftrightarrow> IsAssetScript (scriptPubKey (coin_out coin)) \<noteq> None"

text \<open>
  The amount an asset script carries, read by the deserialisers of \<^verbatim>\<open>script.cpp\<close>; \<open>None\<close> when the function
  returns false.
\<close>

definition amount_at :: "'a reader \<Rightarrow> ('a \<Rightarrow> CAmount) \<Rightarrow> CScript \<Rightarrow> nat \<Rightarrow> CAmount option" where
  "amount_at rd am s i = (case rd (drop i s) of Inl err \<Rightarrow> None | Inr (a, rest) \<Rightarrow> Some (am a))"

definition AmountFromNewAssetScript :: "CScript \<Rightarrow> CAmount option" where
  "AmountFromNewAssetScript s =
     (case IsAssetScript s of
        Some (TX_NEW_ASSET, False, i) \<Rightarrow> amount_at Unserialize_CNewAsset nAmount s i | _ \<Rightarrow> None)"

definition AmountFromTransferScript :: "CScript \<Rightarrow> CAmount option" where
  "AmountFromTransferScript s =
     (case IsAssetScript s of
        Some (TX_TRANSFER_ASSET, own, i) \<Rightarrow> amount_at Unserialize_CAssetTransfer t_nAmount s i | _ \<Rightarrow> None)"

definition AmountFromReissueScript :: "CScript \<Rightarrow> CAmount option" where
  "AmountFromReissueScript s =
     (case IsAssetScript s of
        Some (TX_REISSUE_ASSET, own, i) \<Rightarrow> amount_at Unserialize_CReissueAsset r_nAmount s i | _ \<Rightarrow> None)"

definition GetAssetAmountFromScript :: "CScript \<Rightarrow> CAmount option" where
  "GetAssetAmountFromScript s =
     (case IsAssetScript s of
        None \<Rightarrow> None
      | Some (type, fIsOwner, i) \<Rightarrow>
          if type = TX_NEW_ASSET \<and> \<not> fIsOwner then AmountFromNewAssetScript s
          else if type = TX_TRANSFER_ASSET then AmountFromTransferScript s
          else if type = TX_NEW_ASSET \<and> fIsOwner then Some OWNER_ASSET_AMOUNT
          else if type = TX_REISSUE_ASSET then AmountFromReissueScript s
          else None)"

definition IsUnspendable :: "CScript \<Rightarrow> bool" where
  "IsUnspendable s \<longleftrightarrow>
     s \<noteq> [] \<and> s ! 0 = OP_RETURN \<or> s \<noteq> [] \<and> s ! 0 = OP_RVN_ASSET \<or> MAX_SCRIPT_SIZE < length s \<or>
     GetAssetAmountFromScript s = Some 0"

record CCoinsCacheEntry =
  entry_coin :: Coin
  DIRTY :: bool
  FRESH :: bool

type_synonym CCoinsMap = "(COutPoint \<times> CCoinsCacheEntry) list"

section \<open>The cache\<close>

record 'b CCoinsViewCache =
  base :: 'b
  hashBlock :: uint256
  cacheCoins :: CCoinsMap

text \<open>\<open>bget\<close> is \<^verbatim>\<open>base->GetCoin\<close>.\<close>

definition FetchCoin ::
  "('b \<Rightarrow> COutPoint \<Rightarrow> Coin option \<times> 'b) \<Rightarrow> 'b CCoinsViewCache \<Rightarrow> COutPoint \<Rightarrow>
     CCoinsCacheEntry option \<times> 'b CCoinsViewCache" where
  "FetchCoin bget c k =
     (case map_of (cacheCoins c) k of
        Some e \<Rightarrow> (Some e, c)
      | None \<Rightarrow>
          (case bget (base c) k of
             (None, b') \<Rightarrow> (None, c\<lparr>base := b'\<rparr>)
           | (Some tmp, b') \<Rightarrow>
               let e = \<lparr>entry_coin = tmp, DIRTY = False, FRESH = IsSpent tmp\<rparr>
               in (Some e, c\<lparr>base := b', cacheCoins := AList.update k e (cacheCoins c)\<rparr>)))"

definition unspent :: "Coin \<Rightarrow> Coin option" where "unspent coin = (if IsSpent coin then None else Some coin)"

definition GetCoin ::
  "('b \<Rightarrow> COutPoint \<Rightarrow> Coin option \<times> 'b) \<Rightarrow> 'b CCoinsViewCache \<Rightarrow> COutPoint \<Rightarrow> Coin option \<times> 'b CCoinsViewCache" where
  "GetCoin bget c k =
     (case FetchCoin bget c k of
        (None, c') \<Rightarrow> (None, c')
      | (Some e, c') \<Rightarrow> (if IsSpent (entry_coin e) then None else Some (entry_coin e), c'))"

definition HaveCoin ::
  "('b \<Rightarrow> COutPoint \<Rightarrow> Coin option \<times> 'b) \<Rightarrow> 'b CCoinsViewCache \<Rightarrow> COutPoint \<Rightarrow> bool \<times> 'b CCoinsViewCache" where
  "HaveCoin bget c k =
     (case FetchCoin bget c k of (None, c') \<Rightarrow> (False, c') | (Some e, c') \<Rightarrow> (\<not> IsSpent (entry_coin e), c'))"

definition AccessCoin ::
  "('b \<Rightarrow> COutPoint \<Rightarrow> Coin option \<times> 'b) \<Rightarrow> 'b CCoinsViewCache \<Rightarrow> COutPoint \<Rightarrow> Coin \<times> 'b CCoinsViewCache" where
  "AccessCoin bget c k =
     (case FetchCoin bget c k of (None, c') \<Rightarrow> (Coin_empty, c') | (Some e, c') \<Rightarrow> (entry_coin e, c'))"

definition HaveCoinInCache :: "'b CCoinsViewCache \<Rightarrow> COutPoint \<Rightarrow> bool" where
  "HaveCoinInCache c k = (case map_of (cacheCoins c) k of None \<Rightarrow> False | Some e \<Rightarrow> \<not> IsSpent (entry_coin e))"

text \<open>\<open>None\<close> is the failed assertion or the exception of the source.\<close>

definition AddCoin :: "COutPoint \<Rightarrow> Coin \<Rightarrow> bool \<Rightarrow> 'b CCoinsViewCache \<Rightarrow> 'b CCoinsViewCache option" where
  "AddCoin k coin possible_overwrite c =
     (if IsSpent coin then None
      else if IsUnspendable (scriptPubKey (coin_out coin)) then Some c
      else
        let e = (case map_of (cacheCoins c) k of
                   Some e \<Rightarrow> e | None \<Rightarrow> \<lparr>entry_coin = Coin_empty, DIRTY = False, FRESH = False\<rparr>)
        in if \<not> possible_overwrite \<and> \<not> IsSpent (entry_coin e) then None
           else
             let fresh = (\<not> possible_overwrite \<and> \<not> DIRTY e)
             in Some (c\<lparr>cacheCoins :=
                  AList.update k \<lparr>entry_coin = coin, DIRTY = True, FRESH = FRESH e \<or> fresh\<rparr> (cacheCoins c)\<rparr>))"

text \<open>The coin moved out, or \<open>None\<close> when the function returns false.\<close>

definition SpendCoin ::
  "('b \<Rightarrow> COutPoint \<Rightarrow> Coin option \<times> 'b) \<Rightarrow> COutPoint \<Rightarrow> 'b CCoinsViewCache \<Rightarrow> Coin option \<times> 'b CCoinsViewCache" where
  "SpendCoin bget k c =
     (case FetchCoin bget c k of
        (None, c') \<Rightarrow> (if IsXAccountDummyPrevout k then Some Coin_empty else None, c')
      | (Some e, c') \<Rightarrow>
          (Some (entry_coin e),
           c'\<lparr>cacheCoins :=
             if FRESH e then AList.delete k (cacheCoins c')
             else AList.update k \<lparr>entry_coin = Coin_empty, DIRTY = True, FRESH = False\<rparr> (cacheCoins c')\<rparr>))"

definition Uncache :: "COutPoint \<Rightarrow> 'b CCoinsViewCache \<Rightarrow> 'b CCoinsViewCache" where
  "Uncache k c =
     (case map_of (cacheCoins c) k of None \<Rightarrow> c
      | Some e \<Rightarrow>
          if \<not> DIRTY e \<and> \<not> FRESH e then c\<lparr>cacheCoins := AList.delete k (cacheCoins c)\<rparr> else c)"

definition GetBestBlock :: "('b \<Rightarrow> uint256 \<times> 'b) \<Rightarrow> 'b CCoinsViewCache \<Rightarrow> uint256 \<times> 'b CCoinsViewCache" where
  "GetBestBlock bbest c =
     (if blob_IsNull (hashBlock c) then
        (case bbest (base c) of (h, b') \<Rightarrow> (h, c\<lparr>base := b', hashBlock := h\<rparr>))
      else (hashBlock c, c))"

definition SetBestBlock :: "uint256 \<Rightarrow> 'b CCoinsViewCache \<Rightarrow> 'b CCoinsViewCache" where
  "SetBestBlock h c = c\<lparr>hashBlock := h\<rparr>"

section \<open>Writing down\<close>

text \<open>One entry of the child's map; \<open>None\<close> is the exception for a misapplied flag.\<close>

definition batch_entry :: "COutPoint \<Rightarrow> CCoinsCacheEntry \<Rightarrow> CCoinsMap \<Rightarrow> CCoinsMap option" where
  "batch_entry k e m =
     (if \<not> DIRTY e then Some m
      else case map_of m k of
        None \<Rightarrow>
          if FRESH e \<and> IsSpent (entry_coin e) then Some m
          else Some (AList.update k \<lparr>entry_coin = entry_coin e, DIRTY = True, FRESH = FRESH e\<rparr> m)
      | Some us \<Rightarrow>
          if FRESH e \<and> \<not> IsSpent (entry_coin us) then None
          else if FRESH us \<and> IsSpent (entry_coin e) then Some (AList.delete k m)
          else Some (AList.update k \<lparr>entry_coin = entry_coin e, DIRTY = True, FRESH = FRESH us\<rparr> m))"

fun batch_entries :: "CCoinsMap \<Rightarrow> CCoinsMap \<Rightarrow> CCoinsMap option" where
  "batch_entries [] m = Some m"
| "batch_entries ((k, e) # es) m = (case batch_entry k e m of None \<Rightarrow> None | Some m' \<Rightarrow> batch_entries es m')"

definition BatchWrite :: "'b CCoinsViewCache \<Rightarrow> CCoinsMap \<Rightarrow> uint256 \<Rightarrow> 'b CCoinsViewCache option" where
  "BatchWrite c mapCoins hashBlockIn =
     map_option (\<lambda>m. c\<lparr>cacheCoins := m, hashBlock := hashBlockIn\<rparr>) (batch_entries mapCoins (cacheCoins c))"

definition Flush ::
  "('b \<Rightarrow> CCoinsMap \<Rightarrow> uint256 \<Rightarrow> 'b option) \<Rightarrow> 'b CCoinsViewCache \<Rightarrow> 'b CCoinsViewCache option" where
  "Flush bwrite c = map_option (\<lambda>b'. c\<lparr>base := b', cacheCoins := []\<rparr>) (bwrite (base c) (cacheCoins c) (hashBlock c))"

section \<open>The database\<close>

record CCoinsViewDB =
  db_coins :: "(COutPoint \<times> Coin) list"
  db_best :: uint256
  db_heads :: "uint256 list"

definition db_GetCoin :: "CCoinsViewDB \<Rightarrow> COutPoint \<Rightarrow> Coin option \<times> CCoinsViewDB" where
  "db_GetCoin d k = (map_of (db_coins d) k, d)"

definition db_GetBestBlock :: "CCoinsViewDB \<Rightarrow> uint256 \<times> CCoinsViewDB" where
  "db_GetBestBlock d = (db_best d, d)"

fun db_entries :: "CCoinsMap \<Rightarrow> (COutPoint \<times> Coin) list \<Rightarrow> (COutPoint \<times> Coin) list" where
  "db_entries [] cs = cs"
| "db_entries ((k, e) # es) cs =
     db_entries es
       (if \<not> DIRTY e then cs
        else if IsSpent (entry_coin e) then AList.delete k cs
        else AList.update k (entry_coin e) cs)"

text \<open>
  \<open>None\<close> is a failed assertion. The marker of an unfinished write is set before the entries and replaced by
  the new best block after them.
\<close>

definition db_begin :: "CCoinsViewDB \<Rightarrow> uint256 \<Rightarrow> CCoinsViewDB option" where
  "db_begin d h =
     (if blob_IsNull h then None
      else if blob_IsNull (db_best d) \<and> length (db_heads d) = 2 \<and> db_heads d ! 0 \<noteq> h then None
      else
        let old_tip = (if blob_IsNull (db_best d) \<and> length (db_heads d) = 2 then db_heads d ! 1 else db_best d)
        in Some (d\<lparr>db_best := uint256_null, db_heads := [h, old_tip]\<rparr>))"

definition db_BatchWrite :: "CCoinsViewDB \<Rightarrow> CCoinsMap \<Rightarrow> uint256 \<Rightarrow> CCoinsViewDB option" where
  "db_BatchWrite d mapCoins h =
     (case db_begin d h of None \<Rightarrow> None
      | Some d' \<Rightarrow> Some (d'\<lparr>db_coins := db_entries mapCoins (db_coins d'), db_best := h, db_heads := []\<rparr>))"

section \<open>What a view promises\<close>

text \<open>
  The coins a set of changes leaves, over the coins \<open>U\<close> below it, and when the flags of the changes are right:
  a fresh entry hides no coin below, and a clean entry repeats what is below.
\<close>

type_synonym utxos = "COutPoint \<Rightarrow> Coin option"

definition over :: "CCoinsMap \<Rightarrow> utxos \<Rightarrow> utxos" where
  "over m U k = (case map_of m k of None \<Rightarrow> U k | Some e \<Rightarrow> unspent (entry_coin e))"

definition changes_ok :: "utxos \<Rightarrow> CCoinsMap \<Rightarrow> bool" where
  "changes_ok U m \<longleftrightarrow> distinct (map fst m) \<and>
     (\<forall>k e. map_of m k = Some e \<longrightarrow> (FRESH e \<longrightarrow> U k = None) \<and> (\<not> DIRTY e \<longrightarrow> unspent (entry_coin e) = U k))"

locale coins_view =
  fixes get :: "'v \<Rightarrow> COutPoint \<Rightarrow> Coin option \<times> 'v"
    and best :: "'v \<Rightarrow> uint256 \<times> 'v"
    and put :: "'v \<Rightarrow> CCoinsMap \<Rightarrow> uint256 \<Rightarrow> 'v option"
    and utxo :: "'v \<Rightarrow> utxos"
    and tip :: "'v \<Rightarrow> uint256"
    and ok :: "'v \<Rightarrow> bool"
  assumes get_value: "ok v \<Longrightarrow> fst (get v k) = utxo v k"
    and get_keeps: "ok v \<Longrightarrow> ok (snd (get v k)) \<and> utxo (snd (get v k)) = utxo v \<and> tip (snd (get v k)) = tip v"
    and best_value: "ok v \<Longrightarrow> fst (best v) = tip v"
    and best_keeps: "ok v \<Longrightarrow> ok (snd (best v)) \<and> utxo (snd (best v)) = utxo v \<and> tip (snd (best v)) = tip v"
    and utxo_unspent: "ok v \<Longrightarrow> utxo v k = Some coin \<Longrightarrow> \<not> IsSpent coin"
    and put_spec: "ok v \<Longrightarrow> changes_ok (utxo v) m \<Longrightarrow> \<not> blob_IsNull h \<Longrightarrow>
      \<exists>v'. put v m h = Some v' \<and> ok v' \<and> utxo v' = over m (utxo v) \<and> tip v' = h"

text \<open>A cache on top of a view: its coins, its best block, and when it is in order.\<close>

definition cache_utxo :: "('b \<Rightarrow> utxos) \<Rightarrow> 'b CCoinsViewCache \<Rightarrow> utxos" where
  "cache_utxo utxo c = over (cacheCoins c) (utxo (base c))"

definition cache_tip :: "('b \<Rightarrow> uint256) \<Rightarrow> 'b CCoinsViewCache \<Rightarrow> uint256" where
  "cache_tip tip c = (if blob_IsNull (hashBlock c) then tip (base c) else hashBlock c)"

definition cache_ok :: "('b \<Rightarrow> utxos) \<Rightarrow> ('b \<Rightarrow> bool) \<Rightarrow> 'b CCoinsViewCache \<Rightarrow> bool" where
  "cache_ok utxo ok c \<longleftrightarrow> ok (base c) \<and> changes_ok (utxo (base c)) (cacheCoins c)"

lemma unspent_Some [simp]: "unspent coin = Some c \<longleftrightarrow> \<not> IsSpent coin \<and> c = coin"
  by (auto simp: unspent_def)

lemma unspent_None [simp]: "unspent coin = None \<longleftrightarrow> IsSpent coin"
  by (auto simp: unspent_def)

lemma Coin_empty_spent [simp]: "IsSpent Coin_empty"
  by (simp add: IsSpent_def Coin_empty_def null_out_def)

lemma over_update: "over (AList.update k e m) U = (over m U)(k := unspent (entry_coin e))"
  by (rule ext) (simp add: over_def update_conv)

lemma over_delete: "over (AList.delete k m) U = (over m U)(k := U k)"
  by (rule ext) (simp add: over_def delete_conv)

lemma over_Nil [simp]: "over [] U = U"
  by (rule ext) (simp add: over_def)

lemma changes_ok_Nil [simp]: "changes_ok U []"
  by (simp add: changes_ok_def)

lemma changes_ok_update:
  assumes "changes_ok U m" "FRESH e \<longrightarrow> U k = None" "\<not> DIRTY e \<longrightarrow> unspent (entry_coin e) = U k"
  shows "changes_ok U (AList.update k e m)"
  using assms by (auto simp: changes_ok_def distinct_update update_conv)

lemma changes_ok_delete: "changes_ok U m \<Longrightarrow> changes_ok U (AList.delete k m)"
  by (auto simp: changes_ok_def distinct_delete delete_conv)

lemma changes_okD:
  assumes "changes_ok U m" "map_of m k = Some e"
  shows "FRESH e \<Longrightarrow> U k = None" "\<not> DIRTY e \<Longrightarrow> unspent (entry_coin e) = U k"
  using assms by (auto simp: changes_ok_def)

lemma changes_ok_Cons:
  assumes "changes_ok U ((k, e) # es)"
  shows "FRESH e \<Longrightarrow> U k = None" "\<not> DIRTY e \<Longrightarrow> unspent (entry_coin e) = U k"
    and "changes_ok (U(k := x)) es" "map_of es k = None"
proof -
  show "FRESH e \<Longrightarrow> U k = None" "\<not> DIRTY e \<Longrightarrow> unspent (entry_coin e) = U k"
    using assms by (auto simp: changes_ok_def)
  have k: "k \<notin> fst ` set es" using assms by (simp add: changes_ok_def)
  then show n: "map_of es k = None" by (simp add: map_of_eq_None_iff)
  show "changes_ok (U(k := x)) es"
    using assms n unfolding changes_ok_def by (auto split: if_splits)
qed

text \<open>The batch leaves in the parent exactly what the child's changes leave over it.\<close>

lemma batch_entry_spec:
  assumes "changes_ok B m" "FRESH e \<Longrightarrow> over m B k = None" "\<not> DIRTY e \<Longrightarrow> unspent (entry_coin e) = over m B k"
  shows "\<exists>m'. batch_entry k e m = Some m' \<and> changes_ok B m' \<and> over m' B = (over m B)(k := unspent (entry_coin e))"
proof (cases "DIRTY e")
  case False
  then show ?thesis using assms by (simp add: batch_entry_def fun_upd_idem)
next
  case True
  show ?thesis
  proof (cases "map_of m k")
    case None
    then have o: "over m B k = B k" by (simp add: over_def)
    show ?thesis
    proof (cases "FRESH e \<and> IsSpent (entry_coin e)")
      case True
      then show ?thesis using \<open>DIRTY e\<close> None assms o by (auto simp: batch_entry_def fun_upd_idem unspent_def)
    next
      case False
      then show ?thesis using \<open>DIRTY e\<close> None assms o
        by (auto simp: batch_entry_def over_update intro!: changes_ok_update)
    qed
  next
    case (Some us)
    then have o: "over m B k = unspent (entry_coin us)" by (simp add: over_def)
    have us: "FRESH us \<Longrightarrow> B k = None" using changes_okD(1) [OF assms(1) Some] .
    have fr: "FRESH e \<Longrightarrow> IsSpent (entry_coin us)" using assms(2) o by simp
    show ?thesis
    proof (cases "FRESH us \<and> IsSpent (entry_coin e)")
      case True
      then show ?thesis using \<open>DIRTY e\<close> Some us fr assms(1)
        by (auto simp: batch_entry_def over_delete unspent_def intro: changes_ok_delete)
    next
      case False
      then show ?thesis using \<open>DIRTY e\<close> Some us fr assms(1)
        by (auto simp: batch_entry_def over_update intro!: changes_ok_update)
    qed
  qed
qed

lemma over_Cons: "map_of es k = None \<Longrightarrow> over ((k, e) # es) U = over es (U(k := unspent (entry_coin e)))"
  by (rule ext) (auto simp: over_def split: option.splits)

lemma batch_entries_spec:
  "changes_ok B m \<Longrightarrow> changes_ok (over m B) es \<Longrightarrow>
   \<exists>m'. batch_entries es m = Some m' \<and> changes_ok B m' \<and> over m' B = over es (over m B)"
proof (induction es arbitrary: m)
  case Nil
  then show ?case by simp
next
  case (Cons p es)
  obtain k e where p: "p = (k, e)" by (cases p)
  note c = changes_ok_Cons [OF Cons.prems(2) [unfolded p]]
  obtain m1 where m1: "batch_entry k e m = Some m1" "changes_ok B m1"
      "over m1 B = (over m B)(k := unspent (entry_coin e))"
    using batch_entry_spec [OF Cons.prems(1) c(1,2)] by blast
  have "changes_ok (over m1 B) es" using c(3) m1(3) by simp
  then obtain m2 where "batch_entries es m1 = Some m2" "changes_ok B m2" "over m2 B = over es (over m1 B)"
    using Cons.IH [OF m1(2)] by blast
  then show ?case using m1 c(4) p by (simp add: over_Cons)
qed

context coins_view
begin

abbreviation cok :: "'v CCoinsViewCache \<Rightarrow> bool" where "cok \<equiv> cache_ok utxo ok"

abbreviation coins :: "'v CCoinsViewCache \<Rightarrow> utxos" where "coins \<equiv> cache_utxo utxo"

lemma coins_unspent: "cok c \<Longrightarrow> coins c k = Some coin \<Longrightarrow> \<not> IsSpent coin"
  using utxo_unspent by (auto simp: cache_utxo_def cache_ok_def over_def split: option.splits)

text \<open>A fetch changes nothing that can be observed, and finds an entry for every coin.\<close>

lemma fetch_keeps:
  assumes "cok c" "FetchCoin get c k = (r, c')"
  shows "cok c'" "coins c' = coins c" "cache_tip tip c' = cache_tip tip c"
    and "map_of (cacheCoins c') k = r" "coins c k = (case r of None \<Rightarrow> None | Some e \<Rightarrow> unspent (entry_coin e))"
proof -
  obtain q b' where b: "get (base c) k = (q, b')" by (cases "get (base c) k")
  have ok: "ok (base c)" and ch: "changes_ok (utxo (base c)) (cacheCoins c)"
    using assms(1) by (simp_all add: cache_ok_def)
  have q: "q = utxo (base c) k" "ok b'" "utxo b' = utxo (base c)" "tip b' = tip (base c)"
    using get_value [OF ok, of k] get_keeps [OF ok, of k] by (simp_all add: b)
  have live_q: "q = Some v \<Longrightarrow> \<not> IsSpent v" for v using utxo_unspent [OF ok, of k v] q(1) by simp
  note d = FetchCoin_def b cache_ok_def cache_utxo_def cache_tip_def Let_def
  have "cok c' \<and> coins c' = coins c \<and> cache_tip tip c' = cache_tip tip c \<and> map_of (cacheCoins c') k = r \<and>
      coins c k = (case r of None \<Rightarrow> None | Some e \<Rightarrow> unspent (entry_coin e))"
  proof (cases "map_of (cacheCoins c) k")
    case (Some e)
    then show ?thesis using assms by (auto simp: d over_def split: option.splits)
  next
    case None
    show ?thesis
    proof (cases q)
      case None
      then show ?thesis using assms(2) \<open>map_of (cacheCoins c) k = None\<close> q ch by (auto simp: d over_def)
    next
      case (Some v)
      let ?e = "\<lparr>entry_coin = v, DIRTY = False, FRESH = False\<rparr>"
      have c': "c' = c\<lparr>base := b', cacheCoins := AList.update k ?e (cacheCoins c)\<rparr>" "r = Some ?e"
        using assms(2) None Some live_q [OF Some] by (auto simp: d)
      have lv: "unspent v = utxo (base c) k" using q(1) Some live_q [OF Some] by (metis unspent_def)
      have o: "over (cacheCoins c) (utxo (base c)) k = utxo (base c) k" by (simp add: over_def None)
      show ?thesis using c' q ch lv o
        by (simp add: cache_ok_def cache_utxo_def cache_tip_def over_update update_conv changes_ok_update fun_upd_idem)
    qed
  qed
  then show "cok c'" "coins c' = coins c" "cache_tip tip c' = cache_tip tip c"
    "map_of (cacheCoins c') k = r" "coins c k = (case r of None \<Rightarrow> None | Some e \<Rightarrow> unspent (entry_coin e))"
    by auto
qed

lemma read_keeps:
  assumes "cok c"
  shows "cok (snd (GetCoin get c k))" "coins (snd (GetCoin get c k)) = coins c"
    and "cache_tip tip (snd (GetCoin get c k)) = cache_tip tip c" "fst (GetCoin get c k) = coins c k"
    and "cok (snd (HaveCoin get c k))" "coins (snd (HaveCoin get c k)) = coins c"
    and "fst (HaveCoin get c k) \<longleftrightarrow> coins c k \<noteq> None"
    and "cok (snd (AccessCoin get c k))" "coins (snd (AccessCoin get c k)) = coins c"
    and "unspent (fst (AccessCoin get c k)) = coins c k"
  using fetch_keeps [OF assms, of k "fst (FetchCoin get c k)" "snd (FetchCoin get c k)"]
  by (auto simp: GetCoin_def HaveCoin_def AccessCoin_def unspent_def split: prod.splits option.splits)

lemma best_block_keeps:
  assumes "cok c"
  shows "fst (GetBestBlock best c) = cache_tip tip c" "cok (snd (GetBestBlock best c))"
    "coins (snd (GetBestBlock best c)) = coins c" "cache_tip tip (snd (GetBestBlock best c)) = cache_tip tip c"
  using assms best_value [of "base c"] best_keeps [of "base c"]
  by (auto simp: GetBestBlock_def cache_tip_def cache_ok_def cache_utxo_def split: prod.splits)

lemma add_spec:
  assumes "cok c" "\<not> IsSpent coin" "ow \<or> coins c k = None"
  shows "\<exists>c'. AddCoin k coin ow c = Some c' \<and> cok c' \<and> cache_tip tip c' = cache_tip tip c \<and>
    coins c' = (if IsUnspendable (scriptPubKey (coin_out coin)) then coins c else (coins c)(k \<mapsto> coin))"
proof (cases "IsUnspendable (scriptPubKey (coin_out coin))")
  case True
  then show ?thesis using assms by (simp add: AddCoin_def)
next
  case False
  define e where "e = (case map_of (cacheCoins c) k of
      Some e \<Rightarrow> e | None \<Rightarrow> \<lparr>entry_coin = Coin_empty, DIRTY = False, FRESH = False\<rparr>)"
  define f where "f = (FRESH e \<or> \<not> ow \<and> \<not> DIRTY e)"
  let ?e = "\<lparr>entry_coin = coin, DIRTY = True, FRESH = f\<rparr>"
  have ch: "changes_ok (utxo (base c)) (cacheCoins c)" using assms(1) by (simp add: cache_ok_def)
  have sp: "ow \<or> IsSpent (entry_coin e)"
    using assms(3) by (auto simp: e_def cache_utxo_def over_def split: option.splits)
  have f: "f \<Longrightarrow> utxo (base c) k = None"
    using assms(3) changes_okD [OF ch, of k e]
    by (auto simp: f_def e_def cache_utxo_def over_def unspent_def split: option.splits if_splits)
  have "AddCoin k coin ow c = Some (c\<lparr>cacheCoins := AList.update k ?e (cacheCoins c)\<rparr>)"
    using False assms(2) sp by (auto simp: AddCoin_def Let_def f_def e_def [symmetric])
  moreover have "changes_ok (utxo (base c)) (AList.update k ?e (cacheCoins c))"
    using changes_ok_update [OF ch, of ?e k] f by simp
  ultimately show ?thesis using False assms(1,2)
    by (simp add: cache_ok_def cache_utxo_def cache_tip_def over_update unspent_def)
qed

lemma spend_spec:
  assumes "cok c" "SpendCoin get k c = (r, c')"
  shows "cok c'" "coins c' = (coins c)(k := None)" "cache_tip tip c' = cache_tip tip c"
    and "coins c k = Some coin \<Longrightarrow> r = Some coin"
proof -
  obtain q c1 where f: "FetchCoin get c k = (q, c1)" by (cases "FetchCoin get c k")
  note fk = fetch_keeps [OF assms(1) f]
  have ch: "changes_ok (utxo (base c1)) (cacheCoins c1)" using fk(1) by (simp add: cache_ok_def)
  have fr: "q = Some e \<Longrightarrow> FRESH e \<Longrightarrow> utxo (base c1) k = None" for e
    using changes_okD(1) [OF ch] fk(4) by simp
  note d = SpendCoin_def f cache_ok_def cache_utxo_def cache_tip_def over_update over_delete
  show "coins c k = Some coin \<Longrightarrow> r = Some coin"
    using assms(2) fk(5) by (auto simp: SpendCoin_def f split: option.splits)
  have "cok c' \<and> coins c' = (coins c1)(k := None) \<and> cache_tip tip c' = cache_tip tip c1"
  proof (cases q)
    case None
    then have "coins c1 k = None" using fk(2,5) by simp
    then show ?thesis using None assms(2) fk(1) by (auto simp: SpendCoin_def f fun_upd_idem)
  next
    case (Some e)
    let ?e = "\<lparr>entry_coin = Coin_empty, DIRTY = True, FRESH = False\<rparr>"
    have u: "unspent Coin_empty = None" by simp
    show ?thesis
      using Some assms(2) fk(1) ch fr [OF Some] changes_ok_delete [OF ch, of k] changes_ok_update [OF ch, of ?e k]
      by (auto simp: d u simp del: unspent_None)
  qed
  then show "cok c'" "coins c' = (coins c)(k := None)" "cache_tip tip c' = cache_tip tip c"
    using fk(2,3) by simp_all
qed

lemma uncache_keeps:
  assumes "cok c"
  shows "cok (Uncache k c)" "coins (Uncache k c) = coins c" "cache_tip tip (Uncache k c) = cache_tip tip c"
proof -
  have ch: "changes_ok (utxo (base c)) (cacheCoins c)" using assms by (simp add: cache_ok_def)
  have "map_of (cacheCoins c) k = Some e \<Longrightarrow> \<not> DIRTY e \<Longrightarrow> over (cacheCoins c) (utxo (base c)) k = utxo (base c) k" for e
    using changes_okD(2) [OF ch] by (simp add: over_def)
  then show "cok (Uncache k c)" "coins (Uncache k c) = coins c" "cache_tip tip (Uncache k c) = cache_tip tip c"
    using assms changes_ok_delete [OF ch]
    by (auto simp: Uncache_def cache_ok_def cache_utxo_def cache_tip_def over_delete fun_upd_idem split: option.splits)
qed

text \<open>A flush moves the cache's coins and best block into the view below, and empties the cache.\<close>

lemma flush_spec:
  assumes "cok c" "\<not> blob_IsNull (hashBlock c)"
  shows "\<exists>c'. Flush put c = Some c' \<and> cok c' \<and> coins c' = coins c \<and> cacheCoins c' = [] \<and>
    utxo (base c') = coins c \<and> tip (base c') = cache_tip tip c \<and> cache_tip tip c' = cache_tip tip c"
  using put_spec [of "base c" "cacheCoins c" "hashBlock c"] assms
  by (auto simp: Flush_def cache_ok_def cache_utxo_def cache_tip_def)

lemma cache_is_view: "coins_view (GetCoin get) (GetBestBlock best) BatchWrite coins (cache_tip tip) cok"
proof
  fix v :: "'v CCoinsViewCache" and m h
  assume v: "cok v" "changes_ok (coins v) m" "\<not> blob_IsNull h"
  have "changes_ok (utxo (base v)) (cacheCoins v)" "ok (base v)" using v(1) by (simp_all add: cache_ok_def)
  then show "\<exists>v'. BatchWrite v m h = Some v' \<and> cok v' \<and> coins v' = over m (coins v) \<and> cache_tip tip v' = h"
    using batch_entries_spec [of "utxo (base v)" "cacheCoins v" m] v(2,3)
    by (auto simp: BatchWrite_def cache_ok_def cache_utxo_def cache_tip_def)
qed (simp_all add: read_keeps best_block_keeps coins_unspent)

end

section \<open>The three views of the node\<close>

text \<open>
  The database, the chain-state cache \<^verbatim>\<open>pcoinsTip\<close> over it, and the cache a block is connected in
  (\<^verbatim>\<open>ConnectTip\<close>, \<^verbatim>\<open>DisconnectTip\<close>).
\<close>

definition db_utxo :: "CCoinsViewDB \<Rightarrow> utxos" where "db_utxo d = map_of (db_coins d)"

definition db_ok :: "CCoinsViewDB \<Rightarrow> bool" where
  "db_ok d \<longleftrightarrow> distinct (map fst (db_coins d)) \<and> list_all (\<lambda>(k, coin). \<not> IsSpent coin) (db_coins d) \<and> db_heads d = []"

lemma db_entries_spec:
  "distinct (map fst cs) \<Longrightarrow> list_all (\<lambda>(k, coin). \<not> IsSpent coin) cs \<Longrightarrow> changes_ok (map_of cs) es \<Longrightarrow>
   distinct (map fst (db_entries es cs)) \<and> list_all (\<lambda>(k, coin). \<not> IsSpent coin) (db_entries es cs) \<and>
   map_of (db_entries es cs) = over es (map_of cs)"
proof (induction es arbitrary: cs)
  case Nil
  then show ?case by simp
next
  case (Cons p es)
  obtain k e where p: "p = (k, e)" by (cases p)
  define cs1 where "cs1 = (if \<not> DIRTY e then cs else if IsSpent (entry_coin e) then AList.delete k cs
      else AList.update k (entry_coin e) cs)"
  note c = changes_ok_Cons [OF Cons.prems(3) [unfolded p]]
  have m: "map_of cs1 = (map_of cs)(k := unspent (entry_coin e))"
    using c(2) by (auto simp: cs1_def update_conv' delete_conv' unspent_def fun_upd_idem)
  have ds: "distinct (map fst cs1)"
    using Cons.prems(1) by (simp add: cs1_def distinct_update distinct_delete)
  have "\<not> IsSpent coin" if "(j, coin) \<in> set cs1" for j coin
  proof -
    have "((map_of cs)(k := unspent (entry_coin e))) j = Some coin" using map_of_is_SomeI [OF ds that] m by simp
    then show ?thesis using Cons.prems(2) by (auto simp: list_all_iff split: if_splits dest!: map_of_SomeD)
  qed
  then have a: "list_all (\<lambda>(k, coin). \<not> IsSpent coin) cs1" by (auto simp: list_all_iff)
  have "changes_ok (map_of cs1) es" using c(3) [of "unspent (entry_coin e)"] m by simp
  note Cons.IH [OF ds a this]
  then show ?case using m c(4) by (simp only: p db_entries.simps cs1_def [symmetric] over_Cons)
qed

interpretation db: coins_view db_GetCoin db_GetBestBlock db_BatchWrite db_utxo db_best db_ok
proof
  fix d :: CCoinsViewDB and m h
  assume "db_ok d" "changes_ok (db_utxo d) m" "\<not> blob_IsNull h"
  then show "\<exists>d'. db_BatchWrite d m h = Some d' \<and> db_ok d' \<and> db_utxo d' = over m (db_utxo d) \<and> db_best d' = h"
    using db_entries_spec [of "db_coins d" m]
    by (simp add: db_BatchWrite_def db_begin_def db_ok_def db_utxo_def Let_def)
qed (auto simp: db_GetCoin_def db_GetBestBlock_def db_utxo_def db_ok_def list_all_iff dest!: map_of_SomeD)

interpretation chain: coins_view "GetCoin db_GetCoin" "GetBestBlock db_GetBestBlock" BatchWrite
    "cache_utxo db_utxo" "cache_tip db_best" "cache_ok db_utxo db_ok"
  by (rule db.cache_is_view)

interpretation block: coins_view "GetCoin (GetCoin db_GetCoin)" "GetBestBlock (GetBestBlock db_GetBestBlock)" BatchWrite
    "cache_utxo (cache_utxo db_utxo)" "cache_tip (cache_tip db_best)" "cache_ok (cache_utxo db_utxo) (cache_ok db_utxo db_ok)"
  by (rule chain.cache_is_view)

end
