(* ===== verification/XC_AssetsCache.thy ===== *)
theory XC_AssetsCache
  imports XC_CheckTx XC_Coins
begin

text \<open>
  What is known about issued assets: \<^verbatim>\<open>CAssetsCache\<close> of \<^verbatim>\<open>src/src/assets/assets.cpp\<close> with the containers of
  \<^verbatim>\<open>src/src/assets/assettypes.h\<close>, the least recently used cache and the rows of \<^verbatim>\<open>src/src/assets/assetdb.cpp\<close>
  below it. A block writes to a cache of its own; \<^verbatim>\<open>Flush\<close> moves that into \<^verbatim>\<open>passets\<close>, and
  \<^verbatim>\<open>DumpCacheToDatabase\<close> moves \<^verbatim>\<open>passets\<close> to disk. The containers for restricted assets and qualifiers
  stay empty as long as \<^verbatim>\<open>AreRestrictedAssetsDeployed()\<close> is false and are left out.
\<close>

section \<open>The least recently used cache\<close>

text \<open>\<^verbatim>\<open>cacheItemsMap\<close> points from each key to its place in the list, so the list alone is kept.\<close>

record ('k, 'v) CLRUCache =
  cacheItemsList :: "('k \<times> 'v) list"
  maxSize :: nat

definition lru_Exists :: "'k \<Rightarrow> ('k, 'v) CLRUCache \<Rightarrow> bool" where
  "lru_Exists k c \<longleftrightarrow> map_of (cacheItemsList c) k \<noteq> None"

definition lru_Put :: "'k \<Rightarrow> 'v \<Rightarrow> ('k, 'v) CLRUCache \<Rightarrow> ('k, 'v) CLRUCache" where
  "lru_Put k v c =
     (let l = (k, v) # map_del k (cacheItemsList c)
      in c\<lparr>cacheItemsList := if maxSize c < length l then butlast l else l\<rparr>)"

definition lru_Erase :: "'k \<Rightarrow> ('k, 'v) CLRUCache \<Rightarrow> ('k, 'v) CLRUCache" where
  "lru_Erase k c = c\<lparr>cacheItemsList := map_del k (cacheItemsList c)\<rparr>"

definition lru_Get :: "'k \<Rightarrow> ('k, 'v) CLRUCache \<Rightarrow> ('v \<times> ('k, 'v) CLRUCache) option" where
  "lru_Get k c =
     (case map_of (cacheItemsList c) k of None \<Rightarrow> None
      | Some v \<Rightarrow> Some (v, c\<lparr>cacheItemsList := (k, v) # map_del k (cacheItemsList c)\<rparr>))"

section \<open>The containers\<close>

record CAssetCacheNewAsset =
  n_asset :: CNewAsset
  n_address :: string
  n_blockHash :: uint256
  n_blockHeight :: int

record CAssetCacheReissueAsset =
  ri_reissue :: CReissueAsset
  ri_address :: string
  ri_out :: COutPoint
  ri_blockHash :: uint256
  ri_blockHeight :: int

record CAssetCacheNewTransfer =
  ct_transfer :: CAssetTransfer
  ct_address :: string
  ct_out :: COutPoint

record CAssetCacheNewOwner =
  o_assetName :: string
  o_address :: string

record CAssetCacheSpendAsset =
  sp_assetName :: string
  sp_address :: string
  sp_nAmount :: CAmount

type_synonym CAssetCacheUndoAssetAmount = CAssetCacheSpendAsset

record CBlockAssetUndo =
  fChangedIPFS :: bool
  fChangedUnits :: bool
  u_strIPFS :: bytes
  u_nUnits :: int

record CDatabasedAssetData =
  d_asset :: CNewAsset
  d_nHeight :: int
  d_blockHash :: uint256

text \<open>
  A \<^verbatim>\<open>std::set\<close> of one of these records is a map from what \<^verbatim>\<open>operator<\<close> compares: the name, or the outpoint.
\<close>

type_synonym out_key = "uint256 \<times> u32"

definition key_of :: "COutPoint \<Rightarrow> out_key" where
  "key_of out = (op_hash out, op_n out)"

record CAssetsCache =
  mapAssetsAddressAmount :: "(string \<times> string, CAmount) omap"
  mapReissuedAssetData :: "(string, CNewAsset) omap"
  vSpentAssets :: "CAssetCacheSpendAsset list"
  vUndoAssetAmount :: "CAssetCacheUndoAssetAmount list"
  setNewTransferAssetsToAdd :: "(out_key, CAssetCacheNewTransfer) omap"
  setNewTransferAssetsToRemove :: "(out_key, CAssetCacheNewTransfer) omap"
  setNewAssetsToRemove :: "(string, CAssetCacheNewAsset) omap"
  setNewAssetsToAdd :: "(string, CAssetCacheNewAsset) omap"
  setNewReissueToRemove :: "(out_key, CAssetCacheReissueAsset) omap"
  setNewReissueToAdd :: "(out_key, CAssetCacheReissueAsset) omap"
  setNewOwnerAssetsToAdd :: "(string, CAssetCacheNewOwner) omap"
  setNewOwnerAssetsToRemove :: "(string, CAssetCacheNewOwner) omap"

definition CAssetsCache_empty :: CAssetsCache where
  "CAssetsCache_empty = \<lparr>mapAssetsAddressAmount = [], mapReissuedAssetData = [], vSpentAssets = [], vUndoAssetAmount = [],
     setNewTransferAssetsToAdd = [], setNewTransferAssetsToRemove = [], setNewAssetsToRemove = [], setNewAssetsToAdd = [],
     setNewReissueToRemove = [], setNewReissueToAdd = [], setNewOwnerAssetsToAdd = [], setNewOwnerAssetsToRemove = []\<rparr>"

text \<open>\<^verbatim>\<open>insert\<close> of a set keeps an element that compares equal.\<close>

definition set_insert :: "'k::linorder \<Rightarrow> 'v \<Rightarrow> ('k, 'v) omap \<Rightarrow> ('k, 'v) omap" where
  "set_insert k v m = (if map_of m k = None then map_put k v m else m)"

text \<open>The rows of the database that this part of the program reads and writes, by key.\<close>

record CAssetsDB =
  asset_rows :: "(string, CDatabasedAssetData) omap"
  quantity_rows :: "(string \<times> string, CAmount) omap"
  address_rows :: "(string \<times> string, CAmount) omap"

record AssetGlobals =
  passets :: CAssetsCache
  passetsCache :: "(string, CDatabasedAssetData) CLRUCache"
  passetsdb :: CAssetsDB
  fReindex :: bool
  fAssetIndex :: bool

section \<open>Looking assets up\<close>

definition CheckIfAssetExists :: "CAssetsCache \<Rightarrow> string \<Rightarrow> bool \<Rightarrow> AssetGlobals \<Rightarrow> bool \<times> AssetGlobals" where
  "CheckIfAssetExists c name fForceDuplicateCheck G =
     (if fReindex G then (True, G)
      else if map_of (setNewAssetsToRemove c) name \<noteq> None then (False, G)
      else if map_of (setNewAssetsToRemove (passets G)) name \<noteq> None then (False, G)
      else if map_of (setNewAssetsToAdd c) name \<noteq> None \<and> fForceDuplicateCheck then (True, G)
      else if map_of (setNewAssetsToAdd (passets G)) name \<noteq> None \<and> fForceDuplicateCheck then (True, G)
      else if lru_Exists name (passetsCache G) then (fForceDuplicateCheck, G)
      else case map_of (asset_rows (passetsdb G)) name of None \<Rightarrow> (False, G)
           | Some row \<Rightarrow>
               (fForceDuplicateCheck, G\<lparr>passetsCache := lru_Put (strName (d_asset row)) row (passetsCache G)\<rparr>))"

text \<open>
  The height and block hash are not written when the asset is found among the reissued ones: \<open>None\<close> in the
  second component.
\<close>

definition GetAssetMetaDataIfExists ::
  "CAssetsCache \<Rightarrow> string \<Rightarrow> AssetGlobals \<Rightarrow> (CNewAsset \<times> (int \<times> uint256) option) option \<times> AssetGlobals" where
  "GetAssetMetaDataIfExists c name G =
     (case map_of (mapReissuedAssetData c) name of Some asset \<Rightarrow> (Some (asset, None), G)
      | None \<Rightarrow> case map_of (mapReissuedAssetData (passets G)) name of Some asset \<Rightarrow> (Some (asset, None), G)
      | None \<Rightarrow>
          if map_of (setNewAssetsToRemove c) name \<noteq> None then (None, G)
          else if map_of (setNewAssetsToRemove (passets G)) name \<noteq> None then (None, G)
          else case map_of (setNewAssetsToAdd c) name of
                 Some it \<Rightarrow> (Some (n_asset it, Some (n_blockHeight it, n_blockHash it)), G)
               | None \<Rightarrow> case map_of (setNewAssetsToAdd (passets G)) name of
                 Some it \<Rightarrow> (Some (n_asset it, Some (n_blockHeight it, n_blockHash it)), G)
               | None \<Rightarrow> case lru_Get name (passetsCache G) of
                 Some (data, l) \<Rightarrow> (Some (d_asset data, Some (d_nHeight data, d_blockHash data)), G\<lparr>passetsCache := l\<rparr>)
               | None \<Rightarrow> case map_of (asset_rows (passetsdb G)) name of
                 Some row \<Rightarrow> (Some (d_asset row, Some (d_nHeight row, d_blockHash row)),
                   G\<lparr>passetsCache := lru_Put (strName (d_asset row)) row (passetsCache G)\<rparr>)
               | None \<Rightarrow> (None, G))"

definition GetBestAssetAddressAmount :: "AssetGlobals \<Rightarrow> string \<Rightarrow> string \<Rightarrow> CAssetsCache \<Rightarrow> bool \<times> CAssetsCache" where
  "GetBestAssetAddressAmount G name address c =
     (if \<not> fAssetIndex G then (False, c)
      else if map_of (mapAssetsAddressAmount c) (name, address) \<noteq> None then (True, c)
      else case map_of (mapAssetsAddressAmount (passets G)) (name, address) of
             Some q \<Rightarrow> (True, c\<lparr>mapAssetsAddressAmount := map_put (name, address) q (mapAssetsAddressAmount c)\<rparr>)
           | None \<Rightarrow> case map_of (quantity_rows (passetsdb G)) (name, address) of
             Some q \<Rightarrow> (True, c\<lparr>mapAssetsAddressAmount := map_put (name, address) q (mapAssetsAddressAmount c)\<rparr>)
           | None \<Rightarrow> (False, c))"

section \<open>Balances by address\<close>

definition balance :: "CAssetsCache \<Rightarrow> string \<Rightarrow> string \<Rightarrow> CAmount" where
  "balance c name address = (case map_of (mapAssetsAddressAmount c) (name, address) of None \<Rightarrow> 0 | Some q \<Rightarrow> q)"

definition set_balance :: "string \<Rightarrow> string \<Rightarrow> CAmount \<Rightarrow> CAssetsCache \<Rightarrow> CAssetsCache" where
  "set_balance name address q c = c\<lparr>mapAssetsAddressAmount := map_put (name, address) q (mapAssetsAddressAmount c)\<rparr>"

text \<open>\<^verbatim>\<open>GetBestAssetAddressAmount\<close>, then an entry 0 if there is none, then the amount is added.\<close>

definition add_balance :: "AssetGlobals \<Rightarrow> string \<Rightarrow> string \<Rightarrow> CAmount \<Rightarrow> CAssetsCache \<Rightarrow> CAssetsCache" where
  "add_balance G name address q c =
     (let c = snd (GetBestAssetAddressAmount G name address c) in set_balance name address (balance c name address + q) c)"

definition AddToAssetBalance :: "AssetGlobals \<Rightarrow> string \<Rightarrow> string \<Rightarrow> CAmount \<Rightarrow> CAssetsCache \<Rightarrow> CAssetsCache" where
  "AddToAssetBalance G name address q c =
     (if \<not> fAssetIndex G then c
      else if IsAssetNameAnOwner name then
        set_balance name address OWNER_ASSET_AMOUNT (snd (GetBestAssetAddressAmount G name address c))
      else add_balance G name address q c)"

section \<open>The asset in an output\<close>

definition asset_in_script :: "base58_prefixes \<Rightarrow> CScript \<Rightarrow> (string \<times> string \<times> CAmount) option" where
  "asset_in_script P s =
     (case IsAssetScript s of None \<Rightarrow> None
      | Some (TX_NEW_ASSET, False, i) \<Rightarrow>
          map_option (\<lambda>(asset, address). (strName asset, the_address address, nAmount asset)) (AssetFromScript P s)
      | Some (TX_NEW_ASSET, True, i) \<Rightarrow>
          map_option (\<lambda>(name, address). (name, the_address address, OWNER_ASSET_AMOUNT)) (OwnerAssetFromScript P s)
      | Some (TX_TRANSFER_ASSET, own, i) \<Rightarrow>
          map_option (\<lambda>(t, address). (t_strName t, the_address address, t_nAmount t)) (TransferAssetFromScript P s)
      | Some (TX_REISSUE_ASSET, own, i) \<Rightarrow>
          map_option (\<lambda>(r, address). (r_strName r, the_address address, r_nAmount r)) (ReissueAssetFromScript P s))"

definition TrySpendCoin :: "base58_prefixes \<Rightarrow> AssetGlobals \<Rightarrow> CTxOut \<Rightarrow> CAssetsCache \<Rightarrow> bool \<times> CAssetsCache" where
  "TrySpendCoin P G txOut c =
     (if IsAssetScript (scriptPubKey txOut) = None then (True, c)
      else case asset_in_script P (scriptPubKey txOut) of None \<Rightarrow> (False, c)
      | Some (assetName, address, amount) \<Rightarrow>
          if address = [] \<or> assetName = [] then (False, c)
          else if fAssetIndex G \<and> 0 < amount then
            (case GetBestAssetAddressAmount G assetName address c of (False, c) \<Rightarrow> (True, c)
             | (True, c) \<Rightarrow>
                 let left = balance c assetName address - amount;
                     spend = \<lparr>sp_assetName = assetName, sp_address = address, sp_nAmount = amount\<rparr>
                 in (True, set_balance assetName address (if left < 0 then 0 else left)
                       (c\<lparr>vSpentAssets := vSpentAssets c @ [spend]\<rparr>)))
          else (True, c))"

definition AddBackSpentAsset :: "AssetGlobals \<Rightarrow> string \<Rightarrow> string \<Rightarrow> CAmount \<Rightarrow> CAssetsCache \<Rightarrow> CAssetsCache" where
  "AddBackSpentAsset G assetName address amount c =
     (let c = (if fAssetIndex G then add_balance G assetName address amount c else c)
      in c\<lparr>vUndoAssetAmount := vUndoAssetAmount c @
             [\<lparr>sp_assetName = assetName, sp_address = address, sp_nAmount = amount\<rparr>]\<rparr>)"

definition UndoAssetCoin :: "base58_prefixes \<Rightarrow> AssetGlobals \<Rightarrow> Coin \<Rightarrow> CAssetsCache \<Rightarrow> bool \<times> CAssetsCache" where
  "UndoAssetCoin P G coin c =
     (case asset_in_script P (scriptPubKey (coin_out coin)) of None \<Rightarrow> (False, c)
      | Some (assetName, address, amount) \<Rightarrow>
          if assetName = [] \<or> address = [] \<or> amount = 0 then (False, c)
          else (True, AddBackSpentAsset G assetName address amount c))"

section \<open>Transfers\<close>

definition AddTransferAsset ::
  "AssetGlobals \<Rightarrow> CAssetTransfer \<Rightarrow> string \<Rightarrow> COutPoint \<Rightarrow> CAssetsCache \<Rightarrow> CAssetsCache" where
  "AddTransferAsset G transfer address out c =
     (let c = AddToAssetBalance G (t_strName transfer) address (t_nAmount transfer) c;
          newTransfer = \<lparr>ct_transfer = transfer, ct_address = address, ct_out = out\<rparr>
      in c\<lparr>setNewTransferAssetsToRemove := map_del (key_of out) (setNewTransferAssetsToRemove c),
           setNewTransferAssetsToAdd := set_insert (key_of out) newTransfer (setNewTransferAssetsToAdd c)\<rparr>)"

definition UndoTransfer :: "AssetGlobals \<Rightarrow> CAssetTransfer \<Rightarrow> string \<Rightarrow> CAssetsCache \<Rightarrow> bool \<times> CAssetsCache" where
  "UndoTransfer G transfer address c =
     (if \<not> fAssetIndex G then (True, c)
      else case GetBestAssetAddressAmount G (t_strName transfer) address c of (False, c) \<Rightarrow> (False, c)
           | (True, c) \<Rightarrow>
               if balance c (t_strName transfer) address < t_nAmount transfer then (False, c)
               else (True, set_balance (t_strName transfer) address
                       (balance c (t_strName transfer) address - t_nAmount transfer) c))"

definition RemoveTransfer ::
  "AssetGlobals \<Rightarrow> CAssetTransfer \<Rightarrow> string \<Rightarrow> COutPoint \<Rightarrow> CAssetsCache \<Rightarrow> bool \<times> CAssetsCache" where
  "RemoveTransfer G transfer address out c =
     (case UndoTransfer G transfer address c of (False, c) \<Rightarrow> (False, c)
      | (True, c) \<Rightarrow>
          let newTransfer = \<lparr>ct_transfer = transfer, ct_address = address, ct_out = out\<rparr>
          in (True, c\<lparr>setNewTransferAssetsToAdd := map_del (key_of out) (setNewTransferAssetsToAdd c),
                 setNewTransferAssetsToRemove := set_insert (key_of out) newTransfer (setNewTransferAssetsToRemove c)\<rparr>))"

section \<open>Issues\<close>

definition AddNewAsset ::
  "CNewAsset \<Rightarrow> string \<Rightarrow> int \<Rightarrow> uint256 \<Rightarrow> CAssetsCache \<Rightarrow> AssetGlobals \<Rightarrow> bool \<times> CAssetsCache \<times> AssetGlobals" where
  "AddNewAsset asset address height blockHash c G =
     (case CheckIfAssetExists c (strName asset) True G of (True, G) \<Rightarrow> (False, c, G)
      | (False, G) \<Rightarrow>
          let newAsset = \<lparr>n_asset = asset, n_address = address, n_blockHash = blockHash, n_blockHeight = height\<rparr>;
              c = c\<lparr>setNewAssetsToRemove := map_del (strName asset) (setNewAssetsToRemove c),
                    setNewAssetsToAdd := set_insert (strName asset) newAsset (setNewAssetsToAdd c)\<rparr>
          in (True, if fAssetIndex G then set_balance (strName asset) address (nAmount asset) c else c, G))"

definition RemoveNewAsset ::
  "CNewAsset \<Rightarrow> string \<Rightarrow> CAssetsCache \<Rightarrow> AssetGlobals \<Rightarrow> bool \<times> CAssetsCache \<times> AssetGlobals" where
  "RemoveNewAsset asset address c G =
     (case CheckIfAssetExists c (strName asset) True G of (False, G) \<Rightarrow> (False, c, G)
      | (True, G) \<Rightarrow>
          let newAsset = \<lparr>n_asset = asset, n_address = address, n_blockHash = uint256_null, n_blockHeight = 0\<rparr>;
              c = c\<lparr>setNewAssetsToAdd := map_del (strName asset) (setNewAssetsToAdd c),
                    setNewAssetsToRemove := set_insert (strName asset) newAsset (setNewAssetsToRemove c)\<rparr>
          in (True, if fAssetIndex G then set_balance (strName asset) address 0 c else c, G))"

definition AddOwnerAsset :: "AssetGlobals \<Rightarrow> string \<Rightarrow> string \<Rightarrow> CAssetsCache \<Rightarrow> CAssetsCache" where
  "AddOwnerAsset G name address c =
     (let newOwner = \<lparr>o_assetName = name, o_address = address\<rparr>;
          c = c\<lparr>setNewOwnerAssetsToRemove := map_del name (setNewOwnerAssetsToRemove c),
                setNewOwnerAssetsToAdd := set_insert name newOwner (setNewOwnerAssetsToAdd c)\<rparr>
      in if fAssetIndex G then set_balance name address OWNER_ASSET_AMOUNT c else c)"

definition RemoveOwnerAsset :: "AssetGlobals \<Rightarrow> string \<Rightarrow> string \<Rightarrow> CAssetsCache \<Rightarrow> CAssetsCache" where
  "RemoveOwnerAsset G name address c =
     (let newOwner = \<lparr>o_assetName = name, o_address = address\<rparr>;
          c = c\<lparr>setNewOwnerAssetsToAdd := map_del name (setNewOwnerAssetsToAdd c),
                setNewOwnerAssetsToRemove := set_insert name newOwner (setNewOwnerAssetsToRemove c)\<rparr>
      in if fAssetIndex G then set_balance name address 0 c else c)"

section \<open>Reissues\<close>

definition reissued :: "CReissueAsset \<Rightarrow> CNewAsset \<Rightarrow> CNewAsset" where
  "reissued reissue asset =
     (let asset = asset\<lparr>nAmount := nAmount asset + r_nAmount reissue, nReissuable := r_nReissuable reissue\<rparr>;
          asset = (if r_nUnits reissue \<noteq> -1 then asset\<lparr>units := r_nUnits reissue\<rparr> else asset)
      in if r_strIPFSHash reissue \<noteq> [] then asset\<lparr>nHasIPFS := 1, strIPFSHash := r_strIPFSHash reissue\<rparr> else asset)"

text \<open>
  \<open>u\<close> stands for the height variable of \<^verbatim>\<open>AddReissueAsset\<close> and \<^verbatim>\<open>RemoveReissueAsset\<close>, which the lookup leaves
  as it was when the asset has been reissued already. If the cache has data of the asset the lookup returns
  them, so replacing the entry is the update in place of the source.
\<close>

definition reissue_entry ::
  "int \<Rightarrow> CReissueAsset \<Rightarrow> string \<Rightarrow> COutPoint \<Rightarrow> (int \<times> uint256) option \<Rightarrow> CAssetCacheReissueAsset" where
  "reissue_entry u reissue address out origin =
     (let (height, hash) = (case origin of None \<Rightarrow> (u, uint256_null) | Some p \<Rightarrow> p)
      in \<lparr>ri_reissue = reissue, ri_address = address, ri_out = out, ri_blockHash = hash, ri_blockHeight = height\<rparr>)"

definition AddReissueAsset ::
  "int \<Rightarrow> CReissueAsset \<Rightarrow> string \<Rightarrow> COutPoint \<Rightarrow> CAssetsCache \<Rightarrow> AssetGlobals \<Rightarrow> bool \<times> CAssetsCache \<times> AssetGlobals" where
  "AddReissueAsset u reissue address out c G =
     (case GetAssetMetaDataIfExists c (r_strName reissue) G of (None, G) \<Rightarrow> (False, c, G)
      | (Some (asset, origin), G) \<Rightarrow>
          let c = c\<lparr>mapReissuedAssetData := map_put (r_strName reissue) (reissued reissue asset) (mapReissuedAssetData c)\<rparr>;
              c = c\<lparr>setNewReissueToRemove := map_del (key_of out) (setNewReissueToRemove c),
                    setNewReissueToAdd := set_insert (key_of out) (reissue_entry u reissue address out origin) (setNewReissueToAdd c)\<rparr>
          in (True, if fAssetIndex G then add_balance G (r_strName reissue) address (r_nAmount reissue) c else c, G))"

definition undo_reissue :: "(string \<times> CBlockAssetUndo) list \<Rightarrow> CReissueAsset \<Rightarrow> CNewAsset \<Rightarrow> CNewAsset" where
  "undo_reissue vUndoIPFS reissue asset =
     (let asset = asset\<lparr>nAmount := nAmount asset - r_nAmount reissue, nReissuable := 1\<rparr>
      in case map_of vUndoIPFS (r_strName reissue) of None \<Rightarrow> asset
         | Some u \<Rightarrow>
             let asset = (if fChangedIPFS u then asset\<lparr>strIPFSHash := u_strIPFS u\<rparr> else asset);
                 asset = (if fChangedUnits u then asset\<lparr>units := u_nUnits u\<rparr> else asset)
             in if strIPFSHash asset = [] then asset\<lparr>nHasIPFS := 0\<rparr> else asset)"

definition RemoveReissueAsset ::
  "int \<Rightarrow> CReissueAsset \<Rightarrow> string \<Rightarrow> COutPoint \<Rightarrow> (string \<times> CBlockAssetUndo) list \<Rightarrow> CAssetsCache \<Rightarrow> AssetGlobals \<Rightarrow>
   bool \<times> CAssetsCache \<times> AssetGlobals" where
  "RemoveReissueAsset u reissue address out vUndoIPFS c G =
     (case GetAssetMetaDataIfExists c (r_strName reissue) G of (None, G) \<Rightarrow> (False, c, G)
      | (Some (asset, origin), G) \<Rightarrow>
          let asset = undo_reissue vUndoIPFS reissue asset;
              c = c\<lparr>mapReissuedAssetData := map_put (strName asset) asset (mapReissuedAssetData c),
                    setNewReissueToAdd := map_del (key_of out) (setNewReissueToAdd c),
                    setNewReissueToRemove := set_insert (key_of out) (reissue_entry u reissue address out origin) (setNewReissueToRemove c)\<rparr>
          in if \<not> fAssetIndex G then (True, c, G)
             else case GetBestAssetAddressAmount G (r_strName reissue) address c of (found, c) \<Rightarrow>
                    if \<not> found \<and> r_nAmount reissue \<noteq> 0 then (False, c, G)
                    else
                      let left = balance c (r_strName reissue) address - r_nAmount reissue
                      in (\<not> left < 0, set_balance (r_strName reissue) address left c, G))"

section \<open>From the block to \<^verbatim>\<open>passets\<close>\<close>

text \<open>Each item is erased from one set of \<^verbatim>\<open>passets\<close> and inserted into the other.\<close>

fun flush_into :: "('k::linorder, 'v) omap \<Rightarrow> ('k, 'v) omap \<Rightarrow> ('k, 'v) omap \<Rightarrow> ('k, 'v) omap \<times> ('k, 'v) omap" where
  "flush_into [] to other = (to, other)"
| "flush_into ((k, v) # items) to other = flush_into items (set_insert k v to) (map_del k other)"

definition put_all :: "('k::linorder, 'v) omap \<Rightarrow> ('k, 'v) omap \<Rightarrow> ('k, 'v) omap" where
  "put_all items m = fold (\<lambda>(k, v). map_put k v) items m"

text \<open>Both loops over a pair of sets: first what was added, then what was removed.\<close>

definition flush_pair ::
  "('k::linorder, 'v) omap \<Rightarrow> ('k, 'v) omap \<Rightarrow> ('k, 'v) omap \<Rightarrow> ('k, 'v) omap \<Rightarrow> ('k, 'v) omap \<times> ('k, 'v) omap" where
  "flush_pair added removed to_add to_remove =
     (let (to_add, to_remove) = flush_into added to_add to_remove;
          (to_remove, to_add) = flush_into removed to_remove to_add
      in (to_add, to_remove))"

definition Assets_Flush :: "CAssetsCache \<Rightarrow> AssetGlobals \<Rightarrow> AssetGlobals" where
  "Assets_Flush c G =
     (let p = passets G;
          (assets_add, assets_remove) =
            flush_pair (setNewAssetsToAdd c) (setNewAssetsToRemove c) (setNewAssetsToAdd p) (setNewAssetsToRemove p);
          (owners_add, owners_remove) = flush_pair (setNewOwnerAssetsToAdd c) (setNewOwnerAssetsToRemove c)
            (setNewOwnerAssetsToAdd p) (setNewOwnerAssetsToRemove p);
          (reissue_add, reissue_remove) =
            flush_pair (setNewReissueToAdd c) (setNewReissueToRemove c) (setNewReissueToAdd p) (setNewReissueToRemove p);
          (transfer_add, transfer_remove) = flush_pair (setNewTransferAssetsToAdd c) (setNewTransferAssetsToRemove c)
            (setNewTransferAssetsToAdd p) (setNewTransferAssetsToRemove p)
      in G\<lparr>passets := \<lparr>
           mapAssetsAddressAmount = put_all (mapAssetsAddressAmount c) (mapAssetsAddressAmount p),
           mapReissuedAssetData = put_all (mapReissuedAssetData c) (mapReissuedAssetData p),
           vSpentAssets = vSpentAssets p @ vSpentAssets c,
           vUndoAssetAmount = vUndoAssetAmount p @ vUndoAssetAmount c,
           setNewTransferAssetsToAdd = transfer_add, setNewTransferAssetsToRemove = transfer_remove,
           setNewAssetsToRemove = assets_remove, setNewAssetsToAdd = assets_add,
           setNewReissueToRemove = reissue_remove, setNewReissueToAdd = reissue_add,
           setNewOwnerAssetsToAdd = owners_add, setNewOwnerAssetsToRemove = owners_remove\<rparr>\<rparr>)"

section \<open>From \<^verbatim>\<open>passets\<close> to disk\<close>

text \<open>
  The database throws when it cannot write, which ends the program; a write that returns has been made.
  The quantities are kept twice, by asset and by address.
\<close>

definition WriteAssetData :: "CNewAsset \<Rightarrow> int \<Rightarrow> uint256 \<Rightarrow> CAssetsDB \<Rightarrow> CAssetsDB" where
  "WriteAssetData asset height blockHash db =
     db\<lparr>asset_rows := map_put (strName asset) \<lparr>d_asset = asset, d_nHeight = height, d_blockHash = blockHash\<rparr> (asset_rows db)\<rparr>"

definition EraseAssetData :: "string \<Rightarrow> CAssetsDB \<Rightarrow> CAssetsDB" where
  "EraseAssetData name db = db\<lparr>asset_rows := map_del name (asset_rows db)\<rparr>"

definition write_quantity :: "string \<Rightarrow> string \<Rightarrow> CAmount \<Rightarrow> CAssetsDB \<Rightarrow> CAssetsDB" where
  "write_quantity name address q db =
     db\<lparr>quantity_rows := map_put (name, address) q (quantity_rows db),
        address_rows := map_put (address, name) q (address_rows db)\<rparr>"

definition erase_quantity :: "string \<Rightarrow> string \<Rightarrow> CAssetsDB \<Rightarrow> CAssetsDB" where
  "erase_quantity name address db =
     db\<lparr>quantity_rows := map_del (name, address) (quantity_rows db), address_rows := map_del (address, name) (address_rows db)\<rparr>"

definition if_index :: "(CAssetsDB \<Rightarrow> CAssetsDB) \<Rightarrow> AssetGlobals \<Rightarrow> AssetGlobals" where
  "if_index f G = (if fAssetIndex G then G\<lparr>passetsdb := f (passetsdb G)\<rparr> else G)"

text \<open>A quantity is written when the cache has it: always, only when positive, or erased when it is zero.\<close>

definition store_quantity :: "CAssetsCache \<Rightarrow> string \<Rightarrow> string \<Rightarrow> CAssetsDB \<Rightarrow> CAssetsDB" where
  "store_quantity c name address db =
     (case map_of (mapAssetsAddressAmount c) (name, address) of None \<Rightarrow> db | Some q \<Rightarrow> write_quantity name address q db)"

definition store_positive :: "CAssetsCache \<Rightarrow> string \<Rightarrow> string \<Rightarrow> CAssetsDB \<Rightarrow> CAssetsDB" where
  "store_positive c name address db =
     (case map_of (mapAssetsAddressAmount c) (name, address) of None \<Rightarrow> db
      | Some q \<Rightarrow> if 0 < q then write_quantity name address q db else db)"

definition store_or_erase :: "CAssetsCache \<Rightarrow> string \<Rightarrow> string \<Rightarrow> CAssetsDB \<Rightarrow> CAssetsDB" where
  "store_or_erase c name address db =
     (case map_of (mapAssetsAddressAmount c) (name, address) of None \<Rightarrow> db
      | Some q \<Rightarrow> if q = 0 then erase_quantity name address db else write_quantity name address q db)"

definition dump_removed :: "string \<times> CAssetCacheNewAsset \<Rightarrow> AssetGlobals \<Rightarrow> AssetGlobals" where
  "dump_removed item G =
     (let name = strName (n_asset (snd item));
          G = G\<lparr>passetsCache := lru_Erase name (passetsCache G), passetsdb := EraseAssetData name (passetsdb G)\<rparr>
      in if_index (erase_quantity name (n_address (snd item))) G)"

definition dump_added :: "string \<times> CAssetCacheNewAsset \<Rightarrow> AssetGlobals \<Rightarrow> AssetGlobals" where
  "dump_added item G =
     (let na = snd item; asset = n_asset na;
          data = \<lparr>d_asset = asset, d_nHeight = n_blockHeight na, d_blockHash = n_blockHash na\<rparr>;
          G = G\<lparr>passetsCache := lru_Put (strName asset) data (passetsCache G),
                passetsdb := WriteAssetData asset (n_blockHeight na) (n_blockHash na) (passetsdb G)\<rparr>
      in if_index (write_quantity (strName asset) (n_address na) (nAmount asset)) G)"

definition dump_reissue :: "CAssetsCache \<Rightarrow> out_key \<times> CAssetCacheReissueAsset \<Rightarrow> AssetGlobals \<Rightarrow> AssetGlobals" where
  "dump_reissue c item G =
     (let ri = snd item; name = r_strName (ri_reissue ri)
      in case map_of (mapReissuedAssetData c) name of None \<Rightarrow> G
         | Some asset \<Rightarrow>
             let G = G\<lparr>passetsdb := WriteAssetData asset (ri_blockHeight ri) (ri_blockHash ri) (passetsdb G),
                       passetsCache := lru_Erase name (passetsCache G)\<rparr>
             in if_index (store_positive c name (ri_address ri)) G)"

definition dump_reissue_undo :: "CAssetsCache \<Rightarrow> out_key \<times> CAssetCacheReissueAsset \<Rightarrow> AssetGlobals \<Rightarrow> AssetGlobals" where
  "dump_reissue_undo c item G =
     (let ri = snd item; name = r_strName (ri_reissue ri)
      in if map_of (setNewAssetsToRemove c) name \<noteq> None then G
         else case map_of (mapReissuedAssetData c) name of None \<Rightarrow> G
         | Some asset \<Rightarrow>
             let G = G\<lparr>passetsdb := WriteAssetData asset (ri_blockHeight ri) (ri_blockHash ri) (passetsdb G)\<rparr>;
                 G = if_index (store_or_erase c name (ri_address ri)) G
             in G\<lparr>passetsCache := lru_Erase name (passetsCache G)\<rparr>)"

definition dump_owners_and_transfers :: "CAssetsCache \<Rightarrow> CAssetsDB \<Rightarrow> CAssetsDB" where
  "dump_owners_and_transfers c db =
     (let db = fold (\<lambda>(k, ow). erase_quantity (o_assetName ow) (o_address ow)) (setNewOwnerAssetsToRemove c) db;
          db = fold (\<lambda>(k, ow). store_positive c (o_assetName ow) (o_address ow)) (setNewOwnerAssetsToAdd c) db;
          db = fold (\<lambda>(k, t). store_or_erase c (t_strName (ct_transfer t)) (ct_address t)) (setNewTransferAssetsToRemove c) db
      in fold (\<lambda>(k, t). store_quantity c (t_strName (ct_transfer t)) (ct_address t)) (setNewTransferAssetsToAdd c) db)"

definition dump_spends :: "CAssetsCache \<Rightarrow> CAssetsDB \<Rightarrow> CAssetsDB" where
  "dump_spends c db =
     (let db = fold (\<lambda>s. store_quantity c (sp_assetName s) (sp_address s)) (vUndoAssetAmount c) db
      in fold (\<lambda>s. store_or_erase c (sp_assetName s) (sp_address s)) (vSpentAssets c) db)"

definition DumpCacheToDatabase :: "CAssetsCache \<Rightarrow> AssetGlobals \<Rightarrow> CAssetsCache \<times> AssetGlobals" where
  "DumpCacheToDatabase c G =
     (let G = fold dump_removed (setNewAssetsToRemove c) G;
          G = fold dump_added (setNewAssetsToAdd c) G;
          G = if_index (dump_owners_and_transfers c) G;
          G = fold (dump_reissue c) (setNewReissueToAdd c) G;
          G = fold (dump_reissue_undo c) (setNewReissueToRemove c) G;
          G = if_index (dump_spends c) G
      in (CAssetsCache_empty, G))"

text \<open>\<^verbatim>\<open>passets->DumpCacheToDatabase()\<close>.\<close>

definition dump_passets :: "AssetGlobals \<Rightarrow> AssetGlobals" where
  "dump_passets G = (case DumpCacheToDatabase (passets G) G of (c, G) \<Rightarrow> G\<lparr>passets := c\<rparr>)"

end
