(* ===== verification/XC_AssetsView.thy ===== *)
theory XC_AssetsView
  imports XC_AssetsCache
begin

text \<open>
  What the asset caches say about a name, as one function of the name, and that moving the data down the
  layers keeps it: from the cache of a block to \<^verbatim>\<open>passets\<close>, from there to the database. The conditions under
  which that holds are the invariant \<open>assets_ok\<close>; the operations keep it.
\<close>

section \<open>The layers\<close>

lemma map_of_butlast: "map_of (butlast l) k = Some v \<Longrightarrow> map_of l k = Some v"
  by (induction l) (auto split: if_splits)

lemma map_leI: "(\<And>a y. f a = Some y \<Longrightarrow> g a = Some y) \<Longrightarrow> f \<subseteq>\<^sub>m g"
  by (auto simp: map_le_def)

lemma lru_Put_le: "map_of (cacheItemsList (lru_Put k v c)) \<subseteq>\<^sub>m (map_of (cacheItemsList c))(k \<mapsto> v)"
proof (rule map_leI)
  fix a y assume "map_of (cacheItemsList (lru_Put k v c)) a = Some y"
  then have "map_of ((k, v) # map_del k (cacheItemsList c)) a = Some y"
    unfolding lru_Put_def Let_def by (auto simp del: map_of.simps butlast.simps dest!: map_of_butlast split: if_splits)
  then show "((map_of (cacheItemsList c))(k \<mapsto> v)) a = Some y"
    by (auto simp: map_of_del split: if_splits)
qed

lemma lru_Erase_map: "map_of (cacheItemsList (lru_Erase k c)) = (map_of (cacheItemsList c))(k := None)"
  by (auto simp: lru_Erase_def map_of_del)

lemma lru_Get_map: "lru_Get k c = Some (v, c') \<Longrightarrow>
    map_of (cacheItemsList c) k = Some v \<and> map_of (cacheItemsList c') = map_of (cacheItemsList c)"
  by (auto simp: lru_Get_def map_of_del split: option.splits)

lemma lru_Get_None: "lru_Get k c = None \<longleftrightarrow> map_of (cacheItemsList c) k = None"
  by (simp add: lru_Get_def split: option.splits)

text \<open>The data of the rows, and that the cache in front of the database only holds rows.\<close>

definition rows :: "AssetGlobals \<Rightarrow> string \<Rightarrow> CNewAsset option" where
  "rows G name = map_option d_asset (map_of (asset_rows (passetsdb G)) name)"

definition rows_ok :: "AssetGlobals \<Rightarrow> bool" where
  "rows_ok G \<longleftrightarrow> map_of (cacheItemsList (passetsCache G)) \<subseteq>\<^sub>m map_of (asset_rows (passetsdb G)) \<and>
     (\<forall>name row. map_of (asset_rows (passetsdb G)) name = Some row \<longrightarrow> strName (d_asset row) = name)"

text \<open>What \<^verbatim>\<open>GetAssetMetaDataIfExists\<close> finds through a cache.\<close>

definition asset_view :: "CAssetsCache \<Rightarrow> AssetGlobals \<Rightarrow> string \<Rightarrow> CNewAsset option" where
  "asset_view c G name = map_option fst (fst (GetAssetMetaDataIfExists c name G))"

lemma rows_lru: "rows_ok G \<Longrightarrow> map_of (cacheItemsList (passetsCache G)) name = Some row \<Longrightarrow> rows G name = Some (d_asset row)"
  unfolding rows_ok_def rows_def map_le_def by (metis domI option.simps(9))

lemma asset_view_layers:
  assumes "rows_ok G"
  shows "asset_view c G name =
    (case map_of (mapReissuedAssetData c) name of Some asset \<Rightarrow> Some asset
     | None \<Rightarrow> case map_of (mapReissuedAssetData (passets G)) name of Some asset \<Rightarrow> Some asset
     | None \<Rightarrow>
         if map_of (setNewAssetsToRemove c) name \<noteq> None \<or> map_of (setNewAssetsToRemove (passets G)) name \<noteq> None then None
         else case map_of (setNewAssetsToAdd c) name of Some it \<Rightarrow> Some (n_asset it)
              | None \<Rightarrow> case map_of (setNewAssetsToAdd (passets G)) name of Some it \<Rightarrow> Some (n_asset it)
              | None \<Rightarrow> rows G name)"
proof (cases "lru_Get name (passetsCache G)")
  case None
  then show ?thesis
    by (auto simp: asset_view_def GetAssetMetaDataIfExists_def rows_def split: option.split)
next
  case (Some p)
  then obtain row l where p: "lru_Get name (passetsCache G) = Some (row, l)" by (cases p) auto
  with rows_lru [OF assms] lru_Get_map [OF p] have "rows G name = Some (d_asset row)" by blast
  with p show ?thesis
    by (simp add: asset_view_def GetAssetMetaDataIfExists_def split: option.split)
qed

text \<open>Lookups move entries inside the least recently used cache and read rows into it, and change nothing else.\<close>

lemma rows_ok_Put:
  assumes "rows_ok G" "map_of (asset_rows (passetsdb G)) name = Some row"
  shows "rows_ok (G\<lparr>passetsCache := lru_Put (strName (d_asset row)) row (passetsCache G)\<rparr>)"
proof -
  have n: "strName (d_asset row) = name" using assms by (simp add: rows_ok_def)
  have "(map_of (cacheItemsList (passetsCache G)))(name \<mapsto> row) \<subseteq>\<^sub>m map_of (asset_rows (passetsdb G))"
    using assms by (auto simp: rows_ok_def map_le_def)
  with map_le_trans [OF lru_Put_le] assms(1) n show ?thesis by (simp add: rows_ok_def)
qed

lemma rows_ok_Get: "rows_ok G \<Longrightarrow> lru_Get name (passetsCache G) = Some (row, l) \<Longrightarrow> rows_ok (G\<lparr>passetsCache := l\<rparr>)"
  by (auto simp: rows_ok_def dest: lru_Get_map)

definition same_but_lru :: "AssetGlobals \<Rightarrow> AssetGlobals \<Rightarrow> bool" where
  "same_but_lru G G' \<longleftrightarrow> (\<exists>l. G' = G\<lparr>passetsCache := l\<rparr>)"

lemma same_but_lru_refl [simp]: "same_but_lru G G"
  unfolding same_but_lru_def by (metis AssetGlobals.surjective AssetGlobals.update_convs(2))

lemma same_but_lru_update [simp]: "same_but_lru G (G\<lparr>passetsCache := l\<rparr>)"
  by (auto simp: same_but_lru_def)

lemma same_but_lruD:
  assumes "same_but_lru G G'"
  shows "passets G' = passets G" "passetsdb G' = passetsdb G" "rows G' = rows G"
    "fReindex G' = fReindex G" "fAssetIndex G' = fAssetIndex G"
  using assms by (auto simp: same_but_lru_def rows_def fun_eq_iff)

lemma same_but_lru_view:
  "same_but_lru G G' \<Longrightarrow> rows_ok G \<Longrightarrow> rows_ok G' \<Longrightarrow> asset_view c G' name = asset_view c G name"
  by (simp only: asset_view_layers same_but_lruD)

lemma lookup_keeps:
  assumes "rows_ok G"
  shows "rows_ok (snd (GetAssetMetaDataIfExists c name G)) \<and> same_but_lru G (snd (GetAssetMetaDataIfExists c name G))"
  using assms rows_ok_Put [OF assms] rows_ok_Get [OF assms]
  by (auto simp: GetAssetMetaDataIfExists_def split: option.split)

lemma exists_keeps:
  assumes "rows_ok G"
  shows "rows_ok (snd (CheckIfAssetExists c name force G)) \<and> same_but_lru G (snd (CheckIfAssetExists c name force G))"
  using assms rows_ok_Put [OF assms]
  by (auto simp: CheckIfAssetExists_def split: option.split)

text \<open>The answer about existence.\<close>

definition asset_exists :: "CAssetsCache \<Rightarrow> AssetGlobals \<Rightarrow> string \<Rightarrow> bool" where
  "asset_exists c G name = fst (CheckIfAssetExists c name True G)"

lemma asset_exists_layers:
  assumes "rows_ok G"
  shows "asset_exists c G name \<longleftrightarrow> fReindex G \<or>
    map_of (setNewAssetsToRemove c) name = None \<and> map_of (setNewAssetsToRemove (passets G)) name = None \<and>
    (map_of (setNewAssetsToAdd c) name \<noteq> None \<or> map_of (setNewAssetsToAdd (passets G)) name \<noteq> None \<or> rows G name \<noteq> None)"
proof -
  have "rows G name \<noteq> None" if "lru_Exists name (passetsCache G)"
    using that rows_lru [OF assms] by (auto simp: lru_Exists_def)
  then show ?thesis
    by (auto simp: asset_exists_def CheckIfAssetExists_def rows_def split: option.split)
qed

section \<open>The invariant\<close>

definition reissues_at :: "CAssetsCache \<Rightarrow> out_key \<Rightarrow> CAssetCacheReissueAsset set" where
  "reissues_at c k = set_option (map_of (setNewReissueToAdd c) k) \<union> set_option (map_of (setNewReissueToRemove c) k)"

definition reissue_name :: "CAssetCacheReissueAsset \<Rightarrow> string" where
  "reissue_name e = r_strName (ri_reissue e)"

definition apart :: "('k, 'v) omap \<Rightarrow> ('k, 'w) omap \<Rightarrow> bool" where
  "apart m m' \<longleftrightarrow> (\<forall>k. map_of m k = None \<or> map_of m' k = None)"

text \<open>
  Elements lie under what they are compared by, no asset is both added and removed, and the data of a
  reissued asset belong to an asset that is not removed and that a reissue is recorded for.
\<close>

definition cache_wf :: "CAssetsCache \<Rightarrow> bool" where
  "cache_wf c \<longleftrightarrow>
     map_ok (setNewAssetsToAdd c) \<and> map_ok (setNewAssetsToRemove c) \<and> map_ok (mapReissuedAssetData c) \<and>
     (\<forall>n e. map_of (setNewAssetsToAdd c) n = Some e \<longrightarrow> strName (n_asset e) = n) \<and>
     (\<forall>n e. map_of (setNewAssetsToRemove c) n = Some e \<longrightarrow> strName (n_asset e) = n) \<and>
     (\<forall>n a. map_of (mapReissuedAssetData c) n = Some a \<longrightarrow> strName a = n) \<and>
     apart (setNewAssetsToAdd c) (setNewAssetsToRemove c) \<and>
     apart (mapReissuedAssetData c) (setNewAssetsToRemove c) \<and>
     (\<forall>n \<in> dom (map_of (mapReissuedAssetData c)). \<exists>k. \<exists>e \<in> reissues_at c k. reissue_name e = n)"

text \<open>
  The cache of a block over \<^verbatim>\<open>passets\<close>: a name is added only once and not while \<^verbatim>\<open>passets\<close> is to remove it,
  reissue data are not about assets the other cache removes, and an outpoint reissues one asset.
\<close>

definition assets_ok :: "CAssetsCache \<Rightarrow> AssetGlobals \<Rightarrow> bool" where
  "assets_ok c G \<longleftrightarrow> rows_ok G \<and> cache_wf c \<and> cache_wf (passets G) \<and>
     apart (setNewAssetsToAdd c) (setNewAssetsToAdd (passets G)) \<and>
     apart (setNewAssetsToAdd c) (setNewAssetsToRemove (passets G)) \<and>
     apart (mapReissuedAssetData c) (setNewAssetsToRemove (passets G)) \<and>
     apart (mapReissuedAssetData (passets G)) (setNewAssetsToRemove c) \<and>
     (\<exists>N. \<forall>k. \<forall>e \<in> reissues_at c k \<union> reissues_at (passets G) k. reissue_name e = N k)"

lemma cache_wf_empty [simp]: "cache_wf CAssetsCache_empty"
  by (simp add: cache_wf_def CAssetsCache_empty_def apart_def)

section \<open>Flushing\<close>

lemma map_of_set_insert: "map_of (set_insert k v m) = [k \<mapsto> v] ++ map_of m"
  by (auto simp: set_insert_def map_of_put map_add_def fun_eq_iff split: option.split)

lemma map_ok_set_insert: "map_ok m \<Longrightarrow> map_ok (set_insert k v m)"
  by (simp add: set_insert_def map_ok_put)

lemma flush_into_map:
  "map_of (fst (flush_into items to other)) = map_of items ++ map_of to"
  "map_of (snd (flush_into items to other)) = map_of other |` (- dom (map_of items))"
proof (induction items to other rule: flush_into.induct)
  case (2 k v items to other)
  {
    case 1
    with 2 show ?case
      by (auto simp: map_of_set_insert map_add_def fun_eq_iff split: option.split)
  next
    case 2
    with \<open>map_of (snd (flush_into items (set_insert k v to) (map_del k other))) = _\<close> show ?case
      by (auto simp: map_of_del restrict_map_def fun_eq_iff)
  }
qed (simp_all add: restrict_map_def)

lemma flush_into_ok: "map_ok to \<Longrightarrow> map_ok other \<Longrightarrow>
    map_ok (fst (flush_into items to other)) \<and> map_ok (snd (flush_into items to other))"
  by (induction items to other rule: flush_into.induct) (simp_all add: map_ok_set_insert map_ok_del)

lemma flush_pair_map:
  "map_of (fst (flush_pair a r to_add to_remove)) = (map_of a ++ map_of to_add) |` (- dom (map_of r))"
  "map_of (snd (flush_pair a r to_add to_remove)) = map_of r ++ (map_of to_remove |` (- dom (map_of a)))"
  by (simp_all add: flush_pair_def Let_def case_prod_beta flush_into_map)

lemma flush_pair_ok: "map_ok to_add \<Longrightarrow> map_ok to_remove \<Longrightarrow>
    map_ok (fst (flush_pair a r to_add to_remove)) \<and> map_ok (snd (flush_pair a r to_add to_remove))"
  by (simp add: flush_pair_def Let_def case_prod_beta flush_into_ok)

lemma map_of_put_all: "map_ok items \<Longrightarrow> map_of (put_all items m) = map_of m ++ map_of items"
  unfolding put_all_def
proof (induction items arbitrary: m)
  case (Cons p items)
  have "map_of items (fst p) = None"
    using Cons.prems by (force simp: map_ok_Cons map_of_eq_None_iff)
  with Cons show ?case
    by (cases p) (auto simp: map_ok_Cons map_of_put map_add_def fun_eq_iff split: option.split)
qed simp

lemma map_ok_put_all: "map_ok m \<Longrightarrow> map_ok (put_all items m)"
  unfolding put_all_def by (induction items arbitrary: m) (auto simp: map_ok_put)

lemma flush_fields:
  "passetsdb (Assets_Flush c G) = passetsdb G" "passetsCache (Assets_Flush c G) = passetsCache G"
  "mapReissuedAssetData (passets (Assets_Flush c G)) = put_all (mapReissuedAssetData c) (mapReissuedAssetData (passets G))"
  "setNewAssetsToAdd (passets (Assets_Flush c G)) =
     fst (flush_pair (setNewAssetsToAdd c) (setNewAssetsToRemove c) (setNewAssetsToAdd (passets G)) (setNewAssetsToRemove (passets G)))"
  "setNewAssetsToRemove (passets (Assets_Flush c G)) =
     snd (flush_pair (setNewAssetsToAdd c) (setNewAssetsToRemove c) (setNewAssetsToAdd (passets G)) (setNewAssetsToRemove (passets G)))"
  "setNewReissueToAdd (passets (Assets_Flush c G)) =
     fst (flush_pair (setNewReissueToAdd c) (setNewReissueToRemove c) (setNewReissueToAdd (passets G)) (setNewReissueToRemove (passets G)))"
  "setNewReissueToRemove (passets (Assets_Flush c G)) =
     snd (flush_pair (setNewReissueToAdd c) (setNewReissueToRemove c) (setNewReissueToAdd (passets G)) (setNewReissueToRemove (passets G)))"
  by (simp_all add: Assets_Flush_def Let_def case_prod_beta)

lemma flush_rows_ok: "rows_ok G \<Longrightarrow> rows_ok (Assets_Flush c G)" "rows (Assets_Flush c G) = rows G"
  by (simp_all add: rows_ok_def rows_def flush_fields fun_eq_iff)

lemma view_of_empty:
  assumes "rows_ok G"
  shows "asset_view CAssetsCache_empty G name =
    (case map_of (mapReissuedAssetData (passets G)) name of Some asset \<Rightarrow> Some asset
     | None \<Rightarrow> if map_of (setNewAssetsToRemove (passets G)) name \<noteq> None then None
         else case map_of (setNewAssetsToAdd (passets G)) name of Some it \<Rightarrow> Some (n_asset it) | None \<Rightarrow> rows G name)"
  by (simp add: asset_view_layers [OF assms] CAssetsCache_empty_def split: option.split) auto

text \<open>After the flush, an empty cache sees what the cache of the block saw.\<close>

lemma flush_keeps_view:
  assumes "assets_ok c G"
  shows "asset_view CAssetsCache_empty (Assets_Flush c G) name = asset_view c G name"
proof -
  have ok: "rows_ok G" "map_ok (mapReissuedAssetData c)" using assms by (auto simp: assets_ok_def cache_wf_def)
  have d: "map_of (setNewAssetsToAdd c) name = None \<or> map_of (setNewAssetsToRemove c) name = None"
      "map_of (setNewAssetsToAdd c) name = None \<or> map_of (setNewAssetsToAdd (passets G)) name = None"
      "map_of (setNewAssetsToAdd c) name = None \<or> map_of (setNewAssetsToRemove (passets G)) name = None"
    using assms by (simp_all add: assets_ok_def cache_wf_def apart_def)
  show ?thesis
    unfolding view_of_empty [OF flush_rows_ok(1) [OF ok(1)]] asset_view_layers [OF ok(1)]
      flush_fields flush_pair_map map_of_put_all [OF ok(2)] flush_rows_ok(2)
    using d by (auto simp: map_add_def restrict_map_def split: option.split)
qed

lemma flush_pair_keys:
  assumes "a k \<noteq> None \<or> r k \<noteq> None \<or> ta k \<noteq> None \<or> tr k \<noteq> None"
  shows "((a ++ ta) |` (- dom r)) k \<noteq> None \<or> (r ++ (tr |` (- dom a))) k \<noteq> None"
  using assms by (cases "r k"; cases "a k"; cases "ta k") (auto simp: map_add_def restrict_map_def split: option.split)

lemma reissues_at_nonempty:
  "reissues_at c k \<noteq> {} \<longleftrightarrow> map_of (setNewReissueToAdd c) k \<noteq> None \<or> map_of (setNewReissueToRemove c) k \<noteq> None"
  by (auto simp: reissues_at_def)

lemma flush_reissues_sub:
  "reissues_at (passets (Assets_Flush c G)) k \<subseteq> reissues_at c k \<union> reissues_at (passets G) k"
  unfolding reissues_at_def flush_fields flush_pair_map
  by (auto simp: map_add_def restrict_map_def split: option.splits if_splits)

lemma flush_reissues:
  assumes "assets_ok c G" "e \<in> reissues_at c k \<union> reissues_at (passets G) k"
  shows "\<exists>e' \<in> reissues_at (passets (Assets_Flush c G)) k. reissue_name e' = reissue_name e"
proof -
  let ?p = "passets (Assets_Flush c G)"
  obtain N where "\<forall>k. \<forall>e \<in> reissues_at c k \<union> reissues_at (passets G) k. reissue_name e = N k"
    using assms(1) unfolding assets_ok_def by blast
  then have N: "reissue_name e = N k" if "e \<in> reissues_at c k \<union> reissues_at (passets G) k" for e
    using that by blast
  have "map_of (setNewReissueToAdd c) k \<noteq> None \<or> map_of (setNewReissueToRemove c) k \<noteq> None \<or>
      map_of (setNewReissueToAdd (passets G)) k \<noteq> None \<or> map_of (setNewReissueToRemove (passets G)) k \<noteq> None"
    using assms(2) by (auto simp: reissues_at_def)
  then have "reissues_at ?p k \<noteq> {}"
    unfolding reissues_at_nonempty flush_fields flush_pair_map
    by (intro flush_pair_keys [where a = "map_of (setNewReissueToAdd c)" and r = "map_of (setNewReissueToRemove c)"
          and ta = "map_of (setNewReissueToAdd (passets G))" and tr = "map_of (setNewReissueToRemove (passets G))"])
  then obtain e' where e': "e' \<in> reissues_at ?p k" by blast
  then have "e' \<in> reissues_at c k \<union> reissues_at (passets G) k" using flush_reissues_sub by blast
  then have "reissue_name e' = reissue_name e" using N assms(2) by metis
  with e' show ?thesis by blast
qed

lemma flush_apart:
  assumes ok: "assets_ok c G"
  shows "((map_of (setNewAssetsToAdd c) ++ map_of (setNewAssetsToAdd (passets G))) |` (- dom (map_of (setNewAssetsToRemove c)))) k = None \<or>
      (map_of (setNewAssetsToRemove c) ++ (map_of (setNewAssetsToRemove (passets G)) |` (- dom (map_of (setNewAssetsToAdd c))))) k = None"
    "(map_of (mapReissuedAssetData (passets G)) ++ map_of (mapReissuedAssetData c)) k = None \<or>
      (map_of (setNewAssetsToRemove c) ++ (map_of (setNewAssetsToRemove (passets G)) |` (- dom (map_of (setNewAssetsToAdd c))))) k = None"
proof -
  have "apart (setNewAssetsToAdd (passets G)) (setNewAssetsToRemove (passets G))"
      "apart (mapReissuedAssetData (passets G)) (setNewAssetsToRemove (passets G))"
      "apart (mapReissuedAssetData c) (setNewAssetsToRemove c)"
      "apart (mapReissuedAssetData c) (setNewAssetsToRemove (passets G))"
      "apart (mapReissuedAssetData (passets G)) (setNewAssetsToRemove c)"
    using ok by (simp_all add: assets_ok_def cache_wf_def)
  note d = this [unfolded apart_def, THEN spec [of _ k]]
  show "((map_of (setNewAssetsToAdd c) ++ map_of (setNewAssetsToAdd (passets G))) |` (- dom (map_of (setNewAssetsToRemove c)))) k = None \<or>
      (map_of (setNewAssetsToRemove c) ++ (map_of (setNewAssetsToRemove (passets G)) |` (- dom (map_of (setNewAssetsToAdd c))))) k = None"
    using d(1) by (auto simp: map_add_def restrict_map_def split: option.split)
  show "(map_of (mapReissuedAssetData (passets G)) ++ map_of (mapReissuedAssetData c)) k = None \<or>
      (map_of (setNewAssetsToRemove c) ++ (map_of (setNewAssetsToRemove (passets G)) |` (- dom (map_of (setNewAssetsToAdd c))))) k = None"
  proof (cases "map_of (mapReissuedAssetData c) k = None \<and> map_of (mapReissuedAssetData (passets G)) k = None")
    case False
    then have "map_of (setNewAssetsToRemove c) k = None" "map_of (setNewAssetsToRemove (passets G)) k = None"
      using d(2-) by auto
    then show ?thesis by (simp add: map_add_def restrict_map_def)
  qed (simp add: map_add_def)
qed

lemma flush_wf:
  assumes ok: "assets_ok c G"
  shows "cache_wf (passets (Assets_Flush c G))"
proof -
  let ?p = "passets (Assets_Flush c G)"
  have wf: "cache_wf c" "cache_wf (passets G)" using ok by (auto simp: assets_ok_def)
  have m: "map_of (setNewAssetsToAdd ?p) =
        (map_of (setNewAssetsToAdd c) ++ map_of (setNewAssetsToAdd (passets G))) |` (- dom (map_of (setNewAssetsToRemove c)))"
      "map_of (setNewAssetsToRemove ?p) =
        map_of (setNewAssetsToRemove c) ++ (map_of (setNewAssetsToRemove (passets G)) |` (- dom (map_of (setNewAssetsToAdd c))))"
      "map_of (mapReissuedAssetData ?p) = map_of (mapReissuedAssetData (passets G)) ++ map_of (mapReissuedAssetData c)"
    using wf by (simp_all add: flush_fields flush_pair_map map_of_put_all cache_wf_def)
  have "apart (setNewAssetsToAdd ?p) (setNewAssetsToRemove ?p)"
    unfolding apart_def m by (rule allI, rule flush_apart(1) [OF ok])
  moreover have "apart (mapReissuedAssetData ?p) (setNewAssetsToRemove ?p)"
    unfolding apart_def m by (rule allI, rule flush_apart(2) [OF ok])
  moreover have "\<exists>k. \<exists>e \<in> reissues_at ?p k. reissue_name e = n" if "n \<in> dom (map_of (mapReissuedAssetData ?p))" for n
  proof -
    from that consider "n \<in> dom (map_of (mapReissuedAssetData c))" | "n \<in> dom (map_of (mapReissuedAssetData (passets G)))"
      unfolding m by auto
    then obtain k e where "e \<in> reissues_at c k \<union> reissues_at (passets G) k" "reissue_name e = n"
      by cases (use wf in \<open>unfold cache_wf_def, blast\<close>)+
    with flush_reissues [OF ok] show ?thesis by blast
  qed
  moreover have "map_ok (setNewAssetsToAdd ?p)" "map_ok (setNewAssetsToRemove ?p)" "map_ok (mapReissuedAssetData ?p)"
    using wf by (simp_all add: flush_fields flush_pair_ok map_ok_put_all cache_wf_def)
  moreover have "\<forall>n e. map_of (setNewAssetsToAdd ?p) n = Some e \<longrightarrow> strName (n_asset e) = n"
      "\<forall>n e. map_of (setNewAssetsToRemove ?p) n = Some e \<longrightarrow> strName (n_asset e) = n"
      "\<forall>n a. map_of (mapReissuedAssetData ?p) n = Some a \<longrightarrow> strName a = n"
    using wf unfolding m cache_wf_def by (auto simp: map_add_def restrict_map_def split: option.splits if_splits)
  ultimately show ?thesis unfolding cache_wf_def by blast
qed

section \<open>Writing to disk\<close>

lemma keeps_asset_rows [simp]:
  "asset_rows (write_quantity name address q db) = asset_rows db"
  "asset_rows (erase_quantity name address db) = asset_rows db"
  "asset_rows (store_quantity c name address db) = asset_rows db"
  "asset_rows (store_positive c name address db) = asset_rows db"
  "asset_rows (store_or_erase c name address db) = asset_rows db"
  by (simp_all add: write_quantity_def erase_quantity_def store_quantity_def store_positive_def store_or_erase_def
      split: option.split)

lemma fold_asset_rows: "(\<And>x db. asset_rows (f x db) = asset_rows db) \<Longrightarrow> asset_rows (fold f xs db) = asset_rows db"
  by (induction xs arbitrary: db) simp_all

lemma dump_quantities [simp]:
  "asset_rows (dump_owners_and_transfers c db) = asset_rows db" "asset_rows (dump_spends c db) = asset_rows db"
  by (simp_all add: dump_owners_and_transfers_def dump_spends_def Let_def fold_asset_rows split_beta)

lemma if_index_rows:
  assumes "\<And>db. asset_rows (f db) = asset_rows db"
  shows "rows (if_index f G) = rows G" "rows_ok (if_index f G) = rows_ok G"
  using assms by (simp_all add: if_index_def rows_def rows_ok_def fun_eq_iff)

lemma dump_removed_rows:
  assumes "rows_ok G"
  shows "rows_ok (dump_removed (k, e) G)" "rows (dump_removed (k, e) G) = (rows G)(strName (n_asset e) := None)"
proof -
  let ?n = "strName (n_asset e)"
  let ?G = "G\<lparr>passetsCache := lru_Erase ?n (passetsCache G), passetsdb := EraseAssetData ?n (passetsdb G)\<rparr>"
  have r: "map_of (asset_rows (passetsdb ?G)) = (map_of (asset_rows (passetsdb G)))(?n := None)"
    by (auto simp: EraseAssetData_def map_of_del)
  have "rows_ok ?G"
    using assms unfolding rows_ok_def r by (auto simp: lru_Erase_map map_le_def split: if_splits)
  moreover have "rows ?G = (rows G)(?n := None)" unfolding rows_def r by (simp add: fun_eq_iff)
  ultimately show "rows_ok (dump_removed (k, e) G)" "rows (dump_removed (k, e) G) = (rows G)(?n := None)"
    by (simp_all add: dump_removed_def Let_def if_index_rows)
qed

lemma write_row_ok:
  assumes "rows_ok G" "map_of (cacheItemsList l) \<subseteq>\<^sub>m (map_of (cacheItemsList (passetsCache G)))(strName a \<mapsto> \<lparr>d_asset = a, d_nHeight = h, d_blockHash = b\<rparr>)"
  shows "rows_ok (G\<lparr>passetsCache := l, passetsdb := WriteAssetData a h b (passetsdb G)\<rparr>)"
    "rows (G\<lparr>passetsCache := l, passetsdb := WriteAssetData a h b (passetsdb G)\<rparr>) = (rows G)(strName a \<mapsto> a)"
proof -
  let ?G = "G\<lparr>passetsCache := l, passetsdb := WriteAssetData a h b (passetsdb G)\<rparr>"
  have r: "map_of (asset_rows (passetsdb ?G)) =
      (map_of (asset_rows (passetsdb G)))(strName a \<mapsto> \<lparr>d_asset = a, d_nHeight = h, d_blockHash = b\<rparr>)"
    by (auto simp: WriteAssetData_def map_of_put)
  have "map_of (cacheItemsList l) \<subseteq>\<^sub>m map_of (asset_rows (passetsdb ?G))"
    unfolding r by (rule map_le_trans [OF assms(2)], rule map_le_upd) (use assms(1) in \<open>simp add: rows_ok_def\<close>)
  then show "rows_ok ?G" using assms(1) unfolding rows_ok_def r by auto
  show "rows ?G = (rows G)(strName a \<mapsto> a)" unfolding rows_def r by (simp add: fun_eq_iff)
qed

lemma dump_added_rows:
  assumes "rows_ok G"
  shows "rows_ok (dump_added (k, e) G)" "rows (dump_added (k, e) G) = (rows G)(strName (n_asset e) \<mapsto> n_asset e)"
  using write_row_ok [OF assms lru_Put_le] by (simp_all add: dump_added_def Let_def if_index_rows)

lemma erase_le: "map_of (cacheItemsList (lru_Erase k c)) \<subseteq>\<^sub>m (map_of (cacheItemsList c))(k \<mapsto> v)"
  by (auto simp: lru_Erase_map map_le_def split: if_splits)

lemma fold_removed_rows:
  assumes "rows_ok G"
  shows "rows_ok (fold dump_removed items G)"
    "rows (fold dump_removed items G) n = (if n \<in> (strName \<circ> n_asset \<circ> snd) ` set items then None else rows G n)"
  using assms
proof (induction items arbitrary: G)
  case (Cons p items)
  {
    case 1
    with Cons dump_removed_rows show ?case by (cases p) simp
  next
    case 2
    with Cons dump_removed_rows show ?case by (cases p) simp
  }
qed simp_all

lemma fold_added_rows:
  assumes "rows_ok G" "map_ok items" "\<forall>k e. map_of items k = Some e \<longrightarrow> strName (n_asset e) = k"
  shows "rows_ok (fold dump_added items G) \<and>
    rows (fold dump_added items G) n = (case map_of items n of None \<Rightarrow> rows G n | Some e \<Rightarrow> Some (n_asset e))"
  using assms
proof (induction items arbitrary: G)
  case (Cons p items)
  obtain k e where p: "p = (k, e)" by (cases p)
  have k: "map_of items k = None"
    using Cons.prems p by (force simp: map_ok_Cons map_of_eq_None_iff)
  have named: "map_of (p # items) k' = Some e' \<Longrightarrow> strName (n_asset e') = k'" for k' e'
    using Cons.prems(3) by blast
  have n: "strName (n_asset e) = k" by (rule named) (simp add: p)
  have IH: "map_ok items" "\<forall>k e. map_of items k = Some e \<longrightarrow> strName (n_asset e) = k"
    using Cons.prems(2) k by (simp_all add: map_ok_Cons p) (metis map_of_Cons_code(2) named option.distinct(1) p)
  show ?case
    using Cons.IH [OF dump_added_rows(1) [OF Cons.prems(1)] IH, of k e] dump_added_rows(2) [OF Cons.prems(1), of k e] k n
    by (simp add: p split: option.split)
qed simp

lemma swap_updates: "G\<lparr>passetsdb := d, passetsCache := l\<rparr> = G\<lparr>passetsCache := l, passetsdb := d\<rparr>"
  by simp

lemma dump_reissue_rows:
  assumes "rows_ok G" "\<forall>n a. map_of (mapReissuedAssetData c) n = Some a \<longrightarrow> strName a = n"
  shows "rows_ok (dump_reissue c (k, e) G)"
    "rows (dump_reissue c (k, e) G) n =
       (if n = reissue_name e \<and> map_of (mapReissuedAssetData c) n \<noteq> None then map_of (mapReissuedAssetData c) n else rows G n)"
proof -
  let ?n = "reissue_name e"
  have "rows_ok (dump_reissue c (k, e) G) \<and> (rows (dump_reissue c (k, e) G) n =
       (if n = ?n \<and> map_of (mapReissuedAssetData c) n \<noteq> None then map_of (mapReissuedAssetData c) n else rows G n))"
  proof (cases "map_of (mapReissuedAssetData c) ?n")
    case (Some a)
    then have n: "strName a = ?n" using assms(2) by blast
    have "rows_ok (dump_reissue c (k, e) G)" "rows (dump_reissue c (k, e) G) = (rows G)(?n \<mapsto> a)"
      using write_row_ok [OF assms(1) erase_le, folded swap_updates, of a "ri_blockHeight e" "ri_blockHash e"] Some n
      by (simp_all add: dump_reissue_def Let_def if_index_rows reissue_name_def)
    with Some show ?thesis by simp
  qed (use assms(1) in \<open>auto simp: dump_reissue_def reissue_name_def\<close>)
  then show "rows_ok (dump_reissue c (k, e) G)"
    "rows (dump_reissue c (k, e) G) n =
       (if n = reissue_name e \<and> map_of (mapReissuedAssetData c) n \<noteq> None then map_of (mapReissuedAssetData c) n else rows G n)"
    by blast+
qed

text \<open>Apart from the quantities and the test for removed assets, an undone reissue is written like a reissue.\<close>

lemma dump_reissue_undo_rows:
  assumes "map_of (setNewAssetsToRemove c) (reissue_name e) = None"
  shows "rows_ok (dump_reissue_undo c (k, e) G) = rows_ok (dump_reissue c (k, e) G)"
    "rows (dump_reissue_undo c (k, e) G) = rows (dump_reissue c (k, e) G)"
  using assms
  by (auto simp: dump_reissue_undo_def dump_reissue_def reissue_name_def Let_def if_index_def rows_def rows_ok_def fun_eq_iff
      split: option.split)

lemma dump_reissue_undo_removed: "map_of (setNewAssetsToRemove c) (reissue_name e) \<noteq> None \<Longrightarrow> dump_reissue_undo c (k, e) G = G"
  by (simp add: dump_reissue_undo_def reissue_name_def Let_def)

lemma fold_rows:
  assumes "\<And>x G n. rows_ok G \<Longrightarrow> rows_ok (f x G) \<and> rows (f x G) n = (if n = nm x \<and> re n \<noteq> None then re n else rows G n)"
    and "rows_ok G"
  shows "rows_ok (fold f items G) \<and> rows (fold f items G) n = (if n \<in> nm ` set items \<and> re n \<noteq> None then re n else rows G n)"
  using assms(2) by (induction items arbitrary: G) (use assms(1) in auto)

lemma fold_reissue_rows:
  assumes "rows_ok G" "\<forall>n a. map_of (mapReissuedAssetData c) n = Some a \<longrightarrow> strName a = n"
  shows "rows_ok (fold (dump_reissue c) items G) \<and> rows (fold (dump_reissue c) items G) n =
    (if n \<in> (reissue_name \<circ> snd) ` set items \<and> map_of (mapReissuedAssetData c) n \<noteq> None
     then map_of (mapReissuedAssetData c) n else rows G n)"
proof (rule fold_rows [OF _ assms(1)])
  show "rows_ok (dump_reissue c x G) \<and> rows (dump_reissue c x G) n =
    (if n = (reissue_name \<circ> snd) x \<and> map_of (mapReissuedAssetData c) n \<noteq> None then map_of (mapReissuedAssetData c) n else rows G n)"
    if "rows_ok G" for x G n
    using dump_reissue_rows [OF that assms(2)] by (cases x) simp
qed

lemma fold_undo_rows:
  assumes "rows_ok G" "\<forall>n a. map_of (mapReissuedAssetData c) n = Some a \<longrightarrow> strName a = n"
    and apart: "apart (mapReissuedAssetData c) (setNewAssetsToRemove c)"
  shows "rows_ok (fold (dump_reissue_undo c) items G) \<and> rows (fold (dump_reissue_undo c) items G) n =
    (if n \<in> (reissue_name \<circ> snd) ` set items \<and> map_of (mapReissuedAssetData c) n \<noteq> None
     then map_of (mapReissuedAssetData c) n else rows G n)"
proof (rule fold_rows [OF _ assms(1)])
  fix x :: "out_key \<times> CAssetCacheReissueAsset" and G n
  assume ok: "rows_ok G"
  obtain k e where x: "x = (k, e)" by (cases x)
  show "rows_ok (dump_reissue_undo c x G) \<and> rows (dump_reissue_undo c x G) n =
    (if n = (reissue_name \<circ> snd) x \<and> map_of (mapReissuedAssetData c) n \<noteq> None then map_of (mapReissuedAssetData c) n else rows G n)"
  proof (cases "map_of (setNewAssetsToRemove c) (reissue_name e)")
    case None
    with dump_reissue_rows [OF ok assms(2)] show ?thesis by (simp add: x dump_reissue_undo_rows)
  next
    case (Some r)
    then have "map_of (mapReissuedAssetData c) (reissue_name e) = None"
      using apart unfolding apart_def by (metis option.distinct(1))
    with Some ok show ?thesis by (auto simp: x dump_reissue_undo_removed)
  qed
qed

lemma removed_names:
  assumes "cache_wf c"
  shows "(strName \<circ> n_asset \<circ> snd) ` set (setNewAssetsToRemove c) = dom (map_of (setNewAssetsToRemove c))"
proof -
  have "strName (n_asset e) = k" if "(k, e) \<in> set (setNewAssetsToRemove c)" for k e
    using assms that map_of_in_set [of "setNewAssetsToRemove c" k e] unfolding cache_wf_def by blast
  then show ?thesis by (force simp: dom_map_of_conv_image_fst)
qed

lemma reissued_names:
  assumes "cache_wf c" "map_of (mapReissuedAssetData c) n \<noteq> None"
  shows "n \<in> (reissue_name \<circ> snd) ` set (setNewReissueToAdd c) \<or> n \<in> (reissue_name \<circ> snd) ` set (setNewReissueToRemove c)"
proof -
  obtain k e where "e \<in> reissues_at c k" "reissue_name e = n"
    using assms unfolding cache_wf_def by (metis domIff)
  then show ?thesis unfolding reissues_at_def by (force dest!: map_of_SomeD)
qed

text \<open>\<^verbatim>\<open>DumpCacheToDatabase\<close> writes what the caches say.\<close>

lemma dump_rows:
  assumes "rows_ok G" "cache_wf (passets G)"
  shows "rows_ok (dump_passets G) \<and> rows (dump_passets G) n = asset_view CAssetsCache_empty G n"
proof -
  let ?c = "passets G"
  let ?re = "map_of (mapReissuedAssetData ?c)"
  define G1 where "G1 = fold dump_removed (setNewAssetsToRemove ?c) G"
  define G2 where "G2 = if_index (dump_owners_and_transfers ?c) (fold dump_added (setNewAssetsToAdd ?c) G1)"
  define G3 where "G3 = fold (dump_reissue ?c) (setNewReissueToAdd ?c) G2"
  define G4 where "G4 = fold (dump_reissue_undo ?c) (setNewReissueToRemove ?c) G3"
  have wf: "\<forall>n a. ?re n = Some a \<longrightarrow> strName a = n" "apart (mapReissuedAssetData ?c) (setNewAssetsToRemove ?c)"
      "apart (setNewAssetsToAdd ?c) (setNewAssetsToRemove ?c)" "map_ok (setNewAssetsToAdd ?c)"
      "\<forall>k e. map_of (setNewAssetsToAdd ?c) k = Some e \<longrightarrow> strName (n_asset e) = k"
    using assms(2) unfolding cache_wf_def by blast+
  have d: "dump_passets G = (if_index (dump_spends ?c) G4)\<lparr>passets := CAssetsCache_empty\<rparr>"
    by (simp add: dump_passets_def DumpCacheToDatabase_def Let_def G1_def G2_def G3_def G4_def)
  have r1: "rows_ok G1" "rows G1 n = (if map_of (setNewAssetsToRemove ?c) n \<noteq> None then None else rows G n)"
    using fold_removed_rows [OF assms(1)] removed_names [OF assms(2)] by (simp_all add: G1_def domIff)
  have r2: "rows_ok G2" "rows G2 n = (case map_of (setNewAssetsToAdd ?c) n of None \<Rightarrow> rows G1 n | Some e \<Rightarrow> Some (n_asset e))"
    using fold_added_rows [OF r1(1) wf(4,5)] by (simp_all add: G2_def if_index_rows)
  note r3 = fold_reissue_rows [OF r2(1) wf(1), of "setNewReissueToAdd ?c" n, folded G3_def]
  note r4 = fold_undo_rows [OF conjunct1 [OF r3] wf(1,2), of "setNewReissueToRemove ?c" n, folded G4_def]
  have "rows (dump_passets G) n = rows G4 n" "rows_ok (dump_passets G) = rows_ok G4"
    unfolding d by (simp_all add: rows_def rows_ok_def if_index_def)
  moreover have "rows G4 n = (if ?re n \<noteq> None then ?re n else rows G2 n)"
    using r3 r4 reissued_names [OF assms(2), of n] by auto
  moreover have "map_of (setNewAssetsToAdd ?c) n = None \<or> map_of (setNewAssetsToRemove ?c) n = None"
    using wf(3) by (simp add: apart_def)
  ultimately show ?thesis
    using r4 by (auto simp: view_of_empty [OF assms(1)] r1 r2 split: option.split)
qed

end
