(* ===== verification/XC_AssetsOps.thy ===== *)
theory XC_AssetsOps
  imports XC_AssetsView
begin

text \<open>
  The operations on the asset caches against a map from names to asset data: issuing adds an entry,
  reissuing changes it, undoing takes either back, and flushing or writing to disk changes nothing.
\<close>

section \<open>Operations on balances\<close>

definition neutral :: "CAssetsCache \<Rightarrow> CAssetsCache \<Rightarrow> bool" where
  "neutral c c' \<longleftrightarrow> mapReissuedAssetData c' = mapReissuedAssetData c \<and>
     setNewAssetsToAdd c' = setNewAssetsToAdd c \<and> setNewAssetsToRemove c' = setNewAssetsToRemove c \<and>
     setNewReissueToAdd c' = setNewReissueToAdd c \<and> setNewReissueToRemove c' = setNewReissueToRemove c"

lemma neutral_refl [simp]: "neutral c c"
  by (simp add: neutral_def)

lemma neutral_trans: "neutral c c' \<Longrightarrow> neutral c' c'' \<Longrightarrow> neutral c c''"
  by (simp add: neutral_def)

lemma neutral_set_balance [simp]: "neutral c (set_balance name address q c') = neutral c c'"
  by (simp add: neutral_def set_balance_def)

lemma neutral_best [simp]: "neutral c (snd (GetBestAssetAddressAmount G name address c)) "
  by (simp add: GetBestAssetAddressAmount_def neutral_def split: option.split)

lemma neutral_add_balance [simp]: "neutral c (add_balance G name address q c)"
  by (simp add: add_balance_def Let_def)

lemma neutral_AddToAssetBalance [simp]: "neutral c (AddToAssetBalance G name address q c)"
  by (simp add: AddToAssetBalance_def)

lemma neutral_view:
  assumes "neutral c c'"
  shows "asset_view c' G name = asset_view c G name" "assets_ok c' G = assets_ok c G" "asset_exists c' G name = asset_exists c G name"
proof -
  have e: "mapReissuedAssetData c' = mapReissuedAssetData c"
     "setNewAssetsToAdd c' = setNewAssetsToAdd c" "setNewAssetsToRemove c' = setNewAssetsToRemove c"
     "setNewReissueToAdd c' = setNewReissueToAdd c" "setNewReissueToRemove c' = setNewReissueToRemove c"
    using assms by (simp_all add: neutral_def)
  show "asset_view c' G name = asset_view c G name" "assets_ok c' G = assets_ok c G" "asset_exists c' G name = asset_exists c G name"
    by (simp_all only: asset_view_def GetAssetMetaDataIfExists_def assets_ok_def cache_wf_def reissues_at_def
        asset_exists_def CheckIfAssetExists_def e)
qed

lemma neutral_updates [simp]:
  "neutral c (c'\<lparr>vSpentAssets := x\<rparr>) = neutral c c'" "neutral c (c'\<lparr>vUndoAssetAmount := x\<rparr>) = neutral c c'"
  "neutral c (c'\<lparr>setNewTransferAssetsToAdd := y\<rparr>) = neutral c c'" "neutral c (c'\<lparr>setNewTransferAssetsToRemove := y\<rparr>) = neutral c c'"
  "neutral c (c'\<lparr>setNewOwnerAssetsToAdd := z\<rparr>) = neutral c c'" "neutral c (c'\<lparr>setNewOwnerAssetsToRemove := z\<rparr>) = neutral c c'"
  by (simp_all add: neutral_def)

lemma neutral_bestD: "GetBestAssetAddressAmount G name address c = (found, c') \<Longrightarrow> neutral c c'"
  using neutral_best [of c G name address] by simp

lemma neutral_operations:
  "neutral c (AddTransferAsset G t address out c)" "neutral c (snd (RemoveTransfer G t address out c))"
  "neutral c (snd (TrySpendCoin P G txOut c))" "neutral c (snd (UndoAssetCoin P G coin c))"
  "neutral c (AddOwnerAsset G name address c)" "neutral c (RemoveOwnerAsset G name address c)"
  by (auto simp: AddTransferAsset_def RemoveTransfer_def UndoTransfer_def TrySpendCoin_def UndoAssetCoin_def AddBackSpentAsset_def
      AddOwnerAsset_def RemoveOwnerAsset_def Let_def split: option.split prod.split bool.split dest: neutral_bestD)

section \<open>Issuing\<close>

lemma assets_ok_lru:
  assumes "assets_ok c G" "same_but_lru G G'" "rows_ok G'"
  shows "assets_ok c G'" "asset_view c G' = asset_view c G"
  using assms same_but_lru_view [OF assms(2) _ assms(3)]
  by (auto simp: assets_ok_def same_but_lruD fun_eq_iff)

text \<open>An issue outside a reorganisation: neither cache is to remove the name.\<close>

definition not_removed :: "CAssetsCache \<Rightarrow> AssetGlobals \<Rightarrow> string \<Rightarrow> bool" where
  "not_removed c G name \<longleftrightarrow>
     map_of (setNewAssetsToRemove c) name = None \<and> map_of (setNewAssetsToRemove (passets G)) name = None"

definition not_reissued :: "CAssetsCache \<Rightarrow> AssetGlobals \<Rightarrow> string \<Rightarrow> bool" where
  "not_reissued c G name \<longleftrightarrow>
     map_of (mapReissuedAssetData c) name = None \<and> map_of (mapReissuedAssetData (passets G)) name = None"

lemma AddNewAsset_ok:
  assumes ok: "assets_ok c G" and add: "AddNewAsset asset address h b c G = (True, c', G')"
    and nr: "not_removed c G (strName asset)"
  shows "assets_ok c' G'"
    "not_reissued c G (strName asset) \<Longrightarrow> asset_view c' G' = (asset_view c G)(strName asset \<mapsto> asset)"
proof -
  let ?n = "strName asset"
  let ?na = "\<lparr>n_asset = asset, n_address = address, n_blockHash = b, n_blockHeight = h\<rparr>"
  let ?c = "c\<lparr>setNewAssetsToRemove := map_del ?n (setNewAssetsToRemove c),
              setNewAssetsToAdd := set_insert ?n ?na (setNewAssetsToAdd c)\<rparr>"
  have rok: "rows_ok G" using ok by (simp add: assets_ok_def)
  have ex: "\<not> asset_exists c G ?n" and G': "G' = snd (CheckIfAssetExists c ?n True G)" and "neutral ?c c'"
    using add by (auto simp: AddNewAsset_def asset_exists_def Let_def split: prod.splits bool.splits)
  note n = neutral_view [OF this(3)]
  have lru: "same_but_lru G G'" "rows_ok G'" using exists_keeps [OF rok] G' by simp_all
  have new: "map_of (setNewAssetsToAdd c) ?n = None" "map_of (setNewAssetsToAdd (passets G)) ?n = None"
    using ex nr unfolding asset_exists_layers [OF rok] not_removed_def by auto
  have m: "map_of (setNewAssetsToAdd ?c) = (map_of (setNewAssetsToAdd c))(?n \<mapsto> ?na)"
      "map_of (setNewAssetsToRemove ?c) = map_of (setNewAssetsToRemove c)"
    using new nr by (auto simp: set_insert_def map_of_put map_del_absent not_removed_def)
  have "assets_ok ?c G"
    using ok new nr unfolding assets_ok_def cache_wf_def apart_def m not_removed_def
    by (simp add: map_ok_set_insert map_ok_del reissues_at_def)
  from assets_ok_lru [OF this lru] show "assets_ok c' G'" using n(2) by simp
  have v: "asset_view ?c G = (asset_view c G)(?n \<mapsto> asset)" if "not_reissued c G ?n"
    using that nr unfolding fun_eq_iff asset_view_layers [OF rok] m not_removed_def not_reissued_def
    by (simp cong: option.case_cong)
  show "asset_view c' G' = (asset_view c G)(?n \<mapsto> asset)" if "not_reissued c G ?n"
    using v [OF that] assets_ok_lru(2) [OF \<open>assets_ok ?c G\<close> lru] n(1) by (simp add: fun_eq_iff)
qed

lemma RemoveNewAsset_ok:
  assumes ok: "assets_ok c G" and rem: "RemoveNewAsset asset address c G = (True, c', G')"
    and nr: "not_reissued c G (strName asset)" and "\<not> fReindex G"
  shows "assets_ok c' G'" "asset_view c' G' = (asset_view c G)(strName asset := None)"
proof -
  let ?n = "strName asset"
  let ?na = "\<lparr>n_asset = asset, n_address = address, n_blockHash = uint256_null, n_blockHeight = 0\<rparr>"
  let ?c = "c\<lparr>setNewAssetsToAdd := map_del ?n (setNewAssetsToAdd c),
              setNewAssetsToRemove := set_insert ?n ?na (setNewAssetsToRemove c)\<rparr>"
  have rok: "rows_ok G" using ok by (simp add: assets_ok_def)
  have ex: "asset_exists c G ?n" and G': "G' = snd (CheckIfAssetExists c ?n True G)" and "neutral ?c c'"
    using rem by (auto simp: RemoveNewAsset_def asset_exists_def Let_def split: prod.splits bool.splits)
  note n = neutral_view [OF this(3)]
  have lru: "same_but_lru G G'" "rows_ok G'" using exists_keeps [OF rok] G' by simp_all
  have there: "not_removed c G ?n"
    using ex \<open>\<not> fReindex G\<close> unfolding asset_exists_layers [OF rok] not_removed_def by auto
  have m: "map_of (setNewAssetsToRemove ?c) = (map_of (setNewAssetsToRemove c))(?n \<mapsto> ?na)"
      "map_of (setNewAssetsToAdd ?c) = (map_of (setNewAssetsToAdd c))(?n := None)"
    using there by (auto simp: set_insert_def map_of_put map_of_del not_removed_def)
  have ok': "assets_ok ?c G"
    using ok nr unfolding assets_ok_def cache_wf_def apart_def m not_reissued_def
    by (simp add: map_ok_set_insert map_ok_del reissues_at_def)
  from assets_ok_lru [OF this lru] show "assets_ok c' G'" using n(2) by simp
  have "asset_view ?c G = (asset_view c G)(?n := None)"
    using nr unfolding fun_eq_iff asset_view_layers [OF rok] m not_reissued_def
    by (simp cong: option.case_cong)
  with assets_ok_lru(2) [OF ok' lru] n(1) show "asset_view c' G' = (asset_view c G)(?n := None)"
    by (simp add: fun_eq_iff)
qed

section \<open>Reissuing\<close>

lemma view_named:
  assumes "assets_ok c G" "asset_view c G n = Some a"
  shows "strName a = n" "not_removed c G n"
proof -
  have rok: "rows_ok G" using assms(1) by (simp add: assets_ok_def)
  have named: "map_of (mapReissuedAssetData c) n = Some a \<Longrightarrow> strName a = n"
      "map_of (mapReissuedAssetData (passets G)) n = Some a \<Longrightarrow> strName a = n"
      "map_of (setNewAssetsToAdd c) n = Some it \<Longrightarrow> strName (n_asset it) = n"
      "map_of (setNewAssetsToAdd (passets G)) n = Some it \<Longrightarrow> strName (n_asset it) = n"
      "rows G n = Some a \<Longrightarrow> strName a = n" for it
    using assms(1) unfolding assets_ok_def cache_wf_def rows_ok_def rows_def by blast+
  with assms(2) show "strName a = n"
    unfolding asset_view_layers [OF rok] by (auto split: option.splits if_splits)
  have "map_of (mapReissuedAssetData c) n = None \<or> not_removed c G n"
      "map_of (mapReissuedAssetData (passets G)) n = None \<or> not_removed c G n"
    using assms(1) unfolding assets_ok_def cache_wf_def apart_def not_removed_def by blast+
  with assms(2) show "not_removed c G n"
    unfolding asset_view_layers [OF rok] by (auto simp: not_removed_def split: option.splits if_splits)
qed

lemma reissue_update_ok:
  assumes ok: "assets_ok c G" and nr: "not_removed c G n" and a: "strName a = n"
    and re: "mapReissuedAssetData c' = map_put n a (mapReissuedAssetData c)"
    and same: "setNewAssetsToAdd c' = setNewAssetsToAdd c" "setNewAssetsToRemove c' = setNewAssetsToRemove c"
      "\<And>k'. k' \<noteq> k \<Longrightarrow> reissues_at c' k' = reissues_at c k'"
    and here: "reissues_at c' k \<noteq> {}" "\<forall>e \<in> reissues_at c' k. reissue_name e = n"
      "\<forall>e \<in> reissues_at c k \<union> reissues_at (passets G) k. reissue_name e = n"
  shows "assets_ok c' G" "asset_view c' G = (asset_view c G)(n \<mapsto> a)"
proof -
  have rok: "rows_ok G" and wf: "cache_wf c" using ok by (simp_all add: assets_ok_def)
  have m: "map_of (mapReissuedAssetData c') = (map_of (mapReissuedAssetData c))(n \<mapsto> a)"
    by (auto simp: re map_of_put)
  have "\<exists>k. \<exists>e \<in> reissues_at c' k. reissue_name e = n'" if "n' \<in> dom (map_of (mapReissuedAssetData c'))" for n'
  proof (cases "n' = n")
    case False
    with that obtain k' e where "e \<in> reissues_at c k'" "reissue_name e = n'"
      using wf unfolding m cache_wf_def by (metis domIff fun_upd_apply)
    with False here(3) same(3) show ?thesis by (metis UnI1)
  qed (use here in blast)
  then have "cache_wf c'"
    using wf nr a unfolding cache_wf_def apart_def m same not_removed_def
    by (simp add: re map_ok_put)
  moreover obtain N where N: "\<forall>k. \<forall>e \<in> reissues_at c k \<union> reissues_at (passets G) k. reissue_name e = N k"
    using ok unfolding assets_ok_def by blast
  have "\<forall>k'. \<forall>e \<in> reissues_at c' k' \<union> reissues_at (passets G) k'. reissue_name e = (N(k := n)) k'"
    using N here(2,3) same(3) by auto
  then have "\<exists>N. \<forall>k'. \<forall>e \<in> reissues_at c' k' \<union> reissues_at (passets G) k'. reissue_name e = N k'" by blast
  moreover have "apart (mapReissuedAssetData c') (setNewAssetsToRemove (passets G))"
    using ok nr by (simp add: assets_ok_def apart_def m not_removed_def)
  ultimately show "assets_ok c' G"
    using ok unfolding assets_ok_def same by blast
  show "asset_view c' G = (asset_view c G)(n \<mapsto> a)"
    unfolding fun_eq_iff asset_view_layers [OF rok] m same by (simp cong: option.case_cong)
qed

lemma lookup_found:
  assumes "assets_ok c G" "GetAssetMetaDataIfExists c n G = (Some (asset, origin), G')"
  shows "asset_view c G n = Some asset" "same_but_lru G G'" "rows_ok G'"
  using lookup_keeps [of G c n] assms by (simp_all add: asset_view_def assets_ok_def)

lemma reissued_name [simp]: "strName (reissued r a) = strName a" "strName (undo_reissue us r a) = strName a"
  by (simp_all add: reissued_def undo_reissue_def Let_def split: option.split)

lemma reissue_entry_name [simp]: "reissue_name (reissue_entry u r address out origin) = r_strName r"
  by (simp add: reissue_name_def reissue_entry_def split: prod.split)

definition one_asset :: "COutPoint \<Rightarrow> string \<Rightarrow> CAssetsCache \<Rightarrow> AssetGlobals \<Rightarrow> bool" where
  "one_asset out n c G \<longleftrightarrow> (\<forall>e \<in> reissues_at c (key_of out) \<union> reissues_at (passets G) (key_of out). reissue_name e = n)"

lemma AddReissueAsset_ok:
  assumes ok: "assets_ok c G" and add: "AddReissueAsset u r address out c G = (True, c', G')"
    and one: "one_asset out (r_strName r) c G"
  shows "\<exists>a. asset_view c G (r_strName r) = Some a \<and> assets_ok c' G' \<and>
    asset_view c' G' = (asset_view c G)(r_strName r \<mapsto> reissued r a)"
proof -
  obtain a origin where l: "GetAssetMetaDataIfExists c (r_strName r) G = (Some (a, origin), G')"
    using add by (auto simp: AddReissueAsset_def Let_def split: prod.splits option.splits)
  let ?e = "reissue_entry u r address out origin" and ?k = "key_of out"
  let ?c = "c\<lparr>mapReissuedAssetData := map_put (r_strName r) (reissued r a) (mapReissuedAssetData c),
      setNewReissueToRemove := map_del ?k (setNewReissueToRemove c), setNewReissueToAdd := set_insert ?k ?e (setNewReissueToAdd c)\<rparr>"
  note f = lookup_found [OF ok l]
  have "neutral ?c c'"
    using add l by (auto simp: AddReissueAsset_def Let_def split: if_splits)
  note n = neutral_view [OF this]
  have at: "reissues_at ?c k = (if k = ?k then {if map_of (setNewReissueToAdd c) ?k = None then ?e else the (map_of (setNewReissueToAdd c) ?k)}
      else reissues_at c k)" for k
    by (auto simp: reissues_at_def map_of_set_insert map_of_del map_add_def split: option.splits)
  have "\<forall>e \<in> reissues_at ?c ?k. reissue_name e = r_strName r"
    using one unfolding at one_asset_def by (auto simp: reissues_at_def)
  note u = reissue_update_ok [OF ok view_named(2) [OF ok f(1)], of "reissued r a" ?c ?k, OF _ _ _ _ _ _ this]
  have "assets_ok ?c G" "asset_view ?c G = (asset_view c G)(r_strName r \<mapsto> reissued r a)"
    using view_named(1) [OF ok f(1)] one by (auto intro!: u simp: at one_asset_def)
  with assets_ok_lru [OF this(1) f(2,3)] n f(1) show ?thesis by (auto simp: fun_eq_iff)
qed

lemma RemoveReissueAsset_ok:
  assumes ok: "assets_ok c G" and rem: "RemoveReissueAsset u r address out us c G = (True, c', G')"
    and one: "one_asset out (r_strName r) c G"
  shows "\<exists>a. asset_view c G (r_strName r) = Some a \<and> assets_ok c' G' \<and>
    asset_view c' G' = (asset_view c G)(r_strName r \<mapsto> undo_reissue us r a)"
proof -
  obtain a origin where l: "GetAssetMetaDataIfExists c (r_strName r) G = (Some (a, origin), G')"
    using rem by (auto simp: RemoveReissueAsset_def Let_def split: prod.splits option.splits if_splits)
  let ?e = "reissue_entry u r address out origin" and ?k = "key_of out"
  note f = lookup_found [OF ok l]
  note nm = view_named [OF ok f(1)]
  let ?c = "c\<lparr>mapReissuedAssetData := map_put (r_strName r) (undo_reissue us r a) (mapReissuedAssetData c),
      setNewReissueToAdd := map_del ?k (setNewReissueToAdd c), setNewReissueToRemove := set_insert ?k ?e (setNewReissueToRemove c)\<rparr>"
  have "neutral ?c c'"
    using rem l nm(1) by (auto simp: RemoveReissueAsset_def Let_def split: if_splits prod.splits dest: neutral_bestD)
  note n = neutral_view [OF this]
  have at: "reissues_at ?c k = (if k = ?k then {if map_of (setNewReissueToRemove c) ?k = None then ?e else the (map_of (setNewReissueToRemove c) ?k)}
      else reissues_at c k)" for k
    by (auto simp: reissues_at_def map_of_set_insert map_of_del map_add_def split: option.splits)
  have "\<forall>e \<in> reissues_at ?c ?k. reissue_name e = r_strName r"
    using one unfolding at one_asset_def by (auto simp: reissues_at_def)
  note u = reissue_update_ok [OF ok nm(2), of "undo_reissue us r a" ?c ?k, OF _ _ _ _ _ _ this]
  have "assets_ok ?c G" "asset_view ?c G = (asset_view c G)(r_strName r \<mapsto> undo_reissue us r a)"
    using nm(1) one by (auto intro!: u simp: at one_asset_def)
  with assets_ok_lru [OF this(1) f(2,3)] n f(1) show ?thesis by (auto simp: fun_eq_iff)
qed

text \<open>What \<^verbatim>\<open>AddCoins\<close> records for undoing a reissue, and that undoing with it restores the data.\<close>

definition reissue_undo_data :: "CReissueAsset \<Rightarrow> CNewAsset \<Rightarrow> (string \<times> CBlockAssetUndo) list" where
  "reissue_undo_data reissue asset =
     (let fIPFSChanged = (r_strIPFSHash reissue \<noteq> []); fUnitsChanged = (r_nUnits reissue \<noteq> -1)
      in if fIPFSChanged \<or> fUnitsChanged
         then [(r_strName reissue, \<lparr>fChangedIPFS = fIPFSChanged, fChangedUnits = fUnitsChanged,
                  u_strIPFS = strIPFSHash asset, u_nUnits = units asset\<rparr>)]
         else [])"

lemma undo_reissued:
  assumes "nReissuable a = 1" "nHasIPFS a = (if strIPFSHash a = [] then 0 else 1)"
  shows "undo_reissue (reissue_undo_data r a) r (reissued r a) = a"
  using assms by (simp add: undo_reissue_def reissue_undo_data_def reissued_def Let_def)

section \<open>Sequences of operations\<close>

datatype asset_op =
    Issue CNewAsset string int uint256
  | Unissue CNewAsset string
  | Reissue int CReissueAsset string COutPoint
  | Unreissue int CReissueAsset string COutPoint "(string \<times> CBlockAssetUndo) list"
  | Own string string
  | Disown string string
  | Send CAssetTransfer string COutPoint
  | Unsend CAssetTransfer string COutPoint
  | Spend CTxOut
  | Unspend Coin
  | FlushCache
  | DumpCache

type_synonym asset_state = "CAssetsCache \<times> AssetGlobals"

definition succeeded :: "bool \<times> CAssetsCache \<times> AssetGlobals \<Rightarrow> asset_state option" where
  "succeeded r = (case r of (done, s) \<Rightarrow> if done then Some s else None)"

definition with_globals :: "bool \<times> CAssetsCache \<Rightarrow> AssetGlobals \<Rightarrow> asset_state option" where
  "with_globals r G = (case r of (done, c) \<Rightarrow> if done then Some (c, G) else None)"

fun asset_step :: "base58_prefixes \<Rightarrow> asset_op \<Rightarrow> asset_state \<Rightarrow> asset_state option" where
  "asset_step P (Issue a address h b) (c, G) = succeeded (AddNewAsset a address h b c G)"
| "asset_step P (Unissue a address) (c, G) = succeeded (RemoveNewAsset a address c G)"
| "asset_step P (Reissue u r address out) (c, G) = succeeded (AddReissueAsset u r address out c G)"
| "asset_step P (Unreissue u r address out us) (c, G) = succeeded (RemoveReissueAsset u r address out us c G)"
| "asset_step P (Own name address) (c, G) = Some (AddOwnerAsset G name address c, G)"
| "asset_step P (Disown name address) (c, G) = Some (RemoveOwnerAsset G name address c, G)"
| "asset_step P (Send t address out) (c, G) = Some (AddTransferAsset G t address out c, G)"
| "asset_step P (Unsend t address out) (c, G) = with_globals (RemoveTransfer G t address out c) G"
| "asset_step P (Spend txOut) (c, G) = with_globals (TrySpendCoin P G txOut c) G"
| "asset_step P (Unspend coin) (c, G) = with_globals (UndoAssetCoin P G coin c) G"
| "asset_step P FlushCache (c, G) = Some (CAssetsCache_empty, Assets_Flush c G)"
| "asset_step P DumpCache (c, G) = Some (c, dump_passets G)"

fun asset_run :: "base58_prefixes \<Rightarrow> asset_op list \<Rightarrow> asset_state \<Rightarrow> asset_state option" where
  "asset_run P [] s = Some s"
| "asset_run P (op # ops) s = (case asset_step P op s of None \<Rightarrow> None | Some s \<Rightarrow> asset_run P ops s)"

text \<open>
  The contract of the operations, which their callers have to keep: a name is not issued while its removal is
  pending, an asset with pending reissue data is neither issued nor removed, no asset is removed while the node
  reindexes, an outpoint reissues one asset, and nothing is written to disk under the cache of a block.
\<close>

fun op_fits :: "asset_op \<Rightarrow> asset_state \<Rightarrow> bool" where
  "op_fits (Issue a address h b) (c, G) \<longleftrightarrow> not_removed c G (strName a) \<and> not_reissued c G (strName a)"
| "op_fits (Unissue a address) (c, G) \<longleftrightarrow> not_reissued c G (strName a) \<and> \<not> fReindex G"
| "op_fits (Reissue u r address out) (c, G) \<longleftrightarrow> one_asset out (r_strName r) c G"
| "op_fits (Unreissue u r address out us) (c, G) \<longleftrightarrow> one_asset out (r_strName r) c G"
| "op_fits DumpCache (c, G) \<longleftrightarrow> c = CAssetsCache_empty"
| "op_fits _ _ \<longleftrightarrow> True"

fun ops_fit :: "base58_prefixes \<Rightarrow> asset_op list \<Rightarrow> asset_state \<Rightarrow> bool" where
  "ops_fit P [] s \<longleftrightarrow> True"
| "ops_fit P (op # ops) s \<longleftrightarrow> op_fits op s \<and> (case asset_step P op s of None \<Rightarrow> True | Some s \<Rightarrow> ops_fit P ops s)"

text \<open>The same operations on a map from names to data.\<close>

fun abs_step :: "asset_op \<Rightarrow> (string \<Rightarrow> CNewAsset option) \<Rightarrow> string \<Rightarrow> CNewAsset option" where
  "abs_step (Issue a address h b) V = V(strName a \<mapsto> a)"
| "abs_step (Unissue a address) V = V(strName a := None)"
| "abs_step (Reissue u r address out) V = V(r_strName r := map_option (reissued r) (V (r_strName r)))"
| "abs_step (Unreissue u r address out us) V = V(r_strName r := map_option (undo_reissue us r) (V (r_strName r)))"
| "abs_step _ V = V"

lemma empty_assets_ok:
  assumes "rows_ok G" "cache_wf (passets G)" "\<forall>k. \<forall>e \<in> reissues_at (passets G) k. reissue_name e = N k"
  shows "assets_ok CAssetsCache_empty G"
proof -
  have "reissues_at CAssetsCache_empty k = {}" for k by (simp add: reissues_at_def CAssetsCache_empty_def)
  then have "\<exists>N. \<forall>k. \<forall>e \<in> reissues_at CAssetsCache_empty k \<union> reissues_at (passets G) k. reissue_name e = N k"
    using assms(3) by auto
  with assms(1,2) show ?thesis
    by (simp add: assets_ok_def) (simp add: apart_def CAssetsCache_empty_def)
qed

lemma flush_ok:
  assumes "assets_ok c G"
  shows "assets_ok CAssetsCache_empty (Assets_Flush c G)"
proof -
  obtain N where "\<forall>k. \<forall>e \<in> reissues_at c k \<union> reissues_at (passets G) k. reissue_name e = N k"
    using assms unfolding assets_ok_def by blast
  then have "\<forall>k. \<forall>e \<in> reissues_at (passets (Assets_Flush c G)) k. reissue_name e = N k"
    using flush_reissues_sub by blast
  moreover have "rows_ok (Assets_Flush c G)" using assms by (simp add: assets_ok_def flush_rows_ok)
  ultimately show ?thesis using empty_assets_ok flush_wf [OF assms] by blast
qed

lemma dump_ok:
  assumes "assets_ok CAssetsCache_empty G"
  shows "assets_ok CAssetsCache_empty (dump_passets G)"
    "asset_view CAssetsCache_empty (dump_passets G) = asset_view CAssetsCache_empty G"
proof -
  have ok: "rows_ok G" "cache_wf (passets G)" using assms by (simp_all add: assets_ok_def)
  have p: "passets (dump_passets G) = CAssetsCache_empty" by (simp add: dump_passets_def DumpCacheToDatabase_def Let_def)
  have r: "rows_ok (dump_passets G)" "rows (dump_passets G) n = asset_view CAssetsCache_empty G n" for n
    using dump_rows [OF ok] by simp_all
  show "assets_ok CAssetsCache_empty (dump_passets G)"
    by (rule empty_assets_ok [OF r(1)]) (simp_all add: p, simp add: CAssetsCache_empty_def reissues_at_def)
  show "asset_view CAssetsCache_empty (dump_passets G) = asset_view CAssetsCache_empty G"
    by (rule ext) (subst view_of_empty [OF r(1)], simp add: p r(2) CAssetsCache_empty_def)
qed

lemma neutral_ok: "neutral c c' \<Longrightarrow> assets_ok c G \<Longrightarrow> assets_ok c' G \<and> asset_view c' G = asset_view c G"
  by (simp add: neutral_view fun_eq_iff)

lemma neutralD:
  "RemoveTransfer G t address out c = (r, c') \<Longrightarrow> neutral c c'"
  "TrySpendCoin P G txOut c = (r, c') \<Longrightarrow> neutral c c'"
  "UndoAssetCoin P G coin c = (r, c') \<Longrightarrow> neutral c c'"
  using neutral_operations(2) [of c G t address out] neutral_operations(3) [of c P G txOut] neutral_operations(4) [of c P G coin]
  by simp_all

lemma asset_step_ok:
  assumes "assets_ok c G" "op_fits op (c, G)" "asset_step P op (c, G) = Some (c', G')"
  shows "assets_ok c' G' \<and> asset_view c' G' = abs_step op (asset_view c G)"
proof (cases op)
  case (Issue a address h b)
  with assms show ?thesis
    using AddNewAsset_ok [of c G a address h b c' G'] by (auto simp: succeeded_def split: prod.splits if_splits)
next
  case (Unissue a address)
  with assms show ?thesis
    using RemoveNewAsset_ok [of c G a address c' G'] by (auto simp: succeeded_def split: prod.splits if_splits)
next
  case (Reissue u r address out)
  with assms show ?thesis
    using AddReissueAsset_ok [of c G u r address out c' G'] by (auto simp: succeeded_def split: prod.splits if_splits)
next
  case (Unreissue u r address out us)
  with assms show ?thesis
    using RemoveReissueAsset_ok [of c G u r address out us c' G'] by (auto simp: succeeded_def split: prod.splits if_splits)
next
  case FlushCache
  with assms show ?thesis using flush_ok [of c G] flush_keeps_view [of c G] by (auto simp: fun_eq_iff)
next
  case DumpCache
  with assms show ?thesis using dump_ok [of G] by simp
next
  case (Own name address)
  with assms show ?thesis using neutral_ok [OF neutral_operations(5) assms(1)] by auto
next
  case (Disown name address)
  with assms show ?thesis using neutral_ok [OF neutral_operations(6) assms(1)] by auto
next
  case (Send t address out)
  with assms show ?thesis using neutral_ok [OF neutral_operations(1) assms(1)] by auto
next
  case (Unsend t address out)
  with assms show ?thesis by (auto simp: with_globals_def split: prod.splits if_splits dest: neutralD neutral_ok)
next
  case (Spend txOut)
  with assms show ?thesis by (auto simp: with_globals_def split: prod.splits if_splits dest: neutralD neutral_ok)
next
  case (Unspend coin)
  with assms show ?thesis by (auto simp: with_globals_def split: prod.splits if_splits dest: neutralD neutral_ok)
qed

lemma asset_run_ok:
  "assets_ok c G \<Longrightarrow> ops_fit P ops (c, G) \<Longrightarrow> asset_run P ops (c, G) = Some (c', G') \<Longrightarrow>
    assets_ok c' G' \<and> asset_view c' G' = fold abs_step ops (asset_view c G)"
proof (induction ops arbitrary: c G)
  case (Cons op ops)
  then obtain c1 G1 where "op_fits op (c, G)" "asset_step P op (c, G) = Some (c1, G1)" "ops_fit P ops (c1, G1)"
      "asset_run P ops (c1, G1) = Some (c', G')"
    by (auto split: option.splits)
  with asset_step_ok [OF Cons.prems(1) this(1,2)] Cons.IH [of c1 G1] show ?case by simp
qed simp

text \<open>
  C7. Within their contract the asset caches implement a map from names to asset data. Take a sequence of issues,
  reissues, their undoing, transfers, spends, flushes of the cache of a block and writes to disk in which every operation
  succeeds and keeps the contract \<open>op_fits\<close>: no name is issued while its removal or reissue data are pending, no
  asset is removed while its reissue data are pending or the node reindexes, an outpoint reissues one asset, and
  the disk is written with an empty block cache. Then flushing and writing leaves in the database, for every name,
  what the same operations give on the map. The code does not enforce the contract, and a reorganisation can leave
  it: \<open>issue_repeats_after_removal\<close> and \<open>removed_asset_still_found\<close> below show what happens then.
\<close>

theorem asset_ops_refine:
  assumes "assets_ok c G" "ops_fit P ops (c, G)" "asset_run P ops (c, G) = Some (c', G')"
  shows "map_option d_asset (map_of (asset_rows (passetsdb (dump_passets (Assets_Flush c' G')))) name) =
    fold abs_step ops (asset_view c G) name"
proof -
  note run = asset_run_ok [OF assms]
  then have ok: "assets_ok CAssetsCache_empty (Assets_Flush c' G')" using flush_ok by blast
  then have "rows_ok (Assets_Flush c' G')" "cache_wf (passets (Assets_Flush c' G'))" by (simp_all add: assets_ok_def)
  from dump_rows [OF this, of name] flush_keeps_view [of c' G' name] run
  show ?thesis by (simp add: rows_def)
qed

definition ex_globals :: AssetGlobals where
  "ex_globals = \<lparr>passets = CAssetsCache_empty, passetsCache = \<lparr>cacheItemsList = [], maxSize = 2500\<rparr>,
     passetsdb = \<lparr>asset_rows = [], quantity_rows = [], address_rows = []\<rparr>, fReindex = False, fAssetIndex = True\<rparr>"

definition ex_asset :: "string \<Rightarrow> CAmount \<Rightarrow> CNewAsset" where
  "ex_asset name q = \<lparr>strName = name, nAmount = q, units = 0, nReissuable = 1, nHasIPFS = 0, strIPFSHash = []\<rparr>"

definition ex_reissue :: "string \<Rightarrow> CAmount \<Rightarrow> int \<Rightarrow> bytes \<Rightarrow> CReissueAsset" where
  "ex_reissue name q u ipfs = \<lparr>r_strName = name, r_nAmount = q, r_nUnits = u, r_nReissuable = 1, r_strIPFSHash = ipfs\<rparr>"

definition ex_ops :: "asset_op list" where
  "ex_ops = [Issue (ex_asset ''GOLD'' 100) ''alice'' 7 uint256_null, Issue (ex_asset ''LEAD'' 5) ''bob'' 7 uint256_null, FlushCache,
     Reissue 0 (ex_reissue ''GOLD'' 50 2 []) ''alice'' \<lparr>op_hash = uint256_null, op_n = 3\<rparr>, FlushCache, DumpCache,
     Unissue (ex_asset ''LEAD'' 5) ''bob'']"

lemma ex_globals_ok: "assets_ok CAssetsCache_empty ex_globals"
  by (rule empty_assets_ok) (simp_all add: ex_globals_def rows_ok_def reissues_at_def, simp add: CAssetsCache_empty_def)

theorem asset_ops_refine_witness:
  "\<exists>c G. asset_run (prefixes main_asset_params) ex_ops (CAssetsCache_empty, ex_globals) = Some (c, G) \<and>
     map_option d_asset (map_of (asset_rows (passetsdb (dump_passets (Assets_Flush c G)))) ''GOLD'') =
       Some (ex_asset ''GOLD'' 150\<lparr>units := 2\<rparr>) \<and>
     map_option d_asset (map_of (asset_rows (passetsdb (dump_passets (Assets_Flush c G)))) ''LEAD'') = None"
proof -
  have "asset_run (prefixes main_asset_params) ex_ops (CAssetsCache_empty, ex_globals) \<noteq> None"
    and fit: "ops_fit (prefixes main_asset_params) ex_ops (CAssetsCache_empty, ex_globals)"
    by code_simp+
  then obtain c G where run: "asset_run (prefixes main_asset_params) ex_ops (CAssetsCache_empty, ex_globals) = Some (c, G)" by auto
  have "fold abs_step ex_ops (asset_view CAssetsCache_empty ex_globals) ''GOLD'' = Some (ex_asset ''GOLD'' 150\<lparr>units := 2\<rparr>)"
      "fold abs_step ex_ops (asset_view CAssetsCache_empty ex_globals) ''LEAD'' = None"
    by (simp_all add: ex_ops_def ex_asset_def ex_reissue_def reissued_def Let_def)
  with asset_ops_refine [OF ex_globals_ok fit run] run show ?thesis by metis
qed

section \<open>Outside the contract\<close>

text \<open>
  An issue while \<^verbatim>\<open>passets\<close> still has the removal of the same name to write: the lookups ask
  \<^verbatim>\<open>passets->setNewAssetsToRemove\<close> before the additions of the block, so the asset stays unknown until the flush
  and can be issued again in the same block.
\<close>

lemma issue_repeats_after_removal:
  assumes "\<not> fReindex G" "map_of (setNewAssetsToRemove c) (strName a) = None"
    "map_of (setNewAssetsToRemove (passets G)) (strName a) \<noteq> None"
    "AddNewAsset a address h b c G = (r, c', G')"
  shows "r" "\<not> fst (CheckIfAssetExists c' (strName a) True G')"
  using assms by (auto simp: AddNewAsset_def CheckIfAssetExists_def Let_def map_of_del set_balance_def split: if_splits)

text \<open>An asset that was reissued and whose issue is then undone is still found by name.\<close>

lemma removed_asset_still_found:
  assumes "map_of (mapReissuedAssetData c) (strName a) = Some d" "RemoveNewAsset a address c G = (r, c', G')"
  shows "asset_view c' G' (strName a) = Some d"
  using assms
  by (auto simp: RemoveNewAsset_def asset_view_def GetAssetMetaDataIfExists_def set_balance_def Let_def
      split: prod.splits bool.splits if_splits)

text \<open>
  Two reissues of one asset in a block leave two undo records under its name, and only the first is looked at:
  the change the second made alone is not taken back.
\<close>

lemma second_reissue_not_undone:
  "let a = ex_asset ''GOLD'' 100; r1 = ex_reissue ''GOLD'' 0 2 []; r2 = ex_reissue ''GOLD'' 0 (-1) [1];
       b1 = reissued r1 a; b2 = reissued r2 b1; us = reissue_undo_data r1 a @ reissue_undo_data r2 b1
   in strIPFSHash (undo_reissue us r1 (undo_reissue us r2 b2)) = [1] \<and> strIPFSHash a = []"
  by code_simp

end
