(* ===== verification/XC_Connect.thy ===== *)
theory XC_Connect
  imports XC_CheckTx XC_Coins
begin

text \<open>
  Connecting and disconnecting the transactions of a block (\<^verbatim>\<open>UpdateCoins\<close>, \<^verbatim>\<open>ApplyTxInUndo\<close>,
  \<^verbatim>\<open>DisconnectBlock\<close>, \<^verbatim>\<open>ConnectBlock\<close> of \<^verbatim>\<open>src/src/validation.cpp\<close>, \<^verbatim>\<open>AddCoins\<close>, \<^verbatim>\<open>HaveInputs\<close>,
  \<^verbatim>\<open>AccessByTxid\<close> of \<^verbatim>\<open>src/src/coins.cpp\<close>, \<^verbatim>\<open>CheckTxInputs\<close> of \<^verbatim>\<open>src/src/consensus/tx_verify.cpp\<close>), as far as
  they concern the coins: the operations of the assets cache, the address indices and the script checks of
  \<^verbatim>\<open>ConnectBlock\<close> are not in this theory. \<open>bget\<close> is the \<^verbatim>\<open>GetCoin\<close> of the view below the cache.
\<close>

section \<open>Operations\<close>

text \<open>\<open>Abort\<close> is a failed assertion or an exception.\<close>

datatype 'a outcome = Accept 'a | Refuse reject | Abort

type_synonym 'b getter = "'b \<Rightarrow> COutPoint \<Rightarrow> Coin option \<times> 'b"

fun have_inputs ::
  "'b getter \<Rightarrow> base58_prefixes \<Rightarrow> CTransaction \<Rightarrow> nat list \<Rightarrow> 'b CCoinsViewCache \<Rightarrow> bool \<times> 'b CCoinsViewCache" where
  "have_inputs bget P tx [] c = (True, c)"
| "have_inputs bget P tx (i # is) c =
     (if IsXAccountDummyInput P tx i then have_inputs bget P tx is c
      else case HaveCoin bget c (prevout (vin tx ! i)) of
        (False, c') \<Rightarrow> (False, c') | (True, c') \<Rightarrow> have_inputs bget P tx is c')"

definition HaveInputs ::
  "'b getter \<Rightarrow> base58_prefixes \<Rightarrow> CTransaction \<Rightarrow> 'b CCoinsViewCache \<Rightarrow> bool \<times> 'b CCoinsViewCache" where
  "HaveInputs bget P tx c =
     (if IsCoinBase tx then (True, c) else have_inputs bget P tx [0..<length (vin tx)] c)"

abbreviation "COINBASE_MATURITY \<equiv> (100 :: int)"

fun sum_inputs ::
  "'b getter \<Rightarrow> base58_prefixes \<Rightarrow> int \<Rightarrow> CTransaction \<Rightarrow> nat list \<Rightarrow> CAmount \<Rightarrow> 'b CCoinsViewCache \<Rightarrow>
     CAmount outcome \<times> 'b CCoinsViewCache" where
  "sum_inputs bget P nSpendHeight tx [] nValueIn c = (Accept nValueIn, c)"
| "sum_inputs bget P nSpendHeight tx (i # is) nValueIn c =
     (if IsXAccountDummyInput P tx i then sum_inputs bget P nSpendHeight tx is nValueIn c
      else case AccessCoin bget c (prevout (vin tx ! i)) of
        (coin, c') \<Rightarrow>
          let v = nValue (coin_out coin)
          in if IsSpent coin then (Abort, c')
             else if fCoinBase coin \<and> nSpendHeight - int (coin_height coin) < COINBASE_MATURITY then
               (Refuse (0, ''bad-txns-premature-spend-of-coinbase''), c')
             else if \<not> MoneyRange v \<or> \<not> MoneyRange (nValueIn + v) then
               (Refuse (100, ''bad-txns-inputvalues-outofrange''), c')
             else sum_inputs bget P nSpendHeight tx is (nValueIn + v) c')"

definition fee_of :: "CTransaction \<Rightarrow> CAmount \<Rightarrow> CAmount outcome" where
  "fee_of tx nValueIn =
     (case GetValueOut True tx of
        None \<Rightarrow> Abort
      | Some value_out \<Rightarrow>
          if nValueIn < value_out then Refuse (100, ''bad-txns-in-belowout'')
          else if \<not> MoneyRange (nValueIn - value_out) then Refuse (100, ''bad-txns-fee-out-of-range'')
          else Accept (nValueIn - value_out))"

definition CheckTxInputs ::
  "'b getter \<Rightarrow> base58_prefixes \<Rightarrow> int \<Rightarrow> CTransaction \<Rightarrow> 'b CCoinsViewCache \<Rightarrow> CAmount outcome \<times> 'b CCoinsViewCache" where
  "CheckTxInputs bget P nSpendHeight tx c =
     (case HaveInputs bget P tx c of
        (False, c1) \<Rightarrow> (Refuse (100, ''bad-txns-inputs-missingorspent''), c1)
      | (True, c1) \<Rightarrow>
          (case sum_inputs bget P nSpendHeight tx [0..<length (vin tx)] 0 c1 of
             (Accept nValueIn, c2) \<Rightarrow> (fee_of tx nValueIn, c2)
           | (Refuse e, c2) \<Rightarrow> (Refuse e, c2)
           | (Abort, c2) \<Rightarrow> (Abort, c2)))"

text \<open>The spent coins of a transaction, for its undo record.\<close>

fun spend_inputs :: "'b getter \<Rightarrow> CTxIn list \<Rightarrow> 'b CCoinsViewCache \<Rightarrow> (Coin list \<times> 'b CCoinsViewCache) option" where
  "spend_inputs bget [] c = Some ([], c)"
| "spend_inputs bget (txin # ins) c =
     (if IsXAccountDummyPrevout (prevout txin) then
        map_option (\<lambda>(us, c'). (Coin_empty # us, c')) (spend_inputs bget ins c)
      else case SpendCoin bget (prevout txin) c of
        (None, c') \<Rightarrow> None
      | (Some coin, c') \<Rightarrow> map_option (\<lambda>(us, c''). (coin # us, c'')) (spend_inputs bget ins c'))"

definition out_point :: "uint256 \<Rightarrow> nat \<Rightarrow> COutPoint" where
  "out_point txid i = \<lparr>op_hash = txid, op_n = of_nat i\<rparr>"

fun add_outputs ::
  "'b getter \<Rightarrow> uint256 \<Rightarrow> nat \<Rightarrow> bool \<Rightarrow> bool \<Rightarrow> nat \<Rightarrow> CTxOut list \<Rightarrow> 'b CCoinsViewCache \<Rightarrow> 'b CCoinsViewCache option" where
  "add_outputs bget txid nHeight fCoinbase check i [] c = Some c"
| "add_outputs bget txid nHeight fCoinbase check i (o1 # os) c =
     (case (if check then HaveCoin bget c (out_point txid i) else (fCoinbase, c)) of
        (overwrite, c1) \<Rightarrow>
          (case AddCoin (out_point txid i) \<lparr>coin_out = o1, fCoinBase = fCoinbase, coin_height = nHeight\<rparr> overwrite c1 of
             None \<Rightarrow> None
           | Some c2 \<Rightarrow> add_outputs bget txid nHeight fCoinbase check (i + 1) os c2))"

definition AddCoins :: "'b getter \<Rightarrow> CTransaction \<Rightarrow> nat \<Rightarrow> bool \<Rightarrow> 'b CCoinsViewCache \<Rightarrow> 'b CCoinsViewCache option" where
  "AddCoins bget tx nHeight check c = add_outputs bget (Tx_GetHash tx) nHeight (IsCoinBase tx) check 0 (vout tx) c"

definition UpdateCoins :: "'b getter \<Rightarrow> CTransaction \<Rightarrow> nat \<Rightarrow> 'b CCoinsViewCache \<Rightarrow> (Coin list \<times> 'b CCoinsViewCache) option" where
  "UpdateCoins bget tx nHeight c =
     (case (if IsCoinBase tx then Some ([], c) else spend_inputs bget (vin tx) c) of
        None \<Rightarrow> None
      | Some (txundo, c1) \<Rightarrow> map_option (\<lambda>c2. (txundo, c2)) (AddCoins bget tx nHeight False c1))"

section \<open>Undoing\<close>

abbreviation "MIN_TRANSACTION_OUTPUT_WEIGHT \<equiv> WITNESS_SCALE_FACTOR * length (Serialize_CTxOut null_out)"

fun access_from :: "'b getter \<Rightarrow> uint256 \<Rightarrow> nat \<Rightarrow> nat \<Rightarrow> 'b CCoinsViewCache \<Rightarrow> Coin \<times> 'b CCoinsViewCache" where
  "access_from bget txid n 0 c = (Coin_empty, c)"
| "access_from bget txid n (Suc left) c =
     (case AccessCoin bget c (out_point txid n) of
        (alternate, c') \<Rightarrow> if \<not> IsSpent alternate then (alternate, c') else access_from bget txid (n + 1) left c')"

definition AccessByTxid :: "'b getter \<Rightarrow> 'b CCoinsViewCache \<Rightarrow> uint256 \<Rightarrow> Coin \<times> 'b CCoinsViewCache" where
  "AccessByTxid bget c txid = access_from bget txid 0 (GetMaxBlockWeight div MIN_TRANSACTION_OUTPUT_WEIGHT) c"

datatype DisconnectResult = DISCONNECT_OK | DISCONNECT_UNCLEAN | DISCONNECT_FAILED

definition restore_coin :: "Coin \<Rightarrow> COutPoint \<Rightarrow> bool \<Rightarrow> 'b CCoinsViewCache \<Rightarrow> (DisconnectResult \<times> 'b CCoinsViewCache) option" where
  "restore_coin undo k fClean c =
     map_option (\<lambda>c'. (if fClean then DISCONNECT_OK else DISCONNECT_UNCLEAN, c')) (AddCoin k undo (\<not> fClean) c)"

definition ApplyTxInUndo ::
  "'b getter \<Rightarrow> Coin \<Rightarrow> COutPoint \<Rightarrow> 'b CCoinsViewCache \<Rightarrow> (DisconnectResult \<times> 'b CCoinsViewCache) option" where
  "ApplyTxInUndo bget undo k c =
     (case HaveCoin bget c k of
        (have_it, c1) \<Rightarrow>
          if coin_height undo = 0 then
            (case AccessByTxid bget c1 (op_hash k) of
               (alternate, c2) \<Rightarrow>
                 if \<not> IsSpent alternate then
                   restore_coin (undo\<lparr>coin_height := coin_height alternate, fCoinBase := fCoinBase alternate\<rparr>) k (\<not> have_it) c2
                 else Some (DISCONNECT_FAILED, c2))
          else restore_coin undo k (\<not> have_it) c1)"

text \<open>The outputs of a transaction are removed, and each is compared with what the block created.\<close>

fun remove_outputs ::
  "'b getter \<Rightarrow> uint256 \<Rightarrow> nat \<Rightarrow> bool \<Rightarrow> nat \<Rightarrow> CTxOut list \<Rightarrow> 'b CCoinsViewCache \<Rightarrow> bool \<times> 'b CCoinsViewCache" where
  "remove_outputs bget txid nHeight is_coinbase i [] c = (True, c)"
| "remove_outputs bget txid nHeight is_coinbase i (o1 # os) c =
     (if IsUnspendable (scriptPubKey o1) then remove_outputs bget txid nHeight is_coinbase (i + 1) os c
      else case SpendCoin bget (out_point txid i) c of
        (r, c1) \<Rightarrow>
          let ok = (case r of None \<Rightarrow> False
                    | Some coin \<Rightarrow> o1 = coin_out coin \<and> nHeight = coin_height coin \<and> is_coinbase = fCoinBase coin)
          in case remove_outputs bget txid nHeight is_coinbase (i + 1) os c1 of (fClean, c2) \<Rightarrow> (ok \<and> fClean, c2))"

text \<open>The inputs, from the last to the first, with their coins.\<close>

fun restore_inputs ::
  "'b getter \<Rightarrow> (CTxIn \<times> Coin) list \<Rightarrow> 'b CCoinsViewCache \<Rightarrow> (DisconnectResult \<times> 'b CCoinsViewCache) option" where
  "restore_inputs bget [] c = Some (DISCONNECT_OK, c)"
| "restore_inputs bget ((txin, undo) # ins) c =
     (if IsXAccountDummyPrevout (prevout txin) then restore_inputs bget ins c
      else case ApplyTxInUndo bget undo (prevout txin) c of
        None \<Rightarrow> None
      | Some (DISCONNECT_FAILED, c1) \<Rightarrow> Some (DISCONNECT_FAILED, c1)
      | Some (res, c1) \<Rightarrow>
          map_option (\<lambda>(r, c2). (if r = DISCONNECT_OK then res else r, c2)) (restore_inputs bget ins c1))"

text \<open>One transaction; \<open>txundo\<close> is \<open>None\<close> for the first one of the block.\<close>

definition disconnect_tx ::
  "'b getter \<Rightarrow> CTransaction \<Rightarrow> Coin list option \<Rightarrow> nat \<Rightarrow> 'b CCoinsViewCache \<Rightarrow> (DisconnectResult \<times> 'b CCoinsViewCache) option" where
  "disconnect_tx bget tx txundo nHeight c =
     (case remove_outputs bget (Tx_GetHash tx) nHeight (IsCoinBase tx) 0 (vout tx) c of
        (fClean, c1) \<Rightarrow>
          (case txundo of
             None \<Rightarrow> Some (if fClean then DISCONNECT_OK else DISCONNECT_UNCLEAN, c1)
           | Some vprevout \<Rightarrow>
               if length vprevout \<noteq> length (vin tx) then Some (DISCONNECT_FAILED, c1)
               else map_option (\<lambda>(r, c2). (if r = DISCONNECT_OK \<and> \<not> fClean then DISCONNECT_UNCLEAN else r, c2))
                 (restore_inputs bget (rev (zip (vin tx) vprevout)) c1)))"

fun disconnect_txs ::
  "'b getter \<Rightarrow> (CTransaction \<times> Coin list option) list \<Rightarrow> nat \<Rightarrow> 'b CCoinsViewCache \<Rightarrow>
     (DisconnectResult \<times> 'b CCoinsViewCache) option" where
  "disconnect_txs bget [] nHeight c = Some (DISCONNECT_OK, c)"
| "disconnect_txs bget ((tx, txundo) # txs) nHeight c =
     (case disconnect_tx bget tx txundo nHeight c of
        None \<Rightarrow> None
      | Some (DISCONNECT_FAILED, c1) \<Rightarrow> Some (DISCONNECT_FAILED, c1)
      | Some (res, c1) \<Rightarrow>
          map_option (\<lambda>(r, c2). (if r = DISCONNECT_OK then res else r, c2)) (disconnect_txs bget txs nHeight c1))"

text \<open>\<open>vtxundo\<close> is the undo record of the block and \<open>hashPrev\<close> the block before it.\<close>

definition DisconnectBlock ::
  "'b getter \<Rightarrow> CBlock \<Rightarrow> Coin list list \<Rightarrow> nat \<Rightarrow> uint256 \<Rightarrow> 'b CCoinsViewCache \<Rightarrow>
     (DisconnectResult \<times> 'b CCoinsViewCache) option" where
  "DisconnectBlock bget block vtxundo nHeight hashPrev c =
     (if length vtxundo + 1 \<noteq> length (vtx block) then Some (DISCONNECT_FAILED, c)
      else case disconnect_txs bget (rev (zip (vtx block) (None # map Some vtxundo))) nHeight c of
        None \<Rightarrow> None
      | Some (DISCONNECT_FAILED, c1) \<Rightarrow> Some (DISCONNECT_FAILED, c1)
      | Some (r, c1) \<Rightarrow> Some (r, SetBestBlock hashPrev c1))"

section \<open>Connecting\<close>

text \<open>The transaction loop of \<^verbatim>\<open>ConnectBlock\<close>: the fees, and the undo records of all but the first transaction.\<close>

fun connect_txs ::
  "'b getter \<Rightarrow> base58_prefixes \<Rightarrow> nat \<Rightarrow> bool \<Rightarrow> CTransaction list \<Rightarrow> CAmount \<Rightarrow> 'b CCoinsViewCache \<Rightarrow>
     (CAmount \<times> Coin list list) outcome \<times> 'b CCoinsViewCache" where
  "connect_txs bget P nHeight first [] nFees c = (Accept (nFees, []), c)"
| "connect_txs bget P nHeight first (tx # txs) nFees c =
     (case (if IsCoinBase tx then (Accept 0, c) else CheckTxInputs bget P (int nHeight) tx c) of
        (Refuse e, c1) \<Rightarrow> (Refuse e, c1)
      | (Abort, c1) \<Rightarrow> (Abort, c1)
      | (Accept txfee, c1) \<Rightarrow>
          if \<not> IsCoinBase tx \<and> \<not> MoneyRange (nFees + txfee) then
            (Refuse (100, ''bad-txns-accumulated-fee-outofrange''), c1)
          else
            (case UpdateCoins bget tx nHeight c1 of
               None \<Rightarrow> (Abort, c1)
             | Some (txundo, c2) \<Rightarrow>
                 (case connect_txs bget P nHeight False txs (nFees + txfee) c2 of
                    (Accept (fees, us), c3) \<Rightarrow> (Accept (fees, if first then us else txundo # us), c3)
                  | r \<Rightarrow> r)))"

text \<open>With the check of what the coinbase pays; \<open>interval\<close> is \<^verbatim>\<open>nSubsidyHalvingInterval\<close>.\<close>

definition connect_coins ::
  "'b getter \<Rightarrow> base58_prefixes \<Rightarrow> int \<Rightarrow> nat \<Rightarrow> uint256 \<Rightarrow> CBlock \<Rightarrow> 'b CCoinsViewCache \<Rightarrow>
     Coin list list outcome \<times> 'b CCoinsViewCache" where
  "connect_coins bget P interval nHeight hash block c =
     (case connect_txs bget P nHeight True (vtx block) 0 c of
        (Refuse e, c1) \<Rightarrow> (Refuse e, c1)
      | (Abort, c1) \<Rightarrow> (Abort, c1)
      | (Accept (nFees, blockundo), c1) \<Rightarrow>
          (case GetValueOut True (vtx block ! 0) of
             None \<Rightarrow> (Abort, c1)
           | Some v \<Rightarrow>
               if nFees + GetBlockSubsidy (int nHeight) interval < v then (Refuse (100, ''bad-cb-amount''), c1)
               else (Accept blockundo, SetBestBlock hash c1)))"

section \<open>The set of coins\<close>

text \<open>What a transaction does to the set of unspent coins.\<close>

definition real_inputs :: "CTxIn list \<Rightarrow> COutPoint list" where
  "real_inputs ins = map prevout (filter (\<lambda>i. \<not> IsXAccountDummyPrevout (prevout i)) ins)"

definition remove_spent :: "CTxIn list \<Rightarrow> utxos \<Rightarrow> utxos" where
  "remove_spent ins U = U |` (- set (real_inputs ins))"

fun created :: "uint256 \<Rightarrow> nat \<Rightarrow> bool \<Rightarrow> nat \<Rightarrow> CTxOut list \<Rightarrow> (COutPoint \<times> Coin) list" where
  "created txid h cb i [] = []"
| "created txid h cb i (o1 # os) =
     (if IsUnspendable (scriptPubKey o1) then created txid h cb (i + 1) os
      else (out_point txid i, \<lparr>coin_out = o1, fCoinBase = cb, coin_height = h\<rparr>) # created txid h cb (i + 1) os)"

definition tx_created :: "nat \<Rightarrow> CTransaction \<Rightarrow> (COutPoint \<times> Coin) list" where
  "tx_created h tx = created (Tx_GetHash tx) h (IsCoinBase tx) 0 (vout tx)"

definition tx_spends :: "CTransaction \<Rightarrow> COutPoint list" where
  "tx_spends tx = (if IsCoinBase tx then [] else real_inputs (vin tx))"

definition undo_coins :: "utxos \<Rightarrow> CTxIn list \<Rightarrow> Coin list" where
  "undo_coins U ins = map (\<lambda>i. if IsXAccountDummyPrevout (prevout i) then Coin_empty else the (U (prevout i))) ins"

definition connect_spec :: "nat \<Rightarrow> CTransaction \<Rightarrow> utxos \<Rightarrow> utxos" where
  "connect_spec h tx U = (U |` (- set (tx_spends tx))) ++ map_of (tx_created h tx)"

text \<open>When a transaction fits the set: its inputs are there, and its outputs are new and in range.\<close>

definition outputs_ok :: "CTransaction \<Rightarrow> bool" where
  "outputs_ok tx \<longleftrightarrow> list_all (\<lambda>o1. 0 \<le> nValue o1) (vout tx) \<and> length (vout tx) \<le> 2 ^ 32"

definition tx_fresh :: "utxos \<Rightarrow> CTransaction \<Rightarrow> bool" where
  "tx_fresh U tx \<longleftrightarrow> (\<forall>i < length (vout tx). U (out_point (Tx_GetHash tx) i) = None)"

definition tx_fits :: "utxos \<Rightarrow> CTransaction \<Rightarrow> bool" where
  "tx_fits U tx \<longleftrightarrow> outputs_ok tx \<and> distinct (tx_spends tx) \<and> (\<forall>k \<in> set (tx_spends tx). U k \<noteq> None) \<and>
     tx_fresh (U |` (- set (tx_spends tx))) tx"

lemma real_inputs_simps [simp]:
  "real_inputs [] = []"
  "real_inputs (i # is) = (if IsXAccountDummyPrevout (prevout i) then real_inputs is else prevout i # real_inputs is)"
  by (simp_all add: real_inputs_def)

lemma out_point_inject: "i < 2 ^ 32 \<Longrightarrow> j < 2 ^ 32 \<Longrightarrow> out_point t i = out_point t j \<longleftrightarrow> i = j"
  by (auto simp: out_point_def take_bit_nat_eq_self_iff dest!: arg_cong [where f = unat] simp: unat_of_nat)

lemma created_keys:
  "k \<in> fst ` set (created txid h cb i os) \<Longrightarrow> \<exists>j. i \<le> j \<and> j < i + length os \<and> k = out_point txid j"
proof (induction os arbitrary: i)
  case (Cons o1 os)
  then consider "k = out_point txid i" | "k \<in> fst ` set (created txid h cb (i + 1) os)"
    by (auto split: if_splits)
  then show ?case
  proof cases
    case 1
    then show ?thesis by auto
  next
    case 2
    from Cons.IH [OF this] obtain j where "i + 1 \<le> j" "j < i + 1 + length os" "k = out_point txid j" by blast
    then show ?thesis by (intro exI [of _ j]) simp
  qed
qed simp

lemma created_new:
  assumes "i + length (o1 # os) \<le> 2 ^ 32"
  shows "out_point txid i \<notin> fst ` set (created txid h cb (i + 1) os)"
proof
  assume "out_point txid i \<in> fst ` set (created txid h cb (i + 1) os)"
  then obtain j where "i + 1 \<le> j" "j < i + 1 + length os" "out_point txid i = out_point txid j"
    using created_keys by blast
  then show False using assms out_point_inject [of i j txid] by simp
qed

lemma created_distinct: "i + length os \<le> 2 ^ 32 \<Longrightarrow> distinct (map fst (created txid h cb i os))"
proof (induction os arbitrary: i)
  case (Cons o1 os)
  then show ?case using created_new [OF Cons.prems, of txid h cb] by simp
qed simp

lemma map_add_Cons:
  assumes "k \<notin> fst ` set l"
  shows "U(k \<mapsto> v) ++ map_of l = U ++ map_of ((k, v) # l)"
proof -
  have "map_of l k = None" using assms by (simp add: map_of_eq_None_iff)
  then show ?thesis by (auto simp: map_add_def fun_eq_iff split: option.splits)
qed

lemma restrict_all [simp]: "U |` UNIV = U"
  by (simp add: restrict_map_def)

text \<open>Undoing: the coins a record restores, and the coins that can be restored.\<close>

definition undo_pairs :: "(CTxIn \<times> Coin) list \<Rightarrow> (COutPoint \<times> Coin) list" where
  "undo_pairs ps = map (\<lambda>(i, u). (prevout i, u)) (filter (\<lambda>(i, u). \<not> IsXAccountDummyPrevout (prevout i)) ps)"

definition coin_ok :: "Coin \<Rightarrow> bool" where
  "coin_ok coin \<longleftrightarrow> \<not> IsSpent coin \<and> \<not> IsUnspendable (scriptPubKey (coin_out coin)) \<and> 0 < coin_height coin"

definition coins_wf :: "utxos \<Rightarrow> bool" where
  "coins_wf U \<longleftrightarrow> (\<forall>k coin. U k = Some coin \<longrightarrow> coin_ok coin)"

lemma created_fresh: "tx_fresh U tx \<Longrightarrow> k \<in> fst ` set (tx_created h tx) \<Longrightarrow> U k = None"
  unfolding tx_created_def using created_keys [of k "Tx_GetHash tx" h "IsCoinBase tx" 0 "vout tx"]
  by (auto simp: tx_fresh_def)

lemma remove_created:
  assumes "\<And>k. k \<in> fst ` set l \<Longrightarrow> U k = None"
  shows "(U ++ map_of l) |` (- fst ` set l) = U"
proof
  fix k
  have "k \<notin> fst ` set l \<Longrightarrow> map_of l k = None" by (simp add: map_of_eq_None_iff)
  then show "((U ++ map_of l) |` (- fst ` set l)) k = U k"
    using assms [of k] by (cases "k \<in> fst ` set l") (simp_all add: map_add_def)
qed

lemma undo_pairs_undo_coins:
  "undo_pairs (zip ins (undo_coins U ins)) = map (\<lambda>k. (k, the (U k))) (real_inputs ins)"
  by (induction ins) (simp_all add: undo_pairs_def undo_coins_def)

lemma undo_pairs_rev: "undo_pairs (rev ps) = rev (undo_pairs ps)"
  by (simp add: undo_pairs_def rev_map rev_filter)

lemma undo_pairs_restore:
  fixes U :: utxos and ins :: "CTxIn list"
  defines "qs \<equiv> undo_pairs (rev (zip ins (undo_coins U ins)))"
  assumes wf: "coins_wf U" and ok: "distinct (real_inputs ins)" "\<forall>k \<in> set (real_inputs ins). U k \<noteq> None"
  shows "distinct (map fst qs)"
    and "\<forall>(k, undo) \<in> set qs. (U |` (- set (real_inputs ins))) k = None \<and> coin_ok undo"
    and "(U |` (- set (real_inputs ins))) ++ map_of qs = U"
proof -
  have q: "qs = rev (map (\<lambda>k. (k, the (U k))) (real_inputs ins))"
    by (simp add: qs_def undo_pairs_rev undo_pairs_undo_coins)
  show d: "distinct (map fst qs)" using ok(1) by (simp add: q rev_map [symmetric] comp_def)
  show "\<forall>(k, undo) \<in> set qs. (U |` (- set (real_inputs ins))) k = None \<and> coin_ok undo"
    using wf ok(2) by (auto simp: q coins_wf_def)
  show "(U |` (- set (real_inputs ins))) ++ map_of qs = U"
  proof
    fix k
    show "((U |` (- set (real_inputs ins))) ++ map_of qs) k = U k"
    proof (cases "k \<in> set (real_inputs ins)")
      case True
      then have "(k, the (U k)) \<in> set qs" by (auto simp: q)
      then have "map_of qs k = Some (the (U k))" using d by (simp add: map_of_is_SomeI)
      moreover have "U k \<noteq> None" using ok(2) True by blast
      ultimately show ?thesis by (auto simp: map_add_def)
    next
      case False
      then have "map_of qs k = None" by (auto simp: q map_of_eq_None_iff)
      then show ?thesis using False by (simp add: map_add_def)
    qed
  qed
qed

context coins_view
begin

lemma have_tip: "cok c \<Longrightarrow> cache_tip tip (snd (HaveCoin get c k)) = cache_tip tip c"
  using fetch_keeps(3) [of c k "fst (FetchCoin get c k)" "snd (FetchCoin get c k)"]
  by (auto simp: HaveCoin_def split: prod.splits option.splits)

lemma spend_inputs_spec:
  "cok c \<Longrightarrow> distinct (real_inputs ins) \<Longrightarrow> \<forall>k \<in> set (real_inputs ins). coins c k \<noteq> None \<Longrightarrow>
   \<exists>c'. spend_inputs get ins c =
       Some (undo_coins (coins c) ins, c') \<and>
     cok c' \<and> coins c' = remove_spent ins (coins c) \<and> cache_tip tip c' = cache_tip tip c"
proof (induction ins arbitrary: c)
  case Nil
  then show ?case by (simp add: remove_spent_def undo_coins_def)
next
  case (Cons i ins)
  show ?case
  proof (cases "IsXAccountDummyPrevout (prevout i)")
    case True
    then show ?thesis using Cons.IH [OF Cons.prems(1)] Cons.prems(2,3) by (auto simp: remove_spent_def undo_coins_def)
  next
    case False
    let ?k = "prevout i"
    obtain coin where coin: "coins c ?k = Some coin" using Cons.prems(3) False by auto
    obtain r c1 where s: "SpendCoin get ?k c = (r, c1)" by (cases "SpendCoin get ?k c")
    note sp = spend_spec [OF Cons.prems(1) s]
    have r: "r = Some coin" using sp(4) coin by simp
    have d: "?k \<notin> set (real_inputs ins)" "distinct (real_inputs ins)" using Cons.prems(2) False by simp_all
    have "\<forall>k \<in> set (real_inputs ins). coins c1 k \<noteq> None" using Cons.prems(3) False d(1) sp(2) by auto
    from Cons.IH [OF sp(1) d(2) this] obtain c' where c':
      "spend_inputs get ins c1 = Some (undo_coins (coins c1) ins, c')"
      "cok c'" "coins c' = remove_spent ins (coins c1)" "cache_tip tip c' = cache_tip tip c1" by blast
    have m: "undo_coins (coins c1) ins =
        undo_coins (coins c) ins"
      unfolding undo_coins_def
    proof (rule map_cong [OF refl])
      fix x assume "x \<in> set ins"
      then have "IsXAccountDummyPrevout (prevout x) \<or> prevout x \<noteq> ?k" using d(1) by (auto simp: real_inputs_def image_iff)
      then show "(if IsXAccountDummyPrevout (prevout x) then Coin_empty else the (coins c1 (prevout x))) =
          (if IsXAccountDummyPrevout (prevout x) then Coin_empty else the (coins c (prevout x)))"
        using sp(2) by auto
    qed
    have "coins c' = remove_spent (i # ins) (coins c)"
      using c'(3) sp(2) False by (auto simp: remove_spent_def restrict_map_def fun_eq_iff)
    then show ?thesis using c' s r m coin False sp(3) by (simp add: undo_coins_def)
  qed
qed

lemma add_outputs_spec:
  assumes "cok c" "list_all (\<lambda>o1. 0 \<le> nValue o1) os" "i + length os \<le> 2 ^ 32"
    and "\<forall>j. i \<le> j \<and> j < i + length os \<longrightarrow> coins c (out_point txid j) = None"
  shows "\<exists>c'. add_outputs get txid h cb False i os c = Some c' \<and> cok c' \<and>
     coins c' = coins c ++ map_of (created txid h cb i os) \<and> cache_tip tip c' = cache_tip tip c"
  using assms
proof (induction os arbitrary: i c)
  case Nil
  then show ?case by simp
next
  case (Cons o1 os)
  let ?k = "out_point txid i" and ?coin = "\<lparr>coin_out = o1, fCoinBase = cb, coin_height = h\<rparr>"
  have us: "\<not> IsSpent ?coin" using Cons.prems(2) by (simp add: IsSpent_def)
  have "coins c ?k = None" using Cons.prems(4) by simp
  then obtain c1 where c1: "AddCoin ?k ?coin cb c = Some c1" "cok c1" "cache_tip tip c1 = cache_tip tip c"
      "coins c1 = (if IsUnspendable (scriptPubKey o1) then coins c else (coins c)(?k \<mapsto> ?coin))"
    using add_spec [OF Cons.prems(1) us, of cb ?k] by auto
  have "coins c1 (out_point txid j) = None" if "i + 1 \<le> j" "j < i + 1 + length os" for j
    using Cons.prems(3,4) that c1(4) out_point_inject [of j i txid] by auto
  then obtain c' where c': "add_outputs get txid h cb False (i + 1) os c1 = Some c'" "cok c'"
      "coins c' = coins c1 ++ map_of (created txid h cb (i + 1) os)" "cache_tip tip c' = cache_tip tip c1"
    using Cons.IH [OF c1(2), of "i + 1"] Cons.prems(2,3) by auto
  have nk: "?k \<notin> fst ` set (created txid h cb (i + 1) os)"
    by (rule created_new [OF Cons.prems(3)])
  have "coins c' = coins c ++ map_of (created txid h cb i (o1 # os))"
    using c'(3) c1(4) map_add_Cons [OF nk] by simp
  then show ?case using c1 c' by simp
qed

lemma update_coins_spec:
  assumes "cok c" "tx_fits (coins c) tx"
  shows "\<exists>c'. UpdateCoins get tx h c =
      Some (if IsCoinBase tx then [] else
        undo_coins (coins c) (vin tx), c') \<and>
    cok c' \<and> coins c' = connect_spec h tx (coins c) \<and> cache_tip tip c' = cache_tip tip c"
proof -
  define us where "us = (if IsCoinBase tx then [] else
      undo_coins (coins c) (vin tx))"
  have f: "outputs_ok tx" "distinct (tx_spends tx)" "\<forall>k \<in> set (tx_spends tx). coins c k \<noteq> None"
    "tx_fresh (coins c |` (- set (tx_spends tx))) tx" using assms(2) by (simp_all add: tx_fits_def)
  obtain c1 where c1: "(if IsCoinBase tx then Some ([], c) else spend_inputs get (vin tx) c) = Some (us, c1)"
      "cok c1" "coins c1 = coins c |` (- set (tx_spends tx))" "cache_tip tip c1 = cache_tip tip c"
    using spend_inputs_spec [OF assms(1), of "vin tx"] f(2,3) assms(1)
    by (cases "IsCoinBase tx") (auto simp: us_def tx_spends_def remove_spent_def)
  have "\<forall>j. 0 \<le> j \<and> j < 0 + length (vout tx) \<longrightarrow> coins c1 (out_point (Tx_GetHash tx) j) = None"
    using f(4) c1(3) by (simp add: tx_fresh_def)
  from add_outputs_spec [OF c1(2) _ _ this, of h "IsCoinBase tx"] obtain c2
    where "add_outputs get (Tx_GetHash tx) h (IsCoinBase tx) False 0 (vout tx) c1 = Some c2" "cok c2"
      "coins c2 = connect_spec h tx (coins c)" "cache_tip tip c2 = cache_tip tip c"
    using f(1) c1(3,4) by (auto simp: outputs_ok_def connect_spec_def tx_created_def)
  then show ?thesis using c1(1) unfolding us_def [symmetric] by (simp add: UpdateCoins_def AddCoins_def)
qed

lemma remove_outputs_spec:
  assumes "cok c" "i + length os \<le> 2 ^ 32" "\<forall>(k, coin) \<in> set (created txid h cb i os). coins c k = Some coin"
  shows "\<exists>c'. remove_outputs get txid h cb i os c = (True, c') \<and> cok c' \<and> cache_tip tip c' = cache_tip tip c \<and>
    coins c' = coins c |` (- fst ` set (created txid h cb i os))"
  using assms
proof (induction os arbitrary: i c)
  case Nil
  then show ?case by simp
next
  case (Cons o1 os)
  show ?case
  proof (cases "IsUnspendable (scriptPubKey o1)")
    case True
    then show ?thesis using Cons.IH [OF Cons.prems(1), of "i + 1"] Cons.prems(2,3) by simp
  next
    case False
    let ?k = "out_point txid i" and ?coin = "\<lparr>coin_out = o1, fCoinBase = cb, coin_height = h\<rparr>"
    obtain r c1 where s: "SpendCoin get ?k c = (r, c1)" by (cases "SpendCoin get ?k c")
    note sp = spend_spec [OF Cons.prems(1) s]
    have r: "r = Some ?coin" using sp(4) Cons.prems(3) False by simp
    have nk: "?k \<notin> fst ` set (created txid h cb (i + 1) os)" by (rule created_new [OF Cons.prems(2)])
    then have "\<forall>(k, coin) \<in> set (created txid h cb (i + 1) os). coins c1 k = Some coin"
      using Cons.prems(3) False sp(2) by force
    then obtain c' where c': "remove_outputs get txid h cb (i + 1) os c1 = (True, c')" "cok c'"
        "cache_tip tip c' = cache_tip tip c1" "coins c' = coins c1 |` (- fst ` set (created txid h cb (i + 1) os))"
      using Cons.IH [OF sp(1), of "i + 1"] Cons.prems(2) by auto
    have "coins c' = coins c |` (- fst ` set (created txid h cb i (o1 # os)))"
      using c'(4) sp(2) False by (auto simp: restrict_map_def fun_eq_iff)
    then show ?thesis using s r c' False sp(3) by simp
  qed
qed

lemma apply_undo_spec:
  assumes "cok c" "coins c k = None" "coin_ok undo"
  shows "\<exists>c'. ApplyTxInUndo get undo k c = Some (DISCONNECT_OK, c') \<and> cok c' \<and> cache_tip tip c' = cache_tip tip c \<and>
    coins c' = (coins c)(k \<mapsto> undo)"
proof -
  obtain b c1 where h: "HaveCoin get c k = (b, c1)" by (cases "HaveCoin get c k")
  have c1: "cok c1" "coins c1 = coins c" "\<not> b" "cache_tip tip c1 = cache_tip tip c"
    using read_keeps(5-7) [OF assms(1), of k] h assms(2) have_tip [OF assms(1), of k] by simp_all
  then show ?thesis
    using add_spec [OF c1(1), of undo False k] assms(2,3) h
    by (auto simp: ApplyTxInUndo_def restore_coin_def coin_ok_def)
qed

lemma restore_inputs_spec:
  assumes "cok c" "distinct (map fst (undo_pairs ps))"
    and "\<forall>(k, undo) \<in> set (undo_pairs ps). coins c k = None \<and> coin_ok undo"
  shows "\<exists>c'. restore_inputs get ps c = Some (DISCONNECT_OK, c') \<and> cok c' \<and> cache_tip tip c' = cache_tip tip c \<and>
    coins c' = coins c ++ map_of (undo_pairs ps)"
  using assms
proof (induction ps arbitrary: c)
  case Nil
  then show ?case by (simp add: undo_pairs_def)
next
  case (Cons p ps)
  obtain i undo where p: "p = (i, undo)" by (cases p)
  show ?case
  proof (cases "IsXAccountDummyPrevout (prevout i)")
    case True
    then show ?thesis using Cons.IH [OF Cons.prems(1)] Cons.prems(2,3) by (simp add: p undo_pairs_def)
  next
    case False
    let ?k = "prevout i"
    have e: "undo_pairs (p # ps) = (?k, undo) # undo_pairs ps" using False by (simp add: p undo_pairs_def)
    obtain c1 where c1: "ApplyTxInUndo get undo ?k c = Some (DISCONNECT_OK, c1)" "cok c1"
        "cache_tip tip c1 = cache_tip tip c" "coins c1 = (coins c)(?k \<mapsto> undo)"
      using apply_undo_spec [OF Cons.prems(1), of ?k undo] Cons.prems(3) e by auto
    have nk: "?k \<notin> fst ` set (undo_pairs ps)" "distinct (map fst (undo_pairs ps))" using Cons.prems(2) e by simp_all
    have "\<forall>(k, undo) \<in> set (undo_pairs ps). coins c1 k = None \<and> coin_ok undo"
      using Cons.prems(3) e nk(1) c1(4) by force
    then obtain c' where "restore_inputs get ps c1 = Some (DISCONNECT_OK, c')" "cok c'"
        "cache_tip tip c' = cache_tip tip c1" "coins c' = coins c1 ++ map_of (undo_pairs ps)"
      using Cons.IH [OF c1(2) nk(2)] by blast
    moreover have "coins c1 ++ map_of (undo_pairs ps) = coins c ++ map_of (undo_pairs (p # ps))"
      unfolding c1(4) e by (rule map_add_Cons [OF nk(1)])
    ultimately show ?thesis using c1(1,3) False by (simp add: p)
  qed
qed

lemma disconnect_tx_spec:
  assumes "cok c" "coins c = connect_spec h tx U" "tx_fits U tx" "coins_wf U"
    and "txundo = (if IsCoinBase tx then None else Some (undo_coins U (vin tx)))"
  shows "\<exists>c'. disconnect_tx get tx txundo h c = Some (DISCONNECT_OK, c') \<and> cok c' \<and> coins c' = U \<and>
    cache_tip tip c' = cache_tip tip c"
proof -
  let ?S = "set (tx_spends tx)" and ?cr = "tx_created h tx"
  have f: "length (vout tx) \<le> 2 ^ 32" "distinct (tx_spends tx)" "\<forall>k \<in> ?S. U k \<noteq> None" "tx_fresh (U |` (- ?S)) tx"
    using assms(3) by (simp_all add: tx_fits_def outputs_ok_def)
  have d: "distinct (map fst ?cr)" using created_distinct [of 0 "vout tx"] f(1) by (simp add: tx_created_def)
  have "\<forall>(k, coin) \<in> set ?cr. coins c k = Some coin"
    using assms(2) d by (auto simp: connect_spec_def map_add_def split: option.splits)
  then obtain c1 where c1: "remove_outputs get (Tx_GetHash tx) h (IsCoinBase tx) 0 (vout tx) c = (True, c1)" "cok c1"
      "cache_tip tip c1 = cache_tip tip c" "coins c1 = coins c |` (- fst ` set ?cr)"
    using remove_outputs_spec [OF assms(1), of 0 "vout tx" "Tx_GetHash tx" h "IsCoinBase tx"] f(1)
    by (auto simp: tx_created_def)
  have U1: "coins c1 = U |` (- ?S)" using c1(4) assms(2) created_fresh [OF f(4)] by (simp add: connect_spec_def remove_created)
  show ?thesis
  proof (cases "IsCoinBase tx")
    case True
    then show ?thesis using c1 U1 assms(5) by (simp add: disconnect_tx_def tx_spends_def)
  next
    case False
    have S: "tx_spends tx = real_inputs (vin tx)" using False by (simp add: tx_spends_def)
    note u = undo_pairs_restore [OF assms(4) f(2,3) [unfolded S]]
    obtain c2 where "restore_inputs get (rev (zip (vin tx) (undo_coins U (vin tx)))) c1 = Some (DISCONNECT_OK, c2)"
        "cok c2" "cache_tip tip c2 = cache_tip tip c1" "coins c2 = U"
      using restore_inputs_spec [OF c1(2) u(1)] u(2,3) S U1 by auto
    then show ?thesis using c1 False assms(5) by (simp add: disconnect_tx_def undo_coins_def)
  qed
qed

end

end
