(* ===== verification/XC_Block.thy ===== *)
theory XC_Block
  imports XC_Connect
begin

text \<open>
  A whole block on the set of coins: the transaction part of \<^verbatim>\<open>CheckBlock\<close>, what connecting a block does to the
  coins and to their total, and that disconnecting it gives the old set back.
\<close>

section \<open>The transactions of a block\<close>

abbreviation "MAX_BLOCK_SIGOPS_COST \<equiv> (80000 :: nat)"

text \<open>
  \<^verbatim>\<open>CheckBlock\<close> after the header and the Merkle root; \<open>act\<close> is the time from which headers have the long format
  and \<open>fDBCheck\<close> is set for blocks that are read back from disk.
\<close>

definition check_block_txs ::
  "AssetParams \<Rightarrow> XAssignments \<Rightarrow> MempoolAssets \<Rightarrow> AssetType \<Rightarrow> u32 \<Rightarrow> bool \<Rightarrow> CBlock \<Rightarrow> reject option" where
  "check_block_txs A X M u act fDBCheck block =
     (if vtx block = [] \<or> GetMaxBlockWeight < length (vtx block) * WITNESS_SCALE_FACTOR \<or>
         GetMaxBlockWeight < length (Serialize_CBlock act False block) * WITNESS_SCALE_FACTOR then
        Some (100, ''bad-blk-length'')
      else if \<not> IsCoinBase (vtx block ! 0) then Some (100, ''bad-cb-missing'')
      else if list_ex IsCoinBase (tl (vtx block)) then Some (100, ''bad-cb-multiple'')
      else case first_error (CheckTransaction A X M u True False (\<not> fDBCheck)) (vtx block) of Some e \<Rightarrow> Some e
      | None \<Rightarrow>
          if MAX_BLOCK_SIGOPS_COST < sum_list (map GetLegacySigOpCount (vtx block)) * WITNESS_SCALE_FACTOR then
            Some (100, ''bad-blk-sigops'')
          else None)"

text \<open>What the checks of a single transaction give.\<close>

definition tx_wf :: "base58_prefixes \<Rightarrow> CTransaction \<Rightarrow> bool" where
  "tx_wf P tx \<longleftrightarrow> outputs_ok tx \<and> distinct (real_inputs (vin tx)) \<and>
     (\<forall>i < length (vin tx). IsXAccountDummyInput P tx i \<longleftrightarrow> IsXAccountDummyPrevout (prevout (vin tx ! i)))"

lemma length_concat_ge: "(\<And>x. x \<in> set xs \<Longrightarrow> 1 \<le> length (f x)) \<Longrightarrow> length xs \<le> length (concat (map f xs))"
proof (induction xs)
  case (Cons x xs)
  then have "1 \<le> length (f x)" "length xs \<le> length (concat (map f xs))" by simp_all
  then show ?case by simp
qed simp

lemma transaction_size_ge: "length (vout tx) \<le> length (SerializeTransaction False tx)"
proof -
  have "length (vout tx) \<le> length (concat (map Serialize_CTxOut (vout tx)))"
    by (rule length_concat_ge) (simp add: Serialize_CTxOut_def length_asset_ints)
  then show ?thesis by (simp add: SerializeTransaction_def Serialize_vector_def)
qed

lemma checked_tx_wf:
  assumes "CheckTransaction A X M u True fM fB tx = None"
  shows "tx_wf (prefixes A) tx"
proof -
  obtain st where c: "length (SerializeTransaction False tx) * WITNESS_SCALE_FACTOR \<le> GetMaxBlockWeight"
      "check_outputs A fM fB (vout tx) check_start = Inr st" "distinct (map prevout (vin tx))"
      "CheckXAccountDummyInputs (prefixes A) tx = None"
    using assms by (auto simp: CheckTransaction_accepts)
  have "\<forall>o1 \<in> set (vout tx). output_checked (prefixes A) fM fB o1"
    using check_outputs_ok [OF c(2)] by (auto simp: check_start_def MoneyRange_def)
  then have "list_all (\<lambda>o1. 0 \<le> nValue o1) (vout tx)" by (auto simp: list_all_iff output_checked_def MoneyRange_def)
  moreover have "length (vout tx) \<le> 2 ^ 32"
    using transaction_size_ge [of tx] c(1) by (simp add: GetMaxBlockWeight_def)
  moreover have "distinct (real_inputs (vin tx))" using c(3) by (simp add: real_inputs_def distinct_map inj_on_def)
  moreover have "IsXAccountDummyInput (prefixes A) tx i \<longleftrightarrow> IsXAccountDummyPrevout (prevout (vin tx ! i))"
    if "i < length (vin tx)" for i
  proof -
    have "IsXAccountIdentityClaim (prefixes A) tx" if "IsXAccountDummyPrevout (prevout (vin tx ! i))"
    proof -
      have "filter (\<lambda>i. IsXAccountDummyPrevout (prevout i)) (vin tx) \<noteq> []"
        using that \<open>i < length (vin tx)\<close> nth_mem by (auto simp: filter_empty_conv)
      then show ?thesis using c(4) by (auto simp: CheckXAccountDummyInputs_def Let_def split: if_splits)
    qed
    then show ?thesis using that by (auto simp: IsXAccountDummyInput_def)
  qed
  ultimately show ?thesis by (simp add: tx_wf_def outputs_ok_def)
qed

section \<open>Sums over the coins\<close>

definition coin_value :: "Coin \<Rightarrow> CAmount" where "coin_value coin = nValue (coin_out coin)"

definition total_of :: "(Coin \<Rightarrow> CAmount) \<Rightarrow> utxos \<Rightarrow> CAmount" where
  "total_of f U = (\<Sum>k \<in> dom U. f (the (U k)))"

definition total :: "utxos \<Rightarrow> CAmount" where "total U = total_of coin_value U"

lemma total_remove:
  assumes "finite (dom U)" "distinct ks" "\<forall>k \<in> set ks. U k \<noteq> None"
  shows "total_of f (U |` (- set ks)) = total_of f U - (\<Sum>k \<leftarrow> ks. f (the (U k)))"
proof -
  have ks: "set ks \<subseteq> dom U" using assms(3) by auto
  have "total_of f (U |` (- set ks)) = (\<Sum>k \<in> dom U - set ks. f (the (U k)))"
    unfolding total_of_def by (rule sum.cong) (auto simp: restrict_map_def split: if_splits)
  also have "\<dots> = total_of f U - (\<Sum>k \<in> set ks. f (the (U k)))"
    unfolding total_of_def by (rule sum_diff [OF assms(1) ks])
  finally show ?thesis using sum_list_distinct_conv_sum_set [OF assms(2), of "\<lambda>k. f (the (U k))"] by simp
qed

lemma total_add:
  assumes "finite (dom U)" "distinct (map fst l)" "\<And>k. k \<in> fst ` set l \<Longrightarrow> U k = None"
  shows "total_of f (U ++ map_of l) = total_of f U + (\<Sum>(k, coin) \<leftarrow> l. f coin)"
  using assms(2,3)
proof (induction l)
  case Nil
  then show ?case by simp
next
  case (Cons p l)
  obtain k coin where p: "p = (k, coin)" by (cases p)
  let ?V = "U ++ map_of l"
  have n: "map_of l k = None" "U k = None" using Cons.prems p by (auto simp: map_of_eq_None_iff)
  have "?V k = None" using n by (simp add: map_add_def)
  have e: "U ++ map_of (p # l) = ?V(k \<mapsto> coin)" by (simp add: p map_add_upd)
  have fin: "finite (dom ?V)" using assms(1) finite_dom_map_of [of l] by simp
  have k: "k \<notin> dom ?V" using \<open>?V k = None\<close> by (simp add: domIff)
  have "total_of f (?V(k \<mapsto> coin)) = f coin + (\<Sum>j \<in> dom ?V. f (the ((?V(k \<mapsto> coin)) j)))"
    using fin k by (simp add: total_of_def)
  also have "(\<Sum>j \<in> dom ?V. f (the ((?V(k \<mapsto> coin)) j))) = total_of f ?V"
    unfolding total_of_def using k by (intro sum.cong) auto
  finally show ?case unfolding e using Cons.IH Cons.prems by (simp add: p)
qed

text \<open>A transaction takes its inputs away and adds the coins of its outputs, whatever is counted.\<close>

lemma connect_spec_total_of:
  assumes "finite (dom U)" "tx_fits U tx"
  shows "total_of f (connect_spec h tx U) =
    total_of f U - (\<Sum>k \<leftarrow> tx_spends tx. f (the (U k))) + (\<Sum>(k, coin) \<leftarrow> tx_created h tx. f coin)"
proof -
  let ?V = "U |` (- set (tx_spends tx))"
  have f: "length (vout tx) \<le> 2 ^ 32" "distinct (tx_spends tx)" "\<forall>k \<in> set (tx_spends tx). U k \<noteq> None" "tx_fresh ?V tx"
    using assms(2) by (simp_all add: tx_fits_def outputs_ok_def)
  have "total_of f (connect_spec h tx U) = total_of f ?V + (\<Sum>(k, coin) \<leftarrow> tx_created h tx. f coin)"
    unfolding connect_spec_def
    by (rule total_add) (use assms(1) f(1) created_fresh [OF f(4)] created_distinct in \<open>auto simp: tx_created_def\<close>)
  then show ?thesis using total_remove [OF assms(1) f(2,3)] by simp
qed

lemma created_value:
  "list_all (\<lambda>o1. 0 \<le> nValue o1) os \<Longrightarrow> (\<Sum>(k, coin) \<leftarrow> created txid h cb i os. coin_value coin) \<le> (\<Sum>o1 \<leftarrow> os. nValue o1)"
proof (induction os arbitrary: i)
  case (Cons o1 os)
  then have "0 \<le> nValue o1" "(\<Sum>(k, coin) \<leftarrow> created txid h cb (i + 1) os. coin_value coin) \<le> (\<Sum>o1 \<leftarrow> os. nValue o1)"
    by simp_all
  then show ?case by (simp add: coin_value_def)
qed simp

lemma GetValueOut_sum: "GetValueOut True tx = Some v \<Longrightarrow> v = (\<Sum>o1 \<leftarrow> vout tx. nValue o1)"
proof -
  have "GetValueOut_loop True os n = Some v \<Longrightarrow> v = n + (\<Sum>o1 \<leftarrow> os. nValue o1)" for os n
    by (induction os arbitrary: n) (fastforce simp: add.assoc split: if_splits)+
  from this [of "vout tx" 0] show "GetValueOut True tx = Some v \<Longrightarrow> v = (\<Sum>o1 \<leftarrow> vout tx. nValue o1)" by (simp add: GetValueOut_def)
qed

lemma connect_spec_finite: "finite (dom U) \<Longrightarrow> finite (dom (connect_spec h tx U))"
  by (simp add: connect_spec_def finite_dom_map_of)

lemma connect_spec_total:
  assumes "finite (dom U)" "tx_fits U tx"
  shows "total (connect_spec h tx U) \<le>
    total U - (\<Sum>k \<leftarrow> tx_spends tx. coin_value (the (U k))) + (\<Sum>o1 \<leftarrow> vout tx. nValue o1)"
  using connect_spec_total_of [OF assms, of coin_value h] created_value [of "vout tx"] assms(2)
  by (simp add: total_def tx_created_def tx_fits_def outputs_ok_def)

section \<open>The block on the set of coins\<close>

fun block_spec :: "nat \<Rightarrow> CTransaction list \<Rightarrow> utxos \<Rightarrow> utxos" where
  "block_spec h [] U = U"
| "block_spec h (tx # txs) U = block_spec h txs (connect_spec h tx U)"

fun block_fits :: "nat \<Rightarrow> CTransaction list \<Rightarrow> utxos \<Rightarrow> bool" where
  "block_fits h [] U \<longleftrightarrow> True"
| "block_fits h (tx # txs) U \<longleftrightarrow> tx_fits U tx \<and> block_fits h txs (connect_spec h tx U)"

text \<open>No transaction creates an output that is already there.\<close>

fun block_fresh :: "nat \<Rightarrow> CTransaction list \<Rightarrow> utxos \<Rightarrow> bool" where
  "block_fresh h [] U \<longleftrightarrow> True"
| "block_fresh h (tx # txs) U \<longleftrightarrow>
     tx_fresh (U |` (- set (tx_spends tx))) tx \<and> block_fresh h txs (connect_spec h tx U)"

fun block_undo :: "nat \<Rightarrow> CTransaction list \<Rightarrow> utxos \<Rightarrow> Coin list list" where
  "block_undo h [] U = []"
| "block_undo h (tx # txs) U =
     (if IsCoinBase tx then [] else undo_coins U (vin tx)) # block_undo h txs (connect_spec h tx U)"

definition input_value :: "base58_prefixes \<Rightarrow> utxos \<Rightarrow> CTransaction \<Rightarrow> nat \<Rightarrow> CAmount" where
  "input_value P U tx i =
     (if IsXAccountDummyInput P tx i then 0 else coin_value (the (U (prevout (vin tx ! i)))))"

lemma input_sums:
  assumes "tx_wf P tx" "\<not> IsCoinBase tx"
  shows "(\<Sum>i \<leftarrow> [0..<length (vin tx)]. if IsXAccountDummyInput P tx i then 0 else f (the (U (prevout (vin tx ! i))))) =
    (\<Sum>k \<leftarrow> tx_spends tx. f (the (U k)) :: int)"
proof -
  let ?f = "\<lambda>txin. if IsXAccountDummyPrevout (prevout txin) then 0 else f (the (U (prevout txin)))"
  have "map (\<lambda>i. if IsXAccountDummyInput P tx i then 0 else f (the (U (prevout (vin tx ! i))))) [0..<length (vin tx)] =
      map (\<lambda>i. ?f (vin tx ! i)) [0..<length (vin tx)]"
    using assms(1) by (auto simp: tx_wf_def)
  also have "\<dots> = map ?f (map (\<lambda>i. vin tx ! i) [0..<length (vin tx)])" by simp
  also have "\<dots> = map ?f (vin tx)" by (simp add: map_nth)
  finally have "(\<Sum>i \<leftarrow> [0..<length (vin tx)]. if IsXAccountDummyInput P tx i then 0 else f (the (U (prevout (vin tx ! i))))) =
      sum_list (map ?f (vin tx))" by simp
  also have "sum_list (map ?f ins) = (\<Sum>k \<leftarrow> real_inputs ins. f (the (U k)))" for ins
    by (induction ins) simp_all
  finally show ?thesis using assms(2) by (simp add: tx_spends_def)
qed

lemma input_values:
  assumes "tx_wf P tx" "\<not> IsCoinBase tx"
  shows "(\<Sum>i \<leftarrow> [0..<length (vin tx)]. input_value P U tx i) = (\<Sum>k \<leftarrow> tx_spends tx. coin_value (the (U k)))"
  using input_sums [OF assms, of coin_value U] by (simp only: input_value_def)

lemma spends_iff:
  assumes "tx_wf P tx" "\<not> IsCoinBase tx"
  shows "k \<in> set (tx_spends tx) \<longleftrightarrow> (\<exists>i < length (vin tx). \<not> IsXAccountDummyInput P tx i \<and> k = prevout (vin tx ! i))"
proof -
  have "k \<in> set (tx_spends tx) \<longleftrightarrow> (\<exists>txin \<in> set (vin tx). \<not> IsXAccountDummyPrevout (prevout txin) \<and> k = prevout txin)"
    using assms(2) by (auto simp: tx_spends_def real_inputs_def)
  also have "\<dots> \<longleftrightarrow> (\<exists>i < length (vin tx). \<not> IsXAccountDummyPrevout (prevout (vin tx ! i)) \<and> k = prevout (vin tx ! i))"
    by (metis in_set_conv_nth)
  also have "\<dots> \<longleftrightarrow> (\<exists>i < length (vin tx). \<not> IsXAccountDummyInput P tx i \<and> k = prevout (vin tx ! i))"
    using assms(1) by (auto simp: tx_wf_def)
  finally show ?thesis .
qed

text \<open>The transactions with their undo records; the coinbase has none.\<close>

definition undo_list :: "nat \<Rightarrow> CTransaction list \<Rightarrow> utxos \<Rightarrow> (CTransaction \<times> Coin list option) list" where
  "undo_list h txs U = map (\<lambda>(tx, us). (tx, if IsCoinBase tx then None else Some us)) (zip txs (block_undo h txs U))"

lemma length_block_undo [simp]: "length (block_undo h txs U) = length txs"
  by (induction txs arbitrary: U) simp_all

lemma connect_spec_wf:
  assumes "coins_wf U" "outputs_ok tx" "0 < h"
  shows "coins_wf (connect_spec h tx U)"
proof -
  have "coin_ok coin" if "(k, coin) \<in> set (created txid h cb i os)" "list_all (\<lambda>o1. 0 \<le> nValue o1) os" for k coin txid cb i os
    using that by (induction os arbitrary: i) (auto simp: coin_ok_def IsSpent_def assms(3) split: if_splits)
  then have "coin_ok coin" if "map_of (tx_created h tx) k = Some coin" for k coin
    using map_of_SomeD [OF that] assms(2) unfolding tx_created_def outputs_ok_def by blast
  then show ?thesis using assms(1)
    by (auto simp: coins_wf_def connect_spec_def map_add_def restrict_map_def split: option.splits if_splits)
qed

lemma disconnect_append:
  "disconnect_txs bget xs h c = Some (DISCONNECT_OK, c1) \<Longrightarrow>
   disconnect_txs bget (xs @ ys) h c = disconnect_txs bget ys h c1"
proof (induction xs arbitrary: c)
  case (Cons p xs)
  obtain tx u where p: "p = (tx, u)" by (cases p)
  obtain c2 where "disconnect_tx bget tx u h c = Some (DISCONNECT_OK, c2)"
      "disconnect_txs bget xs h c2 = Some (DISCONNECT_OK, c1)"
    using Cons.prems by (auto simp: p split: option.splits prod.splits DisconnectResult.splits if_splits)
  then show ?case using Cons.IH [of c2] by (cases "disconnect_txs bget ys h c1") (auto simp: p)
qed simp

context coins_view
begin

lemma have_inputs_spec:
  "cok c \<Longrightarrow> have_inputs get P tx is c = (b, c') \<Longrightarrow>
   cok c' \<and> coins c' = coins c \<and> cache_tip tip c' = cache_tip tip c \<and>
   (b \<longleftrightarrow> (\<forall>i \<in> set is. \<not> IsXAccountDummyInput P tx i \<longrightarrow> coins c (prevout (vin tx ! i)) \<noteq> None))"
proof (induction "is" arbitrary: c)
  case (Cons i "is")
  obtain h c1 where h: "HaveCoin get c (prevout (vin tx ! i)) = (h, c1)" by (cases "HaveCoin get c (prevout (vin tx ! i))")
  have k: "cok c1" "coins c1 = coins c" "cache_tip tip c1 = cache_tip tip c" "h \<longleftrightarrow> coins c (prevout (vin tx ! i)) \<noteq> None"
    using read_keeps(5-7) [OF Cons.prems(1), of "prevout (vin tx ! i)"] have_tip [OF Cons.prems(1), of "prevout (vin tx ! i)"] h
    by simp_all
  show ?case
  proof (cases "IsXAccountDummyInput P tx i")
    case True
    then show ?thesis using Cons by simp
  next
    case False
    then show ?thesis using Cons.prems(2) Cons.IH [OF k(1)] k h by (cases h) auto
  qed
qed simp

lemma access_tip: "cok c \<Longrightarrow> cache_tip tip (snd (AccessCoin get c k)) = cache_tip tip c"
  using fetch_keeps(3) [of c k "fst (FetchCoin get c k)" "snd (FetchCoin get c k)"]
  by (auto simp: AccessCoin_def split: prod.splits option.splits)

lemma sum_inputs_spec:
  "cok c \<Longrightarrow> sum_inputs get P h tx is v c = (Accept v', c') \<Longrightarrow>
   cok c' \<and> coins c' = coins c \<and> cache_tip tip c' = cache_tip tip c \<and>
   v' = v + (\<Sum>i \<leftarrow> is. input_value P (coins c) tx i) \<and>
   (\<forall>i \<in> set is. \<not> IsXAccountDummyInput P tx i \<longrightarrow> (\<exists>coin. coins c (prevout (vin tx ! i)) = Some coin \<and>
      (fCoinBase coin \<longrightarrow> COINBASE_MATURITY \<le> h - int (coin_height coin))))"
proof (induction "is" arbitrary: c v)
  case (Cons i "is")
  show ?case
  proof (cases "IsXAccountDummyInput P tx i")
    case True
    then show ?thesis using Cons by (simp add: input_value_def)
  next
    case False
    let ?k = "prevout (vin tx ! i)"
    obtain coin c1 where a: "AccessCoin get c ?k = (coin, c1)" by (cases "AccessCoin get c ?k")
    have k: "cok c1" "coins c1 = coins c" "cache_tip tip c1 = cache_tip tip c" "unspent coin = coins c ?k"
      using read_keeps(8-10) [OF Cons.prems(1), of ?k] access_tip [OF Cons.prems(1), of ?k] a by simp_all
    have n: "\<not> IsSpent coin" "fCoinBase coin \<longrightarrow> COINBASE_MATURITY \<le> h - int (coin_height coin)"
      "sum_inputs get P h tx is (v + nValue (coin_out coin)) c1 = (Accept v', c')"
      using Cons.prems(2) False a by (auto simp: Let_def split: if_splits)
    have some: "coins c ?k = Some coin" using k(4) n(1) by (simp add: unspent_def)
    then have "input_value P (coins c) tx i = nValue (coin_out coin)" using False by (simp add: input_value_def coin_value_def)
    then show ?thesis using Cons.IH [OF k(1) n(3)] k n(2) some by auto
  qed
qed simp

lemma check_tx_inputs_spec:
  assumes "cok c" "CheckTxInputs get P (int h) tx c = (Accept txfee, c')" "tx_wf P tx" "\<not> IsCoinBase tx"
  shows "cok c'" "coins c' = coins c" "cache_tip tip c' = cache_tip tip c" "\<forall>k \<in> set (tx_spends tx). coins c k \<noteq> None"
    and "txfee = (\<Sum>k \<leftarrow> tx_spends tx. coin_value (the (coins c k))) - (\<Sum>o1 \<leftarrow> vout tx. nValue o1)"
proof -
  obtain b c1 where hi: "HaveInputs get P tx c = (b, c1)" by (cases "HaveInputs get P tx c")
  obtain v c2 where s: "sum_inputs get P (int h) tx [0..<length (vin tx)] 0 c1 = (Accept v, c2)" "c' = c2" "b"
      "fee_of tx v = Accept txfee"
    using assms(2) hi by (auto simp: CheckTxInputs_def split: bool.splits prod.splits outcome.splits)
  have c1: "cok c1" "coins c1 = coins c" "cache_tip tip c1 = cache_tip tip c"
    using have_inputs_spec [OF assms(1)] hi assms(1,4) by (auto simp: HaveInputs_def)
  note si = sum_inputs_spec [OF c1(1) s(1)]
  show "cok c'" "coins c' = coins c" "cache_tip tip c' = cache_tip tip c" using si s(2) c1 by simp_all
  show "\<forall>k \<in> set (tx_spends tx). coins c k \<noteq> None" using si c1(2) spends_iff [OF assms(3,4)] by fastforce
  have "v = (\<Sum>k \<leftarrow> tx_spends tx. coin_value (the (coins c k)))"
    using si c1(2) input_values [OF assms(3,4)] by simp
  moreover obtain vo where "GetValueOut True tx = Some vo" "txfee = v - vo"
    using s(4) by (auto simp: fee_of_def split: option.splits if_splits)
  ultimately show "txfee = (\<Sum>k \<leftarrow> tx_spends tx. coin_value (the (coins c k))) - (\<Sum>o1 \<leftarrow> vout tx. nValue o1)"
    using GetValueOut_sum by simp
qed

lemma connect_txs_spec:
  "cok c \<Longrightarrow> list_all (tx_wf P) txs \<Longrightarrow> block_fresh h txs (coins c) \<Longrightarrow>
   connect_txs get P h first txs fees c = (Accept (fees', us), c') \<Longrightarrow>
   cok c' \<and> coins c' = block_spec h txs (coins c) \<and> cache_tip tip c' = cache_tip tip c \<and> block_fits h txs (coins c) \<and>
   us = (if first then tl (block_undo h txs (coins c)) else block_undo h txs (coins c)) \<and>
   (finite (dom (coins c)) \<longrightarrow> total (coins c') + fees' \<le>
      total (coins c) + fees + (\<Sum>tx \<leftarrow> filter IsCoinBase txs. \<Sum>o1 \<leftarrow> vout tx. nValue o1))"
proof (induction txs arbitrary: c fees us first)
  case Nil
  then show ?case by auto
next
  case (Cons tx txs)
  have wf: "tx_wf P tx" and fr: "tx_fresh (coins c |` (- set (tx_spends tx))) tx"
    using Cons.prems(2,3) by simp_all
  obtain txfee c1 where ck: "(if IsCoinBase tx then (Accept 0, c) else CheckTxInputs get P (int h) tx c) = (Accept txfee, c1)"
    using Cons.prems(4) by (auto split: prod.splits outcome.splits)
  have c1: "cok c1" "coins c1 = coins c" "cache_tip tip c1 = cache_tip tip c" "\<forall>k \<in> set (tx_spends tx). coins c k \<noteq> None"
    "\<not> IsCoinBase tx \<Longrightarrow> txfee = (\<Sum>k \<leftarrow> tx_spends tx. coin_value (the (coins c k))) - (\<Sum>o1 \<leftarrow> vout tx. nValue o1)"
    "IsCoinBase tx \<Longrightarrow> txfee = 0"
    using ck check_tx_inputs_spec [OF Cons.prems(1) _ wf, of h txfee c1] Cons.prems(1)
    by (auto simp: tx_spends_def split: if_splits)
  have fits: "tx_fits (coins c) tx"
    using wf fr c1(4) by (auto simp: tx_fits_def tx_wf_def tx_spends_def)
  obtain c2 where c2: "UpdateCoins get tx h c1 =
        Some (if IsCoinBase tx then [] else undo_coins (coins c) (vin tx), c2)" "cok c2"
      "coins c2 = connect_spec h tx (coins c)" "cache_tip tip c2 = cache_tip tip c"
    using update_coins_spec [OF c1(1), of tx h] fits c1(2,3) by auto
  obtain us2 where n: "connect_txs get P h False txs (fees + txfee) c2 = (Accept (fees', us2), c')"
      "us = (if first then us2 else (if IsCoinBase tx then [] else undo_coins (coins c) (vin tx)) # us2)"
    using Cons.prems(4) ck c2(1) by (auto split: prod.splits outcome.splits if_splits)
  have "block_fresh h txs (coins c2)" using Cons.prems(3) c2(3) by simp
  note IH = Cons.IH [OF c2(2) _ this n(1)]
  have "total (coins c2) \<le> total (coins c) - (\<Sum>k \<leftarrow> tx_spends tx. coin_value (the (coins c k))) + (\<Sum>o1 \<leftarrow> vout tx. nValue o1)"
    if "finite (dom (coins c))" using connect_spec_total [OF that fits, of h] c2(3) by simp
  moreover have "finite (dom (coins c2))" if "finite (dom (coins c))" using connect_spec_finite [OF that] c2(3) by simp
  moreover have "tx_spends tx = []" if "IsCoinBase tx" using that by (simp add: tx_spends_def)
  ultimately show ?case
    using IH Cons.prems(2) n(2) c2(3,4) fits c1(5,6) by (cases "IsCoinBase tx") fastforce+
qed

lemma disconnect_txs_spec:
  "cok c \<Longrightarrow> coins c = block_spec h txs U \<Longrightarrow> block_fits h txs U \<Longrightarrow> coins_wf U \<Longrightarrow> 0 < h \<Longrightarrow>
   \<exists>c'. disconnect_txs get (rev (undo_list h txs U)) h c = Some (DISCONNECT_OK, c') \<and> cok c' \<and> coins c' = U"
proof (induction txs arbitrary: U)
  case Nil
  then show ?case by (simp add: undo_list_def)
next
  case (Cons tx txs)
  let ?V = "connect_spec h tx U"
  have "coins_wf ?V" using Cons.prems(3-5) by (auto simp: tx_fits_def intro: connect_spec_wf)
  then obtain c1 where c1: "disconnect_txs get (rev (undo_list h txs ?V)) h c = Some (DISCONNECT_OK, c1)" "cok c1"
      "coins c1 = ?V"
    using Cons.IH [of ?V] Cons.prems by auto
  obtain c2 where c2: "disconnect_tx get tx (if IsCoinBase tx then None else Some (undo_coins U (vin tx))) h c1 =
        Some (DISCONNECT_OK, c2)" "cok c2" "coins c2 = U"
    using disconnect_tx_spec [OF c1(2,3) _ Cons.prems(4) refl] Cons.prems(3) by auto
  have "undo_list h (tx # txs) U =
      (tx, if IsCoinBase tx then None else Some (undo_coins U (vin tx))) # undo_list h txs ?V" by (simp add: undo_list_def)
  then show ?case using disconnect_append [OF c1(1)] c2 by simp
qed

lemma connect_coins_spec:
  assumes "cok c" "list_all (tx_wf P) (vtx block)" "block_fresh h (vtx block) (coins c)"
    and "connect_coins get P interval h hash block c = (Accept us, c')"
  shows "cok c'" "coins c' = block_spec h (vtx block) (coins c)" "hashBlock c' = hash" "block_fits h (vtx block) (coins c)"
    and "us = tl (block_undo h (vtx block) (coins c))"
    and "finite (dom (coins c)) \<Longrightarrow> filter IsCoinBase (vtx block) = [vtx block ! 0] \<Longrightarrow>
      total (coins c') \<le> total (coins c) + GetBlockSubsidy (int h) interval"
proof -
  obtain fees c1 v where n: "connect_txs get P h True (vtx block) 0 c = (Accept (fees, us), c1)"
      "GetValueOut True (vtx block ! 0) = Some v" "v \<le> fees + GetBlockSubsidy (int h) interval" "c' = SetBestBlock hash c1"
    using assms(4) by (auto simp: connect_coins_def split: prod.splits outcome.splits option.splits if_splits)
  note t = connect_txs_spec [OF assms(1-3) n(1)]
  show "cok c'" "coins c' = block_spec h (vtx block) (coins c)" "hashBlock c' = hash" "block_fits h (vtx block) (coins c)"
    "us = tl (block_undo h (vtx block) (coins c))"
    using t n(4) by (auto simp: SetBestBlock_def cache_ok_def cache_utxo_def)
  show "total (coins c') \<le> total (coins c) + GetBlockSubsidy (int h) interval"
    if "finite (dom (coins c))" "filter IsCoinBase (vtx block) = [vtx block ! 0]"
  proof -
    have "coins c' = coins c1" using n(4) by (simp add: SetBestBlock_def cache_utxo_def)
    moreover have "total (coins c1) + fees \<le> total (coins c) + v"
      using t that GetValueOut_sum [OF n(2)] by auto
    ultimately show ?thesis using n(3) by simp
  qed
qed

lemma disconnect_block_spec:
  assumes "cok c" "coins c = block_spec h (vtx block) U" "block_fits h (vtx block) U" "coins_wf U" "0 < h"
    and "vtx block = cb # txs" "IsCoinBase cb" "list_all (\<lambda>tx. \<not> IsCoinBase tx) txs"
  shows "\<exists>c'. DisconnectBlock get block (tl (block_undo h (vtx block) U)) h hashPrev c = Some (DISCONNECT_OK, c') \<and>
    cok c' \<and> coins c' = U \<and> hashBlock c' = hashPrev"
proof -
  obtain c1 where c1: "disconnect_txs get (rev (undo_list h (vtx block) U)) h c = Some (DISCONNECT_OK, c1)" "cok c1" "coins c1 = U"
    using disconnect_txs_spec [OF assms(1-5)] by blast
  have u: "zip txs (map Some us) = map (\<lambda>(tx, us). (tx, if IsCoinBase tx then None else Some us)) (zip txs us)" for us
    using assms(8) by (induction txs us rule: list_induct2') simp_all
  have "undo_list h (vtx block) U = zip (vtx block) (None # map Some (tl (block_undo h (vtx block) U)))"
    using assms(6,7) by (simp add: undo_list_def u)
  then show ?thesis using c1 assms(6) length_block_undo [of h txs "connect_spec h cb U"]
    by (auto simp: DisconnectBlock_def SetBestBlock_def cache_ok_def cache_utxo_def)
qed

end

section \<open>Blocks and the views of the node\<close>

text \<open>The cache a block is connected in, over \<^verbatim>\<open>pcoinsTip\<close> over the database.\<close>

abbreviation view_get :: "CCoinsViewDB CCoinsViewCache getter" where "view_get \<equiv> GetCoin db_GetCoin"

abbreviation view_coins :: "CCoinsViewDB CCoinsViewCache CCoinsViewCache \<Rightarrow> utxos" where
  "view_coins \<equiv> cache_utxo (cache_utxo db_utxo)"

abbreviation view_ok :: "CCoinsViewDB CCoinsViewCache CCoinsViewCache \<Rightarrow> bool" where
  "view_ok \<equiv> cache_ok (cache_utxo db_utxo) (cache_ok db_utxo db_ok)"

lemma view_finite: "finite (dom (view_coins c))"
proof -
  have o: "finite (dom (over m U))" if "finite (dom U)" for m U
  proof -
    have "dom (over m U) \<subseteq> dom (map_of m) \<union> dom U" by (auto simp: over_def split: option.splits)
    then show ?thesis using that finite_dom_map_of [of m] finite_subset by blast
  qed
  show ?thesis by (simp add: cache_utxo_def o db_utxo_def finite_dom_map_of)
qed

lemma flush_base: "Flush bput c = Some v \<Longrightarrow> \<exists>b. bput (base c) (cacheCoins c) (hashBlock c) = Some b \<and> base v = b"
  by (auto simp: Flush_def)

lemma batch_write_best: "BatchWrite c m h = Some b \<Longrightarrow> hashBlock b = h"
  by (auto simp: BatchWrite_def)

lemma checked_block:
  assumes "check_block_txs A X M u act fDBCheck block = None"
  obtains cb txs where "vtx block = cb # txs" "IsCoinBase cb" "list_all (\<lambda>tx. \<not> IsCoinBase tx) txs"
    and "list_all (tx_wf (prefixes A)) (vtx block)"
proof -
  obtain cb txs where v: "vtx block = cb # txs" using assms by (cases "vtx block") (auto simp: check_block_txs_def)
  have "first_error (CheckTransaction A X M u True False (\<not> fDBCheck)) (vtx block) = None"
    using assms by (auto simp: check_block_txs_def split: if_splits option.splits)
  then have "list_all (tx_wf (prefixes A)) (vtx block)"
    using checked_tx_wf by (fastforce simp: first_error_None list_all_iff)
  moreover have "IsCoinBase cb" "list_all (\<lambda>tx. \<not> IsCoinBase tx) txs"
    using assms v by (auto simp: check_block_txs_def list_all_iff list_ex_iff split: if_splits)
  ultimately show ?thesis using that v by blast
qed

text \<open>
  C4. A block creates no more than its subsidy. When a block passes \<^verbatim>\<open>CheckBlock\<close> and its transactions are
  connected, the coins of the view are worth at most the subsidy of the height more than before; fees move
  value to the coinbase and create none. The outputs the block creates are new: their transaction ids do not
  occur in the set.
\<close>

theorem block_creates_subsidy:
  assumes "view_ok c" "check_block_txs A X M u act fDBCheck block = None"
    and "connect_coins view_get (prefixes A) interval h hash block c = (Accept us, c')"
    and "block_fresh h (vtx block) (view_coins c)"
  shows "total (view_coins c') \<le> total (view_coins c) + GetBlockSubsidy (int h) interval"
proof -
  obtain cb txs where v: "vtx block = cb # txs" "IsCoinBase cb" "list_all (\<lambda>tx. \<not> IsCoinBase tx) txs"
    "list_all (tx_wf (prefixes A)) (vtx block)" using checked_block [OF assms(2)] .
  then have "filter IsCoinBase (vtx block) = [vtx block ! 0]" by (simp add: list_all_iff filter_empty_conv)
  then show ?thesis using chain.connect_coins_spec(6) [OF assms(1) v(4) assms(4,3) view_finite] by simp
qed

text \<open>
  C40. A connected block reaches the disk. After the block is connected in its view, flushing the view and then
  the chain-state cache succeeds, and leaves in the database exactly the coins that the transactions of the
  block, one after the other, make of the coins before, with the block as the best block.
\<close>

theorem block_reaches_disk:
  assumes "view_ok c" "check_block_txs A X M u act fDBCheck block = None"
    and "connect_coins view_get (prefixes A) interval h hash block c = (Accept us, c')"
    and "block_fresh h (vtx block) (view_coins c)" "\<not> blob_IsNull hash"
  shows "\<exists>v t. Flush BatchWrite c' = Some v \<and> Flush db_BatchWrite (base v) = Some t \<and> db_ok (base t) \<and>
    db_utxo (base t) = block_spec h (vtx block) (view_coins c) \<and> db_best (base t) = hash"
proof -
  have wf: "list_all (tx_wf (prefixes A)) (vtx block)" using checked_block [OF assms(2)] by blast
  note s = chain.connect_coins_spec [OF assms(1) wf assms(4,3)]
  obtain v where v: "Flush BatchWrite c' = Some v" "view_ok v" "cache_utxo db_utxo (base v) = view_coins c'"
    using chain.flush_spec [OF s(1)] s(3) assms(5) by auto
  obtain b1 where b1: "BatchWrite (base c') (cacheCoins c') (hashBlock c') = Some b1" "base v = b1"
    using flush_base [OF v(1)] by blast
  have b: "hashBlock (base v) = hash" "cache_ok db_utxo db_ok (base v)"
    using b1 s(3) v(2) batch_write_best [OF b1(1)] by (simp_all add: cache_ok_def [of "cache_utxo db_utxo"])
  obtain t where "Flush db_BatchWrite (base v) = Some t" "db_utxo (base t) = cache_utxo db_utxo (base v)"
      "db_best (base t) = cache_tip db_best (base v)" "cache_ok db_utxo db_ok t"
    using db.flush_spec [OF b(2)] b(1) assms(5) by auto
  then show ?thesis using v b(1) s(2) assms(5) by (auto simp: cache_tip_def cache_ok_def)
qed

text \<open>
  C8. Disconnecting undoes connecting. From any view with the coins a connected block left, \<^verbatim>\<open>DisconnectBlock\<close>
  with the undo records of that block reports a clean result, gives back exactly the coins there were before
  the block, and makes the previous block the best one.
\<close>

theorem disconnect_restores:
  assumes "view_ok c" "coins_wf (view_coins c)" "check_block_txs A X M u act fDBCheck block = None"
    and "connect_coins view_get (prefixes A) interval h hash block c = (Accept us, c')"
    and "block_fresh h (vtx block) (view_coins c)" "0 < h" "view_ok d" "view_coins d = view_coins c'"
  shows "\<exists>d'. DisconnectBlock view_get block us h hashPrev d = Some (DISCONNECT_OK, d') \<and> view_ok d' \<and>
    view_coins d' = view_coins c \<and> hashBlock d' = hashPrev"
proof -
  obtain cb txs where v: "vtx block = cb # txs" "IsCoinBase cb" "list_all (\<lambda>tx. \<not> IsCoinBase tx) txs"
    "list_all (tx_wf (prefixes A)) (vtx block)" using checked_block [OF assms(3)] .
  note s = chain.connect_coins_spec [OF assms(1) v(4) assms(5,4)]
  show ?thesis using chain.disconnect_block_spec [OF assms(7) _ s(4) assms(2,6) v(1-3), of hashPrev] s(2,5) assms(8) by simp
qed

end
