(* ===== verification/XC_TxAssets.thy ===== *)
theory XC_TxAssets
  imports XC_AssetsOps XC_Block
begin

text \<open>
  The checks of a transaction against what is known about assets: \<^verbatim>\<open>CheckTxAssets\<close> of
  \<^verbatim>\<open>src/src/consensus/tx_verify.cpp\<close> and the contextual checks of \<^verbatim>\<open>src/src/assets/assets.cpp\<close>. The lookups in
  the containers of restricted assets, which stay empty, are arguments.
\<close>

section \<open>Asset data of an output\<close>

record CAssetOutputEntry =
  e_type :: asset_tx
  e_assetName :: string
  e_destination :: CTxDestination
  e_nAmount :: CAmount
  e_message :: bytes
  e_expireTime :: int

text \<open>
  The branches for message channels, qualifiers and restricted assets come after one that reads every new
  asset, and return false. The message and its expiry are written for transfers only.
\<close>

definition GetAssetData :: "base58_prefixes \<Rightarrow> CScript \<Rightarrow> CAssetOutputEntry option" where
  "GetAssetData P s =
     (let entry = (\<lambda>type name address amount. \<lparr>e_type = type, e_assetName = name,
                    e_destination = DecodeDestination P (the_address address), e_nAmount = amount,
                    e_message = [], e_expireTime = 0\<rparr>)
      in case IsAssetScript s of None \<Rightarrow> None
         | Some (TX_NEW_ASSET, False, i) \<Rightarrow>
             map_option (\<lambda>(asset, address). entry TX_NEW_ASSET (strName asset) address (nAmount asset)) (AssetFromScript P s)
         | Some (TX_TRANSFER_ASSET, own, i) \<Rightarrow>
             map_option (\<lambda>(t, address). (entry TX_TRANSFER_ASSET (t_strName t) address (t_nAmount t))
               \<lparr>e_message := t_message t, e_expireTime := t_nExpireTime t\<rparr>) (TransferAssetFromScript P s)
         | Some (TX_NEW_ASSET, True, i) \<Rightarrow>
             map_option (\<lambda>(name, address). entry TX_NEW_ASSET name address OWNER_ASSET_AMOUNT) (OwnerAssetFromScript P s)
         | Some (TX_REISSUE_ASSET, own, i) \<Rightarrow>
             map_option (\<lambda>(r, address). entry TX_REISSUE_ASSET (r_strName r) address (r_nAmount r)) (ReissueAssetFromScript P s))"

section \<open>Hashes attached to assets\<close>

definition hexmap :: string where "hexmap = ''0123456789abcdef''"

definition HexStr :: "bytes \<Rightarrow> string" where
  "HexStr bs = concat (map (\<lambda>b. [hexmap ! (unat b div 16), hexmap ! (unat b mod 16)]) bs)"

definition IsHex :: "string \<Rightarrow> bool" where
  "IsHex str \<longleftrightarrow> list_all (\<lambda>c. c \<in> set ''0123456789abcdefABCDEF'') str \<and> 0 < length str \<and> length str mod 2 = 0"

definition EncodeAssetData :: "bytes \<Rightarrow> string" where
  "EncodeAssetData decoded =
     (if length decoded = 34 then the_address (EncodeBase58 decoded) else if length decoded = 32 then HexStr decoded else [])"

definition CheckEncoded :: "bytes \<Rightarrow> bool" where
  "CheckEncoded hash =
     (let encodedStr = EncodeAssetData hash
      in take 2 encodedStr = ''Qm'' \<and> length encodedStr = 46 \<or> IsHex encodedStr \<and> length encodedStr = 64)"

abbreviation "hash_error \<equiv> ''Invalid parameter: ipfs_hash is not valid, or txid hash is not the right length''"

section \<open>Contextual checks\<close>

definition ContextualCheckTransferAsset :: "CAssetTransfer \<Rightarrow> string option" where
  "ContextualCheckTransferAsset transfer =
     (case IsAssetNameValid (t_strName transfer) of
        (False, type) \<Rightarrow> Some ''Invalid parameter: asset_name must only consist of valid characters and have a size between 3 and 32 characters. See help for more details.''
      | (True, type) \<Rightarrow>
          if t_nAmount transfer \<le> 0 then Some ''Invalid parameter: asset amount can't be equal to or less than zero.''
          else if t_message transfer = [] \<and> 0 < t_nExpireTime transfer then
            Some ''Invalid parameter: asset transfer expiration time requires a message to be attached to the transfer''
          else if t_nExpireTime transfer < 0 then Some ''Invalid parameter: expiration time must be a positive value''
          else if t_message transfer \<noteq> [] \<and> \<not> CheckEncoded (t_message transfer) then Some hash_error
          else if type \<in> {Some RESTRICTED, Some QUALIFIER, Some SUB_QUALIFIER} then Some ''bad-txns-restricted-assets-removed''
          else None)"

definition ContextualCheckNewAsset ::
  "CAssetsCache \<Rightarrow> MempoolAssets \<Rightarrow> bool \<Rightarrow> CNewAsset \<Rightarrow> AssetGlobals \<Rightarrow> string option \<times> AssetGlobals" where
  "ContextualCheckNewAsset c M fCheckMempool asset G =
     (case CheckNewAsset asset of Some e \<Rightarrow> (Some (asset_error_text e), G)
      | None \<Rightarrow> case CheckIfAssetExists c (strName asset) True G of
        (True, G) \<Rightarrow> (Some (''Invalid parameter: asset_name ''@[CHR 0x27] @ strName asset @ [CHR 0x27]@'' has already been used''), G)
      | (False, G) \<Rightarrow>
          (if fCheckMempool \<and> map_of (mapAssetToHash M) (strName asset) \<noteq> None then
             Some ''Asset with this name is already in the mempool''
           else if nHasIPFS asset \<noteq> 0 \<and> length (strIPFSHash asset) \<noteq> 34 \<and> length (strIPFSHash asset) \<noteq> 32 then
             Some ''Invalid parameter: ipfs_hash must be 46 characters. Txid must be valid 64 character hash''
           else if nHasIPFS asset \<noteq> 0 \<and> \<not> CheckEncoded (strIPFSHash asset) then Some hash_error
           else None, G))"

text \<open>\<^verbatim>\<open>VerifierDb\<close>: the tags of an address and the verifier string of an asset, in the containers left out.\<close>

record VerifierDb =
  frozen :: "string \<Rightarrow> string \<Rightarrow> bool"
  tagged :: "string \<Rightarrow> string \<Rightarrow> bool"
  verifier_of :: "string \<Rightarrow> string option"

definition reissue_verifier_error ::
  "VerifierDb \<Rightarrow> (string \<Rightarrow> bool) \<Rightarrow> CReissueAsset \<Rightarrow> string \<Rightarrow> CTransaction \<Rightarrow> string option" where
  "reissue_verifier_error V exists reissue address tx =
     (case GetVerifierStringFromTx tx of
        Inl (e, False) \<Rightarrow> Some e
      | Inl (e, True) \<Rightarrow>
          if r_nAmount reissue \<le> 0 then None
          else (case verifier_of V (r_strName reissue) of
                  None \<Rightarrow> Some ''failed to get verifier string from a restricted asset, database is out of sync. Reindex required. Please report this is to development team''
                | Some verifier \<Rightarrow> ContextualCheckVerifierString exists (tagged V) verifier address)
      | Inr verifier \<Rightarrow>
          if r_nAmount reissue \<le> 0 then None else ContextualCheckVerifierString exists (tagged V) verifier address)"

definition ContextualCheckReissueAsset ::
  "AssetParams \<Rightarrow> VerifierDb \<Rightarrow> CAssetsCache \<Rightarrow> CReissueAsset \<Rightarrow> CTransaction \<Rightarrow> AssetGlobals \<Rightarrow> string option \<times> AssetGlobals" where
  "ContextualCheckReissueAsset A V c reissue tx G =
     (case ReissueAssetFromTransaction (prefixes A) tx of None \<Rightarrow> (Some ''bad-txns-reissue-asset-contextual-check'', G)
      | Some (r, address) \<Rightarrow> case CheckReissueAsset A reissue of Some e \<Rightarrow> (Some e, G)
      | None \<Rightarrow> case GetAssetMetaDataIfExists c (r_strName reissue) G of
        (None, G) \<Rightarrow> (Some (''Unable to reissue asset: asset_name ''@[CHR 0x27] @ r_strName reissue @ [CHR 0x27]@'' doesn't exist in the database''), G)
      | (Some (prev, origin), G) \<Rightarrow>
          (if nReissuable prev = 0 then Some ''Unable to reissue asset: reissuable is set to false''
           else if MAX_MONEY < nAmount prev + r_nAmount reissue then
             Some (''Unable to reissue asset: asset_name ''@[CHR 0x27] @ r_strName reissue @ [CHR 0x27]@'' the amount trying to reissue is to large'')
           else if \<not> CheckAmountWithUnits (r_nAmount reissue) (units prev) then
             Some ''Unable to reissue asset: amount must be divisible by the smaller unit assigned to the asset''
           else if r_nUnits reissue < units prev \<and> r_nUnits reissue \<noteq> -1 then
             Some ''Unable to reissue asset: unit must be larger than current unit selection''
           else if r_strIPFSHash reissue \<noteq> [] \<and> length (r_strIPFSHash reissue) \<noteq> 34 \<and> length (r_strIPFSHash reissue) \<noteq> 32 then
             Some ''Invalid parameter: ipfs_hash must be 34 bytes, Txid must be 32 bytes''
           else if r_strIPFSHash reissue \<noteq> [] \<and> \<not> CheckEncoded (r_strIPFSHash reissue) then Some hash_error
           else if IsAssetNameAnRestricted (r_strName reissue) then
             reissue_verifier_error V (asset_exists c G) reissue (the_address address) tx
           else None, G))"

fun ContextualCheckUniqueAssets ::
  "base58_prefixes \<Rightarrow> CAssetsCache \<Rightarrow> MempoolAssets \<Rightarrow> CTxOut list \<Rightarrow> AssetGlobals \<Rightarrow> string option \<times> AssetGlobals" where
  "ContextualCheckUniqueAssets P c M [] G = (None, G)"
| "ContextualCheckUniqueAssets P c M (o1 # os) G =
     (if \<not> IsScriptNewUniqueAsset P (scriptPubKey o1) then ContextualCheckUniqueAssets P c M os G
      else case AssetFromScript P (scriptPubKey o1) of None \<Rightarrow> (Some ''bad-txns-issue-unique-serialization-failed'', G)
      | Some (asset, address) \<Rightarrow> case ContextualCheckNewAsset c M False asset G of (Some e, G) \<Rightarrow> (Some e, G)
      | (None, G) \<Rightarrow> ContextualCheckUniqueAssets P c M os G)"

section \<open>The check of a transaction\<close>

record CMessage =
  msg_out :: COutPoint
  msg_name :: string
  msg_ipfs :: bytes
  msg_expire :: int
  msg_time :: int

text \<open>
  What the check reads besides the caches: the assignments of the chain and the mempool, the reissues in the
  mempool (\<^verbatim>\<open>mapReissuedAssets\<close>), whether messages are collected, the times and \<^verbatim>\<open>fCheckMempool\<close>.
\<close>

record asset_env =
  ae_params :: AssetParams
  ae_X :: XAssignments
  ae_M :: MempoolAssets
  ae_reissued :: "(string, uint256) omap"
  ae_V :: VerifierDb
  ae_messaging :: bool
  ae_now :: int
  ae_blocktime :: int
  ae_mempool :: bool

type_synonym totals = "(string, CAmount) omap"

definition total_at :: "totals \<Rightarrow> string \<Rightarrow> CAmount" where
  "total_at m name = (case map_of m name of None \<Rightarrow> 0 | Some q \<Rightarrow> q)"

definition add_total :: "string \<Rightarrow> CAmount \<Rightarrow> totals \<Rightarrow> totals" where
  "add_total name q m = map_put name (total_at m name + q) m"

fun asset_inputs ::
  "'b getter \<Rightarrow> asset_env \<Rightarrow> CTransaction \<Rightarrow> nat list \<Rightarrow> totals \<Rightarrow> (string, string) omap \<Rightarrow> 'b CCoinsViewCache \<Rightarrow>
     (totals \<times> (string, string) omap) outcome \<times> 'b CCoinsViewCache" where
  "asset_inputs bget E tx [] m addrs v = (Accept (m, addrs), v)"
| "asset_inputs bget E tx (i # is) m addrs v =
     (let P = prefixes (ae_params E)
      in if IsXAccountDummyInput P tx i then asset_inputs bget E tx is m addrs v
         else case AccessCoin bget v (prevout (vin tx ! i)) of (coin, v') \<Rightarrow>
           if IsSpent coin then (Abort, v')
           else if \<not> Coin_IsAsset coin then asset_inputs bget E tx is m addrs v'
           else case GetAssetData P (scriptPubKey (coin_out coin)) of
             None \<Rightarrow> (Refuse (100, ''bad-txns-failed-to-get-asset-from-script''), v')
           | Some d \<Rightarrow>
               let name = e_assetName d; m' = add_total name (e_nAmount d) m;
                   address = the_address (EncodeDestination P (e_destination d))
               in if e_nAmount d < 0 then (Refuse (100, ''bad-txns-input-asset-amount-negative''), v')
                  else if MAX_MONEY < e_nAmount d then (Refuse (100, ''bad-txns-input-asset-amount-toolarge''), v')
                  else if \<not> MoneyRange (total_at m' name) then (Refuse (100, ''bad-txns-input-asset-totalInputs-toolarge''), v')
                  else if IsAssetNameAnRestricted name \<and> frozen (ae_V E) name address then
                    (Refuse (100, ''bad-txns-restricted-asset-transfer-from-frozen-address''), v')
                  else asset_inputs bget E tx is m' (set_insert name address addrs) v')"

record out_state =
  totalOutputs :: totals
  vPairReissueAssets :: "(string \<times> uint256) list"
  setMessages :: "CMessage list"

definition collect_message ::
  "asset_env \<Rightarrow> uint256 \<Rightarrow> (string, string) omap \<Rightarrow> nat \<Rightarrow> CAssetTransfer \<Rightarrow> string \<Rightarrow> CMessage list \<Rightarrow> CMessage list" where
  "collect_message E txid addrs index t address msgs =
     (if ae_messaging E \<and> (IsAssetNameAnOwner (t_strName t) \<or> IsAssetNameAnMsgChannel (t_strName t)) \<and> t_message t \<noteq> [] \<and>
         (t_nExpireTime t = 0 \<or> ae_now E < t_nExpireTime t) \<and> map_of addrs (t_strName t) = Some address
      then msgs @ [\<lparr>msg_out = out_point txid index, msg_name = t_strName t, msg_ipfs = t_message t,
                    msg_expire = t_nExpireTime t, msg_time = ae_blocktime E\<rparr>]
      else msgs)"

text \<open>The units of the asset that is sent; an owner token is sent whole.\<close>

definition transfer_units_error :: "CAssetsCache \<Rightarrow> CAssetTransfer \<Rightarrow> AssetGlobals \<Rightarrow> string option \<times> AssetGlobals" where
  "transfer_units_error c t G =
     (if IsAssetNameAnOwner (t_strName t) then
        (if t_nAmount t \<noteq> OWNER_ASSET_AMOUNT then Some ''bad-txns-transfer-owner-amount-was-not-1'' else None, G)
      else case GetAssetMetaDataIfExists c (t_strName t) G of
        (None, G) \<Rightarrow> (Some ''bad-txns-transfer-asset-not-exist'', G)
      | (Some (asset, origin), G) \<Rightarrow>
          (if strName asset \<noteq> t_strName t then Some ''bad-txns-asset-database-corrupted''
           else if \<not> CheckAmountWithUnits (t_nAmount t) (units asset) then Some ''bad-txns-transfer-asset-amount-not-match-units''
           else None, G))"

definition transfer_output ::
  "asset_env \<Rightarrow> CAssetsCache \<Rightarrow> uint256 \<Rightarrow> (string, string) omap \<Rightarrow> nat \<Rightarrow> CScript \<Rightarrow> out_state \<Rightarrow> AssetGlobals \<Rightarrow>
     (string + out_state) \<times> AssetGlobals" where
  "transfer_output E c txid addrs index s st G =
     (case TransferAssetFromScript (prefixes (ae_params E)) s of None \<Rightarrow> (Inl ''bad-tx-asset-transfer-bad-deserialize'', G)
      | Some (t, address) \<Rightarrow> case ContextualCheckTransferAsset t of Some e \<Rightarrow> (Inl e, G)
      | None \<Rightarrow>
          let m = add_total (t_strName t) (t_nAmount t) (totalOutputs st)
          in if t_nAmount t < 0 then (Inl ''bad-txns-transfer-asset-amount-negative'', G)
             else if MAX_MONEY < t_nAmount t then (Inl ''bad-txns-transfer-asset-amount-toolarge'', G)
             else if \<not> MoneyRange (total_at m (t_strName t)) then (Inl ''bad-txns-transfer-asset-totalOutputs-toolarge'', G)
             else case transfer_units_error c t G of (Some e, G) \<Rightarrow> (Inl e, G)
             | (None, G) \<Rightarrow>
                 (Inr (st\<lparr>totalOutputs := m,
                         setMessages := collect_message E txid addrs index t (the_address address) (setMessages st)\<rparr>), G))"

definition reissue_output :: "asset_env \<Rightarrow> uint256 \<Rightarrow> CScript \<Rightarrow> out_state \<Rightarrow> string + out_state" where
  "reissue_output E txid s st =
     (case ReissueAssetFromScript (prefixes (ae_params E)) s of None \<Rightarrow> Inl ''bad-tx-asset-reissue-bad-deserialize''
      | Some (r, address) \<Rightarrow>
          (case map_of (ae_reissued E) (r_strName r) of
             None \<Rightarrow> Inr (st\<lparr>vPairReissueAssets := vPairReissueAssets st @ [(r_strName r, txid)]\<rparr>)
           | Some h \<Rightarrow> if h \<noteq> txid then Inl ''bad-tx-reissue-chaining-not-allowed'' else Inr st))"

fun asset_outputs ::
  "asset_env \<Rightarrow> CAssetsCache \<Rightarrow> uint256 \<Rightarrow> (string, string) omap \<Rightarrow> nat \<Rightarrow> CTxOut list \<Rightarrow> out_state \<Rightarrow> AssetGlobals \<Rightarrow>
     (string + out_state) \<times> AssetGlobals" where
  "asset_outputs E c txid addrs index [] st G = (Inr st, G)"
| "asset_outputs E c txid addrs index (o1 # os) st G =
     (let s = scriptPubKey o1
      in if IsNullAsset s then (Inl ''bad-tx-null-asset-data-before-restricted-assets-activated'', G)
         else case (case IsAssetScript s of
                      Some (TX_TRANSFER_ASSET, own, i) \<Rightarrow> transfer_output E c txid addrs index s st G
                    | Some (TX_REISSUE_ASSET, own, i) \<Rightarrow> (reissue_output E txid s st, G)
                    | _ \<Rightarrow> (Inr st, G)) of
           (Inl e, G) \<Rightarrow> (Inl e, G)
         | (Inr st, G) \<Rightarrow> asset_outputs E c txid addrs (index + 1) os st G)"

text \<open>The X account of a new root, in the chain and in the mempool.\<close>

definition root_account_error :: "asset_env \<Rightarrow> CTransaction \<Rightarrow> CNewAsset \<Rightarrow> string option" where
  "root_account_error E tx asset =
     (if snd (IsAssetNameValid (strName asset)) \<noteq> Some ROOT then None
      else case ParseXAccountAssignment tx of None \<Rightarrow> Some ''bad-txns-issue-root-missing-xaccount''
      | Some xid \<Rightarrow>
          let existing = CheckIfXAccountAssigned (ae_X E) (ae_M E) xid; pending = map_of (mapXAccountToHash (ae_M E)) xid
          in if existing \<noteq> None \<and> existing \<noteq> Some (strName asset) then Some ''bad-txns-xaccount-already-assigned''
             else if ae_mempool E \<and> pending \<noteq> None \<and> pending \<noteq> Some (Tx_GetHash tx)
             then Some ''bad-txns-xaccount-already-in-mempool'' else None)"

definition prefixed :: "string \<Rightarrow> string option \<times> AssetGlobals \<Rightarrow> string option \<times> AssetGlobals" where
  "prefixed prefix r = (map_option (\<lambda>e. prefix @ e) (fst r), snd r)"

definition plain_asset_error :: "CTxOut \<Rightarrow> string option" where
  "plain_asset_error o1 =
     (case IsAssetScript (scriptPubKey o1) of
        Some (TX_TRANSFER_ASSET, own, i) \<Rightarrow> None
      | Some _ \<Rightarrow> Some ''bad-txns-bad-asset-transaction''
      | None \<Rightarrow> if Find (scriptPubKey o1) OP_RVN_ASSET \<noteq> 0 then Some ''bad-txns-bad-asset-script'' else None)"

definition creation_error :: "asset_env \<Rightarrow> CAssetsCache \<Rightarrow> CTransaction \<Rightarrow> AssetGlobals \<Rightarrow> string option \<times> AssetGlobals" where
  "creation_error E c tx G =
     (let A = ae_params E; P = prefixes A
      in if Tx_IsNewAsset P tx then
           (case AssetFromScript P (last_script tx) of None \<Rightarrow> (Some ''bad-txns-issue-serialzation-failed'', G)
            | Some (asset, address) \<Rightarrow> case ContextualCheckNewAsset c (ae_M E) (ae_mempool E) asset G of
              (Some e, G) \<Rightarrow> (Some e, G)
            | (None, G) \<Rightarrow> (root_account_error E tx asset, G))
         else if Tx_IsReissueAsset tx then
           (case ReissueAssetFromScript P (last_script tx) of None \<Rightarrow> (Some ''bad-txns-reissue-serialzation-failed'', G)
            | Some (r, address) \<Rightarrow> prefixed ''bad-txns-reissue-contextual-'' (ContextualCheckReissueAsset A (ae_V E) c r tx G))
         else if IsNewUniqueAsset P tx then
           prefixed ''bad-txns-issue-unique-contextual-'' (ContextualCheckUniqueAssets P c (ae_M E) (vout tx) G)
         else if IsNewMsgChannelAsset P tx then
           (case MsgChannelAssetFromTransaction P tx of None \<Rightarrow> (Some ''bad-txns-issue-msgchannel-serialzation-failed'', G)
            | Some (asset, address) \<Rightarrow>
                prefixed ''bad-txns-issue-msgchannel-contextual-'' (ContextualCheckNewAsset c (ae_M E) (ae_mempool E) asset G))
         else if IsNewQualifierAsset P tx \<or> IsNewRestrictedAsset P tx then (Some ''bad-txns-restricted-assets-removed'', G)
         else (first_error plain_asset_error (vout tx), G))"

text \<open>Every asset sent must have been spent in the same amount, and none spent may be missing.\<close>

definition total_error :: "totals \<Rightarrow> string \<times> CAmount \<Rightarrow> string option" where
  "total_error ins out =
     (case map_of ins (fst out) of
        None \<Rightarrow> Some (''bad-tx-inputs-outputs-mismatch Bad Transaction - Trying to create outpoint for asset that you don't have: '' @ fst out)
      | Some q \<Rightarrow> if q \<noteq> snd out then Some (''bad-tx-inputs-outputs-mismatch Bad Transaction - Assets would be burnt '' @ fst out) else None)"

definition totals_error :: "totals \<Rightarrow> totals \<Rightarrow> string option" where
  "totals_error ins outs =
     (case first_error (total_error ins) outs of Some e \<Rightarrow> Some e
      | None \<Rightarrow> if length outs \<noteq> length ins then Some ''bad-tx-asset-inputs-size-does-not-match-outputs-size'' else None)"

definition CheckTxAssets ::
  "'b getter \<Rightarrow> asset_env \<Rightarrow> CAssetsCache \<Rightarrow> CTransaction \<Rightarrow> 'b CCoinsViewCache \<times> AssetGlobals \<Rightarrow>
     out_state outcome \<times> 'b CCoinsViewCache \<times> AssetGlobals" where
  "CheckTxAssets bget E c tx vG =
     (case vG of (v, G) \<Rightarrow>
      case HaveInputs bget (prefixes (ae_params E)) tx v of
        (False, v) \<Rightarrow> (Refuse (100, ''bad-txns-inputs-missing-or-spent''), v, G)
      | (True, v) \<Rightarrow> case asset_inputs bget E tx [0..<length (vin tx)] [] [] v of
        (Abort, v) \<Rightarrow> (Abort, v, G)
      | (Refuse e, v) \<Rightarrow> (Refuse e, v, G)
      | (Accept (ins, addrs), v) \<Rightarrow>
          case asset_outputs E c (Tx_GetHash tx) addrs 0 (vout tx) \<lparr>totalOutputs = [], vPairReissueAssets = [], setMessages = []\<rparr> G of
            (Inl e, G) \<Rightarrow> (Refuse (100, e), v, G)
          | (Inr st, G) \<Rightarrow> case creation_error E c tx G of
            (Some e, G) \<Rightarrow> (Refuse (100, e), v, G)
          | (None, G) \<Rightarrow> (case totals_error ins (totalOutputs st) of Some e \<Rightarrow> Refuse (100, e) | None \<Rightarrow> Accept st, v, G))"

end
