(* ===== verification/XC_Conserve.thy ===== *)
theory XC_Conserve
  imports XC_TxAssets
begin

text \<open>
  Assets are conserved: a transaction that \<^verbatim>\<open>CheckTxAssets\<close> accepts sends exactly the assets it spends, so
  the amount of an asset among the unspent coins grows only by what issues and reissues create.
\<close>

section \<open>Amounts\<close>

definition asset_amount :: "base58_prefixes \<Rightarrow> string \<Rightarrow> CScript \<Rightarrow> CAmount" where
  "asset_amount P name s =
     (case GetAssetData P s of None \<Rightarrow> 0 | Some d \<Rightarrow> if e_assetName d = name then e_nAmount d else 0)"

definition is_transfer :: "CScript \<Rightarrow> bool" where
  "is_transfer s = (case IsAssetScript s of Some (TX_TRANSFER_ASSET, own, i) \<Rightarrow> True | _ \<Rightarrow> False)"

text \<open>What a transaction sends on, and what it creates: issues, owner tokens and reissues in spendable outputs.\<close>

definition sent :: "base58_prefixes \<Rightarrow> string \<Rightarrow> CTransaction \<Rightarrow> CAmount" where
  "sent P name tx = (\<Sum>o1 \<leftarrow> vout tx. if is_transfer (scriptPubKey o1) then asset_amount P name (scriptPubKey o1) else 0)"

definition issued :: "base58_prefixes \<Rightarrow> string \<Rightarrow> CTransaction \<Rightarrow> CAmount" where
  "issued P name tx = (\<Sum>o1 \<leftarrow> vout tx.
     if is_transfer (scriptPubKey o1) \<or> IsUnspendable (scriptPubKey o1) then 0 else asset_amount P name (scriptPubKey o1))"

definition coin_amount :: "base58_prefixes \<Rightarrow> string \<Rightarrow> Coin \<Rightarrow> CAmount" where
  "coin_amount P name coin = asset_amount P name (scriptPubKey (coin_out coin))"

definition asset_total :: "base58_prefixes \<Rightarrow> string \<Rightarrow> utxos \<Rightarrow> CAmount" where
  "asset_total P name U = total_of (coin_amount P name) U"

definition input_amount :: "base58_prefixes \<Rightarrow> string \<Rightarrow> utxos \<Rightarrow> CTransaction \<Rightarrow> nat \<Rightarrow> CAmount" where
  "input_amount P name U tx i =
     (if IsXAccountDummyInput P tx i then 0 else coin_amount P name (the (U (prevout (vin tx ! i)))))"

section \<open>The totals\<close>

lemma total_at_add: "total_at (add_total n q m) name = total_at m name + (if n = name then q else 0)"
  by (simp add: total_at_def add_total_def map_of_put split: option.split)

lemma add_total_ok: "map_ok m \<Longrightarrow> map_ok (add_total n q m)"
  by (simp add: add_total_def map_ok_put)

lemma no_asset_amount: "\<not> Coin_IsAsset coin \<Longrightarrow> coin_amount P name coin = 0"
  by (cases "IsAssetScript (scriptPubKey (coin_out coin))")
    (auto simp: Coin_IsAsset_def coin_amount_def asset_amount_def GetAssetData_def)

lemma found_asset_amount: "GetAssetData P (scriptPubKey (coin_out coin)) = Some d \<Longrightarrow>
    coin_amount P name coin = (if e_assetName d = name then e_nAmount d else 0)"
  by (simp add: coin_amount_def asset_amount_def)

lemma totals_agree:
  assumes "map_ok ins" "map_ok outs" "totals_error ins outs = None"
  shows "total_at ins name = total_at outs name"
proof -
  have e: "first_error (total_error ins) outs = None" and l: "length outs = length ins"
    using assms(3) by (auto simp: totals_error_def split: option.splits if_splits)
  have le: "map_of ins n = Some q" if "map_of outs n = Some q" for n q
    using map_of_SomeD [OF that] e by (fastforce simp: first_error_None total_error_def split: option.splits if_splits)
  then have sub: "dom (map_of outs) \<subseteq> dom (map_of ins)" by auto
  have "card (dom (map_of m)) = length m" if "map_ok m" for m :: totals
    using map_ok_distinct [OF that] by (metis distinct_card dom_map_of_conv_image_fst length_map list.set_map)
  with assms l have "card (dom (map_of outs)) = card (dom (map_of ins))" by simp
  with sub have "dom (map_of outs) = dom (map_of ins)" by (simp add: card_subset_eq finite_dom_map_of)
  then have "map_of ins name = map_of outs name" using le by (metis domD domIff)
  then show ?thesis by (simp add: total_at_def)
qed

lemma transfer_amount:
  assumes "IsAssetScript s = Some (TX_TRANSFER_ASSET, own, i)" "TransferAssetFromScript P s = Some (t, address)"
  shows "asset_amount P name s = (if t_strName t = name then t_nAmount t else 0)"
  using assms by (simp add: asset_amount_def GetAssetData_def Let_def)

lemma transfer_output_spec:
  assumes "transfer_output E c txid addrs index s st G = (Inr st', G')" "IsAssetScript s = Some (TX_TRANSFER_ASSET, own, i)"
  shows "total_at (totalOutputs st') name = total_at (totalOutputs st) name + asset_amount (prefixes (ae_params E)) name s"
    "map_ok (totalOutputs st) \<Longrightarrow> map_ok (totalOutputs st')" "0 \<le> asset_amount (prefixes (ae_params E)) name s"
proof -
  obtain t address where t: "TransferAssetFromScript (prefixes (ae_params E)) s = Some (t, address)"
      "totalOutputs st' = add_total (t_strName t) (t_nAmount t) (totalOutputs st)" "0 \<le> t_nAmount t"
    using assms(1) by (auto simp: transfer_output_def Let_def split: option.splits prod.splits if_splits)
  show "total_at (totalOutputs st') name = total_at (totalOutputs st) name + asset_amount (prefixes (ae_params E)) name s"
    "map_ok (totalOutputs st) \<Longrightarrow> map_ok (totalOutputs st')" "0 \<le> asset_amount (prefixes (ae_params E)) name s"
    using t transfer_amount [OF assms(2) t(1)] by (simp_all add: total_at_add add_total_ok)
qed

lemma asset_outputs_spec:
  assumes "asset_outputs E c txid addrs index os st G = (Inr st', G')" "map_ok (totalOutputs st)"
  shows "map_ok (totalOutputs st') \<and> total_at (totalOutputs st') name = total_at (totalOutputs st) name +
      (\<Sum>o1 \<leftarrow> os. if is_transfer (scriptPubKey o1) then asset_amount (prefixes (ae_params E)) name (scriptPubKey o1) else 0) \<and>
    (\<forall>o1 \<in> set os. is_transfer (scriptPubKey o1) \<longrightarrow> 0 \<le> asset_amount (prefixes (ae_params E)) name (scriptPubKey o1))"
  using assms
proof (induction os arbitrary: index st G)
  case (Cons o1 os)
  let ?s = "scriptPubKey o1" and ?P = "prefixes (ae_params E)"
  obtain st1 G1 where rest: "asset_outputs E c txid addrs (index + 1) os st1 G1 = (Inr st', G')"
    and step: "(case IsAssetScript ?s of
                  Some (TX_TRANSFER_ASSET, own, i) \<Rightarrow> transfer_output E c txid addrs index ?s st G
                | Some (TX_REISSUE_ASSET, own, i) \<Rightarrow> (reissue_output E txid ?s st, G)
                | _ \<Rightarrow> (Inr st, G)) = (Inr st1, G1)"
    using Cons.prems(1) by (auto simp: Let_def split: if_splits prod.splits sum.splits)
  have "map_ok (totalOutputs st1) \<and> total_at (totalOutputs st1) name = total_at (totalOutputs st) name +
      (if is_transfer ?s then asset_amount ?P name ?s else 0) \<and> (is_transfer ?s \<longrightarrow> 0 \<le> asset_amount ?P name ?s)"
  proof (cases "is_transfer ?s")
    case True
    then obtain own i where k: "IsAssetScript ?s = Some (TX_TRANSFER_ASSET, own, i)"
      by (auto simp: is_transfer_def split: option.splits prod.splits asset_tx.splits)
    with step have "transfer_output E c txid addrs index ?s st G = (Inr st1, G1)" by simp
    from transfer_output_spec [OF this k] True Cons.prems(2) show ?thesis by simp
  next
    case False
    then have "totalOutputs st1 = totalOutputs st"
      using step by (auto simp: is_transfer_def reissue_output_def split: option.splits prod.splits asset_tx.splits if_splits)
    with False Cons.prems(2) show ?thesis by simp
  qed
  with Cons.IH [OF rest] show ?case by simp
qed simp

context coins_view
begin

lemma asset_inputs_spec:
  "cok v \<Longrightarrow> asset_inputs get E tx is m addrs v = (Accept (m', addrs'), v') \<Longrightarrow> map_ok m \<Longrightarrow>
   cok v' \<and> coins v' = coins v \<and> map_ok m' \<and>
   total_at m' name = total_at m name + (\<Sum>i \<leftarrow> is. input_amount (prefixes (ae_params E)) name (coins v) tx i)"
proof (induction "is" arbitrary: v m addrs)
  case (Cons i "is")
  let ?P = "prefixes (ae_params E)" and ?k = "prevout (vin tx ! i)"
  show ?case
  proof (cases "IsXAccountDummyInput ?P tx i")
    case True
    then show ?thesis using Cons by (simp add: input_amount_def)
  next
    case False
    obtain coin v1 where a: "AccessCoin get v ?k = (coin, v1)" by (cases "AccessCoin get v ?k")
    have k: "cok v1" "coins v1 = coins v" "unspent coin = coins v ?k"
      using read_keeps(8-10) [OF Cons.prems(1), of ?k] a by simp_all
    have "\<not> IsSpent coin" using Cons.prems(2) False a by (auto simp: Let_def split: if_splits)
    then have some: "coins v ?k = Some coin" using k(3) by (simp add: unspent_def)
    obtain m1 addrs1 where rest: "asset_inputs get E tx is m1 addrs1 v1 = (Accept (m', addrs'), v')"
        "map_ok m1" "total_at m1 name = total_at m name + coin_amount ?P name coin"
      using Cons.prems(2,3) False a \<open>\<not> IsSpent coin\<close> no_asset_amount [of coin ?P name] found_asset_amount [of ?P coin _ name]
      by (auto simp: Let_def total_at_add add_total_ok split: if_splits option.splits)
    with Cons.IH [OF k(1) rest(1,2)] k some False show ?thesis by (simp add: input_amount_def)
  qed
qed simp

lemma check_tx_assets_spec:
  assumes "cok v" "CheckTxAssets get E c tx (v, G) = (Accept st, v', G')"
    and "tx_wf (prefixes (ae_params E)) tx" "\<not> IsCoinBase tx"
  shows "cok v'" "coins v' = coins v" "\<forall>k \<in> set (tx_spends tx). coins v k \<noteq> None"
    and "(\<Sum>k \<leftarrow> tx_spends tx. coin_amount (prefixes (ae_params E)) name (the (coins v k))) = sent (prefixes (ae_params E)) name tx"
    and "\<forall>o1 \<in> set (vout tx). is_transfer (scriptPubKey o1) \<longrightarrow> 0 \<le> asset_amount (prefixes (ae_params E)) name (scriptPubKey o1)"
proof -
  let ?P = "prefixes (ae_params E)" and ?st = "\<lparr>totalOutputs = [], vPairReissueAssets = [], setMessages = []\<rparr>"
  obtain b v1 where hi: "HaveInputs get ?P tx v = (b, v1)" by (cases "HaveInputs get ?P tx v")
  obtain ins addrs v2 G1 where s: "asset_inputs get E tx [0..<length (vin tx)] [] [] v1 = (Accept (ins, addrs), v2)" "v' = v2" "b"
      "asset_outputs E c (Tx_GetHash tx) addrs 0 (vout tx) ?st G = (Inr st, G1)" "totals_error ins (totalOutputs st) = None"
    using assms(2) hi
    by (auto simp: CheckTxAssets_def split: bool.splits prod.splits outcome.splits sum.splits option.splits)
  note h = have_inputs_spec [OF assms(1), of ?P tx "[0..<length (vin tx)]" b v1]
  have v1: "cok v1" "coins v1 = coins v"
    using h hi assms(4) by (auto simp: HaveInputs_def)
  note si = asset_inputs_spec [OF v1(1) s(1), of name]
  note so = asset_outputs_spec [OF s(4), of name]
  show "cok v'" "coins v' = coins v" using si s(2) v1 by simp_all
  show "\<forall>k \<in> set (tx_spends tx). coins v k \<noteq> None"
    using h hi s(3) assms(4) spends_iff [OF assms(3,4)] by (fastforce simp: HaveInputs_def)
  have "(\<Sum>k \<leftarrow> tx_spends tx. coin_amount ?P name (the (coins v k))) = total_at ins name"
    using si v1(2) input_sums [OF assms(3,4), of "coin_amount ?P name" "coins v"]
    by (simp add: input_amount_def total_at_def cong: if_cong)
  also have "\<dots> = total_at (totalOutputs st) name" using totals_agree [OF _ _ s(5)] si so by simp
  finally show "(\<Sum>k \<leftarrow> tx_spends tx. coin_amount ?P name (the (coins v k))) = sent ?P name tx"
    using so by (simp add: sent_def total_at_def)
  show "\<forall>o1 \<in> set (vout tx). is_transfer (scriptPubKey o1) \<longrightarrow> 0 \<le> asset_amount ?P name (scriptPubKey o1)" using so by simp
qed

end

section \<open>Conservation\<close>

lemma created_amount:
  "(\<Sum>(k, coin) \<leftarrow> created txid h cb i os. coin_amount P name coin) =
   (\<Sum>o1 \<leftarrow> os. if IsUnspendable (scriptPubKey o1) then 0 else asset_amount P name (scriptPubKey o1))"
  by (induction os arbitrary: i) (simp_all add: coin_amount_def)

lemma created_le:
  assumes "\<forall>o1 \<in> set os. is_transfer (scriptPubKey o1) \<longrightarrow> 0 \<le> asset_amount P name (scriptPubKey o1)"
  shows "(\<Sum>o1 \<leftarrow> os. if IsUnspendable (scriptPubKey o1) then 0 else asset_amount P name (scriptPubKey o1)) \<le>
    (\<Sum>o1 \<leftarrow> os. if is_transfer (scriptPubKey o1) then asset_amount P name (scriptPubKey o1) else 0) +
    (\<Sum>o1 \<leftarrow> os. if is_transfer (scriptPubKey o1) \<or> IsUnspendable (scriptPubKey o1) then 0 else asset_amount P name (scriptPubKey o1))"
  using assms by (induction os) auto

lemma connect_assets_total:
  assumes "finite (dom U)" "tx_fits U tx"
    and "(\<Sum>k \<leftarrow> tx_spends tx. coin_amount P name (the (U k))) = sent P name tx"
    and "\<forall>o1 \<in> set (vout tx). is_transfer (scriptPubKey o1) \<longrightarrow> 0 \<le> asset_amount P name (scriptPubKey o1)"
  shows "asset_total P name (connect_spec h tx U) \<le> asset_total P name U + issued P name tx"
  using connect_spec_total_of [OF assms(1,2), of "coin_amount P name" h] assms(3) created_le [OF assms(4)]
  by (simp add: asset_total_def tx_created_def created_amount sent_def issued_def)

text \<open>
  C6. Assets are conserved. A transaction that passes \<^verbatim>\<open>CheckTransaction\<close> and \<^verbatim>\<open>CheckTxAssets\<close> sends, of every
  asset, exactly the amount it spends; connecting it leaves at most that much more of an asset among the
  unspent coins as its issue and reissue outputs create. The outputs it creates are new.
\<close>

theorem assets_conserved:
  assumes "view_ok v" "CheckTransaction (ae_params E) X M u True fM fB tx = None" "\<not> IsCoinBase tx"
    and "CheckTxAssets view_get E c tx (v, G) = (Accept st, v', G')"
    and "tx_fresh (view_coins v |` (- set (tx_spends tx))) tx"
  shows "(\<Sum>k \<leftarrow> tx_spends tx. coin_amount (prefixes (ae_params E)) name (the (view_coins v k))) =
      sent (prefixes (ae_params E)) name tx \<and>
    asset_total (prefixes (ae_params E)) name (connect_spec h tx (view_coins v)) \<le>
      asset_total (prefixes (ae_params E)) name (view_coins v) + issued (prefixes (ae_params E)) name tx"
proof -
  let ?P = "prefixes (ae_params E)"
  have wf: "tx_wf ?P tx" using checked_tx_wf [OF assms(2)] .
  note s = chain.check_tx_assets_spec [OF assms(1,4) wf assms(3)]
  have "tx_fits (view_coins v) tx"
    using wf assms(3,5) s(3) by (simp add: tx_fits_def tx_wf_def tx_spends_def)
  from connect_assets_total [OF view_finite this s(4,5)] s(4) [of name] show ?thesis by blast
qed

end
