(* ===== verification/XC_ConnectAssets.thy ===== *)
theory XC_ConnectAssets
  imports XC_Conserve
begin

text \<open>
  Connecting the transactions of a block with their assets: the asset parts of \<^verbatim>\<open>UpdateCoins\<close>, \<^verbatim>\<open>AddCoins\<close> and
  \<^verbatim>\<open>SpendCoin\<close>, the transaction loop of \<^verbatim>\<open>ConnectBlock\<close> with \<^verbatim>\<open>CheckTxAssets\<close>, and the asset part of
  \<^verbatim>\<open>DisconnectBlock\<close>. The sequence locks, the signature operations and the scripts, which the loop checks between
  the two, have their own theories. Errors of the cache operations are logged and ignored here, as in the source. What is done
  for restricted assets, for the wallet and for the address indices is left out.
\<close>

section \<open>Adding\<close>

definition CNewAsset_null :: CNewAsset where
  "CNewAsset_null = \<lparr>strName = [], nAmount = 0, units = MAX_UNIT, nReissuable = 0, nHasIPFS = 0, strIPFSHash = []\<rparr>"

definition CReissueAsset_null :: CReissueAsset where
  "CReissueAsset_null = \<lparr>r_strName = [], r_nAmount = 0, r_nUnits = 0, r_nReissuable = 1, r_strIPFSHash = []\<rparr>"

text \<open>The readers are called without looking at what they return.\<close>

definition read_or :: "'a \<Rightarrow> ('a \<times> string option) option \<Rightarrow> 'a \<times> string" where
  "read_or d r = (case r of None \<Rightarrow> (d, []) | Some (a, address) \<Rightarrow> (a, the_address address))"

type_synonym chain_assets = "CAssetsCache \<times> AssetGlobals \<times> XAssignments"

fun add_unique_assets ::
  "base58_prefixes \<Rightarrow> int \<Rightarrow> uint256 \<Rightarrow> CTxOut list \<Rightarrow> CAssetsCache \<times> AssetGlobals \<Rightarrow> CAssetsCache \<times> AssetGlobals" where
  "add_unique_assets P h hash [] s = s"
| "add_unique_assets P h hash (o1 # os) s =
     add_unique_assets P h hash os
       (if IsScriptNewUniqueAsset P (scriptPubKey o1) then
          case read_or CNewAsset_null (AssetFromScript P (scriptPubKey o1)) of (asset, address) \<Rightarrow>
            snd (AddNewAsset asset address h hash (fst s) (snd s))
        else s)"

text \<open>The first part of \<^verbatim>\<open>AddCoins\<close>, and what it records for undoing; \<open>u\<close> is the uninitialised height.\<close>

definition add_tx_assets ::
  "base58_prefixes \<Rightarrow> int \<Rightarrow> nat \<Rightarrow> uint256 \<Rightarrow> CTransaction \<Rightarrow> chain_assets \<Rightarrow> (string \<times> CBlockAssetUndo) list \<times> chain_assets" where
  "add_tx_assets P u h hash tx s =
     (case s of (c, G, X) \<Rightarrow>
      let add = (\<lambda>r. case read_or CNewAsset_null r of (asset, address) \<Rightarrow> snd (AddNewAsset asset address (int h) hash c G))
      in if Tx_IsNewAsset P tx then
           (case read_or CNewAsset_null (AssetFromTransaction P tx) of (asset, address) \<Rightarrow>
            case read_or [] (OwnerFromTransaction P tx) of (ownerName, ownerAddress) \<Rightarrow>
            case add (AssetFromTransaction P tx) of (c, G) \<Rightarrow>
              ([], AddOwnerAsset G ownerName ownerAddress c, G,
               case ParseXAccountAssignment tx of None \<Rightarrow> X | Some xid \<Rightarrow> snd (AddXAccountAssignment xid (strName asset) X)))
         else if Tx_IsReissueAsset tx then
           (case read_or CReissueAsset_null (ReissueAssetFromTransaction P tx) of (reissue, address) \<Rightarrow>
            case GetAssetMetaDataIfExists c (r_strName reissue) G of (found, G) \<Rightarrow>
            let asset = (case found of None \<Rightarrow> CNewAsset_null | Some (asset, origin) \<Rightarrow> asset)
            in case snd (AddReissueAsset u reissue address (out_point (Tx_GetHash tx) (length (vout tx) - 1)) c G) of
                 (c, G) \<Rightarrow> (reissue_undo_data reissue asset, c, G, X))
         else if IsNewUniqueAsset P tx then (case add_unique_assets P (int h) hash (vout tx) (c, G) of (c, G) \<Rightarrow> ([], c, G, X))
         else if IsNewMsgChannelAsset P tx then (case add (MsgChannelAssetFromTransaction P tx) of (c, G) \<Rightarrow> ([], c, G, X))
         else if IsNewQualifierAsset P tx then (case add (QualifierAssetFromTransaction P tx) of (c, G) \<Rightarrow> ([], c, G, X))
         else if IsNewRestrictedAsset P tx then (case add (RestrictedAssetFromTransaction P tx) of (c, G) \<Rightarrow> ([], c, G, X))
         else ([], c, G, X))"

text \<open>The transfers among the outputs.\<close>

fun add_transfers ::
  "base58_prefixes \<Rightarrow> AssetGlobals \<Rightarrow> uint256 \<Rightarrow> nat \<Rightarrow> CTxOut list \<Rightarrow> CAssetsCache \<Rightarrow> CAssetsCache" where
  "add_transfers P G txid i [] c = c"
| "add_transfers P G txid i (o1 # os) c =
     add_transfers P G txid (i + 1) os
       (case GetAssetData P (scriptPubKey o1) of None \<Rightarrow> c
        | Some d \<Rightarrow>
            if e_type d = TX_TRANSFER_ASSET \<and> 0 < e_nAmount d then
              AddTransferAsset G \<lparr>t_strName = e_assetName d, t_nAmount = e_nAmount d, t_message = e_message d,
                  t_nExpireTime = e_expireTime d\<rparr> (the_address (EncodeDestination P (e_destination d))) (out_point txid i) c
            else c)"

text \<open>The spent coins, taken from the undo record; a failure fails the assertion in \<^verbatim>\<open>UpdateCoins\<close>.\<close>

fun spend_assets :: "base58_prefixes \<Rightarrow> AssetGlobals \<Rightarrow> (CTxIn \<times> Coin) list \<Rightarrow> CAssetsCache \<Rightarrow> CAssetsCache option" where
  "spend_assets P G [] c = Some c"
| "spend_assets P G ((txin, coin) # ps) c =
     (if IsXAccountDummyPrevout (prevout txin) then spend_assets P G ps c
      else case TrySpendCoin P G (coin_out coin) c of (False, c) \<Rightarrow> None | (True, c) \<Rightarrow> spend_assets P G ps c)"

definition update_assets ::
  "base58_prefixes \<Rightarrow> int \<Rightarrow> nat \<Rightarrow> uint256 \<Rightarrow> CTransaction \<Rightarrow> Coin list \<Rightarrow> chain_assets \<Rightarrow>
     ((string \<times> CBlockAssetUndo) list \<times> chain_assets) option" where
  "update_assets P u h hash tx txundo s =
     (case s of (c, G, X) \<Rightarrow>
      case (if IsCoinBase tx then Some c else spend_assets P G (zip (vin tx) txundo) c) of None \<Rightarrow> None
      | Some c \<Rightarrow>
          (case add_tx_assets P u h hash tx (c, G, X) of (us, c, G, X) \<Rightarrow>
            Some (us, add_transfers P G (Tx_GetHash tx) 0 (vout tx) c, G, X)))"

section \<open>The transaction loop of \<^verbatim>\<open>ConnectBlock\<close>\<close>

record 'b conn_state =
  cs_view :: "'b CCoinsViewCache"
  cs_cache :: CAssetsCache
  cs_globals :: AssetGlobals
  cs_X :: XAssignments

text \<open>Both checks of a transaction that is not the coinbase; the accounts are those after the earlier transactions.\<close>

definition check_tx ::
  "'b getter \<Rightarrow> asset_env \<Rightarrow> nat \<Rightarrow> CAmount \<Rightarrow> CTransaction \<Rightarrow> 'b conn_state \<Rightarrow> (CAmount \<times> CMessage list) outcome \<times> 'b conn_state" where
  "check_tx bget E h nFees tx s =
     (if IsCoinBase tx then (Accept (0, []), s)
      else case CheckTxInputs bget (prefixes (ae_params E)) (int h) tx (cs_view s) of
        (Refuse e, v) \<Rightarrow> (Refuse e, s\<lparr>cs_view := v\<rparr>)
      | (Abort, v) \<Rightarrow> (Abort, s\<lparr>cs_view := v\<rparr>)
      | (Accept txfee, v) \<Rightarrow>
          if \<not> MoneyRange (nFees + txfee) then (Refuse (100, ''bad-txns-accumulated-fee-outofrange''), s\<lparr>cs_view := v\<rparr>)
          else case CheckTxAssets bget (E\<lparr>ae_X := cs_X s\<rparr>) (cs_cache s) tx (v, cs_globals s) of
            (r, v, G) \<Rightarrow>
              (case r of Refuse e \<Rightarrow> Refuse e | Abort \<Rightarrow> Abort | Accept st \<Rightarrow> Accept (txfee, setMessages st),
               s\<lparr>cs_view := v, cs_globals := G\<rparr>))"

text \<open>The fees, the undo records of the coins and of the assets, and the messages.\<close>

type_synonym block_result = "CAmount \<times> Coin list list \<times> (string \<times> CBlockAssetUndo) list \<times> CMessage list"

fun connect_block_txs ::
  "'b getter \<Rightarrow> asset_env \<Rightarrow> int \<Rightarrow> nat \<Rightarrow> uint256 \<Rightarrow> bool \<Rightarrow> CTransaction list \<Rightarrow> CAmount \<Rightarrow> 'b conn_state \<Rightarrow>
     block_result outcome \<times> 'b conn_state" where
  "connect_block_txs bget E u h hash first [] nFees s = (Accept (nFees, [], [], []), s)"
| "connect_block_txs bget E u h hash first (tx # txs) nFees s =
     (case check_tx bget E h nFees tx s of
        (Refuse e, s) \<Rightarrow> (Refuse e, s)
      | (Abort, s) \<Rightarrow> (Abort, s)
      | (Accept (txfee, msgs), s) \<Rightarrow>
          (case UpdateCoins bget tx h (cs_view s) of None \<Rightarrow> (Abort, s)
           | Some (txundo, v) \<Rightarrow>
               (case update_assets (prefixes (ae_params E)) u h hash tx txundo (cs_cache s, cs_globals s, cs_X s) of
                  None \<Rightarrow> (Abort, s)
                | Some (aundo, c, G, X) \<Rightarrow>
                    (case connect_block_txs bget E u h hash False txs (nFees + txfee) \<lparr>cs_view = v, cs_cache = c, cs_globals = G, cs_X = X\<rparr> of
                       (Accept (fees, us, aus, ms), s) \<Rightarrow> (Accept (fees, if first then us else txundo # us, filter (\<lambda>(name, d). name \<noteq> []) aundo @ aus, msgs @ ms), s)
                     | r \<Rightarrow> r))))"

section \<open>Removing\<close>

text \<open>
  The asset part of \<^verbatim>\<open>DisconnectBlock\<close> for a transaction; \<open>None\<close> is \<^verbatim>\<open>DISCONNECT_FAILED\<close>. The output with the
  verifier string is looked for only where restricted assets are deployed, so that the branch of a new restricted
  asset always fails.
\<close>

definition remove_if_known :: "(CNewAsset \<times> string option) option \<Rightarrow> CAssetsCache \<times> AssetGlobals \<Rightarrow> (CAssetsCache \<times> AssetGlobals) option" where
  "remove_if_known r s =
     (case r of None \<Rightarrow> None
      | Some (asset, address) \<Rightarrow>
          (case CheckIfAssetExists (fst s) (strName asset) True (snd s) of
             (False, G) \<Rightarrow> Some (fst s, G)
           | (True, G) \<Rightarrow> succeeded (RemoveNewAsset asset (the_address address) (fst s) G)))"

fun remove_unique_assets :: "base58_prefixes \<Rightarrow> CTxOut list \<Rightarrow> CAssetsCache \<times> AssetGlobals \<Rightarrow> (CAssetsCache \<times> AssetGlobals) option" where
  "remove_unique_assets P [] s = Some s"
| "remove_unique_assets P (o1 # os) s =
     (if \<not> IsScriptNewUniqueAsset P (scriptPubKey o1) then remove_unique_assets P os s
      else case remove_if_known (AssetFromScript P (scriptPubKey o1)) s of None \<Rightarrow> None | Some s \<Rightarrow> remove_unique_assets P os s)"

definition remove_tx_assets ::
  "base58_prefixes \<Rightarrow> int \<Rightarrow> bool \<Rightarrow> (string \<times> CBlockAssetUndo) list \<Rightarrow> CTransaction \<Rightarrow> chain_assets \<Rightarrow> chain_assets option" where
  "remove_tx_assets P u fJustCheck vUndoData tx s =
     (case s of (c, G, X) \<Rightarrow>
      let keep = map_option (\<lambda>(c, G). (c, G, X))
      in if Tx_IsNewAsset P tx then
           (case remove_if_known (AssetFromTransaction P tx) (c, G) of None \<Rightarrow> None
            | Some (c, G) \<Rightarrow> case OwnerFromTransaction P tx of None \<Rightarrow> None
            | Some (ownerName, ownerAddress) \<Rightarrow>
                Some (RemoveOwnerAsset G ownerName (the_address ownerAddress) c, G,
                  case ParseXAccountAssignment tx of None \<Rightarrow> X
                  | Some xid \<Rightarrow> if fJustCheck then X else RemoveXAccountAssignment xid X))
         else if Tx_IsReissueAsset tx then
           (case ReissueAssetFromTransaction P tx of None \<Rightarrow> None
            | Some (reissue, address) \<Rightarrow> case CheckIfAssetExists c (r_strName reissue) True G of
              (False, G) \<Rightarrow> Some (c, G, X)
            | (True, G) \<Rightarrow> keep (succeeded (RemoveReissueAsset u reissue (the_address address)
                (out_point (Tx_GetHash tx) (length (vout tx) - 1)) vUndoData c G)))
         else if IsNewUniqueAsset P tx then keep (remove_unique_assets P (vout tx) (c, G))
         else if IsNewMsgChannelAsset P tx then keep (remove_if_known (MsgChannelAssetFromTransaction P tx) (c, G))
         else if IsNewQualifierAsset P tx then keep (remove_if_known (QualifierAssetFromTransaction P tx) (c, G))
         else if IsNewRestrictedAsset P tx then None
         else Some (c, G, X))"

fun remove_transfers ::
  "base58_prefixes \<Rightarrow> AssetGlobals \<Rightarrow> uint256 \<Rightarrow> nat \<Rightarrow> CTxOut list \<Rightarrow> CAssetsCache \<Rightarrow> CAssetsCache option" where
  "remove_transfers P G txid i [] c = Some c"
| "remove_transfers P G txid i (o1 # os) c =
     (if IsUnspendable (scriptPubKey o1) \<or> \<not> is_transfer (scriptPubKey o1) then remove_transfers P G txid (i + 1) os c
      else case TransferAssetFromScript P (scriptPubKey o1) of None \<Rightarrow> None
      | Some (t, address) \<Rightarrow> case RemoveTransfer G t (the_address address) (out_point txid i) c of
        (False, c) \<Rightarrow> None | (True, c) \<Rightarrow> remove_transfers P G txid (i + 1) os c)"

text \<open>The coins given back, last input first; a failure only makes the result unclean.\<close>

fun unspend_assets :: "base58_prefixes \<Rightarrow> AssetGlobals \<Rightarrow> (CTxIn \<times> Coin) list \<Rightarrow> CAssetsCache \<Rightarrow> CAssetsCache" where
  "unspend_assets P G [] c = c"
| "unspend_assets P G ((txin, coin) # ps) c =
     unspend_assets P G ps
       (if IsXAccountDummyPrevout (prevout txin) \<or> \<not> Coin_IsAsset coin then c else snd (UndoAssetCoin P G coin c))"

definition disconnect_assets ::
  "base58_prefixes \<Rightarrow> int \<Rightarrow> bool \<Rightarrow> (string \<times> CBlockAssetUndo) list \<Rightarrow> bool \<Rightarrow> CTransaction \<Rightarrow> Coin list \<Rightarrow> chain_assets \<Rightarrow>
     chain_assets option" where
  "disconnect_assets P u fJustCheck vUndoData first tx txundo s =
     (case remove_tx_assets P u fJustCheck vUndoData tx s of None \<Rightarrow> None
      | Some (c, G, X) \<Rightarrow> case remove_transfers P G (Tx_GetHash tx) 0 (vout tx) c of None \<Rightarrow> None
      | Some c \<Rightarrow>
          if first then Some (c, G, X)
          else if length txundo \<noteq> length (vin tx) then None
          else Some (unspend_assets P G (rev (zip (vin tx) txundo)) c, G, X))"

end
