(* ===== verification/XC_Supply.thy ===== *)
theory XC_Supply
  imports XC_ConnectAssets
begin

text \<open>
  The supply of assets: through the transactions of accepted blocks the unspent amount of an asset stays within
  the amount on record for it, and its owner token stays one. The records are what the caches and the database
  say, as long as no asset is waiting to be removed from them.
\<close>

section \<open>Names\<close>

lemma marked_end:
  assumes "re_lang (seqs [r, r', at_least 1 (Not_class cs)]) s"
  shows "s \<noteq> [] \<and> last s \<notin> set cs"
proof -
  obtain u v where "s = u @ v" "re_lang (at_least 1 (Not_class cs)) v"
    using assms by (auto simp: re_lang_simps) (metis append.assoc)
  moreover have "v \<noteq> []" "set v \<inter> set cs = {}"
    using calculation(2) by (auto simp: at_least_not_class)
  ultimately show ?thesis using last_in_set by fastforce
qed

lemma sub_qualifier_end: "regex_match s SUB_QUALIFIER_INDICATOR \<Longrightarrow> s \<noteq> [] \<and> last s \<in> set name_chars"
  by (force simp: SUB_QUALIFIER_INDICATOR_def regex_match_lang re_lang_simps at_least_class simp del: set_simps)

lemma issued_name_end:
  assumes "CheckNewAsset a = None"
  shows "strName a \<noteq> [] \<and> last (strName a) \<noteq> CHR ''!''"
proof -
  let ?n = "strName a"
  obtain k where k: "IsAssetNameValid ?n = (True, Some k)" "k \<notin> {RESTRICTED, QUALIFIER, SUB_QUALIFIER}"
      "\<not> IsAssetNameAnOwner ?n" using new_asset_kind [OF assms] .
  then have "\<not> regex_match ?n OWNER_INDICATOR" by (simp add: IsAssetNameAnOwner_def)
  then consider "regex_match ?n UNIQUE_INDICATOR \<or> regex_match ?n MSG_CHANNEL_INDICATOR \<or> regex_match ?n VOTE_INDICATOR"
    | "regex_match ?n SUB_QUALIFIER_INDICATOR" | "k = ROOT \<or> k = SUB"
    using k unfolding IsAssetNameValid_def Let_def by (auto split: if_splits)
  then show ?thesis
  proof cases
    case 1
    then obtain r r' where "re_lang (seqs [r, r', at_least 1 (Not_class ''~#!/'')]) ?n"
      unfolding regex_match_lang UNIQUE_INDICATOR_def MSG_CHANNEL_INDICATOR_def VOTE_INDICATOR_def by blast
    from marked_end [OF this] show ?thesis by simp
  next
    case 2
    from sub_qualifier_end [OF this] have "last ?n \<notin> {CHR ''!''}" "?n \<noteq> []" using name_chars_plain by blast+
    then show ?thesis by simp
  next
    case 3
    then have "IsNameValidBeforeTag ?n" using k(1) ordinary_name_iff by blast
    then have "CHR ''!'' \<notin> set ?n" "?n \<noteq> []" using before_tag_plain(3) before_tag_name(2) by fastforce+
    then show ?thesis using last_in_set by metis
  qed
qed

section \<open>The records while blocks are connected\<close>

definition conn_ok :: "CAssetsCache \<Rightarrow> AssetGlobals \<Rightarrow> bool" where
  "conn_ok c G \<longleftrightarrow> rows_ok G \<and> \<not> fReindex G \<and> (\<forall>n. not_removed c G n) \<and> (\<forall>n. not_reissued c G n \<or> asset_exists c G n)"

lemma conn_exists:
  assumes "conn_ok c G"
  shows "asset_exists c G n \<longleftrightarrow> asset_view c G n \<noteq> None"
proof -
  have r: "rows_ok G" and nr: "not_removed c G n" and f: "\<not> fReindex G" and m: "not_reissued c G n \<or> asset_exists c G n"
    using assms by (simp_all add: conn_ok_def)
  show ?thesis
  proof (cases "not_reissued c G n")
    case True
    then show ?thesis
      using nr f unfolding asset_exists_layers [OF r] asset_view_layers [OF r] not_removed_def not_reissued_def
      by (simp split: option.split)
  next
    case False
    then have "asset_view c G n \<noteq> None"
      unfolding asset_view_layers [OF r] not_reissued_def
      by (cases "map_of (mapReissuedAssetData c) n"; cases "map_of (mapReissuedAssetData (passets G)) n"; simp)
    with m False show ?thesis by simp
  qed
qed

text \<open>Lookups only.\<close>

definition looked_up :: "AssetGlobals \<Rightarrow> AssetGlobals \<Rightarrow> bool" where
  "looked_up G G' \<longleftrightarrow> same_but_lru G G' \<and> (rows_ok G \<longrightarrow> rows_ok G')"

lemma same_but_lru_trans: "same_but_lru G G' \<Longrightarrow> same_but_lru G' G'' \<Longrightarrow> same_but_lru G G''"
  by (auto simp: same_but_lru_def)

lemma looked_up_refl [simp]: "looked_up G G"
  by (simp add: looked_up_def)

lemma looked_up_trans: "looked_up G G' \<Longrightarrow> looked_up G' G'' \<Longrightarrow> looked_up G G''"
  by (auto simp: looked_up_def intro: same_but_lru_trans)

lemma lookup_same: "same_but_lru G (snd (GetAssetMetaDataIfExists c name G))" "same_but_lru G (snd (CheckIfAssetExists c name force G))"
  by (auto simp: GetAssetMetaDataIfExists_def CheckIfAssetExists_def split: option.split)

lemma looked_up_lookup:
  "GetAssetMetaDataIfExists c name G = (r, G') \<Longrightarrow> looked_up G G'" "CheckIfAssetExists c name force G = (b, G') \<Longrightarrow> looked_up G G'"
  using lookup_keeps [of G c name] exists_keeps [of G c name force] lookup_same [of G c name] lookup_same(2) [of G c name force]
  by (auto simp: looked_up_def)

lemma conn_ok_looked_up:
  assumes "conn_ok c G" "looked_up G G'"
  shows "conn_ok c G'" "asset_view c G' = asset_view c G"
proof -
  have r: "rows_ok G" "rows_ok G'" and s: "same_but_lru G G'" using assms by (auto simp: conn_ok_def looked_up_def)
  show "asset_view c G' = asset_view c G" using same_but_lru_view [OF s r] by blast
  show "conn_ok c G'"
    using assms(1) r unfolding conn_ok_def not_removed_def not_reissued_def asset_exists_layers [OF r(1)] asset_exists_layers [OF r(2)]
      same_but_lruD [OF s] by blast
qed

lemma conn_ok_neutral:
  assumes "conn_ok c G" "neutral c c'"
  shows "conn_ok c' G" "asset_view c' G = asset_view c G"
proof -
  have "not_removed c' G n = not_removed c G n" "not_reissued c' G n = not_reissued c G n" for n
    using assms(2) by (simp_all add: not_removed_def not_reissued_def neutral_def)
  then show "conn_ok c' G" using assms(1) neutral_view(3) [OF assms(2)] by (simp add: conn_ok_def)
  show "asset_view c' G = asset_view c G" using neutral_view(1) [OF assms(2)] by blast
qed

text \<open>The operations of a connected transaction.\<close>

lemma add_new_view:
  assumes ok: "conn_ok c G" and new: "asset_view c G (strName a) = None"
  shows "\<exists>c' G'. AddNewAsset a address h b c G = (True, c', G') \<and> conn_ok c' G' \<and>
    asset_view c' G' = (asset_view c G)(strName a \<mapsto> a)"
proof -
  let ?n = "strName a" and ?na = "\<lparr>n_asset = a, n_address = address, n_blockHash = b, n_blockHeight = h\<rparr>"
  let ?c = "c\<lparr>setNewAssetsToRemove := map_del ?n (setNewAssetsToRemove c),
              setNewAssetsToAdd := set_insert ?n ?na (setNewAssetsToAdd c)\<rparr>"
  have ex: "\<not> asset_exists c G ?n" using conn_exists [OF ok] new by simp
  obtain G' where G': "CheckIfAssetExists c ?n True G = (False, G')"
    using ex by (cases "CheckIfAssetExists c ?n True G") (simp add: asset_exists_def)
  have lu: "looked_up G G'" using looked_up_lookup(2) [OF G'] .
  have r: "rows_ok G" and nr: "\<And>n. not_removed c G n" and f: "\<not> fReindex G"
    and re: "\<And>n. not_reissued c G n \<or> asset_exists c G n" using ok by (simp_all add: conn_ok_def)
  have gone: "map_of (setNewAssetsToAdd c) ?n = None"
    using ex nr [of ?n] f unfolding asset_exists_layers [OF r] not_removed_def by simp
  have m: "map_of (setNewAssetsToAdd ?c) = (map_of (setNewAssetsToAdd c))(?n \<mapsto> ?na)"
      "map_of (setNewAssetsToRemove ?c) = map_of (setNewAssetsToRemove c)"
    using gone nr [of ?n] by (simp_all add: set_insert_def map_of_put map_del_absent not_removed_def fun_eq_iff)
  have old: "not_removed ?c G n = not_removed c G n" "not_reissued ?c G n = not_reissued c G n" for n
    unfolding not_removed_def not_reissued_def m by simp_all
  have "asset_exists ?c G n \<longleftrightarrow> asset_exists c G n \<or> n = ?n" for n
    using nr [of n] unfolding asset_exists_layers [OF r] m not_removed_def by simp
  then have ok': "conn_ok ?c G" using ok re by (simp add: conn_ok_def old) blast
  have "not_reissued c G ?n" using re ex by blast
  then have v: "asset_view ?c G = (asset_view c G)(?n \<mapsto> a)"
    using nr unfolding fun_eq_iff asset_view_layers [OF r] m not_removed_def not_reissued_def
    by (simp cong: option.case_cong)
  note ok2 = conn_ok_looked_up [OF ok' lu]
  let ?c' = "if fAssetIndex G' then set_balance ?n address (nAmount a) ?c else ?c"
  have "neutral ?c ?c'" by simp
  note ok3 = conn_ok_neutral [OF ok2(1) this]
  have "AddNewAsset a address h b c G = (True, ?c', G')" by (simp add: AddNewAsset_def G' Let_def)
  with ok3 ok2(2) v show ?thesis by (intro exI) auto
qed

lemma add_reissue_view:
  assumes ok: "conn_ok c G" and there: "asset_view c G (r_strName r) = Some a"
  shows "\<exists>c' G'. AddReissueAsset u r address out c G = (True, c', G') \<and> conn_ok c' G' \<and>
    asset_view c' G' = (asset_view c G)(r_strName r \<mapsto> reissued r a)"
proof -
  let ?n = "r_strName r"
  obtain origin G' where l: "GetAssetMetaDataIfExists c ?n G = (Some (a, origin), G')"
    using there by (cases "GetAssetMetaDataIfExists c ?n G") (auto simp: asset_view_def)
  let ?c = "c\<lparr>mapReissuedAssetData := map_put ?n (reissued r a) (mapReissuedAssetData c),
      setNewReissueToRemove := map_del (key_of out) (setNewReissueToRemove c),
      setNewReissueToAdd := set_insert (key_of out) (reissue_entry u r address out origin) (setNewReissueToAdd c)\<rparr>"
  have r: "rows_ok G" using ok by (simp add: conn_ok_def)
  have m: "map_of (mapReissuedAssetData ?c) = (map_of (mapReissuedAssetData c))(?n \<mapsto> reissued r a)"
    by (simp add: map_of_put fun_eq_iff)
  have e: "asset_exists ?c G n = asset_exists c G n" "not_removed ?c G n = not_removed c G n" for n
    unfolding asset_exists_layers [OF r] not_removed_def by simp_all
  have "not_reissued ?c G n \<or> asset_exists c G n" for n
    using ok conn_exists [OF ok, of n] there unfolding conn_ok_def not_reissued_def m by (cases "n = ?n") auto
  then have ok': "conn_ok ?c G" using ok by (simp add: conn_ok_def e)
  have v: "asset_view ?c G = (asset_view c G)(?n \<mapsto> reissued r a)"
    unfolding fun_eq_iff asset_view_layers [OF r] m by (simp cong: option.case_cong)
  note ok2 = conn_ok_looked_up [OF ok' looked_up_lookup(1) [OF l]]
  let ?c' = "if fAssetIndex G' then add_balance G' ?n address (r_nAmount r) ?c else ?c"
  have "neutral ?c ?c'" by simp
  note ok3 = conn_ok_neutral [OF ok2(1) this]
  have "AddReissueAsset u r address out c G = (True, ?c', G')" by (simp add: AddReissueAsset_def l Let_def)
  with ok3 ok2(2) v show ?thesis by (intro exI) auto
qed

lemma spend_assets_neutral: "spend_assets P G ps c = Some c' \<Longrightarrow> neutral c c'"
proof (induction P G ps c rule: spend_assets.induct)
  case (2 P G txin coin ps c)
  then show ?case
    using neutral_operations(3) [of c P G "coin_out coin"] by (auto split: if_splits prod.splits bool.splits intro: neutral_trans)
qed simp

lemma add_transfers_neutral: "neutral c (add_transfers P G txid i os c)"
  by (induction P G txid i os c rule: add_transfers.induct)
    (auto intro: neutral_trans neutral_operations(1) split: option.split)

section \<open>What a transaction creates\<close>

definition read_from :: "(CScript \<Rightarrow> ('a \<times> string option) option) \<Rightarrow> CTxOut list \<Rightarrow> 'a list" where
  "read_from r os = List.map_filter (\<lambda>o1. map_option fst (r (scriptPubKey o1))) os"

abbreviation "new_assets P tx \<equiv> read_from (AssetFromScript P) (vout tx)"
abbreviation "owner_names P tx \<equiv> read_from (OwnerAssetFromScript P) (vout tx)"
abbreviation "reissues_in P tx \<equiv> read_from (ReissueAssetFromScript P) (vout tx)"

lemma read_from_simps [simp]:
  "read_from r [] = []"
  "read_from r (o1 # os) = (case r (scriptPubKey o1) of None \<Rightarrow> read_from r os | Some x \<Rightarrow> fst x # read_from r os)"
  by (simp_all add: read_from_def List.map_filter_simps split: option.split)

lemma set_read_from: "set (read_from r os) = {x. \<exists>o1 \<in> set os. \<exists>addr. r (scriptPubKey o1) = Some (x, addr)}"
  by (induction os) (auto split: option.split)

lemma read_from_none: "length (filter (\<lambda>o1. Q (scriptPubKey o1)) os) = 0 \<Longrightarrow> (\<And>s x. r s = Some x \<Longrightarrow> Q s) \<Longrightarrow> read_from r os = []"
  by (induction os) (auto split: if_splits option.split)

lemma read_from_single:
  assumes "length (filter (\<lambda>o1. Q (scriptPubKey o1)) os) = 1" "\<And>s x. r s = Some x \<Longrightarrow> Q s"
    and "o1 \<in> set os" "r (scriptPubKey o1) = Some (x, addr)"
  shows "read_from r os = [x]"
  using assms(1,3,4)
proof (induction os)
  case (Cons o2 os)
  show ?case
  proof (cases "Q (scriptPubKey o2)")
    case True
    with Cons.prems(1) have n: "length (filter (\<lambda>o1. Q (scriptPubKey o1)) os) = 0" by simp
    then have "o1 = o2" using Cons.prems(2,3) assms(2) by (auto simp: filter_empty_conv)
    with n read_from_none [OF n assms(2)] Cons.prems(3) show ?thesis by simp
  next
    case False
    then have "r (scriptPubKey o2) = None" using assms(2) by (cases "r (scriptPubKey o2)") blast+
    with False Cons show ?thesis by auto
  qed
qed simp

lemma script_kinds:
  "OwnerAssetFromScript P s = Some y \<Longrightarrow> IsOwnerAsset s" "ReissueAssetFromScript P s = Some z \<Longrightarrow> IsReissueAsset s"
  by (auto simp: OwnerAssetFromScript_def ReissueAssetFromScript_def IsOwnerAsset_iff IsReissueAsset_iff
      split: option.splits asset_tx.splits bool.splits)

text \<open>The amounts in outputs that are no transfers.\<close>

definition created_of :: "base58_prefixes \<Rightarrow> string \<Rightarrow> CTxOut list \<Rightarrow> CAmount" where
  "created_of P n os =
     (\<Sum>a \<leftarrow> read_from (AssetFromScript P) os. if strName a = n then nAmount a else 0) +
     (\<Sum>m \<leftarrow> read_from (OwnerAssetFromScript P) os. if m = n then OWNER_ASSET_AMOUNT else 0) +
     (\<Sum>r \<leftarrow> read_from (ReissueAssetFromScript P) os. if r_strName r = n then r_nAmount r else 0)"

lemma created_of_Cons:
  "created_of P n (o1 # os) = (if is_transfer (scriptPubKey o1) then 0 else asset_amount P n (scriptPubKey o1)) + created_of P n os"
proof -
  let ?s = "scriptPubKey o1"
  consider "IsAssetScript ?s = None" | i where "IsAssetScript ?s = Some (TX_NEW_ASSET, False, i)"
    | i where "IsAssetScript ?s = Some (TX_NEW_ASSET, True, i)" | own i where "IsAssetScript ?s = Some (TX_TRANSFER_ASSET, own, i)"
    | own i where "IsAssetScript ?s = Some (TX_REISSUE_ASSET, own, i)"
  proof (cases "IsAssetScript ?s")
    case (Some k)
    obtain t own i where "k = (t, own, i)" by (cases k)
    with Some that show thesis by (cases t; cases own; simp)
  qed (use that in simp)
  then show ?thesis
  proof cases
    case 1
    then have "AssetFromScript P ?s = None" "OwnerAssetFromScript P ?s = None" "ReissueAssetFromScript P ?s = None"
      by (simp_all add: AssetFromScript_def OwnerAssetFromScript_def ReissueAssetFromScript_def)
    with 1 show ?thesis by (simp add: created_of_def is_transfer_def asset_amount_def GetAssetData_def)
  next
    case 2
    then have "OwnerAssetFromScript P ?s = None" "ReissueAssetFromScript P ?s = None"
      by (simp_all add: OwnerAssetFromScript_def ReissueAssetFromScript_def)
    with 2 show ?thesis
      by (cases "AssetFromScript P ?s") (auto simp: created_of_def is_transfer_def asset_amount_def GetAssetData_def)
  next
    case 3
    then have "AssetFromScript P ?s = None" "ReissueAssetFromScript P ?s = None"
      by (simp_all add: AssetFromScript_def ReissueAssetFromScript_def)
    with 3 show ?thesis
      by (cases "OwnerAssetFromScript P ?s") (auto simp: created_of_def is_transfer_def asset_amount_def GetAssetData_def)
  next
    case 4
    then have "AssetFromScript P ?s = None" "OwnerAssetFromScript P ?s = None" "ReissueAssetFromScript P ?s = None"
      by (simp_all add: AssetFromScript_def OwnerAssetFromScript_def ReissueAssetFromScript_def)
    with 4 show ?thesis by (simp add: created_of_def is_transfer_def)
  next
    case 5
    then have "AssetFromScript P ?s = None" "OwnerAssetFromScript P ?s = None"
      by (simp_all add: AssetFromScript_def OwnerAssetFromScript_def)
    with 5 show ?thesis
      by (cases "ReissueAssetFromScript P ?s") (auto simp: created_of_def is_transfer_def asset_amount_def GetAssetData_def)
  qed
qed

lemma created_of_empty: "created_of P n [] = 0"
  by (simp add: created_of_def)

lemma created_of_nonneg:
  assumes "\<forall>a \<in> set (read_from (AssetFromScript P) os). 0 \<le> nAmount a" "\<forall>r \<in> set (read_from (ReissueAssetFromScript P) os). 0 \<le> r_nAmount r"
  shows "\<forall>o1 \<in> set os. \<not> is_transfer (scriptPubKey o1) \<longrightarrow> 0 \<le> asset_amount P n (scriptPubKey o1)"
proof
  fix o1 assume o: "o1 \<in> set os"
  have "set (read_from (AssetFromScript P) [o1]) \<subseteq> set (read_from (AssetFromScript P) os)"
    "set (read_from (ReissueAssetFromScript P) [o1]) \<subseteq> set (read_from (ReissueAssetFromScript P) os)"
    using o unfolding set_read_from by auto
  then have "\<forall>a \<in> set (read_from (AssetFromScript P) [o1]). 0 \<le> nAmount a" "\<forall>r \<in> set (read_from (ReissueAssetFromScript P) [o1]). 0 \<le> r_nAmount r"
    using assms by blast+
  then have "(\<Sum>a \<leftarrow> read_from (AssetFromScript P) [o1]. if strName a = n then nAmount a else 0) \<ge> 0"
    "(\<Sum>r \<leftarrow> read_from (ReissueAssetFromScript P) [o1]. if r_strName r = n then r_nAmount r else 0) \<ge> 0"
    by (auto simp del: read_from_simps intro!: sum_list_nonneg)
  moreover have "(\<Sum>m \<leftarrow> read_from (OwnerAssetFromScript P) [o1]. if m = n then OWNER_ASSET_AMOUNT else 0) \<ge> 0"
    by (rule sum_list_nonneg) auto
  ultimately have "0 \<le> created_of P n [o1]" unfolding created_of_def by linarith
  then show "\<not> is_transfer (scriptPubKey o1) \<longrightarrow> 0 \<le> asset_amount P n (scriptPubKey o1)"
    unfolding created_of_Cons created_of_empty by (simp split: if_splits)
qed

lemma issued_le:
  assumes "\<forall>a \<in> set (new_assets P tx). 0 \<le> nAmount a" "\<forall>r \<in> set (reissues_in P tx). 0 \<le> r_nAmount r"
  shows "issued P n tx \<le> created_of P n (vout tx)"
proof -
  have "(\<Sum>o1 \<leftarrow> os. if is_transfer (scriptPubKey o1) \<or> IsUnspendable (scriptPubKey o1) then 0 else asset_amount P n (scriptPubKey o1))
      \<le> created_of P n os"
    if "\<forall>o1 \<in> set os. \<not> is_transfer (scriptPubKey o1) \<longrightarrow> 0 \<le> asset_amount P n (scriptPubKey o1)" for os
    using that by (induction os) (auto simp: created_of_Cons created_of_empty)
  with created_of_nonneg [OF assms] show ?thesis by (simp add: issued_def)
qed

lemma unique_names_distinct:
  assumes "\<forall>o1 \<in> set os. AssetFromScript P (scriptPubKey o1) \<noteq> None \<longrightarrow> IsScriptNewUniqueAsset P (scriptPubKey o1)"
    and "unique_outputs P os root seen = Inr (root', seen')"
  shows "distinct (map strName (read_from (AssetFromScript P) os)) \<and>
    set (map strName (read_from (AssetFromScript P) os)) \<inter> set seen = {}"
  using assms
proof (induction os arbitrary: root seen)
  case (Cons o1 os)
  show ?case
  proof (cases "IsScriptNewUniqueAsset P (scriptPubKey o1)")
    case True
    then obtain a addr where a: "AssetFromScript P (scriptPubKey o1) = Some (a, addr)"
      by (auto simp: IsScriptNewUniqueAsset_def created_kind_def split: option.splits)
    with Cons.prems(2) True have "strName a \<notin> set seen" "\<exists>root1. unique_outputs P os root1 (strName a # seen) = Inr (root', seen')"
      by (auto simp: Let_def split: if_splits)
    with Cons.IH [of _ "strName a # seen"] Cons.prems(1) a show ?thesis by auto
  next
    case False
    with Cons.prems have "AssetFromScript P (scriptPubKey o1) = None" "unique_outputs P os root seen = Inr (root', seen')"
      by (simp_all del: not_None_eq)
    with Cons.IH [of root seen] Cons.prems(1) show ?thesis by simp
  qed
qed simp

text \<open>The kinds of transaction that pass, with what they create.\<close>

definition creates :: "base58_prefixes \<Rightarrow> CTransaction \<Rightarrow> CNewAsset list \<Rightarrow> string list \<Rightarrow> CReissueAsset list \<Rightarrow> bool" where
  "creates P tx as os rs \<longleftrightarrow> new_assets P tx = as \<and> owner_names P tx = os \<and> reissues_in P tx = rs"

lemma counts_none:
  "issues (GetTxOutAssetTypes os) = 0 \<Longrightarrow> read_from (AssetFromScript P) os = []"
  "owners (GetTxOutAssetTypes os) = 0 \<Longrightarrow> read_from (OwnerAssetFromScript P) os = []"
  "reissues (GetTxOutAssetTypes os) = 0 \<Longrightarrow> read_from (ReissueAssetFromScript P) os = []"
  unfolding asset_type_counts by (auto intro: read_from_none AssetFromScript_new script_kinds)

lemma counts_one:
  "issues (GetTxOutAssetTypes os) = 1 \<Longrightarrow> o1 \<in> set os \<Longrightarrow> AssetFromScript P (scriptPubKey o1) = Some (a, addr) \<Longrightarrow>
    read_from (AssetFromScript P) os = [a]"
  "owners (GetTxOutAssetTypes os) = 1 \<Longrightarrow> o1 \<in> set os \<Longrightarrow> OwnerAssetFromScript P (scriptPubKey o1) = Some (m, addr) \<Longrightarrow>
    read_from (OwnerAssetFromScript P) os = [m]"
  "reissues (GetTxOutAssetTypes os) = 1 \<Longrightarrow> o1 \<in> set os \<Longrightarrow> ReissueAssetFromScript P (scriptPubKey o1) = Some (r, addr) \<Longrightarrow>
    read_from (ReissueAssetFromScript P) os = [r]"
  unfolding asset_type_counts
  by (rule read_from_single [OF _ AssetFromScript_new], assumption+, rule read_from_single [OF _ script_kinds(1)], assumption+,
      rule read_from_single [OF _ script_kinds(2)], assumption+)

lemma new_shape:
  assumes "Tx_IsNewAsset (prefixes A) tx" "check_creation A X M u tx = Inr k"
  obtains a addr where "AssetFromScript (prefixes A) (last_script tx) = Some (a, addr)" "CheckNewAsset a = None"
    "creates (prefixes A) tx [a] [strName a @ OWNER_TAG] []"
proof -
  let ?P = "prefixes A" and ?n = "GetTxOutAssetTypes (vout tx)"
  obtain a addr where v: "VerifyNewAsset A X M u tx = None" "AssetFromScript ?P (last_script tx) = Some (a, addr)" "CheckNewAsset a = None"
    using assms by (auto simp: check_creation_def Let_def AssetFromTransaction_def split: option.splits)
  obtain own where w: "OwnerAssetFromScript ?P (owner_script_of tx) = Some (strName a @ OWNER_TAG, own)"
      "issues ?n = 1" "owners ?n = 1" "reissues ?n = 0"
    using VerifyNewAsset_accepts [OF v(1)] v(2) by (metis option.inject prod.inject)
  have "3 \<le> length (vout tx)" using assms(1) by (simp add: Tx_IsNewAsset_def)
  then have "vout tx ! (length (vout tx) - 2) \<in> set (vout tx)" "vout tx ! (length (vout tx) - 1) \<in> set (vout tx)"
    by (auto intro!: nth_mem)
  with counts_one(1) [OF w(2) this(2)] counts_one(2) [OF w(3) this(1)] counts_none(3) [OF w(4)] v(2) w(1)
  have "creates ?P tx [a] [strName a @ OWNER_TAG] []" by (simp add: creates_def last_script_def owner_script_of_def)
  with that v show thesis by blast
qed

lemma reissue_shape:
  assumes "\<not> Tx_IsNewAsset (prefixes A) tx" "Tx_IsReissueAsset tx" "check_creation A X M u tx = Inr k" "vout tx \<noteq> []"
  obtains r addr where "ReissueAssetFromScript (prefixes A) (last_script tx) = Some (r, addr)" "CheckReissueAsset A r = None"
    "creates (prefixes A) tx [] [] [r]"
proof -
  let ?P = "prefixes A" and ?n = "GetTxOutAssetTypes (vout tx)"
  obtain r addr where v: "VerifyReissueAsset A tx = None" "ReissueAssetFromScript ?P (last_script tx) = Some (r, addr)"
      "CheckReissueAsset A r = None"
    using assms by (auto simp: check_creation_def Let_def ReissueAssetFromTransaction_def split: option.splits)
  then have w: "issues ?n = 0" "owners ?n = 0" "reissues ?n = 1"
    by (auto simp: VerifyReissueAsset_def Let_def split: if_splits)
  obtain ol where ol: "ol \<in> set (vout tx)" "last_script tx = scriptPubKey ol" using last_script_in [OF assms(4)] by blast
  have "creates ?P tx [] [] [r]"
    using counts_none(1) [OF w(1)] counts_none(2) [OF w(2)] counts_one(3) [OF w(3) ol(1)] v(2) ol(2) by (simp add: creates_def)
  with that v show thesis by blast
qed

lemma unique_shape:
  assumes "\<not> Tx_IsNewAsset (prefixes A) tx" "\<not> Tx_IsReissueAsset tx" "IsNewUniqueAsset (prefixes A) tx" "check_creation A X M u tx = Inr k"
  shows "\<forall>o1 \<in> set (vout tx). AssetFromScript (prefixes A) (scriptPubKey o1) \<noteq> None \<longrightarrow> IsScriptNewUniqueAsset (prefixes A) (scriptPubKey o1)"
    "\<forall>a \<in> set (new_assets (prefixes A) tx). CheckNewAsset a = None" "distinct (map strName (new_assets (prefixes A) tx))"
    "creates (prefixes A) tx (new_assets (prefixes A) tx) [] []"
proof -
  let ?P = "prefixes A" and ?n = "GetTxOutAssetTypes (vout tx)"
  have v: "VerifyNewUniqueAsset A tx = None"
    using assms by (auto simp: check_creation_def Let_def split: option.splits)
  then obtain root ns where u: "unique_outputs ?P (vout tx) [] [] = Inr (root, ns)" and w: "owners ?n = 0" "reissues ?n = 0"
    by (auto simp: VerifyNewUniqueAsset_def Let_def split: if_splits sum.splits)
  show all: "\<forall>o1 \<in> set (vout tx). AssetFromScript ?P (scriptPubKey o1) \<noteq> None \<longrightarrow> IsScriptNewUniqueAsset ?P (scriptPubKey o1)"
    using unique_authority(1) [OF v] by auto
  show "distinct (map strName (new_assets ?P tx))" using unique_names_distinct [OF all u] by blast
  show "\<forall>a \<in> set (new_assets ?P tx). CheckNewAsset a = None"
    using authority_unique [OF assms] by (auto simp: set_read_from)
  show "creates ?P tx (new_assets ?P tx) [] []" using counts_none(2) [OF w(1)] counts_none(3) [OF w(2)] by (simp add: creates_def)
qed

lemma channel_shape:
  assumes "\<not> Tx_IsNewAsset (prefixes A) tx" "\<not> Tx_IsReissueAsset tx" "\<not> IsNewUniqueAsset (prefixes A) tx"
    and "IsNewMsgChannelAsset (prefixes A) tx" "check_creation A X M u tx = Inr k" "vout tx \<noteq> []"
  obtains a addr where "MsgChannelAssetFromTransaction (prefixes A) tx = Some (a, addr)" "CheckNewAsset a = None"
    "creates (prefixes A) tx [a] [] []"
proof -
  let ?P = "prefixes A" and ?n = "GetTxOutAssetTypes (vout tx)"
  obtain ol where ol: "ol \<in> set (vout tx)" "last_script tx = scriptPubKey ol" using last_script_in [OF assms(6)] by blast
  obtain a addr where v: "VerifyNewMsgChannelAsset A tx = None" "MsgChannelAssetFromTransaction ?P tx = Some (a, addr)" "CheckNewAsset a = None"
    using assms by (auto simp: check_creation_def Let_def split: option.splits)
  then have l: "AssetFromScript ?P (scriptPubKey ol) = Some (a, addr)"
    using ol(2) by (auto simp: MsgChannelAssetFromTransaction_def MsgChannelAssetFromScript_def split: if_splits)
  have w: "issues ?n = 1" "owners ?n = 0" "reissues ?n = 0"
    using v(1) by (auto simp: VerifyNewMsgChannelAsset_def Let_def split: if_splits option.splits)
  have "creates ?P tx [a] [] []"
    using counts_one(1) [OF w(1) ol(1) l] counts_none(2) [OF w(2)] counts_none(3) [OF w(3)] by (simp add: creates_def)
  with that v show thesis by blast
qed

lemma plain_shape:
  assumes "\<not> Tx_IsNewAsset (prefixes A) tx" "\<not> Tx_IsReissueAsset tx" "\<not> IsNewUniqueAsset (prefixes A) tx"
    and "\<not> IsNewMsgChannelAsset (prefixes A) tx" "check_creation A X M u tx = Inr k"
  shows "creates (prefixes A) tx [] [] []"
proof -
  let ?n = "GetTxOutAssetTypes (vout tx)"
  have e: "\<forall>o1 \<in> set (vout tx). plain_output_error o1 = None"
    using removed_kinds [OF assms] assms by (simp add: check_creation_def Let_def first_error_None split: option.splits)
  have "t = TX_TRANSFER_ASSET" if "o1 \<in> set (vout tx)" "IsAssetScript (scriptPubKey o1) = Some (t, own, i)" for o1 t own i
    using bspec [OF e that(1)] that(2) by (simp add: plain_output_error_def split: if_splits)
  then have "\<forall>o1 \<in> set (vout tx). \<not> IsNewAsset (scriptPubKey o1) \<and> \<not> IsOwnerAsset (scriptPubKey o1) \<and> \<not> IsReissueAsset (scriptPubKey o1)"
    unfolding IsNewAsset_iff IsOwnerAsset_iff IsReissueAsset_iff by blast
  then have "issues ?n = 0" "owners ?n = 0" "reissues ?n = 0" by (simp_all add: asset_type_counts filter_empty_conv)
  from counts_none(1) [OF this(1)] counts_none(2) [OF this(2)] counts_none(3) [OF this(3)] show ?thesis by (simp add: creates_def)
qed

section \<open>The records and the limit they set\<close>

type_synonym asset_records = "string \<rightharpoonup> CNewAsset"

definition records_after :: "CNewAsset list \<Rightarrow> CReissueAsset list \<Rightarrow> asset_records \<Rightarrow> asset_records" where
  "records_after as rs V =
     fold (\<lambda>r V. V(r_strName r \<mapsto> reissued r (the (V (r_strName r))))) rs (V ++ map_of (map (\<lambda>a. (strName a, a)) as))"

definition records_fit :: "CNewAsset list \<Rightarrow> CReissueAsset list \<Rightarrow> asset_records \<Rightarrow> bool" where
  "records_fit as rs V \<longleftrightarrow> (\<forall>a \<in> set as. V (strName a) = None) \<and>
     (\<forall>r \<in> set rs. \<exists>prev. V (r_strName r) = Some prev \<and> nAmount prev + r_nAmount r \<le> MAX_MONEY)"

text \<open>No name on record is that of an owner token; an owner token may exist once for every name on record.\<close>

definition records_ok :: "asset_records \<Rightarrow> bool" where
  "records_ok V \<longleftrightarrow> (\<forall>n a. V n = Some a \<longrightarrow> 0 \<le> nAmount a \<and> nAmount a \<le> MAX_MONEY \<and> n \<noteq> [] \<and> last n \<noteq> CHR ''!'')"

definition recorded :: "asset_records \<Rightarrow> string \<Rightarrow> CAmount" where
  "recorded V n = (case V n of None \<Rightarrow> 0 | Some a \<Rightarrow> nAmount a)"

definition supply_limit :: "asset_records \<Rightarrow> string \<Rightarrow> CAmount" where
  "supply_limit V n =
     (if n \<noteq> [] \<and> last n = CHR ''!'' then if V (butlast n) \<noteq> None then OWNER_ASSET_AMOUNT else 0 else recorded V n)"

lemma reissued_amount [simp]: "nAmount (reissued r a) = nAmount a + r_nAmount r"
  by (simp add: reissued_def Let_def)

lemma new_asset_amount: "CheckNewAsset a = None \<Longrightarrow> 0 \<le> nAmount a \<and> nAmount a \<le> MAX_MONEY"
  unfolding CheckNewAsset_def by (auto split: prod.splits bool.splits option.splits if_splits)

lemma named_sum:
  "distinct (map strName as) \<Longrightarrow>
   (\<Sum>a \<leftarrow> as. if strName a = n then nAmount a else 0) = recorded (map_of (map (\<lambda>a. (strName a, a)) as)) n"
proof (induction as)
  case (Cons a as)
  have "(\<Sum>a \<leftarrow> as. if strName a = n then nAmount a else 0) = 0" if "n \<notin> strName ` set as"
    using that by (induction as) auto
  with Cons show ?case by (cases "strName a = n") (auto simp: recorded_def)
qed (simp add: recorded_def)

lemma new_records:
  assumes "records_ok V" "records_fit as [] V" "\<forall>a \<in> set as. CheckNewAsset a = None" "distinct (map strName as)"
    and os: "os = [] \<or> (\<exists>a. as = [a] \<and> os = [strName a @ OWNER_TAG])"
  shows "records_ok (records_after as [] V)"
    and "supply_limit V n + ((\<Sum>a \<leftarrow> as. if strName a = n then nAmount a else 0) + (\<Sum>m \<leftarrow> os. if m = n then OWNER_ASSET_AMOUNT else 0))
      \<le> supply_limit (records_after as [] V) n"
proof -
  let ?m = "map_of (map (\<lambda>a. (strName a, a)) as)"
  have V': "records_after as [] V = V ++ ?m" by (simp add: records_after_def)
  have m: "x \<in> set as \<and> strName x = k" if "?m k = Some x" for k x using map_of_SomeD [OF that] by auto
  have fresh: "V k = None" if "?m k = Some x" for k x using m [OF that] assms(2) by (auto simp: records_fit_def)
  show ok: "records_ok (records_after as [] V)"
    unfolding V' records_ok_def
  proof (intro allI impI)
    fix k a assume "(V ++ ?m) k = Some a"
    then consider "?m k = Some a" | "V k = Some a" by auto
    then show "0 \<le> nAmount a \<and> nAmount a \<le> MAX_MONEY \<and> k \<noteq> [] \<and> last k \<noteq> CHR ''!''"
    proof cases
      case 1
      then have "CheckNewAsset a = None" "strName a = k" using m [OF 1] assms(3) by blast+
      with new_asset_amount issued_name_end show ?thesis by blast
    next
      case 2
      with assms(1) show ?thesis unfolding records_ok_def by blast
    qed
  qed
  have rec: "recorded V n + recorded ?m n = recorded (V ++ ?m) n"
    using fresh [of n] by (cases "?m n") (auto simp: recorded_def map_add_def)
  have none: "recorded W n = 0" if "records_ok W" "n \<noteq> []" "last n = CHR ''!''" for W
    using that by (cases "W n") (auto simp: recorded_def records_ok_def)
  have "(\<Sum>m \<leftarrow> os. if m = n then OWNER_ASSET_AMOUNT else 0) \<le> (if n \<noteq> [] \<and> last n = CHR ''!'' then
      supply_limit (V ++ ?m) n - supply_limit V n else 0)"
  proof (cases "os = []")
    case True
    then show ?thesis by (auto simp: supply_limit_def)
  next
    case False
    then obtain a where a: "as = [a]" "os = [strName a @ OWNER_TAG]" using os by blast
    have "V (strName a) = None" using assms(2) a by (simp add: records_fit_def)
    with a show ?thesis by (auto simp: supply_limit_def)
  qed
  moreover have "(\<Sum>a \<leftarrow> as. if strName a = n then nAmount a else 0) = recorded ?m n" by (rule named_sum [OF assms(4)])
  ultimately show "supply_limit V n + ((\<Sum>a \<leftarrow> as. if strName a = n then nAmount a else 0) + (\<Sum>m \<leftarrow> os. if m = n then OWNER_ASSET_AMOUNT else 0))
      \<le> supply_limit (records_after as [] V) n"
    using rec none [OF assms(1)] none [OF ok] unfolding V' by (cases "n \<noteq> [] \<and> last n = CHR ''!''") (auto simp: supply_limit_def)
qed

lemma reissue_records:
  assumes "records_ok V" "records_fit [] [r] V" "0 \<le> r_nAmount r"
  shows "records_ok (records_after [] [r] V)"
    and "supply_limit V n + (if r_strName r = n then r_nAmount r else 0) \<le> supply_limit (records_after [] [r] V) n"
proof -
  obtain prev where prev: "V (r_strName r) = Some prev" "nAmount prev + r_nAmount r \<le> MAX_MONEY"
    using assms(2) by (auto simp: records_fit_def)
  then have V': "records_after [] [r] V = V(r_strName r \<mapsto> reissued r prev)" by (simp add: records_after_def)
  have p: "0 \<le> nAmount prev" "r_strName r \<noteq> []" "last (r_strName r) \<noteq> CHR ''!''"
    using assms(1) prev(1) by (auto simp: records_ok_def)
  show "records_ok (records_after [] [r] V)"
    unfolding V' using assms(1,3) prev(2) p by (simp add: records_ok_def)
  show "supply_limit V n + (if r_strName r = n then r_nAmount r else 0) \<le> supply_limit (records_after [] [r] V) n"
    unfolding V' using prev p by (auto simp: supply_limit_def recorded_def)
qed

definition tx_records :: "base58_prefixes \<Rightarrow> CTransaction \<Rightarrow> asset_records \<Rightarrow> asset_records" where
  "tx_records P tx V = records_after (new_assets P tx) (reissues_in P tx) V"

definition tx_records_fit :: "base58_prefixes \<Rightarrow> CTransaction \<Rightarrow> asset_records \<Rightarrow> bool" where
  "tx_records_fit P tx V = records_fit (new_assets P tx) (reissues_in P tx) V"

lemma creates_supply:
  assumes "creates P tx as os rs" "records_ok V" "tx_records_fit P tx V"
    and "rs = [] \<and> (\<forall>a \<in> set as. CheckNewAsset a = None) \<and> distinct (map strName as) \<and>
        (os = [] \<or> (\<exists>a. as = [a] \<and> os = [strName a @ OWNER_TAG])) \<or>
      as = [] \<and> os = [] \<and> (\<exists>r. rs = [r] \<and> 0 \<le> r_nAmount r)"
  shows "records_ok (tx_records P tx V) \<and> supply_limit V n + issued P n tx \<le> supply_limit (tx_records P tx V) n"
proof -
  have e: "new_assets P tx = as" "owner_names P tx = os" "reissues_in P tx = rs" using assms(1) by (simp_all add: creates_def)
  have "\<forall>a \<in> set as. 0 \<le> nAmount a" "\<forall>r \<in> set rs. 0 \<le> r_nAmount r" using assms(4) new_asset_amount by auto
  then have i: "issued P n tx \<le> created_of P n (vout tx)" using issued_le [of P tx n] e by simp
  have fit: "records_fit as rs V" using assms(3) by (simp add: tx_records_fit_def e)
  from assms(4) show ?thesis
  proof
    assume "rs = [] \<and> (\<forall>a \<in> set as. CheckNewAsset a = None) \<and> distinct (map strName as) \<and>
        (os = [] \<or> (\<exists>a. as = [a] \<and> os = [strName a @ OWNER_TAG]))"
    then have rs: "rs = []" and c: "\<forall>a \<in> set as. CheckNewAsset a = None" "distinct (map strName as)"
        "os = [] \<or> (\<exists>a. as = [a] \<and> os = [strName a @ OWNER_TAG])" by blast+
    note r = new_records [OF assms(2) fit [unfolded rs] c]
    show ?thesis using r(1) r(2) [of n] i by (simp add: tx_records_def e created_of_def rs)
  next
    assume "as = [] \<and> os = [] \<and> (\<exists>r. rs = [r] \<and> 0 \<le> r_nAmount r)"
    then obtain r where rs: "as = []" "os = []" "rs = [r]" "0 \<le> r_nAmount r" by blast
    note r = reissue_records [OF assms(2) fit [unfolded rs(1,3)] rs(4)]
    show ?thesis using r(1) r(2) [of n] i by (simp add: tx_records_def e created_of_def rs)
  qed
qed

lemma reissue_amount: "CheckReissueAsset A r = None \<Longrightarrow> 0 \<le> r_nAmount r"
  by (simp add: CheckReissueAsset_def split: if_splits)

lemma creation_supply:
  assumes "check_creation A X M u tx = Inr k" "vout tx \<noteq> []" "records_ok V" "tx_records_fit (prefixes A) tx V"
  shows "records_ok (tx_records (prefixes A) tx V) \<and>
    supply_limit V n + issued (prefixes A) n tx \<le> supply_limit (tx_records (prefixes A) tx V) n"
proof -
  let ?P = "prefixes A"
  consider "Tx_IsNewAsset ?P tx" | "\<not> Tx_IsNewAsset ?P tx" "Tx_IsReissueAsset tx"
    | "\<not> Tx_IsNewAsset ?P tx" "\<not> Tx_IsReissueAsset tx" "IsNewUniqueAsset ?P tx"
    | "\<not> Tx_IsNewAsset ?P tx" "\<not> Tx_IsReissueAsset tx" "\<not> IsNewUniqueAsset ?P tx" "IsNewMsgChannelAsset ?P tx"
    | "\<not> Tx_IsNewAsset ?P tx" "\<not> Tx_IsReissueAsset tx" "\<not> IsNewUniqueAsset ?P tx" "\<not> IsNewMsgChannelAsset ?P tx" by blast
  then show ?thesis
  proof cases
    case 1
    show ?thesis by (rule new_shape [OF 1 assms(1)], rule creates_supply [OF _ assms(3,4)]) auto
  next
    case 2
    show ?thesis by (rule reissue_shape [OF 2 assms(1,2)], rule creates_supply [OF _ assms(3,4)]) (auto dest: reissue_amount)
  next
    case 3
    note u = unique_shape [OF 3 assms(1)]
    show ?thesis by (rule creates_supply [OF u(4) assms(3,4)]) (use u(2,3) in simp)
  next
    case 4
    show ?thesis by (rule channel_shape [OF 4 assms(1,2)], rule creates_supply [OF _ assms(3,4)]) auto
  next
    case 5
    show ?thesis by (rule creates_supply [OF plain_shape [OF 5 assms(1)] assms(3,4)]) simp
  qed
qed

section \<open>What the contextual checks say about the records\<close>

lemma transfer_units_looked_up: "transfer_units_error c t G = (e, G') \<Longrightarrow> looked_up G G'"
  by (auto simp: transfer_units_error_def split: if_splits prod.splits option.splits dest: looked_up_lookup)

lemma transfer_output_looked_up: "transfer_output E c txid addrs i s st G = (e, G') \<Longrightarrow> looked_up G G'"
  by (auto simp: transfer_output_def Let_def split: if_splits prod.splits option.splits dest: transfer_units_looked_up)

lemma asset_outputs_looked_up: "asset_outputs E c txid addrs i os st G = (e, G') \<Longrightarrow> looked_up G G'"
proof (induction os arbitrary: i st G)
  case (Cons o1 os)
  let ?s = "scriptPubKey o1"
  define step where "step = (case IsAssetScript ?s of
                  Some (TX_TRANSFER_ASSET, own, j) \<Rightarrow> transfer_output E c txid addrs i ?s st G
                | Some (TX_REISSUE_ASSET, own, j) \<Rightarrow> (reissue_output E txid ?s st, G)
                | _ \<Rightarrow> (Inr st, G))"
  have l: "looked_up G (snd step)"
    using transfer_output_looked_up [of E c txid addrs i ?s st G, OF prod.collapse [symmetric]]
    by (auto simp: step_def split: option.split prod.split asset_tx.split)
  show ?case
  proof (cases step)
    case (Pair r G1)
    with Cons.prems Cons.IH l show ?thesis
      by (cases r) (auto simp: Let_def step_def [symmetric] split: if_splits intro: looked_up_trans)
  qed
qed simp

lemma ContextualCheckNewAsset_spec:
  assumes "ContextualCheckNewAsset c M fM a G = (e, G')"
  shows "looked_up G G'" "e = None \<Longrightarrow> conn_ok c G \<Longrightarrow> asset_view c G (strName a) = None"
proof -
  show "looked_up G G'"
    using assms by (auto simp: ContextualCheckNewAsset_def split: option.splits prod.splits bool.splits dest: looked_up_lookup)
  assume "e = None" "conn_ok c G"
  then have "\<not> asset_exists c G (strName a)"
    using assms by (auto simp: ContextualCheckNewAsset_def asset_exists_def split: option.splits prod.splits bool.splits)
  with conn_exists [OF \<open>conn_ok c G\<close>] show "asset_view c G (strName a) = None" by blast
qed

lemma ContextualCheckUniqueAssets_spec:
  assumes "ContextualCheckUniqueAssets P c M os G = (e, G')"
  shows "looked_up G G' \<and> (e = None \<longrightarrow> conn_ok c G \<longrightarrow>
    (\<forall>o1 \<in> set os. \<forall>a addr. IsScriptNewUniqueAsset P (scriptPubKey o1) \<longrightarrow> AssetFromScript P (scriptPubKey o1) = Some (a, addr) \<longrightarrow>
      asset_view c G (strName a) = None))"
  using assms
proof (induction os arbitrary: G)
  case (Cons o1 os)
  show ?case
  proof (cases "IsScriptNewUniqueAsset P (scriptPubKey o1)")
    case False
    with Cons show ?thesis by auto
  next
    case True
    then obtain a addr where a: "AssetFromScript P (scriptPubKey o1) = Some (a, addr)"
      by (auto simp: IsScriptNewUniqueAsset_def created_kind_def split: option.splits)
    obtain e1 G1 where n: "ContextualCheckNewAsset c M False a G = (e1, G1)" by (cases "ContextualCheckNewAsset c M False a G")
    note s = ContextualCheckNewAsset_spec [OF n]
    show ?thesis
    proof (cases e1)
      case (Some x)
      with Cons.prems True a n s(1) show ?thesis by auto
    next
      case None
      with Cons.prems True a n have r: "ContextualCheckUniqueAssets P c M os G1 = (e, G')" by simp
      have "conn_ok c G \<Longrightarrow> conn_ok c G1 \<and> asset_view c G1 = asset_view c G" using conn_ok_looked_up [OF _ s(1)] by blast
      with Cons.IH [OF r] s None a looked_up_trans [OF s(1)] show ?thesis by auto
    qed
  qed
qed simp

lemma ContextualCheckReissueAsset_spec:
  assumes "ContextualCheckReissueAsset A V c r tx G = (e, G')"
  shows "looked_up G G'"
    "e = None \<Longrightarrow> \<exists>prev. asset_view c G (r_strName r) = Some prev \<and> nAmount prev + r_nAmount r \<le> MAX_MONEY"
  using assms
  by (auto simp: ContextualCheckReissueAsset_def asset_view_def split: option.splits prod.splits if_splits dest: looked_up_lookup)

lemma contextual_looked_up:
  "looked_up G (snd (ContextualCheckNewAsset c M fM a G))" "looked_up G (snd (ContextualCheckReissueAsset A V c r tx G))"
  "looked_up G (snd (ContextualCheckUniqueAssets P c M os G))"
  using ContextualCheckNewAsset_spec(1) ContextualCheckReissueAsset_spec(1) ContextualCheckUniqueAssets_spec by (metis surj_pair snd_conv)+

lemma creation_error_looked_up: "looked_up G (snd (creation_error E c tx G))"
proof -
  have "looked_up G (snd (prefixed s r))" if "looked_up G (snd r)" for s r using that by (simp add: prefixed_def)
  moreover have "looked_up G G1" if "ContextualCheckNewAsset c (ae_M E) (ae_mempool E) a G = (e, G1)" for a e G1
    using that by (rule ContextualCheckNewAsset_spec(1))
  ultimately show ?thesis
    using contextual_looked_up by (auto simp: creation_error_def Let_def split: option.split prod.split)
qed

lemma prefixed_None: "prefixed s r = (None, G') \<Longrightarrow> r = (None, G')"
  by (cases r) (simp add: prefixed_def)

lemma creates_fit:
  "creates P tx as os rs \<Longrightarrow> tx_records_fit P tx V \<longleftrightarrow> records_fit as rs V"
  by (simp add: creates_def tx_records_fit_def)

lemma creation_error_fit:
  assumes e: "creation_error E c tx G = (None, G')" and ok: "conn_ok c G"
    and cc: "check_creation (ae_params E) X M u tx = Inr k" "vout tx \<noteq> []"
  shows "tx_records_fit (prefixes (ae_params E)) tx (asset_view c G)"
proof -
  let ?P = "prefixes (ae_params E)"
  note new = ContextualCheckNewAsset_spec(2) [OF _ refl ok]
  consider "Tx_IsNewAsset ?P tx" | "\<not> Tx_IsNewAsset ?P tx" "Tx_IsReissueAsset tx"
    | "\<not> Tx_IsNewAsset ?P tx" "\<not> Tx_IsReissueAsset tx" "IsNewUniqueAsset ?P tx"
    | "\<not> Tx_IsNewAsset ?P tx" "\<not> Tx_IsReissueAsset tx" "\<not> IsNewUniqueAsset ?P tx" "IsNewMsgChannelAsset ?P tx"
    | "\<not> Tx_IsNewAsset ?P tx" "\<not> Tx_IsReissueAsset tx" "\<not> IsNewUniqueAsset ?P tx" "\<not> IsNewMsgChannelAsset ?P tx" by blast
  then show ?thesis
  proof cases
    case 1
    obtain a addr where a: "AssetFromScript ?P (last_script tx) = Some (a, addr)" "creates ?P tx [a] [strName a @ OWNER_TAG] []"
      using new_shape [OF 1 cc(1)] .
    have "\<exists>G1. ContextualCheckNewAsset c (ae_M E) (ae_mempool E) a G = (None, G1)"
      using e 1 a(1) by (auto simp: creation_error_def Let_def split: prod.splits option.splits)
    with new show ?thesis unfolding creates_fit [OF a(2)] by (auto simp: records_fit_def)
  next
    case 2
    obtain r addr where r: "ReissueAssetFromScript ?P (last_script tx) = Some (r, addr)" "creates ?P tx [] [] [r]"
      using reissue_shape [OF 2 cc] .
    have "ContextualCheckReissueAsset (ae_params E) (ae_V E) c r tx G = (None, G')"
      using e 2 r(1) by (auto simp: creation_error_def Let_def dest: prefixed_None)
    from ContextualCheckReissueAsset_spec(2) [OF this refl] show ?thesis unfolding creates_fit [OF r(2)] by (simp add: records_fit_def)
  next
    case 3
    note u = unique_shape [OF 3 cc(1)]
    have "ContextualCheckUniqueAssets ?P c (ae_M E) (vout tx) G = (None, G')"
      using e 3 by (auto simp: creation_error_def Let_def dest: prefixed_None)
    from ContextualCheckUniqueAssets_spec [OF this] ok u(1) show ?thesis
      unfolding creates_fit [OF u(4)] by (auto simp: records_fit_def set_read_from)
  next
    case 4
    obtain a addr where a: "MsgChannelAssetFromTransaction ?P tx = Some (a, addr)" "creates ?P tx [a] [] []"
      using channel_shape [OF 4 cc] .
    have "ContextualCheckNewAsset c (ae_M E) (ae_mempool E) a G = (None, G')"
      using e 4 a(1) by (auto simp: creation_error_def Let_def dest: prefixed_None)
    with new show ?thesis unfolding creates_fit [OF a(2)] by (auto simp: records_fit_def)
  next
    case 5
    show ?thesis unfolding creates_fit [OF plain_shape [OF 5 cc(1)]] by (simp add: records_fit_def)
  qed
qed

lemma CheckTxAssets_records:
  assumes "CheckTxAssets bget E c tx (v, G) = (Accept st, v', G')" "conn_ok c G"
    and "check_creation (ae_params E) X M u tx = Inr k" "vout tx \<noteq> []"
  shows "looked_up G G'" "tx_records_fit (prefixes (ae_params E)) tx (asset_view c G)"
proof -
  obtain addrs G1 st0 st1 where o: "asset_outputs E c (Tx_GetHash tx) addrs 0 (vout tx) st0 G = (Inr st1, G1)"
    and e: "creation_error E c tx G1 = (None, G')"
    using assms(1) by (auto simp: CheckTxAssets_def split: bool.splits prod.splits outcome.splits sum.splits option.splits)
  note l = asset_outputs_looked_up [OF o]
  show "looked_up G G'" using looked_up_trans [OF l] creation_error_looked_up [of G1 E c tx] e by simp
  note ok = conn_ok_looked_up [OF assms(2) l]
  show "tx_records_fit (prefixes (ae_params E)) tx (asset_view c G)"
    using creation_error_fit [OF e ok(1) assms(3,4)] ok(2) by simp
qed

section \<open>Connecting\<close>

lemma add_unique_records:
  assumes "conn_ok c G" "\<forall>o1 \<in> set os. AssetFromScript P (scriptPubKey o1) \<noteq> None \<longrightarrow> IsScriptNewUniqueAsset P (scriptPubKey o1)"
    and "distinct (map strName (read_from (AssetFromScript P) os))" "records_fit (read_from (AssetFromScript P) os) [] (asset_view c G)"
  shows "\<exists>c' G'. add_unique_assets P h hash os (c, G) = (c', G') \<and> conn_ok c' G' \<and>
    asset_view c' G' = records_after (read_from (AssetFromScript P) os) [] (asset_view c G)"
  using assms
proof (induction os arbitrary: c G)
  case (Cons o1 os)
  show ?case
  proof (cases "AssetFromScript P (scriptPubKey o1)")
    case None
    then have "\<not> IsScriptNewUniqueAsset P (scriptPubKey o1)" by (simp add: IsScriptNewUniqueAsset_def created_kind_def)
    with None Cons show ?thesis by simp
  next
    case (Some x)
    obtain a addr where a: "AssetFromScript P (scriptPubKey o1) = Some (a, addr)" using Some by (cases x) simp
    with Cons.prems have u: "IsScriptNewUniqueAsset P (scriptPubKey o1)" "asset_view c G (strName a) = None"
      by (auto simp: records_fit_def)
    obtain c1 G1 where n: "AddNewAsset a (the_address addr) h hash c G = (True, c1, G1)" "conn_ok c1 G1"
        "asset_view c1 G1 = (asset_view c G)(strName a \<mapsto> a)" using add_new_view [OF Cons.prems(1) u(2)] by blast
    let ?as = "read_from (AssetFromScript P) os"
    have d: "distinct (map strName ?as)" "strName a \<notin> strName ` set ?as" using Cons.prems(3) a by auto
    have "strName b \<noteq> strName a" if "b \<in> set ?as" for b using d(2) that by (metis imageI)
    then have "records_fit ?as [] (asset_view c1 G1)" using Cons.prems(4) a n(3) by (auto simp: records_fit_def)
    with Cons.IH [OF n(2) _ d(1)] Cons.prems(2) obtain c2 G2 where
      r: "add_unique_assets P h hash os (c1, G1) = (c2, G2)" "conn_ok c2 G2" "asset_view c2 G2 = records_after ?as [] (asset_view c1 G1)" by auto
    have "map_of (map (\<lambda>a. (strName a, a)) ?as) (strName a) = None" using d(2) by (force simp: map_of_eq_None_iff)
    then have "records_after ?as [] (asset_view c1 G1) = records_after (read_from (AssetFromScript P) (o1 # os)) [] (asset_view c G)"
      using a n(3) by (auto simp: records_after_def fun_eq_iff map_add_def split: option.split)
    with r n a u show ?thesis by (simp add: read_or_def)
  qed
qed (simp add: records_after_def)

lemma add_tx_assets_records:
  assumes ok: "conn_ok c G" and cc: "check_creation A Y M t tx = Inr k" "vout tx \<noteq> []"
    and fit: "tx_records_fit (prefixes A) tx (asset_view c G)"
  shows "\<exists>us c' G' X'. add_tx_assets (prefixes A) u h hash tx (c, G, X) = (us, c', G', X') \<and> conn_ok c' G' \<and>
    asset_view c' G' = tx_records (prefixes A) tx (asset_view c G)"
proof -
  let ?P = "prefixes A" and ?V = "asset_view c G"
  note after = tx_records_def records_after_def creates_def
  consider "Tx_IsNewAsset ?P tx" | "\<not> Tx_IsNewAsset ?P tx" "Tx_IsReissueAsset tx"
    | "\<not> Tx_IsNewAsset ?P tx" "\<not> Tx_IsReissueAsset tx" "IsNewUniqueAsset ?P tx"
    | "\<not> Tx_IsNewAsset ?P tx" "\<not> Tx_IsReissueAsset tx" "\<not> IsNewUniqueAsset ?P tx" "IsNewMsgChannelAsset ?P tx"
    | "\<not> Tx_IsNewAsset ?P tx" "\<not> Tx_IsReissueAsset tx" "\<not> IsNewUniqueAsset ?P tx" "\<not> IsNewMsgChannelAsset ?P tx" by blast
  then show ?thesis
  proof cases
    case 1
    obtain a addr where a: "AssetFromScript ?P (last_script tx) = Some (a, addr)" "creates ?P tx [a] [strName a @ OWNER_TAG] []"
      using new_shape [OF 1 cc(1)] .
    then have "?V (strName a) = None" using fit by (simp add: creates_fit records_fit_def)
    from add_new_view [OF ok this] obtain c' G' where n: "AddNewAsset a (the_address addr) (int h) hash c G = (True, c', G')"
        "conn_ok c' G'" "asset_view c' G' = ?V(strName a \<mapsto> a)" by blast
    obtain m own where o: "read_or [] (OwnerFromTransaction ?P tx) = (m, own)" by (cases "read_or [] (OwnerFromTransaction ?P tx)")
    note w = conn_ok_neutral [OF n(2) neutral_operations(5) [of c' G' m own]]
    from 1 a n o w show ?thesis by (simp add: add_tx_assets_def Let_def AssetFromTransaction_def read_or_def after)
  next
    case 2
    obtain r addr where r: "ReissueAssetFromScript ?P (last_script tx) = Some (r, addr)" "creates ?P tx [] [] [r]"
      using reissue_shape [OF 2 cc] .
    then obtain prev where v: "?V (r_strName r) = Some prev" using fit by (auto simp: creates_fit records_fit_def)
    obtain found G1 where l: "GetAssetMetaDataIfExists c (r_strName r) G = (found, G1)" by (cases "GetAssetMetaDataIfExists c (r_strName r) G")
    note ok1 = conn_ok_looked_up [OF ok looked_up_lookup(1) [OF l]]
    let ?out = "out_point (Tx_GetHash tx) (length (vout tx) - 1)"
    obtain c' G' where n: "AddReissueAsset u r (the_address addr) ?out c G1 = (True, c', G')" "conn_ok c' G'"
        "asset_view c' G' = ?V(r_strName r \<mapsto> reissued r prev)" using add_reissue_view [OF ok1(1)] v ok1(2) by metis
    from 2 r n l v show ?thesis by (simp add: add_tx_assets_def Let_def ReissueAssetFromTransaction_def read_or_def after)
  next
    case 3
    note q = unique_shape [OF 3 cc(1)]
    have "records_fit (new_assets ?P tx) [] ?V" using fit q(4) by (simp add: tx_records_fit_def creates_def)
    from add_unique_records [OF ok q(1,3) this, of "int h" hash] 3 q(4) show ?thesis
      by (auto simp: add_tx_assets_def Let_def tx_records_def creates_def)
  next
    case 4
    obtain a addr where a: "MsgChannelAssetFromTransaction ?P tx = Some (a, addr)" "creates ?P tx [a] [] []"
      using channel_shape [OF 4 cc] .
    then have "?V (strName a) = None" using fit by (simp add: creates_fit records_fit_def)
    from add_new_view [OF ok this] obtain c' G' where n: "AddNewAsset a (the_address addr) (int h) hash c G = (True, c', G')"
        "conn_ok c' G'" "asset_view c' G' = ?V(strName a \<mapsto> a)" by blast
    from 4 a n show ?thesis by (simp add: add_tx_assets_def Let_def read_or_def after)
  next
    case 5
    from plain_shape [OF 5 cc(1)] removed_kinds [OF 5 cc(1)] 5 ok show ?thesis by (simp add: add_tx_assets_def Let_def after)
  qed
qed

lemma update_assets_records:
  assumes ok: "conn_ok c G" and cc: "check_creation A Y M t tx = Inr k" "vout tx \<noteq> []"
    and fit: "tx_records_fit (prefixes A) tx (asset_view c G)"
    and u: "update_assets (prefixes A) u h hash tx txundo (c, G, X) = Some (us, c', G', X')"
  shows "conn_ok c' G'" "asset_view c' G' = tx_records (prefixes A) tx (asset_view c G)"
proof -
  obtain c1 where c1: "(if IsCoinBase tx then Some c else spend_assets (prefixes A) G (zip (vin tx) txundo) c) = Some c1"
    using u by (auto simp: update_assets_def split: option.splits)
  then have "neutral c c1" using spend_assets_neutral by (auto split: if_splits)
  note ok1 = conn_ok_neutral [OF ok this]
  obtain us2 c2 G2 X2 where a: "add_tx_assets (prefixes A) u h hash tx (c1, G, X) = (us2, c2, G2, X2)" "conn_ok c2 G2"
      "asset_view c2 G2 = tx_records (prefixes A) tx (asset_view c G)"
    using add_tx_assets_records [OF ok1(1) cc, of u h hash X] fit ok1(2) by auto
  have "c' = add_transfers (prefixes A) G2 (Tx_GetHash tx) 0 (vout tx) c2" "G' = G2"
    using u c1 a(1) by (auto simp: update_assets_def)
  with conn_ok_neutral [OF a(2) add_transfers_neutral] a(3)
  show "conn_ok c' G'" "asset_view c' G' = tx_records (prefixes A) tx (asset_view c G)" by simp_all
qed

text \<open>What a transaction does to the assignments of accounts.\<close>

definition accounts_after :: "base58_prefixes \<Rightarrow> CTransaction \<Rightarrow> XAssignments \<Rightarrow> XAssignments" where
  "accounts_after P tx X =
     (if Tx_IsNewAsset P tx then
        case ParseXAccountAssignment tx of None \<Rightarrow> X
        | Some xid \<Rightarrow> snd (AddXAccountAssignment xid (strName (fst (read_or CNewAsset_null (AssetFromTransaction P tx)))) X)
      else X)"

lemma update_assets_accounts:
  assumes "update_assets P u h hash tx us (c, G, X) = Some (au, c', G', X')"
  shows "X' = accounts_after P tx X"
proof -
  have "\<exists>us c' G'. add_tx_assets P u h hash tx (c, G, X) = (us, c', G', accounts_after P tx X)" for c
    by (cases "read_or CNewAsset_null (AssetFromTransaction P tx)") (simp add: add_tx_assets_def accounts_after_def Let_def split: prod.split option.split)
  then show ?thesis using assms by (auto simp: update_assets_def split: option.splits prod.splits) (metis prod.inject)+
qed

section \<open>The supply\<close>

text \<open>No more of an asset is unspent than its record says was created; of an owner token, at most one.\<close>

definition supply_ok :: "base58_prefixes \<Rightarrow> utxos \<Rightarrow> asset_records \<Rightarrow> bool" where
  "supply_ok P U V \<longleftrightarrow> records_ok V \<and> (\<forall>n. asset_total P n U \<le> supply_limit V n)"

lemma supply_ok_max:
  assumes "supply_ok P U V"
  shows "asset_total P n U \<le> MAX_MONEY"
proof -
  have "asset_total P n U \<le> supply_limit V n" "records_ok V" using assms by (simp_all add: supply_ok_def)
  moreover from this(2) have "supply_limit V n \<le> MAX_MONEY"
    by (auto simp: supply_limit_def recorded_def records_ok_def split: option.splits)
  ultimately show ?thesis by simp
qed

lemma checked_creation:
  assumes "CheckTransaction A X M u fD fM fB tx = None"
  obtains k where "check_creation A X M u tx = Inr k" "vout tx \<noteq> []"
  using assms by (auto simp: CheckTransaction_accepts)

lemma coinbase_plain:
  assumes "CheckTransaction A X M u fD fM fB tx = None" "IsCoinBase tx"
  shows "\<forall>o1 \<in> set (vout tx). IsAssetScript (scriptPubKey o1) = None" "tx_spends tx = []"
    "creates (prefixes A) tx [] [] []" "sent (prefixes A) n tx = 0" "issued (prefixes A) n tx = 0"
proof -
  have "check_inputs tx = None" using assms(1) by (auto simp: CheckTransaction_accepts)
  then show n: "\<forall>o1 \<in> set (vout tx). IsAssetScript (scriptPubKey o1) = None"
    using assms(2) by (simp add: check_inputs_def list_ex_iff split: if_splits del: not_None_eq)
  show "tx_spends tx = []" using assms(2) by (simp add: tx_spends_def)
  let ?n = "GetTxOutAssetTypes (vout tx)"
  have "issues ?n = 0" "owners ?n = 0" "reissues ?n = 0"
    using n by (simp_all add: asset_type_counts filter_empty_conv IsNewAsset_iff IsOwnerAsset_iff IsReissueAsset_iff)
  from counts_none(1) [OF this(1)] counts_none(2) [OF this(2)] counts_none(3) [OF this(3)]
  show "creates (prefixes A) tx [] [] []" by (simp add: creates_def)
  have a: "\<not> is_transfer (scriptPubKey o1) \<and> asset_amount (prefixes A) n (scriptPubKey o1) = 0" if "o1 \<in> set (vout tx)" for o1
    using n that by (simp add: is_transfer_def asset_amount_def GetAssetData_def)
  then show "sent (prefixes A) n tx = 0" "issued (prefixes A) n tx = 0"
    by (simp_all add: sent_def issued_def cong: map_cong if_cong)
qed

lemma check_tx_supply:
  assumes ok: "view_ok (cs_view s)" "conn_ok (cs_cache s) (cs_globals s)"
    and ck: "CheckTransaction (ae_params E) X M t True fM fB tx = None"
    and acc: "check_tx view_get E h fees tx s = (Accept r, s1)"
    and fr: "tx_fresh (view_coins (cs_view s) |` (- set (tx_spends tx))) tx"
  shows "view_ok (cs_view s1)" "view_coins (cs_view s1) = view_coins (cs_view s)" "cs_cache s1 = cs_cache s"
    "looked_up (cs_globals s) (cs_globals s1)" "tx_fits (view_coins (cs_view s)) tx"
    "tx_records_fit (prefixes (ae_params E)) tx (asset_view (cs_cache s) (cs_globals s))"
    "asset_total (prefixes (ae_params E)) n (connect_spec h tx (view_coins (cs_view s))) \<le>
       asset_total (prefixes (ae_params E)) n (view_coins (cs_view s)) + issued (prefixes (ae_params E)) n tx"
proof -
  let ?P = "prefixes (ae_params E)" and ?U = "view_coins (cs_view s)"
  have wf: "tx_wf ?P tx" using checked_tx_wf [OF ck] .
  have "view_ok (cs_view s1) \<and> view_coins (cs_view s1) = ?U \<and> cs_cache s1 = cs_cache s \<and> looked_up (cs_globals s) (cs_globals s1) \<and>
    tx_records_fit ?P tx (asset_view (cs_cache s) (cs_globals s)) \<and> (\<forall>k \<in> set (tx_spends tx). ?U k \<noteq> None) \<and>
    (\<Sum>k \<leftarrow> tx_spends tx. coin_amount ?P n (the (?U k))) = sent ?P n tx \<and>
    (\<forall>o1 \<in> set (vout tx). is_transfer (scriptPubKey o1) \<longrightarrow> 0 \<le> asset_amount ?P n (scriptPubKey o1))"
  proof (cases "IsCoinBase tx")
    case True
    note c = coinbase_plain [OF ck True]
    have "s1 = s" using acc True by (simp add: check_tx_def)
    moreover have "tx_records_fit ?P tx V" for V using creates_fit [OF c(3)] by (simp add: records_fit_def)
    ultimately show ?thesis using ok(1) c by (simp add: is_transfer_def)
  next
    case False
    obtain fee v where i: "CheckTxInputs view_get ?P (int h) tx (cs_view s) = (Accept fee, v)"
      using acc False by (auto simp: check_tx_def split: prod.splits outcome.splits)
    obtain st v2 G2 where a: "CheckTxAssets view_get (E\<lparr>ae_X := cs_X s\<rparr>) (cs_cache s) tx (v, cs_globals s) = (Accept st, v2, G2)"
        "s1 = s\<lparr>cs_view := v2, cs_globals := G2\<rparr>"
      using acc False i by (auto simp: check_tx_def split: prod.splits outcome.splits if_splits)
    note i = chain.check_tx_inputs_spec [OF ok(1) i wf False]
    obtain k where k: "check_creation (ae_params (E\<lparr>ae_X := cs_X s\<rparr>)) X M t tx = Inr k" "vout tx \<noteq> []"
      using checked_creation [OF ck] by auto
    have "tx_wf (prefixes (ae_params (E\<lparr>ae_X := cs_X s\<rparr>))) tx" using wf by simp
    note b = chain.check_tx_assets_spec [OF i(1) a(1) this False] and r = CheckTxAssets_records [OF a(1) ok(2) k]
    show ?thesis using a(2) b(1) b(2) i(2,4) b(4,5) [of n] r by simp
  qed
  note f = this
  then show "view_ok (cs_view s1)" "view_coins (cs_view s1) = view_coins (cs_view s)" "cs_cache s1 = cs_cache s"
    "looked_up (cs_globals s) (cs_globals s1)" "tx_records_fit ?P tx (asset_view (cs_cache s) (cs_globals s))" by blast+
  show fits: "tx_fits ?U tx" using wf fr f by (auto simp: tx_fits_def tx_wf_def tx_spends_def)
  from connect_assets_total [OF view_finite fits, of ?P n h] f
  show "asset_total ?P n (connect_spec h tx ?U) \<le> asset_total ?P n ?U + issued ?P n tx" by blast
qed

text \<open>One turn of the loop: what it does to the coins, the records and the accounts, and the rest of the loop.\<close>

lemma connect_step:
  assumes "connect_block_txs view_get E u h hash first (tx # txs) fees s = (Accept r, s')"
    and ck: "CheckTransaction (ae_params E) X M t True fM fB tx = None"
    and ok: "view_ok (cs_view s)" "conn_ok (cs_cache s) (cs_globals s)"
    and fr: "tx_fresh (view_coins (cs_view s) |` (- set (tx_spends tx))) tx"
  defines "P \<equiv> prefixes (ae_params E)" and "V \<equiv> asset_view (cs_cache s) (cs_globals s)"
  obtains v c2 G2 fees2 r2 where
    "connect_block_txs view_get E u h hash False txs fees2
       \<lparr>cs_view = v, cs_cache = c2, cs_globals = G2, cs_X = accounts_after P tx (cs_X s)\<rparr> = (Accept r2, s')"
    "view_ok v" "view_coins v = connect_spec h tx (view_coins (cs_view s))" "conn_ok c2 G2" "asset_view c2 G2 = tx_records P tx V"
    "tx_records_fit P tx V"
    "\<And>n. asset_total P n (connect_spec h tx (view_coins (cs_view s))) \<le> asset_total P n (view_coins (cs_view s)) + issued P n tx"
proof -
  obtain fee ms s1 where c: "check_tx view_get E h fees tx s = (Accept (fee, ms), s1)"
    using assms(1) by (auto split: prod.splits outcome.splits)
  note k = check_tx_supply [OF ok ck c fr, folded P_def V_def]
  have X: "cs_X s1 = cs_X s"
    using c by (auto simp: check_tx_def split: if_splits prod.splits outcome.splits)
  have fits: "tx_fits (view_coins (cs_view s1)) tx" using k(5) k(2) by simp
  obtain us v where v: "UpdateCoins view_get tx h (cs_view s1) = Some (us, v)" "view_ok v"
      "view_coins v = connect_spec h tx (view_coins (cs_view s))"
    using chain.update_coins_spec [OF k(1) fits, of h] k(2) by auto
  obtain au c2 G2 X2 where a: "update_assets P u h hash tx us (cs_cache s1, cs_globals s1, cs_X s1) = Some (au, c2, G2, X2)"
    using assms(1) c v(1) by (auto simp: P_def split: prod.splits outcome.splits option.splits)
  let ?s2 = "\<lparr>cs_view = v, cs_cache = c2, cs_globals = G2, cs_X = X2\<rparr>"
  obtain r2 where n: "connect_block_txs view_get E u h hash False txs (fees + fee) ?s2 = (Accept r2, s')"
    using assms(1) c v(1) a by (auto simp: P_def split: prod.splits outcome.splits)
  obtain j where j: "check_creation (ae_params E) X M t tx = Inr j" "vout tx \<noteq> []" using checked_creation [OF ck] .
  have g: "conn_ok (cs_cache s1) (cs_globals s1)" "asset_view (cs_cache s1) (cs_globals s1) = V"
    using conn_ok_looked_up [OF ok(2) k(4)] k(3) by (simp_all add: V_def)
  have "tx_records_fit P tx (asset_view (cs_cache s1) (cs_globals s1))" using k(6) g(2) by simp
  note w = update_assets_records [OF g(1) j this [unfolded P_def] a [unfolded P_def], folded P_def]
  have "X2 = accounts_after P tx (cs_X s)" using update_assets_accounts [OF a] X by simp
  with n have "connect_block_txs view_get E u h hash False txs (fees + fee)
       \<lparr>cs_view = v, cs_cache = c2, cs_globals = G2, cs_X = accounts_after P tx (cs_X s)\<rparr> = (Accept r2, s')" by simp
  from that [OF this v(2,3) w(1) _ k(6,7)] w(2) g(2) show thesis by simp
qed

lemma connect_block_txs_supply:
  "connect_block_txs view_get E u h hash first txs fees s = (Accept r, s') \<Longrightarrow>
   list_all (\<lambda>tx. CheckTransaction (ae_params E) X M t True fM fB tx = None) txs \<Longrightarrow>
   view_ok (cs_view s) \<Longrightarrow> conn_ok (cs_cache s) (cs_globals s) \<Longrightarrow> block_fresh h txs (view_coins (cs_view s)) \<Longrightarrow>
   supply_ok (prefixes (ae_params E)) (view_coins (cs_view s)) (asset_view (cs_cache s) (cs_globals s)) \<Longrightarrow>
   view_ok (cs_view s') \<and> conn_ok (cs_cache s') (cs_globals s') \<and>
   supply_ok (prefixes (ae_params E)) (view_coins (cs_view s')) (asset_view (cs_cache s') (cs_globals s'))"
proof (induction txs arbitrary: first fees s r)
  case (Cons tx txs)
  let ?P = "prefixes (ae_params E)" and ?U = "view_coins (cs_view s)" and ?V = "asset_view (cs_cache s) (cs_globals s)"
  have ck: "CheckTransaction (ae_params E) X M t True fM fB tx = None" and fr: "tx_fresh (?U |` (- set (tx_spends tx))) tx"
    using Cons.prems(2,5) by simp_all
  obtain v c2 G2 fees2 r2 where
    n: "connect_block_txs view_get E u h hash False txs fees2
        \<lparr>cs_view = v, cs_cache = c2, cs_globals = G2, cs_X = accounts_after ?P tx (cs_X s)\<rparr> = (Accept r2, s')"
    and v: "view_ok v" "view_coins v = connect_spec h tx ?U" "conn_ok c2 G2"
    and V: "asset_view c2 G2 = tx_records ?P tx ?V" "tx_records_fit ?P tx ?V"
    and tot: "\<And>n. asset_total ?P n (connect_spec h tx ?U) \<le> asset_total ?P n ?U + issued ?P n tx"
    by (rule connect_step [OF Cons.prems(1) ck Cons.prems(3,4) fr], rule that)
  obtain j where j: "check_creation (ae_params E) X M t tx = Inr j" "vout tx \<noteq> []" using checked_creation [OF ck] .
  have "supply_ok ?P (view_coins v) (asset_view c2 G2)"
    unfolding supply_ok_def
  proof (intro conjI allI)
    have sup: "records_ok ?V" "asset_total ?P n ?U \<le> supply_limit ?V n" for n using Cons.prems(6) by (simp_all add: supply_ok_def)
    note l = creation_supply [OF j sup(1) V(2)]
    then show "records_ok (asset_view c2 G2)" using V(1) by simp
    show "asset_total ?P n (view_coins v) \<le> supply_limit (asset_view c2 G2) n" for n
      using l [of n] tot [of n] sup(2) [of n] v(2) V(1) by simp
  qed
  moreover have "block_fresh h txs (view_coins v)" using Cons.prems(5) v(2) by simp
  ultimately show ?case using Cons.IH [OF n] Cons.prems(2) v(1,3) by simp
qed simp

text \<open>
  C5. The supply of assets is bounded by their records. When the transactions of a checked block are connected,
  then of every asset at most the amount on its record stays unspent, of every owner token at most one, and only
  where the asset is on record; no amount exceeds \<^verbatim>\<open>MAX_MONEY\<close>. The bound is an invariant from block to block: it
  holds after the block where it held before it, with outputs that are new and no removal of an asset pending.
\<close>

theorem asset_supply_bounded:
  assumes "check_block_txs (ae_params E) X M t act fDBCheck block = None"
    and "connect_block_txs view_get E u h hash True (vtx block) 0 s = (Accept r, s')"
    and "view_ok (cs_view s)" "conn_ok (cs_cache s) (cs_globals s)" "block_fresh h (vtx block) (view_coins (cs_view s))"
    and "supply_ok (prefixes (ae_params E)) (view_coins (cs_view s)) (asset_view (cs_cache s) (cs_globals s))"
  shows "supply_ok (prefixes (ae_params E)) (view_coins (cs_view s')) (asset_view (cs_cache s') (cs_globals s')) \<and>
    conn_ok (cs_cache s') (cs_globals s') \<and>
    asset_total (prefixes (ae_params E)) name (view_coins (cs_view s')) \<le> MAX_MONEY"
proof -
  have "list_all (\<lambda>tx. CheckTransaction (ae_params E) X M t True False (\<not> fDBCheck) tx = None) (vtx block)"
    using assms(1) by (auto simp: check_block_txs_def first_error_None list_all_iff split: if_splits option.splits)
  from connect_block_txs_supply [OF assms(2) this assms(3-6)] supply_ok_max show ?thesis by blast
qed

end
