(* ===== verification/XC_XAssign.thy ===== *)
theory XC_XAssign
  imports XC_XAccount
begin

text \<open>
  The assignment maps of X accounts: the database holds the first map, and an account keeps its root; as long as
  no root is assigned to two accounts the two maps are inverse to each other and a restart changes nothing.
\<close>

lemma map_ok_values:
  assumes "map_ok m"
  shows "m = map (\<lambda>k. (k, the (map_of m k))) (map fst m)"
proof -
  have "map_of m (fst p) = Some (snd p)" if "p \<in> set m" for p
    using that assms by (simp add: map_of_in_set)
  then have "map (\<lambda>p. (fst p, the (map_of m (fst p)))) m = map (\<lambda>p. p) m" by (intro map_cong) auto
  then show ?thesis by (simp add: o_def)
qed

lemma map_ok_ext:
  fixes m m' :: "('k :: linorder, 'v) omap"
  assumes "map_ok m" "map_ok m'" "map_of m = map_of m'"
  shows "m = m'"
proof -
  have "set (map fst m) = set (map fst m')"
    using assms(3) dom_map_of_conv_image_fst [of m] dom_map_of_conv_image_fst [of m'] by simp
  with assms(1,2) have "map fst m = map fst m'"
    unfolding map_ok_def by (metis strict_sorted_equal)
  then show ?thesis using map_ok_values [OF assms(1)] map_ok_values [OF assms(2)] assms(3) by metis
qed

definition xassign_ok :: "XAssignments \<Rightarrow> bool" where
  "xassign_ok X \<longleftrightarrow> map_ok (mapXAccountToAsset X) \<and> map_ok (mapAssetToXAccount X) \<and>
     db_rows X = mapXAccountToAsset X \<and>
     (\<forall>x n. map_of (mapXAccountToAsset X) x = Some n \<longleftrightarrow> map_of (mapAssetToXAccount X) n = Some x)"

definition no_assignments :: XAssignments where
  "no_assignments = \<lparr>mapXAccountToAsset = [], mapAssetToXAccount = [], db_rows = []\<rparr>"

text \<open>
  What the node does with the maps: \<^verbatim>\<open>AddCoins\<close> records an assignment, \<^verbatim>\<open>DisconnectBlock\<close> removes one, and a
  start loads them. Nothing is asked of the order or of the names: an assignment may also be recorded for a root
  that another account has, which \<^verbatim>\<open>AddXAccountAssignment\<close> does not look at.
\<close>

datatype xassign_op = Assign string string | Unassign string | Restart

fun xassign_step :: "xassign_op \<Rightarrow> XAssignments \<Rightarrow> XAssignments" where
  "xassign_step (Assign x n) X = snd (AddXAccountAssignment x n X)"
| "xassign_step (Unassign x) X = RemoveXAccountAssignment x X"
| "xassign_step Restart X = LoadXAccountAssignments X"

definition xassign_run :: "xassign_op list \<Rightarrow> XAssignments \<Rightarrow> XAssignments" where
  "xassign_run ops X = fold xassign_step ops X"

text \<open>No assignment is made for a root that another account has.\<close>

fun roots_apart :: "xassign_op list \<Rightarrow> XAssignments \<Rightarrow> bool" where
  "roots_apart [] X \<longleftrightarrow> True"
| "roots_apart (op # ops) X \<longleftrightarrow>
     (case op of Assign x n \<Rightarrow> map_of (mapAssetToXAccount X) n \<in> {None, Some x} | _ \<Rightarrow> True) \<and>
     roots_apart ops (xassign_step op X)"

lemma add_ok:
  assumes "xassign_ok X" "map_of (mapAssetToXAccount X) n \<in> {None, Some x}"
  shows "xassign_ok (snd (AddXAccountAssignment x n X))"
proof (cases "map_of (mapXAccountToAsset X) x \<in> {None, Some n}")
  case True
  have inv: "\<forall>x n. map_of (mapXAccountToAsset X) x = Some n \<longleftrightarrow> map_of (mapAssetToXAccount X) n = Some x"
    using assms(1) by (simp add: xassign_ok_def)
  have "(map_of (map_put x n (mapXAccountToAsset X)) y = Some m) =
      (map_of (map_put n x (mapAssetToXAccount X)) m = Some y)" for y m
    using inv True assms(2) by (cases "y = x"; cases "m = n"; simp add: map_of_put; metis option.distinct(1) option.inject)
  moreover have "snd (AddXAccountAssignment x n X) = \<lparr>mapXAccountToAsset = map_put x n (mapXAccountToAsset X),
      mapAssetToXAccount = map_put n x (mapAssetToXAccount X), db_rows = map_put x n (db_rows X)\<rparr>"
    using True by (auto simp: AddXAccountAssignment_def)
  ultimately show ?thesis using assms(1) by (simp add: xassign_ok_def map_ok_put)
next
  case False
  with assms(1) show ?thesis by (auto simp: AddXAccountAssignment_def split: option.splits)
qed

lemma remove_ok:
  assumes "xassign_ok X"
  shows "xassign_ok (RemoveXAccountAssignment x X)"
proof (cases "map_of (mapXAccountToAsset X) x")
  case (Some n)
  have inv: "\<forall>x n. map_of (mapXAccountToAsset X) x = Some n \<longleftrightarrow> map_of (mapAssetToXAccount X) n = Some x"
    using assms by (simp add: xassign_ok_def)
  have "(map_of (map_del x (mapXAccountToAsset X)) y = Some m) =
      (map_of (map_del n (mapAssetToXAccount X)) m = Some y)" for y m
    using inv Some by (cases "y = x"; cases "m = n"; simp add: map_of_del; metis option.inject)
  moreover have "RemoveXAccountAssignment x X = \<lparr>mapXAccountToAsset = map_del x (mapXAccountToAsset X),
      mapAssetToXAccount = map_del n (mapAssetToXAccount X), db_rows = map_del x (db_rows X)\<rparr>"
    using Some by (simp add: RemoveXAccountAssignment_def)
  ultimately show ?thesis using assms by (simp add: xassign_ok_def map_ok_del)
qed (use assms in \<open>simp add: RemoveXAccountAssignment_def\<close>)

lemma foldl_inverse:
  assumes "distinct (map snd rows)" "map_ok m0"
  shows "map_ok (foldl (\<lambda>m kv. map_put (snd kv) (fst kv) m) m0 rows)" (is "?ok rows m0")
    and "map_of (foldl (\<lambda>m kv. map_put (snd kv) (fst kv) m) m0 rows) n = Some x \<longleftrightarrow>
      (x, n) \<in> set rows \<or> n \<notin> snd ` set rows \<and> map_of m0 n = Some x"
  using assms
  by (induction rows arbitrary: m0) (auto simp: map_ok_put map_of_put image_iff split: if_splits)

lemma ok_values_distinct:
  assumes "xassign_ok X"
  shows "distinct (map snd (mapXAccountToAsset X))"
proof -
  let ?m = "mapXAccountToAsset X"
  have "p = q" if "p \<in> set ?m" "q \<in> set ?m" "snd p = snd q" for p q
    using that assms map_of_in_set [of ?m "fst p" "snd p"] map_of_in_set [of ?m "fst q" "snd q"]
    unfolding xassign_ok_def by (metis option.inject prod.collapse)
  moreover have "distinct ?m"
    using assms map_ok_distinct [of ?m] by (simp add: xassign_ok_def distinct_map)
  ultimately show ?thesis by (simp add: distinct_map inj_on_def)
qed

lemma option_eq_by_Some: "(\<And>x. a = Some x \<longleftrightarrow> b = Some x) \<Longrightarrow> a = b"
  by (cases a; cases b) auto

lemma load_ok:
  assumes "xassign_ok X"
  shows "LoadXAccountAssignments X = X"
proof -
  let ?m = "mapXAccountToAsset X"
  let ?l = "foldl (\<lambda>m kv. map_put (snd kv) (fst kv) m) [] ?m"
  note inv = foldl_inverse [OF ok_values_distinct [OF assms] map_ok_Nil]
  have "map_of ?l n = Some x \<longleftrightarrow> map_of (mapAssetToXAccount X) n = Some x" for n x
    using inv(2) [of n x] assms map_of_in_set [of ?m x n] by (simp add: xassign_ok_def)
  then have "map_of ?l = map_of (mapAssetToXAccount X)" by (intro ext option_eq_by_Some) simp
  then have "?l = mapAssetToXAccount X"
    using map_ok_ext [OF inv(1)] assms unfolding xassign_ok_def by blast
  then show ?thesis using assms by (simp add: LoadXAccountAssignments_def xassign_ok_def)
qed

lemma no_assignments_ok: "xassign_ok no_assignments"
  by (simp add: xassign_ok_def no_assignments_def)

lemma apart_run_ok:
  "xassign_ok X \<Longrightarrow> roots_apart ops X \<Longrightarrow> xassign_ok (xassign_run ops X)"
proof (induction ops arbitrary: X)
  case (Cons op ops)
  then have "xassign_ok (xassign_step op X)" by (cases op) (simp_all add: add_ok remove_ok load_ok)
  with Cons show ?case by (simp add: xassign_run_def)
qed (simp add: xassign_run_def)

section \<open>Any sequence\<close>

text \<open>What holds without the condition on the roots: a root's account has that root.\<close>

definition xassign_inv :: "XAssignments \<Rightarrow> bool" where
  "xassign_inv X \<longleftrightarrow> map_ok (mapXAccountToAsset X) \<and> map_ok (mapAssetToXAccount X) \<and>
     db_rows X = mapXAccountToAsset X \<and>
     (\<forall>x n. map_of (mapAssetToXAccount X) n = Some x \<longrightarrow> map_of (mapXAccountToAsset X) x = Some n)"

lemma foldl_last:
  "map_ok m0 \<Longrightarrow> map_ok (foldl (\<lambda>m kv. map_put (snd kv) (fst kv) m) m0 rows) \<and>
    (\<forall>n x. map_of (foldl (\<lambda>m kv. map_put (snd kv) (fst kv) m) m0 rows) n = Some x \<longrightarrow>
      (x, n) \<in> set rows \<or> map_of m0 n = Some x) \<and>
    (\<forall>n. map_of (foldl (\<lambda>m kv. map_put (snd kv) (fst kv) m) m0 rows) n = None \<longleftrightarrow>
      n \<notin> snd ` set rows \<and> map_of m0 n = None)"
proof (induction rows arbitrary: m0)
  case (Cons kv rows)
  obtain x n where kv: "kv = (x, n)" by (cases kv)
  have "map_ok (map_put n x m0)" using Cons.prems by (simp add: map_ok_put)
  note ih = Cons.IH [OF this]
  have "map_of (map_put n x m0) k = (if k = n then Some x else map_of m0 k)" for k
    using Cons.prems by (simp add: map_of_put)
  with ih show ?case by (auto simp: kv split: if_splits)
qed simp

lemma load_inv:
  assumes "xassign_inv X"
  shows "xassign_inv (LoadXAccountAssignments X)" "mapXAccountToAsset (LoadXAccountAssignments X) = mapXAccountToAsset X"
    "map_of (mapAssetToXAccount (LoadXAccountAssignments X)) n = None \<longleftrightarrow>
       (\<forall>x. map_of (mapXAccountToAsset X) x \<noteq> Some n)"
proof -
  let ?m = "mapXAccountToAsset X"
  have m: "map_ok ?m" "db_rows X = ?m" using assms by (simp_all add: xassign_inv_def)
  have e: "map_of ?m x = Some k \<longleftrightarrow> (x, k) \<in> set ?m" for x k using map_of_in_set [OF m(1)] .
  note l = foldl_last [OF map_ok_Nil, of ?m]
  show "mapXAccountToAsset (LoadXAccountAssignments X) = ?m" by (simp add: LoadXAccountAssignments_def m(2))
  show "xassign_inv (LoadXAccountAssignments X)"
    using l m(1) by (auto simp: xassign_inv_def LoadXAccountAssignments_def m(2) e)
  show "map_of (mapAssetToXAccount (LoadXAccountAssignments X)) n = None \<longleftrightarrow> (\<forall>x. map_of ?m x \<noteq> Some n)"
    using l by (force simp: LoadXAccountAssignments_def m(2) e)
qed

lemma step_inv:
  assumes "xassign_inv X"
  shows "xassign_inv (xassign_step op X)"
proof (cases op)
  case (Assign x n)
  with assms show ?thesis
    by (auto simp: xassign_inv_def AddXAccountAssignment_def map_ok_put map_of_put split: option.splits if_splits)
next
  case (Unassign x)
  with assms show ?thesis
    by (auto simp: xassign_inv_def RemoveXAccountAssignment_def map_ok_del map_of_del split: option.splits if_splits)
next
  case Restart
  with assms show ?thesis by (simp add: load_inv(1))
qed

lemma run_inv: "xassign_inv X \<Longrightarrow> xassign_inv (xassign_run ops X)"
  unfolding xassign_run_def by (induction ops arbitrary: X) (simp_all add: step_inv)

lemma step_keeps:
  assumes "xassign_inv X" "map_of (mapXAccountToAsset X) x = Some n" "op \<noteq> Unassign x"
  shows "map_of (mapXAccountToAsset (xassign_step op X)) x = Some n"
  using assms load_inv(2) [OF assms(1)]
  by (cases op) (auto simp: AddXAccountAssignment_def RemoveXAccountAssignment_def map_of_put map_of_del xassign_inv_def
      split: option.splits)

lemma run_keeps:
  "xassign_inv X \<Longrightarrow> map_of (mapXAccountToAsset X) x = Some n \<Longrightarrow> Unassign x \<notin> set ops \<Longrightarrow>
   map_of (mapXAccountToAsset (xassign_run ops X)) x = Some n"
  unfolding xassign_run_def by (induction ops arbitrary: X) (auto simp: step_inv step_keeps)

text \<open>
  C36. One root per account, across restarts. Whatever sequence of assignments, removals and restarts the node
  makes: an account that has a root keeps exactly that root until an assignment of the account is removed, whatever
  other root it is offered; the account recorded for a root has that root; a restart gives every account the root it
  had and finds an account for exactly the roots that some account has. That no root has two accounts, and
  that the two maps are inverse to each other and a restart changes nothing, is shown for the sequences that make no
  assignment for a root another account has. \<^verbatim>\<open>AddXAccountAssignment\<close> does not check this, and \<open>shared_root\<close> below is what
  it does otherwise; connecting checked blocks meets the condition (\<open>connected_accounts_ok\<close> in \<open>XC_Accounts\<close>) as long as
  the maps hold no root that is not on record, which the assignments of blocks that are tested and never connected break.
\<close>

theorem one_root_per_account:
  assumes "X = xassign_run ops no_assignments"
  shows "(\<forall>x n ops'. map_of (mapXAccountToAsset X) x = Some n \<longrightarrow> Unassign x \<notin> set ops' \<longrightarrow>
      map_of (mapXAccountToAsset (xassign_run ops' X)) x = Some n) \<and>
    (\<forall>x n. map_of (mapAssetToXAccount X) n = Some x \<longrightarrow> map_of (mapXAccountToAsset X) x = Some n) \<and>
    mapXAccountToAsset (LoadXAccountAssignments X) = mapXAccountToAsset X \<and>
    (\<forall>n. map_of (mapAssetToXAccount (LoadXAccountAssignments X)) n \<noteq> None \<longleftrightarrow>
      (\<exists>x. map_of (mapXAccountToAsset X) x = Some n)) \<and>
    (roots_apart ops no_assignments \<longrightarrow> LoadXAccountAssignments X = X \<and>
      (\<forall>x n. map_of (mapXAccountToAsset X) x = Some n \<longleftrightarrow> map_of (mapAssetToXAccount X) n = Some x))"
proof -
  have "xassign_inv no_assignments" by (simp add: xassign_inv_def no_assignments_def)
  then have inv: "xassign_inv X" using run_inv assms by blast
  have apart: "xassign_ok X" if "roots_apart ops no_assignments" using apart_run_ok [OF no_assignments_ok that] assms by simp
  show ?thesis
    using run_keeps [OF inv] load_inv(2,3) [OF inv] inv load_ok [OF apart] apart
    by (auto simp: xassign_inv_def xassign_ok_def)
qed

theorem one_root_per_account_witness:
  "let X = xassign_run [Assign ''alice'' ''ALICE'', Assign ''bob'' ''BOB'', Unassign ''bob''] no_assignments in
     map_of (mapXAccountToAsset (xassign_run [Assign ''alice'' ''OTHER'', Unassign ''bob'', Restart] X)) ''alice'' = Some ''ALICE'' \<and>
     map_of (mapAssetToXAccount X) ''ALICE'' = Some ''alice'' \<and> LoadXAccountAssignments X = X"
proof -
  let ?ops = "[Assign ''alice'' ''ALICE'', Assign ''bob'' ''BOB'', Unassign ''bob'']"
  let ?X = "xassign_run ?ops no_assignments"
  have ap: "roots_apart ?ops no_assignments" by code_simp
  have m: "map_of (mapXAccountToAsset ?X) ''alice'' = Some ''ALICE''" by code_simp
  have u: "Unassign ''alice'' \<notin> set [Assign ''alice'' ''OTHER'', Unassign ''bob'', Restart]" by simp
  note t = one_root_per_account [OF refl, of ?ops]
  from t m u have "map_of (mapXAccountToAsset (xassign_run [Assign ''alice'' ''OTHER'', Unassign ''bob'', Restart] ?X)) ''alice'' =
      Some ''ALICE''" by blast
  moreover from t ap m have "map_of (mapAssetToXAccount ?X) ''ALICE'' = Some ''alice''" "LoadXAccountAssignments ?X = ?X" by blast+
  ultimately show ?thesis by (simp add: Let_def)
qed

text \<open>A second account gets a root that is taken; when it gives the root back, the root has no account until a restart.\<close>

lemma shared_root:
  "let X = xassign_run [Assign ''alice'' ''ALICE'', Assign ''bob'' ''ALICE''] no_assignments in
     map_of (mapXAccountToAsset X) ''alice'' = Some ''ALICE'' \<and> map_of (mapXAccountToAsset X) ''bob'' = Some ''ALICE'' \<and>
     map_of (mapAssetToXAccount (RemoveXAccountAssignment ''bob'' X)) ''ALICE'' = None \<and>
     map_of (mapAssetToXAccount (LoadXAccountAssignments (RemoveXAccountAssignment ''bob'' X))) ''ALICE'' = Some ''alice''"
  by code_simp

end
