(* ===== verification/XC_RootIssue.thy ===== *)
theory XC_RootIssue
  imports XC_CheckTx XC_XAssign
begin

text \<open>
  Transactions that issue a root for an X account, accepted and refused, and what follows for the rule of
  one root per account.
\<close>

section \<open>Size of a transaction\<close>

lemma compact_size_le: "length (WriteCompactSize n) \<le> 9"
  by (simp add: length_WriteCompactSize GetSizeOfCompactSize_def)

lemma length_concat_map_le: "(\<And>x. x \<in> set xs \<Longrightarrow> length (f x) \<le> b) \<Longrightarrow> length (concat (map f xs)) \<le> b * length xs"
  by (induction xs) (auto simp: add_mono)

lemma transaction_size_le:
  assumes "\<forall>i \<in> set (vin tx). length (op_hash (prevout i)) = 32 \<and> length (scriptSig i) \<le> 10000"
    and "\<forall>o1 \<in> set (vout tx). length (scriptPubKey o1) \<le> 10000" "length (vin tx) + length (vout tx) \<le> 100"
  shows "length (SerializeTransaction False tx) * WITNESS_SCALE_FACTOR \<le> GetMaxBlockWeight"
proof -
  have ser: "length (ser_writedata32 w) = 4" "length (Serialize_int64 n) = 8" for w n
    by (simp_all add: ser_writedata32_def le_bytes_def length_asset_ints)
  have bytes: "length (Serialize_bytes s) \<le> length s + 9" for s
    using compact_size_le [of "length s"] by (simp add: Serialize_bytes_def)
  have "length (Serialize_CTxIn i) \<le> 10049" if "i \<in> set (vin tx)" for i
    using bspec [OF assms(1) that] bytes [of "scriptSig i"] by (simp add: Serialize_CTxIn_def Serialize_COutPoint_def ser)
  then have "length (concat (map Serialize_CTxIn (vin tx))) \<le> 10049 * length (vin tx)" by (rule length_concat_map_le)
  moreover have "length (Serialize_CTxOut o1) \<le> 10049" if "o1 \<in> set (vout tx)" for o1
    using bspec [OF assms(2) that] bytes [of "scriptPubKey o1"] by (simp add: Serialize_CTxOut_def ser)
  then have "length (concat (map Serialize_CTxOut (vout tx))) \<le> 10049 * length (vout tx)" by (rule length_concat_map_le)
  ultimately show ?thesis
    using assms(3) compact_size_le [of "length (vin tx)"] compact_size_le [of "length (vout tx)"]
    by (simp add: SerializeTransaction_def Serialize_vector_def ser GetMaxBlockWeight_def)
qed

section \<open>Issuing a root\<close>

text \<open>
  A transaction with one input, an assignment output, the owner token and the root, the last two for the
  same key.
\<close>

definition root_tx :: "CTxIn \<Rightarrow> CScript \<Rightarrow> uint160 \<Rightarrow> CNewAsset \<Rightarrow> CTransaction" where
  "root_tx i s h a = \<lparr>vin = [i], vout = [\<lparr>nValue = 0, scriptPubKey = s\<rparr>, owner_out h a, issue_out h a],
     nVersion = 2, nLockTime = 0\<rparr>"

definition root_ok :: "CNewAsset \<Rightarrow> bool" where
  "root_ok a \<longleftrightarrow> new_asset_ok a \<and> IsAssetNameValid (strName a) = (True, Some ROOT) \<and> CheckNewAsset a = None"

lemma root_ok_length: "root_ok a \<Longrightarrow> length (strName a) < 48 \<and> 3 \<le> length (strName a)"
  using root_kind_iff [of "strName a"] by (auto simp: root_ok_def IsAssetNameARoot_def root_name_iff)

lemma assignment_script_shape:
  assumes "ParseXAccountAssignmentScript s = Some xid"
  shows "s \<noteq> []" "s ! 0 = OP_RETURN" "\<not> IsNullAsset s"
proof -
  from assms show s: "s \<noteq> []" "s ! 0 = OP_RETURN"
    by (auto simp: ParseXAccountAssignmentScript_def op_return_data_def split: option.splits if_splits list.splits)
  then show "\<not> IsNullAsset s"
    by (simp add: IsNullAsset_def IsNullAssetTxDataScript_def IsNullGlobalRestrictionAssetTxDataScript_def
        IsNullAssetVerifierTxDataScript_def)
qed

lemma asset_script_not_null:
  assumes "length h = 20"
  shows "\<not> IsNullAsset (asset_script (GetScriptForDestination (CKeyID h)) c d)"
  using assms by (simp add: IsNullAsset_def IsNullAssetTxDataScript_def IsNullGlobalRestrictionAssetTxDataScript_def
      IsNullAssetVerifierTxDataScript_def asset_script_def push_opcode_def push_data_def P2PKH_bytes)

lemma free_output_passes:
  assumes "nValue o1 = 0" "\<not> IsNullAsset (scriptPubKey o1)" "MoneyRange (nValueOut st)"
    and "IsAssetScript (scriptPubKey o1) = None \<or> (\<exists>own i. IsAssetScript (scriptPubKey o1) = Some (TX_NEW_ASSET, own, i))"
  shows "check_output A fM fB st o1 = Inr st"
proof -
  have "check_null_asset A st o1 = Inr st" using assms(2) by (simp add: check_null_asset_def IsNullAsset_def Let_def)
  then show ?thesis using assms(1,3,4) by (auto simp: check_output_def check_asset_output_def)
qed

lemma issue_outputs_kind:
  assumes "new_asset_ok a" "length (strName a) < 48" "length h = 20"
  obtains i j where
    "IsAssetScript (scriptPubKey (issue_out h a)) = Some (TX_NEW_ASSET, False, i)"
    "IsAssetScript (scriptPubKey (owner_out h a)) = Some (TX_NEW_ASSET, True, j)"
    "\<And>P. AssetFromScript P (scriptPubKey (issue_out h a)) = Some (a, EncodeDestination P (CKeyID h))"
    "\<And>P. OwnerAssetFromScript P (scriptPubKey (owner_out h a)) = Some (strName a @ OWNER_TAG, EncodeDestination P (CKeyID h))"
    "\<not> IsNullAsset (scriptPubKey (issue_out h a))" "\<not> IsNullAsset (scriptPubKey (owner_out h a))"
    "nValue (owner_out h a) = 0" "nValue (issue_out h a) = 0"
proof -
  have l: "length (strName a) \<le> 48" using assms(2) by simp
  note i = issue_out_kind [OF assms(3,1) l] and ow = owner_out_kind [OF assms(3,2)]
  have "\<not> IsNullAsset (scriptPubKey (issue_out h a))" "\<not> IsNullAsset (scriptPubKey (owner_out h a))"
    using asset_script_not_null [OF assms(3)]
    by (simp_all add: issue_out_def owner_out_def CNewAsset_ConstructTransaction_def CNewAsset_ConstructOwnerTransaction_def)
  moreover have "nValue (owner_out h a) = 0" "nValue (issue_out h a) = 0" by (simp_all add: owner_out_def issue_out_def)
  ultimately show thesis using that i ow by blast
qed

lemma root_ok_issue: "root_ok a \<Longrightarrow> new_asset_ok a" "root_ok a \<Longrightarrow> length (strName a) < 48"
  using root_ok_length by (simp_all add: root_ok_def)

lemmas root_outputs_kind = issue_outputs_kind [OF root_ok_issue]

lemma root_tx_outputs:
  assumes "root_ok a" "length h = 20" "ParseXAccountAssignmentScript s = Some xid" "IsAssetScript s = None"
  shows "check_outputs A fM fB (vout (root_tx i s h a)) check_start = Inr check_start"
proof -
  have z: "MoneyRange (nValueOut check_start)" by (simp add: check_start_def MoneyRange_def)
  show ?thesis
  proof (rule root_outputs_kind [OF assms(1,1,2)])
    fix i j
    assume "IsAssetScript (scriptPubKey (issue_out h a)) = Some (TX_NEW_ASSET, False, i)"
      "IsAssetScript (scriptPubKey (owner_out h a)) = Some (TX_NEW_ASSET, True, j)"
      "\<not> IsNullAsset (scriptPubKey (issue_out h a))" "\<not> IsNullAsset (scriptPubKey (owner_out h a))"
      "nValue (owner_out h a) = 0" "nValue (issue_out h a) = 0"
    then have "check_output A fM fB check_start (owner_out h a) = Inr check_start"
      "check_output A fM fB check_start (issue_out h a) = Inr check_start"
      by (intro free_output_passes [OF _ _ z]; blast)+
    then show ?thesis
      using assms(4) assignment_script_shape(3) [OF assms(3)] by (simp add: root_tx_def free_output_passes [OF _ _ z])
  qed
qed

text \<open>The checks of the transaction up to the account rule.\<close>

definition account_rule :: "XAssignments \<Rightarrow> MempoolAssets \<Rightarrow> string \<Rightarrow> string \<Rightarrow> bool" where
  "account_rule X M xid name \<longleftrightarrow> CheckIfXAccountAssigned X M xid \<in> {None, Some name}"

lemma root_tx_verify:
  assumes "root_ok a" "length h = 20" "ParseXAccountAssignmentScript s = Some xid" "IsAssetScript s = None"
    and "nIssueAssetBurnAmount A \<noteq> 0"
  shows "VerifyNewAsset A X M u (root_tx i s h a) =
    (if account_rule X M xid (strName a) then None else Some ''bad-txns-xaccount-already-assigned'')"
proof (rule root_outputs_kind [OF assms(1,1,2)])
  fix k j
  let ?tx = "root_tx i s h a"
  assume k: "IsAssetScript (scriptPubKey (issue_out h a)) = Some (TX_NEW_ASSET, False, k)"
    "IsAssetScript (scriptPubKey (owner_out h a)) = Some (TX_NEW_ASSET, True, j)"
    "\<And>P. AssetFromScript P (scriptPubKey (issue_out h a)) = Some (a, EncodeDestination P (CKeyID h))"
    "\<And>P. OwnerAssetFromScript P (scriptPubKey (owner_out h a)) = Some (strName a @ OWNER_TAG, EncodeDestination P (CKeyID h))"
    "nValue (owner_out h a) = 0" "nValue (issue_out h a) = 0"
  have s: "last_script ?tx = scriptPubKey (issue_out h a)" "owner_script_of ?tx = scriptPubKey (owner_out h a)"
    by (simp_all add: root_tx_def last_script_def owner_script_of_def)
  have new: "IsNewAsset (last_script ?tx)" "IsOwnerAsset (owner_script_of ?tx)" using k s by (simp_all add: IsNewAsset_def IsOwnerAsset_def)
  have t: "name_type u (strName a) = ROOT" using assms(1) by (simp add: root_ok_def name_type_def)
  have b: "\<not> list_ex (\<lambda>o1. CheckIssueBurnTx A o1 ROOT 1) (vout ?tx)"
    using k assms(5) by (simp add: root_tx_def CheckIssueBurnTx_def GetBurnAmount_def)
  have p: "ParseXAccountAssignment ?tx = Some xid" using assms(3) by (simp add: root_tx_def ParseXAccountAssignment_def)
  have n: "issues (GetTxOutAssetTypes (vout ?tx)) = 1" "owners (GetTxOutAssetTypes (vout ?tx)) = 1"
      "reissues (GetTxOutAssetTypes (vout ?tx)) = 0"
    using k assms(4) by (simp_all add: root_tx_def Let_def)
  have "3 \<le> length (vout ?tx)" by (simp add: root_tx_def)
  then show ?thesis
    using new t b p n k(3,4) [of "prefixes A"] unfolding s
    by (auto simp: VerifyNewAsset_def s Let_def account_rule_def split: option.splits)
qed

lemma asset_script_length:
  assumes "length h = 20" "length d < 110"
  shows "length (asset_script (GetScriptForDestination (CKeyID h)) c d) \<le> 10000"
  using assms by (simp add: asset_script_def push_opcode_def push_data_def P2PKH_bytes push_header_def)

lemma root_tx_size:
  assumes "root_ok a" "length h = 20" "length (op_hash (prevout i)) = 32" "length (scriptSig i) \<le> 10000" "length s \<le> 10000"
  shows "length (SerializeTransaction False (root_tx i s h a)) * WITNESS_SCALE_FACTOR \<le> GetMaxBlockWeight"
proof (rule transaction_size_le)
  have n: "length (strName a) \<le> 48" "length (strName a @ OWNER_TAG) \<le> 48" using root_ok_length [OF assms(1)] by simp_all
  have "length (scriptPubKey (issue_out h a)) \<le> 10000" "length (scriptPubKey (owner_out h a)) \<le> 10000"
    using asset_script_length [OF assms(2)] length_asset_data(1) [OF n(1)] length_std_string [OF n(2)] n
    by (simp_all add: issue_out_def owner_out_def CNewAsset_ConstructTransaction_def CNewAsset_ConstructOwnerTransaction_def)
  then show "\<forall>o1 \<in> set (vout (root_tx i s h a)). length (scriptPubKey o1) \<le> 10000"
    using assms(5) by (simp add: root_tx_def)
qed (use assms in \<open>simp_all add: root_tx_def\<close>)

text \<open>What is asked of the input: an outpoint that is not null, and a dummy only in an identity claim.\<close>

definition root_input :: "AssetParams \<Rightarrow> CTxIn \<Rightarrow> CScript \<Rightarrow> uint160 \<Rightarrow> CNewAsset \<Rightarrow> bool" where
  "root_input A i s h a \<longleftrightarrow>
     \<not> OutPoint_IsNull (prevout i) \<and> length (op_hash (prevout i)) = 32 \<and> length (scriptSig i) \<le> 10000 \<and> length s \<le> 10000 \<and>
     CheckXAccountDummyInputs (prefixes A) (root_tx i s h a) = None"

lemma root_tx_new: "root_ok a \<Longrightarrow> length h = 20 \<Longrightarrow> Tx_IsNewAsset P (root_tx i s h a)"
  using Tx_IsNewAsset_issue [of h a "root_tx i s h a" "[\<lparr>nValue = 0, scriptPubKey = s\<rparr>]" h a True "Some ROOT" P] root_ok_length [of a]
  by (simp add: root_tx_def root_ok_def)

text \<open>
  Issuing a root: with well-formed outputs the account rule alone decides.
\<close>

lemma root_issue_decided:
  assumes "root_ok a" "length h = 20" "ParseXAccountAssignmentScript s = Some xid" "IsAssetScript s = None"
    and "nIssueAssetBurnAmount A \<noteq> 0" "root_input A i s h a"
  shows "CheckTransaction A X M u fD fM fB (root_tx i s h a) =
    (if account_rule X M xid (strName a) then None else Some (100, ''bad-txns-xaccount-already-assigned''))"
proof -
  let ?tx = "root_tx i s h a" and ?P = "prefixes A"
  have i: "\<not> OutPoint_IsNull (prevout i)" "length (op_hash (prevout i)) = 32" "length (scriptSig i) \<le> 10000"
    "length s \<le> 10000" "CheckXAccountDummyInputs ?P ?tx = None" using assms(6) by (simp_all add: root_input_def)
  have "check_inputs ?tx = None" using i(1) by (simp add: check_inputs_def IsCoinBase_def root_tx_def)
  moreover have "check_creation A X M u ?tx =
      (if account_rule X M xid (strName a) then Inr no_restricted else Inl (100, ''bad-txns-xaccount-already-assigned''))"
  proof (rule root_outputs_kind [OF assms(1,1,2)])
    fix k j
    assume k: "\<And>P. AssetFromScript P (scriptPubKey (issue_out h a)) = Some (a, EncodeDestination P (CKeyID h))"
      "\<And>P. OwnerAssetFromScript P (scriptPubKey (owner_out h a)) = Some (strName a @ OWNER_TAG, EncodeDestination P (CKeyID h))"
    have f: "AssetFromTransaction ?P ?tx = Some (a, EncodeDestination ?P (CKeyID h))"
      "OwnerFromTransaction ?P ?tx = Some (strName a @ OWNER_TAG, EncodeDestination ?P (CKeyID h))"
      using root_tx_new [OF assms(1,2)] k
      by (simp_all add: AssetFromTransaction_def OwnerFromTransaction_def last_script_def owner_script_of_def root_tx_def)
    have "IsNewOwnerTxValid ?P ?tx (strName a) (EncodeDestination ?P (CKeyID h)) = None"
      using f(2) root_ok_length [OF assms(1)] by (simp add: IsNewOwnerTxValid_def)
    moreover have "CheckNewAsset a = None" using assms(1) by (simp add: root_ok_def)
    ultimately show ?thesis
      using root_tx_new [OF assms(1,2)] f(1) root_tx_verify [OF assms(1-5)] by (simp add: check_creation_def)
  qed
  moreover have "vin ?tx \<noteq> []" "vout ?tx \<noteq> []" "distinct (map prevout (vin ?tx))" by (simp_all add: root_tx_def)
  moreover have "\<not> GetMaxBlockWeight < length (SerializeTransaction False ?tx) * WITNESS_SCALE_FACTOR"
    using root_tx_size [OF assms(1,2) i(2-4)] by simp
  ultimately show ?thesis
    using root_tx_outputs [OF assms(1-4)] i(5)
    by (simp add: CheckTransaction_def check_start_def map_keys_def)
qed

section \<open>A root bought with an ordinary input\<close>

definition ex_input :: CTxIn where
  "ex_input = \<lparr>prevout = \<lparr>op_hash = replicate 32 1, op_n = 0\<rparr>, scriptSig = [], nSequence = SEQUENCE_FINAL, scriptWitness = []\<rparr>"

definition paid_root :: "string \<Rightarrow> CNewAsset \<Rightarrow> CTransaction" where
  "paid_root xid a = root_tx ex_input (MakeXAccountAssignmentScript xid) ex_key_hash a"

lemma assignment_script:
  assumes "xid \<noteq> []" "length xid \<le> 15"
  shows "ParseXAccountAssignmentScript (MakeXAccountAssignmentScript xid) = Some xid"
    "IsAssetScript (MakeXAccountAssignmentScript xid) = None" "length (MakeXAccountAssignmentScript xid) \<le> 10000"
proof -
  let ?d = "bytes_of ''XID1'' @ bytes_of xid"
  have "op_return_data (MakeXAccountAssignmentScript xid) = Some ?d"
    unfolding MakeXAccountAssignmentScript_def by (rule op_return_round) (use assms in simp)
  moreover have "take 4 ?d = bytes_of ''XID1''" "drop 4 ?d = bytes_of xid" "5 \<le> length ?d"
    using assms(1) by (cases xid; simp)+
  ultimately show "ParseXAccountAssignmentScript (MakeXAccountAssignmentScript xid) = Some xid"
    using assms by (simp add: ParseXAccountAssignmentScript_def Let_def)
  have "length (MakeXAccountAssignmentScript xid) = 6 + length xid"
    using assms(2) by (simp add: MakeXAccountAssignmentScript_def op_return_script_def push_data_def push_opcode_def push_header_def)
  then show "IsAssetScript (MakeXAccountAssignmentScript xid) = None" "length (MakeXAccountAssignmentScript xid) \<le> 10000"
    using assms(2) by (simp_all add: IsAssetScript_def)
qed

lemma paid_root_no_dummy:
  "CheckXAccountDummyInputs P (paid_root xid a) = None" "\<not> IsXAccountIdentityClaim P (paid_root xid a)"
  by (simp_all add: paid_root_def root_tx_def ex_input_def CheckXAccountDummyInputs_def IsXAccountIdentityClaim_def
      XAccountIdentityClaim_def IsXAccountDummyPrevout_def Let_def)

lemma paid_root_input: "xid \<noteq> [] \<Longrightarrow> length xid \<le> 15 \<Longrightarrow> root_input A ex_input (MakeXAccountAssignmentScript xid) ex_key_hash a"
  using assignment_script(3) paid_root_no_dummy(1)
  by (simp add: root_input_def ex_input_def OutPoint_IsNull_def paid_root_def)

lemma paid_root_decided:
  assumes "root_ok a" "xid \<noteq> []" "length xid \<le> 15" "nIssueAssetBurnAmount A \<noteq> 0"
  shows "CheckTransaction A X M u fD fM fB (paid_root xid a) =
    (if account_rule X M xid (strName a) then None else Some (100, ''bad-txns-xaccount-already-assigned''))"
  unfolding paid_root_def
  by (rule root_issue_decided [OF assms(1) ex_root_facts(5) assignment_script(1,2) [OF assms(2,3)] assms(4)
        paid_root_input [OF assms(2,3)]])

lemma root_not_owner: "IsAssetNameValid name = (True, Some ROOT) \<Longrightarrow> \<not> IsAssetNameAnOwner name"
  by (auto simp: IsAssetNameAnOwner_def IsAssetNameValid_def Let_def split: if_splits)

lemma ex_root_ok: "root_ok ex_root"
proof -
  have "strName ex_root = ''ALICE''" "nAmount ex_root = COIN" "units ex_root = 0" "nReissuable ex_root = 0" "nHasIPFS ex_root = 0"
    by (simp_all add: ex_root_def)
  then show ?thesis using ex_root_facts(1,4) root_not_owner [OF ex_root_facts(4)]
    by (simp add: root_ok_def CheckNewAsset_def CheckAmountWithUnits_def)
qed

definition no_mempool :: MempoolAssets where
  "no_mempool = \<lparr>mapAssetToHash = [], mapHashToAsset = [], mapXAccountToHash = [], mapHashToXAccount = []\<rparr>"

lemma main_burn: "nIssueAssetBurnAmount main_asset_params \<noteq> 0" by (simp add: main_asset_params_def)

lemma ex_paid_accepted:
  "CheckTransaction main_asset_params no_assignments no_mempool u fD fM fB (paid_root ''alice'' ex_root) = None"
  using paid_root_decided [OF ex_root_ok _ _ main_burn, of "''alice''" no_assignments no_mempool]
  by (simp add: account_rule_def CheckIfXAccountAssigned_def no_assignments_def no_mempool_def)

theorem accepted_outputs_witness:
  "GetValueOut True (paid_root ''alice'' ex_root) = Some (\<Sum>o1 \<leftarrow> vout (paid_root ''alice'' ex_root). nValue o1) \<and>
   MoneyRange (\<Sum>o1 \<leftarrow> vout (paid_root ''alice'' ex_root). nValue o1)"
  using accepted_outputs [OF ex_paid_accepted] by blast

theorem issue_needs_authority_witness:
  "\<exists>k. IsAssetNameValid ''ALICE'' = (True, Some k) \<and>
     issue_authority main_asset_params no_assignments no_mempool (paid_root ''alice'' ex_root) ex_root k"
proof (rule root_outputs_kind [OF ex_root_ok ex_root_ok ex_root_facts(5)])
  fix i j
  assume "\<And>P. AssetFromScript P (scriptPubKey (issue_out ex_key_hash ex_root)) = Some (ex_root, EncodeDestination P (CKeyID ex_key_hash))"
  then show ?thesis
    using issue_needs_authority [OF ex_paid_accepted, of "issue_out ex_key_hash ex_root"]
    by (simp add: paid_root_def root_tx_def ex_root_def)
qed

section \<open>What the account rule leaves open\<close>

text \<open>
  A root for any account can be had without a proof of the site: a transaction that spends an ordinary
  coin is no identity claim, and only identity claims are held back from blocks for want of a proof.
\<close>

lemma unproved_root_accepted:
  assumes "root_ok a" "xid \<noteq> []" "length xid \<le> 15" "nIssueAssetBurnAmount A \<noteq> 0" "account_rule X M xid (strName a)"
  shows "CheckTransaction A X M u fD fM fB (paid_root xid a) = None \<and>
    \<not> XClaimProofBlocksInclusion S (prefixes A) pubs now (paid_root xid a)"
  using paid_root_decided [OF assms(1-4)] assms(5) paid_root_no_dummy(2) by (simp add: XClaimProofBlocksInclusion_def)

text \<open>
  Whether a block is valid depends on the mempool of the node that checks it: the same transaction passes
  the block check of a node with an empty mempool and fails that of a node whose mempool holds a claim of
  the account for another root.
\<close>

lemma block_check_reads_mempool:
  "\<exists>M. CheckTransaction main_asset_params no_assignments no_mempool u True False True (paid_root ''alice'' ex_root) = None \<and>
     CheckTransaction main_asset_params no_assignments M u True False True (paid_root ''alice'' ex_root) =
       Some (100, ''bad-txns-xaccount-already-assigned'')"
proof (intro exI conjI)
  let ?M = "no_mempool\<lparr>mapXAccountToHash := [(''alice'', replicate 32 9)], mapHashToAsset := [(replicate 32 9, ''OTHER'')]\<rparr>"
  show "CheckTransaction main_asset_params no_assignments no_mempool u True False True (paid_root ''alice'' ex_root) = None"
    by (rule ex_paid_accepted)
  have "\<not> account_rule no_assignments ?M ''alice'' (strName ex_root)"
    by (simp add: account_rule_def CheckIfXAccountAssigned_def no_assignments_def ex_root_def)
  then show "CheckTransaction main_asset_params no_assignments ?M u True False True (paid_root ''alice'' ex_root) =
      Some (100, ''bad-txns-xaccount-already-assigned'')"
    using paid_root_decided [OF ex_root_ok _ _ main_burn, of "''alice''"] by simp
qed

text \<open>
  The rule compares account texts as they are written, so that an account with a root gets another under
  a different spelling of the same handle.
\<close>

lemma second_root_by_spelling:
  assumes "map_of (mapXAccountToAsset X) ''alice'' = Some ''OTHER''" "map_of (mapXAccountToAsset X) ''@alice'' = None"
  shows "ParseXAccountSpec ''@alice'' = ParseXAccountSpec ''alice'' \<and>
    CheckTransaction main_asset_params X no_mempool u True False True (paid_root ''@alice'' ex_root) = None"
proof
  show "ParseXAccountSpec ''@alice'' = ParseXAccountSpec ''alice''"
    by (simp add: ParseXAccountSpec_def TrimCopy_def isspace_def NormalizeXHandle_def handle_char_def fold_case_def
        less_eq_char_def)
  have "account_rule X no_mempool ''@alice'' (strName ex_root)"
    using assms(2) by (simp add: account_rule_def CheckIfXAccountAssigned_def no_mempool_def)
  then show "CheckTransaction main_asset_params X no_mempool u True False True (paid_root ''@alice'' ex_root) = None"
    using paid_root_decided [OF ex_root_ok _ _ main_burn, of "''@alice''"] by simp
qed

section \<open>A message channel without its parent's owner token\<close>

definition ex_channel :: CNewAsset where
  "ex_channel = \<lparr>strName = ''ABC~NEW'', nAmount = COIN, units = 0, nReissuable = 0, nHasIPFS = 0, strIPFSHash = []\<rparr>"

text \<open>The burn, an owner token for the channel, and the channel; \<open>b\<close> is the hash of the burn address.\<close>

definition channel_tx :: "AssetParams \<Rightarrow> uint160 \<Rightarrow> CTransaction" where
  "channel_tx A b = \<lparr>vin = [ex_input],
     vout = [\<lparr>nValue = nIssueMsgChannelAssetBurnAmount A, scriptPubKey = GetScriptForDestination (CKeyID b)\<rparr>,
       owner_out ex_key_hash ex_channel, issue_out ex_key_hash ex_channel], nVersion = 2, nLockTime = 0\<rparr>"

lemma ex_channel_facts:
  "new_asset_ok ex_channel" "length (strName ex_channel) < 48" "strName ex_channel = ''ABC~NEW''"
  "IsAssetNameValid ''ABC~NEW'' = (True, Some MSGCHANNEL)" "CheckNewAsset ex_channel = None" "GetParentName ''ABC~NEW'' = ''ABC''"
proof -
  show v: "IsAssetNameValid ''ABC~NEW'' = (True, Some MSGCHANNEL)" by code_simp
  show "new_asset_ok ex_channel" "length (strName ex_channel) < 48" and n: "strName ex_channel = ''ABC~NEW''"
    by (simp_all add: ex_channel_def new_asset_ok_def name_ok_def int8_range_def int64_range_def)
  have "\<not> regex_match ''ABC~NEW'' OWNER_INDICATOR" by code_simp
  then have "\<not> IsAssetNameAnOwner ''ABC~NEW''" by (simp add: IsAssetNameAnOwner_def)
  moreover have "nAmount ex_channel = COIN" "units ex_channel = 0" "nReissuable ex_channel = 0" "nHasIPFS ex_channel = 0"
    by (simp_all add: ex_channel_def)
  ultimately show "CheckNewAsset ex_channel = None" using v n by (simp add: CheckNewAsset_def CheckAmountWithUnits_def)
  show "GetParentName ''ABC~NEW'' = ''ABC''" using v by (simp add: GetParentName_def before_last_def)
qed

lemma P2PKH_plain:
  assumes "length b = 20"
  shows "IsAssetScript (GetScriptForDestination (CKeyID b)) = None" "\<not> IsNullAsset (GetScriptForDestination (CKeyID b))"
    "length (GetScriptForDestination (CKeyID b)) = 25"
  using assms by (simp_all add: P2PKH_bytes IsAssetScript_def IsNullAsset_def IsNullAssetTxDataScript_def
      IsNullGlobalRestrictionAssetTxDataScript_def IsNullAssetVerifierTxDataScript_def)

lemma channel_tx_shape:
  "last_script (channel_tx A b) = scriptPubKey (issue_out ex_key_hash ex_channel)"
  "owner_script_of (channel_tx A b) = scriptPubKey (owner_out ex_key_hash ex_channel)"
  "Tx_IsNewAsset P (channel_tx A b)"
proof -
  show "last_script (channel_tx A b) = scriptPubKey (issue_out ex_key_hash ex_channel)"
    "owner_script_of (channel_tx A b) = scriptPubKey (owner_out ex_key_hash ex_channel)"
    by (simp_all add: channel_tx_def last_script_def owner_script_of_def)
  show "Tx_IsNewAsset P (channel_tx A b)"
    using Tx_IsNewAsset_issue [OF ex_root_facts(5) ex_channel_facts(1,2) _ _ ex_root_facts(5) ex_channel_facts(2),
        of "channel_tx A b" "[\<lparr>nValue = nIssueMsgChannelAssetBurnAmount A, scriptPubKey = GetScriptForDestination (CKeyID b)\<rparr>]"
          True "Some MSGCHANNEL" P] ex_channel_facts(3,4)
    by (simp add: channel_tx_def)
qed

definition channel_burn :: "AssetParams \<Rightarrow> uint160 \<Rightarrow> bool" where
  "channel_burn A b \<longleftrightarrow> length b = 20 \<and> EncodeDestination (prefixes A) (CKeyID b) = Some (strIssueMsgChannelAssetBurnAddress A) \<and>
     0 < nIssueMsgChannelAssetBurnAmount A \<and> nIssueMsgChannelAssetBurnAmount A \<le> MAX_MONEY"

lemma channel_tx_outputs:
  assumes "channel_burn A b"
  shows "check_outputs A fM fB (vout (channel_tx A b)) check_start =
    Inr (check_start\<lparr>nValueOut := nIssueMsgChannelAssetBurnAmount A\<rparr>)"
proof (rule issue_outputs_kind [OF ex_channel_facts(1,2) ex_root_facts(5)])
  fix i j
  let ?st = "check_start\<lparr>nValueOut := nIssueMsgChannelAssetBurnAmount A\<rparr>"
  assume "IsAssetScript (scriptPubKey (issue_out ex_key_hash ex_channel)) = Some (TX_NEW_ASSET, False, i)"
    "IsAssetScript (scriptPubKey (owner_out ex_key_hash ex_channel)) = Some (TX_NEW_ASSET, True, j)"
    "\<not> IsNullAsset (scriptPubKey (issue_out ex_key_hash ex_channel))" "\<not> IsNullAsset (scriptPubKey (owner_out ex_key_hash ex_channel))"
    "nValue (owner_out ex_key_hash ex_channel) = 0" "nValue (issue_out ex_key_hash ex_channel) = 0"
  moreover have "MoneyRange (nValueOut ?st)" using assms by (simp add: channel_burn_def MoneyRange_def)
  ultimately have "check_output A fM fB ?st (owner_out ex_key_hash ex_channel) = Inr ?st"
      "check_output A fM fB ?st (issue_out ex_key_hash ex_channel) = Inr ?st"
    by (intro free_output_passes; blast)+
  moreover have "check_output A fM fB check_start
      \<lparr>nValue = nIssueMsgChannelAssetBurnAmount A, scriptPubKey = GetScriptForDestination (CKeyID b)\<rparr> = Inr ?st"
    using assms P2PKH_plain [of b]
    by (auto simp: channel_burn_def check_output_def check_null_asset_def IsNullAsset_def check_asset_output_def
        MoneyRange_def check_start_def Let_def)
  ultimately show ?thesis by (simp add: channel_tx_def)
qed

lemma channel_tx_verify:
  assumes "channel_burn A b"
  shows "VerifyNewAsset A X M u (channel_tx A b) = None" "\<not> sends_owner A (channel_tx A b) ''ABC''"
proof -
  let ?tx = "channel_tx A b"
  have "(VerifyNewAsset A X M u ?tx = None) \<and> \<not> sends_owner A ?tx ''ABC''"
  proof (rule issue_outputs_kind [OF ex_channel_facts(1,2) ex_root_facts(5)])
    fix k j
    assume k: "IsAssetScript (scriptPubKey (issue_out ex_key_hash ex_channel)) = Some (TX_NEW_ASSET, False, k)"
      "IsAssetScript (scriptPubKey (owner_out ex_key_hash ex_channel)) = Some (TX_NEW_ASSET, True, j)"
      "\<And>P. AssetFromScript P (scriptPubKey (issue_out ex_key_hash ex_channel)) = Some (ex_channel, EncodeDestination P (CKeyID ex_key_hash))"
      "\<And>P. OwnerAssetFromScript P (scriptPubKey (owner_out ex_key_hash ex_channel)) =
        Some (strName ex_channel @ OWNER_TAG, EncodeDestination P (CKeyID ex_key_hash))"
    have b: "IsAssetScript (GetScriptForDestination (CKeyID b)) = None"
        "ExtractDestination (GetScriptForDestination (CKeyID b)) = Some (CKeyID b)"
      using assms P2PKH_plain ExtractDestination_P2PKH by (simp_all add: channel_burn_def)
    have "\<not> sends_owner A ?tx ''ABC''"
      using k(1,2) b(1) by (simp add: sends_owner_def channel_tx_def sends_asset_def TransferAssetFromScript_def)
    moreover have "CheckIssueBurnTx A
        \<lparr>nValue = nIssueMsgChannelAssetBurnAmount A, scriptPubKey = GetScriptForDestination (CKeyID b)\<rparr> MSGCHANNEL 1"
      using assms b by (simp add: channel_burn_def CheckIssueBurnTx_def GetBurnAmount_def GetBurnAddress_def pays_address_def)
    then have "list_ex (\<lambda>o1. CheckIssueBurnTx A o1 MSGCHANNEL 1) (vout ?tx)" by (simp add: channel_tx_def)
    moreover have "name_type u (strName ex_channel) = MSGCHANNEL" using ex_channel_facts(3,4) by (simp add: name_type_def)
    moreover have "issues (GetTxOutAssetTypes (vout ?tx)) = 1" "owners (GetTxOutAssetTypes (vout ?tx)) = 1"
        "reissues (GetTxOutAssetTypes (vout ?tx)) = 0" "3 \<le> length (vout ?tx)"
      using k b by (simp_all add: channel_tx_def Let_def)
    moreover have "IsNewAsset (last_script ?tx)" "IsOwnerAsset (owner_script_of ?tx)"
      using k by (simp_all add: channel_tx_shape IsNewAsset_def IsOwnerAsset_def)
    ultimately show ?thesis
      using k(3,4) [of "prefixes A"] by (simp add: VerifyNewAsset_def channel_tx_shape Let_def)
  qed
  then show "VerifyNewAsset A X M u ?tx = None" "\<not> sends_owner A ?tx ''ABC''" by blast+
qed

lemma channel_tx_creation:
  assumes "channel_burn A b"
  shows "check_creation A X M u (channel_tx A b) = Inr no_restricted"
proof (rule issue_outputs_kind [OF ex_channel_facts(1,2) ex_root_facts(5)])
  fix k j
  let ?tx = "channel_tx A b" and ?P = "prefixes A" and ?d = "EncodeDestination (prefixes A) (CKeyID ex_key_hash)"
  assume k: "\<And>P. AssetFromScript P (scriptPubKey (issue_out ex_key_hash ex_channel)) = Some (ex_channel, EncodeDestination P (CKeyID ex_key_hash))"
    "\<And>P. OwnerAssetFromScript P (scriptPubKey (owner_out ex_key_hash ex_channel)) =
      Some (strName ex_channel @ OWNER_TAG, EncodeDestination P (CKeyID ex_key_hash))"
  have "AssetFromTransaction ?P ?tx = Some (ex_channel, ?d)" "OwnerFromTransaction ?P ?tx = Some (strName ex_channel @ OWNER_TAG, ?d)"
    using k by (simp_all add: AssetFromTransaction_def OwnerFromTransaction_def channel_tx_shape)
  moreover from this(2) have "IsNewOwnerTxValid ?P ?tx (strName ex_channel) ?d = None"
    by (simp add: IsNewOwnerTxValid_def ex_channel_facts(3))
  ultimately show ?thesis
    using channel_tx_verify(1) [OF assms] ex_channel_facts(5) by (simp add: check_creation_def channel_tx_shape)
qed

text \<open>
  A message channel under a root needs the owner token of the root by \<^verbatim>\<open>VerifyNewMsgChannelAsset\<close>, but a
  transaction that issues an owner token beside the channel never reaches that check: it counts as an
  ordinary issue, which asks for the parent's token of sub assets only.
\<close>

lemma channel_without_parent_token:
  assumes "channel_burn A b"
  shows "CheckTransaction A X M u fD fM fB (channel_tx A b) = None \<and>
    ex_channel \<in> {a. \<exists>o1 \<in> set (vout (channel_tx A b)). \<exists>addr. AssetFromScript (prefixes A) (scriptPubKey o1) = Some (a, addr)} \<and>
    GetParentName (strName ex_channel) = ''ABC'' \<and> \<not> sends_owner A (channel_tx A b) ''ABC''"
proof -
  let ?tx = "channel_tx A b"
  have l: "length (strName ex_channel) \<le> 48" "length (strName ex_channel @ OWNER_TAG) \<le> 48" using ex_channel_facts(3) by simp_all
  have "length (scriptPubKey (issue_out ex_key_hash ex_channel)) \<le> 10000" "length (scriptPubKey (owner_out ex_key_hash ex_channel)) \<le> 10000"
    using asset_script_length [OF ex_root_facts(5)] length_asset_data(1) [OF l(1)] length_std_string [OF l(2)] l
    by (simp_all add: issue_out_def owner_out_def CNewAsset_ConstructTransaction_def CNewAsset_ConstructOwnerTransaction_def)
  then have "length (SerializeTransaction False ?tx) * WITNESS_SCALE_FACTOR \<le> GetMaxBlockWeight"
    using assms P2PKH_plain(3) [of b]
    by (intro transaction_size_le) (simp_all add: channel_tx_def ex_input_def channel_burn_def)
  moreover have "check_inputs ?tx = None" "CheckXAccountDummyInputs P ?tx = None" for P
    by (simp_all add: channel_tx_def ex_input_def check_inputs_def IsCoinBase_def OutPoint_IsNull_def
        CheckXAccountDummyInputs_def IsXAccountDummyPrevout_def)
  ultimately have "CheckTransaction A X M u fD fM fB ?tx = None"
    unfolding CheckTransaction_accepts
    using channel_tx_outputs [OF assms] channel_tx_creation [OF assms]
    by (auto simp: check_start_def map_keys_def channel_tx_def)
  moreover have "\<exists>addr. AssetFromScript (prefixes A) (scriptPubKey (issue_out ex_key_hash ex_channel)) = Some (ex_channel, addr)"
    using issue_out_kind(2) [OF ex_root_facts(5) ex_channel_facts(1) l(1)] by blast
  ultimately show ?thesis
    using channel_tx_verify(2) [OF assms] ex_channel_facts(3,6) by (auto simp: channel_tx_def)
qed

end
