(* ===== verification/XC_BlockEx.thy ===== *)
theory XC_BlockEx
  imports XC_Block XC_RootIssue
begin

text \<open>
  A block with a coinbase and one spend on a database with one coin, through which the theorems on blocks are
  seen to apply. Transaction ids stay symbolic: the spent coin and the new one differ in their index.
\<close>

definition ex_prev :: COutPoint where "ex_prev = \<lparr>op_hash = replicate 32 1, op_n = 7\<rparr>"

definition ex_coin :: Coin where
  "ex_coin = \<lparr>coin_out = \<lparr>nValue = 30, scriptPubKey = [0x51]\<rparr>, fCoinBase = False, coin_height = 1\<rparr>"

definition ex_view :: "CCoinsViewDB CCoinsViewCache CCoinsViewCache" where
  "ex_view = \<lparr>base = \<lparr>base = \<lparr>db_coins = [(ex_prev, ex_coin)], db_best = replicate 32 2, db_heads = []\<rparr>,
     hashBlock = replicate 32 2, cacheCoins = []\<rparr>, hashBlock = replicate 32 2, cacheCoins = []\<rparr>"

definition ex_coinbase :: CTransaction where
  "ex_coinbase = \<lparr>vin = [\<lparr>prevout = \<lparr>op_hash = replicate 32 0, op_n = 0xffffffff\<rparr>, scriptSig = [1, 2], nSequence = 0, scriptWitness = []\<rparr>],
     vout = [\<lparr>nValue = 5, scriptPubKey = [OP_RETURN]\<rparr>], nVersion = 1, nLockTime = 0\<rparr>"

definition ex_spend_tx :: CTransaction where
  "ex_spend_tx = \<lparr>vin = [\<lparr>prevout = ex_prev, scriptSig = [], nSequence = 0, scriptWitness = []\<rparr>],
     vout = [\<lparr>nValue = 25, scriptPubKey = [0x51]\<rparr>], nVersion = 1, nLockTime = 0\<rparr>"

definition ex_two_txs :: CBlock where
  "ex_two_txs = \<lparr>b_nVersion = 1, hashPrevBlock = replicate 32 2, hashMerkleRoot = replicate 32 0, nTime = 0, nBits = 0, nNonce = 0,
     b_nHeight = 2, nNonce64 = 0, mix_hash = replicate 32 0, vtx = [ex_coinbase, ex_spend_tx]\<rparr>"

lemma ex_unspendable: "IsUnspendable [OP_RETURN]" "\<not> IsUnspendable [0x51]"
  by (simp_all add: IsUnspendable_def GetAssetAmountFromScript_def IsAssetScript_def)

lemma ex_txs:
  "vout ex_coinbase = [\<lparr>nValue = 5, scriptPubKey = [OP_RETURN]\<rparr>]" "IsCoinBase ex_coinbase"
  "vin ex_spend_tx = [\<lparr>prevout = ex_prev, scriptSig = [], nSequence = 0, scriptWitness = []\<rparr>]"
  "vout ex_spend_tx = [\<lparr>nValue = 25, scriptPubKey = [0x51]\<rparr>]" "\<not> IsCoinBase ex_spend_tx" "vtx ex_two_txs = [ex_coinbase, ex_spend_tx]"
  "\<not> IsXAccountDummyPrevout ex_prev" "\<not> IsXAccountDummyInput P ex_spend_tx 0" "out_point t 0 \<noteq> ex_prev"
  by (simp_all add: ex_coinbase_def ex_spend_tx_def ex_prev_def ex_two_txs_def IsCoinBase_def OutPoint_IsNull_def
      IsXAccountDummyPrevout_def IsXAccountDummyInput_def out_point_def blob_IsNull_def list_all_iff)

lemma plain_script:
  "IsAssetScript [op] = None" "\<not> IsNullAssetTxDataScript [op]" "\<not> IsNullGlobalRestrictionAssetTxDataScript [op]"
  "\<not> IsNullAssetVerifierTxDataScript [op]" "\<not> IsNullAsset [op]"
  by (simp_all add: IsAssetScript_def IsNullAssetTxDataScript_def IsNullGlobalRestrictionAssetTxDataScript_def
      IsNullAssetVerifierTxDataScript_def IsNullAsset_def)

lemma find_one: "Find [op] OP_RVN_ASSET = 0" if "op = 0x51 \<or> op = OP_RETURN"
  using that by (auto simp: Find_def Find_loop.simps [of _ "[_]"] Find_loop.simps [of _ "[]"] GetOp2_def Let_def)

lemma plain_accepted:
  assumes "vout tx = [\<lparr>nValue = v, scriptPubKey = [op]\<rparr>]" "MoneyRange v" "op = 0x51 \<or> op = OP_RETURN"
    and "vin tx \<noteq> []" "length (SerializeTransaction False tx) * WITNESS_SCALE_FACTOR \<le> GetMaxBlockWeight"
    and "distinct (map prevout (vin tx))" "check_inputs tx = None" "CheckXAccountDummyInputs (prefixes A) tx = None"
  shows "CheckTransaction A X M u fD fM fB tx = None"
proof -
  have "check_outputs A fM fB (vout tx) check_start = Inr (check_start\<lparr>nValueOut := v\<rparr>)"
    using assms(1,2)
    by (simp add: check_output_def check_null_asset_def check_asset_output_def plain_script Let_def check_start_def MoneyRange_def)
  moreover have "check_creation A X M u tx = Inr no_restricted"
    using assms(1) find_one [OF assms(3)]
    by (simp add: check_creation_def Let_def Tx_IsNewAsset_def Tx_IsReissueAsset_def IsNewUniqueAsset_def IsNewMsgChannelAsset_def
        IsNewQualifierAsset_def IsNewRestrictedAsset_def last_script_def IsNewAsset_def IsReissueAsset_def plain_script
        plain_output_error_def CheckIssueDataTx_def)
  ultimately show ?thesis
    using assms(1,4-8) by (simp add: CheckTransaction_accepts check_start_def map_keys_def)
qed

lemma ex_sizes:
  "length (SerializeTransaction False ex_coinbase) \<le> 100" "length (SerializeTransaction False ex_spend_tx) \<le> 100"
  "length (Serialize_CBlock 0 False ex_two_txs) \<le> 400"
proof -
  have ser: "length (ser_writedata32 w) = 4" "length (Serialize_int64 n) = 8" "length (ser_writedata64 w64) = 8" for w n w64
    by (simp_all add: ser_writedata32_def ser_writedata64_def le_bytes_def length_asset_ints)
  note d = SerializeTransaction_def Serialize_vector_def ser Serialize_CTxIn_def Serialize_CTxOut_def Serialize_COutPoint_def
    Serialize_bytes_def length_WriteCompactSize GetSizeOfCompactSize_def
  show a: "length (SerializeTransaction False ex_coinbase) \<le> 100" "length (SerializeTransaction False ex_spend_tx) \<le> 100"
    by (simp_all add: d ex_coinbase_def ex_spend_tx_def ex_prev_def)
  have "length (Serialize_CBlockHeader 0 ex_two_txs) \<le> 150"
    by (simp add: Serialize_CBlockHeader_def ser ex_two_txs_def)
  then show "length (Serialize_CBlock 0 False ex_two_txs) \<le> 400"
    using a by (simp add: Serialize_CBlock_def ex_txs Serialize_vector_def length_WriteCompactSize GetSizeOfCompactSize_def)
qed

lemma ex_checked: "check_block_txs main_asset_params X M u 0 False ex_two_txs = None"
proof -
  have "CheckTransaction main_asset_params X M u True False True ex_coinbase = None"
    by (rule plain_accepted [OF ex_txs(1)]) (use ex_sizes(1) in \<open>simp_all add: MoneyRange_def ex_coinbase_def check_inputs_def
      IsCoinBase_def CheckXAccountDummyInputs_def IsXAccountDummyPrevout_def OutPoint_IsNull_def plain_script GetMaxBlockWeight_def\<close>)
  moreover have "CheckTransaction main_asset_params X M u True False True ex_spend_tx = None"
    by (rule plain_accepted [OF ex_txs(4)]) (use ex_sizes(2) in \<open>simp_all add: MoneyRange_def ex_spend_tx_def check_inputs_def ex_prev_def
      IsCoinBase_def CheckXAccountDummyInputs_def IsXAccountDummyPrevout_def OutPoint_IsNull_def plain_script GetMaxBlockWeight_def\<close>)
  moreover have "GetLegacySigOpCount ex_coinbase = 0" "GetLegacySigOpCount ex_spend_tx = 0"
    by code_simp+
  ultimately show ?thesis using ex_sizes(3) ex_txs(2,5) by (simp add: check_block_txs_def ex_txs(6) GetMaxBlockWeight_def)
qed

lemma ex_view_ok: "view_ok ex_view" "coins_wf (view_coins ex_view)"
  by (auto simp: cache_ok_def ex_view_def db_ok_def ex_coin_def IsSpent_def coins_wf_def cache_utxo_def db_utxo_def coin_ok_def
      ex_unspendable split: if_splits)

lemma ex_fresh: "block_fresh 2 (vtx ex_two_txs) (view_coins ex_view)"
  using ex_txs(9) by (auto simp: ex_txs tx_fresh_def tx_spends_def connect_spec_def tx_created_def ex_unspendable
      ex_view_def cache_utxo_def db_utxo_def restrict_map_def)

lemma ex_connect: "\<exists>us c'. connect_coins view_get P 1 2 (replicate 32 3) ex_two_txs ex_view = (Accept us, c')"
proof -
  have u: "UpdateCoins view_get ex_coinbase 2 ex_view = Some ([], ex_view)"
    by (simp add: UpdateCoins_def ex_txs AddCoins_def AddCoin_def IsSpent_def ex_unspendable)
  let ?e = "\<lparr>entry_coin = ex_coin, DIRTY = False, FRESH = False\<rparr>"
  obtain v1 where f: "FetchCoin view_get ex_view ex_prev = (Some ?e, v1)" "cacheCoins v1 = [(ex_prev, ?e)]"
    by (simp add: FetchCoin_def GetCoin_def db_GetCoin_def ex_view_def Let_def ex_coin_def IsSpent_def)
  have g: "FetchCoin view_get v1 ex_prev = (Some ?e, v1)" using f(2) by (simp add: FetchCoin_def)
  have ck: "CheckTxInputs view_get P 2 ex_spend_tx ex_view = (Accept 5, v1)"
    using f g by (simp add: CheckTxInputs_def HaveInputs_def ex_txs HaveCoin_def AccessCoin_def ex_coin_def IsSpent_def Let_def
        MoneyRange_def fee_of_def GetValueOut_def)
  have "\<exists>w. UpdateCoins view_get ex_spend_tx 2 v1 = Some ([ex_coin], w)"
    using g f(2) ex_txs(9) Coin_empty_spent
    by (simp add: UpdateCoins_def ex_txs SpendCoin_def AddCoins_def AddCoin_def ex_unspendable Let_def update_conv IsSpent_def
        del: Coin_empty_spent)
  then show ?thesis
    using u ck by (auto simp: connect_coins_def ex_txs MoneyRange_def GetValueOut_def GetBlockSubsidy_def Let_def)
qed

theorem block_creates_subsidy_witness:
  "\<exists>us c'. connect_coins view_get (prefixes main_asset_params) 1 2 (replicate 32 3) ex_two_txs ex_view = (Accept us, c') \<and>
    total (view_coins c') \<le> total (view_coins ex_view) + GetBlockSubsidy 2 1"
  using block_creates_subsidy [OF ex_view_ok(1) ex_checked _ ex_fresh] ex_connect by fastforce

theorem block_reaches_disk_witness:
  "\<exists>c' v t. Flush BatchWrite c' = Some v \<and> Flush db_BatchWrite (base v) = Some t \<and>
    db_utxo (base t) = block_spec 2 [ex_coinbase, ex_spend_tx] (view_coins ex_view) \<and> db_best (base t) = replicate 32 3"
proof -
  obtain us c' where "connect_coins view_get (prefixes main_asset_params) 1 2 (replicate 32 3) ex_two_txs ex_view = (Accept us, c')"
    using ex_connect by blast
  moreover have "\<not> blob_IsNull (replicate 32 3)" by (simp add: blob_IsNull_def list_all_iff)
  ultimately show ?thesis using block_reaches_disk [OF ex_view_ok(1) ex_checked _ ex_fresh] unfolding ex_txs(6) by blast
qed

theorem disconnect_restores_witness:
  "\<exists>us c' d'. DisconnectBlock view_get ex_two_txs us 2 (replicate 32 2) c' = Some (DISCONNECT_OK, d') \<and>
    view_coins c' = block_spec 2 [ex_coinbase, ex_spend_tx] (view_coins ex_view) \<and> view_coins d' = view_coins ex_view"
proof -
  obtain us c' where c: "connect_coins view_get (prefixes main_asset_params) 1 2 (replicate 32 3) ex_two_txs ex_view = (Accept us, c')"
    using ex_connect by blast
  have wf: "list_all (tx_wf (prefixes main_asset_params)) (vtx ex_two_txs)" by (rule checked_block [OF ex_checked])
  note s = chain.connect_coins_spec [OF ex_view_ok(1) wf ex_fresh c]
  from disconnect_restores [OF ex_view_ok ex_checked c ex_fresh _ s(1) refl] show ?thesis
    using s(2) unfolding ex_txs(6) by fastforce
qed

end
