(* ===== verification/XC_TransferEx.thy ===== *)
theory XC_TransferEx
  imports XC_Conserve XC_BlockEx
begin

text \<open>A transfer that splits a coin of an asset in two, on which the theorems about transfers are seen to apply.\<close>

definition gold_out :: "CAmount \<Rightarrow> CTxOut" where
  "gold_out q = \<lparr>nValue = 0, scriptPubKey = CAssetTransfer_ConstructTransaction
     \<lparr>t_strName = ''GOLD'', t_nAmount = q * COIN, t_message = [], t_nExpireTime = 0\<rparr> (GetScriptForDestination (CKeyID ex_key_hash))\<rparr>"

definition gold_coin :: Coin where
  "gold_coin = \<lparr>coin_out = gold_out 100, fCoinBase = False, coin_height = 1\<rparr>"

definition gold_view :: "CCoinsViewDB CCoinsViewCache CCoinsViewCache" where
  "gold_view = \<lparr>base = \<lparr>base = \<lparr>db_coins = [(ex_prev, gold_coin)], db_best = replicate 32 2, db_heads = []\<rparr>,
     hashBlock = replicate 32 2, cacheCoins = []\<rparr>, hashBlock = replicate 32 2,
     cacheCoins = [(ex_prev, \<lparr>entry_coin = gold_coin, DIRTY = False, FRESH = False\<rparr>)]\<rparr>"

definition gold_tx :: CTransaction where
  "gold_tx = \<lparr>vin = [\<lparr>prevout = ex_prev, scriptSig = [], nSequence = 0, scriptWitness = []\<rparr>],
     vout = [gold_out 60, gold_out 40], nVersion = 1, nLockTime = 0\<rparr>"

definition gold_cache :: CAssetsCache where
  "gold_cache = CAssetsCache_empty\<lparr>setNewAssetsToAdd :=
     [(''GOLD'', \<lparr>n_asset = ex_asset ''GOLD'' (100 * COIN), n_address = [], n_blockHash = uint256_null, n_blockHeight = 1\<rparr>)]\<rparr>"

definition ex_env :: asset_env where
  "ex_env = \<lparr>ae_params = main_asset_params, ae_X = no_assignments, ae_M = no_mempool, ae_reissued = [],
     ae_V = \<lparr>frozen = \<lambda>n a. False, tagged = \<lambda>n a. False, verifier_of = \<lambda>n. None\<rparr>, ae_messaging = False, ae_now = 0,
     ae_blocktime = 0, ae_mempool = False\<rparr>"

lemma ex_env [simp]: "ae_params ex_env = main_asset_params" "ae_messaging ex_env = False"
  "ae_V ex_env = \<lparr>frozen = \<lambda>n a. False, tagged = \<lambda>n a. False, verifier_of = \<lambda>n. None\<rparr>"
  by (simp_all add: ex_env_def)

lemma gold_name: "IsAssetNameValid ''GOLD'' = (True, Some ROOT)" "\<not> IsAssetNameAnOwner ''GOLD''" "\<not> IsAssetNameAnRestricted ''GOLD''"
  "\<not> IsAssetNameAnMsgChannel ''GOLD''"
  by code_simp+

lemma gold_out_reads:
  assumes "0 < q" "q \<le> 100"
  shows "\<exists>i. IsAssetScript (scriptPubKey (gold_out q)) = Some (TX_TRANSFER_ASSET, False, i)"
    and "TransferAssetFromScript P (scriptPubKey (gold_out q)) =
      Some (\<lparr>t_strName = ''GOLD'', t_nAmount = q * COIN, t_message = [], t_nExpireTime = 0\<rparr>, EncodeDestination P (CKeyID ex_key_hash))"
    and "\<not> IsNullAsset (scriptPubKey (gold_out q))" "length (scriptPubKey (gold_out q)) \<le> 10000"
proof -
  let ?t = "\<lparr>t_strName = ''GOLD'', t_nAmount = q * COIN, t_message = [], t_nExpireTime = 0\<rparr>"
  have ok: "transfer_ok ?t"
    using assms by (simp add: transfer_ok_def int64_range_def name_ok_def)
  note h = ex_root_facts(5)
  have l: "length (Serialize_CAssetTransfer ?t) < 110" using length_asset_data(2) [of ?t] by simp
  have s: "scriptPubKey (gold_out q) = asset_script (GetScriptForDestination (CKeyID ex_key_hash)) CHR ''t'' (Serialize_CAssetTransfer ?t)"
    by (simp add: gold_out_def CAssetTransfer_ConstructTransaction_def)
  have "length (GetScriptForDestination (CKeyID ex_key_hash)) = 25" using h by (simp add: P2PKH_bytes)
  from IsAssetScript_asset_script [OF this l, of "CHR ''t''" TX_TRANSFER_ASSET False]
  show "\<exists>i. IsAssetScript (scriptPubKey (gold_out q)) = Some (TX_TRANSFER_ASSET, False, i)"
    unfolding s by auto
  show "TransferAssetFromScript P (scriptPubKey (gold_out q)) = Some (?t, EncodeDestination P (CKeyID ex_key_hash))"
    using transfer_script [OF h ok] by (simp add: gold_out_def)
  show "\<not> IsNullAsset (scriptPubKey (gold_out q))" "length (scriptPubKey (gold_out q)) \<le> 10000"
    unfolding s using asset_script_not_null [OF h] asset_script_length [OF h l] by simp_all
qed

lemma gold_txs:
  "vin gold_tx = [\<lparr>prevout = ex_prev, scriptSig = [], nSequence = 0, scriptWitness = []\<rparr>]" "vout gold_tx = [gold_out 60, gold_out 40]"
  "\<not> IsCoinBase gold_tx" "\<not> IsXAccountDummyInput P gold_tx 0" "last_script gold_tx = scriptPubKey (gold_out 40)"
  "nValue (gold_out q) = 0"
  using ex_txs(7)
  by (simp_all add: gold_tx_def ex_prev_def IsCoinBase_def OutPoint_IsNull_def IsXAccountDummyInput_def last_script_def gold_out_def)

lemma gold_checked: "CheckTransaction main_asset_params X M u True fM fB gold_tx = None"
proof -
  note r60 = gold_out_reads [of 60] and r40 = gold_out_reads [of 40]
  obtain i j where a: "IsAssetScript (scriptPubKey (gold_out 60)) = Some (TX_TRANSFER_ASSET, False, i)"
    "IsAssetScript (scriptPubKey (gold_out 40)) = Some (TX_TRANSFER_ASSET, False, j)" using r60(1) r40(1) by auto
  have o: "\<exists>ns. check_output A fM fB (check_start\<lparr>transfer_names := ms\<rparr>) (gold_out q) = Inr (check_start\<lparr>transfer_names := ns\<rparr>)"
    if "0 < q" "q \<le> 100" for q A ms
    using gold_out_reads(1,3) [OF that] gold_out_reads(2) [OF that, of "prefixes A"] gold_name
    by (auto simp: check_output_def check_asset_output_def check_null_asset_def IsNullAsset_def Let_def check_start_def
        MoneyRange_def gold_txs)
  obtain ns where "check_outputs main_asset_params fM fB (vout gold_tx) check_start = Inr (check_start\<lparr>transfer_names := ns\<rparr>)"
  proof -
    obtain ms where "check_output main_asset_params fM fB check_start (gold_out 60) = Inr (check_start\<lparr>transfer_names := ms\<rparr>)"
      using o [of 60 main_asset_params "transfer_names check_start"] by auto
    moreover obtain ns where "check_output main_asset_params fM fB (check_start\<lparr>transfer_names := ms\<rparr>) (gold_out 40) =
        Inr (check_start\<lparr>transfer_names := ns\<rparr>)" using o [of 40 main_asset_params ms] by auto
    ultimately show thesis using that by (simp add: gold_txs)
  qed
  moreover have "check_creation main_asset_params X M u gold_tx = Inr no_restricted"
    using a by (simp add: check_creation_def Let_def Tx_IsNewAsset_def Tx_IsReissueAsset_def IsNewUniqueAsset_def IsNewMsgChannelAsset_def
        IsNewQualifierAsset_def IsNewRestrictedAsset_def gold_txs IsNewAsset_def IsReissueAsset_def plain_output_error_def)
  moreover have "length (SerializeTransaction False gold_tx) * WITNESS_SCALE_FACTOR \<le> GetMaxBlockWeight"
    by (rule transaction_size_le) (simp_all add: gold_txs ex_prev_def r60(4) r40(4))
  moreover have "check_inputs gold_tx = None" "CheckXAccountDummyInputs (prefixes main_asset_params) gold_tx = None"
    using ex_txs(7) by (simp_all add: check_inputs_def gold_txs OutPoint_IsNull_def CheckXAccountDummyInputs_def ex_prev_def)
  ultimately show ?thesis by (auto simp: CheckTransaction_accepts check_start_def map_keys_def gold_txs)
qed

lemma gold_view_ok: "view_ok gold_view" "view_coins gold_view = [ex_prev \<mapsto> gold_coin]"
  by (auto simp: cache_ok_def gold_view_def db_ok_def gold_coin_def IsSpent_def gold_txs cache_utxo_def db_utxo_def fun_eq_iff
      changes_ok_def over_def unspent_def split: if_splits)

lemma gold_data: "0 < q \<Longrightarrow> q \<le> 100 \<Longrightarrow> \<exists>d. GetAssetData P (scriptPubKey (gold_out q)) = Some d \<and> e_assetName d = ''GOLD'' \<and>
    e_nAmount d = q * COIN"
  using gold_out_reads(1) [of q] gold_out_reads(2) [of q P] by (auto simp: GetAssetData_def)

lemma gold_fetch: "FetchCoin view_get gold_view ex_prev = (Some \<lparr>entry_coin = gold_coin, DIRTY = False, FRESH = False\<rparr>, gold_view)"
  by (simp add: FetchCoin_def gold_view_def)

lemma gold_accepted: "\<exists>st. CheckTxAssets view_get ex_env gold_cache gold_tx (gold_view, ex_globals) = (Accept st, gold_view, ex_globals)"
proof -
  obtain i j k where a: "IsAssetScript (scriptPubKey (gold_out 60)) = Some (TX_TRANSFER_ASSET, False, i)"
    "IsAssetScript (scriptPubKey (gold_out 40)) = Some (TX_TRANSFER_ASSET, False, j)"
    "IsAssetScript (scriptPubKey (gold_out 100)) = Some (TX_TRANSFER_ASSET, False, k)"
    using gold_out_reads(1) [of 60] gold_out_reads(1) [of 40] gold_out_reads(1) [of 100] by auto
  obtain d where d: "GetAssetData (prefixes main_asset_params) (scriptPubKey (gold_out 100)) = Some d" "e_assetName d = ''GOLD''"
    "e_nAmount d = 100 * COIN" using gold_data [of 100] by auto
  have "\<exists>addrs. asset_inputs view_get ex_env gold_tx [0] [] [] gold_view = (Accept ([(''GOLD'', 100 * COIN)], addrs), gold_view)"
    using gold_fetch d a(3) gold_name
    by (auto simp: gold_txs AccessCoin_def gold_coin_def IsSpent_def Coin_IsAsset_def Let_def add_total_def total_at_def
        MoneyRange_def)
  then obtain addrs where "asset_inputs view_get ex_env gold_tx [0] [] [] gold_view = (Accept ([(''GOLD'', 100 * COIN)], addrs), gold_view)" by blast
  moreover have "HaveInputs view_get (prefixes main_asset_params) gold_tx gold_view = (True, gold_view)"
    using gold_fetch by (simp add: HaveInputs_def gold_txs HaveCoin_def gold_coin_def IsSpent_def)
  moreover have u: "transfer_units_error gold_cache \<lparr>t_strName = ''GOLD'', t_nAmount = q * COIN, t_message = [], t_nExpireTime = 0\<rparr> ex_globals =
      (None, ex_globals)" for q
    by (simp add: transfer_units_error_def gold_name GetAssetMetaDataIfExists_def gold_cache_def CAssetsCache_empty_def ex_globals_def
        ex_asset_def CheckAmountWithUnits_def)
  moreover have "creation_error ex_env gold_cache gold_tx ex_globals = (None, ex_globals)"
    using a by (simp add: creation_error_def Let_def Tx_IsNewAsset_def Tx_IsReissueAsset_def IsNewUniqueAsset_def IsNewMsgChannelAsset_def
        IsNewQualifierAsset_def IsNewRestrictedAsset_def gold_txs IsNewAsset_def IsReissueAsset_def plain_asset_error_def)
  ultimately show ?thesis
    using a u [of 60] u [of 40] gold_out_reads(2,3) [of 60] gold_out_reads(2,3) [of 40]
    by (simp add: CheckTxAssets_def gold_txs transfer_output_def ContextualCheckTransferAsset_def gold_name MoneyRange_def
        add_total_def total_at_def totals_error_def total_error_def collect_message_def Let_def del: asset_inputs.simps)
qed

theorem assets_conserved_witness:
  "let P = prefixes main_asset_params
   in sent P ''GOLD'' gold_tx = coin_amount P ''GOLD'' gold_coin \<and> issued P ''GOLD'' gold_tx = 0 \<and>
     asset_total P ''GOLD'' (connect_spec 2 gold_tx (view_coins gold_view)) \<le> asset_total P ''GOLD'' (view_coins gold_view)"
proof -
  let ?P = "prefixes main_asset_params"
  obtain st where a: "CheckTxAssets view_get ex_env gold_cache gold_tx (gold_view, ex_globals) = (Accept st, gold_view, ex_globals)"
    using gold_accepted by blast
  have ck: "CheckTransaction (ae_params ex_env) no_assignments no_mempool ROOT True False True gold_tx = None"
    using gold_checked by simp
  have "tx_fresh (view_coins gold_view |` (- set (tx_spends gold_tx))) gold_tx"
    using ex_txs(7) by (simp add: tx_fresh_def gold_view_ok(2) tx_spends_def gold_txs)
  moreover have "tx_spends gold_tx = [ex_prev]" using ex_txs(7) gold_txs(3) by (simp add: tx_spends_def gold_txs)
  moreover have "issued ?P ''GOLD'' gold_tx = 0"
    using gold_out_reads(1) [of 60] gold_out_reads(1) [of 40] by (auto simp: issued_def gold_txs is_transfer_def)
  ultimately show ?thesis
    using assets_conserved [OF gold_view_ok(1) ck gold_txs(3) a, of "''GOLD''" 2] by (simp add: gold_view_ok(2))
qed

end
