(* ===== verification/XC_SupplyEx.thy ===== *)
theory XC_SupplyEx
  imports XC_Supply XC_TransferEx
begin

text \<open>The gold transfer in a block after a coinbase, on which the bound of the supply is seen to apply.\<close>

definition gold_block :: CBlock where
  "gold_block = ex_two_txs\<lparr>vtx := [ex_coinbase, gold_tx]\<rparr>"

definition gold_state :: "CCoinsViewDB CCoinsViewCache conn_state" where
  "gold_state = \<lparr>cs_view = gold_view, cs_cache = gold_cache, cs_globals = ex_globals, cs_X = no_assignments\<rparr>"

lemma gold_records:
  "asset_view gold_cache ex_globals = [''GOLD'' \<mapsto> ex_asset ''GOLD'' (100 * COIN)]" "conn_ok gold_cache ex_globals"
proof -
  have r: "rows_ok ex_globals" by (simp add: rows_ok_def ex_globals_def)
  show "asset_view gold_cache ex_globals = [''GOLD'' \<mapsto> ex_asset ''GOLD'' (100 * COIN)]"
    unfolding fun_eq_iff asset_view_layers [OF r] by (auto simp: gold_cache_def ex_globals_def CAssetsCache_empty_def rows_def)
  show "conn_ok gold_cache ex_globals"
    using r by (simp add: conn_ok_def not_removed_def not_reissued_def gold_cache_def ex_globals_def CAssetsCache_empty_def)
qed

lemma gold_supply: "supply_ok P (view_coins gold_view) (asset_view gold_cache ex_globals)"
proof -
  have "asset_total P n (view_coins gold_view) = (if n = ''GOLD'' then 100 * COIN else 0)" for n
    using gold_data [of 100 P]
    by (auto simp: asset_total_def total_of_def gold_view_ok(2) coin_amount_def gold_coin_def asset_amount_def)
  then show ?thesis
    by (auto simp: supply_ok_def gold_records(1) records_ok_def supply_limit_def recorded_def ex_asset_def)
qed

lemma gold_size: "length (Serialize_CBlock 0 False gold_block) * WITNESS_SCALE_FACTOR \<le> GetMaxBlockWeight"
proof -
  have ser: "length (ser_writedata32 w) = 4" "length (Serialize_int64 n) = 8" "length (ser_writedata64 w64) = 8" for w n w64
    by (simp_all add: ser_writedata32_def ser_writedata64_def le_bytes_def length_asset_ints)
  have o: "length (Serialize_CTxOut (gold_out q)) \<le> 10017" if "0 < q" "q \<le> 100" for q
    using gold_out_reads(4) [OF that] compact_size_le [of "length (scriptPubKey (gold_out q))"]
    by (simp add: Serialize_CTxOut_def ser Serialize_bytes_def)
  have "length (SerializeTransaction False gold_tx) \<le> 20200"
    using o [of 60] o [of 40]
    by (simp add: gold_txs SerializeTransaction_def Serialize_vector_def ser Serialize_CTxIn_def Serialize_COutPoint_def
        Serialize_bytes_def length_WriteCompactSize GetSizeOfCompactSize_def ex_prev_def)
  moreover have "length (Serialize_CBlockHeader 0 gold_block) \<le> 150"
    by (simp add: Serialize_CBlockHeader_def ser ex_two_txs_def gold_block_def)
  ultimately show ?thesis
    using ex_sizes(1) by (simp add: Serialize_CBlock_def gold_block_def Serialize_vector_def length_WriteCompactSize GetSizeOfCompactSize_def
        GetMaxBlockWeight_def)
qed

lemma gold_sigops: "GetLegacySigOpCount ex_coinbase = 0" "GetLegacySigOpCount gold_tx \<le> 2"
  by code_simp+

lemma gold_block_checked: "check_block_txs main_asset_params X M u 0 False gold_block = None"
proof -
  have "CheckTransaction main_asset_params X M u True False True ex_coinbase = None"
    using ex_checked [of X M u] by (auto simp: check_block_txs_def ex_txs(6) split: if_splits option.splits)
  then show ?thesis
    using gold_checked gold_txs(3) ex_txs(2) gold_sigops gold_size by (simp add: check_block_txs_def gold_block_def GetMaxBlockWeight_def)
qed

lemma gold_fresh: "block_fresh 2 (vtx gold_block) (view_coins gold_view)"
  using ex_txs(7) by (simp add: gold_block_def tx_fresh_def gold_view_ok(2) tx_spends_def connect_spec_def tx_created_def ex_txs gold_txs
      ex_unspendable)

lemma ex_address: "\<exists>str. EncodeDestination (prefixes main_asset_params) (CKeyID ex_key_hash) = Some str \<and> str \<noteq> []"
proof -
  have p: "prefixes main_asset_params = main_prefixes" "prefixes_ok main_prefixes"
    by (simp_all add: main_asset_params_def prefixes_ok_def main_prefixes_def)
  have "dest_ok (CKeyID ex_key_hash)" using ex_root_facts(5) by (simp add: dest_ok_def)
  moreover have "\<not> IsValidDestinationString main_prefixes []" by code_simp
  ultimately show ?thesis using address_text [OF p(2)] p(1) by metis
qed

lemma gold_spend: "\<exists>c. TrySpendCoin (prefixes main_asset_params) G (gold_out 100) c0 = (True, c)"
proof -
  obtain i where i: "IsAssetScript (scriptPubKey (gold_out 100)) = Some (TX_TRANSFER_ASSET, False, i)" using gold_out_reads(1) [of 100] by auto
  obtain str where "EncodeDestination (prefixes main_asset_params) (CKeyID ex_key_hash) = Some str" "str \<noteq> []" using ex_address by blast
  with i gold_out_reads(2) [of 100] show ?thesis
    by (simp add: TrySpendCoin_def asset_in_script_def the_address_def Let_def split: prod.split bool.split)
qed

lemma coinbase_connects:
  "UpdateCoins view_get ex_coinbase 2 gold_view = Some ([], gold_view)"
  "update_assets P u h hash ex_coinbase us (c, G, X) = Some ([], c, G, X)"
proof -
  show "UpdateCoins view_get ex_coinbase 2 gold_view = Some ([], gold_view)"
    by (simp add: UpdateCoins_def ex_txs AddCoins_def AddCoin_def IsSpent_def ex_unspendable)
  show "update_assets P u h hash ex_coinbase us (c, G, X) = Some ([], c, G, X)"
    using find_one [of OP_RETURN]
    by (simp add: update_assets_def ex_txs add_tx_assets_def Let_def Tx_IsNewAsset_def Tx_IsReissueAsset_def IsNewUniqueAsset_def
        IsNewMsgChannelAsset_def IsNewQualifierAsset_def IsNewRestrictedAsset_def last_script_def IsNewAsset_def IsReissueAsset_def
        plain_script CheckIssueDataTx_def GetAssetData_def)
qed

lemma gold_tx_connects:
  "\<exists>ms. check_tx view_get ex_env 2 0 gold_tx gold_state = (Accept (0, ms), gold_state)"
  "\<exists>v. UpdateCoins view_get gold_tx 2 gold_view = Some ([gold_coin], v)"
  "\<exists>r. update_assets (prefixes main_asset_params) u 2 hash gold_tx [gold_coin] (c, G, X) = Some r"
proof -
  obtain st where a: "CheckTxAssets view_get ex_env gold_cache gold_tx (gold_view, ex_globals) = (Accept st, gold_view, ex_globals)"
    using gold_accepted by blast
  have "ex_env\<lparr>ae_X := no_assignments\<rparr> = ex_env" by (simp add: ex_env_def)
  moreover have "CheckTxInputs view_get (prefixes main_asset_params) 2 gold_tx gold_view = (Accept 0, gold_view)"
    using gold_fetch by (simp add: CheckTxInputs_def HaveInputs_def gold_txs HaveCoin_def AccessCoin_def gold_coin_def IsSpent_def Let_def
        MoneyRange_def fee_of_def GetValueOut_def)
  ultimately show "\<exists>ms. check_tx view_get ex_env 2 0 gold_tx gold_state = (Accept (0, ms), gold_state)"
    using a gold_txs(3) by (simp add: check_tx_def gold_state_def MoneyRange_def)
  have "tx_wf (prefixes main_asset_params) gold_tx" using checked_tx_wf [OF gold_checked] .
  moreover have s: "tx_spends gold_tx = [ex_prev]" using ex_txs(7) gold_txs(3) by (simp add: tx_spends_def gold_txs)
  ultimately have "tx_fits (view_coins gold_view) gold_tx"
    by (simp add: tx_fits_def tx_wf_def gold_view_ok(2) tx_fresh_def)
  from chain.update_coins_spec [OF gold_view_ok(1) this, of 2]
  show "\<exists>v. UpdateCoins view_get gold_tx 2 gold_view = Some ([gold_coin], v)"
    using gold_txs(3) ex_txs(7) by (auto simp: undo_coins_def gold_txs gold_view_ok(2))
  obtain c1 where "TrySpendCoin (prefixes main_asset_params) G (gold_out 100) c = (True, c1)" using gold_spend by blast
  then show "\<exists>r. update_assets (prefixes main_asset_params) u 2 hash gold_tx [gold_coin] (c, G, X) = Some r"
    using gold_txs(3) ex_txs(7) by (simp add: update_assets_def gold_txs gold_coin_def split: prod.split)
qed

lemma gold_connects: "\<exists>r s. connect_block_txs view_get ex_env u 2 hash True (vtx gold_block) 0 gold_state = (Accept r, s)"
proof -
  obtain ms v where g: "check_tx view_get ex_env 2 0 gold_tx gold_state = (Accept (0, ms), gold_state)"
    "UpdateCoins view_get gold_tx 2 gold_view = Some ([gold_coin], v)" using gold_tx_connects(1,2) by blast
  obtain r where "update_assets (prefixes main_asset_params) u 2 hash gold_tx [gold_coin] (gold_cache, ex_globals, no_assignments) = Some r"
    using gold_tx_connects(3) by blast
  moreover have "check_tx view_get ex_env 2 0 ex_coinbase gold_state = (Accept (0, []), gold_state)"
    using ex_txs(2) by (simp add: check_tx_def)
  ultimately show ?thesis
    using g by (simp add: gold_block_def coinbase_connects gold_state_def split: prod.split)
qed

theorem asset_supply_bounded_witness:
  "\<exists>r s. connect_block_txs view_get ex_env 0 2 (replicate 32 3) True (vtx gold_block) 0 gold_state = (Accept r, s) \<and>
    supply_ok (prefixes main_asset_params) (view_coins (cs_view s)) (asset_view (cs_cache s) (cs_globals s)) \<and>
    asset_total (prefixes main_asset_params) ''GOLD'' (view_coins (cs_view s)) \<le> MAX_MONEY"
proof -
  obtain r s where c: "connect_block_txs view_get ex_env 0 2 (replicate 32 3) True (vtx gold_block) 0 gold_state = (Accept r, s)"
    using gold_connects by blast
  have "check_block_txs (ae_params ex_env) no_assignments no_mempool ROOT 0 False gold_block = None" using gold_block_checked by simp
  from asset_supply_bounded [OF this c, of "''GOLD''"]
  have "supply_ok (prefixes main_asset_params) (view_coins (cs_view s)) (asset_view (cs_cache s) (cs_globals s)) \<and>
      asset_total (prefixes main_asset_params) ''GOLD'' (view_coins (cs_view s)) \<le> MAX_MONEY"
    using gold_view_ok(1) gold_records(2) gold_fresh gold_supply by (simp add: gold_state_def)
  with c show ?thesis by blast
qed

end
