(* ===== verification/XC_Accounts.thy ===== *)
theory XC_Accounts
  imports XC_Supply XC_XAssign
begin

text \<open>
  The accounts through a block: connecting a checked block assigns no root that another account has, because a
  root that an account has is on record and an asset on record is not issued again.
\<close>

definition accounts_ok :: "XAssignments \<Rightarrow> asset_records \<Rightarrow> bool" where
  "accounts_ok X V \<longleftrightarrow> xassign_ok X \<and> (\<forall>n. map_of (mapAssetToXAccount X) n \<noteq> None \<longrightarrow> V n \<noteq> None)"

lemma records_grow:
  assumes "V n \<noteq> None"
  shows "tx_records P tx V n \<noteq> None"
proof -
  have f: "fold (\<lambda>r V. V(r_strName r \<mapsto> reissued r (the (V (r_strName r))))) rs W n \<noteq> None" if "W n \<noteq> None" for rs and W :: asset_records
    using that by (induction rs arbitrary: W) simp_all
  have "(V ++ m) n \<noteq> None" for m using assms by (cases "m n") (simp_all add: map_add_def)
  then show ?thesis unfolding tx_records_def records_after_def by (rule f)
qed

lemma accounts_after_ok:
  assumes "accounts_ok X V" "check_creation A Y M t tx = Inr k" "tx_records_fit (prefixes A) tx V"
  shows "accounts_ok (accounts_after (prefixes A) tx X) (tx_records (prefixes A) tx V)"
proof (cases "Tx_IsNewAsset (prefixes A) tx \<and> ParseXAccountAssignment tx \<noteq> None")
  case True
  then obtain xid where new: "Tx_IsNewAsset (prefixes A) tx" and xid: "ParseXAccountAssignment tx = Some xid" by blast
  obtain a addr where a: "AssetFromScript (prefixes A) (last_script tx) = Some (a, addr)"
      "creates (prefixes A) tx [a] [strName a @ OWNER_TAG] []"
    using new_shape [OF new assms(2)] .
  have fit: "V (strName a) = None" using assms(3) a(2) by (simp add: creates_fit records_fit_def)
  have e: "accounts_after (prefixes A) tx X = snd (AddXAccountAssignment xid (strName a) X)"
    using new xid a(1) by (simp add: accounts_after_def read_or_def AssetFromTransaction_def)
  have free: "map_of (mapAssetToXAccount X) (strName a) = None" using assms(1) fit by (auto simp: accounts_ok_def)
  then have "xassign_ok (accounts_after (prefixes A) tx X)" using add_ok assms(1) by (simp add: e accounts_ok_def)
  moreover have "tx_records (prefixes A) tx V (strName a) \<noteq> None"
    using a(2) by (simp add: tx_records_def records_after_def creates_def)
  moreover have "map_of (mapAssetToXAccount X) n \<noteq> None \<or> n = strName a"
    if "map_of (mapAssetToXAccount (accounts_after (prefixes A) tx X)) n \<noteq> None" for n
    using that by (auto simp: e AddXAccountAssignment_def map_of_put split: option.splits if_splits)
  ultimately show ?thesis
    using assms(1) records_grow [of V _ "prefixes A" tx] unfolding accounts_ok_def by (intro conjI allI impI) (blast, metis)
next
  case False
  then have "accounts_after (prefixes A) tx X = X" by (auto simp: accounts_after_def)
  with assms(1) records_grow [of V _ "prefixes A" tx] show ?thesis unfolding accounts_ok_def by simp
qed

theorem connected_accounts_ok:
  "connect_block_txs view_get E u h hash first txs fees s = (Accept r, s') \<Longrightarrow>
   list_all (\<lambda>tx. CheckTransaction (ae_params E) X M t True fM fB tx = None) txs \<Longrightarrow>
   view_ok (cs_view s) \<Longrightarrow> conn_ok (cs_cache s) (cs_globals s) \<Longrightarrow> block_fresh h txs (view_coins (cs_view s)) \<Longrightarrow>
   accounts_ok (cs_X s) (asset_view (cs_cache s) (cs_globals s)) \<Longrightarrow>
   accounts_ok (cs_X s') (asset_view (cs_cache s') (cs_globals s'))"
proof (induction txs arbitrary: first fees s r)
  case (Cons tx txs)
  let ?P = "prefixes (ae_params E)" and ?U = "view_coins (cs_view s)" and ?V = "asset_view (cs_cache s) (cs_globals s)"
  have ck: "CheckTransaction (ae_params E) X M t True fM fB tx = None" and fr: "tx_fresh (?U |` (- set (tx_spends tx))) tx"
    using Cons.prems(2,5) by simp_all
  obtain v c2 G2 fees2 r2 where
    n: "connect_block_txs view_get E u h hash False txs fees2
        \<lparr>cs_view = v, cs_cache = c2, cs_globals = G2, cs_X = accounts_after ?P tx (cs_X s)\<rparr> = (Accept r2, s')"
    and v: "view_ok v" "view_coins v = connect_spec h tx ?U" "conn_ok c2 G2"
    and V: "asset_view c2 G2 = tx_records ?P tx ?V" "tx_records_fit ?P tx ?V"
    and "\<And>n. asset_total ?P n (connect_spec h tx ?U) \<le> asset_total ?P n ?U + issued ?P n tx"
    by (rule connect_step [OF Cons.prems(1) ck Cons.prems(3,4) fr], rule that)
  obtain j where j: "check_creation (ae_params E) X M t tx = Inr j" "vout tx \<noteq> []" using checked_creation [OF ck] .
  have "accounts_ok (accounts_after ?P tx (cs_X s)) (asset_view c2 G2)"
    unfolding V(1) by (rule accounts_after_ok [OF Cons.prems(6) j(1) V(2)])
  moreover have "block_fresh h txs (view_coins v)" using Cons.prems(5) v(2) by simp
  ultimately show ?case using Cons.IH [OF n] Cons.prems(2) v(1,3) by simp
qed simp

end
