(* ===== verification/Spec2Isabelle.thy ===== *)
theory Spec2Isabelle
  imports XC_Coinbase XC_Spend XC_SupplyEx XC_Accounts
begin

text \<open>
  X Coin is a chain of the Bitcoin and Ravencoin family in which a lottery among registered nodes, and not a
  search for proofs of work, decides who is paid for a block, and in which root assets belong to X accounts. This
  development models the parts of the node that decide what is valid and what a block does, from the byte level up,
  and proves what makes them correct. All paths are relative to \<^verbatim>\<open>src/src\<close> of the repository.

  \<^bold>\<open>The parts of the program and how they meet.\<close> A node registers with signed heartbeats (\<^verbatim>\<open>lottery.cpp\<close>, \<^verbatim>\<open>Registry\<close>,
  \<^verbatim>\<open>Allowlist\<close>, and the message \<^verbatim>\<open>xhb\<close> of \<^verbatim>\<open>net_processing.cpp\<close>). Once a minute the nodes of the slot that carry the
  seed's stamp enter a draw. The producer writes the winners, their shares and a commitment to the set of nodes into
  the coinbase, and every node draws again and compares (\<^verbatim>\<open>CheckLotteryCoinbase\<close>). The transactions of a block are
  checked by themselves (\<^verbatim>\<open>CheckTransaction\<close>), against the unspent coins (\<^verbatim>\<open>CheckTxInputs\<close>, scripts), and against what is
  known about assets (\<^verbatim>\<open>CheckTxAssets\<close>); then \<^verbatim>\<open>UpdateCoins\<close> applies them to two stacks of caches, one of coins and one
  of assets, that are flushed to a database, and \<^verbatim>\<open>DisconnectBlock\<close> takes them back.

  \<^bold>\<open>Foundations.\<close> \<open>XC_Prelude\<close> has words, byte strings, \<^verbatim>\<open>crypto/common.h\<close> and the named collections of facts;
  \<open>XC_Map\<close> has \<^verbatim>\<open>std::map\<close> as a sorted association list with the locale \<open>std_map\<close>; \<open>XC_Regex\<close> has \<^verbatim>\<open>std::regex_match\<close> by
  derivatives with its language. \<open>XC_Hasher\<close> states in the locale \<open>stream_hash\<close> what a block hasher with a buffer owes its
  callers; \<open>XC_SHA256\<close>, \<open>XC_RIPEMD160\<close> and \<open>XC_SHA1\<close> interpret it for the classes of \<^verbatim>\<open>crypto/\<close> and show that the unrolled
  rounds compute the functions of the standards; \<open>XC_Vectors\<close> evaluates some digests. \<open>XC_Codec\<close> and \<open>XC_Serialize\<close> model
  \<^verbatim>\<open>serialize.h\<close>, \<^verbatim>\<open>streams.h\<close> and \<^verbatim>\<open>primitives/\<close> with the locales \<open>codec\<close> and \<open>canonical_codec\<close>: round trips, reading as the
  inverse of writing, and that ids identify transactions up to hash collisions.

  \<^bold>\<open>Scripts and keys.\<close> \<open>XC_Script\<close> (\<^verbatim>\<open>script/script.h\<close>: numbers, pushes, the reader), \<open>XC_Keys\<close> and \<open>XC_Der\<close> (\<^verbatim>\<open>key.cpp\<close>,
  \<^verbatim>\<open>pubkey.cpp\<close>, signature encodings), \<open>XC_Standard\<close> (\<^verbatim>\<open>script/standard.cpp\<close>), \<open>XC_Base58\<close> (\<^verbatim>\<open>base58.cpp\<close>), \<open>XC_Tx\<close>
  (transactions, lock times), \<open>XC_Sighash\<close> (the message a signature signs, refined to the specification), \<open>XC_Interp\<close> and
  \<open>XC_InterpLaws\<close> (\<^verbatim>\<open>EvalScript\<close>, one definition per opcode group, its limits as an invariant of every reachable state),
  \<open>XC_Verify\<close> (\<^verbatim>\<open>VerifyScript\<close>; more flags only refuse more) and \<open>XC_Spend\<close> (what exactly unlocks an output, and that the
  lock-time opcodes enforce the rules of the transaction). The curve library is the record \<open>secp256k1\<close>, an argument, with
  what its header documents as \<open>secp_ok\<close>; instances in the examples show the hypotheses can hold.

  \<^bold>\<open>The lottery.\<close> \<open>XC_Handle\<close>, \<open>XC_Slot\<close> (slots, block times, subsidy), \<open>XC_Draw\<close> (the draw is the functional shuffle and
  favours no list of winners; the shares add up), \<open>XC_Allowlist\<close>, \<open>XC_Registry\<close> (a step relation over the public methods
  and its invariants by rule induction), \<open>XC_Attest\<close> (stamps, signed heartbeats and commitments), \<open>XC_Node\<close> (the node with
  the message handler) and \<open>XC_Coinbase\<close> (the check accepts exactly the coinbases that pay the draw of the committed
  set, and accepts what a producer writes).

  \<^bold>\<open>Assets and accounts.\<close> \<open>XC_AssetName\<close> and \<open>XC_RootName\<close> (names and their kinds), \<open>XC_AssetScript\<close> (the records and the
  scripts that carry them), \<open>XC_BoolEE\<close> (verifier strings), \<open>XC_XAccount\<close> and \<open>XC_XAssign\<close> (identity claims; an account
  keeps its root over any assignments, removals and restarts), \<open>XC_AssetTx\<close> and \<open>XC_CheckTx\<close>
  (\<^verbatim>\<open>CheckTransaction\<close>: nothing is issued without authority, and the outputs are well formed), \<open>XC_RootIssue\<close> (transactions that issue roots).
  \<open>XC_AssetsCache\<close> holds \<^verbatim>\<open>CAssetsCache\<close>, the least recently used cache and the rows of \<^verbatim>\<open>assets/assetdb.cpp\<close>;
  \<open>XC_AssetsView\<close> and \<open>XC_AssetsOps\<close> show that issues, reissues, their undoing, flushes and dumps refine updates of one map
  from names to assets as long as they keep a contract, which a reorganisation can leave. \<open>XC_TxAssets\<close> has \<^verbatim>\<open>CheckTxAssets\<close> with the contextual checks, and \<open>XC_Conserve\<close> shows that an
  accepted transaction sends exactly what it spends of every asset.

  \<^bold>\<open>Coins and blocks.\<close> \<open>XC_Coins\<close> has the caches of unspent coins and their database; the locale \<open>coins_view\<close> is the
  contract of \<^verbatim>\<open>CCoinsView\<close>, a cache over a view is shown to be a view, and the contract is interpreted on the database,
  on the cache over it and on the cache of a block. \<open>XC_Connect\<close> and \<open>XC_Block\<close> model the coin part of \<^verbatim>\<open>ConnectBlock\<close> and
  \<^verbatim>\<open>DisconnectBlock\<close>: a block makes at most its subsidy, disconnecting gives the old coins back, and flushing brings
  exactly the new coins to disk. \<open>XC_ConnectAssets\<close> adds the asset part, and \<open>XC_Supply\<close> shows for the whole loop over the
  transactions that the unspent amount of an asset stays within the amount on its record and an owner token stays one; \<open>XC_Accounts\<close> shows for the same loop that no root is assigned to two accounts.
  \<open>XC_BlockEx\<close>, \<open>XC_TransferEx\<close> and \<open>XC_SupplyEx\<close> hold the concrete blocks and transactions on which the theorems are
  applied.

  \<^bold>\<open>Conventions.\<close> Amounts, times and heights are integers where the code bounds them, with the bounds proved;
  32-bit and 64-bit fields are words. An exception, a failed assertion and a rejection are values: \<open>option\<close>, a sum with
  the error, or \<open>outcome\<close> with \<open>Accept\<close>, \<open>Refuse\<close> and \<open>Abort\<close>. Loops are structural recursion or have a termination
  proof; \<^verbatim>\<open>EvalScript\<close> consumes its script, and the three nested calls of \<^verbatim>\<open>VerifyScript\<close> are bounded by the program.
  Only \<^verbatim>\<open>AccessByTxid\<close> counts down a bound, the number of outputs that fit into a block, which is the one of the
  source. Variables the source leaves uninitialised are arguments, and no theorem depends on their value. A block is
  assumed to create no output that is already unspent: the check for it is commented out in \<^verbatim>\<open>ConnectBlock\<close>.

  \<^bold>\<open>Not modelled.\<close> The tree of headers and the choice of the best chain, block and undo files, proof of work, the memory
  pool beyond what consensus code reads of it, relaying, the wallet, the remote calls and the graphical interface: they
  are I/O, scheduling and policy around the modelled rules. Restricted assets and qualifiers are switched off by
  \<^verbatim>\<open>AreRestrictedAssetsDeployed\<close>; their containers stay empty and appear as arguments of the checks. Messages,
  snapshots and rewards keep local databases outside the rules of the chain. The curve, the key-value store and JSON are
  imported libraries. The script checks of a block, its signature-operation limit and its sequence locks are modelled
  in their own theories and not composed into the transaction loop of \<open>XC_ConnectAssets\<close>.
\<close>

end
